(* ===== verification/Store_Prelude.thy ===== *)
theory Store_Prelude
  imports
    Main
    "HOL-Library.Char_ord"
    "HOL-Library.List_Lexorder"
    "HOL-Library.Product_Lexorder"
    "HOL-Library.Option_ord"
    "HOL-Library.Multiset"
begin

section \<open>Shared vocabulary of the durable message store\<close>

text \<open>
  What every component of the development uses: errors as values, the fragment of SQLite that
  the stores are written in (tables as row lists in rowid order, UPDATE, DELETE, INSERT, rowcount),
  the placeholder batching of \<open>agent/inbox_store.py\<close>, Python's order-preserving
  de-duplication, and the generic lemmas on these.

  Conventions. A Python \<open>str\<close> is a \<^typ>\<open>string\<close>, read as its UTF-8 bytes; SQLite compares
  TEXT by bytes and Python compares by code points, and UTF-8 makes both the lexicographic order on
  the bytes. Python ints and SQL INTEGER columns are \<^typ>\<open>int\<close>. A nullable column or an
  optional argument is an \<^typ>\<open>'a option\<close>; SQL's \<open>=\<close> against a value is equality with
  \<^term>\<open>Some v\<close>, which a NULL never satisfies, and SQL's \<open>IS\<close> is equality of options.
  NULL sorts first, as \<^theory_text>\<open>HOL-Library.Option_ord\<close> has it.
  An exception is a value of \<open>store_error\<close>; every transaction rolls back when it raises, so a
  failing operation is \<^term>\<open>Inl\<close> with no state.
\<close>

named_theorems store_defs \<open>definitions of the store's SQL statements\<close>
named_theorems inv_intros \<open>preservation lemmas of the store invariants\<close>
named_theorems row_frame \<open>what a row update leaves alone\<close>

datatype store_error =
    LifecycleConflict string
  | ValueError string
  | IntegrityError string
  | DataNotFound string
  | AssertionFailure

type_synonym 'a res = "store_error + 'a"

text \<open>Sequencing: the rest of a transaction runs when a step did not raise.\<close>

definition res_bind :: "'a res \<Rightarrow> ('a \<Rightarrow> 'b res) \<Rightarrow> 'b res" where
  "res_bind x f = (case x of Inl e \<Rightarrow> Inl e | Inr a \<Rightarrow> f a)"

lemma res_bind_simps [simp]: "res_bind (Inl e) f = Inl e" "res_bind (Inr a) f = f a"
  by (simp_all add: res_bind_def)

lemma res_bind_Inr: "res_bind x f = Inr y \<longleftrightarrow> (\<exists>a. x = Inr a \<and> f a = Inr y)"
  by (cases x) auto

lemma res_bind_InrE:
  assumes "res_bind x f = Inr y"
  obtains a where "x = Inr a" "f a = Inr y"
  using assms by (auto simp: res_bind_Inr)

subsection \<open>Tables\<close>

text \<open>UPDATE ... SET ... WHERE, DELETE ... WHERE, the rowcount of either, and a one-row SELECT.\<close>

definition sql_update :: "('r \<Rightarrow> bool) \<Rightarrow> ('r \<Rightarrow> 'r) \<Rightarrow> 'r list \<Rightarrow> 'r list" where
  "sql_update P f rows = map (\<lambda>r. if P r then f r else r) rows"

definition sql_delete :: "('r \<Rightarrow> bool) \<Rightarrow> 'r list \<Rightarrow> 'r list" where
  "sql_delete P rows = filter (\<lambda>r. \<not> P r) rows"

definition sql_count :: "('r \<Rightarrow> bool) \<Rightarrow> 'r list \<Rightarrow> nat" where
  "sql_count P rows = length (filter P rows)"

definition sql_fetchone :: "('r \<Rightarrow> bool) \<Rightarrow> 'r list \<Rightarrow> 'r option" where
  "sql_fetchone P rows = find P rows"

definition sql_exists :: "('r \<Rightarrow> bool) \<Rightarrow> 'r list \<Rightarrow> bool" where
  "sql_exists P rows = list_ex P rows"

lemma set_sql_update:
  "set (sql_update P f rows) = (\<lambda>r. if P r then f r else r) ` set rows"
  by (simp add: sql_update_def)

lemma sql_update_cong:
  "(\<And>r. r \<in> set rows \<Longrightarrow> P r = Q r) \<Longrightarrow> (\<And>r. r \<in> set rows \<Longrightarrow> Q r \<Longrightarrow> f r = g r)
   \<Longrightarrow> sql_update P f rows = sql_update Q g rows"
  by (simp add: sql_update_def)

lemma sql_update_none: "(\<And>r. r \<in> set rows \<Longrightarrow> \<not> P r) \<Longrightarrow> sql_update P f rows = rows"
  by (simp add: sql_update_def map_idI)

lemma in_sql_updateE:
  assumes "r \<in> set (sql_update P f rows)"
  obtains r0 where "r0 \<in> set rows" "P r0" "r = f r0" | "r \<in> set rows" "\<not> P r"
  using assms by (auto simp: set_sql_update split: if_splits)

lemma sql_update_in: "r \<in> set rows \<Longrightarrow> P r \<Longrightarrow> f r \<in> set (sql_update P f rows)"
  by (auto simp: set_sql_update)

lemma sql_update_other: "r \<in> set rows \<Longrightarrow> \<not> P r \<Longrightarrow> r \<in> set (sql_update P f rows)"
  by (force simp: set_sql_update)

lemma map_sql_update_frame:
  "(\<And>r. r \<in> set rows \<Longrightarrow> P r \<Longrightarrow> k (f r) = k r) \<Longrightarrow> map k (sql_update P f rows) = map k rows"
  by (auto simp: sql_update_def)

lemma length_sql_update [simp]: "length (sql_update P f rows) = length rows"
  by (simp add: sql_update_def)

lemma sql_count_0: "sql_count P rows = 0 \<longleftrightarrow> (\<forall>r\<in>set rows. \<not> P r)"
  by (auto simp: sql_count_def filter_empty_conv)

lemma sql_fetchone_Some: "sql_fetchone P rows = Some r \<Longrightarrow> r \<in> set rows \<and> P r"
  by (induction rows) (auto simp: sql_fetchone_def split: if_splits)

lemma sql_fetchone_None: "sql_fetchone P rows = None \<longleftrightarrow> (\<forall>r\<in>set rows. \<not> P r)"
  by (auto simp: sql_fetchone_def find_None_iff)

lemma sql_exists_iff [simp]: "sql_exists P rows \<longleftrightarrow> (\<exists>r\<in>set rows. P r)"
  by (simp add: sql_exists_def list_ex_iff)

lemma set_sql_delete [simp]: "set (sql_delete P rows) = {r \<in> set rows. \<not> P r}"
  by (simp add: sql_delete_def)

lemma sql_delete_same: "sql_delete P rows = rows \<longleftrightarrow> sql_count P rows = 0"
  by (auto simp: sql_count_def sql_delete_def filter_id_conv filter_empty_conv)

text \<open>A column declared PRIMARY KEY: the rows are determined by their key.\<close>

lemma distinct_map_unique:
  "distinct (map k xs) \<Longrightarrow> x \<in> set xs \<Longrightarrow> y \<in> set xs \<Longrightarrow> k x = k y \<Longrightarrow> x = y"
  by (metis distinct_map inj_onD)

lemma distinct_map_filter_key: "distinct (map k xs) \<Longrightarrow> distinct (map k (filter P xs))"
  by (rule distinct_map_filter)

lemma distinct_map_sql_delete: "distinct (map k xs) \<Longrightarrow> distinct (map k (sql_delete P xs))"
  by (simp add: sql_delete_def distinct_map_filter)

lemma sql_fetchone_key:
  assumes "distinct (map k rows)" "r \<in> set rows"
  shows "sql_fetchone (\<lambda>x. k x = k r) rows = Some r"
proof (cases "sql_fetchone (\<lambda>x. k x = k r) rows")
  case None
  with assms(2) show ?thesis by (auto simp: sql_fetchone_None)
next
  case (Some x)
  then have "x \<in> set rows" "k x = k r" by (auto dest: sql_fetchone_Some)
  with assms have "x = r" by (blast dest: distinct_map_unique)
  with Some show ?thesis by simp
qed

text \<open>The rowcount of an UPDATE by exact keys: every requested key was there exactly when the
  count is the number of keys.\<close>

lemma sql_count_keys:
  assumes "distinct (map k rows)"
  shows "sql_count (\<lambda>r. k r \<in> K \<and> P r) rows = card {k r |r. r \<in> set rows \<and> k r \<in> K \<and> P r}"
proof -
  have "distinct (map k (filter (\<lambda>r. k r \<in> K \<and> P r) rows))"
    using assms by (rule distinct_map_filter_key)
  then have "card (set (map k (filter (\<lambda>r. k r \<in> K \<and> P r) rows)))
      = length (map k (filter (\<lambda>r. k r \<in> K \<and> P r) rows))"
    by (rule distinct_card)
  moreover have "set (map k (filter (\<lambda>r. k r \<in> K \<and> P r) rows))
      = {k r |r. r \<in> set rows \<and> k r \<in> K \<and> P r}"
    by auto
  ultimately show ?thesis by (simp add: sql_count_def)
qed

lemma sql_count_keys_full:
  assumes "distinct (map k rows)" "distinct ids"
    and "sql_count (\<lambda>r. k r \<in> set ids \<and> P r) rows = length ids" "i \<in> set ids"
  shows "\<exists>r\<in>set rows. k r = i \<and> P r"
proof -
  let ?S = "{k r |r. r \<in> set rows \<and> k r \<in> set ids \<and> P r}"
  have "?S \<subseteq> set ids" by auto
  moreover have "card ?S = card (set ids)"
    using assms(2,3) sql_count_keys [OF assms(1), of "set ids" P] by (simp add: distinct_card)
  ultimately have "?S = set ids" by (simp add: card_subset_eq)
  with assms(4) have "i \<in> ?S" by simp
  then show ?thesis by blast
qed

lemma sql_count_keys_all:
  assumes "distinct (map k rows)" "distinct ids"
    and "\<And>i. i \<in> set ids \<Longrightarrow> \<exists>r\<in>set rows. k r = i \<and> P r"
  shows "sql_count (\<lambda>r. k r \<in> set ids \<and> P r) rows = length ids"
proof -
  have "{k r |r. r \<in> set rows \<and> k r \<in> set ids \<and> P r} = set ids"
    using assms(3) by blast
  then show ?thesis
    using assms(2) sql_count_keys [OF assms(1), of "set ids" P] by (simp add: distinct_card)
qed

lemma sql_count_one:
  assumes "distinct (map k rows)"
  shows "sql_count (\<lambda>r. k r = i \<and> P r) rows = (if \<exists>r\<in>set rows. k r = i \<and> P r then 1 else 0)"
proof -
  have "{k r |r. r \<in> set rows \<and> k r \<in> {i} \<and> P r} = (if \<exists>r\<in>set rows. k r = i \<and> P r then {i} else {})"
    by auto
  then show ?thesis
    using sql_count_keys [OF assms, of "{i}" P] by simp
qed

text \<open>
  The interface of a table with a PRIMARY KEY or a UNIQUE column to the code that reads and updates
  it by that column: under the table's invariant a key names one row, a SELECT by key finds it, and
  an UPDATE guarded by key touches that row or none.
\<close>

locale primary_key =
  fixes rows :: "'d \<Rightarrow> 'r list" and key :: "'r \<Rightarrow> 'k" and inv :: "'d \<Rightarrow> bool"
  assumes key_unique: "inv d \<Longrightarrow> distinct (map key (rows d))"
begin

lemma same_key: "inv d \<Longrightarrow> r \<in> set (rows d) \<Longrightarrow> x \<in> set (rows d) \<Longrightarrow> key x = key r \<longleftrightarrow> x = r"
  using key_unique by (auto dest: distinct_map_unique)

lemma fetch_key: "inv d \<Longrightarrow> r \<in> set (rows d) \<Longrightarrow> sql_fetchone (\<lambda>x. key x = key r) (rows d) = Some r"
  using key_unique by (rule sql_fetchone_key)

lemma count_key:
  assumes "inv d" "r \<in> set (rows d)"
  shows "sql_count (\<lambda>x. key x = key r \<and> P x) (rows d) = (if P r then 1 else 0)"
proof -
  have "(\<exists>x\<in>set (rows d). key x = key r \<and> P x) \<longleftrightarrow> P r"
    using assms same_key by blast
  then show ?thesis
    using sql_count_one [OF key_unique [OF assms(1)], of "key r" P] by simp
qed

lemma update_key:
  assumes "inv d" "r \<in> set (rows d)"
  shows "sql_update (\<lambda>x. key x = key r \<and> P x) f (rows d)
      = (if P r then sql_update (\<lambda>x. x = r) f (rows d) else rows d)"
proof -
  have "sql_update (\<lambda>x. key x = key r \<and> P x) f (rows d) = sql_update (\<lambda>x. x = r \<and> P r) f (rows d)"
    by (rule sql_update_cong) (use assms same_key in auto)
  then show ?thesis by (simp add: sql_update_none)
qed

end

text \<open>
  The interface of a transactional store to the code that calls it in any order: every operation
  keeps the invariant and moves the data along a preorder. A client that only issues operations
  then sees both over any number of them.
\<close>

locale evolving_store =
  fixes step :: "'op \<Rightarrow> 'd \<Rightarrow> 'd" and inv :: "'d \<Rightarrow> bool" and evolves :: "'d \<Rightarrow> 'd \<Rightarrow> bool"
  assumes step_inv: "inv d \<Longrightarrow> inv (step op d)"
    and step_evolves: "inv d \<Longrightarrow> evolves d (step op d)"
    and evolves_refl: "evolves d d"
    and evolves_trans: "evolves d d' \<Longrightarrow> evolves d' d'' \<Longrightarrow> evolves d d''"
begin

lemma run_inv: "inv d \<Longrightarrow> inv (fold step ops d)"
  by (induction ops arbitrary: d) (simp_all add: step_inv)

lemma run_evolves: "inv d \<Longrightarrow> evolves d (fold step ops d)"
proof (induction ops arbitrary: d)
  case Nil
  then show ?case by (simp add: evolves_refl)
next
  case (Cons op ops)
  then have "evolves d (step op d)" "evolves (step op d) (fold step ops (step op d))"
    by (simp_all add: step_inv step_evolves)
  then show ?case by (simp add: evolves_trans)
qed

end

subsection \<open>Identifier batches\<close>

text \<open>
  \<open>agent/inbox_store.py\<close>, \<open>_batched_select_ids\<close>: a first-column SELECT restricted to a tuple of
  ids runs in slices of at most 500 placeholders, whose results are united.
\<close>

definition SQLITE_ID_BATCH_SIZE :: nat where
  "SQLITE_ID_BATCH_SIZE = 500"

function batched_select_ids ::
  "('r \<Rightarrow> string) \<Rightarrow> ('r \<Rightarrow> bool) \<Rightarrow> 'r list \<Rightarrow> string list \<Rightarrow> string set" where
  "batched_select_ids k P rows ids =
     (if ids = [] then {}
      else (let batch = take SQLITE_ID_BATCH_SIZE ids
            in set (map k (filter (\<lambda>r. k r \<in> set batch \<and> P r) rows))
               \<union> batched_select_ids k P rows (drop SQLITE_ID_BATCH_SIZE ids)))"
  by pat_completeness auto
termination
  by (relation "measure (\<lambda>(k, P, rows, ids). length ids)")
     (auto simp: SQLITE_ID_BATCH_SIZE_def)

declare batched_select_ids.simps [simp del]

lemma batched_select_ids_eq:
  "batched_select_ids k P rows ids = {k r |r. r \<in> set rows \<and> k r \<in> set ids \<and> P r}"
proof (induction k P rows ids rule: batched_select_ids.induct)
  case (1 k P rows ids)
  show ?case
  proof (cases "ids = []")
    case True
    then show ?thesis by (simp add: batched_select_ids.simps)
  next
    case False
    have split: "set ids = set (take SQLITE_ID_BATCH_SIZE ids) \<union> set (drop SQLITE_ID_BATCH_SIZE ids)"
      by (metis append_take_drop_id set_append)
    from False "1.IH" have "batched_select_ids k P rows ids =
        set (map k (filter (\<lambda>r. k r \<in> set (take SQLITE_ID_BATCH_SIZE ids) \<and> P r) rows))
        \<union> {k r |r. r \<in> set rows \<and> k r \<in> set (drop SQLITE_ID_BATCH_SIZE ids) \<and> P r}"
      by (subst batched_select_ids.simps) (simp add: Let_def)
    also have "\<dots> = {k r |r. r \<in> set rows \<and> k r \<in> set ids \<and> P r}"
      unfolding split by auto
    finally show ?thesis .
  qed
qed

lemma card_batched_select_ids:
  "distinct (map k rows) \<Longrightarrow>
   card (batched_select_ids k P rows ids) = sql_count (\<lambda>r. k r \<in> set ids \<and> P r) rows"
  by (simp add: batched_select_ids_eq sql_count_keys)

text \<open>The batch covers its ids when its size is the number of ids asked for.\<close>

lemma batched_select_ids_full:
  "card (batched_select_ids k P rows ids) = length ids \<longleftrightarrow>
     distinct ids \<and> (\<forall>i\<in>set ids. \<exists>r\<in>set rows. k r = i \<and> P r)"
proof -
  let ?S = "batched_select_ids k P rows ids"
  have sub: "?S \<subseteq> set ids" by (auto simp: batched_select_ids_eq)
  have le: "card ?S \<le> card (set ids)" "card (set ids) \<le> length ids"
    using sub by (simp_all add: card_mono card_length)
  have "card ?S = length ids \<longleftrightarrow> card ?S = card (set ids) \<and> card (set ids) = length ids"
    using le by linarith
  also have "\<dots> \<longleftrightarrow> ?S = set ids \<and> distinct ids"
    using card_subset_eq [OF _ sub] by (metis List.finite_set card_distinct distinct_card)
  also have "?S = set ids \<longleftrightarrow> (\<forall>i\<in>set ids. \<exists>r\<in>set rows. k r = i \<and> P r)"
  proof
    assume eq: "?S = set ids"
    show "\<forall>i\<in>set ids. \<exists>r\<in>set rows. k r = i \<and> P r"
    proof
      fix i assume "i \<in> set ids"
      then have "i \<in> ?S" by (simp only: eq)
      then show "\<exists>r\<in>set rows. k r = i \<and> P r" by (auto simp: batched_select_ids_eq)
    qed
  next
    assume "\<forall>i\<in>set ids. \<exists>r\<in>set rows. k r = i \<and> P r"
    then have "i \<in> ?S" if "i \<in> set ids" for i
      using that unfolding batched_select_ids_eq by fastforce
    then have "set ids \<subseteq> ?S" by blast
    with sub show "?S = set ids" by blast
  qed
  finally show ?thesis by blast
qed

subsection \<open>Order-preserving de-duplication\<close>

text \<open>Python's \<open>tuple(dict.fromkeys(xs))\<close>: the first occurrence of each element, in order.\<close>

fun dict_fromkeys :: "'a list \<Rightarrow> 'a list" where
  "dict_fromkeys [] = []"
| "dict_fromkeys (x # xs) = x # dict_fromkeys (filter (\<lambda>y. y \<noteq> x) xs)"

lemma set_dict_fromkeys [simp]: "set (dict_fromkeys xs) = set xs"
  by (induction xs rule: dict_fromkeys.induct) auto

lemma distinct_dict_fromkeys [simp]: "distinct (dict_fromkeys xs)"
  by (induction xs rule: dict_fromkeys.induct) auto

lemma dict_fromkeys_id: "distinct xs \<Longrightarrow> dict_fromkeys xs = xs"
  by (induction xs rule: dict_fromkeys.induct) (auto simp: filter_id_conv)

subsection \<open>INSERT OR IGNORE on a keyed table\<close>

fun insert_or_ignore :: "('k \<times> 'v) list \<Rightarrow> ('k \<times> 'v) list \<Rightarrow> ('k \<times> 'v) list" where
  "insert_or_ignore tbl [] = tbl"
| "insert_or_ignore tbl ((k, v) # kvs) =
     insert_or_ignore (if k \<in> fst ` set tbl then tbl else tbl @ [(k, v)]) kvs"

lemma insert_or_ignore_keys:
  "fst ` set (insert_or_ignore tbl kvs) = fst ` set tbl \<union> fst ` set kvs"
  by (induction tbl kvs rule: insert_or_ignore.induct) auto

lemma insert_or_ignore_subset:
  "set (insert_or_ignore tbl kvs) \<subseteq> set tbl \<union> set kvs"
  by (induction tbl kvs rule: insert_or_ignore.induct) (auto split: if_splits)

lemma insert_or_ignore_super: "set tbl \<subseteq> set (insert_or_ignore tbl kvs)"
  by (induction tbl kvs rule: insert_or_ignore.induct) (auto split: if_splits)

lemma distinct_insert_or_ignore:
  "distinct (map fst tbl) \<Longrightarrow> distinct (map fst (insert_or_ignore tbl kvs))"
  by (induction tbl kvs rule: insert_or_ignore.induct) auto

lemma insert_or_ignore_length:
  "length tbl \<le> length (insert_or_ignore tbl kvs)"
  by (induction tbl kvs rule: insert_or_ignore.induct) (auto split: if_splits)

lemma insert_or_ignore_same:
  "length (insert_or_ignore tbl kvs) = length tbl \<longleftrightarrow> fst ` set kvs \<subseteq> fst ` set tbl"
proof (induction tbl kvs rule: insert_or_ignore.induct)
  case (1 tbl)
  then show ?case by simp
next
  case (2 tbl k v kvs)
  show ?case
  proof (cases "k \<in> fst ` set tbl")
    case True
    with 2 show ?thesis by simp
  next
    case False
    then have "length tbl < length (insert_or_ignore (tbl @ [(k, v)]) kvs)"
      using insert_or_ignore_length [of "tbl @ [(k, v)]" kvs] by simp
    with False show ?thesis by auto
  qed
qed

subsection \<open>Lists\<close>

lemma subset_image_restrict: "A \<subseteq> f ` C \<Longrightarrow> A \<subseteq> f ` {c \<in> C. f c \<in> A}"
  by auto

lemma sort_key_append_le:
  assumes "\<And>x y. x \<in> set xs \<Longrightarrow> y \<in> set ys \<Longrightarrow> f x \<le> f y" "sorted (map f ys)"
  shows "sort_key f (xs @ ys) = sort_key f xs @ ys"
proof (rule properties_for_sort_key)
  show "filter (\<lambda>x. f k = f x) (sort_key f xs @ ys) = filter (\<lambda>x. f k = f x) (xs @ ys)" for k
    using sort_key_stable [of f "f k" xs] by (simp add: eq_commute)
  show "sorted (map f (sort_key f xs @ ys))"
    using assms by (auto simp: sorted_append)
qed simp

lemma length_card_set [simp]:
  "length xs = card (set xs) \<longleftrightarrow> distinct xs" "card (set xs) = length xs \<longleftrightarrow> distinct xs"
  by (metis card_distinct distinct_card)+

lemma sorted_le_last: "sorted (map f xs) \<Longrightarrow> x \<in> set xs \<Longrightarrow> f x \<le> f (last xs)"
  by (induction xs) auto

lemma sorted_key_le:
  "sorted (map f xs) \<Longrightarrow> i \<le> j \<Longrightarrow> j < length xs \<Longrightarrow> f (xs ! i) \<le> f (xs ! j)"
  using sorted_nth_mono [of "map f xs" i j] by simp

lemma length_filter_eq_iff_set:
  assumes "distinct (map k xs)" "distinct (map k ys)"
    and "k ` set (filter P xs) \<subseteq> k ` set (filter Q ys)"
  shows "length (filter P xs) = length (filter Q ys) \<longleftrightarrow> k ` set (filter P xs) = k ` set (filter Q ys)"
proof -
  have dx: "card (k ` set (filter P xs)) = length (filter P xs)"
    using distinct_card [OF distinct_map_filter_key [OF assms(1), of P]] by simp
  have dy: "card (k ` set (filter Q ys)) = length (filter Q ys)"
    using distinct_card [OF distinct_map_filter_key [OF assms(2), of Q]] by simp
  show ?thesis
    using dx dy card_subset_eq [OF _ assms(3)] by auto
qed

end
