(* ===== verification/Json_Text.thy ===== *)
theory Json_Text
  imports Store_Prelude
begin

section \<open>JSON text\<close>

text \<open>
  The values that Python's \<open>json\<close> module reads and writes, and its printer as the stores call it:
  \<open>json.dumps(value, ensure_ascii=False, separators=(",", ":"))\<close>. An object is an association
  list in the dict's insertion order. A float is kept as the text of its \<open>repr\<close>; the stores
  never compute with one.
\<close>

datatype json =
    JNull
  | JBool bool
  | JInt int
  | JFloat string
  | JStr string
  | JArr "json list"
  | JObj "(string \<times> json) list"

subsection \<open>Decimal numerals\<close>

definition digit_char :: "nat \<Rightarrow> char" where
  "digit_char d = char_of (48 + d)"

fun nat_dec :: "nat \<Rightarrow> string" where
  "nat_dec n = (if n < 10 then [digit_char n] else nat_dec (n div 10) @ [digit_char (n mod 10)])"

declare nat_dec.simps [simp del]

definition int_dec :: "int \<Rightarrow> string" where
  "int_dec i = (if i < 0 then CHR ''-'' # nat_dec (nat (- i)) else nat_dec (nat i))"

subsection \<open>Strings\<close>

definition hex_digit :: "nat \<Rightarrow> char" where
  "hex_digit d = (if d < 10 then char_of (48 + d) else char_of (87 + d))"

text \<open>The escapes of \<open>json.encoder.ESCAPE_DCT\<close>; every other control character below 0x20 is
  written as a four-digit hexadecimal escape, everything else stands for itself.\<close>

definition escape_char :: "char \<Rightarrow> string" where
  "escape_char c =
     (if c = CHR 0x22 then [CHR 0x5C, CHR 0x22]
      else if c = CHR 0x5C then [CHR 0x5C, CHR 0x5C]
      else if c = CHR 0x08 then [CHR 0x5C, CHR ''b'']
      else if c = CHR 0x0C then [CHR 0x5C, CHR ''f'']
      else if c = CHR 0x0A then [CHR 0x5C, CHR ''n'']
      else if c = CHR 0x0D then [CHR 0x5C, CHR ''r'']
      else if c = CHR 0x09 then [CHR 0x5C, CHR ''t'']
      else if of_char c < (32::nat)
           then [CHR 0x5C, CHR ''u'', CHR ''0'', CHR ''0'',
                 hex_digit (of_char c div 16), hex_digit (of_char c mod 16)]
      else [c])"

definition dump_string :: "string \<Rightarrow> string" where
  "dump_string s = CHR 0x22 # concat (map escape_char s) @ [CHR 0x22]"

subsection \<open>Values\<close>

fun intersperse_comma :: "string list \<Rightarrow> string" where
  "intersperse_comma [] = []"
| "intersperse_comma [s] = s"
| "intersperse_comma (s # t # ts) = s @ CHR '','' # intersperse_comma (t # ts)"

fun json_dumps :: "json \<Rightarrow> string" where
  "json_dumps JNull = ''null''"
| "json_dumps (JBool b) = (if b then ''true'' else ''false'')"
| "json_dumps (JInt i) = int_dec i"
| "json_dumps (JFloat r) = r"
| "json_dumps (JStr s) = dump_string s"
| "json_dumps (JArr vs) = CHR ''['' # intersperse_comma (map json_dumps vs) @ '']''"
| "json_dumps (JObj kvs) =
     CHR ''{'' # intersperse_comma (map (\<lambda>(k, v). dump_string k @ CHR '':'' # json_dumps v) kvs) @ ''}''"

text \<open>\<open>value.get(key)\<close> on a dict; the first pair wins, a dict having one pair per key.\<close>

definition json_get :: "json \<Rightarrow> string \<Rightarrow> json option" where
  "json_get v k = (case v of JObj kvs \<Rightarrow> map_of kvs k | _ \<Rightarrow> None)"

subsection \<open>Reading: numbers\<close>

text \<open>The pure-Python reference scanner of \<open>json.scanner\<close> and \<open>json.decoder\<close>, with
  \<open>strict=True\<close>, as \<open>json.loads\<close> runs it.\<close>

definition is_digit :: "char \<Rightarrow> bool" where
  "is_digit c \<longleftrightarrow> 48 \<le> (of_char c :: nat) \<and> (of_char c :: nat) \<le> 57"

definition dec_nat :: "string \<Rightarrow> nat" where
  "dec_nat s = foldl (\<lambda>n c. 10 * n + (of_char c - 48)) 0 s"

definition starts_with :: "string \<Rightarrow> string \<Rightarrow> bool" where
  "starts_with p s \<longleftrightarrow> take (length p) s = p"

text \<open>\<open>(-?(?:0|[1-9][0-9]*))\<close>, then the optional fraction \<open>(\.[0-9]+)?\<close> and exponent
  \<open>([eE][-+]?[0-9]+)?\<close>.\<close>

definition scan_int_part :: "string \<Rightarrow> (string \<times> string) option" where
  "scan_int_part s =
     (case s of [] \<Rightarrow> None
      | c # cs \<Rightarrow> if c = CHR ''0'' then Some (''0'', cs)
                  else if is_digit c then Some (takeWhile is_digit s, dropWhile is_digit s)
                  else None)"

definition scan_frac :: "string \<Rightarrow> string \<times> string" where
  "scan_frac s =
     (case s of [] \<Rightarrow> ([], s)
      | c # cs \<Rightarrow> if c = CHR ''.'' \<and> takeWhile is_digit cs \<noteq> []
                  then (c # takeWhile is_digit cs, dropWhile is_digit cs) else ([], s))"

definition scan_sign :: "string \<Rightarrow> string \<times> string" where
  "scan_sign s = (case s of [] \<Rightarrow> ([], s)
                  | c # cs \<Rightarrow> if c = CHR ''-'' \<or> c = CHR ''+'' then ([c], cs) else ([], s))"

definition scan_exp :: "string \<Rightarrow> string \<times> string" where
  "scan_exp s =
     (case s of [] \<Rightarrow> ([], s)
      | c # cs \<Rightarrow> if c = CHR ''e'' \<or> c = CHR ''E''
                  then (let (sg, ds) = scan_sign cs
                        in if takeWhile is_digit ds \<noteq> []
                           then (c # sg @ takeWhile is_digit ds, dropWhile is_digit ds) else ([], s))
                  else ([], s))"

definition scan_number :: "string \<Rightarrow> (json \<times> string) option" where
  "scan_number s =
     (let neg = starts_with ''-'' s; body = (if neg then tl s else s)
      in case scan_int_part body of None \<Rightarrow> None
         | Some (ds, r1) \<Rightarrow>
             (let (fr, r2) = scan_frac r1; (ex, r3) = scan_exp r2
              in if fr = [] \<and> ex = []
                 then Some (JInt (if neg then - int (dec_nat ds) else int (dec_nat ds)), r1)
                 else Some (JFloat ((if neg then ''-'' else []) @ ds @ fr @ ex), r3)))"

subsection \<open>Reading: strings\<close>

definition hex_value :: "char \<Rightarrow> nat option" where
  "hex_value c =
     (let n = of_char c
      in if 48 \<le> n \<and> n \<le> 57 then Some (n - 48)
         else if 65 \<le> n \<and> n \<le> 70 then Some (n - 55)
         else if 97 \<le> n \<and> n \<le> 102 then Some (n - 87)
         else None)"

text \<open>\<open>_decode_uXXXX\<close>: four hexadecimal digits.\<close>

definition decode_uXXXX :: "string \<Rightarrow> (nat \<times> string) option" where
  "decode_uXXXX s =
     (if length s < 4 then None
      else case (hex_value (s ! 0), hex_value (s ! 1), hex_value (s ! 2), hex_value (s ! 3)) of
             (Some a, Some b, Some c, Some d) \<Rightarrow> Some (((a * 16 + b) * 16 + c) * 16 + d, drop 4 s)
           | _ \<Rightarrow> None)"

text \<open>\<open>chr(uni)\<close> as UTF-8 bytes.\<close>

definition utf8_char :: "nat \<Rightarrow> string" where
  "utf8_char u =
     (if u < 128 then [char_of u]
      else if u < 2048 then [char_of (192 + u div 64), char_of (128 + u mod 64)]
      else if u < 65536 then [char_of (224 + u div 4096), char_of (128 + u div 64 mod 64),
                              char_of (128 + u mod 64)]
      else [char_of (240 + u div 262144), char_of (128 + u div 4096 mod 64),
            char_of (128 + u div 64 mod 64), char_of (128 + u mod 64)])"

definition decode_unicode_escape :: "string \<Rightarrow> (string \<times> string) option" where
  "decode_unicode_escape s =
     (case decode_uXXXX s of None \<Rightarrow> None
      | Some (u, r) \<Rightarrow>
          if 55296 \<le> u \<and> u \<le> 56319 \<and> starts_with [CHR 0x5C, CHR ''u''] r
          then (case decode_uXXXX (drop 2 r) of None \<Rightarrow> None
                | Some (u2, r2) \<Rightarrow>
                    if 56320 \<le> u2 \<and> u2 \<le> 57343
                    then Some (utf8_char (65536 + (u - 55296) * 1024 + (u2 - 56320)), r2)
                    else Some (utf8_char u, r))
          else Some (utf8_char u, r))"

definition backslash_char :: "char \<Rightarrow> char option" where
  "backslash_char c =
     (if c = CHR 0x22 then Some (CHR 0x22)
      else if c = CHR 0x5C then Some (CHR 0x5C)
      else if c = CHR ''/'' then Some (CHR ''/'')
      else if c = CHR ''b'' then Some (CHR 0x08)
      else if c = CHR ''f'' then Some (CHR 0x0C)
      else if c = CHR ''n'' then Some (CHR 0x0A)
      else if c = CHR ''r'' then Some (CHR 0x0D)
      else if c = CHR ''t'' then Some (CHR 0x09)
      else None)"

lemma decode_uXXXX_shorter: "decode_uXXXX s = Some (u, r) \<Longrightarrow> length r < length s"
  by (auto simp: decode_uXXXX_def split: if_splits option.splits)

lemma decode_unicode_escape_shorter:
  "decode_unicode_escape s = Some (x, r) \<Longrightarrow> length r < length s"
  by (auto simp: decode_unicode_escape_def split: if_splits option.splits
      dest!: decode_uXXXX_shorter)

text \<open>\<open>scanstring\<close>, from the character after the opening quote.\<close>

function scan_string :: "string \<Rightarrow> (string \<times> string) option" where
  "scan_string s =
     (case s of [] \<Rightarrow> None
      | c # cs \<Rightarrow>
          if c = CHR 0x22 then Some ([], cs)
          else if c = CHR 0x5C
          then (case cs of [] \<Rightarrow> None
                | e # ds \<Rightarrow>
                    if e = CHR ''u''
                    then (case decode_unicode_escape ds of None \<Rightarrow> None
                          | Some (x, r) \<Rightarrow> map_option (\<lambda>(t, q). (x @ t, q)) (scan_string r))
                    else (case backslash_char e of None \<Rightarrow> None
                          | Some x \<Rightarrow> map_option (\<lambda>(t, q). (x # t, q)) (scan_string ds)))
          else if of_char c < (32::nat) then None
          else map_option (\<lambda>(t, q). (c # t, q)) (scan_string cs))"
  by pat_completeness auto
termination
  by (relation "measure length") (auto dest!: decode_unicode_escape_shorter)

declare scan_string.simps [simp del]

subsection \<open>Reading: values\<close>

definition is_ws :: "char \<Rightarrow> bool" where
  "is_ws c \<longleftrightarrow> c = CHR '' '' \<or> c = CHR 0x09 \<or> c = CHR 0x0A \<or> c = CHR 0x0D"

definition skip_ws :: "string \<Rightarrow> string" where
  "skip_ws s = dropWhile is_ws s"

text \<open>\<open>dict(pairs)\<close>: a repeated key keeps its first position and takes its last value.\<close>

fun dict_set :: "('k \<times> 'v) list \<Rightarrow> 'k \<Rightarrow> 'v \<Rightarrow> ('k \<times> 'v) list" where
  "dict_set [] k v = [(k, v)]"
| "dict_set ((k', v') # kvs) k v =
     (if k' = k then (k, v) # kvs else (k', v') # dict_set kvs k v)"

definition dict_of_pairs :: "('k \<times> 'v) list \<Rightarrow> ('k \<times> 'v) list" where
  "dict_of_pairs kvs = foldl (\<lambda>d (k, v). dict_set d k v) [] kvs"

definition scan_literal :: "string \<Rightarrow> (json \<times> string) option" where
  "scan_literal s =
     (if starts_with ''null'' s then Some (JNull, drop 4 s)
      else if starts_with ''true'' s then Some (JBool True, drop 4 s)
      else if starts_with ''false'' s then Some (JBool False, drop 5 s)
      else case scan_number s of Some vr \<Rightarrow> Some vr
           | None \<Rightarrow>
               if starts_with ''NaN'' s then Some (JFloat ''NaN'', drop 3 s)
               else if starts_with ''Infinity'' s then Some (JFloat ''Infinity'', drop 8 s)
               else if starts_with ''-Infinity'' s then Some (JFloat ''-Infinity'', drop 9 s)
               else None)"

fun scan_once :: "nat \<Rightarrow> string \<Rightarrow> (json \<times> string) option"
  and scan_members :: "nat \<Rightarrow> string \<Rightarrow> ((string \<times> json) list \<times> string) option"
  and scan_elements :: "nat \<Rightarrow> string \<Rightarrow> (json list \<times> string) option" where
  "scan_once 0 s = None"
| "scan_once (Suc f) s =
     (case s of [] \<Rightarrow> None
      | c # cs \<Rightarrow>
          if c = CHR 0x22 then map_option (\<lambda>(t, r). (JStr t, r)) (scan_string cs)
          else if c = CHR ''{''
          then (case skip_ws cs of [] \<Rightarrow> None
                | d # ds \<Rightarrow>
                    if d = CHR ''}'' then Some (JObj [], ds)
                    else if d = CHR 0x22
                    then map_option (\<lambda>(kvs, r). (JObj (dict_of_pairs kvs), r)) (scan_members f ds)
                    else None)
          else if c = CHR ''[''
          then (case skip_ws cs of [] \<Rightarrow> None
                | d # ds \<Rightarrow>
                    if d = CHR '']'' then Some (JArr [], ds)
                    else map_option (\<lambda>(vs, r). (JArr vs, r)) (scan_elements f (d # ds)))
          else scan_literal s)"
| "scan_members 0 s = None"
| "scan_members (Suc f) s =
     (case scan_string s of None \<Rightarrow> None
      | Some (k, r) \<Rightarrow>
          (case skip_ws r of [] \<Rightarrow> None
           | c # cs \<Rightarrow>
               if c \<noteq> CHR '':'' then None
               else (case scan_once f (skip_ws cs) of None \<Rightarrow> None
                     | Some (v, r2) \<Rightarrow>
                         (case skip_ws r2 of [] \<Rightarrow> None
                          | d # ds \<Rightarrow>
                              if d = CHR ''}'' then Some ([(k, v)], ds)
                              else if d = CHR '',''
                              then (case skip_ws ds of [] \<Rightarrow> None
                                    | e # es \<Rightarrow>
                                        if e = CHR 0x22
                                        then map_option (\<lambda>(kvs, q). ((k, v) # kvs, q)) (scan_members f es)
                                        else None)
                              else None))))"
| "scan_elements 0 s = None"
| "scan_elements (Suc f) s =
     (case scan_once f s of None \<Rightarrow> None
      | Some (v, r) \<Rightarrow>
          (case skip_ws r of [] \<Rightarrow> None
           | d # ds \<Rightarrow>
               if d = CHR '']'' then Some ([v], ds)
               else if d = CHR '',''
               then map_option (\<lambda>(vs, q). (v # vs, q)) (scan_elements f (skip_ws ds))
               else None))"

text \<open>\<open>json.loads\<close>: \<^term>\<open>None\<close> stands for \<open>json.JSONDecodeError\<close>. Every call of the
  scanner consumes a character, so twice the length bounds the depth of the calls.\<close>

definition json_loads :: "string \<Rightarrow> json option" where
  "json_loads s =
     (case scan_once (2 * length s + 2) (skip_ws s) of None \<Rightarrow> None
      | Some (v, r) \<Rightarrow> if skip_ws r = [] then Some v else None)"

end
