(* ===== verification/Store_Schema.thy ===== *)
theory Store_Schema
  imports Json_Text
begin

section \<open>The durable state: rows, tables, targets\<close>

text \<open>
  The value types of \<open>agent/message_store_models.py\<close>, the SQLite schema of
  \<open>agent/message_store.py\<close> as one record of tables, the content codec, and the projection of a
  row to its Inbox target (\<open>agent/message_projection.py\<close>, \<open>InboxStoreMixin.target_projection\<close>)
  with its parser \<open>parse_inbox_target\<close>.
\<close>

subsection \<open>Enumerations\<close>

datatype receipt_disposition = ELIGIBLE | TERMINAL | FOREIGN_DM_GATED | LOCAL_RUNTIME

datatype processing_state = PENDING | IN_TURN | PROCESSED

datatype receipt_write_status = COMMITTED | IDEMPOTENT | CONFLICT

text \<open>\<open>turn_runs.state\<close> is TEXT: the value of a processing state, or \<open>requeued\<close>.\<close>

fun processing_state_value :: "processing_state \<Rightarrow> string" where
  "processing_state_value PENDING = ''pending''"
| "processing_state_value IN_TURN = ''in_turn''"
| "processing_state_value PROCESSED = ''processed''"

subsection \<open>Rows\<close>

record message_row =
  envelope_id :: string
  envelope_kind :: string
  sender_slug :: string
  channel_id :: "string option"
  space_id :: "string option"
  recipient_slug :: "string option"
  content_type :: string
  content :: string
  sent_at :: int
  received_at :: int
  thread_root_id :: "string option"
  reply_to_id :: "string option"
  thread_root_unverified :: bool
  is_encrypted :: bool
  server_seq :: "int option"
  receipt_disposition :: "receipt_disposition option"
  receipt_reason :: "string option"
  processing_state :: "processing_state option"
  processing_turn_id :: "string option"
  model_visible_at :: "int option"
  processed_at :: "int option"
  local_ordinal :: "int option"
  after_server_seq :: "int option"
  renotified :: bool

record turn_row =
  tr_turn_id :: string
  tr_provider_session_id :: "string option"
  tr_state :: string
  tr_started_at :: int
  tr_completed_at :: "int option"

record member_row =
  trm_turn_id :: string
  trm_envelope_id :: string
  trm_ordinal :: int

record cover_row =
  cv_covered_envelope_id :: string
  cv_by_envelope_id :: "string option"
  cv_source :: string
  cv_note :: "string option"
  cv_turn_id :: "string option"
  cv_created_at :: int

record InboxNoticeState =
  generation :: int
  pending_count :: int
  first_pending_deadline_ms :: "int option"
  last_delivered_generation :: int
  last_delivered_provider_session_id :: "string option"

text \<open>One row of \<open>reminder_occurrences\<close>; \<open>ReminderOccurrence\<close> and \<open>ReminderSyncRecord\<close> are
  projections of it.\<close>

record reminder_row =
  reminder_id :: string
  occurrence_id :: string
  rem_target :: string
  rem_content :: string
  intended_at_ms :: int
  rem_state :: string
  created_at_ms :: int
  claimed_at_ms :: "int option"
  actual_fire_at_ms :: "int option"
  cancelled_at_ms :: "int option"
  delivered_at_ms :: "int option"
  delivered_event_id :: "string option"
  revision :: int
  server_ack_revision :: int
  payload_format :: "string option"
  opaque_payload :: "string option"
  sync_retry_after_ms :: "int option"
  sync_retry_count :: int
  sync_permanent_revision :: "int option"
  sync_permanent_code :: "string option"
  delivery_claim_id :: "string option"
  delivery_claim_acquired :: bool
  delivery_claim_expires_at_ms :: "int option"
  snapshot_conflict :: bool

subsection \<open>The database\<close>

text \<open>The tables of \<open>_BASE_SCHEMA\<close> and \<open>_DEPENDENT_SCHEMA\<close>. The three singleton tables
  (\<open>local_ordinal_allocator\<close>, \<open>server_sequence_high_water\<close>, \<open>inbox_notice_state\<close>), which the
  schema script fills with \<open>INSERT OR IGNORE\<close> when it creates them, are plain values.\<close>

record db =
  messages :: "message_row list"
  channel_intro_prompted :: "(string \<times> int) list"
  channel_space_map :: "(string \<times> string \<times> int) list"
  dm_notices :: "(string \<times> int) list"
  message_covers :: "cover_row list"
  channel_context_state :: "((string \<times> string) \<times> int \<times> int) list"
  turn_runs :: "turn_row list"
  turn_run_messages :: "member_row list"
  next_ordinal :: int
  high_water :: int
  notice :: InboxNoticeState
  notice_contributions :: "(string \<times> string) list"
  reminder_occurrences :: "reminder_row list"

definition initial_notice :: InboxNoticeState where
  "initial_notice =
     \<lparr>generation = 0, pending_count = 0, first_pending_deadline_ms = None,
      last_delivered_generation = 0, last_delivered_provider_session_id = None\<rparr>"

definition empty_db :: db where
  "empty_db =
     \<lparr>messages = [], channel_intro_prompted = [], channel_space_map = [], dm_notices = [],
      message_covers = [], channel_context_state = [], turn_runs = [], turn_run_messages = [],
      next_ordinal = 1, high_water = 0, notice = initial_notice, notice_contributions = [],
      reminder_occurrences = []\<rparr>"

subsection \<open>Results\<close>

record ReceiptResult =
  rr_status :: receipt_write_status
  rr_disposition :: receipt_disposition
  rr_reason :: string
  rr_acknowledge :: bool

record TurnRun =
  run_turn_id :: string
  run_provider_session_id :: "string option"
  run_state :: string
  run_message_ids :: "string list"
  run_started_at :: int
  run_completed_at :: "int option"

text \<open>\<open>InboxNoticeState.delivery_pending\<close> and \<open>InboxNoticeState.is_due_for\<close>. A session id that is
  \<open>None\<close> or empty is no session.\<close>

definition truthy :: "string option \<Rightarrow> bool" where
  "truthy s \<longleftrightarrow> s \<noteq> None \<and> s \<noteq> Some []"

definition delivery_pending :: "InboxNoticeState \<Rightarrow> bool" where
  "delivery_pending n \<longleftrightarrow>
     pending_count n > 0 \<and>
     (generation n \<noteq> last_delivered_generation n
      \<or> \<not> truthy (last_delivered_provider_session_id n))"

definition is_due_for :: "InboxNoticeState \<Rightarrow> string option \<Rightarrow> bool" where
  "is_due_for n session =
     (if pending_count n \<le> 0 then False
      else if \<not> truthy session then delivery_pending n
      else generation n \<noteq> last_delivered_generation n
           \<or> session \<noteq> last_delivered_provider_session_id n)"

subsection \<open>Content codec\<close>

definition CONTENT_JSON_PREFIX :: string where
  "CONTENT_JSON_PREFIX = CHR 0x1E # ''PUFFO_CONTENT_JSON_V1:''"

definition encode_content :: "json \<Rightarrow> string" where
  "encode_content v = CONTENT_JSON_PREFIX @ json_dumps v"

definition ends_with :: "string \<Rightarrow> string \<Rightarrow> bool" where
  "ends_with q s \<longleftrightarrow> length q \<le> length s \<and> drop (length s - length q) s = q"

definition decode_content :: "string \<Rightarrow> string \<Rightarrow> receipt_disposition option \<Rightarrow> json" where
  "decode_content raw ctype disp =
     (if starts_with CONTENT_JSON_PREFIX raw
      then (case json_loads (drop (length CONTENT_JSON_PREFIX) raw) of
              Some v \<Rightarrow> v | None \<Rightarrow> JStr raw)
      else if ends_with ''+json'' ctype \<or> ctype = ''application/json''
           \<or> ctype = ''puffo/message+attachments/v1''
           \<or> disp = Some ELIGIBLE \<or> disp = Some LOCAL_RUNTIME
      then (case json_loads raw of Some v \<Rightarrow> v | None \<Rightarrow> JStr raw)
      else JStr raw)"

text \<open>\<open>_row_to_msg\<close>: a \<open>StoredMessage\<close> is the row, its content decoded.\<close>

definition row_content :: "message_row \<Rightarrow> json" where
  "row_content m = decode_content (content m) (content_type m) (receipt_disposition m)"

definition DENIED_DM_PLACEHOLDER :: string where
  "DENIED_DM_PLACEHOLDER = ''[message from a denied sender was discarded]''"

subsection \<open>Payloads\<close>

text \<open>An inbound payload: a dict or an object whose attributes may be missing.\<close>

record payload =
  p_envelope_id :: "string option"
  p_envelope_kind :: "string option"
  p_sender_slug :: "string option"
  p_channel_id :: "string option"
  p_space_id :: "string option"
  p_recipient_slug :: "string option"
  p_content_type :: "string option"
  p_content :: "json option"
  p_sent_at :: "int option"
  p_thread_root_id :: "string option"
  p_reply_to_id :: "string option"
  p_thread_root_unverified :: "bool option"
  p_is_encrypted :: "bool option"

definition get_default :: "'a option \<Rightarrow> 'a \<Rightarrow> 'a" where
  "get_default x d = (case x of Some v \<Rightarrow> v | None \<Rightarrow> d)"

text \<open>\<open>MessageStore._payload_values\<close>, as the row an INSERT of those columns makes: the columns the
  statement does not name are NULL, \<open>renotified\<close> takes its default 0.\<close>

definition payload_values :: "int \<Rightarrow> payload \<Rightarrow> int option \<Rightarrow> message_row" where
  "payload_values now p recv =
     \<lparr>envelope_id = get_default (p_envelope_id p) [],
      envelope_kind = get_default (p_envelope_kind p) ''channel'',
      sender_slug = get_default (p_sender_slug p) [],
      channel_id = p_channel_id p,
      space_id = p_space_id p,
      recipient_slug = p_recipient_slug p,
      content_type = get_default (p_content_type p) ''text/plain'',
      content = encode_content (get_default (p_content p) (JStr [])),
      sent_at = get_default (p_sent_at p) now,
      received_at = get_default recv now,
      thread_root_id = p_thread_root_id p,
      reply_to_id = p_reply_to_id p,
      thread_root_unverified = get_default (p_thread_root_unverified p) False,
      is_encrypted = get_default (p_is_encrypted p) True,
      server_seq = None, receipt_disposition = None, receipt_reason = None,
      processing_state = None, processing_turn_id = None, model_visible_at = None,
      processed_at = None, local_ordinal = None, after_server_seq = None, renotified = False\<rparr>"

subsection \<open>Targets\<close>

text \<open>\<open>str(value or "")\<close> on a nullable column.\<close>

definition or_empty :: "string option \<Rightarrow> string" where
  "or_empty s = get_default s []"

text \<open>\<open>_event_type\<close>: the text of the content's \<open>event_type\<close>. Only its string values can start
  with the prefixes below; \<open>str\<close> of any other JSON value starts otherwise.\<close>

definition event_type :: "message_row \<Rightarrow> string" where
  "event_type m = (case json_get (row_content m) ''event_type'' of Some (JStr s) \<Rightarrow> s | _ \<Rightarrow> [])"

definition effective_thread_root :: "message_row \<Rightarrow> string" where
  "effective_thread_root m =
     (let root = or_empty (thread_root_id m)
      in if root \<noteq> envelope_id m then root
         else if starts_with ''channel_member_'' (event_type m)
                 \<or> starts_with ''space_member_'' (event_type m)
                 \<or> (sender_slug m = ''system'' \<and> starts_with ''intro-prompt-'' (envelope_id m))
              then [] else root)"

datatype target_parts =
    DmTarget string
  | ThreadTarget string string string
  | ChannelTarget string string

definition canonical_target_parts :: "message_row \<Rightarrow> target_parts" where
  "canonical_target_parts m =
     (if envelope_kind m = ''dm''
      then DmTarget (if sender_slug m \<noteq> [] then sender_slug m else or_empty (recipient_slug m))
      else (let root = effective_thread_root m
            in if root \<noteq> [] then ThreadTarget (or_empty (space_id m)) (or_empty (channel_id m)) root
               else ChannelTarget (or_empty (space_id m)) (or_empty (channel_id m))))"

text \<open>\<open>InboxStoreMixin.target_projection\<close>.\<close>

fun target_text :: "target_parts \<Rightarrow> string" where
  "target_text (DmTarget peer) = ''dm:'' @ peer"
| "target_text (ThreadTarget sp ch root) = ''channel:'' @ sp @ '':'' @ ch @ '':thread:'' @ root"
| "target_text (ChannelTarget sp ch) = ''channel:'' @ sp @ '':'' @ ch"

definition target_projection :: "message_row \<Rightarrow> string" where
  "target_projection m = target_text (canonical_target_parts m)"

text \<open>\<open>str.strip()\<close> on the ASCII whitespace characters, and \<open>str.split(":")\<close>.\<close>

definition is_space :: "char \<Rightarrow> bool" where
  "is_space c \<longleftrightarrow> (let n = of_char c :: nat in n = 32 \<or> (9 \<le> n \<and> n \<le> 13) \<or> (28 \<le> n \<and> n \<le> 31))"

definition strip :: "string \<Rightarrow> string" where
  "strip s = rev (dropWhile is_space (rev (dropWhile is_space s)))"

fun split_colon :: "string \<Rightarrow> string list" where
  "split_colon [] = [[]]"
| "split_colon (c # cs) =
     (if c = CHR '':'' then [] # split_colon cs
      else (case split_colon cs of [] \<Rightarrow> [[c]] | p # ps \<Rightarrow> (c # p) # ps))"

definition valid_segment :: "string \<Rightarrow> bool" where
  "valid_segment s \<longleftrightarrow> s \<noteq> [] \<and> s = strip s"

definition TARGET_FORM_ERROR :: string where
  "TARGET_FORM_ERROR = ''target must be dm:<peer>, channel:<space_id>:<channel_id>, or '' @
     ''channel:<space_id>:<channel_id>:thread:<root_id>''"

definition parse_inbox_target :: "string \<Rightarrow> (string \<times> string \<times> string \<times> string) res" where
  "parse_inbox_target t =
     (if t = [] \<or> t \<noteq> strip t
      then Inl (ValueError ''target must be a non-empty canonical Inbox target'')
      else case split_colon t of
        [k, a] \<Rightarrow>
          if k = ''dm'' \<and> valid_segment a then Inr (''dm'', [], [], a)
          else Inl (ValueError TARGET_FORM_ERROR)
      | [k, a, b] \<Rightarrow>
          if k = ''channel'' \<and> valid_segment a \<and> valid_segment b then Inr (''channel'', a, b, [])
          else Inl (ValueError TARGET_FORM_ERROR)
      | [k, a, b, th, r] \<Rightarrow>
          if k = ''channel'' \<and> valid_segment a \<and> valid_segment b \<and> th = ''thread'' \<and> valid_segment r
          then Inr (''channel'', a, b, r)
          else Inl (ValueError TARGET_FORM_ERROR)
      | _ \<Rightarrow> Inl (ValueError TARGET_FORM_ERROR))"

subsection \<open>Row predicates\<close>

definition is_pending :: "message_row \<Rightarrow> bool" where
  "is_pending m \<longleftrightarrow> processing_state m = Some PENDING"

definition in_turn_of :: "string \<Rightarrow> message_row \<Rightarrow> bool" where
  "in_turn_of t m \<longleftrightarrow> processing_state m = Some IN_TURN \<and> processing_turn_id m = Some t"

text \<open>\<open>_NOT_GATED\<close>.\<close>

definition not_gated :: "message_row \<Rightarrow> bool" where
  "not_gated m \<longleftrightarrow> receipt_disposition m \<noteq> Some FOREIGN_DM_GATED"

abbreviation pending_rows :: "db \<Rightarrow> message_row list" where
  "pending_rows d \<equiv> filter is_pending (messages d)"

definition pending_ids :: "db \<Rightarrow> string set" where
  "pending_ids d = envelope_id ` set (pending_rows d)"

lemma pending_ids_iff: "i \<in> pending_ids d \<longleftrightarrow> (\<exists>m\<in>set (messages d). is_pending m \<and> envelope_id m = i)"
  by (auto simp: pending_ids_def)

lemma pending_ids_cong: "messages d' = messages d \<Longrightarrow> pending_ids d' = pending_ids d"
  by (simp add: pending_ids_def)

lemma pending_ids_update [simp]:
  "pending_ids (d\<lparr>notice := x0\<rparr>) = pending_ids d"
  "pending_ids (d\<lparr>notice_contributions := x1\<rparr>) = pending_ids d"
  "pending_ids (d\<lparr>turn_runs := x2\<rparr>) = pending_ids d"
  "pending_ids (d\<lparr>turn_run_messages := x3\<rparr>) = pending_ids d"
  "pending_ids (d\<lparr>next_ordinal := x4\<rparr>) = pending_ids d"
  "pending_ids (d\<lparr>high_water := x5\<rparr>) = pending_ids d"
  "pending_ids (d\<lparr>message_covers := x6\<rparr>) = pending_ids d"
  "pending_ids (d\<lparr>reminder_occurrences := x7\<rparr>) = pending_ids d"
  "pending_ids (d\<lparr>channel_intro_prompted := x8\<rparr>) = pending_ids d"
  "pending_ids (d\<lparr>channel_context_state := x9\<rparr>) = pending_ids d"
  by (simp_all add: pending_ids_def)

lemma pending_ids_subset: "pending_ids d \<subseteq> envelope_id ` set (messages d)"
  by (auto simp: pending_ids_def)

lemma finite_pending_ids [simp]: "finite (pending_ids d)"
  by (simp add: pending_ids_def)

definition turn_active :: "db \<Rightarrow> string \<Rightarrow> bool" where
  "turn_active d t \<longleftrightarrow>
     sql_exists (\<lambda>r. tr_turn_id r = t \<and> tr_state r = processing_state_value IN_TURN) (turn_runs d)"

text \<open>\<open>_turn_message_ids\<close>: a turn's members by ordinal.\<close>

definition turn_message_ids :: "db \<Rightarrow> string \<Rightarrow> string list" where
  "turn_message_ids d t =
     map trm_envelope_id
       (sort_key trm_ordinal (filter (\<lambda>r. trm_turn_id r = t) (turn_run_messages d)))"

lemma set_turn_message_ids:
  "set (turn_message_ids d t) = {trm_envelope_id r |r. r \<in> set (turn_run_messages d) \<and> trm_turn_id r = t}"
  by (auto simp: turn_message_ids_def)

lemma turn_active_update [simp]:
  "turn_active (d\<lparr>messages := x0\<rparr>) t = turn_active d t"
  "turn_active (d\<lparr>notice := x1\<rparr>) t = turn_active d t"
  "turn_active (d\<lparr>notice_contributions := x2\<rparr>) t = turn_active d t"
  "turn_active (d\<lparr>turn_run_messages := x3\<rparr>) t = turn_active d t"
  "turn_active (d\<lparr>next_ordinal := x4\<rparr>) t = turn_active d t"
  "turn_active (d\<lparr>high_water := x5\<rparr>) t = turn_active d t"
  "turn_active (d\<lparr>message_covers := x6\<rparr>) t = turn_active d t"
  "turn_active (d\<lparr>reminder_occurrences := x7\<rparr>) t = turn_active d t"
  "turn_active (d\<lparr>channel_intro_prompted := x8\<rparr>) t = turn_active d t"
  by (simp_all add: turn_active_def)

lemma turn_message_ids_update [simp]:
  "turn_message_ids (d\<lparr>messages := x0\<rparr>) t = turn_message_ids d t"
  "turn_message_ids (d\<lparr>notice := x1\<rparr>) t = turn_message_ids d t"
  "turn_message_ids (d\<lparr>notice_contributions := x2\<rparr>) t = turn_message_ids d t"
  "turn_message_ids (d\<lparr>turn_runs := x3\<rparr>) t = turn_message_ids d t"
  "turn_message_ids (d\<lparr>next_ordinal := x4\<rparr>) t = turn_message_ids d t"
  "turn_message_ids (d\<lparr>high_water := x5\<rparr>) t = turn_message_ids d t"
  "turn_message_ids (d\<lparr>message_covers := x6\<rparr>) t = turn_message_ids d t"
  "turn_message_ids (d\<lparr>reminder_occurrences := x7\<rparr>) t = turn_message_ids d t"
  "turn_message_ids (d\<lparr>channel_intro_prompted := x8\<rparr>) t = turn_message_ids d t"
  by (simp_all add: turn_message_ids_def)

text \<open>\<open>_get_turn_run_unlocked\<close>.\<close>

definition get_turn_run :: "db \<Rightarrow> string \<Rightarrow> TurnRun option" where
  "get_turn_run d t =
     (case sql_fetchone (\<lambda>r. tr_turn_id r = t) (turn_runs d) of
        None \<Rightarrow> None
      | Some r \<Rightarrow> Some \<lparr>run_turn_id = tr_turn_id r,
                       run_provider_session_id = tr_provider_session_id r,
                       run_state = tr_state r,
                       run_message_ids = turn_message_ids d t,
                       run_started_at = tr_started_at r,
                       run_completed_at = tr_completed_at r\<rparr>)"

end
