(* ===== verification/Json_Round_Trip.thy ===== *)
theory Json_Round_Trip
  imports Store_Schema
begin

section \<open>JSON: reading what was written\<close>

text \<open>
  \<open>json.loads\<close> reads back every value that \<open>json.dumps\<close> prints, and so the store's content codec
  returns every content it encoded. Objects are Python dicts, whose keys are distinct; floats are
  left out, because the model keeps only their printed form.
\<close>

fun printable :: "json \<Rightarrow> bool" where
  "printable JNull = True"
| "printable (JBool b) = True"
| "printable (JInt i) = True"
| "printable (JFloat r) = False"
| "printable (JStr s) = True"
| "printable (JArr vs) = list_all printable vs"
| "printable (JObj kvs) = (distinct (map fst kvs) \<and> list_all (\<lambda>(k, v). printable v) kvs)"

subsection \<open>Strings\<close>

lemma hex_value_digit: "n < 16 \<Longrightarrow> hex_value (hex_digit n) = Some n"
  by (cases "n < 10") (simp_all add: hex_value_def hex_digit_def Let_def)

lemma decode_control:
  assumes "of_char c < (32::nat)"
  shows "decode_unicode_escape (CHR ''0'' # CHR ''0'' # hex_digit (of_char c div 16) #
      hex_digit (of_char c mod 16) # s) = Some ([c], s)"
proof -
  have "(of_char c :: nat) div 16 < 16" "(of_char c :: nat) mod 16 < 16" using assms by simp_all
  moreover have "hex_value (CHR ''0'') = Some 0" by (simp add: hex_value_def Let_def)
  ultimately have "decode_uXXXX (CHR ''0'' # CHR ''0'' # hex_digit (of_char c div 16) #
      hex_digit (of_char c mod 16) # s) = Some (of_char c, s)"
    by (simp add: decode_uXXXX_def hex_value_digit numeral_2_eq_2 numeral_3_eq_3)
  with assms show ?thesis by (simp add: decode_unicode_escape_def utf8_char_def)
qed

lemma scan_escape:
  "scan_string (escape_char c @ s) = map_option (\<lambda>(t, q). (c # t, q)) (scan_string s)"
proof -
  let ?special = "[CHR 0x22, CHR 0x5C, CHR 0x08, CHR 0x0C, CHR 0x0A, CHR 0x0D, CHR 0x09]"
  consider (special) "c \<in> set ?special" | (control) "c \<notin> set ?special" "of_char c < (32::nat)"
    | (plain) "c \<notin> set ?special" "\<not> of_char c < (32::nat)" by blast
  then show ?thesis
  proof cases
    case special
    then have "c = CHR 0x22 \<or> c = CHR 0x5C \<or> c = CHR 0x08 \<or> c = CHR 0x0C \<or> c = CHR 0x0A
        \<or> c = CHR 0x0D \<or> c = CHR 0x09" by simp
    then show ?thesis
      by (elim disjE)
         (simp_all add: escape_char_def scan_string.simps [of "CHR 0x5C # _"] backslash_char_def)
  next
    case control
    then have "escape_char c = [CHR 0x5C, CHR ''u'', CHR ''0'', CHR ''0'',
        hex_digit (of_char c div 16), hex_digit (of_char c mod 16)]"
      by (simp add: escape_char_def)
    then have "scan_string (escape_char c @ s) =
        (case decode_unicode_escape (CHR ''0'' # CHR ''0'' # hex_digit (of_char c div 16) #
            hex_digit (of_char c mod 16) # s) of None \<Rightarrow> None
         | Some (x, r) \<Rightarrow> map_option (\<lambda>(t, q). (x @ t, q)) (scan_string r))"
      by (simp add: scan_string.simps [of "CHR 0x5C # _"])
    then show ?thesis by (simp add: decode_control [OF control(2)])
  next
    case plain
    then show ?thesis by (simp add: escape_char_def scan_string.simps [of "c # s"])
  qed
qed

lemma scan_string_dump: "scan_string (concat (map escape_char s) @ CHR 0x22 # rest) = Some (s, rest)"
proof (induction s)
  case Nil
  then show ?case by (simp add: scan_string.simps)
next
  case (Cons c s)
  then show ?case by (simp add: scan_escape)
qed

subsection \<open>Integers\<close>

lemma digit_char_digit: "d < 10 \<Longrightarrow> is_digit (digit_char d) \<and> of_char (digit_char d) = 48 + d"
  by (simp add: is_digit_def digit_char_def)

lemma nat_dec_digits: "list_all is_digit (nat_dec n)"
  by (induction n rule: nat_dec.induct) (subst nat_dec.simps, auto simp: digit_char_digit)

lemma dec_nat_dec: "dec_nat (nat_dec n) = n"
proof (induction n rule: nat_dec.induct)
  case (1 n)
  then show ?case by (subst nat_dec.simps) (auto simp: dec_nat_def digit_char_digit)
qed

lemma nat_dec_ne: "nat_dec n \<noteq> []"
  by (subst nat_dec.simps) simp

lemma nat_dec_hd: "n \<noteq> 0 \<Longrightarrow> hd (nat_dec n) \<noteq> CHR ''0''"
proof (induction n rule: nat_dec.induct)
  case (1 n)
  show ?case
  proof (cases "n < 10")
    case True
    with 1 digit_char_digit [of n] have "of_char (digit_char n) \<noteq> (48::nat)" by simp
    then have "digit_char n \<noteq> CHR ''0''" by auto
    with True show ?thesis by (subst nat_dec.simps) simp
  next
    case False
    with 1 have "hd (nat_dec (n div 10)) \<noteq> CHR ''0''" by simp
    with False show ?thesis by (subst nat_dec.simps) (simp add: nat_dec_ne)
  qed
qed

text \<open>What may follow a printed value.\<close>

definition value_ends :: "string \<Rightarrow> bool" where
  "value_ends rest \<longleftrightarrow> rest = [] \<or> hd rest \<in> {CHR '','', CHR '']'', CHR ''}''}"

lemma scan_int_part_dec:
  assumes "value_ends rest"
  shows "scan_int_part (nat_dec n @ rest) = Some (nat_dec n, rest)"
proof (cases "n = 0")
  case True
  have "nat_dec 0 = ''0''" by code_simp
  with True show ?thesis by (simp add: scan_int_part_def)
next
  case False
  obtain c cs where c: "nat_dec n = c # cs" using nat_dec_ne by (cases "nat_dec n") auto
  have all: "is_digit c" "\<forall>x\<in>set (nat_dec n). is_digit x"
    using nat_dec_digits [of n] by (simp_all add: list_all_iff c)
  have stop: "rest = [] \<or> \<not> is_digit (hd rest)" using assms by (auto simp: value_ends_def is_digit_def)
  then have "takeWhile is_digit rest = []" "dropWhile is_digit rest = rest"
    by (cases rest; simp)+
  then have "takeWhile is_digit (nat_dec n @ rest) = nat_dec n" "dropWhile is_digit (nat_dec n @ rest) = rest"
    using all(2) by (simp_all add: takeWhile_append2 dropWhile_append2)
  moreover have "c \<noteq> CHR ''0''" using nat_dec_hd [OF False] by (simp add: c)
  ultimately show ?thesis using all(1) by (simp add: scan_int_part_def c)
qed

lemma scan_number_dec:
  assumes "value_ends rest"
  shows "scan_number (int_dec i @ rest) = Some (JInt i, rest)"
proof -
  have tail: "scan_frac rest = ([], rest)" "scan_exp rest = ([], rest)"
    using assms by (auto simp: value_ends_def scan_frac_def scan_exp_def split: list.splits)
  have hd: "hd (nat_dec n @ s) \<noteq> CHR ''-''" for n s
    using nat_dec_digits [of n] nat_dec_ne [of n] by (cases "nat_dec n") (auto simp: is_digit_def)
  have "\<not> starts_with ''-'' (nat_dec n @ s)" for n s
    using hd [of n s] nat_dec_ne [of n] by (cases "nat_dec n") (auto simp: starts_with_def)
  then show ?thesis
    using assms tail
    by (auto simp: scan_number_def int_dec_def scan_int_part_dec dec_nat_dec starts_with_def Let_def)
qed

subsection \<open>Values\<close>

lemma dict_set_new: "k \<notin> fst ` set d \<Longrightarrow> dict_set d k v = d @ [(k, v)]"
  by (induction d k v rule: dict_set.induct) auto

lemma dict_of_pairs_id: "distinct (map fst kvs) \<Longrightarrow> dict_of_pairs kvs = kvs"
proof (induction kvs rule: rev_induct)
  case (snoc kv kvs)
  then show ?case by (cases kv) (auto simp: dict_of_pairs_def dict_set_new)
qed (simp add: dict_of_pairs_def)

lemma skip_ws_solid: "\<not> is_ws c \<Longrightarrow> skip_ws (c # cs) = c # cs"
  by (simp add: skip_ws_def)

lemma delimiters [simp]:
  "\<not> is_ws (CHR '','')" "\<not> is_ws (CHR '']'')" "\<not> is_ws (CHR ''}'')" "\<not> is_ws (CHR '':'')"
  "\<not> is_ws (CHR 0x22)" "\<not> is_ws (CHR ''['')" "\<not> is_ws (CHR ''{'')"
  by (simp_all add: is_ws_def)

lemma int_dec_hd: "\<exists>c cs. int_dec i = c # cs \<and> (is_digit c \<or> c = CHR ''-'')"
  using nat_dec_digits [of "nat i"] nat_dec_ne [of "nat i"]
  by (cases "nat_dec (nat i)") (auto simp: int_dec_def)

text \<open>The first character of a printed value is neither a blank nor a closing bracket.\<close>

lemma dumps_hd:
  assumes "printable v"
  shows "\<exists>c cs. json_dumps v = c # cs \<and> \<not> is_ws c \<and> c \<noteq> CHR '']'' \<and> c \<noteq> CHR ''}''"
proof (cases v)
  case (JInt i)
  with int_dec_hd [of i] show ?thesis by (auto simp: is_digit_def is_ws_def)
qed (use assms in \<open>auto simp: dump_string_def is_ws_def\<close>)

lemma skip_ws_dumps: "printable v \<Longrightarrow> skip_ws (json_dumps v @ s) = json_dumps v @ s"
  using dumps_hd [of v] by (auto simp: skip_ws_def)

definition scans :: "json \<Rightarrow> bool" where
  "scans v \<longleftrightarrow> (\<forall>f rest. 2 * length (json_dumps v) \<le> f \<longrightarrow> value_ends rest \<longrightarrow>
     scan_once f (json_dumps v @ rest) = Some (v, rest))"

lemma dumps_positive: "printable v \<Longrightarrow> 0 < length (json_dumps v)"
  using dumps_hd [of v] by auto

lemma scan_elements_dump:
  assumes "vs \<noteq> []" "\<forall>v\<in>set vs. scans v \<and> printable v"
    and "2 * length (intersperse_comma (map json_dumps vs)) + 1 \<le> f"
  shows "scan_elements f (intersperse_comma (map json_dumps vs) @ CHR '']'' # rest) = Some (vs, rest)"
  using assms
proof (induction vs arbitrary: f)
  case (Cons v vs)
  obtain f' where f: "f = Suc f'" using Cons.prems(3) by (cases f) auto
  show ?case
  proof (cases vs)
    case Nil
    then have "scan_once f' (json_dumps v @ CHR '']'' # rest) = Some (v, CHR '']'' # rest)"
      using Cons.prems f by (simp add: scans_def value_ends_def)
    with Nil f show ?thesis by (simp add: skip_ws_solid)
  next
    case (Cons w ws)
    let ?body = "intersperse_comma (map json_dumps vs)"
    have body: "intersperse_comma (map json_dumps (v # vs)) = json_dumps v @ CHR '','' # ?body"
      by (simp add: local.Cons)
    have "scan_once f' (json_dumps v @ CHR '','' # ?body @ CHR '']'' # rest)
        = Some (v, CHR '','' # ?body @ CHR '']'' # rest)"
      using Cons.prems f body by (simp add: scans_def value_ends_def)
    moreover have "skip_ws (?body @ CHR '']'' # rest) = ?body @ CHR '']'' # rest"
      using Cons.prems(2) dumps_hd [of w] local.Cons by (cases ws) (auto simp: skip_ws_def)
    moreover have "scan_elements f' (?body @ CHR '']'' # rest) = Some (vs, rest)"
      using Cons.IH [of f'] Cons.prems f body local.Cons by simp
    ultimately show ?thesis using f body by (simp add: skip_ws_solid)
  qed
qed simp

abbreviation dump_pair :: "string \<times> json \<Rightarrow> string" where
  "dump_pair \<equiv> \<lambda>(k, v). dump_string k @ CHR '':'' # json_dumps v"

lemma scan_members_dump:
  assumes "kvs \<noteq> []" "\<forall>kv\<in>set kvs. scans (snd kv) \<and> printable (snd kv)"
    and "2 * length (intersperse_comma (map dump_pair kvs)) + 1 \<le> f"
  shows "scan_members f (tl (intersperse_comma (map dump_pair kvs)) @ CHR ''}'' # rest) = Some (kvs, rest)"
  using assms
proof (induction kvs arbitrary: f)
  case (Cons kv kvs)
  obtain f' where f: "f = Suc f'" using Cons.prems(3) by (cases f) auto
  obtain k v where kv: "kv = (k, v)" by (cases kv)
  have tl: "tl (dump_string k @ s) = concat (map escape_char k) @ CHR 0x22 # s" for s
    by (simp add: dump_string_def)
  have key: "scan_string (concat (map escape_char k) @ CHR 0x22 # s) = Some (k, s)" for s
    by (rule scan_string_dump)
  have pv: "printable v" "scans v" using Cons.prems(2) kv by auto
  show ?case
  proof (cases kvs)
    case Nil
    then have "scan_once f' (json_dumps v @ CHR ''}'' # rest) = Some (v, CHR ''}'' # rest)"
      using Cons.prems(3) f kv pv by (simp add: scans_def value_ends_def)
    with Nil f kv show ?thesis
      using tl [of "CHR '':'' # json_dumps v"] skip_ws_dumps [OF pv(1)]
      by (simp add: key skip_ws_solid)
  next
    case (Cons kv2 ws)
    let ?body = "intersperse_comma (map dump_pair kvs)"
    have body: "intersperse_comma (map dump_pair (kv # kvs)) = dump_pair kv @ CHR '','' # ?body"
      by (simp add: local.Cons)
    have q: "?body = CHR 0x22 # tl ?body"
      using local.Cons by (cases kv2; cases ws) (auto simp: dump_string_def)
    have "scan_once f' (json_dumps v @ CHR '','' # ?body @ CHR ''}'' # rest)
        = Some (v, CHR '','' # ?body @ CHR ''}'' # rest)"
      using Cons.prems f body pv kv by (simp add: scans_def value_ends_def)
    moreover have "skip_ws (?body @ CHR ''}'' # rest) = CHR 0x22 # tl ?body @ CHR ''}'' # rest"
      by (subst q) (simp add: skip_ws_solid)
    moreover have "scan_members f' (tl ?body @ CHR ''}'' # rest) = Some (kvs, rest)"
      using Cons.IH [of f'] Cons.prems f body local.Cons kv by simp
    ultimately show ?thesis
      using f kv tl [of "CHR '':'' # json_dumps v @ CHR '','' # ?body"] skip_ws_dumps [OF pv(1)]
      unfolding body by (simp add: key skip_ws_solid)
  qed
qed simp

lemma scans_literal:
  assumes "json_dumps v = c # cs" "c \<noteq> CHR 0x22" "c \<noteq> CHR ''{''" "c \<noteq> CHR ''[''"
    and "\<And>rest. value_ends rest \<Longrightarrow> scan_literal (json_dumps v @ rest) = Some (v, rest)"
  shows "scans v"
  unfolding scans_def
proof (intro allI impI)
  fix f rest assume f: "2 * length (json_dumps v) \<le> f" and rest: "value_ends rest"
  from f assms(1) obtain f' where "f = Suc f'" by (cases f) auto
  with assms(1-4) assms(5) [OF rest] show "scan_once f (json_dumps v @ rest) = Some (v, rest)" by simp
qed

lemma scans_int: "scans (JInt i)"
proof -
  obtain c cs where c: "int_dec i = c # cs" "is_digit c \<or> c = CHR ''-''" using int_dec_hd by blast
  have "scan_literal (int_dec i @ rest) = Some (JInt i, rest)" if "value_ends rest" for rest
  proof -
    have "\<not> starts_with ''null'' (int_dec i @ rest)" "\<not> starts_with ''true'' (int_dec i @ rest)"
      "\<not> starts_with ''false'' (int_dec i @ rest)"
      using c by (auto simp: starts_with_def is_digit_def)
    then show ?thesis by (simp add: scan_literal_def scan_number_dec [OF that])
  qed
  with c show ?thesis by (intro scans_literal) (auto simp: is_digit_def)
qed

lemma scans_array:
  assumes "printable (JArr vs)" "\<And>v. v \<in> set vs \<Longrightarrow> scans v"
  shows "scans (JArr vs)"
  unfolding scans_def
proof (intro allI impI)
  fix f rest assume f: "2 * length (json_dumps (JArr vs)) \<le> f" and rest: "value_ends rest"
  let ?body = "intersperse_comma (map json_dumps vs)"
  obtain f' where f': "f = Suc f'" "2 * length ?body + 1 \<le> f'" using f by (cases f) auto
  show "scan_once f (json_dumps (JArr vs) @ rest) = Some (JArr vs, rest)"
  proof (cases vs)
    case Nil
    with f' show ?thesis by (simp add: skip_ws_solid)
  next
    case (Cons v ws)
    have all: "\<forall>v\<in>set vs. scans v \<and> printable v" using assms by (auto simp: list_all_iff)
    then obtain c cs where c: "?body = c # cs" "\<not> is_ws c" "c \<noteq> CHR '']''"
      using dumps_hd [of v] Cons by (cases ws) auto
    have "scan_elements f' (?body @ CHR '']'' # rest) = Some (vs, rest)"
      using Cons all f'(2) by (intro scan_elements_dump) auto
    with c f' show ?thesis by (simp add: skip_ws_solid)
  qed
qed

lemma scans_object:
  assumes "printable (JObj kvs)" "\<And>kv. kv \<in> set kvs \<Longrightarrow> scans (snd kv)"
  shows "scans (JObj kvs)"
  unfolding scans_def
proof (intro allI impI)
  fix f rest assume f: "2 * length (json_dumps (JObj kvs)) \<le> f" and rest: "value_ends rest"
  let ?body = "intersperse_comma (map dump_pair kvs)"
  obtain f' where f': "f = Suc f'" "2 * length ?body + 1 \<le> f'" using f by (cases f) auto
  show "scan_once f (json_dumps (JObj kvs) @ rest) = Some (JObj kvs, rest)"
  proof (cases kvs)
    case Nil
    with f' show ?thesis by (simp add: skip_ws_solid)
  next
    case (Cons kv ws)
    have all: "\<forall>kv\<in>set kvs. scans (snd kv) \<and> printable (snd kv)"
      using assms by (auto simp: list_all_iff split: prod.splits)
    have q: "?body = CHR 0x22 # tl ?body" using Cons by (cases kv; cases ws) (auto simp: dump_string_def)
    have "scan_members f' (tl ?body @ CHR ''}'' # rest) = Some (kvs, rest)"
      using Cons all f'(2) by (intro scan_members_dump) auto
    moreover have "dict_of_pairs kvs = kvs" using assms(1) by (intro dict_of_pairs_id) simp
    moreover have "skip_ws (?body @ CHR ''}'' # rest) = CHR 0x22 # tl ?body @ CHR ''}'' # rest"
      by (subst q) (simp add: skip_ws_solid)
    ultimately show ?thesis using f' by simp
  qed
qed

lemma printable_scans: "printable v \<Longrightarrow> scans v"
proof (induction v)
  case JNull
  show ?case by (rule scans_literal) (auto simp: scan_literal_def starts_with_def)
next
  case (JBool b)
  show ?case by (rule scans_literal [of _ "if b then CHR ''t'' else CHR ''f''" "if b then ''rue'' else ''alse''"])
      (auto simp: scan_literal_def starts_with_def)
next
  case (JInt i)
  show ?case by (rule scans_int)
next
  case (JFloat r)
  then show ?case by simp
next
  case (JStr s)
  have "scan_once f (dump_string s @ rest) = Some (JStr s, rest)" if "2 * length (dump_string s) \<le> f" for f rest
  proof -
    from that obtain f' where "f = Suc f'" by (cases f) (auto simp: dump_string_def)
    then show ?thesis by (simp add: dump_string_def scan_string_dump)
  qed
  then show ?case by (simp add: scans_def)
next
  case (JArr vs)
  then show ?case by (intro scans_array) (auto simp: list_all_iff)
next
  case (JObj kvs)
  have "scans (snd kv)" if "kv \<in> set kvs" for kv
  proof (rule JObj.IH [OF that])
    show "snd kv \<in> Basic_BNFs.snds kv" by (cases kv) (simp add: snds.simps)
    show "printable (snd kv)" using JObj.prems that by (cases kv) (auto simp: list_all_iff)
  qed
  with JObj.prems show ?case by (rule scans_object)
qed



end
