(* ===== verification/Target_Text.thy ===== *)
theory Target_Text
  imports Store_Schema
begin

section \<open>Targets: printing and parsing\<close>

text \<open>
  \<open>target_projection\<close> prints the Inbox target of a row and \<open>parse_inbox_target\<close> reads one back. The
  parser accepts exactly the printed forms whose segments are non-empty, free of colons and of
  surrounding blanks, and returns their parts.
\<close>

lemma strip_id: "s \<noteq> [] \<Longrightarrow> s = strip s \<longleftrightarrow> \<not> is_space (hd s) \<and> \<not> is_space (last s)"
proof
  assume ne: "s \<noteq> []" and s: "s = strip s"
  let ?u = "dropWhile is_space s"
  have "length s \<le> length ?u"
    using arg_cong [OF s, of length] length_dropWhile_le [of is_space "rev ?u"] by (simp add: strip_def)
  moreover have "takeWhile is_space s @ ?u = s" by simp
  from arg_cong [OF this, of length] have "length (takeWhile is_space s) + length ?u = length s"
    by (simp only: length_append)
  ultimately have "length (takeWhile is_space s) = 0" by linarith
  then have "takeWhile is_space s = []" by simp
  then have u: "?u = s" using takeWhile_dropWhile_id [of is_space s] by simp
  with ne have "\<not> is_space (hd s)" by (simp add: dropWhile_eq_self_iff)
  moreover have "dropWhile is_space (rev s) = rev s"
    using s u by (simp add: strip_def) (metis rev_rev_ident)
  with ne have "\<not> is_space (last s)" by (simp add: dropWhile_eq_self_iff hd_rev)
  ultimately show "\<not> is_space (hd s) \<and> \<not> is_space (last s)" by blast
next
  assume "s \<noteq> []" "\<not> is_space (hd s) \<and> \<not> is_space (last s)"
  then have "dropWhile is_space s = s" "dropWhile is_space (rev s) = rev s"
    by (simp_all add: dropWhile_eq_self_iff hd_rev)
  then show "s = strip s" by (simp add: strip_def)
qed

lemma split_colon_ne [simp]: "split_colon s \<noteq> []"
  by (induction s) (auto split: list.splits)

lemma split_colon_plain: "CHR '':'' \<notin> set a \<Longrightarrow> split_colon a = [a]"
  by (induction a) auto

lemma split_colon_cons: "CHR '':'' \<notin> set a \<Longrightarrow> split_colon (a @ CHR '':'' # b) = a # split_colon b"
  by (induction a) auto

fun join_colon :: "string list \<Rightarrow> string" where
  "join_colon [] = []"
| "join_colon [p] = p"
| "join_colon (p # q # ps) = p @ CHR '':'' # join_colon (q # ps)"

lemma join_cons: "ps \<noteq> [] \<Longrightarrow> join_colon (p # ps) = p @ CHR '':'' # join_colon ps"
  by (cases ps) simp_all

lemma join_split: "join_colon (split_colon s) = s"
proof (induction s)
  case (Cons c cs)
  then show ?case
    by (cases "split_colon cs"; cases "tl (split_colon cs)") (auto simp: join_cons split: list.splits)
qed simp

lemma split_no_colon: "p \<in> set (split_colon s) \<Longrightarrow> CHR '':'' \<notin> set p"
  by (induction s arbitrary: p) (auto split: if_splits list.splits)

definition segment :: "string \<Rightarrow> bool" where
  "segment s \<longleftrightarrow> valid_segment s \<and> CHR '':'' \<notin> set s"

fun canonical :: "target_parts \<Rightarrow> bool" where
  "canonical (DmTarget p) = segment p"
| "canonical (ChannelTarget sp ch) = (segment sp \<and> segment ch)"
| "canonical (ThreadTarget sp ch root) = (segment sp \<and> segment ch \<and> segment root)"

fun parts_tuple :: "target_parts \<Rightarrow> string \<times> string \<times> string \<times> string" where
  "parts_tuple (DmTarget p) = (''dm'', [], [], p)"
| "parts_tuple (ChannelTarget sp ch) = (''channel'', sp, ch, [])"
| "parts_tuple (ThreadTarget sp ch root) = (''channel'', sp, ch, root)"

lemma text_unpadded:
  assumes "canonical t"
  shows "target_text t \<noteq> [] \<and> target_text t = strip (target_text t)"
proof -
  have ls: "\<not> is_space (last (xs @ s))" if "segment s" for xs s
    using that strip_id [of s] by (auto simp: segment_def valid_segment_def)
  have "last (target_text t) = last (xs @ s) \<Longrightarrow> segment s \<Longrightarrow> \<not> is_space (last (target_text t))" for xs s
    using ls by metis
  moreover have "\<exists>s. segment s \<and> last (target_text t) = last ([] @ s)"
    using assms by (cases t) (auto simp: segment_def valid_segment_def)
  ultimately have last: "\<not> is_space (last (target_text t))" by blast
  have hd: "\<not> is_space (hd (target_text t))" "target_text t \<noteq> []"
    by (cases t; simp add: is_space_def)+
  with last strip_id show ?thesis by blast
qed

lemma parse_target_text:
  assumes "canonical ps"
  shows "parse_inbox_target (target_text ps) = Inr (parts_tuple ps)"
proof -
  have "split_colon (target_text ps) =
      (case ps of DmTarget a \<Rightarrow> [''dm'', a] | ChannelTarget a b \<Rightarrow> [''channel'', a, b]
       | ThreadTarget a b r \<Rightarrow> [''channel'', a, b, ''thread'', r])"
    using assms by (cases ps) (simp_all add: segment_def split_colon_plain split_colon_cons)
  with assms text_unpadded [OF assms] show ?thesis
    by (cases ps) (auto simp: parse_inbox_target_def segment_def)
qed

text \<open>
  The target parser is the inverse of the target printer: it accepts a text exactly when the
  text is the printed form of canonical parts, and then it returns those parts.
\<close>

theorem target_round_trip:
  "parse_inbox_target t = Inr x \<longleftrightarrow> (\<exists>ps. canonical ps \<and> t = target_text ps \<and> x = parts_tuple ps)"
proof
  assume p: "parse_inbox_target t = Inr x"
  have ok: "segment s" if "s \<in> set (split_colon t)" "valid_segment s" for s
    using that split_no_colon by (simp add: segment_def)
  have join: "t = join_colon (split_colon t)" by (simp add: join_split)
  from p have "t \<noteq> []" by (auto simp: parse_inbox_target_def)
  from p consider (dm) a where "split_colon t = [''dm'', a]" "valid_segment a" "x = (''dm'', [], [], a)"
    | (ch) a b where "split_colon t = [''channel'', a, b]" "valid_segment a" "valid_segment b"
        "x = (''channel'', a, b, [])"
    | (th) a b r where "split_colon t = [''channel'', a, b, ''thread'', r]" "valid_segment a" "valid_segment b"
        "valid_segment r" "x = (''channel'', a, b, r)"
    by (auto simp: parse_inbox_target_def split: if_splits list.splits)
  then show "\<exists>ps. canonical ps \<and> t = target_text ps \<and> x = parts_tuple ps"
  proof cases
    case dm
    with ok join show ?thesis by (intro exI [of _ "DmTarget a"]) simp
  next
    case ch
    with ok join show ?thesis by (intro exI [of _ "ChannelTarget a b"]) simp
  next
    case th
    with ok join show ?thesis by (intro exI [of _ "ThreadTarget a b r"]) simp
  qed
next
  assume "\<exists>ps. canonical ps \<and> t = target_text ps \<and> x = parts_tuple ps"
  then show "parse_inbox_target t = Inr x" using parse_target_text by blast
qed

end
