(* ===== verification/Notice_State.thy ===== *)
theory Notice_State
  imports Store_Schema
begin

section \<open>Inbox notice state\<close>

text \<open>
  \<open>agent/inbox_store.py\<close>: the singleton notice row and the contribution table that records which
  pending rows a native provider session has been told about. \<open>refresh_notice_state\<close> runs at the
  end of every transaction that may change the pending set; the mark and release operations record
  and withdraw evidence of delivery.
\<close>

definition NOTICE_WINDOW_MS :: int where
  "NOTICE_WINDOW_MS = 3000"

text \<open>The number of contributions of one session.\<close>

definition contributed :: "(string \<times> string) list \<Rightarrow> string \<Rightarrow> int" where
  "contributed cs s = int (sql_count (\<lambda>c. snd c = s) cs)"

text \<open>\<open>_refresh_notice_state\<close>. \<open>now\<close> is the clock, \<open>activated\<close> the optional \<open>activated_at\<close>.\<close>

definition refresh_notice_state :: "int \<Rightarrow> int option \<Rightarrow> db \<Rightarrow> db" where
  "refresh_notice_state now activated d =
     (let old = notice d;
          pc = int (sql_count is_pending (messages d));
          gen = generation old + (if pc \<noteq> pending_count old then 1 else 0);
          deadline = (if pc = 0 then None
                      else if pending_count old = 0
                      then Some (get_default activated now + NOTICE_WINDOW_MS)
                      else first_pending_deadline_ms old);
          cs0 = (if pc = 0 then [] else notice_contributions d);
          cs = sql_delete (\<lambda>c. \<not> sql_exists (\<lambda>m. envelope_id m = fst c \<and> is_pending m) (messages d)) cs0;
          session = last_delivered_provider_session_id old;
          dgen = (if truthy session \<and> pc > 0 \<and> contributed cs (or_empty session) = pc
                  then gen else last_delivered_generation old)
      in d\<lparr>notice := old\<lparr>generation := gen, pending_count := pc,
                         first_pending_deadline_ms := deadline,
                         last_delivered_generation := dgen\<rparr>,
           notice_contributions := cs\<rparr>)"

text \<open>\<open>_mark_notice_delivered_unlocked\<close>: the flag says whether a contribution was added.\<close>

definition mark_notice_delivered_unlocked ::
  "int \<Rightarrow> string \<Rightarrow> string list \<Rightarrow> string option \<Rightarrow> db \<Rightarrow> bool \<times> db" where
  "mark_notice_delivered_unlocked gen session ids turn d =
     (if ids = [] then (False, d)
      else if (case turn of None \<Rightarrow> False
               | Some t \<Rightarrow> \<not> sql_exists (\<lambda>r. tr_turn_id r = t
                            \<and> tr_state r = processing_state_value IN_TURN
                            \<and> tr_provider_session_id r = Some session) (turn_runs d))
      then (False, d)
      else let st = notice d
           in if gen > generation st \<or> pending_count st \<le> 0 then (False, d)
              else let pids = sorted_list_of_set
                                (batched_select_ids envelope_id is_pending (messages d) ids)
                   in if pids = [] then (False, d)
                      else let cs0 = (if last_delivered_provider_session_id st \<noteq> Some session
                                      then [] else notice_contributions d);
                               cs = insert_or_ignore cs0 (map (\<lambda>i. (i, session)) pids);
                               changed = (length cs > length cs0);
                               dgen = (if contributed cs session = pending_count st
                                       then generation st
                                       else min gen (max 0 (generation st - 1)))
                           in (changed,
                               d\<lparr>notice_contributions := cs,
                                 notice := st\<lparr>last_delivered_generation := dgen,
                                              last_delivered_provider_session_id := Some session\<rparr>\<rparr>))"

text \<open>\<open>_valid_notice_acceptance\<close>; the argument types rule out the non-integers.\<close>

definition valid_notice_acceptance :: "int \<Rightarrow> string option \<Rightarrow> bool" where
  "valid_notice_acceptance gen session \<longleftrightarrow> gen \<ge> 0 \<and> truthy session"

text \<open>\<open>_get_pending_unlocked\<close>: the pending rows a reader can see, in Inbox order.\<close>

definition pending_visible :: "message_row \<Rightarrow> bool" where
  "pending_visible m \<longleftrightarrow>
     is_pending m \<and>
     ((receipt_disposition m = Some ELIGIBLE \<and> server_seq m \<noteq> None)
      \<or> (receipt_disposition m = Some LOCAL_RUNTIME \<and> server_seq m = None
         \<and> local_ordinal m \<noteq> None))"

text \<open>\<open>_inbox_order\<close>, which is also the ORDER BY of \<open>_get_pending_unlocked\<close> on the rows that it
  selects.\<close>

definition inbox_order :: "message_row \<Rightarrow> int \<times> int \<times> int \<times> string" where
  "inbox_order m =
     ((case server_seq m of Some s \<Rightarrow> s | None \<Rightarrow> get_default (after_server_seq m) 0),
      (if server_seq m \<noteq> None then 0 else 1),
      get_default (local_ordinal m) 0,
      envelope_id m)"

text \<open>The ORDER BY of the SQL itself: \<open>COALESCE(server_seq, after_server_seq, 0)\<close>, the
  sequenced-first flag, \<open>local_ordinal\<close> with NULL first, the envelope id.\<close>

definition pending_sql_order :: "message_row \<Rightarrow> int \<times> int \<times> int option \<times> string" where
  "pending_sql_order m =
     ((case server_seq m of Some s \<Rightarrow> s | None \<Rightarrow> get_default (after_server_seq m) 0),
      (if server_seq m \<noteq> None then 0 else 1),
      local_ordinal m,
      envelope_id m)"

definition get_pending_all :: "db \<Rightarrow> message_row list" where
  "get_pending_all d = sort_key pending_sql_order (filter pending_visible (messages d))"

definition get_pending :: "int option \<Rightarrow> db \<Rightarrow> message_row list res" where
  "get_pending limit d =
     (case limit of
        None \<Rightarrow> Inr (get_pending_all d)
      | Some n \<Rightarrow> if n < 0 then Inl (ValueError ''limit must be non-negative'')
                  else Inr (take (nat n) (get_pending_all d)))"

text \<open>\<open>mark_notice_delivered\<close>.\<close>

definition mark_notice_delivered ::
  "int \<Rightarrow> string option \<Rightarrow> string list option \<Rightarrow> string option \<Rightarrow> db \<Rightarrow> bool \<times> db" where
  "mark_notice_delivered gen session mids turn d =
     (if \<not> valid_notice_acceptance gen session then (False, d)
      else let ids = (case mids of Some xs \<Rightarrow> xs | None \<Rightarrow> map envelope_id (get_pending_all d))
           in if ids = [] \<or> length ids \<noteq> card (set ids) then (False, d)
              else mark_notice_delivered_unlocked gen (or_empty session) ids turn d)"

text \<open>\<open>release_notice_delivery\<close>; the DELETE runs in id batches, whose union is the id set.\<close>

definition release_notice_delivery :: "string option \<Rightarrow> string list option \<Rightarrow> db \<Rightarrow> bool \<times> db" where
  "release_notice_delivery session mids d =
     (if \<not> truthy session then (False, d)
      else let st = notice d; s = or_empty session
           in if last_delivered_provider_session_id st \<noteq> session then (False, d)
              else if (case mids of None \<Rightarrow> False
                       | Some ids \<Rightarrow> ids = [] \<or> length ids \<noteq> card (set ids)) then (False, d)
              else let del = (\<lambda>c. snd c = s \<and>
                               (case mids of None \<Rightarrow> True | Some ids \<Rightarrow> fst c \<in> set ids));
                       deleted = sql_count del (notice_contributions d)
                   in (deleted > 0,
                       d\<lparr>notice_contributions := sql_delete del (notice_contributions d),
                         notice := (if deleted > 0
                                    then st\<lparr>last_delivered_generation :=
                                              (if generation st = 0 then 0 else generation st - 1)\<rparr>
                                    else st)\<rparr>))"

text \<open>\<open>get_notice_snapshot\<close>: the notice metadata and the rows the session has not been told of.\<close>

definition get_notice_snapshot ::
  "string option \<Rightarrow> db \<Rightarrow> InboxNoticeState \<times> message_row list" where
  "get_notice_snapshot session d =
     (let pending = get_pending_all d; st = notice d
      in if \<not> truthy session \<or> pending = [] then (st, pending)
         else if last_delivered_provider_session_id st \<noteq> session then (st, pending)
         else let told = fst ` set (filter (\<lambda>c. snd c = or_empty session) (notice_contributions d))
              in (st, filter (\<lambda>m. envelope_id m \<notin> told) pending))"

definition get_notice_candidates :: "string option \<Rightarrow> db \<Rightarrow> message_row list" where
  "get_notice_candidates session d = snd (get_notice_snapshot session d)"

end
