(* ===== verification/Store_Invariant.thy ===== *)
theory Store_Invariant
  imports Notice_State
begin

section \<open>The invariant of the message store\<close>

text \<open>
  What every transaction keeps. \<open>inv_messages\<close> is about the message table and its two allocators,
  \<open>inv_turns\<close> about turns and their members, \<open>inv_notice\<close> about the notice row and the
  contributions. The last one is split off because \<open>refresh_notice_state\<close> re-establishes it from
  what the transaction left (\<open>notice_pre\<close>).
\<close>

subsection \<open>Messages\<close>

definition row_wf :: "message_row \<Rightarrow> bool" where
  "row_wf m \<longleftrightarrow>
     (processing_state m \<noteq> None \<longrightarrow>
        receipt_disposition m = Some ELIGIBLE
        \<or> (receipt_disposition m = Some LOCAL_RUNTIME \<and> local_ordinal m \<noteq> None)) \<and>
     (processing_state m = None \<or> is_pending m \<longrightarrow> processing_turn_id m = None) \<and>
     (receipt_disposition m = Some ELIGIBLE \<longrightarrow> server_seq m \<noteq> None) \<and>
     (\<forall>s. server_seq m = Some s \<longrightarrow> 0 < s) \<and>
     (\<forall>s. after_server_seq m = Some s \<longrightarrow> 0 < s)"

abbreviation seqs :: "message_row list \<Rightarrow> int list" where
  "seqs rows \<equiv> List.map_filter server_seq rows"

abbreviation ordinals :: "message_row list \<Rightarrow> int list" where
  "ordinals rows \<equiv> List.map_filter local_ordinal rows"

definition inv_messages :: "db \<Rightarrow> bool" where
  "inv_messages d \<longleftrightarrow>
     distinct (map envelope_id (messages d)) \<and>
     distinct (seqs (messages d)) \<and>
     distinct (ordinals (messages d)) \<and>
     (\<forall>m\<in>set (messages d). row_wf m) \<and>
     (\<forall>m\<in>set (messages d). \<forall>s. server_seq m = Some s \<longrightarrow> s \<le> high_water d) \<and>
     (\<forall>m\<in>set (messages d). \<forall>o'. local_ordinal m = Some o' \<longrightarrow> o' < next_ordinal d) \<and>
     0 \<le> high_water d"

subsection \<open>Turns\<close>

definition inv_turns :: "db \<Rightarrow> bool" where
  "inv_turns d \<longleftrightarrow>
     distinct (map tr_turn_id (turn_runs d)) \<and>
     distinct (map (\<lambda>r. (trm_turn_id r, trm_envelope_id r)) (turn_run_messages d)) \<and>
     distinct (map (\<lambda>r. (trm_turn_id r, trm_ordinal r)) (turn_run_messages d)) \<and>
     (\<forall>r\<in>set (turn_run_messages d). trm_turn_id r \<in> tr_turn_id ` set (turn_runs d)) \<and>
     (\<forall>m\<in>set (messages d). processing_state m = Some IN_TURN \<longrightarrow>
        (\<exists>t. processing_turn_id m = Some t \<and> turn_active d t
             \<and> envelope_id m \<in> set (turn_message_ids d t))) \<and>
     (\<forall>r\<in>set (turn_run_messages d). turn_active d (trm_turn_id r) \<longrightarrow>
        (\<exists>m\<in>set (messages d). envelope_id m = trm_envelope_id r \<and> in_turn_of (trm_turn_id r) m))"

subsection \<open>Notices\<close>

text \<open>Every contribution names the session that last accepted a notice, once per row.\<close>

definition contributions_ok :: "db \<Rightarrow> bool" where
  "contributions_ok d \<longleftrightarrow>
     distinct (map fst (notice_contributions d)) \<and>
     (\<forall>c\<in>set (notice_contributions d). last_delivered_provider_session_id (notice d) = Some (snd c)) \<and>
     last_delivered_provider_session_id (notice d) \<noteq> Some []"

definition generations_ok :: "InboxNoticeState \<Rightarrow> bool" where
  "generations_ok n \<longleftrightarrow>
     0 \<le> last_delivered_generation n \<and> last_delivered_generation n \<le> generation n \<and>
     0 \<le> pending_count n \<and>
     (pending_count n > 0 \<longrightarrow> generation n \<ge> 1) \<and>
     (pending_count n = 0 \<longleftrightarrow> first_pending_deadline_ms n = None)"

definition told_all :: "db \<Rightarrow> bool" where
  "told_all d \<longleftrightarrow> fst ` set (notice_contributions d) = pending_ids d"

definition inv_notice :: "db \<Rightarrow> bool" where
  "inv_notice d \<longleftrightarrow>
     contributions_ok d \<and> generations_ok (notice d) \<and>
     pending_count (notice d) = int (sql_count is_pending (messages d)) \<and>
     fst ` set (notice_contributions d) \<subseteq> pending_ids d \<and>
     (pending_count (notice d) > 0 \<longrightarrow>
        (last_delivered_generation (notice d) = generation (notice d) \<longleftrightarrow> told_all d))"

text \<open>What a transaction owes before it refreshes: if it left the number of pending rows alone, it
  left the exactness of the delivered generation alone too.\<close>

definition notice_pre :: "db \<Rightarrow> bool" where
  "notice_pre d \<longleftrightarrow>
     contributions_ok d \<and> generations_ok (notice d) \<and>
     (pending_count (notice d) = int (sql_count is_pending (messages d)) \<longrightarrow>
        pending_count (notice d) > 0 \<longrightarrow>
        last_delivered_generation (notice d) = generation (notice d) \<longrightarrow>
        pending_ids d \<subseteq> fst ` set (notice_contributions d))"

definition store_inv :: "db \<Rightarrow> bool" where
  "store_inv d \<longleftrightarrow> inv_messages d \<and> inv_turns d \<and> inv_notice d"

lemma pending_ids_alt: "pending_ids d = {envelope_id m |m. m \<in> set (messages d) \<and> is_pending m}"
  by (auto simp: pending_ids_iff)

lemma count_pending_card:
  "distinct (map envelope_id (messages d)) \<Longrightarrow> sql_count is_pending (messages d) = card (pending_ids d)"
  using distinct_card [OF distinct_map_filter_key [of envelope_id "messages d" is_pending]]
  by (simp add: sql_count_def pending_ids_def)

lemma contributed_all:
  "\<forall>c\<in>set cs. snd c = s \<Longrightarrow> contributed cs s = int (length cs)"
  by (simp add: contributed_def sql_count_def filter_id_conv)

lemma contributed_eq_pending:
  assumes "distinct (map envelope_id (messages d))" "distinct (map fst cs)"
    and "fst ` set cs \<subseteq> pending_ids d" "\<forall>c\<in>set cs. snd c = s"
  shows "contributed cs s = int (sql_count is_pending (messages d)) \<longleftrightarrow> fst ` set cs = pending_ids d"
proof -
  have "length cs = card (fst ` set cs)"
    using distinct_card [OF assms(2)] by simp
  moreover have "card (fst ` set cs) = card (pending_ids d) \<longleftrightarrow> fst ` set cs = pending_ids d"
    using card_subset_eq [OF _ assms(3)] by auto
  ultimately show ?thesis
    by (simp add: contributed_all [OF assms(4)] count_pending_card [OF assms(1)])
qed

subsection \<open>Refreshing\<close>

lemma refresh_frame [simp]:
  "messages (refresh_notice_state now a d) = messages d"
  "turn_runs (refresh_notice_state now a d) = turn_runs d"
  "turn_run_messages (refresh_notice_state now a d) = turn_run_messages d"
  "message_covers (refresh_notice_state now a d) = message_covers d"
  "next_ordinal (refresh_notice_state now a d) = next_ordinal d"
  "high_water (refresh_notice_state now a d) = high_water d"
  "reminder_occurrences (refresh_notice_state now a d) = reminder_occurrences d"
  "channel_context_state (refresh_notice_state now a d) = channel_context_state d"
  "channel_intro_prompted (refresh_notice_state now a d) = channel_intro_prompted d"
  "channel_space_map (refresh_notice_state now a d) = channel_space_map d"
  "dm_notices (refresh_notice_state now a d) = dm_notices d"
  "pending_count (notice (refresh_notice_state now a d)) = int (sql_count is_pending (messages d))"
  "last_delivered_provider_session_id (notice (refresh_notice_state now a d))
     = last_delivered_provider_session_id (notice d)"
  by (simp_all add: refresh_notice_state_def Let_def)

lemma pending_ids_refresh [simp]: "pending_ids (refresh_notice_state now a d) = pending_ids d"
  by (simp add: pending_ids_def)

lemma refresh_generation:
  "generation (notice (refresh_notice_state now a d)) =
     generation (notice d)
       + (if int (sql_count is_pending (messages d)) \<noteq> pending_count (notice d) then 1 else 0)"
  by (simp add: refresh_notice_state_def Let_def)

lemma refresh_contributions:
  "notice_contributions (refresh_notice_state now a d) =
     (if sql_count is_pending (messages d) = 0 then []
      else filter (\<lambda>c. fst c \<in> pending_ids d) (notice_contributions d))"
proof -
  have "sql_exists (\<lambda>m. envelope_id m = fst c \<and> is_pending m) (messages d) \<longleftrightarrow> fst c \<in> pending_ids d"
    for c :: "string \<times> string"
    by (auto simp: pending_ids_iff)
  then show ?thesis
    unfolding refresh_notice_state_def Let_def sql_delete_def by (simp del: sql_exists_iff)
qed

lemma refresh_contributions_subset:
  "set (notice_contributions (refresh_notice_state now a d))
     = {c \<in> set (notice_contributions d). fst c \<in> pending_ids d}"
proof (cases "sql_count is_pending (messages d) = 0")
  case True
  then show ?thesis by (auto simp: refresh_contributions sql_count_0 pending_ids_iff)
next
  case False
  then show ?thesis by (auto simp: refresh_contributions)
qed

lemma inv_messages_refresh [simp]: "inv_messages (refresh_notice_state now a d) = inv_messages d"
  by (simp add: inv_messages_def)

lemma turn_active_refresh [simp]: "turn_active (refresh_notice_state now a d) t = turn_active d t"
  by (simp add: turn_active_def)

lemma turn_message_ids_refresh [simp]:
  "turn_message_ids (refresh_notice_state now a d) t = turn_message_ids d t"
  by (simp add: turn_message_ids_def)

lemma inv_turns_refresh [simp]: "inv_turns (refresh_notice_state now a d) = inv_turns d"
  by (simp add: inv_turns_def)

lemma get_turn_run_refresh [simp]:
  "get_turn_run (refresh_notice_state now a d) t = get_turn_run d t"
  by (simp add: get_turn_run_def cong: option.case_cong)

lemma refresh_contributions_ok:
  assumes "contributions_ok d"
  shows "contributions_ok (refresh_notice_state now a d)"
proof -
  have "distinct (map fst (notice_contributions (refresh_notice_state now a d)))"
    using assms by (simp add: contributions_ok_def refresh_contributions distinct_map_filter)
  moreover have "set (notice_contributions (refresh_notice_state now a d)) \<subseteq> set (notice_contributions d)"
    by (auto simp: refresh_contributions_subset)
  ultimately show ?thesis
    using assms by (auto simp: contributions_ok_def)
qed

text \<open>The delivered generation after a refresh.\<close>

lemma refresh_last_delivered:
  assumes "contributions_ok d" "distinct (map envelope_id (messages d))"
    and pos: "0 < sql_count is_pending (messages d)"
  shows "last_delivered_generation (notice (refresh_notice_state now a d)) =
     (if told_all (refresh_notice_state now a d)
      then generation (notice (refresh_notice_state now a d))
      else last_delivered_generation (notice d))"
proof -
  let ?d = "refresh_notice_state now a d"
  let ?s = "last_delivered_provider_session_id (notice d)"
  have ok: "contributions_ok ?d" using assms(1) by (rule refresh_contributions_ok)
  have raw: "last_delivered_generation (notice ?d) =
      (if truthy ?s \<and> contributed (notice_contributions ?d) (or_empty ?s)
            = int (sql_count is_pending (messages d))
       then generation (notice ?d) else last_delivered_generation (notice d))"
    using pos by (simp add: refresh_notice_state_def Let_def)
  have sub: "fst ` set (notice_contributions ?d) \<subseteq> pending_ids ?d"
    by (auto simp: refresh_contributions_subset)
  have nonempty: "pending_ids ?d \<noteq> {}"
    using pos by (simp add: count_pending_card [OF assms(2)] card_gt_0_iff)
  show ?thesis
  proof (cases "truthy ?s")
    case True
    then obtain s where s: "?s = Some s" "s \<noteq> []" by (auto simp: truthy_def)
    with ok have "\<forall>c\<in>set (notice_contributions ?d). snd c = s"
      by (auto simp: contributions_ok_def)
    then have "contributed (notice_contributions ?d) s = int (sql_count is_pending (messages ?d))
        \<longleftrightarrow> told_all ?d"
      unfolding told_all_def
      using contributed_eq_pending [of ?d "notice_contributions ?d" s] assms(2) ok sub
      by (simp add: contributions_ok_def)
    with raw True s show ?thesis by (simp add: or_empty_def get_default_def)
  next
    case False
    with ok have "notice_contributions ?d = []"
      by (cases "notice_contributions ?d") (auto simp: contributions_ok_def truthy_def)
    with nonempty have "\<not> told_all ?d" by (auto simp: told_all_def)
    with raw False show ?thesis by simp
  qed
qed

lemma refresh_generations_ok:
  assumes "contributions_ok d" "generations_ok (notice d)"
  shows "generations_ok (notice (refresh_notice_state now a d))"
  using assms
  by (auto simp: generations_ok_def refresh_notice_state_def Let_def sql_count_0)

lemma inv_notice_refresh [inv_intros]:
  assumes "notice_pre d" "distinct (map envelope_id (messages d))"
  shows "inv_notice (refresh_notice_state now a d)"
proof -
  let ?d = "refresh_notice_state now a d"
  have ok: "contributions_ok d" and g: "generations_ok (notice d)"
    using assms(1) by (simp_all add: notice_pre_def)
  have ok': "contributions_ok ?d" using ok by (rule refresh_contributions_ok)
  have g': "generations_ok (notice ?d)" using ok g by (rule refresh_generations_ok)
  have sub: "fst ` set (notice_contributions ?d) \<subseteq> pending_ids ?d"
    by (auto simp: refresh_contributions_subset)
  have exact: "last_delivered_generation (notice ?d) = generation (notice ?d) \<longleftrightarrow> told_all ?d"
    if pos: "pending_count (notice ?d) > 0"
  proof -
    from pos have pos': "0 < sql_count is_pending (messages d)" by simp
    note last = refresh_last_delivered [OF ok assms(2) pos', of now a]
    show ?thesis
    proof (cases "told_all ?d")
      case True
      with last show ?thesis by simp
    next
      case False
      have "last_delivered_generation (notice d) < generation (notice ?d)"
      proof (cases "pending_count (notice d) = int (sql_count is_pending (messages d))")
        case same: True
        have "last_delivered_generation (notice d) \<noteq> generation (notice d)"
        proof
          assume "last_delivered_generation (notice d) = generation (notice d)"
          with assms(1) same pos have "pending_ids d \<subseteq> fst ` set (notice_contributions d)"
            by (simp add: notice_pre_def)
          then have "pending_ids d \<subseteq> fst ` {c \<in> set (notice_contributions d). fst c \<in> pending_ids d}"
            by (rule subset_image_restrict)
          then have "pending_ids d \<subseteq> fst ` set (notice_contributions ?d)"
            by (simp only: refresh_contributions_subset)
          with sub have "told_all ?d" by (auto simp: told_all_def)
          with False show False ..
        qed
        with g same show ?thesis by (simp add: generations_ok_def refresh_generation)
      next
        case False
        with g show ?thesis by (auto simp: generations_ok_def refresh_generation)
      qed
      with last False show ?thesis by simp
    qed
  qed
  from ok' g' sub exact show ?thesis by (simp add: inv_notice_def)
qed

lemma inv_notice_imp_pre: "inv_notice d \<Longrightarrow> notice_pre d"
  by (auto simp: inv_notice_def notice_pre_def told_all_def)

text \<open>The two ways a transaction meets \<open>notice_pre\<close>: it changed the number of pending rows, or it
  left the pending rows and the contributions alone.\<close>

lemma notice_pre_changed:
  assumes "inv_notice d0" "notice d = notice d0"
    and "set (notice_contributions d) \<subseteq> set (notice_contributions d0)"
    and "distinct (map fst (notice_contributions d))"
    and "sql_count is_pending (messages d) \<noteq> sql_count is_pending (messages d0)"
  shows "notice_pre d"
  using assms by (auto simp: notice_pre_def inv_notice_def contributions_ok_def)

lemma notice_pre_same:
  assumes "inv_notice d0" "notice d = notice d0"
    and "notice_contributions d = notice_contributions d0" "pending_ids d = pending_ids d0"
  shows "notice_pre d"
  using assms by (auto simp: notice_pre_def inv_notice_def contributions_ok_def told_all_def)

lemma inv_notice_frame:
  assumes "inv_notice d0" "notice d = notice d0"
    and "notice_contributions d = notice_contributions d0" "pending_ids d = pending_ids d0"
    and "distinct (map envelope_id (messages d0))" "distinct (map envelope_id (messages d))"
  shows "inv_notice d"
proof -
  have "sql_count is_pending (messages d) = sql_count is_pending (messages d0)"
    using assms(4-6) by (simp add: count_pending_card)
  with assms(1-4) show ?thesis
    by (simp add: inv_notice_def contributions_ok_def told_all_def)
qed

subsection \<open>Keys\<close>

interpretation message_pk: primary_key messages envelope_id store_inv
  by unfold_locales (simp add: store_inv_def inv_messages_def)

interpretation turn_pk: primary_key turn_runs tr_turn_id store_inv
  by unfold_locales (simp add: store_inv_def inv_turns_def)

subsection \<open>Initial state\<close>

lemma store_inv_empty: "store_inv empty_db"
  by (simp add: store_inv_def inv_messages_def inv_turns_def inv_notice_def empty_db_def
      initial_notice_def contributions_ok_def generations_ok_def sql_count_def map_filter_simps)

end
