(* ===== verification/Notice_Delivery.thy ===== *)
theory Notice_Delivery
  imports Store_Invariant
begin

section \<open>Recording and releasing notice delivery\<close>

text \<open>
  The mark and release operations of the notice row keep the store invariant, and a session is due
  for a notice exactly when some pending row has not been announced to it: no wake is lost and none
  is repeated for an unchanged pending set.
\<close>

lemma mark_unlocked_frame:
  "messages (snd (mark_notice_delivered_unlocked g s ids t d)) = messages d"
  "turn_runs (snd (mark_notice_delivered_unlocked g s ids t d)) = turn_runs d"
  "turn_run_messages (snd (mark_notice_delivered_unlocked g s ids t d)) = turn_run_messages d"
  "message_covers (snd (mark_notice_delivered_unlocked g s ids t d)) = message_covers d"
  "next_ordinal (snd (mark_notice_delivered_unlocked g s ids t d)) = next_ordinal d"
  "high_water (snd (mark_notice_delivered_unlocked g s ids t d)) = high_water d"
  "reminder_occurrences (snd (mark_notice_delivered_unlocked g s ids t d)) = reminder_occurrences d"
  by (simp_all add: mark_notice_delivered_unlocked_def Let_def)

lemma release_frame:
  "messages (snd (release_notice_delivery s ids d)) = messages d"
  "turn_runs (snd (release_notice_delivery s ids d)) = turn_runs d"
  "turn_run_messages (snd (release_notice_delivery s ids d)) = turn_run_messages d"
  "message_covers (snd (release_notice_delivery s ids d)) = message_covers d"
  "next_ordinal (snd (release_notice_delivery s ids d)) = next_ordinal d"
  "high_water (snd (release_notice_delivery s ids d)) = high_water d"
  "reminder_occurrences (snd (release_notice_delivery s ids d)) = reminder_occurrences d"
  by (simp_all add: release_notice_delivery_def Let_def)

lemma inv_messages_cong:
  "messages d' = messages d \<Longrightarrow> high_water d' = high_water d \<Longrightarrow> next_ordinal d' = next_ordinal d
   \<Longrightarrow> inv_messages d' = inv_messages d"
  by (simp add: inv_messages_def)

lemma inv_turns_cong:
  "messages d' = messages d \<Longrightarrow> turn_runs d' = turn_runs d
   \<Longrightarrow> turn_run_messages d' = turn_run_messages d \<Longrightarrow> inv_turns d' = inv_turns d"
  by (simp add: inv_turns_def turn_active_def turn_message_ids_def)

text \<open>The rows a mark announces.\<close>

definition announced :: "string list \<Rightarrow> db \<Rightarrow> string set" where
  "announced ids d = set ids \<inter> pending_ids d"

lemma marked_ids:
  "set (sorted_list_of_set (batched_select_ids envelope_id is_pending (messages d) ids)) = announced ids d"
proof -
  have "batched_select_ids envelope_id is_pending (messages d) ids = announced ids d"
    by (auto simp: batched_select_ids_eq announced_def pending_ids_iff)
  moreover have "finite (announced ids d)" by (simp add: announced_def)
  ultimately show ?thesis by simp
qed

text \<open>The contributions after a mark: those of the same session, plus the announced rows.\<close>

lemma mark_contributions:
  fixes d session ids
  defines "cs0 \<equiv> (if last_delivered_provider_session_id (notice d) \<noteq> Some session
                  then [] else notice_contributions d)"
  defines "cs \<equiv> insert_or_ignore cs0
     (map (\<lambda>i. (i, session))
        (sorted_list_of_set (batched_select_ids envelope_id is_pending (messages d) ids)))"
  assumes "inv_notice d"
  shows "distinct (map fst cs)" "fst ` set cs = fst ` set cs0 \<union> announced ids d"
    "fst ` set cs \<subseteq> pending_ids d" "\<forall>c\<in>set cs. snd c = session"
proof -
  have ok: "contributions_ok d" and sub: "fst ` set (notice_contributions d) \<subseteq> pending_ids d"
    using assms(3) by (simp_all add: inv_notice_def)
  have "distinct (map fst cs0)" using ok by (simp add: cs0_def contributions_ok_def)
  then show "distinct (map fst cs)" unfolding cs_def by (rule distinct_insert_or_ignore)
  show keys: "fst ` set cs = fst ` set cs0 \<union> announced ids d"
    unfolding cs_def insert_or_ignore_keys marked_ids [symmetric, of ids d]
    by (simp add: image_image)
  have "fst ` set cs0 \<subseteq> pending_ids d" using sub by (auto simp: cs0_def)
  then show "fst ` set cs \<subseteq> pending_ids d" unfolding keys announced_def by auto
  have "\<forall>c\<in>set cs0. snd c = session" using ok by (auto simp: cs0_def contributions_ok_def)
  then show "\<forall>c\<in>set cs. snd c = session"
    unfolding cs_def using insert_or_ignore_subset [of cs0] by fastforce
qed

lemma inv_notice_mark_unlocked:
  assumes inv: "inv_notice d" and keys: "distinct (map envelope_id (messages d))"
    and "0 \<le> gen" "session \<noteq> []"
  shows "inv_notice (snd (mark_notice_delivered_unlocked gen session ids turn d))"
proof -
  define cs0 where "cs0 = (if last_delivered_provider_session_id (notice d) \<noteq> Some session
                  then [] else notice_contributions d)"
  define cs where "cs = insert_or_ignore cs0
     (map (\<lambda>i. (i, session))
        (sorted_list_of_set (batched_select_ids envelope_id is_pending (messages d) ids)))"
  note c = mark_contributions [OF inv, of session ids, folded cs0_def, folded cs_def]
  have gok: "generations_ok (notice d)"
    and pc: "pending_count (notice d) = int (sql_count is_pending (messages d))"
    using inv by (simp_all add: inv_notice_def)
  have all: "contributed cs session = pending_count (notice d) \<longleftrightarrow> fst ` set cs = pending_ids d"
    unfolding pc by (rule contributed_eq_pending [OF keys c(1,3,4)])
  let ?dgen = "if contributed cs session = pending_count (notice d) then generation (notice d)
               else min gen (max 0 (generation (notice d) - 1))"
  let ?d = "d\<lparr>notice_contributions := cs,
      notice := (notice d)\<lparr>last_delivered_generation := ?dgen,
                           last_delivered_provider_session_id := Some session\<rparr>\<rparr>"
  have "inv_notice ?d" if "gen \<le> generation (notice d)" "pending_count (notice d) > 0"
  proof -
    have g: "1 \<le> generation (notice d)"
      using gok that(2) by (simp add: generations_ok_def)
    have "contributions_ok ?d"
      using c(1,4) assms(4) by (simp add: contributions_ok_def)
    moreover have "generations_ok (notice ?d)"
      using gok g assms(3) by (auto simp: generations_ok_def)
    moreover have "?dgen = generation (notice d) \<longleftrightarrow> fst ` set cs = pending_ids d"
      using g all by auto
    ultimately show ?thesis
      using pc c(3) by (simp add: inv_notice_def told_all_def)
  qed
  then show ?thesis
    using inv
    by (auto simp: mark_notice_delivered_unlocked_def Let_def cs_def cs0_def)
qed

lemma store_inv_mark_unlocked [inv_intros]:
  assumes "store_inv d" "0 \<le> gen" "session \<noteq> []"
  shows "store_inv (snd (mark_notice_delivered_unlocked gen session ids turn d))"
proof -
  let ?d = "snd (mark_notice_delivered_unlocked gen session ids turn d)"
  have "distinct (map envelope_id (messages d))"
    using assms(1) by (simp add: store_inv_def inv_messages_def)
  with assms have "inv_notice ?d"
    by (intro inv_notice_mark_unlocked) (simp_all add: store_inv_def)
  moreover have "inv_messages ?d = inv_messages d"
    by (rule inv_messages_cong) (simp_all add: mark_unlocked_frame)
  moreover have "inv_turns ?d = inv_turns d"
    by (rule inv_turns_cong) (simp_all add: mark_unlocked_frame)
  ultimately show ?thesis using assms(1) by (simp add: store_inv_def)
qed

lemma store_inv_mark [inv_intros]:
  "store_inv d \<Longrightarrow> store_inv (snd (mark_notice_delivered gen session ids turn d))"
  by (auto simp: mark_notice_delivered_def Let_def valid_notice_acceptance_def truthy_def
      or_empty_def get_default_def intro!: store_inv_mark_unlocked)

text \<open>A release that changes anything deletes a contribution and steps the delivered generation back.\<close>

lemma release_cases:
  obtains (unchanged) "snd (release_notice_delivery session ids d) = d"
  | (deleted) del c0 where "c0 \<in> set (notice_contributions d)" "del c0"
      "snd (release_notice_delivery session ids d) =
         d\<lparr>notice_contributions := sql_delete del (notice_contributions d),
           notice := (notice d)\<lparr>last_delivered_generation :=
             (if generation (notice d) = 0 then 0 else generation (notice d) - 1)\<rparr>\<rparr>"
proof -
  define del where "del = (\<lambda>c. snd c = or_empty session \<and>
    (case ids of None \<Rightarrow> True | Some ids \<Rightarrow> fst c \<in> set ids))"
  let ?r = "snd (release_notice_delivery session ids d)"
  show thesis
  proof (cases "sql_count del (notice_contributions d) = 0")
    case True
    then have "sql_delete del (notice_contributions d) = notice_contributions d"
      by (simp add: sql_delete_same)
    with True have "?r = d"
      unfolding release_notice_delivery_def Let_def del_def by simp
    then show thesis by (rule unchanged)
  next
    case False
    then obtain c0 where c0: "c0 \<in> set (notice_contributions d)" "del c0"
      by (auto simp: sql_count_0)
    from False have "?r = d \<or> ?r =
        d\<lparr>notice_contributions := sql_delete del (notice_contributions d),
          notice := (notice d)\<lparr>last_delivered_generation :=
            (if generation (notice d) = 0 then 0 else generation (notice d) - 1)\<rparr>\<rparr>"
      unfolding release_notice_delivery_def Let_def del_def by simp
    then show thesis using unchanged deleted c0 by blast
  qed
qed

lemma inv_notice_release:
  assumes "inv_notice d"
  shows "inv_notice (snd (release_notice_delivery session ids d))"
proof (cases session ids d rule: release_cases)
  case unchanged
  with assms show ?thesis by simp
next
  case (deleted del c0)
  define cs where "cs = sql_delete del (notice_contributions d)"
  let ?g = "generation (notice d)"
  let ?d = "d\<lparr>notice_contributions := cs,
      notice := (notice d)\<lparr>last_delivered_generation := (if ?g = 0 then 0 else ?g - 1)\<rparr>\<rparr>"
  have cok: "contributions_ok d" and gok: "generations_ok (notice d)"
    and sub: "fst ` set (notice_contributions d) \<subseteq> pending_ids d"
    using assms by (simp_all add: inv_notice_def)
  have "fst c0 \<notin> fst ` set cs"
  proof
    assume "fst c0 \<in> fst ` set cs"
    then obtain c1 where c1: "c1 \<in> set (notice_contributions d)" "\<not> del c1" "fst c1 = fst c0"
      by (auto simp: cs_def)
    with cok deleted(1) have "c1 = c0"
      by (auto simp: contributions_ok_def dest: distinct_map_unique)
    with c1 deleted(2) show False by simp
  qed
  moreover have "fst c0 \<in> pending_ids d" using sub deleted(1) by auto
  ultimately have not_all: "fst ` set cs \<noteq> pending_ids d" by auto
  have "contributions_ok ?d"
    using cok by (simp add: contributions_ok_def cs_def distinct_map_sql_delete)
  moreover have "generations_ok (notice ?d)" using gok by (auto simp: generations_ok_def)
  moreover have "fst ` set cs \<subseteq> pending_ids d" using sub by (auto simp: cs_def)
  moreover have "?g = 0 \<longrightarrow> sql_count is_pending (messages d) = 0"
    using gok assms by (auto simp: generations_ok_def inv_notice_def)
  moreover have "pending_count (notice d) = int (sql_count is_pending (messages d))"
    using assms by (simp add: inv_notice_def)
  ultimately have "inv_notice ?d"
    using not_all by (simp add: inv_notice_def told_all_def)
  with deleted(3) show ?thesis by (simp add: cs_def)
qed

lemma store_inv_release [inv_intros]:
  assumes "store_inv d"
  shows "store_inv (snd (release_notice_delivery session ids d))"
proof -
  let ?d = "snd (release_notice_delivery session ids d)"
  have "inv_messages ?d = inv_messages d"
    by (rule inv_messages_cong) (simp_all add: release_frame)
  moreover have "inv_turns ?d = inv_turns d"
    by (rule inv_turns_cong) (simp_all add: release_frame)
  ultimately show ?thesis
    using assms by (simp add: store_inv_def inv_notice_release)
qed

subsection \<open>Due sessions\<close>

text \<open>The specification a session-aware notice promises.\<close>

definition announced_to :: "db \<Rightarrow> string \<Rightarrow> string set" where
  "announced_to d s = fst ` {c \<in> set (notice_contributions d). snd c = s}"

lemma announced_to_last:
  assumes "contributions_ok d"
  shows "announced_to d s = (if last_delivered_provider_session_id (notice d) = Some s
                             then fst ` set (notice_contributions d) else {})"
  using assms by (auto simp: announced_to_def contributions_ok_def image_iff)

lemma due_iff_unannounced:
  assumes "store_inv d" "s \<noteq> []"
  shows "is_due_for (notice d) (Some s) \<longleftrightarrow> pending_ids d - announced_to d s \<noteq> {}"
proof -
  have inv: "inv_notice d" and keys: "distinct (map envelope_id (messages d))"
    using assms(1) by (simp_all add: store_inv_def inv_messages_def)
  have ok: "contributions_ok d" and sub: "fst ` set (notice_contributions d) \<subseteq> pending_ids d"
    and pc: "pending_count (notice d) = int (card (pending_ids d))"
    and exact: "pending_count (notice d) > 0 \<Longrightarrow>
      last_delivered_generation (notice d) = generation (notice d) \<longleftrightarrow> told_all d"
    using inv by (simp_all add: inv_notice_def count_pending_card [OF keys])
  show ?thesis
  proof (cases "pending_ids d = {}")
    case True
    then have "pending_count (notice d) = 0" unfolding pc by simp
    then have "\<not> is_due_for (notice d) (Some s)" by (simp add: is_due_for_def)
    with True show ?thesis by auto
  next
    case False
    then have pos: "pending_count (notice d) > 0"
      unfolding pc by (simp add: card_gt_0_iff)
    from pos assms(2) have "is_due_for (notice d) (Some s) \<longleftrightarrow>
        \<not> told_all d \<or> last_delivered_provider_session_id (notice d) \<noteq> Some s"
      using exact [OF pos] by (auto simp: is_due_for_def truthy_def)
    also have "\<dots> \<longleftrightarrow> pending_ids d - announced_to d s \<noteq> {}"
      using sub False announced_to_last [OF ok, of s] by (auto simp: told_all_def)
    finally show ?thesis .
  qed
qed

end
