(* ===== verification/Receipts.thy ===== *)
theory Receipts
  imports Notice_Delivery
begin

section \<open>Receipts: classified persistence of inbound messages\<close>

text \<open>
  \<open>agent/receipt_persistence.py\<close> and the receipt operations of \<open>agent/message_store.py\<close>: the
  sequenced lane (\<open>store_receipt\<close>), the sequence-less lane (\<open>store_local_receipt\<close>,
  \<open>store_local_event\<close>), release and denial of approval-gated direct messages, thread-claim
  settlement, and retention. An operation returns its result with the committed database; the
  branches that call \<open>db.rollback()\<close> return the database they started from.
\<close>

subsection \<open>Shared statements\<close>

definition receipt_ack :: "receipt_disposition \<Rightarrow> bool" where
  "receipt_ack disp \<longleftrightarrow> disp = ELIGIBLE \<or> disp = TERMINAL"

definition receipt_result ::
  "receipt_write_status \<Rightarrow> receipt_disposition \<Rightarrow> string \<Rightarrow> bool \<Rightarrow> ReceiptResult" where
  "receipt_result st disp rsn ack =
     \<lparr>rr_status = st, rr_disposition = disp, rr_reason = rsn, rr_acknowledge = ack\<rparr>"

text \<open>The partial unique index on \<open>server_seq\<close>, checked by every statement that writes it.\<close>

definition check_seq_index :: "message_row list \<Rightarrow> message_row list res" where
  "check_seq_index rows =
     (if distinct (seqs rows) then Inr rows
      else Inl (IntegrityError ''UNIQUE constraint failed: messages.server_seq''))"

text \<open>INSERT INTO messages.\<close>

definition insert_message :: "message_row \<Rightarrow> message_row list \<Rightarrow> message_row list res" where
  "insert_message row rows =
     (if envelope_id row \<in> envelope_id ` set rows
      then Inl (IntegrityError ''UNIQUE constraint failed: messages.envelope_id'')
      else check_seq_index (rows @ [row]))"

text \<open>\<open>_advance_server_sequence_high_water\<close> and \<open>_allocate_local_position\<close>.\<close>

definition advance_server_sequence_high_water :: "int \<Rightarrow> db \<Rightarrow> db" where
  "advance_server_sequence_high_water seq d = d\<lparr>high_water := max (high_water d) seq\<rparr>"

definition allocate_local_position :: "db \<Rightarrow> (int \<times> int option) \<times> db" where
  "allocate_local_position d =
     ((next_ordinal d, if high_water d > 0 then Some (high_water d) else None),
      d\<lparr>next_ordinal := next_ordinal d + 1\<rparr>)"

text \<open>\<open>MessageStore.store\<close>: INSERT OR IGNORE of an unclassified row. The statement does not name
  \<open>thread_root_unverified\<close>, whose default is 0.\<close>

definition store :: "int \<Rightarrow> payload \<Rightarrow> int option \<Rightarrow> db \<Rightarrow> db" where
  "store now p recv d =
     (let row = (payload_values now p recv)\<lparr>thread_root_unverified := False\<rparr>
      in if envelope_id row \<in> envelope_id ` set (messages d) then d
         else d\<lparr>messages := messages d @ [row]\<rparr>)"

subsection \<open>The sequenced lane\<close>

text \<open>\<open>_settle_unverified_thread_claims\<close>: \<open>v\<close> is the row that just arrived.\<close>

definition claims :: "message_row \<Rightarrow> message_row \<Rightarrow> bool" where
  "claims v m \<longleftrightarrow> thread_root_unverified m \<and> thread_root_id m = Some (envelope_id v)"

definition same_channel :: "message_row \<Rightarrow> message_row \<Rightarrow> bool" where
  "same_channel v m \<longleftrightarrow> channel_id v \<noteq> None \<and> channel_id m = channel_id v"

definition same_space :: "message_row \<Rightarrow> message_row \<Rightarrow> bool" where
  "same_space v m \<longleftrightarrow> space_id m = None \<or> space_id v = None \<or> space_id m = space_id v"

definition same_dm :: "message_row \<Rightarrow> message_row \<Rightarrow> bool" where
  "same_dm v m \<longleftrightarrow>
     envelope_kind m = ''dm'' \<and>
     (sender_slug m = sender_slug v \<or> Some (sender_slug m) = recipient_slug v) \<and>
     (recipient_slug m = Some (sender_slug v)
      \<or> (recipient_slug m \<noteq> None \<and> recipient_slug m = recipient_slug v))"

definition settle_verify :: "message_row \<Rightarrow> message_row" where
  "settle_verify m = m\<lparr>thread_root_unverified := False\<rparr>"

definition settle_reroot :: "message_row \<Rightarrow> message_row \<Rightarrow> message_row" where
  "settle_reroot v m = m\<lparr>thread_root_id := thread_root_id v,
                         thread_root_unverified := thread_root_unverified v\<rparr>"

definition settle_wipe :: "message_row \<Rightarrow> message_row" where
  "settle_wipe m = m\<lparr>thread_root_id := None, thread_root_unverified := False\<rparr>"

definition settle_unverified_thread_claims :: "message_row \<Rightarrow> message_row list \<Rightarrow> message_row list" where
  "settle_unverified_thread_claims v rows =
     (let own_root = truthy (thread_root_id v);
          rows1 = (if envelope_kind v = ''channel'' \<and> \<not> own_root
                   then sql_update (\<lambda>m. claims v m \<and> same_channel v m \<and> same_space v m) settle_verify rows
                   else if envelope_kind v = ''channel''
                   then sql_update (\<lambda>m. claims v m \<and> same_channel v m) (settle_reroot v) rows
                   else if envelope_kind v = ''dm'' \<and> \<not> own_root
                   then sql_update (\<lambda>m. claims v m \<and> same_dm v m) settle_verify rows
                   else if envelope_kind v = ''dm''
                   then sql_update (\<lambda>m. claims v m \<and> same_dm v m) (settle_reroot v) rows
                   else rows)
      in sql_update (claims v) settle_wipe rows1)"

text \<open>\<open>_backfill_missing_sequence\<close>: the envelope is known without a sequence.\<close>

definition backfill_missing_sequence ::
  "string \<Rightarrow> int \<Rightarrow> receipt_disposition \<Rightarrow> string \<Rightarrow> message_row \<Rightarrow> message_row option \<Rightarrow> db
   \<Rightarrow> (ReceiptResult \<times> db) res" where
  "backfill_missing_sequence eid seq disp rsn by_id by_seq d =
     (if (case by_seq of None \<Rightarrow> False | Some m \<Rightarrow> envelope_id m \<noteq> eid)
      then Inr (receipt_result CONFLICT disp ''server sequence belongs to another envelope'' False, d)
      else if receipt_disposition by_id = Some LOCAL_RUNTIME \<and> processing_state by_id \<noteq> None
              \<and> disp = ELIGIBLE
      then (let P = (\<lambda>m. envelope_id m = eid \<and> server_seq m = None
                          \<and> receipt_disposition m = Some LOCAL_RUNTIME);
                f = (\<lambda>m. m\<lparr>server_seq := Some seq, receipt_disposition := Some ELIGIBLE,
                            receipt_reason := Some rsn, local_ordinal := None,
                            after_server_seq := None\<rparr>)
            in case check_seq_index (sql_update P f (messages d)) of
                 Inl e \<Rightarrow> Inl e
               | Inr rows \<Rightarrow>
                   if sql_count P (messages d) \<noteq> 1
                   then Inl (LifecycleConflict ''local receipt promotion lost its association'')
                   else Inr (receipt_result COMMITTED ELIGIBLE rsn True,
                             advance_server_sequence_high_water seq (d\<lparr>messages := rows\<rparr>)))
      else if receipt_disposition by_id = None \<and> processing_state by_id = None
              \<and> disp = FOREIGN_DM_GATED
      then (let P = (\<lambda>m. envelope_id m = eid \<and> server_seq m = None
                          \<and> receipt_disposition m = None \<and> processing_state m = None);
                f = (\<lambda>m. m\<lparr>server_seq := Some seq, receipt_disposition := Some disp,
                            receipt_reason := Some rsn\<rparr>)
            in case check_seq_index (sql_update P f (messages d)) of
                 Inl e \<Rightarrow> Inl e
               | Inr rows \<Rightarrow>
                   Inr (receipt_result COMMITTED disp rsn False,
                        advance_server_sequence_high_water seq (d\<lparr>messages := rows\<rparr>)))
      else (let P = (\<lambda>m. envelope_id m = eid \<and> server_seq m = None);
                f = (\<lambda>m. m\<lparr>server_seq := Some seq\<rparr>)
            in case check_seq_index (sql_update P f (messages d)) of
                 Inl e \<Rightarrow> Inl e
               | Inr rows \<Rightarrow>
                   Inr (receipt_result COMMITTED disp
                          ''legacy sequence backfilled without Inbox activation'' (receipt_ack disp),
                        advance_server_sequence_high_water seq (d\<lparr>messages := rows\<rparr>))))"

text \<open>\<open>_persist_existing_receipt\<close>, for an envelope the store knows; \<open>reason or\<close> falls back on an
  empty or missing stored reason.\<close>

definition reason_or :: "string option \<Rightarrow> string \<Rightarrow> string" where
  "reason_or stored rsn = (if truthy stored then or_empty stored else rsn)"

definition persist_existing_receipt ::
  "string \<Rightarrow> int \<Rightarrow> receipt_disposition \<Rightarrow> string \<Rightarrow> message_row \<Rightarrow> message_row option \<Rightarrow> db
   \<Rightarrow> (ReceiptResult \<times> db) res" where
  "persist_existing_receipt eid seq disp rsn by_id by_seq d =
     (case server_seq by_id of
        None \<Rightarrow> backfill_missing_sequence eid seq disp rsn by_id by_seq d
      | Some s \<Rightarrow>
          if s \<noteq> seq
          then Inr (receipt_result CONFLICT disp ''envelope id belongs to another server sequence'' False, d)
          else let stored = get_default (receipt_disposition by_id) disp
               in Inr (receipt_result IDEMPOTENT stored (reason_or (receipt_reason by_id) rsn)
                         (receipt_ack stored), d))"

text \<open>\<open>_insert_new_receipt\<close>.\<close>

definition insert_new_receipt ::
  "int \<Rightarrow> message_row \<Rightarrow> int \<Rightarrow> receipt_disposition \<Rightarrow> string \<Rightarrow> db \<Rightarrow> (ReceiptResult \<times> db) res" where
  "insert_new_receipt now vals seq disp rsn d =
     (let processing = (if disp = ELIGIBLE then Some PENDING else None);
          row = vals\<lparr>server_seq := Some seq, receipt_disposition := Some disp,
                      receipt_reason := Some rsn, processing_state := processing\<rparr>
      in case insert_message row (messages d) of
           Inl e \<Rightarrow> Inl e
         | Inr rows \<Rightarrow>
             (let d1 = advance_server_sequence_high_water seq
                         (d\<lparr>messages := settle_unverified_thread_claims vals rows\<rparr>);
                  d2 = (if processing = Some PENDING
                        then refresh_notice_state now (Some (received_at vals)) d1 else d1)
              in Inr (receipt_result COMMITTED disp rsn (receipt_ack disp), d2)))"

text \<open>\<open>store_receipt_unlocked\<close> with \<open>_validate_receipt\<close> and \<open>_lookup_existing\<close>.\<close>

definition store_receipt ::
  "int \<Rightarrow> payload \<Rightarrow> int \<Rightarrow> receipt_disposition \<Rightarrow> string \<Rightarrow> int option \<Rightarrow> db
   \<Rightarrow> (ReceiptResult \<times> db) res" where
  "store_receipt now p seq disp rsn recv d =
     (if seq \<le> 0 then Inl (ValueError ''server_seq must be a positive integer'')
      else let vals = payload_values now p recv; eid = envelope_id vals
           in if eid = [] then Inl (ValueError ''payload must contain a non-empty envelope_id'')
              else let by_id = sql_fetchone (\<lambda>m. envelope_id m = eid) (messages d);
                       by_seq = sql_fetchone (\<lambda>m. server_seq m = Some seq) (messages d)
                   in case by_id of
                        Some m \<Rightarrow> persist_existing_receipt eid seq disp rsn m by_seq d
                      | None \<Rightarrow>
                          if by_seq \<noteq> None
                          then Inr (receipt_result CONFLICT disp
                                      ''server sequence belongs to another envelope'' False, d)
                          else insert_new_receipt now vals seq disp rsn d)"

subsection \<open>The sequence-less lane\<close>

text \<open>\<open>_classify_existing_local_row\<close>.\<close>

definition classify_existing_local_row ::
  "message_row \<Rightarrow> string \<Rightarrow> receipt_disposition \<Rightarrow> string \<Rightarrow> db \<Rightarrow> ReceiptResult \<times> db" where
  "classify_existing_local_row existing eid disp rsn d =
     (if server_seq existing \<noteq> None
      then (receipt_result CONFLICT disp ''envelope already owns a server sequence'' False, d)
      else case receipt_disposition existing of
             None \<Rightarrow>
               (receipt_result COMMITTED disp rsn (receipt_ack disp),
                d\<lparr>messages := sql_update
                    (\<lambda>m. envelope_id m = eid \<and> server_seq m = None \<and> receipt_disposition m = None)
                    (\<lambda>m. m\<lparr>receipt_disposition := Some disp, receipt_reason := Some rsn\<rparr>)
                    (messages d)\<rparr>)
           | Some stored \<Rightarrow>
               (receipt_result IDEMPOTENT stored (reason_or (receipt_reason existing) rsn)
                  (receipt_ack stored), d))"

text \<open>\<open>store_local_receipt_unlocked\<close>.\<close>

definition store_local_receipt ::
  "int \<Rightarrow> payload \<Rightarrow> receipt_disposition \<Rightarrow> string \<Rightarrow> int option \<Rightarrow> db \<Rightarrow> (ReceiptResult \<times> db) res" where
  "store_local_receipt now p disp rsn recv d =
     (if disp \<noteq> TERMINAL \<and> disp \<noteq> FOREIGN_DM_GATED
      then Inl (ValueError (''sequence-less receipts carry a terminal or gated disposition; '' @
                            ''an admitted one is a local event''))
      else let vals = payload_values now p recv; eid = envelope_id vals
           in if eid = [] then Inl (ValueError ''payload must contain a non-empty envelope_id'')
              else case sql_fetchone (\<lambda>m. envelope_id m = eid) (messages d) of
                     Some existing \<Rightarrow> Inr (classify_existing_local_row existing eid disp rsn d)
                   | None \<Rightarrow>
                       (let (pos, d1) = (if disp = TERMINAL
                                         then (let ((ord, fr), d') = allocate_local_position d
                                               in ((Some ord, fr), d'))
                                         else ((None, None), d));
                            row = vals\<lparr>receipt_disposition := Some disp, receipt_reason := Some rsn,
                                        local_ordinal := fst pos, after_server_seq := snd pos\<rparr>
                        in case insert_message row (messages d1) of
                             Inl e \<Rightarrow> Inl e
                           | Inr rows \<Rightarrow>
                               Inr (receipt_result COMMITTED disp rsn (receipt_ack disp),
                                    d1\<lparr>messages := rows\<rparr>)))"

text \<open>\<open>_insert_local_event_in_transaction\<close>.\<close>

definition insert_local_event :: "int \<Rightarrow> message_row \<Rightarrow> string \<Rightarrow> db \<Rightarrow> db res" where
  "insert_local_event now vals rsn d =
     (let ((ord, fr), d1) = allocate_local_position d;
          row = vals\<lparr>receipt_disposition := Some LOCAL_RUNTIME, receipt_reason := Some rsn,
                      processing_state := Some PENDING, local_ordinal := Some ord,
                      after_server_seq := fr\<rparr>
      in case insert_message row (messages d1) of
           Inl e \<Rightarrow> Inl e
         | Inr rows \<Rightarrow> Inr (refresh_notice_state now (Some (received_at vals)) (d1\<lparr>messages := rows\<rparr>)))"

definition get_message_by_envelope :: "string \<Rightarrow> db \<Rightarrow> message_row option" where
  "get_message_by_envelope eid d =
     (if eid = [] then None else sql_fetchone (\<lambda>m. envelope_id m = eid) (messages d))"

definition get_visible_message_by_envelope :: "string \<Rightarrow> db \<Rightarrow> message_row option" where
  "get_visible_message_by_envelope eid d =
     (if eid = [] then None
      else sql_fetchone (\<lambda>m. envelope_id m = eid \<and> not_gated m) (messages d))"

text \<open>The final read-back with its assertion.\<close>

definition read_back :: "string \<Rightarrow> db \<Rightarrow> (message_row \<times> db) res" where
  "read_back eid d =
     (case sql_fetchone (\<lambda>m. envelope_id m = eid) (messages d) of
        None \<Rightarrow> Inl AssertionFailure | Some m \<Rightarrow> Inr (m, d))"

text \<open>\<open>_store_local_event_unlocked\<close>: the idempotent replay, then the introduction marker, then the
  insertion.\<close>

definition store_local_event ::
  "int \<Rightarrow> payload \<Rightarrow> string \<Rightarrow> string option \<Rightarrow> int option \<Rightarrow> bool \<Rightarrow> db
   \<Rightarrow> (message_row \<times> db) res" where
  "store_local_event now p rsn intro recv idem d =
     (let vals = payload_values now p recv; eid = envelope_id vals;
          existing = sql_fetchone (\<lambda>m. envelope_id m = eid) (messages d)
      in if eid = [] then Inl (ValueError ''payload must contain a non-empty envelope_id'')
         else if idem \<and> existing \<noteq> None
         then (case existing of
                 None \<Rightarrow> Inl AssertionFailure
               | Some m \<Rightarrow>
                   if receipt_disposition m \<noteq> Some LOCAL_RUNTIME
                      \<or> receipt_reason m \<noteq> Some rsn \<or> content m \<noteq> content vals
                   then Inl (LifecycleConflict ''local event id already has different content'')
                   else read_back eid d)
         else if truthy intro \<and> or_empty intro \<in> fst ` set (channel_intro_prompted d)
         then (if (case existing of None \<Rightarrow> True
                   | Some m \<Rightarrow> receipt_disposition m \<noteq> Some LOCAL_RUNTIME)
               then Inl (LifecycleConflict
                           ''introduction marker already belongs to another local event'')
               else read_back eid d)
         else (let d1 = (if truthy intro
                         then d\<lparr>channel_intro_prompted :=
                                  channel_intro_prompted d @ [(or_empty intro, now)]\<rparr> else d)
               in case insert_local_event now vals rsn d1 of
                    Inl e \<Rightarrow> Inl e
                  | Inr d2 \<Rightarrow> read_back eid d2))"

subsection \<open>Approval-gated direct messages\<close>

text \<open>\<open>_promote_local_gated_row\<close>.\<close>

definition promote_local_gated_row ::
  "int \<Rightarrow> message_row option \<Rightarrow> string \<Rightarrow> string \<Rightarrow> (string \<times> string) option \<Rightarrow> db
   \<Rightarrow> ReceiptResult \<times> db" where
  "promote_local_gated_row now row eid rsn replacement d =
     (case row of
        None \<Rightarrow> (receipt_result CONFLICT FOREIGN_DM_GATED ''gated receipt association mismatch'' False, d)
      | Some r \<Rightarrow>
          if server_seq r \<noteq> None
          then (receipt_result CONFLICT FOREIGN_DM_GATED ''gated receipt association mismatch'' False, d)
          else if receipt_disposition r = Some LOCAL_RUNTIME \<and> is_pending r
          then (receipt_result IDEMPOTENT LOCAL_RUNTIME rsn True, d)
          else if receipt_disposition r \<noteq> Some FOREIGN_DM_GATED \<or> processing_state r \<noteq> None
          then (receipt_result CONFLICT FOREIGN_DM_GATED ''receipt is not approval-gated'' False, d)
          else (let ((ord, fr), d1) = allocate_local_position d;
                    (ctype, cont) = get_default replacement (content_type r, content r);
                    rows = sql_update
                      (\<lambda>m. envelope_id m = eid \<and> server_seq m = None
                           \<and> receipt_disposition m = Some FOREIGN_DM_GATED \<and> processing_state m = None)
                      (\<lambda>m. m\<lparr>receipt_disposition := Some LOCAL_RUNTIME, receipt_reason := Some rsn,
                              processing_state := Some PENDING, local_ordinal := Some ord,
                              after_server_seq := fr, content_type := ctype, content := cont\<rparr>)
                      (messages d1)
                in (receipt_result COMMITTED LOCAL_RUNTIME rsn True,
                    refresh_notice_state now (Some (received_at r)) (d1\<lparr>messages := rows\<rparr>))))"

text \<open>\<open>_promote_gated_receipt_unlocked\<close> with the argument check of \<open>promote_gated_receipt\<close>.\<close>

definition promote_gated_receipt ::
  "int \<Rightarrow> string \<Rightarrow> int option \<Rightarrow> string \<Rightarrow> payload option \<Rightarrow> db \<Rightarrow> (ReceiptResult \<times> db) res" where
  "promote_gated_receipt now eid seq rsn approved d =
     (if (case approved of None \<Rightarrow> False
          | Some p \<Rightarrow> envelope_id (payload_values now p None) \<noteq> eid)
      then Inl (ValueError ''approved payload belongs to another envelope'')
      else
        let replacement = map_option (\<lambda>p. let v = payload_values now p None
                                           in (content_type v, content v)) approved;
            row = sql_fetchone (\<lambda>m. envelope_id m = eid) (messages d)
        in case seq of
             None \<Rightarrow> Inr (promote_local_gated_row now row eid rsn replacement d)
           | Some s \<Rightarrow>
               (case row of
                  None \<Rightarrow> Inr (receipt_result CONFLICT FOREIGN_DM_GATED
                                 ''gated receipt association mismatch'' False, d)
                | Some r \<Rightarrow>
                    if server_seq r \<noteq> Some s
                    then Inr (receipt_result CONFLICT FOREIGN_DM_GATED
                                ''gated receipt association mismatch'' False, d)
                    else if receipt_disposition r = Some ELIGIBLE \<and> is_pending r
                    then Inr (receipt_result IDEMPOTENT ELIGIBLE rsn True, d)
                    else if receipt_disposition r \<noteq> Some FOREIGN_DM_GATED \<or> processing_state r \<noteq> None
                    then Inr (receipt_result CONFLICT FOREIGN_DM_GATED
                                ''receipt is not approval-gated'' False, d)
                    else (let (ctype, cont) = get_default replacement (content_type r, content r);
                              rows = sql_update
                                (\<lambda>m. envelope_id m = eid \<and> server_seq m = Some s
                                     \<and> receipt_disposition m = Some FOREIGN_DM_GATED
                                     \<and> processing_state m = None)
                                (\<lambda>m. m\<lparr>receipt_disposition := Some ELIGIBLE,
                                        receipt_reason := Some rsn,
                                        processing_state := Some PENDING,
                                        content_type := ctype, content := cont\<rparr>)
                                (messages d)
                          in Inr (receipt_result COMMITTED ELIGIBLE rsn True,
                                  refresh_notice_state now None (d\<lparr>messages := rows\<rparr>)))))"

definition DENIED_REASON :: string where
  "DENIED_REASON = ''foreign dm denied by operator''"

definition deny_row :: "message_row \<Rightarrow> message_row" where
  "deny_row m = m\<lparr>content := encode_content (JStr DENIED_DM_PLACEHOLDER),
                   content_type := ''text/plain'',
                   receipt_disposition := Some TERMINAL,
                   receipt_reason := Some DENIED_REASON\<rparr>"

text \<open>\<open>tombstone_gated_dms_from\<close>: returns the number of rows denied.\<close>

definition tombstone_gated_dms_from :: "string \<Rightarrow> db \<Rightarrow> nat \<times> db" where
  "tombstone_gated_dms_from sender d =
     (if sender = [] then (0, d)
      else let P = (\<lambda>m. envelope_kind m = ''dm'' \<and> sender_slug m = sender
                        \<and> receipt_disposition m = Some FOREIGN_DM_GATED)
           in (sql_count P (messages d), d\<lparr>messages := sql_update P deny_row (messages d)\<rparr>))"

text \<open>\<open>_tombstone_gated_dm_unlocked\<close>.\<close>

definition tombstone_gated_dm :: "string \<Rightarrow> int option \<Rightarrow> db \<Rightarrow> ReceiptResult \<times> db" where
  "tombstone_gated_dm eid seq d =
     (case sql_fetchone (\<lambda>m. envelope_id m = eid) (messages d) of
        None \<Rightarrow> (receipt_result CONFLICT FOREIGN_DM_GATED ''gated receipt association mismatch'' False, d)
      | Some r \<Rightarrow>
          if server_seq r \<noteq> seq
          then (receipt_result CONFLICT FOREIGN_DM_GATED ''gated receipt association mismatch'' False, d)
          else if receipt_disposition r = Some TERMINAL
                  \<and> content r = encode_content (JStr DENIED_DM_PLACEHOLDER)
          then (receipt_result IDEMPOTENT TERMINAL DENIED_REASON True, d)
          else if receipt_disposition r \<noteq> Some FOREIGN_DM_GATED \<or> processing_state r \<noteq> None
          then (receipt_result CONFLICT FOREIGN_DM_GATED ''receipt is not approval-gated'' False, d)
          else (receipt_result COMMITTED TERMINAL DENIED_REASON True,
                d\<lparr>messages := sql_update
                    (\<lambda>m. envelope_id m = eid \<and> receipt_disposition m = Some FOREIGN_DM_GATED
                         \<and> processing_state m = None \<and> server_seq m = seq) deny_row (messages d)\<rparr>))"

subsection \<open>Retention\<close>

definition cleanup :: "int \<Rightarrow> int \<Rightarrow> db \<Rightarrow> nat \<times> db" where
  "cleanup now retention_days d =
     (let cutoff = now - retention_days * 86400000;
          P = (\<lambda>m. received_at m < cutoff
                   \<and> (processing_state m = None \<or> processing_state m = Some PROCESSED)
                   \<and> not_gated m)
      in (sql_count P (messages d), d\<lparr>messages := sql_delete P (messages d)\<rparr>))"

end
