(* ===== verification/Row_Updates.thy ===== *)
theory Row_Updates
  imports Receipts
begin

section \<open>How row updates act on the invariant\<close>

text \<open>
  Every transaction of the store maps the message rows, appends at most one, and then refreshes the
  notice row when the pending set may have changed. The lemmas here say what such a map or an
  appended row needs for each part of the invariant; the operations' proofs instantiate them.
\<close>

subsection \<open>Partial unique columns\<close>

lemma set_map_filter_col: "set (List.map_filter k xs) = {v. \<exists>m\<in>set xs. k m = Some v}"
  by (force simp: List.map_filter_def)

lemma map_filter_append_col [simp]:
  "List.map_filter k (xs @ ys) = List.map_filter k xs @ List.map_filter k ys"
  by (simp add: List.map_filter_def)

lemma map_filter_cong_map:
  "(\<And>m. m \<in> set xs \<Longrightarrow> k (g m) = k m) \<Longrightarrow> List.map_filter k (map g xs) = List.map_filter k xs"
  by (induction xs) (auto simp: List.map_filter_simps split: option.splits)

lemma distinct_map_filter_weaken:
  assumes "distinct (List.map_filter k xs)" "\<And>m. m \<in> set xs \<Longrightarrow> k (g m) = k m \<or> k (g m) = None"
  shows "distinct (List.map_filter k (map g xs))"
  using assms
proof (induction xs)
  case Nil
  then show ?case by (simp add: List.map_filter_simps)
next
  case (Cons m xs)
  have "set (List.map_filter k (map g xs)) \<subseteq> set (List.map_filter k xs)"
    using Cons.prems(2) by (fastforce simp: set_map_filter_col)
  moreover have "distinct (List.map_filter k (map g xs))"
    using Cons by (auto simp: List.map_filter_simps split: option.splits)
  ultimately show ?case
    using Cons.prems(1) Cons.prems(2) [of m]
    by (auto simp: List.map_filter_simps split: option.splits)
qed

lemma distinct_map_filter_filter:
  "distinct (List.map_filter k xs) \<Longrightarrow> distinct (List.map_filter k (filter P xs))"
  by (induction xs) (auto simp: List.map_filter_simps set_map_filter_col split: option.splits)

lemma distinct_map_filter_fresh:
  assumes "distinct (map envelope_id xs)" "distinct (List.map_filter k xs)"
    and "\<And>m. P m \<Longrightarrow> envelope_id m = i" "\<And>m. k (f m) = Some v"
    and "v \<notin> set (List.map_filter k xs)"
  shows "distinct (List.map_filter k (sql_update P f xs))"
  using assms(1,2,5)
proof (induction xs)
  case Nil
  then show ?case by (simp add: List.map_filter_simps sql_update_def)
next
  case (Cons m xs)
  have mem: "set (List.map_filter k (sql_update P f xs)) \<subseteq> insert v (set (List.map_filter k xs))"
    using assms(4) by (auto simp: set_map_filter_col set_sql_update split: if_splits)
  show ?case
  proof (cases "P m")
    case True
    have "\<not> P r" if "r \<in> set xs" for r
    proof
      assume "P r"
      then have "envelope_id r = envelope_id m" using True by (simp add: assms(3))
      with that Cons.prems(1) show False by (metis distinct.simps(2) image_eqI list.set_map list.simps(9))
    qed
    then have "sql_update P f xs = xs" by (rule sql_update_none)
    then have "sql_update P f (m # xs) = f m # xs" using True by (simp add: sql_update_def)
    with Cons.prems(2,3) assms(4) show ?thesis
      by (auto simp: List.map_filter_simps split: option.splits)
  next
    case False
    then have eq: "sql_update P f (m # xs) = m # sql_update P f xs" by (simp add: sql_update_def)
    have "distinct (List.map_filter k (sql_update P f xs))"
      using Cons by (auto simp: List.map_filter_simps split: option.splits)
    with Cons.prems(2,3) mem show ?thesis
      unfolding eq by (auto simp: List.map_filter_simps split: option.splits)
  qed
qed

subsection \<open>Maps that keep the lifecycle\<close>

definition same_lifecycle :: "(message_row \<Rightarrow> message_row) \<Rightarrow> message_row \<Rightarrow> bool" where
  "same_lifecycle g m \<longleftrightarrow>
     envelope_id (g m) = envelope_id m \<and> processing_state (g m) = processing_state m \<and>
     processing_turn_id (g m) = processing_turn_id m"

lemma map_keys:
  "(\<And>m. m \<in> set xs \<Longrightarrow> same_lifecycle g m) \<Longrightarrow> map envelope_id (map g xs) = map envelope_id xs"
  by (simp add: same_lifecycle_def)

lemma pending_ids_map:
  assumes "messages d' = map g (messages d)" "\<And>m. m \<in> set (messages d) \<Longrightarrow> same_lifecycle g m"
  shows "pending_ids d' = pending_ids d"
proof -
  have p: "is_pending (g m) = is_pending m \<and> envelope_id (g m) = envelope_id m"
    if "m \<in> set (messages d)" for m
    using assms(2) [OF that] by (simp add: same_lifecycle_def is_pending_def)
  show ?thesis
    unfolding set_eq_iff pending_ids_iff assms(1) using p by auto
qed

lemma inv_turns_map:
  assumes "inv_turns d" "messages d' = map g (messages d)"
    and same: "\<And>m. m \<in> set (messages d) \<Longrightarrow> same_lifecycle g m"
    and "turn_runs d' = turn_runs d" "turn_run_messages d' = turn_run_messages d"
  shows "inv_turns d'"
proof -
  have ta: "turn_active d' = turn_active d" and tm: "turn_message_ids d' = turn_message_ids d"
    using assms(4,5) by (simp_all add: fun_eq_iff turn_active_def turn_message_ids_def)
  have in_turn: "\<exists>t. processing_turn_id m = Some t \<and> turn_active d' t \<and> envelope_id m \<in> set (turn_message_ids d' t)"
    if "m \<in> set (messages d')" "processing_state m = Some IN_TURN" for m
  proof -
    from that(1) obtain m0 where m0: "m0 \<in> set (messages d)" "m = g m0" by (auto simp: assms(2))
    with same [OF m0(1)] that(2) have "processing_state m0 = Some IN_TURN"
      by (simp add: same_lifecycle_def)
    with assms(1) m0(1) obtain t where "processing_turn_id m0 = Some t" "turn_active d t"
        "envelope_id m0 \<in> set (turn_message_ids d t)"
      by (auto simp: inv_turns_def)
    with same [OF m0(1)] m0(2) show ?thesis by (auto simp: same_lifecycle_def ta tm)
  qed
  have member: "\<exists>m\<in>set (messages d'). envelope_id m = trm_envelope_id r \<and> in_turn_of (trm_turn_id r) m"
    if "r \<in> set (turn_run_messages d')" "turn_active d' (trm_turn_id r)" for r
  proof -
    from that assms(1,5) ta obtain m where m: "m \<in> set (messages d)"
        "envelope_id m = trm_envelope_id r" "in_turn_of (trm_turn_id r) m"
      by (auto simp: inv_turns_def)
    with same [OF m(1)] have "g m \<in> set (messages d')" "envelope_id (g m) = trm_envelope_id r"
        "in_turn_of (trm_turn_id r) (g m)"
      by (auto simp: assms(2) same_lifecycle_def in_turn_of_def)
    then show ?thesis by blast
  qed
  show ?thesis
    using assms(1,4,5) in_turn member by (simp add: inv_turns_def)
qed

lemma inv_messages_map:
  assumes "inv_messages d" "messages d' = map g (messages d)"
    and "\<And>m. m \<in> set (messages d) \<Longrightarrow> envelope_id (g m) = envelope_id m"
    and "\<And>m. m \<in> set (messages d) \<Longrightarrow> row_wf m \<Longrightarrow> row_wf (g m)"
    and "distinct (seqs (map g (messages d)))" "distinct (ordinals (map g (messages d)))"
    and "\<And>m s. m \<in> set (messages d) \<Longrightarrow> server_seq (g m) = Some s \<Longrightarrow> s \<le> high_water d'"
    and "\<And>m s. m \<in> set (messages d) \<Longrightarrow> local_ordinal (g m) = Some s \<Longrightarrow> s < next_ordinal d'"
    and "0 \<le> high_water d'"
  shows "inv_messages d'"
proof -
  have "map envelope_id (messages d') = map envelope_id (messages d)"
    using assms(3) by (simp add: assms(2))
  then have "distinct (map envelope_id (messages d'))"
    using assms(1) by (simp add: inv_messages_def)
  moreover have "\<forall>m\<in>set (messages d'). row_wf m"
    using assms(1,4) by (auto simp: assms(2) inv_messages_def)
  moreover have "\<forall>m\<in>set (messages d'). \<forall>s. server_seq m = Some s \<longrightarrow> s \<le> high_water d'"
    using assms(7) by (auto simp: assms(2))
  moreover have "\<forall>m\<in>set (messages d'). \<forall>s. local_ordinal m = Some s \<longrightarrow> s < next_ordinal d'"
    using assms(8) by (auto simp: assms(2))
  ultimately show ?thesis
    unfolding inv_messages_def assms(2) [symmetric] using assms(5,6,9) by (simp add: assms(2))
qed

text \<open>A map that moves no sequence and no ordinal.\<close>

lemma inv_messages_keep:
  assumes "inv_messages d" "messages d' = map g (messages d)"
    and same: "\<And>m. m \<in> set (messages d) \<Longrightarrow>
      envelope_id (g m) = envelope_id m \<and> server_seq (g m) = server_seq m
      \<and> local_ordinal (g m) = local_ordinal m"
    and "\<And>m. m \<in> set (messages d) \<Longrightarrow> row_wf m \<Longrightarrow> row_wf (g m)"
    and "high_water d \<le> high_water d'" "next_ordinal d \<le> next_ordinal d'"
  shows "inv_messages d'"
proof (rule inv_messages_map [OF assms(1,2)])
  show "distinct (seqs (map g (messages d)))"
    using assms(1) same by (subst map_filter_cong_map) (auto simp: inv_messages_def)
  show "distinct (ordinals (map g (messages d)))"
    using assms(1) same by (subst map_filter_cong_map) (auto simp: inv_messages_def)
  show "s \<le> high_water d'" if "m \<in> set (messages d)" "server_seq (g m) = Some s" for m s
    using assms(1,5) same that by (fastforce simp: inv_messages_def)
  show "s < next_ordinal d'" if "m \<in> set (messages d)" "local_ordinal (g m) = Some s" for m s
    using assms(1,6) same that by (fastforce simp: inv_messages_def)
  show "0 \<le> high_water d'"
    using assms(1,5) by (simp add: inv_messages_def)
qed (use same assms(4) in auto)

subsection \<open>An appended row\<close>

lemma inv_turns_append:
  assumes "inv_turns d" "messages d' = messages d @ [row]" "processing_state row \<noteq> Some IN_TURN"
    and "turn_runs d' = turn_runs d" "turn_run_messages d' = turn_run_messages d"
  shows "inv_turns d'"
  using assms by (auto simp: inv_turns_def turn_active_def turn_message_ids_def)

lemma pending_ids_append:
  "messages d' = messages d @ [row] \<Longrightarrow>
   pending_ids d' = pending_ids d \<union> (if is_pending row then {envelope_id row} else {})"
  by (auto simp: pending_ids_iff)

lemma inv_messages_append:
  assumes "inv_messages d" "messages d' = messages d @ [row]"
    and "envelope_id row \<notin> envelope_id ` set (messages d)"
    and "distinct (seqs (messages d @ [row]))"
    and "row_wf row"
    and "high_water d \<le> high_water d'" "next_ordinal d \<le> next_ordinal d'"
    and "\<And>s. server_seq row = Some s \<Longrightarrow> s \<le> high_water d'"
    and "\<And>s. local_ordinal row = Some s \<Longrightarrow> next_ordinal d \<le> s \<and> s < next_ordinal d'"
  shows "inv_messages d'"
proof -
  have "distinct (ordinals (messages d @ [row]))"
    using assms(1,9)
    by (fastforce simp: inv_messages_def List.map_filter_simps set_map_filter_col split: option.splits)
  with assms show ?thesis
    by (fastforce simp: inv_messages_def)
qed

subsection \<open>The notice row after a map or an append\<close>

lemma inv_notice_map:
  assumes "inv_notice d" "distinct (map envelope_id (messages d))"
    and "messages d' = map g (messages d)" "\<And>m. m \<in> set (messages d) \<Longrightarrow> same_lifecycle g m"
    and "notice d' = notice d" "notice_contributions d' = notice_contributions d"
  shows "inv_notice d'"
proof (rule inv_notice_frame [OF assms(1,5,6) _ assms(2)])
  show "pending_ids d' = pending_ids d" using assms(3,4) by (rule pending_ids_map)
  show "distinct (map envelope_id (messages d'))"
    using assms(2,4) unfolding assms(3) by (simp only: map_keys)
qed

lemma store_inv_map:
  assumes "store_inv d" "messages d' = map g (messages d)"
    and "\<And>m. m \<in> set (messages d) \<Longrightarrow> same_lifecycle g m"
    and "inv_messages d'"
    and "turn_runs d' = turn_runs d" "turn_run_messages d' = turn_run_messages d"
    and "notice d' = notice d" "notice_contributions d' = notice_contributions d"
  shows "store_inv d'"
  unfolding store_inv_def
proof (intro conjI)
  show "inv_messages d'" by (rule assms(4))
  show "inv_turns d'"
    using assms(1) by (intro inv_turns_map [OF _ assms(2,3,5,6)]) (simp_all add: store_inv_def)
  show "inv_notice d'"
    using assms(1)
    by (intro inv_notice_map [OF _ _ assms(2,3,7,8)]) (simp_all add: store_inv_def inv_messages_def)
qed

text \<open>Appending a row that is not pending.\<close>

lemma store_inv_append_quiet:
  assumes "store_inv d" "messages d' = messages d @ [row]" "processing_state row = None"
    and "inv_messages d'"
    and "turn_runs d' = turn_runs d" "turn_run_messages d' = turn_run_messages d"
    and "notice d' = notice d" "notice_contributions d' = notice_contributions d"
  shows "store_inv d'"
  unfolding store_inv_def
proof (intro conjI)
  show "inv_messages d'" by (rule assms(4))
  show "inv_turns d'"
    using assms(1,3) by (intro inv_turns_append [OF _ assms(2) _ assms(5,6)]) (auto simp: store_inv_def)
  have "pending_ids d' = pending_ids d"
    using pending_ids_append [OF assms(2)] assms(3) by (simp add: is_pending_def)
  then show "inv_notice d'"
    using assms(1,4) by (intro inv_notice_frame [OF _ assms(7,8)])
      (simp_all add: store_inv_def inv_messages_def)
qed

text \<open>A transaction that ends with a refresh and adds pending rows.\<close>

lemma count_pending_more:
  assumes "distinct (map envelope_id (messages d))" "distinct (map envelope_id (messages d'))"
    and "pending_ids d \<subset> pending_ids d'"
  shows "sql_count is_pending (messages d) < sql_count is_pending (messages d')"
  using assms by (simp add: count_pending_card psubset_card_mono)

lemma store_inv_refresh_changed:
  assumes "store_inv d" "inv_messages d'" "inv_turns d'"
    and "notice d' = notice d" "set (notice_contributions d') \<subseteq> set (notice_contributions d)"
    and "distinct (map fst (notice_contributions d'))"
    and "pending_ids d \<subset> pending_ids d' \<or> pending_ids d' \<subset> pending_ids d"
  shows "store_inv (refresh_notice_state now a d')"
proof -
  have k: "distinct (map envelope_id (messages d))" and k': "distinct (map envelope_id (messages d'))"
    using assms(1,2) by (simp_all add: store_inv_def inv_messages_def)
  have "sql_count is_pending (messages d') \<noteq> sql_count is_pending (messages d)"
    using assms(7) count_pending_more [OF k k'] count_pending_more [OF k' k] by fastforce
  then have "notice_pre d'"
    using assms(1,4-6) by (intro notice_pre_changed [of d]) (auto simp: store_inv_def)
  then have "inv_notice (refresh_notice_state now a d')" using k' by (rule inv_notice_refresh)
  with assms(2,3) show ?thesis by (simp add: store_inv_def)
qed

lemma store_inv_refresh_same:
  assumes "store_inv d" "inv_messages d'" "inv_turns d'"
    and "notice d' = notice d" "notice_contributions d' = notice_contributions d"
    and "pending_ids d' = pending_ids d"
  shows "store_inv (refresh_notice_state now a d')"
proof -
  have "distinct (map envelope_id (messages d'))" using assms(2) by (simp add: inv_messages_def)
  moreover have "notice_pre d'"
    using assms(1) by (intro notice_pre_same [OF _ assms(4-6)]) (simp add: store_inv_def)
  ultimately have "inv_notice (refresh_notice_state now a d')" by (intro inv_notice_refresh)
  with assms(2,3) show ?thesis by (simp add: store_inv_def)
qed

lemma store_inv_append_pending:
  assumes "store_inv d" "messages d' = messages d @ [row]" "processing_state row = Some PENDING"
    and "envelope_id row \<notin> envelope_id ` set (messages d)"
    and "inv_messages d'"
    and "turn_runs d' = turn_runs d" "turn_run_messages d' = turn_run_messages d"
    and "notice d' = notice d" "notice_contributions d' = notice_contributions d"
  shows "store_inv (refresh_notice_state now a d')"
proof (rule store_inv_refresh_changed [OF assms(1,5) _ assms(8)])
  show "inv_turns d'"
    using assms(1,3) by (intro inv_turns_append [OF _ assms(2) _ assms(6,7)]) (auto simp: store_inv_def)
  show "distinct (map fst (notice_contributions d'))"
    using assms(1,9) by (simp add: store_inv_def inv_notice_def contributions_ok_def)
  have "pending_ids d' = insert (envelope_id row) (pending_ids d)"
    using pending_ids_append [OF assms(2)] assms(3) by (simp add: is_pending_def)
  moreover have "envelope_id row \<notin> pending_ids d" using assms(4) pending_ids_subset [of d] by blast
  ultimately show "pending_ids d \<subset> pending_ids d' \<or> pending_ids d' \<subset> pending_ids d" by blast
qed (simp add: assms(9))

end
