(* ===== verification/Receipt_Facts.thy ===== *)
theory Receipt_Facts
  imports Row_Updates
begin

section \<open>Receipts keep the invariant\<close>

lemma payload_values_blank [simp]:
  "server_seq (payload_values now p recv) = None"
  "receipt_disposition (payload_values now p recv) = None"
  "receipt_reason (payload_values now p recv) = None"
  "processing_state (payload_values now p recv) = None"
  "processing_turn_id (payload_values now p recv) = None"
  "local_ordinal (payload_values now p recv) = None"
  "after_server_seq (payload_values now p recv) = None"
  "model_visible_at (payload_values now p recv) = None"
  "renotified (payload_values now p recv) = False"
  by (simp_all add: payload_values_def)

lemma check_seq_index_Inr [simp]:
  "check_seq_index rows = Inr rows' \<longleftrightarrow> rows' = rows \<and> distinct (seqs rows)"
  by (auto simp: check_seq_index_def)

lemma insert_message_Inr:
  "insert_message row rows = Inr rows' \<longleftrightarrow>
     envelope_id row \<notin> envelope_id ` set rows \<and> rows' = rows @ [row] \<and> distinct (seqs (rows @ [row]))"
  by (auto simp: insert_message_def)

lemma advance_frame [simp]:
  "messages (advance_server_sequence_high_water seq d) = messages d"
  "turn_runs (advance_server_sequence_high_water seq d) = turn_runs d"
  "turn_run_messages (advance_server_sequence_high_water seq d) = turn_run_messages d"
  "notice (advance_server_sequence_high_water seq d) = notice d"
  "notice_contributions (advance_server_sequence_high_water seq d) = notice_contributions d"
  "next_ordinal (advance_server_sequence_high_water seq d) = next_ordinal d"
  "message_covers (advance_server_sequence_high_water seq d) = message_covers d"
  "reminder_occurrences (advance_server_sequence_high_water seq d) = reminder_occurrences d"
  "high_water (advance_server_sequence_high_water seq d) = max (high_water d) seq"
  by (simp_all add: advance_server_sequence_high_water_def)

lemma sql_update_map: "sql_update P f rows = map (\<lambda>r. if P r then f r else r) rows"
  by (fact sql_update_def)

subsection \<open>Statements that write a sequence\<close>

lemma store_inv_seq_update:
  assumes inv: "store_inv d" and "check_seq_index (sql_update P f (messages d)) = Inr rows" "0 < seq"
    and f: "\<And>m. envelope_id (f m) = envelope_id m \<and> processing_state (f m) = processing_state m
        \<and> processing_turn_id (f m) = processing_turn_id m \<and> server_seq (f m) = Some seq
        \<and> (local_ordinal (f m) = local_ordinal m \<or> local_ordinal (f m) = None)"
    and wf: "\<And>m. P m \<Longrightarrow> row_wf m \<Longrightarrow> row_wf (f m)"
  shows "store_inv (advance_server_sequence_high_water seq (d\<lparr>messages := rows\<rparr>))"
proof -
  let ?g = "\<lambda>r. if P r then f r else r"
  let ?d = "advance_server_sequence_high_water seq (d\<lparr>messages := rows\<rparr>)"
  have rows: "messages ?d = map ?g (messages d)" and dseq: "distinct (seqs (map ?g (messages d)))"
    using assms(2) by (auto simp: sql_update_map)
  have im: "inv_messages d" using inv by (simp add: store_inv_def)
  have "inv_messages ?d"
  proof (rule inv_messages_map [OF im rows _ _ dseq])
    show "distinct (ordinals (map ?g (messages d)))"
      using im f by (intro distinct_map_filter_weaken) (auto simp: inv_messages_def)
    show "s \<le> high_water ?d" if "m \<in> set (messages d)" "server_seq (?g m) = Some s" for m s
      using im f that by (fastforce simp: inv_messages_def split: if_splits)
    show "s < next_ordinal ?d" if "m \<in> set (messages d)" "local_ordinal (?g m) = Some s" for m s
      using im f [of m] that by (auto simp: inv_messages_def split: if_splits)
    show "0 \<le> high_water ?d" using im by (auto simp: inv_messages_def)
  qed (use f wf in \<open>auto split: if_splits\<close>)
  then show ?thesis
    using f by (intro store_inv_map [OF inv rows]) (auto simp: same_lifecycle_def)
qed

lemma store_inv_backfill:
  assumes "store_inv d" "0 < seq"
    and "backfill_missing_sequence eid seq disp rsn by_id by_seq d = Inr (r, d')"
  shows "store_inv d'"
  using assms
  by (auto simp: backfill_missing_sequence_def Let_def row_wf_def is_pending_def
      split: if_splits sum.splits option.splits
      intro!: store_inv_seq_update [OF assms(1) _ assms(2)])

lemma store_inv_persist_existing:
  assumes "store_inv d" "0 < seq"
    and "persist_existing_receipt eid seq disp rsn by_id by_seq d = Inr (r, d')"
  shows "store_inv d'"
  using assms store_inv_backfill
  by (auto simp: persist_existing_receipt_def Let_def split: option.splits if_splits)

subsection \<open>Thread-claim settlement touches the thread columns only\<close>

definition thread_only :: "(message_row \<Rightarrow> message_row) \<Rightarrow> bool" where
  "thread_only g \<longleftrightarrow>
     (\<forall>m. g m = m\<lparr>thread_root_id := thread_root_id (g m),
                   thread_root_unverified := thread_root_unverified (g m)\<rparr>)"

lemma thread_only_field:
  assumes "thread_only g" "\<And>m a b. k (m\<lparr>thread_root_id := a, thread_root_unverified := b\<rparr>) = k m"
  shows "k (g m) = k m"
  using assms by (metis thread_only_def)

lemma settle_map: "\<exists>g. settle_unverified_thread_claims v rows = map g rows \<and> thread_only g"
proof -
  have comp: "\<exists>g. sql_update P f (sql_update Q h rows) = map g rows \<and> thread_only g"
    if tf: "thread_only f" and th: "thread_only h" for P Q :: "message_row \<Rightarrow> bool" and f h
  proof (intro exI conjI)
    let ?g = "(\<lambda>r. if P r then f r else r) \<circ> (\<lambda>r. if Q r then h r else r)"
    show "sql_update P f (sql_update Q h rows) = map ?g rows"
      by (simp add: sql_update_map)
    have id: "m = m\<lparr>thread_root_id := thread_root_id m, thread_root_unverified := thread_root_unverified m\<rparr>"
      for m :: message_row by simp
    show "thread_only ?g"
      unfolding thread_only_def
    proof
      fix m
      let ?h = "if Q m then h m else m"
      obtain a b where h: "?h = m\<lparr>thread_root_id := a, thread_root_unverified := b\<rparr>"
        using th id [of m] unfolding thread_only_def by metis
      obtain a' b' where "(if P ?h then f ?h else ?h) = ?h\<lparr>thread_root_id := a', thread_root_unverified := b'\<rparr>"
        using tf id [of ?h] unfolding thread_only_def by metis
      then have "?g m = m\<lparr>thread_root_id := a', thread_root_unverified := b'\<rparr>"
        by (simp add: h)
      then show "?g m = m\<lparr>thread_root_id := thread_root_id (?g m),
          thread_root_unverified := thread_root_unverified (?g m)\<rparr>"
        by simp
    qed
  qed
  have v: "thread_only settle_verify" "thread_only (settle_reroot v)" "thread_only settle_wipe"
    by (simp_all add: thread_only_def settle_verify_def settle_reroot_def settle_wipe_def)
  have none: "sql_update P f rows = sql_update P f (sql_update (\<lambda>_. False) settle_wipe rows)" for P f
    by (simp add: sql_update_map)
  show ?thesis
    unfolding settle_unverified_thread_claims_def Let_def
    using comp v none [of "claims v" settle_wipe] by simp
qed

lemma inv_messages_thread_only:
  assumes "inv_messages d" "messages d' = map g (messages d)" "thread_only g"
    and "high_water d' = high_water d" "next_ordinal d' = next_ordinal d"
  shows "inv_messages d'"
proof (rule inv_messages_keep [OF assms(1,2)])
  show "envelope_id (g m) = envelope_id m \<and> server_seq (g m) = server_seq m
      \<and> local_ordinal (g m) = local_ordinal m" for m
    by (intro conjI) (rule thread_only_field [OF assms(3)], simp)+
  show "row_wf (g m)" if "row_wf m" for m
  proof -
    have "row_wf (g m) = row_wf m"
      by (rule thread_only_field [OF assms(3)]) (simp add: row_wf_def is_pending_def)
    with that show ?thesis by simp
  qed
qed (use assms(4,5) in auto)

lemma same_lifecycle_thread_only: "thread_only g \<Longrightarrow> same_lifecycle g m"
  unfolding same_lifecycle_def
  by (intro conjI) (erule thread_only_field, simp)+

subsection \<open>Insertions\<close>

lemma store_inv_store: "store_inv d \<Longrightarrow> store_inv (store now p recv d)"
proof -
  assume inv: "store_inv d"
  let ?row = "(payload_values now p recv)\<lparr>thread_root_unverified := False\<rparr>"
  show ?thesis
  proof (cases "envelope_id ?row \<in> envelope_id ` set (messages d)")
    case True
    with inv show ?thesis by (simp add: store_def Let_def)
  next
    case False
    let ?d = "d\<lparr>messages := messages d @ [?row]\<rparr>"
    have "inv_messages ?d"
    proof (rule inv_messages_append)
      show "inv_messages d" using inv by (simp add: store_inv_def)
      then show "distinct (seqs (messages d @ [?row]))"
        by (simp add: inv_messages_def List.map_filter_simps)
      show "row_wf ?row" by (simp add: row_wf_def is_pending_def)
    qed (use False in simp_all)
    then have "store_inv ?d"
      by (intro store_inv_append_quiet [OF inv]) auto
    with False show ?thesis by (simp add: store_def Let_def)
  qed
qed

lemma store_inv_insert_new:
  assumes inv: "store_inv d" and "0 < seq" "processing_state vals = None"
    and blank: "processing_turn_id vals = None" "local_ordinal vals = None" "after_server_seq vals = None"
    and ins: "insert_new_receipt now vals seq disp rsn d = Inr (r, d')"
  shows "store_inv d'"
proof -
  define row where "row = vals\<lparr>server_seq := Some seq, receipt_disposition := Some disp,
      receipt_reason := Some rsn, processing_state := (if disp = ELIGIBLE then Some PENDING else None)\<rparr>"
  define d0 where "d0 = advance_server_sequence_high_water seq (d\<lparr>messages := messages d @ [row]\<rparr>)"
  obtain g where g: "settle_unverified_thread_claims vals (messages d @ [row]) = map g (messages d @ [row])"
    and tg: "thread_only g" using settle_map by blast
  define d1 where "d1 = d0\<lparr>messages := map g (messages d0)\<rparr>"
  have proc: "processing_state row = (if disp = ELIGIBLE then Some PENDING else None)"
    by (simp add: row_def)
  have d1: "advance_server_sequence_high_water seq (d\<lparr>messages := map g (messages d @ [row])\<rparr>) = d1"
    by (simp add: d1_def d0_def advance_server_sequence_high_water_def)
  from ins have "envelope_id row \<notin> envelope_id ` set (messages d) \<and> distinct (seqs (messages d @ [row]))
     \<and> d' = (if disp = ELIGIBLE then refresh_notice_state now (Some (received_at vals)) d1 else d1)"
    unfolding insert_new_receipt_def Let_def row_def [symmetric]
    by (simp add: insert_message_Inr g d1 split: sum.splits if_splits del: map_append distinct_append map_filter_append_col)
  then have fresh: "envelope_id row \<notin> envelope_id ` set (messages d)"
    and dseq: "distinct (seqs (messages d @ [row]))"
    and d': "d' = (if disp = ELIGIBLE then refresh_notice_state now (Some (received_at vals)) d1 else d1)"
    by blast+
  have m0: "messages d0 = messages d @ [row]" by (simp add: d0_def)
  have m1: "messages d1 = map g (messages d0)" by (simp add: d1_def)
  have im0: "inv_messages d0"
    using inv fresh dseq assms(2,3) blank
    by (intro inv_messages_append [OF _ m0])
       (auto simp: store_inv_def d0_def row_def row_wf_def is_pending_def)
  have im1: "inv_messages d1"
    by (rule inv_messages_thread_only [OF im0 m1 tg]) (simp_all add: d1_def)
  have it0: "inv_turns d0"
    using inv by (intro inv_turns_append [of d, OF _ m0]) (auto simp: store_inv_def row_def d0_def)
  have it1: "inv_turns d1"
    by (rule inv_turns_map [OF it0 m1]) (simp_all add: d1_def same_lifecycle_thread_only [OF tg])
  have p: "pending_ids d1 = pending_ids d \<union> (if disp = ELIGIBLE then {envelope_id row} else {})"
    using pending_ids_map [OF m1] same_lifecycle_thread_only [OF tg] pending_ids_append [OF m0]
    by (simp add: row_def is_pending_def)
  have n: "notice d1 = notice d" "notice_contributions d1 = notice_contributions d"
    by (simp_all add: d1_def d0_def)
  have dc: "distinct (map fst (notice_contributions d))"
    using inv by (simp add: store_inv_def inv_notice_def contributions_ok_def)
  show ?thesis
  proof (cases "disp = ELIGIBLE")
    case True
    have "envelope_id row \<notin> pending_ids d" using fresh pending_ids_subset [of d] by blast
    with p True have "pending_ids d \<subset> pending_ids d1" by auto
    then have "store_inv (refresh_notice_state now (Some (received_at vals)) d1)"
      using dc n by (intro store_inv_refresh_changed [OF inv im1 it1]) auto
    with True d' show ?thesis by simp
  next
    case False
    have "inv_notice d1"
      using inv p False im1
      by (intro inv_notice_frame [OF _ n]) (auto simp: store_inv_def inv_messages_def)
    with False d' im1 it1 show ?thesis by (simp add: store_inv_def)
  qed
qed

lemma store_inv_store_receipt:
  assumes "store_inv d" "store_receipt now p seq disp rsn recv d = Inr (r, d')"
  shows "store_inv d'"
proof -
  have pos: "0 < seq" using assms(2) by (auto simp: store_receipt_def split: if_splits)
  let ?vals = "payload_values now p recv"
  have e: "store_inv d'" if "persist_existing_receipt (envelope_id ?vals) seq disp rsn m by_seq d = Inr (r, d')" for m by_seq
    using store_inv_persist_existing [OF assms(1) pos that] .
  have n: "store_inv d'" if "insert_new_receipt now ?vals seq disp rsn d = Inr (r, d')"
    by (rule store_inv_insert_new [OF assms(1) pos _ _ _ _ that]) simp_all
  from assms(2) show ?thesis
    unfolding store_receipt_def Let_def
    by (simp split: if_splits option.splits add: assms(1)) (use e n assms(1) in blast)+
qed

subsection \<open>The sequence-less lane\<close>

lemma store_inv_alloc_append:
  assumes inv: "store_inv d" and d1: "d1 = snd (allocate_local_position d) \<or> d1 = d"
    and ins: "insert_message row (messages d1) = Inr rows"
    and row: "row_wf row" "server_seq row = None"
    and ord: "local_ordinal row = (if d1 = d then None else Some (next_ordinal d))"
  shows "inv_messages (d1\<lparr>messages := rows\<rparr>)" "rows = messages d @ [row]"
    "envelope_id row \<notin> envelope_id ` set (messages d)"
proof -
  have md: "messages d1 = messages d" "high_water d1 = high_water d" "next_ordinal d \<le> next_ordinal d1"
    using d1 by (auto simp: allocate_local_position_def)
  show r: "rows = messages d @ [row]" and f: "envelope_id row \<notin> envelope_id ` set (messages d)"
    using ins by (simp_all add: insert_message_Inr md)
  show "inv_messages (d1\<lparr>messages := rows\<rparr>)"
  proof (rule inv_messages_append [OF _ _ f])
    show "inv_messages d" using inv by (simp add: store_inv_def)
    show "distinct (seqs (messages d @ [row]))" using ins by (simp add: insert_message_Inr md)
    show "next_ordinal d \<le> s \<and> s < next_ordinal (d1\<lparr>messages := rows\<rparr>)" if "local_ordinal row = Some s" for s
      using that ord d1 by (auto simp: allocate_local_position_def split: if_splits)
  qed (use md row r in simp_all)
qed

lemma store_inv_insert_local_event:
  assumes inv: "store_inv d" and "insert_local_event now vals rsn d = Inr d'"
    and blank: "server_seq vals = None" "processing_turn_id vals = None"
  shows "store_inv d'"
proof -
  define d1 where "d1 = snd (allocate_local_position d)"
  define row where "row = vals\<lparr>receipt_disposition := Some LOCAL_RUNTIME, receipt_reason := Some rsn,
      processing_state := Some PENDING, local_ordinal := Some (next_ordinal d),
      after_server_seq := (if high_water d > 0 then Some (high_water d) else None)\<rparr>"
  have ne: "d1 \<noteq> d"
    by (metis d1_def allocate_local_position_def snd_conv db.select_convs(9) db.surjective
        db.update_convs(9) add_cancel_left_right zero_neq_one)
  obtain rows where rows: "insert_message row (messages d1) = Inr rows"
    and d': "d' = refresh_notice_state now (Some (received_at vals)) (d1\<lparr>messages := rows\<rparr>)"
    using assms(2)
    by (auto simp: insert_local_event_def d1_def row_def allocate_local_position_def Let_def split: sum.splits)
  note a = store_inv_alloc_append [OF inv disjI1 [OF d1_def] rows]
  have "row_wf row" using blank by (simp add: row_def row_wf_def)
  note a = a [OF this]
  have "store_inv (refresh_notice_state now (Some (received_at vals)) (d1\<lparr>messages := rows\<rparr>))"
    by (rule store_inv_append_pending [OF inv, where row = row])
       (use a blank ne in \<open>simp_all add: row_def d1_def allocate_local_position_def\<close>)
  with d' show ?thesis by simp
qed

lemma store_inv_store_local_event:
  assumes "store_inv d" "store_local_event now p rsn intro recv idem d = Inr (m, d')"
  shows "store_inv d'"
proof -
  let ?vals = "payload_values now p recv"
  define d1 where "d1 = (if truthy intro then d\<lparr>channel_intro_prompted :=
      channel_intro_prompted d @ [(or_empty intro, now)]\<rparr> else d)"
  have "store_inv d1"
    using assms(1) by (simp add: d1_def store_inv_def inv_messages_def inv_turns_def inv_notice_def
        contributions_ok_def told_all_def)
  then have ins: "store_inv d2" if "insert_local_event now ?vals rsn d1 = Inr d2" for d2
    using that by (rule store_inv_insert_local_event) simp_all
  have rb: "d2 = d'" if "read_back i d2 = Inr (m, d')" for i d2
    using that by (simp add: read_back_def split: option.splits)
  from assms(2) have "d' = d \<or> insert_local_event now ?vals rsn d1 = Inr d'"
    unfolding store_local_event_def Let_def d1_def [symmetric]
    by (auto split: if_splits option.splits sum.splits dest: rb)
  with ins assms(1) show ?thesis by auto
qed

lemma store_inv_store_local_receipt:
  assumes inv: "store_inv d" and "store_local_receipt now p disp rsn recv d = Inr (r, d')"
  shows "store_inv d'"
proof -
  let ?vals = "payload_values now p recv" let ?e = "envelope_id (payload_values now p recv)"
  have disp: "disp = TERMINAL \<or> disp = FOREIGN_DM_GATED" "?e \<noteq> []"
    using assms(2) by (auto simp: store_local_receipt_def Let_def split: if_splits)
  show ?thesis
  proof (cases "sql_fetchone (\<lambda>m. envelope_id m = ?e) (messages d)")
    case (Some m)
    let ?g = "\<lambda>m. if envelope_id m = ?e \<and> server_seq m = None \<and> receipt_disposition m = None
        then m\<lparr>receipt_disposition := Some disp, receipt_reason := Some rsn\<rparr> else m"
    have "d' = d \<or> d' = d\<lparr>messages := map ?g (messages d)\<rparr>"
      using assms(2) disp Some
      by (auto simp: store_local_receipt_def Let_def classify_existing_local_row_def sql_update_map
          split: if_splits option.splits)
    moreover have "store_inv (d\<lparr>messages := map ?g (messages d)\<rparr>)"
    proof (rule store_inv_map [OF inv, where g = ?g])
      show "inv_messages (d\<lparr>messages := map ?g (messages d)\<rparr>)"
      proof (rule inv_messages_keep [where d = d and g = ?g])
        show "row_wf (?g m)" if "m \<in> set (messages d)" "row_wf m" for m
          using that(2) disp(1) by (auto simp: row_wf_def is_pending_def)
      qed (use inv in \<open>simp_all add: store_inv_def\<close>)
    qed (simp_all add: same_lifecycle_def)
    ultimately show ?thesis using inv by auto
  next
    case None
    define d1 where "d1 = (if disp = TERMINAL then snd (allocate_local_position d) else d)"
    define row where "row = ?vals\<lparr>receipt_disposition := Some disp, receipt_reason := Some rsn,
      local_ordinal := (if disp = TERMINAL then Some (next_ordinal d) else None),
      after_server_seq := (if disp = TERMINAL \<and> high_water d > 0 then Some (high_water d) else None)\<rparr>"
    obtain rows where rows: "insert_message row (messages d1) = Inr rows" and d': "d' = d1\<lparr>messages := rows\<rparr>"
      using assms(2) disp None
      by (auto simp: store_local_receipt_def Let_def d1_def row_def allocate_local_position_def
          split: sum.splits)
    have ne: "disp = TERMINAL \<Longrightarrow> d1 \<noteq> d"
      by (metis d1_def allocate_local_position_def snd_conv db.select_convs(9) db.surjective
          db.update_convs(9) add_cancel_left_right zero_neq_one)
    have "d1 = snd (allocate_local_position d) \<or> d1 = d" by (simp add: d1_def)
    note a = store_inv_alloc_append [OF inv this rows]
    have wf: "row_wf row" using disp(1) by (auto simp: row_def row_wf_def is_pending_def)
    have "local_ordinal row = (if d1 = d then None else Some (next_ordinal d))"
      using ne disp(1) by (auto simp: row_def d1_def)
    note a = a [OF wf _ this]
    show ?thesis unfolding d'
      by (rule store_inv_append_quiet [OF inv, where row = row])
         (use a in \<open>simp_all add: row_def d1_def allocate_local_position_def\<close>)
  qed
qed

subsection \<open>Gated direct messages and retention\<close>

text \<open>Promotion turns the one matching row from no lifecycle to pending.\<close>

lemma inv_turns_quiet:
  assumes "inv_turns d" "messages d' = sql_update P f (messages d)"
    and P: "\<And>m. P m \<Longrightarrow> processing_state m \<noteq> Some IN_TURN"
    and f: "\<And>m. P m \<Longrightarrow> envelope_id (f m) = envelope_id m \<and> processing_state (f m) \<noteq> Some IN_TURN"
    and "turn_runs d' = turn_runs d" "turn_run_messages d' = turn_run_messages d"
  shows "inv_turns d'"
proof -
  have ta: "turn_active d' = turn_active d" and tm: "turn_message_ids d' = turn_message_ids d"
    using assms(5,6) by (simp_all add: fun_eq_iff turn_active_def turn_message_ids_def)
  have "\<exists>t. processing_turn_id m = Some t \<and> turn_active d' t \<and> envelope_id m \<in> set (turn_message_ids d' t)"
    if "m \<in> set (messages d')" "processing_state m = Some IN_TURN" for m
  proof -
    from that f have "m \<in> set (messages d)"
      unfolding assms(2) by (auto elim!: in_sql_updateE)
    with that(2) assms(1) show ?thesis by (simp add: inv_turns_def ta tm)
  qed
  moreover have "\<exists>m\<in>set (messages d'). envelope_id m = trm_envelope_id r \<and> in_turn_of (trm_turn_id r) m"
    if r: "r \<in> set (turn_run_messages d')" "turn_active d' (trm_turn_id r)" for r
  proof -
    from r assms(1,6) ta obtain m where m: "m \<in> set (messages d)"
        "envelope_id m = trm_envelope_id r" "in_turn_of (trm_turn_id r) m"
      by (auto simp: inv_turns_def)
    with P have "\<not> P m" by (auto simp: in_turn_of_def)
    with m(1) have "m \<in> set (messages d')" unfolding assms(2) by (rule sql_update_other)
    with m(2,3) show ?thesis by blast
  qed
  ultimately show ?thesis using assms(1,5,6) by (simp add: inv_turns_def)
qed

lemma store_inv_activate:
  assumes inv: "store_inv d" and m: "messages d' = sql_update P f (messages d)"
    and P: "\<And>m. P m \<Longrightarrow> processing_state m = None"
    and f: "\<And>m. P m \<Longrightarrow> envelope_id (f m) = envelope_id m \<and> is_pending (f m)"
    and ex: "r \<in> set (messages d)" "P r"
    and im: "inv_messages d'"
    and fr: "turn_runs d' = turn_runs d" "turn_run_messages d' = turn_run_messages d"
      "notice d' = notice d" "notice_contributions d' = notice_contributions d"
  shows "store_inv (refresh_notice_state now a d')"
proof (rule store_inv_refresh_changed [OF inv im _ fr(3)])
  show "inv_turns d'"
    using inv P f by (intro inv_turns_quiet [OF _ m _ _ fr(1,2)]) (auto simp: store_inv_def is_pending_def)
  show "distinct (map fst (notice_contributions d'))"
    using inv by (simp add: fr store_inv_def inv_notice_def contributions_ok_def)
  have keys: "distinct (map envelope_id (messages d))" using inv by (simp add: store_inv_def inv_messages_def)
  have "pending_ids d \<subseteq> pending_ids d'"
  proof
    fix i assume "i \<in> pending_ids d"
    then obtain x where x: "x \<in> set (messages d)" "is_pending x" "envelope_id x = i" by (auto simp: pending_ids_iff)
    with P have "\<not> P x" by (auto simp: is_pending_def)
    with x(1) have "x \<in> set (messages d')" unfolding m by (rule sql_update_other)
    with x(2,3) show "i \<in> pending_ids d'" by (auto simp: pending_ids_iff)
  qed
  moreover have "envelope_id r \<in> pending_ids d'"
    using f [OF ex(2)] sql_update_in [of r "messages d" P f] ex unfolding pending_ids_iff m by metis
  moreover have "envelope_id r \<notin> pending_ids d"
    using P [OF ex(2)] ex(1) distinct_map_unique [OF keys] by (fastforce simp: pending_ids_iff is_pending_def)
  ultimately show "pending_ids d \<subset> pending_ids d' \<or> pending_ids d' \<subset> pending_ids d" by blast
qed (simp add: fr)

lemma store_inv_promote_local:
  assumes inv: "store_inv d" and row: "row = sql_fetchone (\<lambda>m. envelope_id m = eid) (messages d)"
    and pr: "promote_local_gated_row now row eid rsn repl d = (r, d')"
  shows "store_inv d'"
proof -
  obtain ctype cont where ct: "get_default repl (content_type (the row), content (the row)) = (ctype, cont)"
    by force
  define P where "P = (\<lambda>m :: message_row. envelope_id m = eid \<and> server_seq m = None
      \<and> receipt_disposition m = Some FOREIGN_DM_GATED \<and> processing_state m = None)"
  define f where "f = (\<lambda>m :: message_row. m\<lparr>receipt_disposition := Some LOCAL_RUNTIME, receipt_reason := Some rsn,
      processing_state := Some PENDING, local_ordinal := Some (next_ordinal d),
      after_server_seq := (if high_water d > 0 then Some (high_water d) else None),
      content_type := ctype, content := cont\<rparr>)"
  define d1 where "d1 = d\<lparr>next_ordinal := next_ordinal d + 1, messages := sql_update P f (messages d)\<rparr>"
  have "d' = d \<or> (\<exists>x. row = Some x \<and> P x \<and> d' = refresh_notice_state now (Some (received_at x)) d1)"
    using pr ct sql_fetchone_Some [of _ "messages d"]
    by (auto simp: promote_local_gated_row_def Let_def allocate_local_position_def P_def f_def d1_def row
        split: option.splits if_splits prod.splits)
  moreover have "store_inv (refresh_notice_state now (Some (received_at x)) d1)" if x: "row = Some x" "P x" for x
  proof (rule store_inv_activate [where P = P and f = f and r = x, OF inv])
    have im: "inv_messages d" using inv by (simp add: store_inv_def)
    show "messages d1 = sql_update P f (messages d)" by (simp add: d1_def)
    show "inv_messages d1"
    proof (rule inv_messages_map [OF im, where g = "\<lambda>m. if P m then f m else m"])
      show "messages d1 = map (\<lambda>m. if P m then f m else m) (messages d)" by (simp add: d1_def sql_update_map)
      show "distinct (seqs (map (\<lambda>m. if P m then f m else m) (messages d)))"
        using im by (subst map_filter_cong_map) (auto simp: f_def inv_messages_def)
      show "distinct (ordinals (map (\<lambda>m. if P m then f m else m) (messages d)))"
        unfolding sql_update_map [symmetric]
        by (rule distinct_map_filter_fresh [where i = eid and v = "next_ordinal d"])
           (use im in \<open>auto simp: f_def P_def inv_messages_def set_map_filter_col\<close>)
      show "row_wf (if P m then f m else m)" if "row_wf m" for m
        using that by (auto simp: row_wf_def P_def f_def is_pending_def)
      show "s < next_ordinal d1" if "m \<in> set (messages d)" "local_ordinal (if P m then f m else m) = Some s" for m s
        using that im by (fastforce simp: d1_def f_def inv_messages_def split: if_splits)
    qed (use im in \<open>auto simp: d1_def f_def inv_messages_def split: if_splits\<close>)
    show "x \<in> set (messages d)" using x(1) row sql_fetchone_Some by metis
    show "P x" by (rule x(2))
  qed (simp_all add: d1_def P_def f_def is_pending_def)
  ultimately show ?thesis using inv by auto
qed

lemma store_inv_promote:
  assumes inv: "store_inv d" and pr: "promote_gated_receipt now eid seq rsn approved d = Inr (r, d')"
  shows "store_inv d'"
proof (cases seq)
  case None
  with pr show ?thesis
    by (auto simp: promote_gated_receipt_def Let_def split: if_splits
        intro: store_inv_promote_local [OF inv refl])
next
  case (Some s)
  define row where "row = sql_fetchone (\<lambda>m. envelope_id m = eid) (messages d)"
  define repl where "repl = map_option (\<lambda>p. (content_type (payload_values now p None),
      content (payload_values now p None))) approved"
  obtain ctype cont where ct: "get_default repl (content_type (the row), content (the row)) = (ctype, cont)"
    by force
  define P where "P = (\<lambda>m :: message_row. envelope_id m = eid \<and> server_seq m = Some s
      \<and> receipt_disposition m = Some FOREIGN_DM_GATED \<and> processing_state m = None)"
  define f where "f = (\<lambda>m :: message_row. m\<lparr>receipt_disposition := Some ELIGIBLE, receipt_reason := Some rsn,
      processing_state := Some PENDING, content_type := ctype, content := cont\<rparr>)"
  define d1 where "d1 = d\<lparr>messages := sql_update P f (messages d)\<rparr>"
  have "d' = d \<or> (\<exists>x. row = Some x \<and> P x \<and> d' = refresh_notice_state now None d1)"
  proof (cases row)
    case None
    with pr show ?thesis
      unfolding promote_gated_receipt_def Let_def row_def [symmetric] by (simp add: Some split: if_splits)
  next
    case row: (Some x)
    then have "envelope_id x = eid" using sql_fetchone_Some [of _ "messages d"] unfolding row_def by fastforce
    with pr row ct show ?thesis
      unfolding promote_gated_receipt_def Let_def row_def [symmetric] repl_def [symmetric]
      by (auto simp: Some P_def f_def d1_def split: if_splits)
  qed
  moreover have "store_inv (refresh_notice_state now None d1)" if x: "row = Some x" "P x" for x
  proof (rule store_inv_activate [where P = P and f = f and r = x, OF inv])
    have im: "inv_messages d" using inv by (simp add: store_inv_def)
    show "messages d1 = sql_update P f (messages d)" by (simp add: d1_def)
    show "inv_messages d1"
    proof (rule inv_messages_keep [OF im, where g = "\<lambda>m. if P m then f m else m"])
      show "messages d1 = map (\<lambda>m. if P m then f m else m) (messages d)" by (simp add: d1_def sql_update_map)
      show "row_wf (if P m then f m else m)" if "row_wf m" for m
        using that by (auto simp: row_wf_def P_def f_def is_pending_def)
    qed (simp_all add: d1_def f_def)
    show "x \<in> set (messages d)" using x(1) row_def sql_fetchone_Some by metis
    show "P x" by (rule x(2))
  qed (simp_all add: d1_def P_def f_def is_pending_def)
  ultimately show ?thesis using inv by auto
qed

text \<open>A denial rewrites gated rows, which have no lifecycle of their own.\<close>

lemma gated_quiet: "row_wf m \<Longrightarrow> receipt_disposition m = Some FOREIGN_DM_GATED \<Longrightarrow> processing_state m = None"
  by (auto simp: row_wf_def)

lemma store_inv_deny:
  assumes inv: "store_inv d" and P: "\<And>m. P m \<Longrightarrow> receipt_disposition m = Some FOREIGN_DM_GATED"
  shows "store_inv (d\<lparr>messages := sql_update P deny_row (messages d)\<rparr>)"
proof (rule store_inv_map [OF inv, where g = "\<lambda>m. if P m then deny_row m else m"])
  show "inv_messages (d\<lparr>messages := sql_update P deny_row (messages d)\<rparr>)"
  proof (rule inv_messages_keep [where d = d and g = "\<lambda>m. if P m then deny_row m else m"])
    show "row_wf (if P m then deny_row m else m)" if "row_wf m" for m
      using that P [of m] by (auto simp: row_wf_def deny_row_def is_pending_def)
  qed (use inv in \<open>auto simp: store_inv_def deny_row_def sql_update_map\<close>)
qed (auto simp: sql_update_map same_lifecycle_def deny_row_def)

lemma store_inv_tombstone_from: "store_inv d \<Longrightarrow> store_inv (snd (tombstone_gated_dms_from sender d))"
  by (auto simp: tombstone_gated_dms_from_def Let_def intro!: store_inv_deny)

lemma store_inv_tombstone: "store_inv d \<Longrightarrow> store_inv (snd (tombstone_gated_dm eid seq d))"
  by (auto simp: tombstone_gated_dm_def split: option.splits intro!: store_inv_deny)

lemma store_inv_cleanup:
  assumes inv: "store_inv d"
  shows "store_inv (snd (cleanup now days d))"
proof -
  define P where "P = (\<lambda>m :: message_row. received_at m < now - days * 86400000
      \<and> (processing_state m = None \<or> processing_state m = Some PROCESSED) \<and> not_gated m)"
  let ?d = "d\<lparr>messages := sql_delete P (messages d)\<rparr>"
  have im: "inv_messages d" and it: "inv_turns d" using inv by (simp_all add: store_inv_def)
  have "inv_messages ?d"
    using im by (auto simp: inv_messages_def sql_delete_def distinct_map_filter distinct_map_filter_filter)
  moreover have "inv_turns ?d"
  proof -
    have "\<exists>m\<in>set (messages ?d). envelope_id m = trm_envelope_id r \<and> in_turn_of (trm_turn_id r) m"
      if "r \<in> set (turn_run_messages d)" "turn_active d (trm_turn_id r)" for r
    proof -
      from it that obtain m where m: "m \<in> set (messages d)" "envelope_id m = trm_envelope_id r"
        "in_turn_of (trm_turn_id r) m" by (auto simp: inv_turns_def)
      then have "m \<in> set (messages ?d)" by (auto simp: in_turn_of_def P_def)
      with m(2,3) show ?thesis by blast
    qed
    with it show ?thesis by (simp add: inv_turns_def)
  qed
  moreover have "pending_ids ?d = pending_ids d"
  proof -
    have "filter is_pending (sql_delete P (messages d)) = filter is_pending (messages d)"
      by (auto simp: sql_delete_def P_def is_pending_def intro!: filter_cong)
    then show ?thesis by (simp add: pending_ids_def)
  qed
  then have "inv_notice ?d"
  proof (rule inv_notice_frame [rotated 3])
    show "inv_notice d" using inv by (simp add: store_inv_def)
    show "distinct (map envelope_id (messages d))" using im by (simp add: inv_messages_def)
    show "distinct (map envelope_id (messages ?d))" using \<open>inv_messages ?d\<close> by (simp only: inv_messages_def)
  qed simp_all
  ultimately show ?thesis by (simp add: cleanup_def Let_def P_def store_inv_def)
qed

end
