(* ===== verification/Inbox_Turns.thy ===== *)
theory Inbox_Turns
  imports Receipt_Facts
begin

section \<open>Turns: admission, completion, requeue, covers\<close>

text \<open>
  \<open>agent/inbox_store.py\<close>, the turn lifecycle: a turn claims exact pending rows, and later settles
  exactly those rows as processed, redelivered or requeued. Each definition is the whole
  transaction; a raise returns \<^term>\<open>Inl\<close> and no database, as the rollback does. All clock reads
  of one transaction are the one argument \<open>now\<close>.
\<close>

subsection \<open>Statements\<close>

text \<open>\<open>_exact_ids\<close>.\<close>

definition exact_ids :: "string list \<Rightarrow> string list res" where
  "exact_ids ids =
     (if ids = [] \<or> [] \<in> set ids then Inl (LifecycleConflict ''message ID set must be non-empty'')
      else if length ids \<noteq> card (set ids)
      then Inl (LifecycleConflict ''message ID set contains duplicates'')
      else Inr ids)"

text \<open>INSERT INTO turn_runs and INSERT INTO turn_run_messages with their keys.\<close>

definition insert_turn_run :: "turn_row \<Rightarrow> db \<Rightarrow> db res" where
  "insert_turn_run r d =
     (if tr_turn_id r \<in> tr_turn_id ` set (turn_runs d)
      then Inl (IntegrityError ''UNIQUE constraint failed: turn_runs.turn_id'')
      else Inr (d\<lparr>turn_runs := turn_runs d @ [r]\<rparr>))"

definition insert_turn_member :: "member_row \<Rightarrow> member_row list \<Rightarrow> member_row list res" where
  "insert_turn_member r rows =
     (if (trm_turn_id r, trm_envelope_id r) \<in> (\<lambda>x. (trm_turn_id x, trm_envelope_id x)) ` set rows
         \<or> (trm_turn_id r, trm_ordinal r) \<in> (\<lambda>x. (trm_turn_id x, trm_ordinal x)) ` set rows
      then Inl (IntegrityError ''UNIQUE constraint failed: turn_run_messages'')
      else Inr (rows @ [r]))"

text \<open>The loop \<open>for offset, envelope_id in enumerate(ids)\<close>.\<close>

fun insert_turn_members :: "string \<Rightarrow> int \<Rightarrow> string list \<Rightarrow> member_row list \<Rightarrow> member_row list res" where
  "insert_turn_members t n [] rows = Inr rows"
| "insert_turn_members t n (i # ids) rows =
     res_bind (insert_turn_member \<lparr>trm_turn_id = t, trm_envelope_id = i, trm_ordinal = n\<rparr> rows)
       (insert_turn_members t (n + 1) ids)"

text \<open>\<open>COALESCE(MAX(ordinal), -1) + 1\<close> of a turn.\<close>

definition next_member_ordinal :: "string \<Rightarrow> db \<Rightarrow> int" where
  "next_member_ordinal t d =
     fold max (map trm_ordinal (filter (\<lambda>r. trm_turn_id r = t) (turn_run_messages d))) (-1) + 1"

text \<open>The read-back that ends every turn transaction.\<close>

definition turn_result :: "string \<Rightarrow> db \<Rightarrow> (TurnRun \<times> db) res" where
  "turn_result t d = (case get_turn_run d t of None \<Rightarrow> Inl AssertionFailure | Some run \<Rightarrow> Inr (run, d))"

subsection \<open>Turn start and session transfer\<close>

definition start_turn ::
  "int \<Rightarrow> string \<Rightarrow> string option \<Rightarrow> int option \<Rightarrow> int option \<Rightarrow> string list \<Rightarrow> db \<Rightarrow> (TurnRun \<times> db) res" where
  "start_turn now t session started notice_gen notice_ids d =
     (if t = [] then Inl (LifecycleConflict ''turn ID is required'')
      else if (case notice_gen of None \<Rightarrow> False
               | Some g \<Rightarrow> g < 0 \<or> notice_ids = [] \<or> length notice_ids \<noteq> card (set notice_ids))
      then Inl (LifecycleConflict ''notice claim requires valid message IDs'')
      else
        res_bind
          (case notice_gen of
             Some g \<Rightarrow>
               if truthy session
               then (let (changed, d1) = mark_notice_delivered_unlocked g (or_empty session) notice_ids None d
                     in if changed then Inr d1
                        else Inl (LifecycleConflict ''Inbox notice is stale or already claimed''))
               else Inr d
           | None \<Rightarrow> Inr d)
          (\<lambda>d1. res_bind
             (insert_turn_run \<lparr>tr_turn_id = t, tr_provider_session_id = session,
                               tr_state = processing_state_value IN_TURN,
                               tr_started_at = get_default started now, tr_completed_at = None\<rparr> d1)
             (turn_result t)))"

text \<open>UPDATE turn_runs ... WHERE turn_id = ? AND state = 'in_turn' with its rowcount check.\<close>

definition update_active_turn ::
  "string \<Rightarrow> (turn_row \<Rightarrow> bool) \<Rightarrow> (turn_row \<Rightarrow> turn_row) \<Rightarrow> string \<Rightarrow> db \<Rightarrow> db res" where
  "update_active_turn t P f err d =
     (let Q = (\<lambda>r. tr_turn_id r = t \<and> tr_state r = processing_state_value IN_TURN \<and> P r)
      in if sql_count Q (turn_runs d) \<noteq> 1 then Inl (LifecycleConflict err)
         else Inr (d\<lparr>turn_runs := sql_update Q f (turn_runs d)\<rparr>))"

definition finalize_empty_turn :: "int \<Rightarrow> string \<Rightarrow> string \<Rightarrow> db \<Rightarrow> (TurnRun \<times> db) res" where
  "finalize_empty_turn now t state d =
     (if state \<noteq> processing_state_value PROCESSED \<and> state \<noteq> ''requeued''
      then Inl (LifecycleConflict ''invalid terminal Turn state'')
      else res_bind
        (update_active_turn t (\<lambda>_. \<not> sql_exists (\<lambda>m. trm_turn_id m = t) (turn_run_messages d))
           (\<lambda>r. r\<lparr>tr_state := state, tr_completed_at := Some now\<rparr>) ''Turn is not active and empty'' d)
        (turn_result t))"

definition transfer_turn_session ::
  "string \<Rightarrow> string option \<Rightarrow> string \<Rightarrow> db \<Rightarrow> (TurnRun \<times> db) res" where
  "transfer_turn_session t from_session to_session d =
     (if t = [] then Inl (LifecycleConflict ''turn ID is required'')
      else if to_session = [] then Inl (LifecycleConflict ''a replacement provider session is required'')
      else res_bind
        (update_active_turn t (\<lambda>r. tr_provider_session_id r = from_session)
           (\<lambda>r. r\<lparr>tr_provider_session_id := Some to_session\<rparr>)
           ''turn is not active under the previous provider session'' d)
        (turn_result t))"

subsection \<open>Admission\<close>

text \<open>The body of \<open>_admit_messages_unlocked\<close> between the two lookups and the message UPDATE: the turn
  is reused or created, and the first free ordinal determined.\<close>

definition admit_turn ::
  "string list \<Rightarrow> string \<Rightarrow> string option \<Rightarrow> int \<Rightarrow> db \<Rightarrow> (int \<times> db) res" where
  "admit_turn ids t session visible_at d =
     (case sql_fetchone (\<lambda>r. tr_turn_id r = t) (turn_runs d) of
        Some run \<Rightarrow>
          if tr_provider_session_id run \<noteq> session
          then Inl (LifecycleConflict ''turn belongs to another provider session'')
          else if tr_state run \<noteq> processing_state_value IN_TURN
          then Inl (LifecycleConflict ''turn is not active'')
          else if sql_exists (\<lambda>r. trm_turn_id r = t \<and> trm_envelope_id r \<in> set ids) (turn_run_messages d)
          then Inl (LifecycleConflict ''message ID is already a member of this turn'')
          else Inr (next_member_ordinal t d, d)
      | None \<Rightarrow>
          res_bind
            (insert_turn_run \<lparr>tr_turn_id = t, tr_provider_session_id = session,
                              tr_state = processing_state_value IN_TURN,
                              tr_started_at = visible_at, tr_completed_at = None\<rparr> d)
            (\<lambda>d1. Inr (0, d1)))"

definition admit_row :: "string \<Rightarrow> int \<Rightarrow> message_row \<Rightarrow> message_row" where
  "admit_row t visible_at m = m\<lparr>processing_state := Some IN_TURN, processing_turn_id := Some t,
                                 model_visible_at := Some visible_at\<rparr>"

definition pending_in :: "string list \<Rightarrow> message_row \<Rightarrow> bool" where
  "pending_in ids m \<longleftrightarrow> envelope_id m \<in> set ids \<and> is_pending m"

definition admit_messages ::
  "int \<Rightarrow> string list \<Rightarrow> string \<Rightarrow> string option \<Rightarrow> int option \<Rightarrow> db \<Rightarrow> (TurnRun \<times> db) res" where
  "admit_messages now message_ids t session visible d =
     res_bind (exact_ids message_ids) (\<lambda>ids.
       if t = [] then Inl (LifecycleConflict ''turn ID is required'')
       else let visible_at = get_default visible now;
                found = filter (\<lambda>m. envelope_id m \<in> set ids) (messages d)
            in if card (envelope_id ` set found) \<noteq> length ids
                  \<or> \<not> list_all (\<lambda>i. list_ex (\<lambda>m. envelope_id m = i \<and> is_pending m) found) ids
               then Inl (LifecycleConflict ''every exact message ID must be pending'')
               else res_bind (admit_turn ids t session visible_at d) (\<lambda>(first, d1).
                      res_bind (insert_turn_members t first ids (turn_run_messages d1)) (\<lambda>members.
                        if sql_count (pending_in ids) (messages d1) \<noteq> length ids
                        then Inl (LifecycleConflict ''admission changed fewer rows than requested'')
                        else turn_result t (refresh_notice_state now None
                               (d1\<lparr>turn_run_messages := members,
                                   messages := sql_update (pending_in ids) (admit_row t visible_at)
                                                 (messages d1)\<rparr>)))))"

subsection \<open>Completion\<close>

definition in_turn_among :: "string \<Rightarrow> string list \<Rightarrow> message_row \<Rightarrow> bool" where
  "in_turn_among t ids m \<longleftrightarrow> envelope_id m \<in> set ids \<and> in_turn_of t m"

definition process_row :: "int \<Rightarrow> message_row \<Rightarrow> message_row" where
  "process_row completed m = m\<lparr>processing_state := Some PROCESSED, processed_at := Some completed\<rparr>"

definition renotice_row :: "message_row \<Rightarrow> message_row" where
  "renotice_row m = m\<lparr>processing_state := Some PENDING, processing_turn_id := None,
                       processed_at := None, renotified := True\<rparr>"

text \<open>\<open>_renotice_rows_unlocked\<close>.\<close>

definition renotice_rows :: "string list \<Rightarrow> string \<Rightarrow> db \<Rightarrow> db res" where
  "renotice_rows renotice t d =
     (if sql_count (in_turn_among t renotice) (messages d) \<noteq> length renotice
      then Inl (LifecycleConflict ''renotice changed fewer rows than requested'')
      else Inr (d\<lparr>messages := sql_update (in_turn_among t renotice) renotice_row (messages d),
                  notice_contributions :=
                    sql_delete (\<lambda>c. fst c \<in> set renotice) (notice_contributions d)\<rparr>))"

text \<open>The UPDATE that settles the processed rows.\<close>

definition process_rows :: "int \<Rightarrow> string list \<Rightarrow> string \<Rightarrow> db \<Rightarrow> db res" where
  "process_rows completed processed t d =
     (if sql_count (in_turn_among t processed) (messages d) \<noteq> length processed
      then Inl (LifecycleConflict ''completion changed fewer rows than requested'')
      else Inr (d\<lparr>messages := sql_update (in_turn_among t processed) (process_row completed) (messages d)\<rparr>))"

definition close_turn :: "int \<Rightarrow> string \<Rightarrow> string \<Rightarrow> db \<Rightarrow> db res" where
  "close_turn completed state t d =
     update_active_turn t (\<lambda>_. True)
       (\<lambda>r. r\<lparr>tr_state := state, tr_completed_at := Some completed\<rparr>) ''turn is not active'' d"

text \<open>\<open>_complete_turn_unlocked\<close>.\<close>

definition complete_turn ::
  "int \<Rightarrow> string list \<Rightarrow> string list \<Rightarrow> string \<Rightarrow> int option \<Rightarrow> string option \<Rightarrow> db \<Rightarrow> (TurnRun \<times> db) res" where
  "complete_turn now processed renotice t at session d =
     (let completed = get_default at now;
          owner = sql_fetchone (\<lambda>r. tr_turn_id r = t) (turn_runs d);
          expected = turn_message_ids d t;
          union = set processed \<union> set renotice;
          all_ids = processed @ renotice;
          in_turn = batched_select_ids envelope_id (in_turn_of t) (messages d) all_ids
      in if session \<noteq> None
            \<and> (case owner of None \<Rightarrow> True | Some r \<Rightarrow> tr_provider_session_id r \<noteq> session)
         then Inl (LifecycleConflict ''turn belongs to another provider session'')
         else if length expected \<noteq> card union \<or> set expected \<noteq> union
         then Inl (LifecycleConflict ''completion IDs do not exactly match the turn'')
         else if card in_turn \<noteq> length all_ids
         then Inl (LifecycleConflict ''every exact message ID must be in this turn'')
         else res_bind (if processed \<noteq> [] then process_rows completed processed t d else Inr d) (\<lambda>d1.
              res_bind (if renotice \<noteq> [] then renotice_rows renotice t d1 else Inr d1) (\<lambda>d2.
              res_bind (close_turn completed (processing_state_value PROCESSED) t d2) (\<lambda>d3.
                turn_result t (refresh_notice_state now None d3)))))"

definition mark_processed ::
  "int \<Rightarrow> string list \<Rightarrow> string \<Rightarrow> int option \<Rightarrow> string option \<Rightarrow> db \<Rightarrow> (TurnRun \<times> db) res" where
  "mark_processed now ids t at session d =
     res_bind (exact_ids ids) (\<lambda>xs. complete_turn now xs [] t at session d)"

definition complete_turn_with_renotice ::
  "int \<Rightarrow> string list \<Rightarrow> string list \<Rightarrow> string \<Rightarrow> string option \<Rightarrow> db \<Rightarrow> (TurnRun \<times> db) res" where
  "complete_turn_with_renotice now processed_ids renotice_ids t session d =
     res_bind (if processed_ids = [] then Inr [] else exact_ids processed_ids) (\<lambda>processed.
       if renotice_ids = [] then Inl (ValueError ''renotice_ids must be non-empty; use mark_processed'')
       else res_bind (exact_ids renotice_ids) (\<lambda>renotice.
         if set processed \<inter> set renotice \<noteq> {}
         then Inl (LifecycleConflict ''processed and renotice ids overlap'')
         else complete_turn now processed renotice t None session d))"

definition complete_turn_renotice_unrenotified ::
  "int \<Rightarrow> string \<Rightarrow> string option \<Rightarrow> db \<Rightarrow> (string list \<times> db) res" where
  "complete_turn_renotice_unrenotified now t session d =
     (let member_ids = turn_message_ids d t
      in if member_ids = []
         then res_bind (complete_turn now [] [] t None session d) (\<lambda>(_, d'). Inr ([], d'))
         else let unrenotified =
                    batched_select_ids envelope_id (\<lambda>m. \<not> renotified m) (messages d) member_ids;
                  renotice = filter (\<lambda>i. i \<in> unrenotified) member_ids;
                  processed = filter (\<lambda>i. i \<notin> unrenotified) member_ids
              in res_bind (complete_turn now processed renotice t None session d)
                   (\<lambda>(_, d'). Inr (renotice, d')))"

subsection \<open>Requeue\<close>

definition settle_row :: "int \<Rightarrow> message_row \<Rightarrow> message_row" where
  "settle_row now m = m\<lparr>processing_state := Some PROCESSED, processing_turn_id := None,
                         processed_at := Some now\<rparr>"

definition requeue_row :: "message_row \<Rightarrow> message_row" where
  "requeue_row m = m\<lparr>processing_state := Some PENDING, processing_turn_id := None,
                      model_visible_at := None, processed_at := None\<rparr>"

definition covered_among :: "string list \<Rightarrow> db \<Rightarrow> string set" where
  "covered_among ids d = batched_select_ids cv_covered_envelope_id (\<lambda>_. True) (message_covers d) ids"

definition requeue_messages :: "int \<Rightarrow> string list \<Rightarrow> string \<Rightarrow> db \<Rightarrow> (TurnRun \<times> db) res" where
  "requeue_messages now message_ids t d =
     res_bind (exact_ids message_ids) (\<lambda>ids.
       let expected = turn_message_ids d t;
           covered = covered_among ids d;
           settle = filter (\<lambda>i. i \<in> covered) ids;
           requeue = filter (\<lambda>i. i \<notin> covered) ids;
           rows1 = sql_update (in_turn_among t settle) (settle_row now) (messages d);
           rows2 = sql_update (in_turn_among t requeue) requeue_row rows1;
           changed = sql_count (in_turn_among t settle) (messages d)
                     + sql_count (in_turn_among t requeue) rows1
       in if length expected \<noteq> length ids \<or> set expected \<noteq> set ids
          then Inl (LifecycleConflict ''requeue IDs do not exactly match the turn'')
          else if changed \<noteq> length ids
          then Inl (LifecycleConflict ''every exact message ID must be in this turn'')
          else res_bind (close_turn now ''requeued'' t (d\<lparr>messages := rows2\<rparr>))
                 (\<lambda>d1. turn_result t (refresh_notice_state now None d1)))"

subsection \<open>Covers and quarantine\<close>

definition cover_key :: "cover_row \<Rightarrow> string \<times> string \<times> string" where
  "cover_key c = (cv_covered_envelope_id c, or_empty (cv_by_envelope_id c), cv_source c)"

fun insert_covers :: "cover_row list \<Rightarrow> cover_row list \<Rightarrow> cover_row list" where
  "insert_covers tbl [] = tbl"
| "insert_covers tbl (c # cs) =
     insert_covers (if cover_key c \<in> cover_key ` set tbl then tbl else tbl @ [c]) cs"

definition cover_settles :: "string list \<Rightarrow> db \<Rightarrow> message_row \<Rightarrow> bool" where
  "cover_settles ids d m \<longleftrightarrow>
     envelope_id m \<in> set ids \<and> is_pending m
     \<and> (renotified m \<or> envelope_id m \<in> trm_envelope_id ` set (turn_run_messages d))"

definition cover_row_settled :: "int \<Rightarrow> message_row \<Rightarrow> message_row" where
  "cover_row_settled now m =
     m\<lparr>processing_state := Some PROCESSED, processed_at := Some now, processing_turn_id := None,
       model_visible_at := Some (get_default (model_visible_at m) now)\<rparr>"

definition add_message_covers ::
  "int \<Rightarrow> string list \<Rightarrow> string \<Rightarrow> string option \<Rightarrow> string option \<Rightarrow> string option \<Rightarrow> db
   \<Rightarrow> ((string list \<times> string list) \<times> db) res" where
  "add_message_covers now covered_ids source by_id cnote t d =
     (if source \<notin> {''send'', ''reminder'', ''mark''}
      then Inl (ValueError ''cover source must be send, reminder, or mark'')
      else let ids = dict_fromkeys (filter (\<lambda>i. i \<noteq> []) covered_ids)
           in if ids = [] then Inr (([], []), d)
              else let known = batched_select_ids envelope_id (\<lambda>_. True) (messages d) ids;
                       recorded = filter (\<lambda>i. i \<in> known) ids;
                       unknown = filter (\<lambda>i. i \<notin> known) ids
                   in if recorded = [] then Inr ((recorded, unknown), d)
                      else Inr ((recorded, unknown),
                        refresh_notice_state now None
                          (d\<lparr>message_covers := insert_covers (message_covers d)
                               (map (\<lambda>i. \<lparr>cv_covered_envelope_id = i, cv_by_envelope_id = by_id,
                                           cv_source = source, cv_note = cnote, cv_turn_id = t,
                                           cv_created_at = now\<rparr>) recorded),
                             messages := sql_update (cover_settles recorded d)
                                           (cover_row_settled now) (messages d)\<rparr>)))"

definition count_uncovered_pending :: "db \<Rightarrow> nat" where
  "count_uncovered_pending d = sql_count (\<lambda>m. is_pending m \<and> renotified m) (messages d)"

definition get_covered_ids :: "string list \<Rightarrow> db \<Rightarrow> string set" where
  "get_covered_ids message_ids d =
     (let ids = dict_fromkeys (filter (\<lambda>i. i \<noteq> []) message_ids)
      in if ids = [] then {} else covered_among ids d)"

definition quarantine_row :: "string \<Rightarrow> message_row \<Rightarrow> message_row" where
  "quarantine_row rsn m = m\<lparr>receipt_disposition := Some TERMINAL, receipt_reason := Some rsn,
      processing_state := None, processing_turn_id := None, model_visible_at := None\<rparr>"

definition quarantine_pending :: "int \<Rightarrow> string \<Rightarrow> string \<Rightarrow> db \<Rightarrow> bool \<times> db" where
  "quarantine_pending now eid rsn d =
     (let P = (\<lambda>m. envelope_id m = eid \<and> is_pending m);
          d1 = d\<lparr>messages := sql_update P (quarantine_row rsn) (messages d)\<rparr>
      in if sql_count P (messages d) = 1 then (True, refresh_notice_state now None d1) else (False, d1))"

subsection \<open>Readers of turns\<close>

definition get_active_turn_runs :: "db \<Rightarrow> TurnRun list" where
  "get_active_turn_runs d =
     List.map_filter (\<lambda>r. get_turn_run d (tr_turn_id r))
       (sort_key (\<lambda>r. (tr_started_at r, tr_turn_id r))
          (filter (\<lambda>r. tr_state r = processing_state_value IN_TURN) (turn_runs d)))"

definition get_in_turn_messages :: "string \<Rightarrow> string option \<Rightarrow> db \<Rightarrow> message_row list" where
  "get_in_turn_messages t session d =
     (if session = None then []
      else case get_turn_run d t of
             None \<Rightarrow> []
           | Some run \<Rightarrow>
               if run_provider_session_id run \<noteq> session
                  \<or> run_state run \<noteq> processing_state_value IN_TURN then []
               else concat (map (\<lambda>i. filter (\<lambda>m. envelope_id m = i \<and> in_turn_of t m) (messages d))
                              (turn_message_ids d t)))"

end
