(* ===== verification/Turn_Facts.thy ===== *)
theory Turn_Facts
  imports Inbox_Turns
begin

section \<open>Turns keep the invariant\<close>

lemma sorted_keyD: "distinct (map envelope_id (messages d)) \<Longrightarrow> m \<in> set (messages d) \<Longrightarrow> m' \<in> set (messages d)
   \<Longrightarrow> envelope_id m = envelope_id m' \<Longrightarrow> m = m'"
  by (rule distinct_map_unique)

lemma exact_ids_Inr:
  "exact_ids ids = Inr xs \<longleftrightarrow> xs = ids \<and> ids \<noteq> [] \<and> [] \<notin> set ids \<and> distinct ids"
  by (auto simp: exact_ids_def)

lemma turn_result_Inr: "turn_result t d = Inr (run, d') \<longleftrightarrow> d' = d \<and> get_turn_run d t = Some run"
  by (auto simp: turn_result_def split: option.splits)

lemma update_active_turn_Inr:
  "update_active_turn t P f err d = Inr d' \<longleftrightarrow>
     (let Q = (\<lambda>r. tr_turn_id r = t \<and> tr_state r = processing_state_value IN_TURN \<and> P r)
      in sql_count Q (turn_runs d) = 1 \<and> d' = d\<lparr>turn_runs := sql_update Q f (turn_runs d)\<rparr>)"
  by (auto simp: update_active_turn_def Let_def)

lemma turn_active_iff:
  "turn_active d t \<longleftrightarrow> (\<exists>r\<in>set (turn_runs d). tr_turn_id r = t \<and> tr_state r = processing_state_value IN_TURN)"
  by (simp add: turn_active_def)

subsection \<open>One frame for every turn transaction\<close>

lemma store_inv_refresh_mono:
  assumes "store_inv d" "inv_messages d'" "inv_turns d'"
    and "notice d' = notice d" "notice_contributions d' = notice_contributions d"
    and "pending_ids d \<subseteq> pending_ids d' \<or> pending_ids d' \<subseteq> pending_ids d"
  shows "store_inv (refresh_notice_state now a d')"
proof (cases "pending_ids d' = pending_ids d")
  case True
  then show ?thesis by (rule store_inv_refresh_same [OF assms(1-5)])
next
  case False
  moreover have "distinct (map fst (notice_contributions d'))"
    using assms(1,5) by (simp add: store_inv_def inv_notice_def contributions_ok_def)
  ultimately show ?thesis
    using assms(5,6) by (intro store_inv_refresh_changed [OF assms(1-4)]) auto
qed

lemma pending_ids_map_mono:
  assumes "messages d' = map g (messages d)"
    and "\<And>m. m \<in> set (messages d) \<Longrightarrow> envelope_id (g m) = envelope_id m"
  shows "(\<forall>m\<in>set (messages d). is_pending m \<longrightarrow> is_pending (g m)) \<Longrightarrow> pending_ids d \<subseteq> pending_ids d'"
    and "(\<forall>m\<in>set (messages d). is_pending (g m) \<longrightarrow> is_pending m) \<Longrightarrow> pending_ids d' \<subseteq> pending_ids d"
  using assms by (fastforce simp: pending_ids_iff)+

lemma store_inv_rows:
  assumes inv: "store_inv d" and m: "messages d' = map g (messages d)"
    and keep: "\<And>m. m \<in> set (messages d) \<Longrightarrow> envelope_id (g m) = envelope_id m \<and> server_seq (g m) = server_seq m
        \<and> local_ordinal (g m) = local_ordinal m"
    and wf: "\<And>m. m \<in> set (messages d) \<Longrightarrow> row_wf m \<Longrightarrow> row_wf (g m)"
    and it: "inv_turns d'"
    and fr: "high_water d' = high_water d" "next_ordinal d' = next_ordinal d"
      "notice d' = notice d" "notice_contributions d' = notice_contributions d"
    and mono: "(\<forall>m\<in>set (messages d). is_pending m \<longrightarrow> is_pending (g m))
      \<or> (\<forall>m\<in>set (messages d). is_pending (g m) \<longrightarrow> is_pending m)"
  shows "store_inv (refresh_notice_state now a d')"
proof (rule store_inv_refresh_mono [OF inv _ it fr(3,4)])
  show "inv_messages d'"
    using inv by (intro inv_messages_keep [OF _ m keep wf]) (simp_all add: store_inv_def fr)
  show "pending_ids d \<subseteq> pending_ids d' \<or> pending_ids d' \<subseteq> pending_ids d"
    using mono pending_ids_map_mono [OF m] keep by blast
qed

subsection \<open>Start, transfer, empty finish\<close>

lemma sql_update_keys:
  "(\<And>r. k (f r) = k r) \<Longrightarrow> map k (sql_update P f rows) = map k rows"
  by (simp add: sql_update_def)

lemma inv_turns_runs:
  assumes it: "inv_turns d" and m: "messages d' = messages d" "turn_run_messages d' = turn_run_messages d"
    and runs: "distinct (map tr_turn_id (turn_runs d'))"
      "tr_turn_id ` set (turn_runs d) \<subseteq> tr_turn_id ` set (turn_runs d')"
    and ta: "\<And>u. u \<in> tr_turn_id ` set (turn_runs d) \<Longrightarrow> turn_active d' u = turn_active d u"
  shows "inv_turns d'"
  unfolding inv_turns_def m
proof (intro conjI ballI impI)
  have tm: "turn_message_ids d' = turn_message_ids d"
    using m(2) by (simp add: fun_eq_iff turn_message_ids_def)
  show "trm_turn_id r \<in> tr_turn_id ` set (turn_runs d')" if "r \<in> set (turn_run_messages d)" for r
    using that it runs(2) by (auto simp: inv_turns_def)
  show "\<exists>t. processing_turn_id x = Some t \<and> turn_active d' t \<and> envelope_id x \<in> set (turn_message_ids d' t)"
    if x: "x \<in> set (messages d)" "processing_state x = Some IN_TURN" for x
  proof -
    from it x obtain t where "processing_turn_id x = Some t" "turn_active d t" "envelope_id x \<in> set (turn_message_ids d t)"
      by (auto simp: inv_turns_def)
    moreover from this have "turn_active d' t" by (subst ta) (auto simp: turn_active_iff)
    ultimately show ?thesis by (simp add: tm)
  qed
  show "\<exists>x\<in>set (messages d). envelope_id x = trm_envelope_id r \<and> in_turn_of (trm_turn_id r) x"
    if r: "r \<in> set (turn_run_messages d)" "turn_active d' (trm_turn_id r)" for r
  proof -
    have "trm_turn_id r \<in> tr_turn_id ` set (turn_runs d)" using it r(1) by (simp add: inv_turns_def)
    with r ta it show ?thesis by (simp add: inv_turns_def)
  qed
qed (use it runs in \<open>simp_all add: inv_turns_def\<close>)

lemma inv_turns_new:
  assumes "inv_turns d" "t \<notin> tr_turn_id ` set (turn_runs d)" "tr_turn_id r = t"
    and "messages d' = messages d" "turn_run_messages d' = turn_run_messages d" "turn_runs d' = turn_runs d @ [r]"
  shows "inv_turns d'"
proof (rule inv_turns_runs [OF assms(1,4,5)])
  show "distinct (map tr_turn_id (turn_runs d'))" using assms(1-3) by (auto simp: assms(6) inv_turns_def)
  show "turn_active d' u = turn_active d u" if "u \<in> tr_turn_id ` set (turn_runs d)" for u
    using that assms(2,3) by (auto simp: turn_active_iff assms(6))
qed (auto simp: assms(6))

lemma store_inv_turns_only:
  assumes "store_inv d" "messages d' = messages d" "inv_turns d'"
    and "high_water d' = high_water d" "next_ordinal d' = next_ordinal d"
    and "notice d' = notice d" "notice_contributions d' = notice_contributions d"
  shows "store_inv d'"
proof -
  have "pending_ids d' = pending_ids d" using assms(2) by (rule pending_ids_cong)
  then have "inv_notice d'"
    by (rule inv_notice_frame [of d, rotated 3])
       (use assms(1,2,6,7) in \<open>simp_all add: store_inv_def inv_messages_def\<close>)
  moreover have "inv_messages d' = inv_messages d" using assms(2,4,5) by (rule inv_messages_cong)
  ultimately show ?thesis using assms(1,3) by (simp add: store_inv_def)
qed

lemma store_inv_insert_turn_run:
  assumes "store_inv d" "insert_turn_run r d = Inr d'"
  shows "store_inv d'"
proof -
  have d': "d' = d\<lparr>turn_runs := turn_runs d @ [r]\<rparr>" "tr_turn_id r \<notin> tr_turn_id ` set (turn_runs d)"
    using assms(2) by (auto simp: insert_turn_run_def split: if_splits)
  have "inv_turns d'"
    by (rule inv_turns_new [OF _ d'(2) refl]) (use assms(1) d'(1) in \<open>simp_all add: store_inv_def\<close>)
  then show ?thesis
    by (rule store_inv_turns_only [OF assms(1), rotated]) (simp_all add: d'(1))
qed

lemma store_inv_start_turn:
  assumes "store_inv d" "start_turn now t session started gen ids d = Inr (run, d')"
  shows "store_inv d'"
proof -
  from assms(2) obtain d1 r where d1: "d1 = d \<or> (\<exists>g. 0 \<le> g \<and> truthy session
        \<and> d1 = snd (mark_notice_delivered_unlocked g (or_empty session) ids None d))"
    and ins: "insert_turn_run r d1 = Inr d'"
    by (auto simp: start_turn_def res_bind_Inr turn_result_Inr Let_def not_less
        split: if_splits option.splits prod.splits)
       (metis snd_conv)+
  from d1 assms(1) have "store_inv d1"
    by (auto intro!: store_inv_mark_unlocked simp: truthy_def or_empty_def get_default_def)
  then show ?thesis using ins by (rule store_inv_insert_turn_run)
qed

lemma inv_turns_retag:
  assumes "inv_turns d" "\<And>r. tr_turn_id (f r) = tr_turn_id r \<and> tr_state (f r) = tr_state r"
  shows "inv_turns (d\<lparr>turn_runs := sql_update Q f (turn_runs d)\<rparr>)"
proof -
  let ?d = "d\<lparr>turn_runs := sql_update Q f (turn_runs d)\<rparr>"
  have keys: "map tr_turn_id (turn_runs ?d) = map tr_turn_id (turn_runs d)"
    using assms(2) by (simp add: sql_update_keys)
  then have k: "tr_turn_id ` set (turn_runs ?d) = tr_turn_id ` set (turn_runs d)"
    by (metis set_map)
  have "map (\<lambda>r. (tr_turn_id r, tr_state r)) (turn_runs ?d) = map (\<lambda>r. (tr_turn_id r, tr_state r)) (turn_runs d)"
    using assms(2) by (simp add: sql_update_keys)
  then have "(\<lambda>r. (tr_turn_id r, tr_state r)) ` set (turn_runs ?d) = (\<lambda>r. (tr_turn_id r, tr_state r)) ` set (turn_runs d)"
    by (simp only: set_map [symmetric])
  moreover have "turn_active e u \<longleftrightarrow> (u, processing_state_value IN_TURN) \<in> (\<lambda>r. (tr_turn_id r, tr_state r)) ` set (turn_runs e)"
    for e u by (auto simp: turn_active_iff)
  ultimately have "turn_active ?d = turn_active d" by (simp add: fun_eq_iff)
  then show ?thesis
    using assms(1) keys k by (intro inv_turns_runs [OF assms(1)]) (auto simp: inv_turns_def simp del: set_map)
qed

lemma store_inv_transfer:
  assumes "store_inv d" "transfer_turn_session t a b d = Inr (run, d')"
  shows "store_inv d'"
proof -
  from assms(2) obtain Q where d': "d' = d\<lparr>turn_runs := sql_update Q (\<lambda>r. r\<lparr>tr_provider_session_id := Some b\<rparr>) (turn_runs d)\<rparr>"
    by (auto simp: transfer_turn_session_def res_bind_Inr turn_result_Inr update_active_turn_Inr Let_def split: if_splits)
  have "inv_turns d'" unfolding d' using assms(1) by (intro inv_turns_retag) (simp_all add: store_inv_def)
  then show ?thesis by (rule store_inv_turns_only [OF assms(1), rotated]) (simp_all add: d')
qed

text \<open>Closing a turn whose rows have all left it.\<close>

lemma inv_turns_close:
  assumes it: "inv_turns d" and m: "messages d' = map g (messages d)"
    and env: "\<And>m. m \<in> set (messages d) \<Longrightarrow> envelope_id (g m) = envelope_id m"
    and leave: "\<And>m. m \<in> set (messages d) \<Longrightarrow> in_turn_of t m \<Longrightarrow> processing_state (g m) \<noteq> Some IN_TURN"
    and stay: "\<And>m. m \<in> set (messages d) \<Longrightarrow> \<not> in_turn_of t m \<Longrightarrow> g m = m"
    and runs: "turn_runs d' = sql_update (\<lambda>r. tr_turn_id r = t \<and> tr_state r = processing_state_value IN_TURN) f (turn_runs d)"
    and f: "\<And>r. tr_turn_id (f r) = tr_turn_id r \<and> tr_state (f r) \<noteq> processing_state_value IN_TURN"
    and mem: "turn_run_messages d' = turn_run_messages d"
  shows "inv_turns d'"
proof -
  have tm: "turn_message_ids d' = turn_message_ids d"
    using mem by (simp add: fun_eq_iff turn_message_ids_def)
  have keys: "map tr_turn_id (turn_runs d') = map tr_turn_id (turn_runs d)"
    unfolding runs using f by (simp add: sql_update_keys)
  then have k: "tr_turn_id ` set (turn_runs d') = tr_turn_id ` set (turn_runs d)" by (metis set_map)
  have ta: "turn_active d' u \<longleftrightarrow> u \<noteq> t \<and> turn_active d u" for u
    unfolding turn_active_iff runs using f by (auto simp: set_sql_update split: if_splits)
  have "\<exists>u. processing_turn_id x = Some u \<and> turn_active d' u \<and> envelope_id x \<in> set (turn_message_ids d' u)"
    if "x \<in> set (messages d')" "processing_state x = Some IN_TURN" for x
  proof -
    from that(1) obtain x0 where x0: "x0 \<in> set (messages d)" "x = g x0" by (auto simp: m)
    with leave that(2) have "\<not> in_turn_of t x0" by auto
    with x0 stay have "x = x0" by simp
    with x0 it that(2) obtain u where u: "processing_turn_id x = Some u" "turn_active d u"
      "envelope_id x \<in> set (turn_message_ids d u)" by (auto simp: inv_turns_def)
    with \<open>\<not> in_turn_of t x0\<close> \<open>x = x0\<close> that(2) have "u \<noteq> t" by (auto simp: in_turn_of_def)
    with u show ?thesis by (simp add: ta tm)
  qed
  moreover have "\<exists>x\<in>set (messages d'). envelope_id x = trm_envelope_id r \<and> in_turn_of (trm_turn_id r) x"
    if r: "r \<in> set (turn_run_messages d')" "turn_active d' (trm_turn_id r)" for r
  proof -
    from r it mem ta obtain x where x: "x \<in> set (messages d)" "envelope_id x = trm_envelope_id r"
      "in_turn_of (trm_turn_id r) x" "trm_turn_id r \<noteq> t" by (auto simp: inv_turns_def)
    then have "\<not> in_turn_of t x" by (auto simp: in_turn_of_def)
    with x(1) stay have "g x = x" by simp
    with x(1) have "x \<in> set (messages d')" unfolding m by (metis image_eqI set_map)
    with x(2,3) show ?thesis by blast
  qed
  ultimately show ?thesis
    using it keys k mem by (simp add: inv_turns_def del: set_map)
qed

lemma store_inv_finalize_empty:
  assumes "store_inv d" "finalize_empty_turn now t st d = Inr (run, d')"
  shows "store_inv d'"
proof -
  define f where "f = (\<lambda>r :: turn_row. r\<lparr>tr_state := st, tr_completed_at := Some now\<rparr>)"
  have it: "inv_turns d" using assms(1) by (simp add: store_inv_def)
  from assms(2) have st: "st \<noteq> processing_state_value IN_TURN"
    by (auto simp: finalize_empty_turn_def split: if_splits)
  from assms(2) have none: "\<not> sql_exists (\<lambda>m. trm_turn_id m = t) (turn_run_messages d)"
    by (cases "sql_exists (\<lambda>m. trm_turn_id m = t) (turn_run_messages d)")
       (simp_all add: finalize_empty_turn_def res_bind_Inr update_active_turn_Inr Let_def sql_count_def del: sql_exists_iff split: if_splits)
  with assms(2) have d': "d' = d\<lparr>turn_runs := sql_update (\<lambda>r. tr_turn_id r = t \<and> tr_state r = processing_state_value IN_TURN) f (turn_runs d)\<rparr>"
    by (auto simp: finalize_empty_turn_def res_bind_Inr update_active_turn_Inr turn_result_Inr f_def Let_def split: if_splits)
  have "\<not> in_turn_of t m" if "m \<in> set (messages d)" for m
    using that it none by (fastforce simp: inv_turns_def in_turn_of_def set_turn_message_ids)
  then have "inv_turns d'"
    by (intro inv_turns_close [OF it, where g = id and t = t and f = f])
       (use st in \<open>auto simp: d' f_def\<close>)
  then show ?thesis by (rule store_inv_turns_only [OF assms(1), rotated]) (simp_all add: d')
qed

subsection \<open>Completion\<close>

text \<open>The net effect of a completion on a row and on the database.\<close>

definition complete_row :: "int \<Rightarrow> string list \<Rightarrow> string list \<Rightarrow> string \<Rightarrow> message_row \<Rightarrow> message_row" where
  "complete_row c processed renotice t m =
     (if in_turn_among t processed m then process_row c m
      else if in_turn_among t renotice m then renotice_row m else m)"

definition closed_runs :: "int \<Rightarrow> string \<Rightarrow> string \<Rightarrow> turn_row list \<Rightarrow> turn_row list" where
  "closed_runs c st t rows =
     sql_update (\<lambda>r. tr_turn_id r = t \<and> tr_state r = processing_state_value IN_TURN)
       (\<lambda>r. r\<lparr>tr_state := st, tr_completed_at := Some c\<rparr>) rows"

definition completed_db :: "int \<Rightarrow> string list \<Rightarrow> string list \<Rightarrow> string \<Rightarrow> db \<Rightarrow> db" where
  "completed_db c processed renotice t d =
     d\<lparr>messages := map (complete_row c processed renotice t) (messages d),
       notice_contributions := sql_delete (\<lambda>x. fst x \<in> set renotice) (notice_contributions d),
       turn_runs := closed_runs c (processing_state_value PROCESSED) t (turn_runs d)\<rparr>"

lemma in_turn_among_Nil [simp]: "in_turn_among t [] m = False"
  by (simp add: in_turn_among_def)

lemma process_rows_Nil [simp]: "process_rows c [] t d = Inr d"
  by (simp add: process_rows_def sql_count_def sql_update_def map_idI)

lemma renotice_rows_Nil [simp]: "renotice_rows [] t d = Inr d"
  by (simp add: renotice_rows_def sql_count_def sql_update_def sql_delete_def map_idI)

lemma close_turn_Inr:
  "close_turn c st t d = Inr d' \<longleftrightarrow>
     sql_count (\<lambda>r. tr_turn_id r = t \<and> tr_state r = processing_state_value IN_TURN) (turn_runs d) = 1
     \<and> d' = d\<lparr>turn_runs := closed_runs c st t (turn_runs d)\<rparr>"
  by (simp add: close_turn_def update_active_turn_Inr closed_runs_def Let_def)

lemma complete_rows_compose:
  "sql_update (in_turn_among t renotice) renotice_row
     (sql_update (in_turn_among t processed) (process_row c) rows)
   = map (complete_row c processed renotice t) rows"
  by (simp add: sql_update_def complete_row_def in_turn_among_def in_turn_of_def process_row_def)

lemma count_after_process:
  assumes "set processed \<inter> set renotice = {}"
  shows "sql_count (in_turn_among t renotice) (sql_update (in_turn_among t processed) (process_row c) rows)
    = sql_count (in_turn_among t renotice) rows"
proof -
  have "in_turn_among t renotice (if in_turn_among t processed m then process_row c m else m)
      = in_turn_among t renotice m" for m
    using assms by (cases "in_turn_among t processed m")
      (auto simp: in_turn_among_def in_turn_of_def process_row_def)
  then show ?thesis
    by (simp add: sql_count_def sql_update_def filter_map comp_def)
qed

text \<open>The three ways to complete share one characterisation.\<close>

lemma complete_turn_cases:
  assumes "complete_turn now processed renotice t at session d = Inr (run, d')"
  shows "session \<noteq> None \<Longrightarrow> \<exists>r. sql_fetchone (\<lambda>r. tr_turn_id r = t) (turn_runs d) = Some r
           \<and> tr_provider_session_id r = session"
    and "set (turn_message_ids d t) = set processed \<union> set renotice"
    and "distinct (processed @ renotice)"
    and "\<And>i. i \<in> set (processed @ renotice) \<Longrightarrow> \<exists>m\<in>set (messages d). envelope_id m = i \<and> in_turn_of t m"
    and "sql_count (\<lambda>r. tr_turn_id r = t \<and> tr_state r = processing_state_value IN_TURN) (turn_runs d) = 1"
    and "d' = refresh_notice_state now None (completed_db (get_default at now) processed renotice t d)"
    and "get_turn_run d' t = Some run"
proof -
  let ?c = "get_default at now"
  have p: "(if processed \<noteq> [] then process_rows ?c processed t d else Inr d) = process_rows ?c processed t d"
    and r: "\<And>d1. (if renotice \<noteq> [] then renotice_rows renotice t d1 else Inr d1) = renotice_rows renotice t d1"
    by simp_all
  note u = assms [unfolded complete_turn_def Let_def p r]
  have pos: "\<not> (session \<noteq> None
      \<and> (case sql_fetchone (\<lambda>r. tr_turn_id r = t) (turn_runs d) of None \<Rightarrow> True
         | Some r \<Rightarrow> tr_provider_session_id r \<noteq> session))"
    and mem: "set (turn_message_ids d t) = set processed \<union> set renotice"
    and full: "card (batched_select_ids envelope_id (in_turn_of t) (messages d) (processed @ renotice))
      = length (processed @ renotice)"
    and steps: "res_bind (process_rows ?c processed t d) (\<lambda>d1.
              res_bind (renotice_rows renotice t d1) (\<lambda>d2.
              res_bind (close_turn ?c (processing_state_value PROCESSED) t d2) (\<lambda>d3.
                turn_result t (refresh_notice_state now None d3)))) = Inr (run, d')"
    using u by (simp_all split: if_splits del: length_append)
  from pos show "session \<noteq> None \<Longrightarrow> \<exists>r. sql_fetchone (\<lambda>r. tr_turn_id r = t) (turn_runs d) = Some r
           \<and> tr_provider_session_id r = session" by (auto split: option.splits)
  show "set (turn_message_ids d t) = set processed \<union> set renotice" by (rule mem)
  from full show "distinct (processed @ renotice)"
    and "\<And>i. i \<in> set (processed @ renotice) \<Longrightarrow> \<exists>m\<in>set (messages d). envelope_id m = i \<and> in_turn_of t m"
    unfolding batched_select_ids_full by blast+
  obtain d1 d2 d3 where d1: "process_rows ?c processed t d = Inr d1" and d2: "renotice_rows renotice t d1 = Inr d2"
    and d3: "close_turn ?c (processing_state_value PROCESSED) t d2 = Inr d3"
    and d': "turn_result t (refresh_notice_state now None d3) = Inr (run, d')"
    using steps by (auto elim!: res_bind_InrE)
  have e1: "d1 = d\<lparr>messages := sql_update (in_turn_among t processed) (process_row ?c) (messages d)\<rparr>"
    using d1 by (simp add: process_rows_def split: if_splits)
  have e2: "d2 = d1\<lparr>messages := sql_update (in_turn_among t renotice) renotice_row (messages d1),
       notice_contributions := sql_delete (\<lambda>x. fst x \<in> set renotice) (notice_contributions d1)\<rparr>"
    using d2 by (simp add: renotice_rows_def split: if_splits)
  show "sql_count (\<lambda>r. tr_turn_id r = t \<and> tr_state r = processing_state_value IN_TURN) (turn_runs d) = 1"
    using d3 by (simp add: close_turn_Inr e2 e1)
  have "d3 = completed_db ?c processed renotice t d"
    using d3 by (simp add: close_turn_Inr e2 e1 completed_db_def complete_rows_compose)
  with d' show "d' = refresh_notice_state now None (completed_db ?c processed renotice t d)"
    and "get_turn_run d' t = Some run" by (auto simp: turn_result_Inr)
qed

text \<open>Under the invariant the rows of a turn are exactly its members.\<close>

lemma in_turn_member:
  "inv_turns d \<Longrightarrow> m \<in> set (messages d) \<Longrightarrow> in_turn_of t m
   \<Longrightarrow> envelope_id m \<in> set (turn_message_ids d t) \<and> turn_active d t"
  by (auto simp: inv_turns_def in_turn_of_def)

lemma member_in_turn:
  assumes "inv_turns d" "i \<in> set (turn_message_ids d t)" "turn_active d t"
  shows "\<exists>m\<in>set (messages d). envelope_id m = i \<and> in_turn_of t m"
  using assms by (auto simp: inv_turns_def set_turn_message_ids)

lemma complete_row_keep:
  "envelope_id (complete_row c P R t m) = envelope_id m"
  "server_seq (complete_row c P R t m) = server_seq m"
  "local_ordinal (complete_row c P R t m) = local_ordinal m"
  "receipt_disposition (complete_row c P R t m) = receipt_disposition m"
  by (simp_all add: complete_row_def process_row_def renotice_row_def)

lemma row_wf_complete: "row_wf m \<Longrightarrow> row_wf (complete_row c P R t m)"
  by (auto simp: complete_row_def row_wf_def process_row_def renotice_row_def in_turn_among_def
      in_turn_of_def is_pending_def)

lemma complete_row_pending: "is_pending m \<Longrightarrow> complete_row c P R t m = m"
  by (simp add: complete_row_def in_turn_among_def in_turn_of_def is_pending_def)

lemma contributions_not_in_turn:
  assumes inv: "store_inv d" and R: "\<And>i. i \<in> set R \<Longrightarrow> \<exists>m\<in>set (messages d). envelope_id m = i \<and> in_turn_of t m"
  shows "sql_delete (\<lambda>x. fst x \<in> set R) (notice_contributions d) = notice_contributions d"
proof -
  have keys: "distinct (map envelope_id (messages d))"
    and sub: "fst ` set (notice_contributions d) \<subseteq> pending_ids d"
    using inv by (simp_all add: store_inv_def inv_messages_def inv_notice_def)
  have "fst c \<notin> set R" if c: "c \<in> set (notice_contributions d)" for c
  proof
    assume "fst c \<in> set R"
    then obtain m where m: "m \<in> set (messages d)" "envelope_id m = fst c" "in_turn_of t m" using R by blast
    have "fst c \<in> pending_ids d" using c sub by blast
    then obtain m' where m': "m' \<in> set (messages d)" "envelope_id m' = fst c" "is_pending m'"
      by (auto simp: pending_ids_iff)
    from m m' keys have "m = m'" by (metis distinct_map_unique)
    with m(3) m'(3) show False by (simp add: in_turn_of_def is_pending_def)
  qed
  then show ?thesis by (simp add: sql_delete_def filter_id_conv)
qed

lemma inv_turns_closed_by:
  assumes it: "inv_turns d" and m: "messages d' = map g (messages d)"
    and env: "\<And>m. envelope_id (g m) = envelope_id m"
    and leave: "\<And>m. in_turn_of t m \<Longrightarrow> envelope_id m \<in> ids \<Longrightarrow> processing_state (g m) \<noteq> Some IN_TURN"
    and stay: "\<And>m. \<not> in_turn_of t m \<Longrightarrow> g m = m"
    and ids: "set (turn_message_ids d t) = ids"
    and runs: "turn_runs d' = closed_runs c st t (turn_runs d)" "st \<noteq> processing_state_value IN_TURN"
    and mem: "turn_run_messages d' = turn_run_messages d"
  shows "inv_turns d'"
proof (rule inv_turns_close [OF it m _ _ _ runs(1) [unfolded closed_runs_def] _ mem])
  show "processing_state (g x) \<noteq> Some IN_TURN" if "x \<in> set (messages d)" "in_turn_of t x" for x
    using leave [of x] in_turn_member [OF it that] that(2) ids by auto
qed (use env stay runs(2) in simp_all)

lemma store_inv_complete_turn:
  assumes inv: "store_inv d" and "complete_turn now P R t at session d = Inr (run, d')"
  shows "store_inv d'"
proof -
  note c = complete_turn_cases [OF assms(2)]
  let ?c = "get_default at now"
  let ?d = "completed_db ?c P R t d"
  have it: "inv_turns d" using inv by (simp add: store_inv_def)
  have "inv_turns ?d"
    by (rule inv_turns_closed_by [OF it, where g = "complete_row ?c P R t" and ids = "set P \<union> set R"
          and c = ?c and st = "processing_state_value PROCESSED"])
       (use c(2) in \<open>auto simp: completed_db_def complete_row_def process_row_def renotice_row_def in_turn_among_def\<close>)
  then show ?thesis unfolding c(6)
    by (intro store_inv_rows [OF inv, where g = "complete_row ?c P R t"])
       (use c(4) contributions_not_in_turn [OF inv, of R t] in
        \<open>auto simp: completed_db_def complete_row_keep row_wf_complete complete_row_pending\<close>)
qed

lemma store_inv_mark_processed:
  "store_inv d \<Longrightarrow> mark_processed now ids t at session d = Inr (run, d') \<Longrightarrow> store_inv d'"
  by (auto simp: mark_processed_def res_bind_Inr intro: store_inv_complete_turn)

lemma store_inv_complete_with_renotice:
  "store_inv d \<Longrightarrow> complete_turn_with_renotice now P R t session d = Inr (run, d') \<Longrightarrow> store_inv d'"
  by (auto simp: complete_turn_with_renotice_def res_bind_Inr split: if_splits intro: store_inv_complete_turn)

lemma store_inv_complete_unrenotified:
  "store_inv d \<Longrightarrow> complete_turn_renotice_unrenotified now t session d = Inr (ids, d') \<Longrightarrow> store_inv d'"
  by (auto simp: complete_turn_renotice_unrenotified_def res_bind_Inr Let_def split: if_splits
      intro: store_inv_complete_turn)

subsection \<open>Requeue\<close>

definition requeued_row :: "int \<Rightarrow> string set \<Rightarrow> string list \<Rightarrow> string \<Rightarrow> message_row \<Rightarrow> message_row" where
  "requeued_row now covered ids t m =
     (if in_turn_among t ids m
      then (if envelope_id m \<in> covered then settle_row now m else requeue_row m) else m)"

definition requeued_db :: "int \<Rightarrow> string list \<Rightarrow> string \<Rightarrow> db \<Rightarrow> db" where
  "requeued_db now ids t d =
     d\<lparr>messages := map (requeued_row now (covered_among ids d) ids t) (messages d),
       turn_runs := closed_runs now ''requeued'' t (turn_runs d)\<rparr>"

lemma requeue_rows_compose:
  "sql_update (in_turn_among t (filter (\<lambda>i. i \<notin> C) ids)) requeue_row
     (sql_update (in_turn_among t (filter (\<lambda>i. i \<in> C) ids)) (settle_row now) rows)
   = map (requeued_row now C ids t) rows"
proof -
  let ?S = "in_turn_among t (filter (\<lambda>i. i \<in> C) ids)" and ?R = "in_turn_among t (filter (\<lambda>i. i \<notin> C) ids)"
  have "(if ?R (if ?S m then settle_row now m else m) then requeue_row (if ?S m then settle_row now m else m)
         else if ?S m then settle_row now m else m) = requeued_row now C ids t m" for m
  proof (cases "in_turn_among t ids m \<and> envelope_id m \<in> C")
    case True
    then have "?S m" "\<not> ?R (settle_row now m)"
      by (auto simp: in_turn_among_def settle_row_def in_turn_of_def)
    with True show ?thesis by (simp add: requeued_row_def)
  next
    case False
    then have "\<not> ?S m" "?R m = in_turn_among t ids m" by (auto simp: in_turn_among_def)
    with False show ?thesis by (auto simp: requeued_row_def)
  qed
  then show ?thesis by (simp add: sql_update_def)
qed

lemma requeue_cases:
  assumes "requeue_messages now ids t d = Inr (run, d')"
  shows "ids \<noteq> []" "distinct ids" "set (turn_message_ids d t) = set ids"
    and "sql_count (\<lambda>r. tr_turn_id r = t \<and> tr_state r = processing_state_value IN_TURN) (turn_runs d) = 1"
    and "d' = refresh_notice_state now None (requeued_db now ids t d)"
    and "get_turn_run d' t = Some run"
proof -
  have ex: "exact_ids ids = Inr ids" and ids: "ids \<noteq> [] \<and> distinct ids"
    using assms by (auto simp: requeue_messages_def res_bind_Inr exact_ids_Inr)
  have mem: "set (turn_message_ids d t) = set ids"
    and step: "res_bind (close_turn now ''requeued'' t
          (d\<lparr>messages := map (requeued_row now (covered_among ids d) ids t) (messages d)\<rparr>))
        (\<lambda>d1. turn_result t (refresh_notice_state now None d1)) = Inr (run, d')"
    using assms unfolding requeue_messages_def Let_def ex res_bind_simps requeue_rows_compose
    by (simp_all split: if_splits)
  show "ids \<noteq> []" "distinct ids" "set (turn_message_ids d t) = set ids" using ids mem by auto
  show "sql_count (\<lambda>r. tr_turn_id r = t \<and> tr_state r = processing_state_value IN_TURN) (turn_runs d) = 1"
    and "d' = refresh_notice_state now None (requeued_db now ids t d)"
    and "get_turn_run d' t = Some run"
    using step by (auto simp: res_bind_Inr close_turn_Inr turn_result_Inr requeued_db_def)
qed

lemma requeued_row_keep:
  "envelope_id (requeued_row now C ids t m) = envelope_id m"
  "server_seq (requeued_row now C ids t m) = server_seq m"
  "local_ordinal (requeued_row now C ids t m) = local_ordinal m"
  "receipt_disposition (requeued_row now C ids t m) = receipt_disposition m"
  by (simp_all add: requeued_row_def settle_row_def requeue_row_def)

lemma row_wf_requeued: "row_wf m \<Longrightarrow> row_wf (requeued_row now C ids t m)"
  by (auto simp: requeued_row_def row_wf_def settle_row_def requeue_row_def in_turn_among_def
      in_turn_of_def is_pending_def)

lemma requeued_row_pending: "is_pending m \<Longrightarrow> requeued_row now C ids t m = m"
  by (simp add: requeued_row_def in_turn_among_def in_turn_of_def is_pending_def)

lemma store_inv_requeue:
  assumes inv: "store_inv d" and "requeue_messages now ids t d = Inr (run, d')"
  shows "store_inv d'"
proof -
  note c = requeue_cases [OF assms(2)]
  let ?g = "requeued_row now (covered_among ids d) ids t"
  have it: "inv_turns d" using inv by (simp add: store_inv_def)
  have "inv_turns (requeued_db now ids t d)"
    by (rule inv_turns_closed_by [OF it, where g = ?g and ids = "set ids" and c = now and st = "''requeued''"])
       (use c(3) in \<open>auto simp: requeued_db_def requeued_row_def settle_row_def requeue_row_def in_turn_among_def\<close>)
  then show ?thesis unfolding c(5)
    by (intro store_inv_rows [OF inv, where g = ?g])
       (auto simp: requeued_db_def requeued_row_keep row_wf_requeued requeued_row_pending)
qed

subsection \<open>Admission\<close>

fun new_members :: "string \<Rightarrow> int \<Rightarrow> string list \<Rightarrow> member_row list" where
  "new_members t n [] = []"
| "new_members t n (i # ids) = \<lparr>trm_turn_id = t, trm_envelope_id = i, trm_ordinal = n\<rparr> # new_members t (n + 1) ids"

lemma map_new_members [simp]: "map trm_envelope_id (new_members t n ids) = ids"
  by (induction ids arbitrary: n) simp_all

lemma new_members_member:
  "r \<in> set (new_members t n ids) \<Longrightarrow> trm_turn_id r = t \<and> trm_envelope_id r \<in> set ids \<and> n \<le> trm_ordinal r"
  by (induction ids arbitrary: n) fastforce+

lemma set_new_members: "trm_envelope_id ` set (new_members t n ids) = set ids"
  by (metis map_new_members set_map)

lemma insert_turn_members_step:
  assumes "insert_turn_members t n (i # ids) rows = Inr rows'"
  shows "insert_turn_members t (n + 1) ids (rows @ [\<lparr>trm_turn_id = t, trm_envelope_id = i, trm_ordinal = n\<rparr>]) = Inr rows'"
    "(t, i) \<notin> (\<lambda>x. (trm_turn_id x, trm_envelope_id x)) ` set rows"
    "(t, n) \<notin> (\<lambda>x. (trm_turn_id x, trm_ordinal x)) ` set rows"
  using assms by (auto simp: res_bind_Inr insert_turn_member_def split: if_splits)

lemma insert_turn_members_Inr:
  assumes "insert_turn_members t n ids rows = Inr rows'"
  shows "rows' = rows @ new_members t n ids \<and>
    (distinct (map (\<lambda>r. (trm_turn_id r, trm_envelope_id r)) rows) \<longrightarrow>
         distinct (map (\<lambda>r. (trm_turn_id r, trm_envelope_id r)) rows')) \<and>
    (distinct (map (\<lambda>r. (trm_turn_id r, trm_ordinal r)) rows) \<longrightarrow>
         distinct (map (\<lambda>r. (trm_turn_id r, trm_ordinal r)) rows'))"
  using assms
proof (induction ids arbitrary: n rows)
  case (Cons i ids)
  note st = insert_turn_members_step [OF Cons.prems]
  note IH = Cons.IH [OF st(1)]
  have "rows' = rows @ new_members t n (i # ids)" using IH [THEN conjunct1] by simp
  moreover have "distinct (map (\<lambda>r. (trm_turn_id r, trm_envelope_id r)) rows')"
    if "distinct (map (\<lambda>r. (trm_turn_id r, trm_envelope_id r)) rows)"
    using IH [THEN conjunct2, THEN conjunct1] that st(2) by simp
  moreover have "distinct (map (\<lambda>r. (trm_turn_id r, trm_ordinal r)) rows')"
    if "distinct (map (\<lambda>r. (trm_turn_id r, trm_ordinal r)) rows)"
    using IH [THEN conjunct2, THEN conjunct2] that st(3) by simp
  ultimately show ?case by blast
qed simp

lemma insert_turn_members_ok:
  assumes "distinct ids" "\<And>r. r \<in> set rows \<Longrightarrow> trm_turn_id r = t \<Longrightarrow> trm_envelope_id r \<notin> set ids \<and> trm_ordinal r < n"
  shows "insert_turn_members t n ids rows = Inr (rows @ new_members t n ids)"
  using assms
proof (induction ids arbitrary: n rows)
  case (Cons i ids)
  let ?r = "\<lparr>trm_turn_id = t, trm_envelope_id = i, trm_ordinal = n\<rparr>"
  have "insert_turn_member ?r rows = Inr (rows @ [?r])"
    using Cons.prems(2) by (fastforce simp: insert_turn_member_def)
  moreover have "insert_turn_members t (n + 1) ids (rows @ [?r]) = Inr ((rows @ [?r]) @ new_members t (n + 1) ids)"
  proof (rule Cons.IH)
    show "trm_envelope_id r \<notin> set ids \<and> trm_ordinal r < n + 1" if "r \<in> set (rows @ [?r])" "trm_turn_id r = t" for r
    proof (cases "r \<in> set rows")
      case True
      with that Cons.prems(2) show ?thesis by fastforce
    next
      case False
      with that have "r = ?r" by simp
      with Cons.prems(1) show ?thesis by simp
    qed
  qed (use Cons.prems(1) in simp)
  ultimately show ?case by simp
qed simp

lemma next_member_ordinal_bound:
  "r \<in> set (turn_run_messages d) \<Longrightarrow> trm_turn_id r = t \<Longrightarrow> trm_ordinal r < next_member_ordinal t d"
  unfolding next_member_ordinal_def Max.set_eq_fold [symmetric] by (simp add: less_add_one le_imp_less_Suc)

lemma inv_turns_admit:
  assumes it: "inv_turns d" and keys: "distinct (map envelope_id (messages d))"
    and act: "turn_active d t" and sub: "set ids \<subseteq> pending_ids d"
    and ins: "insert_turn_members t n ids (turn_run_messages d) = Inr members"
    and d': "d' = d\<lparr>turn_run_messages := members, messages := sql_update (pending_in ids) (admit_row t v) (messages d)\<rparr>"
  shows "inv_turns d'"
proof -
  note m = insert_turn_members_Inr [OF ins]
  have ta: "turn_active d' = turn_active d" by (simp add: d' turn_active_iff fun_eq_iff)
  have tm: "set (turn_message_ids d' u) = set (turn_message_ids d u) \<union> (if u = t then set ids else {})" for u
  proof -
    have "set (turn_message_ids d' u) = set (turn_message_ids d u)
        \<union> trm_envelope_id ` {r \<in> set (new_members t n ids). trm_turn_id r = u}"
      using m [THEN conjunct1] by (auto simp: set_turn_message_ids d')
    moreover have "{r \<in> set (new_members t n ids). trm_turn_id r = u}
        = (if u = t then set (new_members t n ids) else {})"
      using new_members_member [of _ t n ids] by auto
    ultimately show ?thesis by (simp add: set_new_members)
  qed
  have "\<exists>u. processing_turn_id x = Some u \<and> turn_active d' u \<and> envelope_id x \<in> set (turn_message_ids d' u)"
    if x: "x \<in> set (messages d')" "processing_state x = Some IN_TURN" for x
  proof -
    from x(1) have "x \<in> set (sql_update (pending_in ids) (admit_row t v) (messages d))" by (simp add: d')
    then show ?thesis
    proof (rule in_sql_updateE)
      fix x0 assume "pending_in ids x0" "x = admit_row t v x0"
      then show ?thesis using act by (simp add: ta tm admit_row_def pending_in_def)
    next
      assume "x \<in> set (messages d)"
      with x(2) it obtain u where "processing_turn_id x = Some u" "turn_active d u"
        "envelope_id x \<in> set (turn_message_ids d u)" by (auto simp: inv_turns_def)
      then show ?thesis by (simp add: ta tm)
    qed
  qed
  moreover have "\<exists>x\<in>set (messages d'). envelope_id x = trm_envelope_id r \<and> in_turn_of (trm_turn_id r) x"
    if r: "r \<in> set (turn_run_messages d')" "turn_active d' (trm_turn_id r)" for r
  proof (cases "r \<in> set (turn_run_messages d)")
    case True
    with r(2) ta it obtain x where x: "x \<in> set (messages d)" "envelope_id x = trm_envelope_id r"
      "in_turn_of (trm_turn_id r) x" by (auto simp: inv_turns_def)
    then have "\<not> pending_in ids x" by (simp add: pending_in_def in_turn_of_def is_pending_def)
    with x(1) have "x \<in> set (messages d')" by (simp add: d' sql_update_other)
    with x(2,3) show ?thesis by blast
  next
    case False
    with r(1) m have "r \<in> set (new_members t n ids)" by (simp add: d')
    then have rt: "trm_turn_id r = t" "trm_envelope_id r \<in> set ids" using new_members_member by blast+
    with sub obtain x where x: "x \<in> set (messages d)" "is_pending x" "envelope_id x = trm_envelope_id r"
      by (auto simp: pending_ids_iff subset_iff)
    with rt have "admit_row t v x \<in> set (messages d')"
      unfolding d' by (simp add: sql_update_in pending_in_def)
    with x(3) rt(1) show ?thesis
      by (intro bexI [of _ "admit_row t v x"]) (simp_all add: admit_row_def in_turn_of_def)
  qed
  moreover have "trm_turn_id r \<in> tr_turn_id ` set (turn_runs d)" if "r \<in> set members" for r
    using that m it act new_members_member [of r t n ids] by (auto simp: inv_turns_def turn_active_iff)
  moreover have "distinct (map (\<lambda>r. (trm_turn_id r, trm_envelope_id r)) members)"
    "distinct (map (\<lambda>r. (trm_turn_id r, trm_ordinal r)) members)" "distinct (map tr_turn_id (turn_runs d))"
    using m [THEN conjunct2] it by (simp_all add: inv_turns_def)
  ultimately show ?thesis by (simp add: inv_turns_def d')
qed

lemma admit_turn_Inr:
  assumes inv: "store_inv d" and "admit_turn ids t session v d = Inr (n, d1)"
  shows "store_inv d1" "turn_active d1 t" "messages d1 = messages d" "turn_run_messages d1 = turn_run_messages d"
    "notice d1 = notice d" "notice_contributions d1 = notice_contributions d"
    "high_water d1 = high_water d" "next_ordinal d1 = next_ordinal d"
proof -
  have "(d1 = d \<and> (\<exists>run. sql_fetchone (\<lambda>r. tr_turn_id r = t) (turn_runs d) = Some run
        \<and> tr_state run = processing_state_value IN_TURN))
    \<or> insert_turn_run \<lparr>tr_turn_id = t, tr_provider_session_id = session,
         tr_state = processing_state_value IN_TURN, tr_started_at = v, tr_completed_at = None\<rparr> d = Inr d1"
    using assms(2) by (auto simp: admit_turn_def res_bind_Inr split: option.splits if_splits)
  then have "store_inv d1 \<and> turn_active d1 t \<and> messages d1 = messages d \<and> turn_run_messages d1 = turn_run_messages d
    \<and> notice d1 = notice d \<and> notice_contributions d1 = notice_contributions d
    \<and> high_water d1 = high_water d \<and> next_ordinal d1 = next_ordinal d"
  proof (elim disjE conjE exE)
    fix run assume "d1 = d" "sql_fetchone (\<lambda>r. tr_turn_id r = t) (turn_runs d) = Some run"
      "tr_state run = processing_state_value IN_TURN"
    then show ?thesis using inv sql_fetchone_Some by (fastforce simp: turn_active_iff)
  next
    assume ins: "insert_turn_run \<lparr>tr_turn_id = t, tr_provider_session_id = session,
         tr_state = processing_state_value IN_TURN, tr_started_at = v, tr_completed_at = None\<rparr> d = Inr d1"
    then show ?thesis
      using store_inv_insert_turn_run [OF inv ins]
      by (auto simp: insert_turn_run_def turn_active_iff split: if_splits)
  qed
  then show "store_inv d1" "turn_active d1 t" "messages d1 = messages d" "turn_run_messages d1 = turn_run_messages d"
    "notice d1 = notice d" "notice_contributions d1 = notice_contributions d"
    "high_water d1 = high_water d" "next_ordinal d1 = next_ordinal d" by blast+
qed

definition admitted_db :: "string list \<Rightarrow> string \<Rightarrow> int \<Rightarrow> int \<Rightarrow> db \<Rightarrow> db" where
  "admitted_db ids t v n d =
     d\<lparr>turn_run_messages := turn_run_messages d @ new_members t n ids,
       messages := sql_update (pending_in ids) (admit_row t v) (messages d)\<rparr>"

lemma admit_cases:
  assumes "admit_messages now ids t session visible d = Inr (run, d')"
  obtains n d1 where "ids \<noteq> []" "[] \<notin> set ids" "distinct ids" "t \<noteq> []" "set ids \<subseteq> pending_ids d"
    "admit_turn ids t session (get_default visible now) d = Inr (n, d1)"
    "insert_turn_members t n ids (turn_run_messages d1) = Inr (turn_run_messages d1 @ new_members t n ids)"
    "d' = refresh_notice_state now None (admitted_db ids t (get_default visible now) n d1)"
    "get_turn_run d' t = Some run"
proof -
  let ?v = "get_default visible now"
  have ex: "exact_ids ids = Inr ids" "ids \<noteq> []" "[] \<notin> set ids" "distinct ids"
    using assms by (auto simp: admit_messages_def res_bind_Inr exact_ids_Inr)
  have t: "t \<noteq> []"
    and all: "list_all (\<lambda>i. list_ex (\<lambda>m. envelope_id m = i \<and> is_pending m)
        (filter (\<lambda>m. envelope_id m \<in> set ids) (messages d))) ids"
    and rest: "res_bind (admit_turn ids t session ?v d) (\<lambda>(first, d1).
                      res_bind (insert_turn_members t first ids (turn_run_messages d1)) (\<lambda>members.
                        if sql_count (pending_in ids) (messages d1) \<noteq> length ids
                        then Inl (LifecycleConflict ''admission changed fewer rows than requested'')
                        else turn_result t (refresh_notice_state now None
                               (d1\<lparr>turn_run_messages := members,
                                   messages := sql_update (pending_in ids) (admit_row t ?v)
                                                 (messages d1)\<rparr>)))) = Inr (run, d')"
    using assms unfolding admit_messages_def ex(1) res_bind_simps Let_def
    by (simp_all split: if_splits)
  from all have sub: "set ids \<subseteq> pending_ids d"
    by (auto simp: list_all_iff list_ex_iff pending_ids_iff subset_iff)
  from rest obtain n d1 members where a: "admit_turn ids t session ?v d = Inr (n, d1)"
    and b: "insert_turn_members t n ids (turn_run_messages d1) = Inr members"
    and c: "turn_result t (refresh_notice_state now None
        (d1\<lparr>turn_run_messages := members, messages := sql_update (pending_in ids) (admit_row t ?v) (messages d1)\<rparr>))
      = Inr (run, d')"
    by (auto elim!: res_bind_InrE split: if_splits)
  have mem: "members = turn_run_messages d1 @ new_members t n ids" using insert_turn_members_Inr [OF b] by blast
  show thesis
    using that [OF ex(2-4) t sub a b [unfolded mem]] c by (simp add: mem turn_result_Inr admitted_db_def)
qed

lemma store_inv_admit:
  assumes inv: "store_inv d" and "admit_messages now ids t session visible d = Inr (run, d')"
  shows "store_inv d'"
  using assms(2)
proof (rule admit_cases)
  fix n d1
  let ?v = "get_default visible now"
  assume sub: "set ids \<subseteq> pending_ids d" and a: "admit_turn ids t session ?v d = Inr (n, d1)"
    and ins: "insert_turn_members t n ids (turn_run_messages d1) = Inr (turn_run_messages d1 @ new_members t n ids)"
    and d': "d' = refresh_notice_state now None (admitted_db ids t ?v n d1)"
  note f = admit_turn_Inr [OF inv a]
  let ?g = "\<lambda>m. if pending_in ids m then admit_row t ?v m else m"
  have sub1: "set ids \<subseteq> pending_ids d1" using sub f(3) by (simp add: pending_ids_def)
  have "inv_turns (admitted_db ids t ?v n d1)"
    by (rule inv_turns_admit [OF _ _ f(2) sub1 ins])
       (use f(1) in \<open>simp_all add: admitted_db_def store_inv_def inv_messages_def\<close>)
  then show "store_inv d'" unfolding d'
    by (intro store_inv_rows [OF f(1), where g = ?g])
       (auto simp: admitted_db_def sql_update_map admit_row_def row_wf_def pending_in_def is_pending_def)
qed

subsection \<open>Covers and quarantine\<close>

lemma store_inv_covers:
  assumes inv: "store_inv d" and "add_message_covers now ids src by_id cnote t d = Inr (r, d')"
  shows "store_inv d'"
proof -
  have "d' = d \<or> (\<exists>cs xs. d' = refresh_notice_state now None (d\<lparr>message_covers := cs,
      messages := sql_update (cover_settles xs d) (cover_row_settled now) (messages d)\<rparr>))"
    using assms(2) by (auto simp: add_message_covers_def Let_def split: if_splits)
  moreover have "store_inv (refresh_notice_state now None (d\<lparr>message_covers := cs,
      messages := sql_update (cover_settles xs d) (cover_row_settled now) (messages d)\<rparr>))" for cs xs
  proof (rule store_inv_rows [OF inv, where g = "\<lambda>m. if cover_settles xs d m then cover_row_settled now m else m"])
    show "inv_turns (d\<lparr>message_covers := cs,
        messages := sql_update (cover_settles xs d) (cover_row_settled now) (messages d)\<rparr>)"
      by (rule inv_turns_quiet [of d _ "cover_settles xs d" "cover_row_settled now"])
         (use inv in \<open>auto simp: store_inv_def cover_settles_def is_pending_def cover_row_settled_def\<close>)
  qed (auto simp: sql_update_map cover_row_settled_def cover_settles_def row_wf_def is_pending_def)
  ultimately show ?thesis using inv by auto
qed

lemma store_inv_quarantine:
  assumes inv: "store_inv d"
  shows "store_inv (snd (quarantine_pending now eid rsn d))"
proof -
  define P where "P = (\<lambda>m :: message_row. envelope_id m = eid \<and> is_pending m)"
  have keys: "distinct (map envelope_id (messages d))" using inv by (simp add: store_inv_def inv_messages_def)
  show ?thesis
  proof (cases "sql_count P (messages d) = 1")
    case True
    have "store_inv (refresh_notice_state now None (d\<lparr>messages := sql_update P (quarantine_row rsn) (messages d)\<rparr>))"
    proof (rule store_inv_rows [OF inv, where g = "\<lambda>m. if P m then quarantine_row rsn m else m"])
      show "inv_turns (d\<lparr>messages := sql_update P (quarantine_row rsn) (messages d)\<rparr>)"
        by (rule inv_turns_quiet [of d _ P "quarantine_row rsn"])
           (use inv in \<open>auto simp: store_inv_def P_def is_pending_def quarantine_row_def\<close>)
    qed (auto simp: sql_update_map quarantine_row_def P_def row_wf_def is_pending_def)
    with True show ?thesis by (simp add: quarantine_pending_def Let_def P_def)
  next
    case False
    then have "sql_count P (messages d) = 0"
      using sql_count_one [OF keys, of eid is_pending] by (auto simp: P_def split: if_splits)
    then have "sql_update P (quarantine_row rsn) (messages d) = messages d"
      by (intro sql_update_none) (simp add: sql_count_0)
    with False inv show ?thesis by (simp add: quarantine_pending_def Let_def P_def)
  qed
qed

end
