(* ===== verification/Receipt_Props.thy ===== *)
theory Receipt_Props
  imports Receipt_Facts
begin

section \<open>What a receipt guarantees\<close>

lemma keysD: "store_inv d \<Longrightarrow> distinct (map envelope_id (messages d))"
  by (simp add: store_inv_def inv_messages_def)

lemma seqsD: "store_inv d \<Longrightarrow> distinct (seqs (messages d))"
  by (simp add: store_inv_def inv_messages_def)

lemma row_wfD: "store_inv d \<Longrightarrow> m \<in> set (messages d) \<Longrightarrow> row_wf m"
  by (simp add: store_inv_def inv_messages_def)

lemma sql_count_key_hit:
  assumes "distinct (map k rows)" "r \<in> set rows" "k r = i" "P r"
  shows "sql_count (\<lambda>x. k x = i \<and> P x) rows = 1"
  using sql_count_one [OF assms(1), of i P] assms(2-4) by auto

lemma receipt_result_simps [simp]:
  "rr_status (receipt_result st disp rsn ack) = st" "rr_disposition (receipt_result st disp rsn ack) = disp"
  "rr_reason (receipt_result st disp rsn ack) = rsn" "rr_acknowledge (receipt_result st disp rsn ack) = ack"
  by (simp_all add: receipt_result_def)

text \<open>Writing a fresh sequence into the row of one envelope passes the unique index.\<close>

lemma check_seq_fresh:
  assumes "store_inv d" "\<And>m. m \<in> set (messages d) \<Longrightarrow> server_seq m \<noteq> Some seq"
    and "\<And>m. P m \<Longrightarrow> envelope_id m = eid" "\<And>m. server_seq (f m) = Some seq"
  shows "check_seq_index (sql_update P f (messages d)) = Inr (sql_update P f (messages d))"
proof -
  have "distinct (seqs (sql_update P f (messages d)))"
    by (rule distinct_map_filter_fresh [where i = eid and v = seq])
       (use assms in \<open>auto simp: keysD seqsD set_map_filter_col\<close>)
  then show ?thesis by simp
qed

text \<open>The envelope is known without a sequence: the backfill cannot fail, and it leaves the row with
  the sequence.\<close>

lemma backfill_cases:
  assumes inv: "store_inv d" and m: "m \<in> set (messages d)" "envelope_id m = eid" "server_seq m = None"
    and by_seq: "by_seq = sql_fetchone (\<lambda>m. server_seq m = Some seq) (messages d)"
  obtains (conflict) r where "backfill_missing_sequence eid seq disp rsn m by_seq d = Inr (r, d)"
      "rr_status r = CONFLICT" "\<not> rr_acknowledge r"
  | (written) r P f where "backfill_missing_sequence eid seq disp rsn m by_seq d =
        Inr (r, advance_server_sequence_high_water seq (d\<lparr>messages := sql_update P f (messages d)\<rparr>))"
      "rr_status r = COMMITTED" "P m" "\<And>x. envelope_id (f x) = envelope_id x \<and> server_seq (f x) = Some seq"
proof (cases by_seq)
  case (Some x)
  then have x: "x \<in> set (messages d)" "server_seq x = Some seq"
    using by_seq sql_fetchone_Some [of "\<lambda>m. server_seq m = Some seq" "messages d" x] by simp_all
  have "envelope_id x \<noteq> eid"
  proof
    assume "envelope_id x = eid"
    with m(2) have "x = m" using distinct_map_unique [OF keysD [OF inv] x(1) m(1)] by simp
    with x(2) m(3) show False by simp
  qed
  with Some show thesis
    by (intro conflict, simp add: backfill_missing_sequence_def, simp_all)
next
  case None
  then have fresh: "\<And>m. m \<in> set (messages d) \<Longrightarrow> server_seq m \<noteq> Some seq"
    using by_seq by (simp add: sql_fetchone_None)
  let ?P1 = "\<lambda>x. envelope_id x = eid \<and> server_seq x = None \<and> receipt_disposition x = Some LOCAL_RUNTIME"
  let ?P2 = "\<lambda>x. envelope_id x = eid \<and> server_seq x = None \<and> receipt_disposition x = None \<and> processing_state x = None"
  let ?P3 = "\<lambda>x. envelope_id x = eid \<and> server_seq x = None"
  let ?f1 = "\<lambda>m. m\<lparr>server_seq := Some seq, receipt_disposition := Some ELIGIBLE,
      receipt_reason := Some rsn, local_ordinal := None, after_server_seq := None\<rparr>"
  let ?f2 = "\<lambda>m. m\<lparr>server_seq := Some seq, receipt_disposition := Some FOREIGN_DM_GATED, receipt_reason := Some rsn\<rparr>"
  let ?f3 = "\<lambda>m. m\<lparr>server_seq := Some seq\<rparr>"
  have c1: "check_seq_index (sql_update ?P1 ?f1 (messages d)) = Inr (sql_update ?P1 ?f1 (messages d))"
    and c2: "check_seq_index (sql_update ?P2 ?f2 (messages d)) = Inr (sql_update ?P2 ?f2 (messages d))"
    and c3: "check_seq_index (sql_update ?P3 ?f3 (messages d)) = Inr (sql_update ?P3 ?f3 (messages d))"
    by (rule check_seq_fresh [OF inv fresh, where eid = eid]; simp)+
  consider "receipt_disposition m = Some LOCAL_RUNTIME \<and> processing_state m \<noteq> None \<and> disp = ELIGIBLE"
    | "\<not> (receipt_disposition m = Some LOCAL_RUNTIME \<and> processing_state m \<noteq> None \<and> disp = ELIGIBLE)"
      "receipt_disposition m = None \<and> processing_state m = None \<and> disp = FOREIGN_DM_GATED"
    | "\<not> (receipt_disposition m = Some LOCAL_RUNTIME \<and> processing_state m \<noteq> None \<and> disp = ELIGIBLE)"
      "\<not> (receipt_disposition m = None \<and> processing_state m = None \<and> disp = FOREIGN_DM_GATED)" by blast
  then show thesis
  proof cases
    case 1
    then have "?P1 m" using m by simp
    moreover have "sql_count ?P1 (messages d) = 1"
      using sql_count_key_hit [OF keysD [OF inv] m(1), of eid "\<lambda>x. server_seq x = None \<and> receipt_disposition x = Some LOCAL_RUNTIME"]
        1 m by simp
    ultimately show thesis
      using 1 None by (intro written [where P = ?P1 and f = ?f1])
        (simp add: backfill_missing_sequence_def Let_def c1, simp_all)
  next
    case 2
    then show thesis
      using None m by (intro written [where P = ?P2 and f = ?f2])
        (simp add: backfill_missing_sequence_def Let_def c2, simp_all)
  next
    case 3
    then show thesis
      using None m by (intro written [where P = ?P3 and f = ?f3])
        (simp only: backfill_missing_sequence_def Let_def c3 option.case if_False simp_thms sum.case, simp_all)
  qed
qed

text \<open>All outcomes of the sequenced lane.\<close>

lemma store_receipt_cases:
  assumes inv: "store_inv d" and "0 < seq" "eid = envelope_id (payload_values now p recv)" "eid \<noteq> []"
  obtains (conflict) r where "store_receipt now p seq disp rsn recv d = Inr (r, d)"
      "rr_status r = CONFLICT" "\<not> rr_acknowledge r"
  | (idempotent) r m where "store_receipt now p seq disp rsn recv d = Inr (r, d)" "rr_status r = IDEMPOTENT"
      "m \<in> set (messages d)" "envelope_id m = eid" "server_seq m = Some seq"
      "rr_disposition r = get_default (receipt_disposition m) disp" "rr_acknowledge r = receipt_ack (rr_disposition r)"
  | (committed) r d' m where "store_receipt now p seq disp rsn recv d = Inr (r, d')" "rr_status r = COMMITTED"
      "m \<in> set (messages d')" "envelope_id m = eid" "server_seq m = Some seq"
proof -
  let ?vals = "payload_values now p recv"
  define by_id where "by_id = sql_fetchone (\<lambda>m. envelope_id m = eid) (messages d)"
  define by_seq where "by_seq = sql_fetchone (\<lambda>m. server_seq m = Some seq) (messages d)"
  have sr: "store_receipt now p seq disp rsn recv d = (case by_id of
       Some m \<Rightarrow> persist_existing_receipt eid seq disp rsn m by_seq d
     | None \<Rightarrow> if by_seq \<noteq> None
         then Inr (receipt_result CONFLICT disp ''server sequence belongs to another envelope'' False, d)
         else insert_new_receipt now ?vals seq disp rsn d)"
    using assms(2,4) unfolding store_receipt_def Let_def assms(3) [symmetric] by_id_def [symmetric] by_seq_def [symmetric]
    by simp
  show thesis
  proof (cases by_id)
    case None
    show thesis
    proof (cases by_seq)
      case (Some x)
      with None sr show thesis by (intro conflict, simp, simp_all)
    next
      case seq: None
      define row where "row = ?vals\<lparr>server_seq := Some seq, receipt_disposition := Some disp,
          receipt_reason := Some rsn, processing_state := (if disp = ELIGIBLE then Some PENDING else None)\<rparr>"
      have fresh: "envelope_id row \<notin> envelope_id ` set (messages d)"
        using None assms(3) by (auto simp: by_id_def sql_fetchone_None row_def)
      have "distinct (seqs (messages d @ [row]))"
        using seq seqsD [OF inv]
        by (auto simp: by_seq_def sql_fetchone_None row_def List.map_filter_simps set_map_filter_col)
      with fresh have ins: "insert_message row (messages d) = Inr (messages d @ [row])"
        by (simp add: insert_message_Inr)
      obtain g where g: "settle_unverified_thread_claims ?vals (messages d @ [row]) = map g (messages d @ [row])"
        and tg: "thread_only g" using settle_map by blast
      obtain d' where d': "insert_new_receipt now ?vals seq disp rsn d =
            Inr (receipt_result COMMITTED disp rsn (receipt_ack disp), d')"
        and md: "messages d' = map g (messages d @ [row])"
        by (simp add: insert_new_receipt_def Let_def row_def [symmetric] ins g)
      have "envelope_id (g row) = envelope_id row" "server_seq (g row) = server_seq row"
        by (rule thread_only_field [OF tg], simp)+
      then have "g row \<in> set (messages d')" "envelope_id (g row) = eid" "server_seq (g row) = Some seq"
        using md assms(3) by (simp_all add: row_def)
      with None seq sr d' show thesis
        by (intro committed [of _ d' "g row"], simp, simp_all)
    qed
  next
    case (Some m)
    have m: "m \<in> set (messages d)" "envelope_id m = eid"
      using Some sql_fetchone_Some [of "\<lambda>m. envelope_id m = eid" "messages d" m] by (simp_all add: by_id_def)
    show thesis
    proof (cases "server_seq m")
      case None
      with Some sr have bf: "store_receipt now p seq disp rsn recv d = backfill_missing_sequence eid seq disp rsn m by_seq d"
        by (simp add: persist_existing_receipt_def)
      show thesis
        using inv m None by_seq_def
      proof (cases rule: backfill_cases [where disp = disp and rsn = rsn])
        case (conflict r)
        with bf that(1) show thesis by simp
      next
        case (written r P f)
        have "f m \<in> set (sql_update P f (messages d))" using m(1) written(3) by (rule sql_update_in)
        with bf written m(2) show thesis by (intro committed [of r _ "f m"], simp, simp_all)
      qed
    next
      case (Some s)
      with \<open>by_id = Some m\<close> sr have p: "store_receipt now p seq disp rsn recv d =
          (if s \<noteq> seq then Inr (receipt_result CONFLICT disp ''envelope id belongs to another server sequence'' False, d)
           else Inr (receipt_result IDEMPOTENT (get_default (receipt_disposition m) disp)
             (reason_or (receipt_reason m) rsn) (receipt_ack (get_default (receipt_disposition m) disp)), d))"
        by (simp add: persist_existing_receipt_def Let_def)
      show thesis
      proof (cases "s = seq")
        case True
        with p m Some show thesis by (intro idempotent [of _ m], simp, simp_all)
      next
        case False
        with p show thesis by (intro conflict, simp, simp_all)
      qed
    qed
  qed
qed

subsection \<open>A concrete store\<close>

text \<open>Payloads and a database the witnesses use.\<close>

definition sample_payload :: "string \<Rightarrow> payload" where
  "sample_payload i =
     \<lparr>p_envelope_id = Some i, p_envelope_kind = Some ''dm'', p_sender_slug = Some ''alice'',
      p_channel_id = None, p_space_id = None, p_recipient_slug = Some ''bot'',
      p_content_type = None, p_content = Some (JStr ''hi''), p_sent_at = Some 5,
      p_thread_root_id = None, p_reply_to_id = None, p_thread_root_unverified = None,
      p_is_encrypted = None\<rparr>"

definition sample_row :: "string \<Rightarrow> message_row" where
  "sample_row i = payload_values 10 (sample_payload i) (Some 7)"

lemma sample_row_simps [simp]:
  "envelope_id (sample_row i) = i" "envelope_kind (sample_row i) = ''dm''" "server_seq (sample_row i) = None"
  "receipt_disposition (sample_row i) = None" "processing_state (sample_row i) = None"
  "processing_turn_id (sample_row i) = None" "local_ordinal (sample_row i) = None"
  "received_at (sample_row i) = 7" "sender_slug (sample_row i) = ''alice''"
  "after_server_seq (sample_row i) = None" "thread_root_id (sample_row i) = None" "renotified (sample_row i) = False"
  by (simp_all add: sample_row_def payload_values_def sample_payload_def get_default_def)

lemma sample_payload_id [simp]: "envelope_id (payload_values now (sample_payload i) recv) = i"
  by (simp add: payload_values_def sample_payload_def get_default_def)

text \<open>A store with one gated direct message at sequence 4.\<close>

definition gated_row :: message_row where
  "gated_row = (sample_row ''e1'')\<lparr>server_seq := Some 4, receipt_disposition := Some FOREIGN_DM_GATED,
                                   receipt_reason := Some ''gate''\<rparr>"

definition gated_db :: db where
  "gated_db = empty_db\<lparr>messages := [gated_row], high_water := 4\<rparr>"

lemma store_inv_gated_db: "store_inv gated_db"
  by (simp add: store_inv_def inv_messages_def inv_turns_def inv_notice_def empty_db_def gated_db_def
      gated_row_def initial_notice_def contributions_ok_def generations_ok_def sql_count_def
      map_filter_simps row_wf_def is_pending_def)

subsection \<open>Acknowledgement and redelivery\<close>

text \<open>
  C3. A sequenced receipt never raises on a store that satisfies the invariant. Its acknowledgement,
  which lets the server forget the envelope, is only given once a row with that envelope id and that
  sequence is in the committed database, and a conflict writes nothing and is never acknowledged.
\<close>

theorem store_receipt_durable:
  assumes "store_inv d" "0 < seq" "envelope_id (payload_values now p recv) \<noteq> []"
  shows "\<exists>r d'. store_receipt now p seq disp rsn recv d = Inr (r, d') \<and> store_inv d' \<and>
     (rr_acknowledge r \<longrightarrow> (\<exists>m\<in>set (messages d'). envelope_id m = envelope_id (payload_values now p recv)
         \<and> server_seq m = Some seq)) \<and>
     (rr_status r = CONFLICT \<longrightarrow> d' = d \<and> \<not> rr_acknowledge r)"
  using assms(1,2) refl assms(3)
proof (cases rule: store_receipt_cases [where disp = disp and rsn = rsn])
  case (committed r d' m)
  with store_inv_store_receipt [OF assms(1) committed(1)] show ?thesis by auto
qed (use assms(1) in auto)

theorem store_receipt_durable_witness:
  "\<exists>r d'. store_receipt 10 (sample_payload ''e2'') 5 ELIGIBLE ''ok'' (Some 7) gated_db = Inr (r, d') \<and> store_inv d' \<and>
     (rr_acknowledge r \<longrightarrow> (\<exists>m\<in>set (messages d').
         envelope_id m = envelope_id (payload_values 10 (sample_payload ''e2'') (Some 7)) \<and> server_seq m = Some 5)) \<and>
     (rr_status r = CONFLICT \<longrightarrow> d' = gated_db \<and> \<not> rr_acknowledge r)"
  by (rule store_receipt_durable [OF store_inv_gated_db]) simp_all

text \<open>
  Redelivery is idempotent: once a receipt for an envelope and sequence has been accepted, any
  later delivery of that envelope at that sequence, whatever its new verdict, reports an idempotent
  write and leaves the database exactly as it was.
\<close>

theorem redelivery_idempotent:
  assumes "store_inv d" "store_receipt now p seq disp rsn recv d = Inr (r, d')" "rr_status r \<noteq> CONFLICT"
  shows "\<exists>r2. store_receipt now2 p seq disp2 rsn2 recv2 d' = Inr (r2, d') \<and> rr_status r2 = IDEMPOTENT"
proof -
  let ?e = "envelope_id (payload_values now p recv)"
  have pos: "0 < seq" and ne: "?e \<noteq> []"
    using assms(2) by (auto simp: store_receipt_def Let_def split: if_splits)
  have same: "envelope_id (payload_values now2 p recv2) = ?e" by (simp add: payload_values_def)
  obtain m where m: "m \<in> set (messages d')" "envelope_id m = ?e" "server_seq m = Some seq"
    using assms(1) pos refl ne
  proof (cases rule: store_receipt_cases [where disp = disp and rsn = rsn])
    case (conflict r')
    with assms(2,3) show thesis by simp
  next
    case (idempotent r' m)
    with assms(2) that show thesis by simp
  next
    case (committed r' d'' m)
    with assms(2) that show thesis by simp
  qed
  have inv': "store_inv d'" using assms(1,2) by (rule store_inv_store_receipt)
  have "sql_fetchone (\<lambda>x. envelope_id x = ?e) (messages d') = Some m"
    using sql_fetchone_key [OF keysD [OF inv'] m(1)] m(2) by simp
  with m(3) pos ne show ?thesis
    by (simp add: store_receipt_def Let_def same persist_existing_receipt_def)
qed

theorem redelivery_idempotent_witness:
  "\<exists>r2. store_receipt 20 (sample_payload ''e1'') 4 TERMINAL ''stale'' None gated_db = Inr (r2, gated_db)
        \<and> rr_status r2 = IDEMPOTENT"
proof (rule redelivery_idempotent [OF store_inv_gated_db, of 10 _ _ ELIGIBLE "''ok''" "Some 7"])
  show "store_receipt 10 (sample_payload ''e1'') 4 ELIGIBLE ''ok'' (Some 7) gated_db =
      Inr (receipt_result IDEMPOTENT FOREIGN_DM_GATED ''gate'' False, gated_db)"
    by (simp add: store_receipt_def Let_def gated_db_def gated_row_def sql_fetchone_def empty_db_def
        persist_existing_receipt_def get_default_def reason_or_def truthy_def or_empty_def receipt_ack_def)
qed simp

subsection \<open>Thread-claim settlement\<close>

text \<open>The specification: what happens to a row that claimed the arriving row \<open>v\<close> as its root.\<close>

definition claim_verdict :: "message_row \<Rightarrow> message_row \<Rightarrow> message_row" where
  "claim_verdict v m =
     (let own_root = truthy (thread_root_id v);
          together = (if envelope_kind v = ''channel'' then same_channel v m \<and> (own_root \<or> same_space v m)
                      else envelope_kind v = ''dm'' \<and> same_dm v m)
      in if \<not> together then settle_wipe m
         else if \<not> own_root then settle_verify m
         else if claims v (settle_reroot v m) then settle_wipe m
         else settle_reroot v m)"

lemma settle_wipe_idem [simp]: "settle_wipe (settle_verify m) = settle_wipe m" "settle_wipe (settle_reroot v m) = settle_wipe m"
  by (simp_all add: settle_wipe_def settle_verify_def settle_reroot_def)

lemma not_claims_verify [simp]: "\<not> claims v (settle_verify m)"
  by (simp add: claims_def settle_verify_def)

text \<open>
  When a row arrives, the two updates of \<open>_settle_unverified_thread_claims\<close> act as one verdict
  per claiming row: a claim from the same conversation is verified, or moved to the root's own root;
  any other claim is dropped; a row that claims nothing is untouched, and no unverified claim on the
  arrived row is left.
\<close>

theorem settle_is_verdict:
  "settle_unverified_thread_claims v rows = map (\<lambda>m. if claims v m then claim_verdict v m else m) rows
   \<and> (\<forall>m\<in>set (settle_unverified_thread_claims v rows). \<not> claims v m)"
proof
  show "settle_unverified_thread_claims v rows = map (\<lambda>m. if claims v m then claim_verdict v m else m) rows"
    unfolding settle_unverified_thread_claims_def Let_def
    by (auto simp: sql_update_def claim_verdict_def Let_def)
  have "\<not> claims v (settle_wipe m)" for m by (simp add: claims_def settle_wipe_def)
  then show "\<forall>m\<in>set (settle_unverified_thread_claims v rows). \<not> claims v m"
    unfolding settle_unverified_thread_claims_def Let_def by (auto simp: set_sql_update)
qed

theorem settle_is_verdict_witness:
  "settle_unverified_thread_claims (sample_row ''r'')
      [(sample_row ''a'')\<lparr>thread_root_id := Some ''r'', thread_root_unverified := True\<rparr>]
   = map (\<lambda>m. if claims (sample_row ''r'') m then claim_verdict (sample_row ''r'') m else m)
       [(sample_row ''a'')\<lparr>thread_root_id := Some ''r'', thread_root_unverified := True\<rparr>]
   \<and> filter (claims (sample_row ''r'')) (settle_unverified_thread_claims (sample_row ''r'')
      [(sample_row ''a'')\<lparr>thread_root_id := Some ''r'', thread_root_unverified := True\<rparr>]) = []"
  unfolding filter_empty_conv by (rule settle_is_verdict)

subsection \<open>The approval gate\<close>

lemma promote_sequenced:
  assumes inv: "store_inv d" and m: "m \<in> set (messages d)" "receipt_disposition m = Some FOREIGN_DM_GATED"
    "server_seq m = Some s"
  shows "promote_gated_receipt now (envelope_id m) (Some s) rsn None d =
    Inr (receipt_result COMMITTED ELIGIBLE rsn True,
      refresh_notice_state now None (d\<lparr>messages := sql_update (\<lambda>x. x = m)
        (\<lambda>x. x\<lparr>receipt_disposition := Some ELIGIBLE, receipt_reason := Some rsn, processing_state := Some PENDING\<rparr>)
        (messages d)\<rparr>))"
proof -
  have f: "sql_fetchone (\<lambda>x. envelope_id x = envelope_id m) (messages d) = Some m"
    by (rule sql_fetchone_key [OF keysD [OF inv] m(1)])
  have q: "processing_state m = None" using row_wfD [OF inv m(1)] m(2) by (rule gated_quiet)
  have u: "sql_update (\<lambda>x. envelope_id x = envelope_id m \<and> server_seq x = Some s
         \<and> receipt_disposition x = Some FOREIGN_DM_GATED \<and> processing_state x = None)
      (\<lambda>x. x\<lparr>receipt_disposition := Some ELIGIBLE, receipt_reason := Some rsn, processing_state := Some PENDING,
             content_type := content_type m, content := content m\<rparr>) (messages d)
    = sql_update (\<lambda>x. x = m)
      (\<lambda>x. x\<lparr>receipt_disposition := Some ELIGIBLE, receipt_reason := Some rsn, processing_state := Some PENDING\<rparr>)
      (messages d)"
    by (rule sql_update_cong) (use m q distinct_map_unique [OF keysD [OF inv] _ m(1)] in auto)
  show ?thesis
    using m q by (simp add: promote_gated_receipt_def f Let_def get_default_def is_pending_def u)
qed

text \<open>
  Release of a held direct message: approving a gated row commits, makes exactly that row
  pending (its disposition becomes eligible), leaves every other row as it was, and a second approval
  is idempotent and changes nothing.
\<close>

theorem promote_releases_once:
  assumes "store_inv d" "m \<in> set (messages d)" "receipt_disposition m = Some FOREIGN_DM_GATED" "server_seq m = Some s"
  shows "\<exists>d'. promote_gated_receipt now (envelope_id m) (Some s) rsn None d =
      Inr (receipt_result COMMITTED ELIGIBLE rsn True, d') \<and>
      pending_ids d' = insert (envelope_id m) (pending_ids d) \<and>
      (\<forall>x\<in>set (messages d). x \<noteq> m \<longrightarrow> x \<in> set (messages d')) \<and>
      promote_gated_receipt now2 (envelope_id m) (Some s) rsn2 None d' =
        Inr (receipt_result IDEMPOTENT ELIGIBLE rsn2 True, d')"
proof -
  let ?f = "\<lambda>x. x\<lparr>receipt_disposition := Some ELIGIBLE, receipt_reason := Some rsn, processing_state := Some PENDING\<rparr>"
  define d' where "d' = refresh_notice_state now None (d\<lparr>messages := sql_update (\<lambda>x. x = m) ?f (messages d)\<rparr>)"
  have p: "promote_gated_receipt now (envelope_id m) (Some s) rsn None d =
      Inr (receipt_result COMMITTED ELIGIBLE rsn True, d')"
    unfolding d'_def using assms by (rule promote_sequenced)
  have md: "messages d' = sql_update (\<lambda>x. x = m) ?f (messages d)" by (simp add: d'_def)
  have fm: "?f m \<in> set (messages d')" unfolding md using assms(2) by (rule sql_update_in) simp
  have other: "x \<in> set (messages d')" if "x \<in> set (messages d)" "x \<noteq> m" for x
    unfolding md using that by (rule sql_update_other)
  have q: "processing_state m = None" using row_wfD [OF assms(1,2)] assms(3) by (rule gated_quiet)
  have "pending_ids d' = insert (envelope_id m) (pending_ids d)"
  proof (rule set_eqI)
    fix i
    have "(\<exists>x\<in>set (messages d'). is_pending x \<and> envelope_id x = i) \<longleftrightarrow>
        i = envelope_id m \<or> (\<exists>x\<in>set (messages d). is_pending x \<and> envelope_id x = i)"
      using assms(2) q unfolding md set_sql_update by (auto simp: is_pending_def split: if_splits)
    then show "i \<in> pending_ids d' \<longleftrightarrow> i \<in> insert (envelope_id m) (pending_ids d)"
      by (simp add: pending_ids_iff)
  qed
  moreover have "store_inv d'" using store_inv_promote [OF assms(1) p] .
  then have "sql_fetchone (\<lambda>x. envelope_id x = envelope_id (?f m)) (messages d') = Some (?f m)"
    by (intro sql_fetchone_key keysD fm)
  then have "promote_gated_receipt now2 (envelope_id m) (Some s) rsn2 None d' =
        Inr (receipt_result IDEMPOTENT ELIGIBLE rsn2 True, d')"
    using assms(4) by (simp add: promote_gated_receipt_def Let_def is_pending_def)
  ultimately show ?thesis using p other by blast
qed

theorem promote_releases_once_witness:
  "\<exists>d'. promote_gated_receipt 10 (envelope_id gated_row) (Some 4) ''approved'' None gated_db =
      Inr (receipt_result COMMITTED ELIGIBLE ''approved'' True, d') \<and>
      pending_ids d' = insert (envelope_id gated_row) (pending_ids gated_db) \<and>
      (\<forall>x\<in>set (messages gated_db). x \<noteq> gated_row \<longrightarrow> x \<in> set (messages d')) \<and>
      promote_gated_receipt 11 (envelope_id gated_row) (Some 4) ''again'' None d' =
        Inr (receipt_result IDEMPOTENT ELIGIBLE ''again'' True, d')"
  by (rule promote_releases_once [OF store_inv_gated_db]) (simp_all add: gated_db_def gated_row_def)

lemma denied_decodes:
  "decode_content (encode_content (JStr DENIED_DM_PLACEHOLDER)) ''text/plain'' (Some TERMINAL)
   = JStr DENIED_DM_PLACEHOLDER"
  by code_simp

lemma denied_content: "row_content (deny_row m) = JStr DENIED_DM_PLACEHOLDER"
  using denied_decodes by (simp add: row_content_def deny_row_def)

text \<open>
  A denial is final: after \<open>tombstone_gated_dm\<close> denied a held message, its stored content is the
  placeholder, and no later approval, with or without a replacement payload, makes it pending.
\<close>

theorem denied_never_released:
  assumes "store_inv d" "tombstone_gated_dm eid seq d = (r, d')" "rr_status r = COMMITTED"
  shows "(\<exists>m\<in>set (messages d'). envelope_id m = eid \<and> row_content m = JStr DENIED_DM_PLACEHOLDER) \<and>
    (\<forall>seq2 approved r2 d2. promote_gated_receipt now eid seq2 rsn approved d' = Inr (r2, d2) \<longrightarrow>
         rr_status r2 = CONFLICT \<and> d2 = d')"
proof -
  obtain x where x: "sql_fetchone (\<lambda>m. envelope_id m = eid) (messages d) = Some x" "server_seq x = seq"
      "receipt_disposition x = Some FOREIGN_DM_GATED" "processing_state x = None"
    and d': "d' = d\<lparr>messages := sql_update
                    (\<lambda>m. envelope_id m = eid \<and> receipt_disposition m = Some FOREIGN_DM_GATED
                         \<and> processing_state m = None \<and> server_seq m = seq) deny_row (messages d)\<rparr>"
    using assms(2,3) by (auto simp: tombstone_gated_dm_def split: option.splits if_splits)
  have xm: "x \<in> set (messages d)" "envelope_id x = eid"
    using sql_fetchone_Some [OF x(1)] by simp_all
  have dx: "deny_row x \<in> set (messages d')"
    unfolding d' using x xm by (simp add: sql_update_in)
  have e: "envelope_id (deny_row x) = eid" using xm by (simp add: deny_row_def)
  have c: "\<exists>m\<in>set (messages d'). envelope_id m = eid \<and> row_content m = JStr DENIED_DM_PLACEHOLDER"
    using dx e by (intro bexI [of _ "deny_row x"]) (simp_all add: denied_content)
  have "store_inv d'" using store_inv_tombstone [OF assms(1), of eid seq] assms(2) by simp
  then have "sql_fetchone (\<lambda>m. envelope_id m = eid) (messages d') = Some (deny_row x)"
    using sql_fetchone_key [OF keysD dx] e by simp
  moreover have "receipt_disposition (deny_row x) = Some TERMINAL" by (simp add: deny_row_def)
  ultimately have "rr_status r2 = CONFLICT \<and> d2 = d'"
    if "promote_gated_receipt now eid seq2 rsn approved d' = Inr (r2, d2)" for seq2 approved r2 d2
    using that
    by (auto simp: promote_gated_receipt_def promote_local_gated_row_def Let_def
        split: option.splits if_splits)
  with c show ?thesis by blast
qed

theorem denied_never_released_witness:
  "(\<exists>m\<in>set (messages (gated_db\<lparr>messages := [deny_row gated_row]\<rparr>)).
       envelope_id m = ''e1'' \<and> row_content m = JStr DENIED_DM_PLACEHOLDER) \<and>
   (\<nexists>seq2 approved r2 d2.
      promote_gated_receipt 10 ''e1'' seq2 ''approved'' approved (gated_db\<lparr>messages := [deny_row gated_row]\<rparr>)
        = Inr (r2, d2) \<and> rr_status r2 \<noteq> CONFLICT)"
proof -
  have "tombstone_gated_dm ''e1'' (Some 4) gated_db =
      (receipt_result COMMITTED TERMINAL DENIED_REASON True, gated_db\<lparr>messages := [deny_row gated_row]\<rparr>)"
    by (simp add: tombstone_gated_dm_def gated_db_def gated_row_def empty_db_def sql_fetchone_def sql_update_def)
  note d = denied_never_released [OF store_inv_gated_db this]
  show ?thesis
    by (rule conjI [OF conjunct1 [OF d]]) (simp, use d [THEN conjunct2] in fastforce)
qed

text \<open>
  Retention never deletes unfinished work: a row that \<open>cleanup\<close> removes is older than the cutoff,
  is neither pending nor in a turn, and is not held at the approval gate; every other row stays.
\<close>

theorem cleanup_keeps_work:
  "set (messages (snd (cleanup now days d))) =
     {m \<in> set (messages d). received_at m \<ge> now - days * 86400000
        \<or> processing_state m \<in> {Some PENDING, Some IN_TURN}
        \<or> receipt_disposition m = Some FOREIGN_DM_GATED}"
proof -
  have "processing_state m = None \<or> processing_state m = Some PROCESSED
      \<longleftrightarrow> processing_state m \<notin> {Some PENDING, Some IN_TURN}" for m :: message_row
  proof (cases "processing_state m")
    case (Some st)
    then show ?thesis by (cases st) simp_all
  qed simp
  then show ?thesis
    by (auto simp: cleanup_def Let_def not_gated_def)
qed

subsection \<open>A stranded local row\<close>

text \<open>
  C39. The third branch of \<open>_backfill_missing_sequence\<close> strands a pending local event: when its
  envelope is redelivered at a fresh sequence with a verdict other than eligible, the receipt commits,
  the row stays pending and is counted as such, but it no longer matches either selection of
  \<open>_get_pending_unlocked\<close>, so no reader of the Inbox ever returns it.
\<close>

theorem backfill_strands_local_row:
  assumes "store_inv d" "m \<in> set (messages d)" "is_pending m"
    and "receipt_disposition m = Some LOCAL_RUNTIME" "server_seq m = None"
    and "0 < seq" "\<forall>x\<in>set (messages d). server_seq x \<noteq> Some seq"
    and "envelope_id (payload_values now p recv) = envelope_id m" "envelope_id m \<noteq> []" "disp \<noteq> ELIGIBLE"
  shows "\<exists>r d'. store_receipt now p seq disp rsn recv d = Inr (r, d') \<and> rr_status r = COMMITTED \<and>
      envelope_id m \<in> pending_ids d' \<and> envelope_id m \<notin> envelope_id ` set (get_pending_all d')"
proof -
  let ?P = "\<lambda>x. envelope_id x = envelope_id m \<and> server_seq x = None"
  let ?f = "\<lambda>x. x\<lparr>server_seq := Some seq\<rparr>"
  define d' where "d' = advance_server_sequence_high_water seq (d\<lparr>messages := sql_update ?P ?f (messages d)\<rparr>)"
  let ?r = "receipt_result COMMITTED disp ''legacy sequence backfilled without Inbox activation'' (receipt_ack disp)"
  have by_id: "sql_fetchone (\<lambda>x. envelope_id x = envelope_id m) (messages d) = Some m"
    by (rule sql_fetchone_key [OF keysD [OF assms(1)] assms(2)])
  have by_seq: "sql_fetchone (\<lambda>x. server_seq x = Some seq) (messages d) = None"
    using assms(7) by (simp add: sql_fetchone_None)
  have chk: "check_seq_index (sql_update ?P ?f (messages d)) = Inr (sql_update ?P ?f (messages d))"
    by (rule check_seq_fresh [OF assms(1), where eid = "envelope_id m"]) (use assms(7) in auto)
  have res: "store_receipt now p seq disp rsn recv d = Inr (?r, d')"
    using assms(3-10)
    by (simp add: store_receipt_def Let_def by_id by_seq persist_existing_receipt_def
        backfill_missing_sequence_def chk d'_def is_pending_def)
  have fm: "?f m \<in> set (messages d')"
    using sql_update_in [OF assms(2), of ?P ?f] assms(5) by (simp add: d'_def)
  have inv': "store_inv d'" using assms(1) res by (rule store_inv_store_receipt)
  have "envelope_id m \<in> pending_ids d'"
    unfolding pending_ids_iff using fm assms(3) by (intro bexI [of _ "?f m"]) (simp_all add: is_pending_def)
  moreover have "\<not> pending_visible x" if "x \<in> set (messages d')" "envelope_id x = envelope_id m" for x
  proof -
    have "x = ?f m" using distinct_map_unique [OF keysD [OF inv'] that(1) fm] that(2) by simp
    with assms(4) show ?thesis by (simp add: pending_visible_def)
  qed
  then have "envelope_id m \<notin> envelope_id ` set (get_pending_all d')" by (auto simp: get_pending_all_def)
  ultimately show ?thesis using res by auto
qed

definition local_row :: message_row where
  "local_row = (sample_row ''e1'')\<lparr>receipt_disposition := Some LOCAL_RUNTIME, receipt_reason := Some ''local'',
      processing_state := Some PENDING, local_ordinal := Some 1\<rparr>"

definition local_db :: db where
  "local_db = empty_db\<lparr>messages := [local_row], next_ordinal := 2,
     notice := initial_notice\<lparr>generation := 1, pending_count := 1, first_pending_deadline_ms := Some 3007\<rparr>\<rparr>"

lemma store_inv_local_db: "store_inv local_db"
  by (simp add: store_inv_def inv_messages_def inv_turns_def inv_notice_def empty_db_def local_db_def
      local_row_def initial_notice_def contributions_ok_def generations_ok_def sql_count_def told_all_def
      map_filter_simps row_wf_def is_pending_def pending_ids_def)

theorem backfill_strands_local_row_witness:
  "\<exists>r d'. store_receipt 10 (sample_payload ''e1'') 9 TERMINAL ''blocked'' None local_db = Inr (r, d')
      \<and> rr_status r = COMMITTED \<and>
      envelope_id local_row \<in> pending_ids d' \<and> envelope_id local_row \<notin> envelope_id ` set (get_pending_all d')"
  by (rule backfill_strands_local_row [OF store_inv_local_db])
     (simp_all add: local_db_def local_row_def is_pending_def)

end
