(* ===== verification/Turn_Props.thy ===== *)
theory Turn_Props
  imports Turn_Facts Receipt_Props
begin

section \<open>What a turn guarantees\<close>

lemma turn_idsD: "store_inv d \<Longrightarrow> distinct (map tr_turn_id (turn_runs d))"
  by (simp add: store_inv_def inv_turns_def)

lemma get_turn_run_exists:
  "(\<exists>run. get_turn_run d t = Some run) \<longleftrightarrow> t \<in> tr_turn_id ` set (turn_runs d)"
proof -
  have "sql_fetchone (\<lambda>r. tr_turn_id r = t) (turn_runs d) = None \<longleftrightarrow> t \<notin> tr_turn_id ` set (turn_runs d)"
    by (auto simp: sql_fetchone_None)
  then show ?thesis by (auto simp: get_turn_run_def split: option.splits)
qed

lemma turn_result_total: "t \<in> tr_turn_id ` set (turn_runs d) \<Longrightarrow> \<exists>run. turn_result t d = Inr (run, d)"
  using get_turn_run_exists [of d t] by (auto simp: turn_result_def split: option.splits)

text \<open>A pending row is a member of no active turn.\<close>

lemma pending_not_member:
  assumes "store_inv d" "i \<in> pending_ids d" "turn_active d t"
  shows "i \<notin> set (turn_message_ids d t)"
proof
  assume "i \<in> set (turn_message_ids d t)"
  then obtain m where m: "m \<in> set (messages d)" "envelope_id m = i" "in_turn_of t m"
    using member_in_turn [of d i t] assms(1,3) by (auto simp: store_inv_def)
  from assms(2) obtain x where x: "x \<in> set (messages d)" "envelope_id x = i" "is_pending x"
    by (auto simp: pending_ids_iff)
  have "m = x" using distinct_map_unique [OF keysD [OF assms(1)] m(1) x(1)] m(2) x(2) by simp
  with m(3) x(3) show False by (simp add: in_turn_of_def is_pending_def)
qed

lemma count_active:
  assumes "store_inv d"
  shows "sql_count (\<lambda>r. tr_turn_id r = t \<and> tr_state r = processing_state_value IN_TURN) (turn_runs d) = 1
    \<longleftrightarrow> turn_active d t"
  using sql_count_one [OF turn_idsD [OF assms], of t "\<lambda>r. tr_state r = processing_state_value IN_TURN"]
  by (auto simp: turn_active_iff split: if_splits)

lemma count_among:
  assumes "store_inv d" "distinct ids" "\<And>i. i \<in> set ids \<Longrightarrow> \<exists>m\<in>set (messages d). envelope_id m = i \<and> P m"
  shows "sql_count (\<lambda>m. envelope_id m \<in> set ids \<and> P m) (messages d) = length ids"
  by (rule sql_count_keys_all [OF keysD [OF assms(1)] assms(2,3)])

subsection \<open>Admission\<close>

definition turn_accepts :: "string \<Rightarrow> string option \<Rightarrow> db \<Rightarrow> bool" where
  "turn_accepts t session d \<longleftrightarrow>
     (\<forall>r\<in>set (turn_runs d). tr_turn_id r = t \<longrightarrow>
        tr_provider_session_id r = session \<and> tr_state r = processing_state_value IN_TURN)"

lemma admit_turn_ok:
  assumes inv: "store_inv d" and acc: "turn_accepts t session d" and sub: "set ids \<subseteq> pending_ids d" and "distinct ids"
  obtains n d1 where "admit_turn ids t session v d = Inr (n, d1)"
    "insert_turn_members t n ids (turn_run_messages d1) = Inr (turn_run_messages d1 @ new_members t n ids)"
proof (cases "sql_fetchone (\<lambda>r. tr_turn_id r = t) (turn_runs d)")
  case (Some run)
  have run: "run \<in> set (turn_runs d)" "tr_turn_id run = t" using sql_fetchone_Some [OF Some] by simp_all
  with acc have st: "tr_provider_session_id run = session" "tr_state run = processing_state_value IN_TURN"
    by (auto simp: turn_accepts_def)
  with run have act: "turn_active d t" by (auto simp: turn_active_iff)
  have free: "trm_envelope_id r \<notin> set ids" if "r \<in> set (turn_run_messages d)" "trm_turn_id r = t" for r
    using that pending_not_member [OF inv _ act, of "trm_envelope_id r"] sub by (auto simp: set_turn_message_ids)
  then have "admit_turn ids t session v d = Inr (next_member_ordinal t d, d)"
    using Some st by (auto simp: admit_turn_def)
  moreover have "insert_turn_members t (next_member_ordinal t d) ids (turn_run_messages d)
      = Inr (turn_run_messages d @ new_members t (next_member_ordinal t d) ids)"
    by (rule insert_turn_members_ok [OF assms(4)]) (use free next_member_ordinal_bound in blast)
  ultimately show thesis by (rule that)
next
  case None
  then have new: "t \<notin> tr_turn_id ` set (turn_runs d)" by (auto simp: sql_fetchone_None)
  have "insert_turn_members t 0 ids (turn_run_messages d) = Inr (turn_run_messages d @ new_members t 0 ids)"
    by (rule insert_turn_members_ok [OF assms(4)])
       (use inv new in \<open>auto simp: store_inv_def inv_turns_def\<close>)
  with new None show thesis
    by (intro that [of 0 "d\<lparr>turn_runs := turn_runs d @ [\<lparr>tr_turn_id = t, tr_provider_session_id = session,
          tr_state = processing_state_value IN_TURN, tr_started_at = v, tr_completed_at = None\<rparr>]\<rparr>"])
       (simp_all add: admit_turn_def insert_turn_run_def)
qed

lemma admit_iff_aux:
  assumes "store_inv d"
  shows "(\<exists>run d'. admit_messages now ids t session visible d = Inr (run, d')) \<longleftrightarrow>
     ids \<noteq> [] \<and> [] \<notin> set ids \<and> distinct ids \<and> t \<noteq> [] \<and> set ids \<subseteq> pending_ids d \<and> turn_accepts t session d"
    (is "?L \<longleftrightarrow> ?R")
proof
  assume ?L
  then obtain run d' where "admit_messages now ids t session visible d = Inr (run, d')" by blast
  then show ?R
  proof (rule admit_cases)
    fix n d1
    assume a: "admit_turn ids t session (get_default visible now) d = Inr (n, d1)"
      and rest: "ids \<noteq> []" "[] \<notin> set ids" "distinct ids" "t \<noteq> []" "set ids \<subseteq> pending_ids d"
    have "turn_accepts t session d"
    proof (cases "sql_fetchone (\<lambda>r. tr_turn_id r = t) (turn_runs d)")
      case None
      then show ?thesis by (auto simp: sql_fetchone_None turn_accepts_def)
    next
      case (Some run)
      have rr: "run \<in> set (turn_runs d)" "tr_turn_id run = t" using sql_fetchone_Some [OF Some] by simp_all
      have "run = r" if "r \<in> set (turn_runs d)" "tr_turn_id r = t" for r
        using distinct_map_unique [OF turn_idsD [OF assms] rr(1) that(1)] rr(2) that(2) by simp
      moreover have "tr_provider_session_id run = session \<and> tr_state run = processing_state_value IN_TURN"
        using a Some by (simp add: admit_turn_def split: if_splits)
      ultimately show ?thesis unfolding turn_accepts_def by metis
    qed
    with rest show ?R by blast
  qed
next
  assume R: ?R
  then have r: "ids \<noteq> []" "[] \<notin> set ids" "distinct ids" "t \<noteq> []" "set ids \<subseteq> pending_ids d" "turn_accepts t session d"
    by blast+
  let ?v = "get_default visible now"
  obtain n d1 where a: "admit_turn ids t session ?v d = Inr (n, d1)"
    and ins: "insert_turn_members t n ids (turn_run_messages d1) = Inr (turn_run_messages d1 @ new_members t n ids)"
    using admit_turn_ok [OF assms r(6,5,3)] by blast
  note f = admit_turn_Inr [OF assms a]
  have p: "\<exists>m\<in>set (messages d). envelope_id m = i \<and> is_pending m" if "i \<in> set ids" for i
    using that r(5) by (auto simp: pending_ids_iff subset_iff)
  have "envelope_id ` set (filter (\<lambda>m. envelope_id m \<in> set ids) (messages d)) = set ids"
    using p by fastforce
  then have c: "card (envelope_id ` set (filter (\<lambda>m. envelope_id m \<in> set ids) (messages d))) = length ids"
    using r(3) by (simp add: distinct_card)
  have l: "list_all (\<lambda>i. list_ex (\<lambda>m. envelope_id m = i \<and> is_pending m)
      (filter (\<lambda>m. envelope_id m \<in> set ids) (messages d))) ids"
    using p by (fastforce simp: list_all_iff list_ex_iff)
  have cnt: "sql_count (pending_in ids) (messages d1) = length ids"
    using count_among [OF assms r(3), of is_pending] p f(3) by (simp add: pending_in_def [abs_def])
  let ?d = "refresh_notice_state now None (d1\<lparr>turn_run_messages := turn_run_messages d1 @ new_members t n ids,
      messages := sql_update (pending_in ids) (admit_row t ?v) (messages d1)\<rparr>)"
  have "t \<in> tr_turn_id ` set (turn_runs ?d)" using f(2) by (auto simp: turn_active_iff)
  from turn_result_total [OF this] obtain run where "turn_result t ?d = Inr (run, ?d)" by blast
  then show ?L
    using r(1-4) c l a ins cnt by (simp add: admit_messages_def exact_ids_Inr [THEN iffD2] Let_def)
qed

text \<open>
  C4. Admission is all or nothing and its guard is exact: on a well-formed store, admitting a set of
  ids to a turn succeeds if and only if the ids are non-empty, distinct, all currently pending, and
  the turn is new or active under the same provider session. In particular none of the integrity
  errors, the duplicate-member check or the changed-row check can fire otherwise.
\<close>

theorem admit_iff:
  assumes "store_inv d"
  shows "(\<exists>run d'. admit_messages now ids t session visible d = Inr (run, d')) \<longleftrightarrow>
     ids \<noteq> [] \<and> [] \<notin> set ids \<and> distinct ids \<and> t \<noteq> [] \<and> set ids \<subseteq> pending_ids d \<and> turn_accepts t session d"
  using assms by (rule admit_iff_aux)

text \<open>A store with two eligible rows, both pending.\<close>

definition eligible_row :: "string \<Rightarrow> int \<Rightarrow> message_row" where
  "eligible_row i s = (sample_row i)\<lparr>server_seq := Some s, receipt_disposition := Some ELIGIBLE,
      receipt_reason := Some ''ok'', processing_state := Some PENDING\<rparr>"

definition two_db :: db where
  "two_db = empty_db\<lparr>messages := [eligible_row ''e1'' 1, eligible_row ''e2'' 2], high_water := 2,
     notice := initial_notice\<lparr>generation := 2, pending_count := 2, first_pending_deadline_ms := Some 3007\<rparr>\<rparr>"

lemma store_inv_two_db: "store_inv two_db"
  by (simp add: store_inv_def inv_messages_def inv_turns_def inv_notice_def empty_db_def two_db_def
      eligible_row_def initial_notice_def contributions_ok_def generations_ok_def sql_count_def told_all_def
      map_filter_simps row_wf_def is_pending_def pending_ids_def)

theorem admit_iff_witness:
  "(\<exists>run d'. admit_messages 10 [''e2'', ''e1''] ''t1'' (Some ''s'') None two_db = Inr (run, d')) \<longleftrightarrow>
     [''e2'', ''e1''] \<noteq> [] \<and> [] \<notin> set [''e2'', ''e1''] \<and> distinct [''e2'', ''e1''] \<and> ''t1'' \<noteq> []
     \<and> set [''e2'', ''e1''] \<subseteq> pending_ids two_db \<and> turn_accepts ''t1'' (Some ''s'') two_db"
  by (rule admit_iff [OF store_inv_two_db])

lemma sorted_new_members: "sorted (map trm_ordinal (new_members t n ids))"
  by (induction ids arbitrary: n) (auto dest: new_members_member)

lemma turn_message_ids_admitted:
  assumes "\<And>r. r \<in> set (turn_run_messages d) \<Longrightarrow> trm_turn_id r = t \<Longrightarrow> trm_ordinal r < n"
  shows "turn_message_ids (admitted_db ids t v n d) t = turn_message_ids d t @ ids"
proof -
  let ?xs = "filter (\<lambda>r. trm_turn_id r = t) (turn_run_messages d)"
  have "filter (\<lambda>r. trm_turn_id r = t) (new_members t n ids) = new_members t n ids"
    using new_members_member [of _ t n ids] by (simp add: filter_id_conv)
  moreover have "sort_key trm_ordinal (?xs @ new_members t n ids) = sort_key trm_ordinal ?xs @ new_members t n ids"
    by (rule sort_key_append_le)
       (use assms new_members_member [of _ t n ids] sorted_new_members in \<open>fastforce+\<close>)
  ultimately show ?thesis by (simp add: turn_message_ids_def admitted_db_def)
qed

text \<open>
  Effect of an admission: exactly the requested ids leave the pending set and are now in this turn
  with the time they became visible to the model; the turn's member list grows by them in the order
  given; every other row is untouched.
\<close>

theorem admit_effect:
  assumes "store_inv d" "admit_messages now ids t session visible d = Inr (run, d')"
  shows "pending_ids d' = pending_ids d - set ids \<and>
    run_message_ids run = turn_message_ids d t @ ids \<and> run_state run = processing_state_value IN_TURN \<and>
    (\<forall>m\<in>set (messages d). if envelope_id m \<in> set ids
        then admit_row t (get_default visible now) m \<in> set (messages d') else m \<in> set (messages d'))"
  using assms(2)
proof (rule admit_cases)
  fix n d1
  let ?v = "get_default visible now"
  assume sub: "set ids \<subseteq> pending_ids d" and a: "admit_turn ids t session ?v d = Inr (n, d1)"
    and ids: "distinct ids"
    and d': "d' = refresh_notice_state now None (admitted_db ids t ?v n d1)"
    and run: "get_turn_run d' t = Some run"
  note f = admit_turn_Inr [OF assms(1) a]
  have md: "messages d' = sql_update (pending_in ids) (admit_row t ?v) (messages d)"
    by (simp add: d' admitted_db_def f(3))
  have pend: "is_pending m" if m: "m \<in> set (messages d)" "envelope_id m \<in> set ids" for m
  proof -
    obtain x where x: "x \<in> set (messages d)" "envelope_id x = envelope_id m" "is_pending x"
      using sub m(2) by (auto simp: pending_ids_iff subset_iff)
    with distinct_map_unique [OF keysD [OF assms(1)] x(1) m(1)] show ?thesis by simp
  qed
  have rows: "\<forall>m\<in>set (messages d). if envelope_id m \<in> set ids
        then admit_row t ?v m \<in> set (messages d') else m \<in> set (messages d')"
    unfolding md using pend by (auto simp: pending_in_def intro: sql_update_in sql_update_other)
  have p: "pending_ids d' = pending_ids d - set ids"
  proof (rule set_eqI)
    fix i
    have "(\<exists>x\<in>set (messages d'). is_pending x \<and> envelope_id x = i) \<longleftrightarrow>
        (\<exists>x\<in>set (messages d). is_pending x \<and> envelope_id x = i \<and> i \<notin> set ids)"
      unfolding md set_sql_update by (auto simp: pending_in_def admit_row_def is_pending_def split: if_splits)
    then show "i \<in> pending_ids d' \<longleftrightarrow> i \<in> pending_ids d - set ids" by (auto simp: pending_ids_iff)
  qed
  have below: "trm_ordinal r < n" if r: "r \<in> set (turn_run_messages d1)" "trm_turn_id r = t" for r
  proof (cases "sql_fetchone (\<lambda>r. tr_turn_id r = t) (turn_runs d)")
    case None
    then have "t \<notin> tr_turn_id ` set (turn_runs d)" by (auto simp: sql_fetchone_None)
    with r f(4) assms(1) show ?thesis by (auto simp: store_inv_def inv_turns_def)
  next
    case (Some x)
    with a have "n = next_member_ordinal t d" "d1 = d" by (auto simp: admit_turn_def split: if_splits)
    with r next_member_ordinal_bound show ?thesis by simp
  qed
  have tm: "turn_message_ids d1 t = turn_message_ids d t" using f(4) by (simp add: turn_message_ids_def)
  have "run_message_ids run = turn_message_ids d t @ ids"
    using run turn_message_ids_admitted [where d = d1 and n = n and ids = ids and v = ?v, OF below] tm
    by (auto simp: get_turn_run_def d' split: option.splits)
  moreover have "run_state run = processing_state_value IN_TURN"
  proof -
    obtain r where r: "r \<in> set (turn_runs d1)" "tr_turn_id r = t" "tr_state r = processing_state_value IN_TURN"
      using f(2) by (auto simp: turn_active_iff)
    then have "sql_fetchone (\<lambda>x. tr_turn_id x = t) (turn_runs d1) = Some r"
      using sql_fetchone_key [OF turn_idsD [OF f(1)] r(1)] by simp
    with run r(3) show ?thesis by (auto simp: get_turn_run_def d' admitted_db_def)
  qed
  ultimately show ?thesis using p rows by blast
qed

theorem admit_effect_witness:
  "\<exists>run d'. admit_messages 10 [''e2'', ''e1''] ''t1'' (Some ''s'') None two_db = Inr (run, d') \<and>
    (pending_ids d' = pending_ids two_db - set [''e2'', ''e1''] \<and>
    run_message_ids run = turn_message_ids two_db ''t1'' @ [''e2'', ''e1''] \<and>
    run_state run = processing_state_value IN_TURN \<and>
    (\<forall>m\<in>set (messages two_db). if envelope_id m \<in> set [''e2'', ''e1'']
        then admit_row ''t1'' (get_default None 10) m \<in> set (messages d') else m \<in> set (messages d')))"
proof -
  have "set [''e2'', ''e1''] \<subseteq> pending_ids two_db" "turn_accepts ''t1'' (Some ''s'') two_db"
    by (simp_all add: pending_ids_def two_db_def eligible_row_def is_pending_def turn_accepts_def empty_db_def)
  then obtain run d' where
    "admit_messages 10 [''e2'', ''e1''] ''t1'' (Some ''s'') None two_db = Inr (run, d')"
    using admit_iff_aux [OF store_inv_two_db, of 10 "[''e2'', ''e1'']" "''t1''" "Some ''s''" None] by auto
  then show ?thesis using admit_effect [OF store_inv_two_db] by blast
qed

text \<open>The same store after both rows were admitted to turn \<open>t1\<close> of session \<open>s\<close>.\<close>

definition turn_db :: db where
  "turn_db = two_db\<lparr>messages := [admit_row ''t1'' 10 (eligible_row ''e1'' 1),
                                 (admit_row ''t1'' 10 (eligible_row ''e2'' 2))\<lparr>renotified := True\<rparr>],
     notice := initial_notice\<lparr>generation := 3\<rparr>,
     turn_runs := [\<lparr>tr_turn_id = ''t1'', tr_provider_session_id = Some ''s'',
                    tr_state = processing_state_value IN_TURN, tr_started_at = 10, tr_completed_at = None\<rparr>],
     turn_run_messages := new_members ''t1'' 0 [''e2'', ''e1'']\<rparr>"

lemma store_inv_turn_db: "store_inv turn_db"
  by (simp add: store_inv_def inv_messages_def inv_turns_def inv_notice_def empty_db_def two_db_def turn_db_def
      eligible_row_def admit_row_def initial_notice_def contributions_ok_def generations_ok_def sql_count_def
      told_all_def map_filter_simps row_wf_def is_pending_def pending_ids_def turn_active_def
      in_turn_of_def turn_message_ids_def)

lemma turn_db_members [simp]: "turn_message_ids turn_db ''t1'' = [''e2'', ''e1'']"
  by (simp add: turn_message_ids_def turn_db_def)

lemma turn_db_active [simp]: "turn_active turn_db ''t1''"
  by (simp add: turn_active_def turn_db_def)

subsection \<open>Completion\<close>

definition turn_owned :: "string \<Rightarrow> string option \<Rightarrow> db \<Rightarrow> bool" where
  "turn_owned t session d \<longleftrightarrow>
     session = None \<or> (\<exists>r\<in>set (turn_runs d). tr_turn_id r = t \<and> tr_provider_session_id r = session)"

lemma turn_owner_check:
  assumes "store_inv d"
  shows "(session \<noteq> None \<and> (case sql_fetchone (\<lambda>r. tr_turn_id r = t) (turn_runs d) of None \<Rightarrow> True
     | Some r \<Rightarrow> tr_provider_session_id r \<noteq> session)) \<longleftrightarrow> \<not> turn_owned t session d"
proof (cases "sql_fetchone (\<lambda>r. tr_turn_id r = t) (turn_runs d)")
  case None
  then have "\<forall>r\<in>set (turn_runs d). tr_turn_id r \<noteq> t" by (simp add: sql_fetchone_None)
  then show ?thesis unfolding None option.case by (auto simp: turn_owned_def)
next
  case (Some x)
  have x: "x \<in> set (turn_runs d)" "tr_turn_id x = t" using sql_fetchone_Some [OF Some] by simp_all
  have "r = x" if "r \<in> set (turn_runs d)" "tr_turn_id r = t" for r
    using distinct_map_unique [OF turn_idsD [OF assms] that(1) x(1)] that(2) x(2) by simp
  then have "(\<exists>r\<in>set (turn_runs d). tr_turn_id r = t \<and> tr_provider_session_id r = session)
      \<longleftrightarrow> tr_provider_session_id x = session" using x by metis
  then show ?thesis unfolding Some option.case turn_owned_def by simp
qed

lemma distinct_turn_message_ids:
  assumes "store_inv d"
  shows "distinct (turn_message_ids d t)"
proof -
  let ?xs = "filter (\<lambda>r. trm_turn_id r = t) (turn_run_messages d)"
  have "distinct (map (\<lambda>r. (trm_turn_id r, trm_envelope_id r)) ?xs)"
    using assms by (intro distinct_map_filter_key) (simp add: store_inv_def inv_turns_def)
  moreover have "map (\<lambda>r. (trm_turn_id r, trm_envelope_id r)) ?xs = map (\<lambda>r. (t, trm_envelope_id r)) ?xs"
    by simp
  ultimately have "distinct (map (\<lambda>r. (t, trm_envelope_id r)) ?xs)" by simp
  then have "inj_on (\<lambda>r. (t, trm_envelope_id r)) (set ?xs)" and d: "distinct ?xs"
    by (simp_all only: distinct_map)
  then have "inj_on trm_envelope_id (set (sort_key trm_ordinal ?xs))" by (auto simp: inj_on_def)
  moreover have "distinct (sort_key trm_ordinal ?xs)" using d by simp
  ultimately show ?thesis unfolding turn_message_ids_def distinct_map by blast
qed

lemma closed_runs_ids: "tr_turn_id ` set (closed_runs c st t rows) = tr_turn_id ` set rows"
proof -
  have "map tr_turn_id (closed_runs c st t rows) = map tr_turn_id rows"
    by (simp add: closed_runs_def sql_update_keys)
  then show ?thesis by (simp only: set_map [symmetric])
qed

lemma complete_iff_aux:
  assumes "store_inv d"
  shows "(\<exists>run d'. complete_turn now processed renotice t at session d = Inr (run, d')) \<longleftrightarrow>
     turn_active d t \<and> turn_owned t session d \<and> distinct (processed @ renotice)
     \<and> set (processed @ renotice) = set (turn_message_ids d t)"
    (is "?L \<longleftrightarrow> ?R")
proof
  assume ?L
  then obtain run d' where c: "complete_turn now processed renotice t at session d = Inr (run, d')" by blast
  note c' = complete_turn_cases [OF c]
  have "turn_owned t session d"
    using c'(1) sql_fetchone_Some [of "\<lambda>r. tr_turn_id r = t" "turn_runs d"] by (fastforce simp: turn_owned_def)
  moreover have "turn_active d t" using c'(5) count_active [OF assms] by simp
  ultimately show ?R using c'(2,3) by simp
next
  assume R: ?R
  let ?c = "get_default at now"
  have act: "turn_active d t" and own: "turn_owned t session d" and dis: "distinct (processed @ renotice)"
    and mem: "set (processed @ renotice) = set (turn_message_ids d t)" using R by blast+
  have it: "inv_turns d" using assms by (simp add: store_inv_def)
  have rows: "\<exists>m\<in>set (messages d). envelope_id m = i \<and> in_turn_of t m" if "i \<in> set (processed @ renotice)" for i
    using that mem member_in_turn [OF it _ act] by blast
  have len: "length (turn_message_ids d t) = card (set processed \<union> set renotice)"
    using mem distinct_card [OF distinct_turn_message_ids [OF assms, of t]] by simp
  have card: "card (batched_select_ids envelope_id (in_turn_of t) (messages d) (processed @ renotice))
      = length (processed @ renotice)"
    using batched_select_ids_full [of envelope_id "in_turn_of t" "messages d" "processed @ renotice"] dis rows by blast
  have n1: "sql_count (in_turn_among t processed) (messages d) = length processed"
    using count_among [OF assms, of processed "in_turn_of t"] dis rows by (simp add: in_turn_among_def [abs_def])
  have n2: "sql_count (in_turn_among t renotice) (messages d) = length renotice"
    using count_among [OF assms, of renotice "in_turn_of t"] dis rows by (simp add: in_turn_among_def [abs_def])
  define d1 where "d1 = d\<lparr>messages := sql_update (in_turn_among t processed) (process_row ?c) (messages d)\<rparr>"
  define d2 where "d2 = d1\<lparr>messages := sql_update (in_turn_among t renotice) renotice_row (messages d1),
      notice_contributions := sql_delete (\<lambda>x. fst x \<in> set renotice) (notice_contributions d1)\<rparr>"
  define d3 where "d3 = d2\<lparr>turn_runs := closed_runs ?c (processing_state_value PROCESSED) t (turn_runs d2)\<rparr>"
  have s1: "process_rows ?c processed t d = Inr d1" by (simp add: process_rows_def n1 d1_def)
  have "sql_count (in_turn_among t renotice) (messages d1) = length renotice"
    using count_after_process [of processed renotice t ?c "messages d"] dis n2 by (simp add: d1_def)
  then have s2: "renotice_rows renotice t d1 = Inr d2" by (simp add: renotice_rows_def d2_def)
  have s3: "close_turn ?c (processing_state_value PROCESSED) t d2 = Inr d3"
    using count_active [OF assms, of t] act by (simp add: close_turn_Inr d3_def d2_def d1_def)
  have "t \<in> tr_turn_id ` set (turn_runs (refresh_notice_state now None d3))"
    using act closed_runs_ids [of ?c "processing_state_value PROCESSED" t "turn_runs d"]
    by (auto simp: turn_active_iff d3_def d2_def d1_def)
  from turn_result_total [OF this] obtain run where
    run: "turn_result t (refresh_notice_state now None d3) = Inr (run, refresh_notice_state now None d3)" by blast
  have p: "(if processed \<noteq> [] then process_rows ?c processed t d else Inr d) = Inr d1"
    and r: "(if renotice \<noteq> [] then renotice_rows renotice t d1 else Inr d1) = Inr d2"
    using s1 s2 by (cases "processed = []"; cases "renotice = []"; simp)+
  have "complete_turn now processed renotice t at session d = Inr (run, refresh_notice_state now None d3)"
    unfolding complete_turn_def Let_def turn_owner_check [OF assms] p
    using own mem len card r s3 run by (simp del: length_append)
  then show ?L by blast
qed

text \<open>
  Completion is exact: on a well-formed store a turn completes, splitting its rows into processed
  and redelivered ones, if and only if it is active, the asserted provider session owns it, and the two
  id lists together name each member of the turn exactly once.
\<close>

theorem complete_iff:
  assumes "store_inv d"
  shows "(\<exists>run d'. complete_turn now processed renotice t at session d = Inr (run, d')) \<longleftrightarrow>
     turn_active d t \<and> turn_owned t session d \<and> distinct (processed @ renotice)
     \<and> set (processed @ renotice) = set (turn_message_ids d t)"
  using assms by (rule complete_iff_aux)

theorem complete_iff_witness:
  "(\<exists>run d'. complete_turn 20 [''e1''] [''e2''] ''t1'' None (Some ''s'') turn_db = Inr (run, d')) \<longleftrightarrow>
     turn_active turn_db ''t1'' \<and> turn_owned ''t1'' (Some ''s'') turn_db \<and> distinct ([''e1''] @ [''e2''])
     \<and> set ([''e1''] @ [''e2'']) = set (turn_message_ids turn_db ''t1'')"
  by (rule complete_iff [OF store_inv_turn_db])

lemma closed_runs_inactive:
  "st \<noteq> processing_state_value IN_TURN \<Longrightarrow> r \<in> set (closed_runs c st t rows) \<Longrightarrow> tr_turn_id r = t
   \<Longrightarrow> tr_state r \<noteq> processing_state_value IN_TURN"
  unfolding closed_runs_def by (erule in_sql_updateE) auto

lemma pending_ids_complete:
  assumes "\<And>i. i \<in> set renotice \<Longrightarrow> \<exists>m\<in>set (messages d). envelope_id m = i \<and> in_turn_of t m"
    and "set processed \<inter> set renotice = {}"
  shows "pending_ids (completed_db c processed renotice t d) = pending_ids d \<union> set renotice"
proof (rule set_eqI)
  fix i
  have "is_pending (complete_row c processed renotice t x) \<longleftrightarrow> is_pending x \<or> in_turn_among t renotice x" for x
  proof (cases "in_turn_of t x")
    case True
    with assms(2) show ?thesis
      by (cases "envelope_id x \<in> set processed")
         (auto simp: complete_row_def is_pending_def process_row_def renotice_row_def in_turn_among_def in_turn_of_def)
  next
    case False
    then show ?thesis by (simp add: complete_row_def in_turn_among_def)
  qed
  then have "i \<in> pending_ids (completed_db c processed renotice t d) \<longleftrightarrow>
      (\<exists>x\<in>set (messages d). (is_pending x \<or> in_turn_among t renotice x) \<and> envelope_id x = i)"
    by (simp add: pending_ids_iff completed_db_def complete_row_keep)
  also have "\<dots> \<longleftrightarrow> i \<in> pending_ids d \<union> set renotice"
    using assms(1) [of i] by (auto simp: pending_ids_iff in_turn_among_def)
  finally show "i \<in> pending_ids (completed_db c processed renotice t d) \<longleftrightarrow> i \<in> pending_ids d \<union> set renotice" .
qed

text \<open>
  Effect of a completion: every processed row is settled in place, every redelivered row is pending
  again with its one-shot bit set and still marked as seen by the model, all other rows are untouched,
  the pending set grows by exactly the redelivered ids, the turn is closed, and no row is left in it.
\<close>

theorem complete_effect:
  assumes "store_inv d" "complete_turn now processed renotice t at session d = Inr (run, d')"
  shows "messages d' = map (\<lambda>m.
       if in_turn_of t m \<and> envelope_id m \<in> set processed
       then m\<lparr>processing_state := Some PROCESSED, processed_at := Some (get_default at now)\<rparr>
       else if in_turn_of t m \<and> envelope_id m \<in> set renotice
       then m\<lparr>processing_state := Some PENDING, processing_turn_id := None, processed_at := None, renotified := True\<rparr>
       else m) (messages d)
    \<and> pending_ids d' = pending_ids d \<union> set renotice
    \<and> \<not> turn_active d' t \<and> (\<forall>m\<in>set (messages d'). \<not> in_turn_of t m)"
proof -
  note c = complete_turn_cases [OF assms(2)]
  have inv': "store_inv d'" using assms by (rule store_inv_complete_turn)
  have md: "messages d' = map (complete_row (get_default at now) processed renotice t) (messages d)"
    by (simp add: c(6) completed_db_def)
  have "\<not> turn_active d' t"
    unfolding c(6) turn_active_refresh
    using closed_runs_inactive [of "processing_state_value PROCESSED" _ "get_default at now" t "turn_runs d"]
    by (auto simp: completed_db_def turn_active_def)
  moreover have "\<not> in_turn_of t m" if "m \<in> set (messages d')" for m
    using in_turn_member [OF _ that] inv' calculation by (auto simp: store_inv_def)
  moreover have "pending_ids d' = pending_ids d \<union> set renotice"
    using pending_ids_complete [of renotice d t processed] c(3,4) by (simp add: c(6))
  moreover have "complete_row (get_default at now) processed renotice t = (\<lambda>m.
       if in_turn_of t m \<and> envelope_id m \<in> set processed
       then m\<lparr>processing_state := Some PROCESSED, processed_at := Some (get_default at now)\<rparr>
       else if in_turn_of t m \<and> envelope_id m \<in> set renotice
       then m\<lparr>processing_state := Some PENDING, processing_turn_id := None, processed_at := None, renotified := True\<rparr>
       else m)"
    by (rule ext) (simp add: complete_row_def in_turn_among_def process_row_def renotice_row_def conj_commute)
  ultimately show ?thesis using md by (intro conjI ballI) (simp, blast+)
qed

theorem complete_effect_witness:
  "\<exists>run d'. complete_turn 20 [''e1''] [''e2''] ''t1'' None (Some ''s'') turn_db = Inr (run, d') \<and>
    (messages d' = map (\<lambda>m.
       if in_turn_of ''t1'' m \<and> envelope_id m \<in> set [''e1'']
       then m\<lparr>processing_state := Some PROCESSED, processed_at := Some (get_default None 20)\<rparr>
       else if in_turn_of ''t1'' m \<and> envelope_id m \<in> set [''e2'']
       then m\<lparr>processing_state := Some PENDING, processing_turn_id := None, processed_at := None, renotified := True\<rparr>
       else m) (messages turn_db)
    \<and> pending_ids d' = pending_ids turn_db \<union> set [''e2'']
    \<and> \<not> turn_active d' ''t1'' \<and> (\<forall>m\<in>set (messages d'). \<not> in_turn_of ''t1'' m))"
proof -
  have "turn_owned ''t1'' (Some ''s'') turn_db" by (simp add: turn_owned_def turn_db_def)
  then obtain run d' where "complete_turn 20 [''e1''] [''e2''] ''t1'' None (Some ''s'') turn_db = Inr (run, d')"
    using complete_iff_aux [OF store_inv_turn_db, of 20 "[''e1'']" "[''e2'']" "''t1''" None "Some ''s''"] by auto
  then show ?thesis using complete_effect [OF store_inv_turn_db] by blast
qed

subsection \<open>Requeue\<close>

lemma count_among_rows:
  assumes "distinct (map envelope_id rows)" "distinct ids"
    "\<And>i. i \<in> set ids \<Longrightarrow> \<exists>m\<in>set rows. envelope_id m = i \<and> in_turn_of t m"
  shows "sql_count (in_turn_among t ids) rows = length ids"
  using sql_count_keys_all [OF assms] by (simp add: in_turn_among_def [abs_def])

lemma requeue_iff_aux:
  assumes "store_inv d"
  shows "(\<exists>run d'. requeue_messages now ids t d = Inr (run, d')) \<longleftrightarrow>
     ids \<noteq> [] \<and> [] \<notin> set ids \<and> distinct ids \<and> turn_active d t \<and> set ids = set (turn_message_ids d t)"
    (is "?L \<longleftrightarrow> ?R")
proof
  assume ?L
  then obtain run d' where r: "requeue_messages now ids t d = Inr (run, d')" by blast
  have "[] \<notin> set ids" using r by (auto simp: requeue_messages_def res_bind_Inr exact_ids_Inr)
  with requeue_cases [OF r] count_active [OF assms] show ?R by blast
next
  assume R: ?R
  have act: "turn_active d t" and dis: "distinct ids" and mem: "set ids = set (turn_message_ids d t)"
    and ex: "exact_ids ids = Inr ids" using R by (auto simp: exact_ids_Inr)
  have it: "inv_turns d" and keys: "distinct (map envelope_id (messages d))"
    using assms by (simp_all add: store_inv_def inv_messages_def)
  have rows: "\<exists>m\<in>set (messages d). envelope_id m = i \<and> in_turn_of t m" if "i \<in> set ids" for i
    using that mem member_in_turn [OF it _ act] by blast
  let ?C = "covered_among ids d"
  let ?S = "filter (\<lambda>i. i \<in> ?C) ids" and ?Q = "filter (\<lambda>i. i \<notin> ?C) ids"
  let ?r1 = "sql_update (in_turn_among t ?S) (settle_row now) (messages d)"
  have c1: "sql_count (in_turn_among t ?S) (messages d) = length ?S"
    by (rule count_among_rows [OF keys]) (use dis rows in auto)
  have "distinct (map envelope_id ?r1)"
    using keys by (simp add: settle_row_def sql_update_keys)
  moreover have "\<exists>m\<in>set ?r1. envelope_id m = i \<and> in_turn_of t m" if i: "i \<in> set ?Q" for i
  proof -
    obtain m where m: "m \<in> set (messages d)" "envelope_id m = i" "in_turn_of t m" using rows i by auto
    then have "\<not> in_turn_among t ?S m" using i by (simp add: in_turn_among_def)
    with m(1) have "m \<in> set ?r1" by (rule sql_update_other)
    with m(2,3) show ?thesis by blast
  qed
  ultimately have c2: "sql_count (in_turn_among t ?Q) ?r1 = length ?Q"
    using dis by (intro count_among_rows) simp_all
  have sum: "length ?S + length ?Q = length ids" by (rule sum_length_filter_compl)
  have len: "length (turn_message_ids d t) = length ids"
    using mem dis distinct_turn_message_ids [OF assms, of t] by (metis distinct_card)
  define d1 where "d1 = d\<lparr>messages := sql_update (in_turn_among t ?Q) requeue_row ?r1\<rparr>"
  define d2 where "d2 = d1\<lparr>turn_runs := closed_runs now ''requeued'' t (turn_runs d1)\<rparr>"
  have s: "close_turn now ''requeued'' t d1 = Inr d2"
    using count_active [OF assms, of t] act by (simp add: close_turn_Inr d1_def d2_def)
  have "t \<in> tr_turn_id ` set (turn_runs (refresh_notice_state now None d2))"
    using act closed_runs_ids [of now "''requeued''" t "turn_runs d"] by (auto simp: turn_active_iff d1_def d2_def)
  from turn_result_total [OF this] obtain run where
    "turn_result t (refresh_notice_state now None d2) = Inr (run, refresh_notice_state now None d2)" by blast
  then have "requeue_messages now ids t d = Inr (run, refresh_notice_state now None d2)"
    unfolding requeue_messages_def ex res_bind_simps Let_def c1 c2 sum d1_def [symmetric] s
    using len mem by simp
  then show ?L by blast
qed

text \<open>
  Requeue of a failed turn is exact and does not re-ask answered messages: on a well-formed store
  it succeeds if and only if the turn is active and the ids are its members; then members that some
  cover declaration names are settled as processed, exactly the uncovered ones are pending again (not
  visible to the model any more), all other rows are untouched, and the turn is closed.
\<close>

theorem requeue_exact:
  assumes "store_inv d"
  shows "((\<exists>run d'. requeue_messages now ids t d = Inr (run, d')) \<longleftrightarrow>
      ids \<noteq> [] \<and> [] \<notin> set ids \<and> distinct ids \<and> turn_active d t \<and> set ids = set (turn_message_ids d t)) \<and>
    (\<forall>run d'. requeue_messages now ids t d = Inr (run, d') \<longrightarrow>
      pending_ids d' = pending_ids d \<union> (set ids - cv_covered_envelope_id ` set (message_covers d)) \<and>
      (\<forall>m\<in>set (messages d). (if \<not> in_turn_of t m then m
          else if envelope_id m \<in> cv_covered_envelope_id ` set (message_covers d)
          then settle_row now m else requeue_row m) \<in> set (messages d')) \<and>
      \<not> turn_active d' t)"
proof (intro conjI allI impI)
  fix run d' assume r: "requeue_messages now ids t d = Inr (run, d')"
  note c = requeue_cases [OF r]
  let ?C = "covered_among ids d" and ?K = "cv_covered_envelope_id ` set (message_covers d)"
  have cov: "i \<in> ?C \<longleftrightarrow> i \<in> ?K" if "i \<in> set ids" for i
    using that by (auto simp: covered_among_def batched_select_ids_eq)
  have it: "inv_turns d" using assms by (simp add: store_inv_def)
  have mem: "envelope_id m \<in> set ids" if "m \<in> set (messages d)" "in_turn_of t m" for m
    using in_turn_member [OF it that] c(3) by simp
  have md: "messages d' = map (requeued_row now ?C ids t) (messages d)" by (simp add: c(5) requeued_db_def)
  have row: "requeued_row now ?C ids t m = (if \<not> in_turn_of t m then m
          else if envelope_id m \<in> ?K then settle_row now m else requeue_row m)" if "m \<in> set (messages d)" for m
    using mem [OF that] cov [of "envelope_id m"] by (simp add: requeued_row_def in_turn_among_def)
  then show "\<forall>m\<in>set (messages d). (if \<not> in_turn_of t m then m
          else if envelope_id m \<in> ?K then settle_row now m else requeue_row m) \<in> set (messages d')"
    unfolding md by (metis image_eqI set_map)
  have act: "turn_active d t" using c(4) count_active [OF assms] by simp
  show "\<not> turn_active d' t"
    unfolding c(5) turn_active_refresh
    using closed_runs_inactive [of "''requeued''" _ now t "turn_runs d"]
    by (auto simp: requeued_db_def turn_active_def)
  show "pending_ids d' = pending_ids d \<union> (set ids - ?K)"
  proof (rule set_eqI)
    fix i
    have p: "is_pending (requeued_row now ?C ids t m) \<longleftrightarrow> is_pending m \<or> (in_turn_of t m \<and> envelope_id m \<notin> ?K)"
      if "m \<in> set (messages d)" for m
      unfolding row [OF that] by (auto simp: is_pending_def in_turn_of_def settle_row_def requeue_row_def)
    have "i \<in> pending_ids d' \<longleftrightarrow>
        (\<exists>m\<in>set (messages d). (is_pending m \<or> (in_turn_of t m \<and> envelope_id m \<notin> ?K)) \<and> envelope_id m = i)"
      unfolding pending_ids_iff md by (simp add: requeued_row_keep p)
    also have "\<dots> \<longleftrightarrow> i \<in> pending_ids d \<union> (set ids - ?K)"
      using mem member_in_turn [OF it, of i t] act c(3) unfolding pending_ids_iff Un_iff Diff_iff by metis
    finally show "i \<in> pending_ids d' \<longleftrightarrow> i \<in> pending_ids d \<union> (set ids - ?K)" .
  qed
qed (use requeue_iff_aux [OF assms] in blast)

theorem requeue_exact_witness:
  "\<exists>run d'. requeue_messages 30 [''e1'', ''e2''] ''t1'' turn_db = Inr (run, d') \<and>
    pending_ids d' = pending_ids turn_db \<union> (set [''e1'', ''e2''] - cv_covered_envelope_id ` set (message_covers turn_db)) \<and>
    \<not> turn_active d' ''t1''"
proof -
  note r = requeue_exact [OF store_inv_turn_db, of 30 "[''e1'', ''e2'']" "''t1''"]
  have "set [''e1'', ''e2''] = set (turn_message_ids turn_db ''t1'')" by auto
  with r [THEN conjunct1] obtain run d' where
    op: "requeue_messages 30 [''e1'', ''e2''] ''t1'' turn_db = Inr (run, d')" by auto
  note e = r [THEN conjunct2, THEN spec, THEN spec, THEN mp, OF op]
  show ?thesis by (rule exI, rule exI, rule conjI [OF op conjI [OF conjunct1 [OF e] conjunct2 [OF conjunct2 [OF e]]]])
qed

subsection \<open>The fallback completion\<close>

text \<open>The partition \<open>complete_turn_renotice_unrenotified\<close> hands to the completion.\<close>

definition unrenotified_members :: "string \<Rightarrow> db \<Rightarrow> string list" where
  "unrenotified_members t d =
     filter (\<lambda>i. \<exists>m\<in>set (messages d). envelope_id m = i \<and> \<not> renotified m) (turn_message_ids d t)"

definition renotified_members :: "string \<Rightarrow> db \<Rightarrow> string list" where
  "renotified_members t d =
     filter (\<lambda>i. \<not> (\<exists>m\<in>set (messages d). envelope_id m = i \<and> \<not> renotified m)) (turn_message_ids d t)"

lemma fallback_unfold:
  "complete_turn_renotice_unrenotified now t session d =
     res_bind (complete_turn now (renotified_members t d) (unrenotified_members t d) t None session d)
       (\<lambda>(_, d'). Inr (unrenotified_members t d, d'))"
proof -
  let ?U = "batched_select_ids envelope_id (\<lambda>m. \<not> renotified m) (messages d) (turn_message_ids d t)"
  have u: "i \<in> ?U \<longleftrightarrow> (\<exists>m\<in>set (messages d). envelope_id m = i \<and> \<not> renotified m)"
    if "i \<in> set (turn_message_ids d t)" for i
    using that by (auto simp: batched_select_ids_eq)
  then have "filter (\<lambda>i. i \<in> ?U) (turn_message_ids d t) = unrenotified_members t d"
    "filter (\<lambda>i. i \<notin> ?U) (turn_message_ids d t) = renotified_members t d"
    by (auto simp: unrenotified_members_def renotified_members_def intro!: filter_cong)
  then show ?thesis
    by (cases "turn_message_ids d t = []")
       (simp_all add: complete_turn_renotice_unrenotified_def Let_def unrenotified_members_def renotified_members_def)
qed

text \<open>
  The fallback completion never loses a row and redelivers each at most once: it succeeds exactly
  when the turn is active and owned; it returns precisely the members whose one-shot redelivery is
  unused, which become pending with the bit set, while members already redelivered once are settled
  as processed. A member is therefore returned by at most one fallback over its lifetime.
\<close>

theorem fallback_redelivers_once:
  assumes "store_inv d"
  shows "((\<exists>ids d'. complete_turn_renotice_unrenotified now t session d = Inr (ids, d')) \<longleftrightarrow>
      turn_active d t \<and> turn_owned t session d) \<and>
    (\<forall>ids d'. complete_turn_renotice_unrenotified now t session d = Inr (ids, d') \<longrightarrow>
      ids = filter (\<lambda>i. \<exists>m\<in>set (messages d). envelope_id m = i \<and> \<not> renotified m) (turn_message_ids d t) \<and>
      pending_ids d' = pending_ids d \<union> set ids \<and>
      (\<forall>m'\<in>set (messages d'). envelope_id m' \<in> set (turn_message_ids d t) \<longrightarrow>
         renotified m' \<and> (if envelope_id m' \<in> set ids then processing_state m' = Some PENDING
                          else processing_state m' = Some PROCESSED)))"
proof (intro conjI allI impI ballI)
  let ?P = "renotified_members t d" and ?R = "unrenotified_members t d"
  have dm: "distinct (turn_message_ids d t)" using assms by (rule distinct_turn_message_ids)
  have part: "distinct (?P @ ?R)" "set (?P @ ?R) = set (turn_message_ids d t)"
    using dm by (auto simp: renotified_members_def unrenotified_members_def)
  have "(\<exists>ids d'. complete_turn_renotice_unrenotified now t session d = Inr (ids, d')) \<longleftrightarrow>
      (\<exists>run d'. complete_turn now ?P ?R t None session d = Inr (run, d'))"
    unfolding fallback_unfold by (auto simp: res_bind_Inr)
  then show "(\<exists>ids d'. complete_turn_renotice_unrenotified now t session d = Inr (ids, d')) \<longleftrightarrow>
      turn_active d t \<and> turn_owned t session d"
    using complete_iff_aux [OF assms] part by simp
  fix ids d' assume f: "complete_turn_renotice_unrenotified now t session d = Inr (ids, d')"
  then obtain run where ids: "ids = ?R" and c: "complete_turn now ?P ?R t None session d = Inr (run, d')"
    unfolding fallback_unfold by (auto simp: res_bind_Inr)
  note cc = complete_turn_cases [OF c]
  show "ids = filter (\<lambda>i. \<exists>m\<in>set (messages d). envelope_id m = i \<and> \<not> renotified m) (turn_message_ids d t)"
    by (simp add: ids unrenotified_members_def)
  show "pending_ids d' = pending_ids d \<union> set ids"
    using pending_ids_complete [of ?R d t ?P] cc(3,4) by (simp add: cc(6) ids)
  fix m' assume m': "m' \<in> set (messages d')" "envelope_id m' \<in> set (turn_message_ids d t)"
  obtain m where m: "m \<in> set (messages d)" "m' = complete_row (get_default None now) ?P ?R t m"
    using m'(1) by (auto simp: cc(6) completed_db_def)
  have e: "envelope_id m' = envelope_id m" by (simp add: m(2) complete_row_keep)
  obtain x where "x \<in> set (messages d)" "envelope_id x = envelope_id m" "in_turn_of t x"
    using cc(4) m'(2) part(2) e by metis
  then have it: "in_turn_of t m" using distinct_map_unique [OF keysD [OF assms]] m(1) by metis
  have ren: "(\<exists>y\<in>set (messages d). envelope_id y = envelope_id m \<and> \<not> renotified y) \<longleftrightarrow> \<not> renotified m"
    using distinct_map_unique [OF keysD [OF assms]] m(1) by metis
  show "renotified m'" "if envelope_id m' \<in> set ids then processing_state m' = Some PENDING
                          else processing_state m' = Some PROCESSED"
    using it ren m'(2) e
    by (auto simp: ids m(2) complete_row_def in_turn_among_def renotified_members_def unrenotified_members_def
        process_row_def renotice_row_def)
qed

theorem fallback_redelivers_once_witness:
  "\<exists>ids d'. complete_turn_renotice_unrenotified 30 ''t1'' (Some ''s'') turn_db = Inr (ids, d') \<and>
     ids = filter (\<lambda>i. \<exists>m\<in>set (messages turn_db). envelope_id m = i \<and> \<not> renotified m) (turn_message_ids turn_db ''t1'') \<and>
     pending_ids d' = pending_ids turn_db \<union> set ids"
proof -
  note f = fallback_redelivers_once [OF store_inv_turn_db, of 30 "''t1''" "Some ''s''"]
  have "turn_owned ''t1'' (Some ''s'') turn_db" by (simp add: turn_owned_def turn_db_def)
  with f [THEN conjunct1] obtain ids d' where
    op: "complete_turn_renotice_unrenotified 30 ''t1'' (Some ''s'') turn_db = Inr (ids, d')" by auto
  note e = f [THEN conjunct2, THEN spec, THEN spec, THEN mp, OF op]
  show ?thesis by (rule exI, rule exI, rule conjI [OF op conjI [OF conjunct1 [OF e] conjunct1 [OF conjunct2 [OF e]]]])
qed

end
