(* ===== verification/Inbox_Reads.thy ===== *)
theory Inbox_Reads
  imports Turn_Props
begin

section \<open>Reads of the Inbox and of history\<close>

text \<open>
  \<open>agent/inbox_store.py\<close>, \<open>agent/prior_context.py\<close> and the history reads of
  \<open>agent/message_store.py\<close>: pages of the pending set under a stable cursor, the pending rows of a
  channel, the context before an anchor, the freshness watermark of a channel, and the model-visible
  history. None of them writes a message row. A cursor is the dictionary that
  \<open>_encode_inbox_cursor\<close> packs; its base64 transport is not modelled.
\<close>

subsection \<open>Inbox pages\<close>

type_synonym position = "int \<times> int \<times> int \<times> string"

record inbox_cursor =
  c_target :: string
  c_generation :: int
  c_ceiling :: position
  c_last :: position

record InboxPage =
  pg_items :: "message_row list"
  pg_next_cursor :: "inbox_cursor option"
  pg_has_more :: bool
  pg_remaining_count :: nat
  pg_snapshot_generation :: int
  pg_target :: string

definition FIRST_POSITION :: position where
  "FIRST_POSITION = (-1, -1, -1, [])"

definition read_inbox_page :: "string \<Rightarrow> inbox_cursor option \<Rightarrow> int \<Rightarrow> db \<Rightarrow> InboxPage res" where
  "read_inbox_page target0 cursor limit d =
     (if \<not> (1 \<le> limit \<and> limit \<le> 50) then Inl (ValueError ''limit must be between 1 and 50'')
      else let target1 = strip target0
           in if target1 \<noteq> [] \<and> \<not> (starts_with ''channel:'' target1 \<or> starts_with ''dm:'' target1)
              then Inl (ValueError ''invalid Inbox target'')
              else if (case cursor of None \<Rightarrow> False
                       | Some c \<Rightarrow> target1 \<noteq> [] \<and> c_target c \<noteq> target1)
              then Inl (ValueError ''Inbox cursor belongs to another target'')
              else let target = (case cursor of None \<Rightarrow> target1 | Some c \<Rightarrow> c_target c);
                       pending = filter (\<lambda>m. target = [] \<or> target_projection m = target) (get_pending_all d);
                       gen = (case cursor of None \<Rightarrow> generation (notice d) | Some c \<Rightarrow> c_generation c);
                       ceiling = (case cursor of
                                    None \<Rightarrow> (if pending = [] then (0, 0, 0, []) else inbox_order (last pending))
                                  | Some c \<Rightarrow> c_ceiling c);
                       lst = (case cursor of None \<Rightarrow> FIRST_POSITION | Some c \<Rightarrow> c_last c);
                       snapshot = filter (\<lambda>m. lst < inbox_order m \<and> inbox_order m \<le> ceiling) pending;
                       selected = take (nat limit) snapshot;
                       remaining = length snapshot - length selected;
                       has_more = (remaining > 0)
                   in Inr \<lparr>pg_items = selected,
                           pg_next_cursor = (if has_more
                              then Some \<lparr>c_target = target, c_generation = gen, c_ceiling = ceiling,
                                         c_last = inbox_order (last selected)\<rparr> else None),
                           pg_has_more = has_more, pg_remaining_count = remaining,
                           pg_snapshot_generation = gen, pg_target = target\<rparr>)"

text \<open>A reader that follows \<open>next_cursor\<close> until there is none, at most \<open>n\<close> pages.\<close>

fun read_pages :: "nat \<Rightarrow> string \<Rightarrow> inbox_cursor option \<Rightarrow> int \<Rightarrow> db \<Rightarrow> message_row list res" where
  "read_pages 0 target cursor limit d = Inr []"
| "read_pages (Suc n) target cursor limit d =
     res_bind (read_inbox_page target cursor limit d) (\<lambda>page.
       case pg_next_cursor page of
         None \<Rightarrow> Inr (pg_items page)
       | Some c \<Rightarrow> res_bind (read_pages n target (Some c) limit d) (\<lambda>rest. Inr (pg_items page @ rest)))"

subsection \<open>Channel reads\<close>

record PendingPage =
  pp_items :: "message_row list"
  pp_through_seq :: "int option"
  pp_more_available :: bool

definition row_position :: "message_row \<Rightarrow> int" where
  "row_position m = (case server_seq m of Some s \<Rightarrow> s | None \<Rightarrow> get_default (after_server_seq m) 0)"

definition pending_included :: "int option \<Rightarrow> int option \<Rightarrow> message_row \<Rightarrow> bool" where
  "pending_included after_seq through_seq m =
     (let position = row_position m
      in if (case after_seq of None \<Rightarrow> False | Some a \<Rightarrow> position < a) then False
         else if (case after_seq of None \<Rightarrow> False | Some a \<Rightarrow> position = a \<and> server_seq m \<noteq> None) then False
         else if (case through_seq of None \<Rightarrow> False | Some t \<Rightarrow> position > t) then False
         else True)"

definition get_channel_pending ::
  "string \<Rightarrow> string \<Rightarrow> int option \<Rightarrow> int option \<Rightarrow> int \<Rightarrow> db \<Rightarrow> PendingPage res" where
  "get_channel_pending space channel after_seq through_seq limit d =
     (if limit < 0 then Inl (ValueError ''limit must be non-negative'')
      else let candidates = filter (\<lambda>m. space_id m = Some space \<and> channel_id m = Some channel) (get_pending_all d);
               filtered = filter (pending_included after_seq through_seq) candidates;
               selected = take (nat limit) filtered;
               selected_server = List.map_filter server_seq selected
           in Inr \<lparr>pp_items = selected,
                   pp_through_seq = (if selected_server = [] then None else Some (fold max selected_server (hd selected_server))),
                   pp_more_available = (length filtered > length selected)\<rparr>)"

definition get_context_baseline :: "string \<Rightarrow> string \<Rightarrow> db \<Rightarrow> int option" where
  "get_context_baseline space channel d =
     map_option fst (map_of (channel_context_state d) (space, channel))"

definition set_context_baseline :: "int \<Rightarrow> string \<Rightarrow> string \<Rightarrow> int \<Rightarrow> int option \<Rightarrow> db \<Rightarrow> db res" where
  "set_context_baseline now space channel seq updated d =
     (if seq < 0 then Inl (ValueError ''context baseline must be non-negative'')
      else let v = (seq, get_default updated now); k = (space, channel)
           in Inr (d\<lparr>channel_context_state :=
                (if k \<in> fst ` set (channel_context_state d)
                 then map (\<lambda>e. if fst e = k then (k, v) else e) (channel_context_state d)
                 else channel_context_state d @ [(k, v)])\<rparr>))"

text \<open>\<open>has_known_channel_rows_above_baseline\<close>.\<close>

definition channel_row :: "string \<Rightarrow> string \<Rightarrow> message_row \<Rightarrow> bool" where
  "channel_row space channel m \<longleftrightarrow>
     space_id m = Some space \<and> channel_id m = Some channel \<and> envelope_kind m \<noteq> ''dm'' \<and> server_seq m \<noteq> None"

definition has_known_channel_rows_above_baseline :: "string \<Rightarrow> string \<Rightarrow> db \<Rightarrow> bool" where
  "has_known_channel_rows_above_baseline space channel d =
     sql_exists (\<lambda>m. channel_row space channel m
        \<and> get_default (server_seq m) 0 > get_default (get_context_baseline space channel d) (-1)) (messages d)"

subsection \<open>The freshness watermark\<close>

text \<open>The loop of \<open>get_model_visible_through_seq\<close> over the channel's rows in sequence order.\<close>

definition freshness_admissible :: "string \<Rightarrow> int option \<Rightarrow> message_row \<Rightarrow> bool" where
  "freshness_admissible t candidate m =
     (let sq = get_default (server_seq m) 0;
          is_candidate = (candidate = Some sq);
          is_visible = (model_visible_at m \<noteq> None \<or> is_candidate);
          is_this_turn = (processing_turn_id m = Some t);
          terminal = (processing_state m = Some PROCESSED);
          terminal_receipt = (receipt_disposition m = Some TERMINAL)
      in terminal_receipt \<or> is_candidate
         \<or> (is_visible \<and> (terminal \<or> (is_this_turn \<and> processing_state m = Some IN_TURN))))"

fun visible_prefix ::
  "string \<Rightarrow> int option \<Rightarrow> int option \<Rightarrow> int option \<Rightarrow> message_row list \<Rightarrow> int option" where
  "visible_prefix t baseline candidate safe [] = safe"
| "visible_prefix t baseline candidate safe (m # rows) =
     (let sq = get_default (server_seq m) 0
      in if (case baseline of None \<Rightarrow> False | Some b \<Rightarrow> sq \<le> b)
         then visible_prefix t baseline candidate safe rows
         else if (case candidate of None \<Rightarrow> False | Some c \<Rightarrow> sq > c) then safe
         else if \<not> freshness_admissible t candidate m then safe
         else visible_prefix t baseline candidate (Some sq) rows)"

definition channel_rows_by_seq :: "string \<Rightarrow> string \<Rightarrow> db \<Rightarrow> message_row list" where
  "channel_rows_by_seq space channel d =
     sort_key (\<lambda>m. get_default (server_seq m) 0) (filter (channel_row space channel) (messages d))"

definition get_model_visible_through_seq ::
  "string \<Rightarrow> string \<Rightarrow> string \<Rightarrow> int option \<Rightarrow> db \<Rightarrow> int option" where
  "get_model_visible_through_seq t space channel candidate d =
     visible_prefix t (get_context_baseline space channel d) candidate None (channel_rows_by_seq space channel d)"

subsection \<open>Prior context\<close>

definition PRIOR_CONTEXT_MAX_ITEMS :: int where "PRIOR_CONTEXT_MAX_ITEMS = 20"

definition PRIOR_CONTEXT_MAX_BYTES :: int where "PRIOR_CONTEXT_MAX_BYTES = 48000"

record PriorContextPage =
  pc_items :: "message_row list"
  pc_has_more :: bool

definition bounded_limits :: "int \<Rightarrow> int \<Rightarrow> (int \<times> int) res" where
  "bounded_limits limit max_bytes =
     (if limit < 0 then Inl (ValueError ''limit must be non-negative'')
      else if max_bytes < 0 then Inl (ValueError ''max_bytes must be non-negative'')
      else Inr (min limit PRIOR_CONTEXT_MAX_ITEMS, min max_bytes PRIOR_CONTEXT_MAX_BYTES))"

text \<open>\<open>_prior_context_route\<close>: the WHERE clause for an anchor, or None for an anchor with no route.\<close>

definition prior_context_route :: "message_row \<Rightarrow> (message_row \<Rightarrow> bool) option" where
  "prior_context_route anchor =
     (let base = (\<lambda>m. inbox_order m < inbox_order anchor
                      \<and> (processing_state m = Some PROCESSED \<or> receipt_disposition m = Some TERMINAL))
      in if envelope_kind anchor = ''dm''
         then (let peer = (if sender_slug anchor \<noteq> [] then sender_slug anchor else or_empty (recipient_slug anchor))
               in if peer = [] then None
                  else Some (\<lambda>m. base m \<and> envelope_kind m = ''dm''
                                 \<and> (sender_slug m = peer \<or> recipient_slug m = Some peer)))
         else (let is_intro = (sender_slug anchor = ''system'' \<and> starts_with ''intro-prompt-'' (envelope_id anchor)
                               \<and> thread_root_id anchor = Some (envelope_id anchor));
                   routed = (\<lambda>m. base m \<and> envelope_kind m \<noteq> ''dm''
                                 \<and> space_id m \<noteq> None \<and> space_id m = space_id anchor
                                 \<and> channel_id m \<noteq> None \<and> channel_id m = channel_id anchor)
               in if truthy (thread_root_id anchor) \<and> \<not> is_intro
                  then Some (\<lambda>m. routed m \<and> (Some (envelope_id m) = thread_root_id anchor
                                              \<or> thread_root_id m = thread_root_id anchor))
                  else Some (\<lambda>m. routed m \<and> thread_root_id m = None)))"

text \<open>\<open>_bounded_page\<close>; \<open>body_bytes\<close> is the UTF-8 length of \<open>str(message.content)\<close>.\<close>

fun bounded_select ::
  "(message_row \<Rightarrow> int) \<Rightarrow> int \<Rightarrow> int \<Rightarrow> message_row list \<Rightarrow> int \<Rightarrow> bool \<Rightarrow> message_row list
   \<Rightarrow> message_row list \<times> bool" where
  "bounded_select body_bytes limit max_bytes selected used has_more [] = (selected, has_more)"
| "bounded_select body_bytes limit max_bytes selected used has_more (m # rows) =
     (if int (length selected) \<ge> limit then bounded_select body_bytes limit max_bytes selected used True rows
      else if used + body_bytes m > max_bytes
      then bounded_select body_bytes limit max_bytes selected used True rows
      else bounded_select body_bytes limit max_bytes (selected @ [m]) (used + body_bytes m) has_more rows)"

definition get_prior_context_page ::
  "(message_row \<Rightarrow> int) \<Rightarrow> message_row \<Rightarrow> int \<Rightarrow> int \<Rightarrow> db \<Rightarrow> PriorContextPage res" where
  "get_prior_context_page body_bytes anchor limit0 max0 d =
     res_bind (bounded_limits limit0 max0) (\<lambda>(limit, max_bytes).
       case prior_context_route anchor of
         None \<Rightarrow> Inr \<lparr>pc_items = [], pc_has_more = False\<rparr>
       | Some route \<Rightarrow>
           let rows = take (nat (limit + 1)) (rev (sort_key inbox_order (filter route (messages d))));
               (selected, has_more) = bounded_select body_bytes limit max_bytes [] 0 False rows
           in Inr \<lparr>pc_items = rev selected, pc_has_more = has_more\<rparr>)"

end
