(* ===== verification/Read_Props.thy ===== *)
theory Read_Props
  imports Inbox_Reads
begin

section \<open>What the reads guarantee\<close>

subsection \<open>The order of the Inbox\<close>

lemma inbox_order_inj: "inbox_order a = inbox_order b \<Longrightarrow> envelope_id a = envelope_id b"
  by (simp add: inbox_order_def)

lemma seq_unique:
  assumes "store_inv d" "a \<in> set (messages d)" "b \<in> set (messages d)" "server_seq a = Some s" "server_seq b = Some s"
  shows "a = b"
proof -
  have "distinct (List.map_filter server_seq rows) \<Longrightarrow> a \<in> set rows \<Longrightarrow> b \<in> set rows \<Longrightarrow> a = b" for rows
  proof (induction rows)
    case (Cons m rows)
    show ?case
    proof (cases "server_seq m")
      case None
      with Cons assms(4,5) show ?thesis by (auto simp: List.map_filter_simps)
    next
      case (Some x)
      with Cons.prems(1) have "x \<notin> set (List.map_filter server_seq rows)" "distinct (List.map_filter server_seq rows)"
        by (simp_all add: List.map_filter_simps)
      with Cons.IH Cons.prems(2,3) Some assms(4,5) show ?thesis by (auto simp: set_map_filter_col)
    qed
  qed simp
  with seqsD [OF assms(1)] assms(2,3) show ?thesis by blast
qed

lemma pending_order_agrees:
  assumes "store_inv d" "a \<in> set (messages d)" "b \<in> set (messages d)" "pending_visible a" "pending_visible b"
    and le: "pending_sql_order a \<le> pending_sql_order b"
  shows "inbox_order a \<le> inbox_order b"
proof (cases "server_seq a")
  case a: (Some s)
  show ?thesis
  proof (cases "server_seq b")
    case (Some s')
    show ?thesis
    proof (cases "s = s'")
      case True
      with a Some seq_unique [OF assms(1-3)] show ?thesis by simp
    next
      case False
      with le a Some show ?thesis by (auto simp: pending_sql_order_def inbox_order_def)
    qed
  next
    case None
    with le a show ?thesis by (auto simp: pending_sql_order_def inbox_order_def)
  qed
next
  case a: None
  then obtain oa where oa: "local_ordinal a = Some oa" using assms(4) by (auto simp: pending_visible_def)
  show ?thesis
  proof (cases "server_seq b")
    case (Some s')
    with le a show ?thesis by (auto simp: pending_sql_order_def inbox_order_def)
  next
    case None
    then obtain ob where "local_ordinal b = Some ob" using assms(5) by (auto simp: pending_visible_def)
    with le a None oa show ?thesis by (auto simp: pending_sql_order_def inbox_order_def get_default_def)
  qed
qed

lemma set_get_pending_all: "set (get_pending_all d) = {m \<in> set (messages d). pending_visible m}"
  by (auto simp: get_pending_all_def)

lemma get_pending_all_sorted:
  assumes "store_inv d"
  shows "sorted_wrt (<) (map inbox_order (get_pending_all d))"
  unfolding strict_sorted_iff
proof
  let ?xs = "get_pending_all d"
  have "sorted (map pending_sql_order ?xs)" by (simp add: get_pending_all_def)
  then have s: "sorted_wrt (\<lambda>a b. pending_sql_order a \<le> pending_sql_order b) ?xs"
    by (simp only: sorted_wrt_map)
  have "sorted_wrt (\<lambda>a b. inbox_order a \<le> inbox_order b) ?xs"
    by (rule sorted_wrt_mono_rel [OF _ s])
       (use pending_order_agrees [OF assms] in \<open>auto simp: set_get_pending_all\<close>)
  then show "sorted (map inbox_order ?xs)" by (simp only: sorted_wrt_map)
  have "distinct (map envelope_id (filter pending_visible (messages d)))"
    using keysD [OF assms] by (rule distinct_map_filter_key)
  then have "inj_on envelope_id (set ?xs)" "distinct ?xs"
    unfolding get_pending_all_def distinct_map by simp_all
  then show "distinct (map inbox_order ?xs)"
    unfolding distinct_map using inbox_order_inj by (meson inj_onD inj_onI)
qed

subsection \<open>Pages\<close>

text \<open>The snapshot a cursor stands for.\<close>

definition page_snapshot :: "string \<Rightarrow> position \<Rightarrow> position \<Rightarrow> db \<Rightarrow> message_row list" where
  "page_snapshot target lst ceiling d =
     filter (\<lambda>m. lst < inbox_order m \<and> inbox_order m \<le> ceiling)
       (filter (\<lambda>m. target = [] \<or> target_projection m = target) (get_pending_all d))"

text \<open>After the last row of a page comes exactly the rest of the snapshot.\<close>

lemma sorted_after_take:
  fixes xs :: "'a list" and f :: "'a \<Rightarrow> 'b :: linorder"
  assumes "sorted_wrt (<) (map f xs)" "0 < n" "n \<le> length xs"
  shows "filter (\<lambda>x. f (last (take n xs)) < f x) xs = drop n xs"
proof -
  let ?a = "take n xs" and ?b = "drop n xs"
  have ne: "?a \<noteq> []" using assms(2,3) by auto
  have w: "sorted_wrt (<) (map f ?a @ map f ?b)"
    using assms(1) by (metis append_take_drop_id map_append)
  then have "sorted_wrt (<) (map f ?a)" and cross: "\<And>x y. x \<in> set ?a \<Longrightarrow> y \<in> set ?b \<Longrightarrow> f x < f y"
    by (auto simp: sorted_wrt_append)
  then have srt: "sorted (map f ?a)" by (simp add: strict_sorted_imp_sorted)
  have "f x \<le> f (last ?a)" if "x \<in> set ?a" for x
    using srt that by (rule sorted_le_last)
  then have "filter (\<lambda>x. f (last ?a) < f x) ?a = []" by (auto simp: filter_empty_conv not_less)
  moreover have "filter (\<lambda>x. f (last ?a) < f x) ?b = ?b"
    using cross [OF last_in_set [OF ne]] by (simp add: filter_id_conv)
  ultimately show ?thesis by (metis append_Nil append_take_drop_id filter_append)
qed

text \<open>The cursor a first page implicitly starts from.\<close>

definition first_cursor :: "string \<Rightarrow> db \<Rightarrow> inbox_cursor" where
  "first_cursor target d =
     (let pending = filter (\<lambda>m. target = [] \<or> target_projection m = target) (get_pending_all d)
      in \<lparr>c_target = target, c_generation = generation (notice d),
          c_ceiling = (if pending = [] then (0, 0, 0, []) else inbox_order (last pending)),
          c_last = FIRST_POSITION\<rparr>)"

definition target_ok :: "string \<Rightarrow> bool" where
  "target_ok t \<longleftrightarrow> strip t = [] \<or> starts_with ''channel:'' (strip t) \<or> starts_with ''dm:'' (strip t)"

lemma first_page:
  "read_inbox_page target None limit d = read_inbox_page target (Some (first_cursor (strip target) d)) limit d"
  unfolding read_inbox_page_def first_cursor_def Let_def
  by (simp only: option.case inbox_cursor.simps simp_thms)

lemma cursor_page:
  fixes limit :: int and c :: inbox_cursor and d :: db
  defines "snap \<equiv> page_snapshot (c_target c) (c_last c) (c_ceiling c) d"
  assumes lim: "1 \<le> limit" "limit \<le> 50" and t: "target_ok target" "strip target = [] \<or> c_target c = strip target"
  shows "read_inbox_page target (Some c) limit d =
    Inr \<lparr>pg_items = take (nat limit) snap,
         pg_next_cursor = (if length snap > nat limit
            then Some (c\<lparr>c_last := inbox_order (last (take (nat limit) snap))\<rparr>) else None),
         pg_has_more = (length snap > nat limit), pg_remaining_count = length snap - nat limit,
         pg_snapshot_generation = c_generation c, pg_target = c_target c\<rparr>"
proof -
  have "length snap - length (take (nat limit) snap) = length snap - nat limit" by simp
  moreover have "0 < length snap - nat limit \<longleftrightarrow> length snap > nat limit" by linarith
  ultimately show ?thesis
    using lim t unfolding read_inbox_page_def Let_def target_ok_def option.case
      page_snapshot_def [symmetric] snap_def [symmetric] by simp
qed

lemma next_snapshot:
  assumes inv: "store_inv d" and n: "0 < n" "n \<le> length (page_snapshot t lst ceiling d)"
  shows "page_snapshot t (inbox_order (last (take n (page_snapshot t lst ceiling d)))) ceiling d
    = drop n (page_snapshot t lst ceiling d)"
proof -
  let ?s = "page_snapshot t lst ceiling d"
  let ?x = "last (take n ?s)"
  have srt: "sorted_wrt (<) (map inbox_order ?s)"
    unfolding page_snapshot_def sorted_wrt_map
    by (intro sorted_wrt_filter) (use get_pending_all_sorted [OF inv] in \<open>simp only: sorted_wrt_map\<close>)
  have "?x \<in> set (take n ?s)" using n by (intro last_in_set) auto
  then have "?x \<in> set ?s" by (rule in_set_takeD)
  then have "lst < inbox_order ?x" by (simp add: page_snapshot_def)
  then have "page_snapshot t (inbox_order ?x) ceiling d = filter (\<lambda>m. inbox_order ?x < inbox_order m) ?s"
    unfolding page_snapshot_def filter_filter by (intro filter_cong) auto
  also have "\<dots> = drop n ?s" by (rule sorted_after_take [OF srt n])
  finally show ?thesis .
qed

lemma read_pages_cursor:
  assumes inv: "store_inv d" and lim: "1 \<le> limit" "limit \<le> 50" and t: "target_ok target"
  shows "strip target = [] \<or> c_target c = strip target \<Longrightarrow>
    length (page_snapshot (c_target c) (c_last c) (c_ceiling c) d) < n \<Longrightarrow>
    read_pages n target (Some c) limit d = Inr (page_snapshot (c_target c) (c_last c) (c_ceiling c) d)"
proof (induction n arbitrary: c)
  case (Suc n)
  let ?s = "page_snapshot (c_target c) (c_last c) (c_ceiling c) d"
  let ?c = "c\<lparr>c_last := inbox_order (last (take (nat limit) ?s))\<rparr>"
  note pg = cursor_page [OF lim t Suc.prems(1), of d]
  show ?case
  proof (cases "length ?s > nat limit")
    case True
    have rest: "page_snapshot (c_target ?c) (c_last ?c) (c_ceiling ?c) d = drop (nat limit) ?s"
      using next_snapshot [OF inv, of "nat limit" "c_target c" "c_last c" "c_ceiling c"] True lim by simp
    have "read_pages n target (Some ?c) limit d = Inr (drop (nat limit) ?s)"
      using Suc.IH [of ?c] Suc.prems rest lim True by simp
    with True pg show ?thesis by simp
  next
    case False
    with pg show ?thesis by simp
  qed
qed simp

lemma first_snapshot:
  assumes inv: "store_inv d"
  shows "page_snapshot target FIRST_POSITION (c_ceiling (first_cursor target d)) d
    = filter (\<lambda>m. target = [] \<or> target_projection m = target) (get_pending_all d)"
proof -
  let ?p = "filter (\<lambda>m. target = [] \<or> target_projection m = target) (get_pending_all d)"
  have srt: "sorted (map inbox_order ?p)"
    unfolding sorted_wrt_map
    by (intro sorted_wrt_filter)
       (use strict_sorted_imp_sorted [OF get_pending_all_sorted [OF inv]] in \<open>simp only: sorted_wrt_map\<close>)
  have "FIRST_POSITION < inbox_order m \<and> inbox_order m \<le> c_ceiling (first_cursor target d)" if m: "m \<in> set ?p" for m
  proof
    have "m \<in> set (messages d)" using m by (auto simp: set_get_pending_all)
    then have "row_wf m" by (rule row_wfD [OF inv])
    then show "FIRST_POSITION < inbox_order m"
      by (cases "server_seq m"; cases "after_server_seq m")
         (auto simp: row_wf_def FIRST_POSITION_def inbox_order_def get_default_def)
    have "?p \<noteq> []" using m by (metis list.distinct(1) list.set_cases)
    then have "c_ceiling (first_cursor target d) = inbox_order (last ?p)"
      by (simp only: first_cursor_def Let_def inbox_cursor.simps if_False)
    then show "inbox_order m \<le> c_ceiling (first_cursor target d)" using sorted_le_last [OF srt m] by simp
  qed
  then show ?thesis unfolding page_snapshot_def by (intro filter_True) blast
qed

text \<open>
  C16. Paging is complete: on an unchanged store a reader that follows the cursors from the start, with
  any page size from 1 to 50, receives exactly the pending rows of its target, each once, in Inbox
  order; one more round than there are rows always suffices.
\<close>

theorem paging_complete:
  assumes "store_inv d" "1 \<le> limit" "limit \<le> 50"
    and "strip target = [] \<or> starts_with ''channel:'' (strip target) \<or> starts_with ''dm:'' (strip target)"
    and "length (messages d) < n"
  shows "read_pages n target None limit d =
      Inr (filter (\<lambda>m. strip target = [] \<or> target_projection m = strip target) (get_pending_all d)) \<and>
    sorted_wrt (<) (map inbox_order (get_pending_all d)) \<and>
    set (get_pending_all d) = {m \<in> set (messages d). pending_visible m}"
proof (intro conjI)
  let ?t = "strip target" and ?c = "first_cursor (strip target) d"
  let ?p = "filter (\<lambda>m. ?t = [] \<or> target_projection m = ?t) (get_pending_all d)"
  have c: "c_target ?c = ?t" "c_last ?c = FIRST_POSITION" by (simp_all add: first_cursor_def Let_def)
  have snap: "page_snapshot (c_target ?c) (c_last ?c) (c_ceiling ?c) d = ?p"
    using first_snapshot [OF assms(1), of ?t] c by simp
  have "length ?p \<le> length (messages d)"
    by (metis get_pending_all_def le_trans length_filter_le length_sort)
  with assms(5) have len: "length (page_snapshot (c_target ?c) (c_last ?c) (c_ceiling ?c) d) < n" by (simp add: snap)
  have "target_ok target" using assms(4) by (simp add: target_ok_def)
  from read_pages_cursor [OF assms(1-3) this disjI2 [OF c(1)] len]
  have "read_pages n target (Some ?c) limit d = Inr ?p" by (simp add: snap)
  moreover have "read_pages n target None limit d = read_pages n target (Some ?c) limit d"
    by (cases n) (simp_all add: first_page)
  ultimately show "read_pages n target None limit d = Inr ?p" by simp
qed (use get_pending_all_sorted [OF assms(1)] set_get_pending_all in simp_all)

theorem paging_complete_witness:
  "read_pages 3 '' '' None 1 two_db =
      Inr (filter (\<lambda>m. strip '' '' = [] \<or> target_projection m = strip '' '') (get_pending_all two_db)) \<and>
    sorted_wrt (<) (map inbox_order (get_pending_all two_db)) \<and>
    set (get_pending_all two_db) = {m \<in> set (messages two_db). pending_visible m}"
proof (rule paging_complete [OF store_inv_two_db])
  show "strip '' '' = [] \<or> starts_with ''channel:'' (strip '' '') \<or> starts_with ''dm:'' (strip '' '')"
    by code_simp
qed (simp_all add: two_db_def)

subsection \<open>The freshness watermark\<close>

abbreviation seq_of :: "message_row \<Rightarrow> int" where
  "seq_of m \<equiv> get_default (server_seq m) 0"

definition above_baseline :: "int option \<Rightarrow> message_row \<Rightarrow> bool" where
  "above_baseline baseline m \<longleftrightarrow> (case baseline of None \<Rightarrow> True | Some b \<Rightarrow> b < seq_of m)"

definition within_candidate :: "int option \<Rightarrow> message_row \<Rightarrow> bool" where
  "within_candidate candidate m \<longleftrightarrow> (case candidate of None \<Rightarrow> True | Some c \<Rightarrow> seq_of m \<le> c)"

text \<open>The loop computes the longest admissible prefix.\<close>

lemma visible_prefix_takeWhile:
  "visible_prefix t b c safe rows =
     (let ys = takeWhile (\<lambda>m. within_candidate c m \<and> freshness_admissible t c m) (filter (above_baseline b) rows)
      in if ys = [] then safe else Some (seq_of (last ys)))"
proof (induction rows arbitrary: safe)
  case Nil
  then show ?case by (simp add: Let_def)
next
  case (Cons m rows)
  have ab: "(case b of None \<Rightarrow> False | Some b \<Rightarrow> seq_of m \<le> b) \<longleftrightarrow> \<not> above_baseline b m"
    by (auto simp: above_baseline_def split: option.splits)
  have wc: "(case c of None \<Rightarrow> False | Some c \<Rightarrow> seq_of m > c) \<longleftrightarrow> \<not> within_candidate c m"
    by (auto simp: within_candidate_def split: option.splits)
  show ?case
    using Cons [of safe] Cons [of "Some (seq_of m)"] unfolding visible_prefix.simps Let_def ab wc by simp
qed

lemma takeWhile_bound:
  fixes k :: "'a \<Rightarrow> 'b :: linorder"
  assumes srt: "sorted_wrt (<) (map k xs)" and ne: "takeWhile P xs \<noteq> []"
  defines "s \<equiv> k (last (takeWhile P xs))"
  shows "\<exists>x\<in>set xs. k x = s \<and> P x"
    and "\<forall>x\<in>set xs. k x \<le> s \<longrightarrow> P x"
    and "\<forall>x\<in>set xs. s < k x \<longrightarrow> (\<exists>y\<in>set xs. s < k y \<and> k y \<le> k x \<and> \<not> P y)"
proof -
  let ?a = "takeWhile P xs" and ?b = "dropWhile P xs"
  have xs: "?a @ ?b = xs" by simp
  have w: "sorted_wrt (<) (map k ?a @ map k ?b)" using srt by (metis xs map_append)
  have cross: "k x < k y" if "x \<in> set ?a" "y \<in> set ?b" for x y
    using w that unfolding sorted_wrt_append by auto
  have sa: "sorted (map k ?a)" and sb: "sorted (map k ?b)"
    using w unfolding sorted_wrt_append by (auto intro: strict_sorted_imp_sorted)
  have l: "last ?a \<in> set ?a" using ne by simp
  have mem: "x \<in> set ?a \<or> x \<in> set ?b" if "x \<in> set xs" for x using that xs by (metis Un_iff set_append)
  show "\<exists>x\<in>set xs. k x = s \<and> P x" using l by (auto simp: s_def dest: set_takeWhileD)
  show "\<forall>x\<in>set xs. k x \<le> s \<longrightarrow> P x"
    using mem cross [OF l] by (fastforce simp: s_def dest: set_takeWhileD)
  show "\<forall>x\<in>set xs. s < k x \<longrightarrow> (\<exists>y\<in>set xs. s < k y \<and> k y \<le> k x \<and> \<not> P y)"
  proof (intro ballI impI)
    fix x assume x: "x \<in> set xs" "s < k x"
    have "x \<notin> set ?a" using sorted_le_last [OF sa, of x] x(2) by (auto simp: s_def)
    with mem [OF x(1)] have xb: "x \<in> set ?b" by blast
    then have b: "?b \<noteq> []" by (metis empty_iff list.set(1))
    have "hd ?b \<in> set ?b" using b by (rule hd_in_set)
    moreover have "\<not> P (hd ?b)" using b by (rule hd_dropWhile)
    moreover have "k (hd ?b) \<le> k x" using sb xb b by (cases ?b) auto
    moreover have "hd ?b \<in> set xs" using calculation(1) set_dropWhileD by metis
    ultimately show "\<exists>y\<in>set xs. s < k y \<and> k y \<le> k x \<and> \<not> P y"
      using cross [OF l] by (intro bexI [of _ "hd ?b"]) (auto simp: s_def)
  qed
qed

lemma channel_rows_sorted:
  assumes "store_inv d"
  shows "sorted_wrt (<) (map seq_of (channel_rows_by_seq space channel d))"
  unfolding strict_sorted_iff
proof
  show "sorted (map seq_of (channel_rows_by_seq space channel d))" by (simp add: channel_rows_by_seq_def)
  have "distinct (messages d)" using keysD [OF assms] by (simp add: distinct_map)
  moreover have "inj_on seq_of (set (channel_rows_by_seq space channel d))"
    using seq_unique [OF assms] by (intro inj_onI) (auto simp: channel_rows_by_seq_def channel_row_def get_default_def)
  ultimately show "distinct (map seq_of (channel_rows_by_seq space channel d))"
    by (simp add: distinct_map channel_rows_by_seq_def)
qed



subsection \<open>Prior context\<close>

lemma bounded_select_props:
  assumes "bounded_select bb L B sel used mr rows = (res, mr')"
    and "used = sum_list (map bb sel)" "used \<le> B" "int (length sel) \<le> L"
  shows "\<exists>ys. res = sel @ ys \<and> set ys \<subseteq> set rows \<and> (sorted_wrt R rows \<longrightarrow> sorted_wrt R ys)
    \<and> int (length res) \<le> L \<and> sum_list (map bb res) \<le> B \<and> (\<not> mr' \<longrightarrow> ys = rows \<and> \<not> mr)"
  using assms
proof (induction rows arbitrary: sel used mr)
  case Nil
  then show ?case by auto
next
  case (Cons m rows)
  show ?case
  proof (cases "int (length sel) \<ge> L \<or> used + bb m > B")
    case True
    then have "bounded_select bb L B sel used True rows = (res, mr')"
      using Cons.prems(1) by (auto split: if_splits)
    from Cons.IH [OF this Cons.prems(2-4)] show ?thesis by auto
  next
    case False
    then have "bounded_select bb L B (sel @ [m]) (used + bb m) mr rows = (res, mr')"
      using Cons.prems(1) by simp
    from Cons.IH [OF this] Cons.prems(2) False obtain ys where
      ys: "res = (sel @ [m]) @ ys" "set ys \<subseteq> set rows" "sorted_wrt R rows \<longrightarrow> sorted_wrt R ys"
        "int (length res) \<le> L" "sum_list (map bb res) \<le> B" "\<not> mr' \<longrightarrow> ys = rows \<and> \<not> mr" by auto
    then show ?thesis by (intro exI [of _ "m # ys"]) auto
  qed
qed

lemma prior_route_sound:
  assumes "prior_context_route anchor = Some route" "route m"
  shows "inbox_order m < inbox_order anchor \<and> (processing_state m = Some PROCESSED \<or> receipt_disposition m = Some TERMINAL)"
  using assms by (auto simp: prior_context_route_def Let_def split: if_splits)

lemma prior_context_total:
  "0 \<le> limit \<Longrightarrow> 0 \<le> max_bytes \<Longrightarrow> \<exists>page. get_prior_context_page bb anchor limit max_bytes d = Inr page"
  by (cases "prior_context_route anchor")
     (simp_all add: get_prior_context_page_def bounded_limits_def Let_def split: prod.splits)

text \<open>
  Prior context is bounded, strictly earlier, settled and in order: a page holds at most
  \<open>min limit 20\<close> rows whose bodies take at most \<open>min max_bytes 48000\<close> bytes; each is a stored row before
  the anchor in Inbox order that is processed or terminal, never pending, in a turn or held at the gate;
  they come oldest first; and when the page reports no more, it holds every row of the anchor's route.
\<close>

theorem prior_context_bounded:
  assumes "store_inv d" "get_prior_context_page bb anchor limit max_bytes d = Inr page"
  shows "int (length (pc_items page)) \<le> min limit 20 \<and>
    sum_list (map bb (pc_items page)) \<le> min max_bytes 48000 \<and>
    sorted_wrt (<) (map inbox_order (pc_items page)) \<and>
    (\<forall>m\<in>set (pc_items page). m \<in> set (messages d) \<and> inbox_order m < inbox_order anchor \<and>
       processing_state m \<notin> {Some PENDING, Some IN_TURN} \<and> not_gated m) \<and>
    (\<forall>route. prior_context_route anchor = Some route \<and> \<not> pc_has_more page \<longrightarrow>
       set (pc_items page) = {m \<in> set (messages d). route m})"
proof -
  let ?L = "min limit 20" and ?B = "min max_bytes 48000"
  have pos: "0 \<le> limit" "0 \<le> max_bytes" and bl: "bounded_limits limit max_bytes = Inr (?L, ?B)"
    using assms(2)
    by (auto simp: get_prior_context_page_def res_bind_Inr bounded_limits_def PRIOR_CONTEXT_MAX_ITEMS_def
        PRIOR_CONTEXT_MAX_BYTES_def split: if_splits)
  show ?thesis
  proof (cases "prior_context_route anchor")
    case None
    with assms(2) bl pos show ?thesis by (auto simp: get_prior_context_page_def)
  next
    case (Some route)
    let ?f = "filter route (messages d)"
    let ?all = "rev (sort_key inbox_order ?f)"
    obtain sel mr where sel: "bounded_select bb ?L ?B [] 0 False (take (nat (?L + 1)) ?all) = (sel, mr)" by force
    have page: "pc_items page = rev sel" "pc_has_more page = mr"
      using assms(2) bl Some sel by (auto simp: get_prior_context_page_def Let_def)
    let ?R = "\<lambda>a b. inbox_order b < inbox_order a"
    have "distinct (map inbox_order ?f)"
    proof -
      have "distinct (map envelope_id ?f)" using keysD [OF assms(1)] by (rule distinct_map_filter_key)
      then show ?thesis unfolding distinct_map using inbox_order_inj by (meson inj_onD inj_onI)
    qed
    then have "sorted_wrt (<) (map inbox_order (sort_key inbox_order ?f))"
      unfolding strict_sorted_iff by (simp add: distinct_map)
    then have all: "sorted_wrt ?R ?all" by (simp only: sorted_wrt_rev sorted_wrt_map)
    obtain ys where ys: "sel = [] @ ys" "set ys \<subseteq> set (take (nat (?L + 1)) ?all)"
        "sorted_wrt ?R (take (nat (?L + 1)) ?all) \<longrightarrow> sorted_wrt ?R ys"
        "int (length sel) \<le> ?L" "sum_list (map bb sel) \<le> ?B" "\<not> mr \<longrightarrow> ys = take (nat (?L + 1)) ?all \<and> \<not> False"
      using bounded_select_props [OF sel, of ?R] pos by auto
    have srt: "sorted_wrt ?R sel" using ys(1,3) all by simp
    then have c3: "sorted_wrt (<) (map inbox_order (rev sel))" by (simp only: sorted_wrt_map sorted_wrt_rev)
    have mem: "m \<in> set (messages d) \<and> route m" if "m \<in> set sel" for m
      using that ys(1,2) set_take_subset [of "nat (?L + 1)" ?all] by auto
    have c4: "m \<in> set (messages d) \<and> inbox_order m < inbox_order anchor \<and>
       processing_state m \<notin> {Some PENDING, Some IN_TURN} \<and> not_gated m" if "m \<in> set sel" for m
    proof -
      have r: "m \<in> set (messages d)" "route m" using mem [OF that] by simp_all
      have "row_wf m" using row_wfD [OF assms(1) r(1)] .
      then show ?thesis using prior_route_sound [OF Some r(2)] r(1) by (auto simp: row_wf_def not_gated_def)
    qed
    have c5: "set sel = {m \<in> set (messages d). route m}" if "\<not> mr"
    proof -
      have sel_all: "sel = take (nat (?L + 1)) ?all" using ys(1,6) that by simp
      have "length sel \<le> nat ?L" using ys(4) by linarith
      then have "length (take (nat (?L + 1)) ?all) < nat (?L + 1)" unfolding sel_all [symmetric] using pos by linarith
      then have "take (nat (?L + 1)) ?all = ?all" by simp
      with sel_all show ?thesis by auto
    qed
    have sum: "sum_list (map bb (rev sel)) = sum_list (map bb sel)"
      by (metis rev_map sum_list.rev)
    have c5': "set sel = {m \<in> set (messages d). r m}" if "prior_context_route anchor = Some r \<and> \<not> mr" for r
      using c5 Some that by simp
    show ?thesis
      unfolding page sum length_rev set_rev by (intro conjI ballI allI impI ys(4,5) c3 c5') (use c4 in blast)+
  qed
qed

theorem prior_context_bounded_witness:
  "\<exists>page. get_prior_context_page (\<lambda>_. 10 :: int) (eligible_row ''e2'' 2) 5 100 two_db = Inr page \<and>
    (int (length (pc_items page)) \<le> min 5 20 \<and>
    sum_list (map (\<lambda>_. 10 :: int) (pc_items page)) \<le> min 100 48000 \<and>
    sorted_wrt (<) (map inbox_order (pc_items page)) \<and>
    (\<forall>m\<in>set (pc_items page). m \<in> set (messages two_db) \<and> inbox_order m < inbox_order (eligible_row ''e2'' 2) \<and>
       processing_state m \<notin> {Some PENDING, Some IN_TURN} \<and> not_gated m) \<and>
    (\<forall>route. prior_context_route (eligible_row ''e2'' 2) = Some route \<and> \<not> pc_has_more page \<longrightarrow>
       set (pc_items page) = {m \<in> set (messages two_db). route m}))"
proof -
  obtain page where "get_prior_context_page (\<lambda>_. 10 :: int) (eligible_row ''e2'' 2) 5 100 two_db = Inr page"
    using prior_context_total [of 5 100 "\<lambda>_. 10"] by auto
  then show ?thesis using prior_context_bounded [OF store_inv_two_db] by blast
qed

end
