(* ===== verification/History_Reads.thy ===== *)
theory History_Reads
  imports Store_Invariant
begin

section \<open>History reads and the small tables\<close>

text \<open>
  The read side of \<open>agent/message_store.py\<close>: channel, direct-message and thread history with its
  cursors and bounds, sticky notes, and the tables that remember channel spaces, direct-message
  notices and introductions. Rows are returned as stored; the content a caller sees is
  \<open>row_content\<close>.
\<close>

subsection \<open>Existence\<close>

definition channel_exists :: "string \<Rightarrow> db \<Rightarrow> bool" where
  "channel_exists ch d \<longleftrightarrow> ch \<noteq> [] \<and> sql_exists (\<lambda>m. channel_id m = Some ch) (messages d)"

definition has_message :: "string \<Rightarrow> db \<Rightarrow> bool" where
  "has_message eid d \<longleftrightarrow> sql_exists (\<lambda>m. envelope_id m = eid) (messages d)"

definition has_dm_from :: "string \<Rightarrow> db \<Rightarrow> bool" where
  "has_dm_from sender d \<longleftrightarrow>
     sender \<noteq> [] \<and> sql_exists (\<lambda>m. envelope_kind m = ''dm'' \<and> sender_slug m = sender) (messages d)"

subsection \<open>Windows\<close>

text \<open>\<open>LIMIT\<close>: SQLite reads a negative bound as no bound.\<close>

definition sql_limit :: "int \<Rightarrow> 'r list \<Rightarrow> 'r list" where
  "sql_limit n rows = (if n < 0 then rows else take (nat n) rows)"

definition by_sent :: "message_row \<Rightarrow> int \<times> string" where
  "by_sent m = (sent_at m, envelope_id m)"

definition by_seq :: "message_row \<Rightarrow> int option \<times> string" where
  "by_seq m = (server_seq m, envelope_id m)"

text \<open>\<open>_history_order\<close>: by server sequence or by send time, ascending or descending, and whether
  the selected rows already are oldest-first.\<close>

record history_order =
  ho_by_seq :: bool
  ho_ascending :: bool
  ho_oldest_first :: bool

definition history_order ::
  "int option \<Rightarrow> int option \<Rightarrow> (int \<times> string) option \<Rightarrow> (int \<times> string) option \<Rightarrow> history_order" where
  "history_order after_seq before_seq since before =
     (if after_seq \<noteq> None
      then \<lparr>ho_by_seq = True, ho_ascending = True, ho_oldest_first = True\<rparr>
      else if before_seq \<noteq> None
      then \<lparr>ho_by_seq = True, ho_ascending = False, ho_oldest_first = False\<rparr>
      else let oldest_first = (since \<noteq> None \<and> before = None)
           in \<lparr>ho_by_seq = False, ho_ascending = oldest_first, ho_oldest_first = oldest_first\<rparr>)"

definition history_sorted :: "history_order \<Rightarrow> message_row list \<Rightarrow> message_row list" where
  "history_sorted o' rows =
     (let asc = (if ho_by_seq o' then sort_key by_seq rows else sort_key by_sent rows)
      in if ho_ascending o' then asc else rev asc)"

text \<open>ORDER BY, LIMIT, and the final reversal.\<close>

definition history_select :: "history_order \<Rightarrow> int \<Rightarrow> message_row list \<Rightarrow> message_row list" where
  "history_select o' limit rows =
     (let selected = sql_limit limit (history_sorted o' rows)
      in if ho_oldest_first o' then selected else rev selected)"

definition clamp :: "int \<Rightarrow> int \<Rightarrow> int" where
  "clamp hi limit = max 1 (min limit hi)"

text \<open>\<open>_resolve_since_sent_at\<close>: the composite cursor of a reference envelope.\<close>

definition resolve_since_sent_at :: "string option \<Rightarrow> db \<Rightarrow> (int \<times> string) option" where
  "resolve_since_sent_at eid d =
     (if \<not> truthy eid then None
      else map_option by_sent (sql_fetchone (\<lambda>m. envelope_id m = or_empty eid) (messages d)))"

record history_bounds =
  hb_since_envelope_id :: "string option"
  hb_before_envelope_id :: "string option"
  hb_before_ts :: "int option"
  hb_after_ts :: "int option"
  hb_before_seq :: "int option"
  hb_after_seq :: "int option"

text \<open>The WHERE clauses the bounds add. A cursor whose envelope is unknown adds none.\<close>

definition in_bounds :: "history_bounds \<Rightarrow> db \<Rightarrow> message_row \<Rightarrow> bool" where
  "in_bounds b d m \<longleftrightarrow>
     (case resolve_since_sent_at (hb_since_envelope_id b) d of None \<Rightarrow> True | Some c \<Rightarrow> c < by_sent m) \<and>
     (case resolve_since_sent_at (hb_before_envelope_id b) d of None \<Rightarrow> True | Some c \<Rightarrow> by_sent m < c) \<and>
     (case hb_after_ts b of None \<Rightarrow> True | Some t \<Rightarrow> t < sent_at m) \<and>
     (case hb_before_ts b of None \<Rightarrow> True | Some t \<Rightarrow> sent_at m < t) \<and>
     (case hb_after_seq b of None \<Rightarrow> True
      | Some s \<Rightarrow> (case server_seq m of None \<Rightarrow> False | Some q \<Rightarrow> s < q)) \<and>
     (case hb_before_seq b of None \<Rightarrow> True
      | Some s \<Rightarrow> (case server_seq m of None \<Rightarrow> False | Some q \<Rightarrow> q < s))"

definition bounds_order :: "history_bounds \<Rightarrow> db \<Rightarrow> history_order" where
  "bounds_order b d =
     history_order (hb_after_seq b) (hb_before_seq b)
       (resolve_since_sent_at (hb_since_envelope_id b) d)
       (resolve_since_sent_at (hb_before_envelope_id b) d)"

subsection \<open>Channels\<close>

definition get_channel_history :: "string \<Rightarrow> int \<Rightarrow> int option \<Rightarrow> db \<Rightarrow> message_row list" where
  "get_channel_history ch limit before d =
     rev (sql_limit limit (rev (sort_key by_sent (filter (\<lambda>m. channel_id m = Some ch
        \<and> (case before of None \<Rightarrow> True | Some t \<Rightarrow> sent_at m < t)) (messages d)))))"

definition get_held_reconsideration_rows ::
  "string \<Rightarrow> string \<Rightarrow> int \<Rightarrow> int \<Rightarrow> int \<Rightarrow> db \<Rightarrow> message_row list" where
  "get_held_reconsideration_rows space ch after_seq through_seq limit d =
     sql_limit (clamp 200 limit) (sort_key server_seq (filter (\<lambda>m. space_id m = Some space
        \<and> channel_id m = Some ch
        \<and> (case server_seq m of None \<Rightarrow> False | Some q \<Rightarrow> after_seq < q \<and> q \<le> through_seq)) (messages d)))"

text \<open>\<open>get_channel_roots\<close>: each root with the number of rows that point at it.\<close>

definition get_channel_roots ::
  "string \<Rightarrow> int \<Rightarrow> history_bounds \<Rightarrow> db \<Rightarrow> (message_row \<times> nat) list res" where
  "get_channel_roots ch limit b d =
     (if \<not> channel_exists ch d then Inl (DataNotFound (''channel not found: '' @ ch))
      else Inr (map (\<lambda>m. (m, sql_count (\<lambda>r. thread_root_id r = Some (envelope_id m)) (messages d)))
             (history_select (bounds_order b d) (clamp 201 limit)
               (filter (\<lambda>m. channel_id m = Some ch \<and> thread_root_id m = None \<and> in_bounds b d m)
                 (messages d)))))"

subsection \<open>Direct messages\<close>

definition get_dm_history ::
  "string \<Rightarrow> int \<Rightarrow> int option \<Rightarrow> string option \<Rightarrow> string option \<Rightarrow> db \<Rightarrow> message_row list" where
  "get_dm_history peer limit before before_envelope_id after_envelope_id d =
     (let b = \<lparr>hb_since_envelope_id = after_envelope_id, hb_before_envelope_id = before_envelope_id,
               hb_before_ts = before, hb_after_ts = None, hb_before_seq = None, hb_after_seq = None\<rparr>
      in history_select (bounds_order b d) (clamp 201 limit)
           (filter (\<lambda>m. envelope_kind m = ''dm''
              \<and> (sender_slug m = peer \<or> recipient_slug m = Some peer) \<and> not_gated m \<and> in_bounds b d m)
             (messages d)))"

subsection \<open>Threads\<close>

definition in_thread :: "string \<Rightarrow> message_row \<Rightarrow> bool" where
  "in_thread root m \<longleftrightarrow> envelope_id m = root \<or> thread_root_id m = Some root"

definition get_thread_batch :: "string \<Rightarrow> int \<Rightarrow> db \<Rightarrow> message_row list" where
  "get_thread_batch root since d =
     (if root = [] then []
      else sort_key by_sent (filter (\<lambda>m. in_thread root m \<and> since < sent_at m \<and> not_gated m) (messages d)))"

definition get_thread_messages :: "string \<Rightarrow> int \<Rightarrow> history_bounds \<Rightarrow> db \<Rightarrow> message_row list res" where
  "get_thread_messages root limit b d =
     (if root = [] then Inl (DataNotFound ''thread root not found: (empty)'')
      else if \<not> has_message root d
              \<and> \<not> sql_exists (\<lambda>m. thread_root_id m = Some root) (messages d)
      then Inl (DataNotFound (''thread root not found: '' @ root))
      else Inr (history_select (bounds_order b d) (clamp 201 limit)
             (filter (\<lambda>m. in_thread root m \<and> not_gated m \<and> in_bounds b d m) (messages d))))"

subsection \<open>Sticky notes\<close>

text \<open>\<open>LIKE 'prefix%'\<close>: SQLite folds the case of ASCII letters.\<close>

definition ascii_lower :: "char \<Rightarrow> char" where
  "ascii_lower c = (let n = of_char c :: nat in if 65 \<le> n \<and> n \<le> 90 then char_of (n + 32) else c)"

definition like_prefix :: "string \<Rightarrow> string \<Rightarrow> bool" where
  "like_prefix p s \<longleftrightarrow> map ascii_lower (take (length p) s) = map ascii_lower p"

definition is_note :: "message_row \<Rightarrow> bool" where
  "is_note m \<longleftrightarrow>
     like_prefix (CONTENT_JSON_PREFIX @ CHR 0x22 # ''/note '') (content m)
     \<or> like_prefix ''/note '' (content m)"

text \<open>The partition of the window function: a row's thread, or the row itself.\<close>

definition note_thread :: "message_row \<Rightarrow> string" where
  "note_thread m = get_default (thread_root_id m) (envelope_id m)"

definition get_channel_notes :: "string \<Rightarrow> int \<Rightarrow> db \<Rightarrow> message_row list res" where
  "get_channel_notes ch limit d =
     (if \<not> channel_exists ch d then Inl (DataNotFound (''channel not found: '' @ ch))
      else let notes = filter (\<lambda>m. channel_id m = Some ch \<and> is_note m) (messages d)
           in Inr (sql_limit (clamp 200 limit) (rev (sort_key by_sent
                (filter (\<lambda>m. \<not> list_ex (\<lambda>n. note_thread n = note_thread m \<and> by_sent m < by_sent n) notes)
                  notes)))))"

definition get_thread_notes :: "string \<Rightarrow> int \<Rightarrow> db \<Rightarrow> message_row list res" where
  "get_thread_notes root limit d =
     (if root = [] then Inl (DataNotFound ''thread root not found: (empty)'')
      else if \<not> has_message root d then Inl (DataNotFound (''thread root not found: '' @ root))
      else Inr (sql_limit (clamp 200 limit) (rev (sort_key by_sent
             (filter (\<lambda>m. in_thread root m \<and> not_gated m \<and> is_note m) (messages d))))))"

subsection \<open>Channel spaces\<close>

text \<open>The fallback takes the latest message of the channel that names a space; of several sent at
  the same time, the one stored last.\<close>

definition latest_message_space :: "string \<Rightarrow> db \<Rightarrow> string option" where
  "latest_message_space ch d =
     (case rev (sort_key sent_at (filter (\<lambda>m. channel_id m = Some ch \<and> truthy (space_id m)) (messages d))) of
        [] \<Rightarrow> None
      | m # _ \<Rightarrow> space_id m)"

definition lookup_channel_space :: "string \<Rightarrow> db \<Rightarrow> string option" where
  "lookup_channel_space ch d =
     (if ch = [] then None
      else case map_of (channel_space_map d) ch of
        Some (space, _) \<Rightarrow> if space \<noteq> [] then Some space else latest_message_space ch d
      | None \<Rightarrow> latest_message_space ch d)"

text \<open>INSERT ... ON CONFLICT DO UPDATE on a table keyed by its first column.\<close>

definition upsert :: "'k \<Rightarrow> 'v \<Rightarrow> ('k \<times> 'v) list \<Rightarrow> ('k \<times> 'v) list" where
  "upsert k v tbl =
     (if k \<in> fst ` set tbl then map (\<lambda>e. if fst e = k then (k, v) else e) tbl else tbl @ [(k, v)])"

definition mark_channel_space :: "int \<Rightarrow> string \<Rightarrow> string \<Rightarrow> db \<Rightarrow> db" where
  "mark_channel_space now ch space d =
     (if ch = [] \<or> space = [] then d
      else d\<lparr>channel_space_map := upsert ch (space, now) (channel_space_map d)\<rparr>)"

definition unmark_channel_space :: "string \<Rightarrow> db \<Rightarrow> db" where
  "unmark_channel_space ch d =
     (if ch = [] then d
      else d\<lparr>channel_space_map := sql_delete (\<lambda>e. fst e = ch) (channel_space_map d)\<rparr>)"

definition unmark_channel_space_for_space :: "string \<Rightarrow> db \<Rightarrow> db" where
  "unmark_channel_space_for_space space d =
     (if space = [] then d
      else d\<lparr>channel_space_map := sql_delete (\<lambda>e. fst (snd e) = space) (channel_space_map d)\<rparr>)"

subsection \<open>Notices and introductions\<close>

definition get_dm_notice :: "string \<Rightarrow> db \<Rightarrow> int option" where
  "get_dm_notice sender d = (if sender = [] then None else map_of (dm_notices d) sender)"

definition set_dm_notice :: "string \<Rightarrow> int \<Rightarrow> db \<Rightarrow> db" where
  "set_dm_notice sender at_ms d =
     (if sender = [] then d else d\<lparr>dm_notices := upsert sender at_ms (dm_notices d)\<rparr>)"

definition has_channel_intro_been_prompted :: "string \<Rightarrow> db \<Rightarrow> bool" where
  "has_channel_intro_been_prompted ch d \<longleftrightarrow> ch \<noteq> [] \<and> ch \<in> fst ` set (channel_intro_prompted d)"

definition mark_channel_intro_prompted :: "int \<Rightarrow> string \<Rightarrow> db \<Rightarrow> db" where
  "mark_channel_intro_prompted now ch d =
     (if ch = [] then d
      else d\<lparr>channel_intro_prompted := insert_or_ignore (channel_intro_prompted d) [(ch, now)]\<rparr>)"

end
