(* ===== verification/History_Props.thy ===== *)
theory History_Props
  imports History_Reads Receipt_Props
begin

section \<open>What the history reads show\<close>

text \<open>
  Every page is a window of the matching rows at the end the cursor asks for; walking back by the
  first envelope of a page neither repeats nor skips a row, also among rows sent in the same
  millisecond; a held direct message is withheld by every read; a channel shows the note in effect
  in each thread; and the explicit channel map overrides what messages say.
\<close>

subsection \<open>Windows of a sorted list\<close>

lemma distinct_key_comp: "distinct (map (g \<circ> k) xs) \<Longrightarrow> distinct (map k xs)"
  by (auto simp: distinct_map inj_on_def)

lemma distinct_by_keys:
  assumes "distinct (map envelope_id rows)"
  shows "distinct (map by_sent rows)" "distinct (map by_seq rows)"
proof -
  have "envelope_id = snd \<circ> by_sent" "envelope_id = snd \<circ> by_seq"
    by (simp_all add: fun_eq_iff by_sent_def by_seq_def)
  with assms show "distinct (map by_sent rows)" "distinct (map by_seq rows)"
    by (metis distinct_key_comp)+
qed

lemma strict_sort_key:
  assumes "distinct (map k xs)"
  shows "sorted_wrt (\<lambda>x y. k x < k y) (sort_key k xs)"
proof -
  have "distinct (map k (sort_key k xs))"
    using assms by (simp add: distinct_map)
  then have "sorted_wrt (<) (map k (sort_key k xs))"
    by (simp add: strict_sorted_iff)
  then show ?thesis by (simp add: sorted_wrt_map)
qed

lemma sql_limit_pos: "0 \<le> n \<Longrightarrow> sql_limit n xs = take (nat n) xs"
  by (simp add: sql_limit_def)

lemma clamp_pos [simp]: "0 \<le> clamp hi limit" "\<not> clamp hi limit < 0"
  by (simp_all add: clamp_def)

lemma rev_take_rev: "rev (take n (rev xs)) = drop (length xs - n) xs"
  by (simp add: take_rev)

lemma sorted_wrt_between: "sorted_wrt R (xs @ ys) \<Longrightarrow> x \<in> set xs \<Longrightarrow> y \<in> set ys \<Longrightarrow> R x y"
  by (simp add: sorted_wrt_append)

lemma sorted_wrt_parts:
  assumes "sorted_wrt R xs"
  shows "sorted_wrt R (take n xs)" "sorted_wrt R (drop n xs)"
    "\<And>x y. x \<in> set (take n xs) \<Longrightarrow> y \<in> set (drop n xs) \<Longrightarrow> R x y"
  using assms sorted_wrt_append [of R "take n xs" "drop n xs"] by simp_all

lemma filter_below_window:
  fixes k :: "'a \<Rightarrow> 'k::linorder"
  assumes "sorted_wrt (\<lambda>x y. k x < k y) xs" "drop i xs \<noteq> []"
  shows "filter (\<lambda>x. k x < k (hd (drop i xs))) xs = take i xs"
proof -
  obtain y ys where y: "drop i xs = y # ys" using assms(2) by (cases "drop i xs") auto
  have "\<forall>x\<in>set (take i xs). k x < k y" using sorted_wrt_parts(3) [OF assms(1), of _ i y] y by simp
  moreover have "\<forall>x\<in>set (y # ys). \<not> k x < k y"
    using sorted_wrt_parts(2) [OF assms(1), of i] y by auto
  ultimately have "filter (\<lambda>x. k x < k y) (take i xs @ drop i xs) = take i xs"
    by (simp only: filter_append y) simp
  then show ?thesis unfolding append_take_drop_id by (simp add: y)
qed

subsection \<open>The page a history read returns\<close>

definition history_before :: "history_order \<Rightarrow> message_row \<Rightarrow> message_row \<Rightarrow> bool" where
  "history_before o' x y \<longleftrightarrow> (if ho_by_seq o' then by_seq x < by_seq y else by_sent x < by_sent y)"

definition history_asc :: "history_order \<Rightarrow> message_row list \<Rightarrow> message_row list" where
  "history_asc o' rows = (if ho_by_seq o' then sort_key by_seq rows else sort_key by_sent rows)"

lemma history_asc_sorted:
  assumes "distinct (map envelope_id rows)"
  shows "sorted_wrt (history_before o') (history_asc o' rows)"
  using strict_sort_key [OF distinct_by_keys(1) [OF assms]] strict_sort_key [OF distinct_by_keys(2) [OF assms]]
  by (cases "ho_by_seq o'") (simp_all add: history_asc_def history_before_def [abs_def])

lemma history_asc_props [simp]:
  "set (history_asc o' rows) = set rows" "length (history_asc o' rows) = length rows"
  "distinct (history_asc o' rows) = distinct rows"
  by (simp_all add: history_asc_def)

lemma bounds_order_direction [simp]: "ho_ascending (bounds_order b d) = ho_oldest_first (bounds_order b d)"
  by (simp add: bounds_order_def history_order_def Let_def)

lemma history_select_window:
  assumes "0 \<le> n" "ho_ascending o' = ho_oldest_first o'"
  shows "history_select o' n rows =
    (if ho_oldest_first o' then take (nat n) (history_asc o' rows)
     else drop (length rows - nat n) (history_asc o' rows))"
  using assms rev_take_rev [of "nat n" "history_asc o' rows"]
  by (simp add: history_select_def history_sorted_def history_asc_def sql_limit_pos Let_def)

lemma history_page_exact:
  assumes "distinct (map envelope_id rows)" "0 \<le> n" "ho_ascending o' = ho_oldest_first o'"
  defines "page \<equiv> history_select o' n rows"
  shows "set page \<subseteq> set rows" "length page = min (nat n) (length rows)"
    "sorted_wrt (history_before o') page"
    "\<And>x y. x \<in> set rows \<Longrightarrow> x \<notin> set page \<Longrightarrow> y \<in> set page \<Longrightarrow>
       if ho_oldest_first o' then history_before o' y x else history_before o' x y"
proof -
  let ?asc = "history_asc o' rows"
  note p = page_def [unfolded history_select_window [OF assms(2,3)]]
  note s = sorted_wrt_parts [OF history_asc_sorted [OF assms(1), of o']]
  show "set page \<subseteq> set rows"
    using set_take_subset [of "nat n" ?asc] set_drop_subset [of "length rows - nat n" ?asc] by (simp add: p)
  show "length page = min (nat n) (length rows)" by (simp add: p min_def)
  show "sorted_wrt (history_before o') page" using s(1,2) by (simp add: p)
  fix x y assume x: "x \<in> set rows" "x \<notin> set page" and y: "y \<in> set page"
  have "x \<in> set (take i ?asc) \<or> x \<in> set (drop i ?asc)" for i
    using x(1) by (metis Un_iff append_take_drop_id history_asc_props(1) set_append)
  with x(2) y s(3) show "if ho_oldest_first o' then history_before o' y x else history_before o' x y"
    by (auto simp: p split: if_splits)
qed

lemma distinct_ids: "store_inv d \<Longrightarrow> distinct (map envelope_id (filter P (messages d)))"
  by (simp add: store_inv_def inv_messages_def distinct_map_filter_key)

text \<open>The rows a thread page is a window of.\<close>

definition thread_rows :: "string \<Rightarrow> history_bounds \<Rightarrow> db \<Rightarrow> message_row list" where
  "thread_rows root b d =
     filter (\<lambda>m. in_thread root m \<and> not_gated m \<and> in_bounds b d m) (messages d)"

text \<open>
  A thread page is exact: the rows of the thread that are not held and lie within the bounds,
  as many as the clamped limit allows, in strictly ascending order, and none left out lies on the
  wanted side: a page read forward from a lower cursor leaves out only later rows, every other page
  only earlier ones.
\<close>

theorem thread_page_exact:
  assumes "store_inv d" "get_thread_messages root limit b d = Inr page"
  shows "set page \<subseteq> set (thread_rows root b d) \<and>
    length page = min (nat (clamp 201 limit)) (length (thread_rows root b d)) \<and>
    sorted_wrt (history_before (bounds_order b d)) page \<and>
    (\<forall>x\<in>set (thread_rows root b d) - set page. \<forall>y\<in>set page.
       if ho_oldest_first (bounds_order b d) then history_before (bounds_order b d) y x
       else history_before (bounds_order b d) x y)"
proof -
  have page: "page = history_select (bounds_order b d) (clamp 201 limit) (thread_rows root b d)"
    using assms(2) by (auto simp: get_thread_messages_def thread_rows_def split: if_splits)
  have ids: "distinct (map envelope_id (thread_rows root b d))"
    unfolding thread_rows_def by (rule distinct_ids [OF assms(1)])
  note e = history_page_exact [OF ids clamp_pos(1) [of 201 limit] bounds_order_direction [of b d], folded page]
  show ?thesis by (intro conjI ballI e) (use e(1-3) in simp_all)
qed

text \<open>Four rows of one thread; two of them share a time stamp, one is held.\<close>

definition thread_db :: db where
  "thread_db = empty_db\<lparr>messages :=
     [(sample_row ''a'')\<lparr>sent_at := 1\<rparr>,
      (sample_row ''c'')\<lparr>sent_at := 2, thread_root_id := Some ''a''\<rparr>,
      (sample_row ''b'')\<lparr>sent_at := 2, thread_root_id := Some ''a''\<rparr>,
      (sample_row ''d'')\<lparr>sent_at := 3, thread_root_id := Some ''a'',
         receipt_disposition := Some FOREIGN_DM_GATED\<rparr>]\<rparr>"

lemma store_inv_thread_db: "store_inv thread_db"
  by (simp add: store_inv_def inv_messages_def inv_turns_def inv_notice_def empty_db_def thread_db_def
      initial_notice_def contributions_ok_def generations_ok_def sql_count_def
      told_all_def pending_ids_def row_wf_def is_pending_def map_filter_simps)

definition no_bounds :: history_bounds where
  "no_bounds = \<lparr>hb_since_envelope_id = None, hb_before_envelope_id = None, hb_before_ts = None,
     hb_after_ts = None, hb_before_seq = None, hb_after_seq = None\<rparr>"

definition thread_page :: "message_row list" where
  "thread_page = (case get_thread_messages ''a'' 2 no_bounds thread_db of Inl _ \<Rightarrow> [] | Inr ms \<Rightarrow> ms)"

lemma thread_page_ids: "map envelope_id thread_page = [''b'', ''c'']"
  by code_simp

lemma thread_page_read: "get_thread_messages ''a'' 2 no_bounds thread_db = Inr thread_page"
proof -
  have "\<not> (case get_thread_messages ''a'' 2 no_bounds thread_db of Inl _ \<Rightarrow> True | Inr _ \<Rightarrow> False)"
    by code_simp
  then show ?thesis by (simp add: thread_page_def split: sum.splits)
qed

theorem thread_page_exact_witness:
  "map envelope_id thread_page = [''b'', ''c''] \<and>
   length thread_page = min (nat (clamp 201 2)) (length (thread_rows ''a'' no_bounds thread_db))"
  using thread_page_exact [OF store_inv_thread_db thread_page_read] thread_page_ids by simp

subsection \<open>Walking back through a direct-message history\<close>

text \<open>The whole timeline of a peer below an optional time, oldest first.\<close>

definition dm_timeline :: "string \<Rightarrow> int option \<Rightarrow> db \<Rightarrow> message_row list" where
  "dm_timeline peer before d =
     sort_key by_sent (filter (\<lambda>m. envelope_kind m = ''dm'' \<and>
       (sender_slug m = peer \<or> recipient_slug m = Some peer) \<and> not_gated m \<and>
       (case before of None \<Rightarrow> True | Some t \<Rightarrow> sent_at m < t)) (messages d))"

lemma dm_timeline_sorted:
  "store_inv d \<Longrightarrow> sorted_wrt (\<lambda>x y. by_sent x < by_sent y) (dm_timeline peer before d)"
  unfolding dm_timeline_def by (intro strict_sort_key distinct_by_keys distinct_ids)

lemma dm_last_page:
  "get_dm_history peer limit before None None d =
     drop (length (dm_timeline peer before d) - nat (clamp 201 limit)) (dm_timeline peer before d)"
  by (simp add: get_dm_history_def Let_def history_select_window history_asc_def dm_timeline_def
      bounds_order_def history_order_def in_bounds_def resolve_since_sent_at_def truthy_def)

lemma dm_older_page:
  assumes "store_inv d" "m \<in> set (messages d)" "envelope_id m \<noteq> []"
  shows "get_dm_history peer limit before (Some (envelope_id m)) None d =
    (let older = filter (\<lambda>x. by_sent x < by_sent m) (dm_timeline peer before d)
     in drop (length older - nat (clamp 201 limit)) older)"
proof -
  have "distinct (map envelope_id (messages d))"
    using assms(1) by (simp add: store_inv_def inv_messages_def)
  from sql_fetchone_key [OF this assms(2)]
  have c: "resolve_since_sent_at (Some (envelope_id m)) d = Some (by_sent m)"
    using assms(3) by (simp add: resolve_since_sent_at_def truthy_def or_empty_def get_default_def)
  have n: "resolve_since_sent_at None d = None"
    by (simp add: resolve_since_sent_at_def truthy_def)
  show ?thesis
    by (simp add: get_dm_history_def Let_def history_select_window history_asc_def dm_timeline_def
        bounds_order_def history_order_def in_bounds_def c n filter_sort conj_ac)
qed

text \<open>
  Reverse pagination of a direct-message history is exact: the page before the first envelope
  of a page, followed by that page, is the end of the peer's timeline as one read of the combined
  length would show it. No row is repeated and none is skipped, also when several messages carry the
  same time stamp.
\<close>

theorem dm_reverse_paging:
  assumes "store_inv d" "get_dm_history peer limit before None None d = page" "page \<noteq> []"
    "envelope_id (hd page) \<noteq> []"
  shows "get_dm_history peer limit2 before (Some (envelope_id (hd page))) None d @ page =
    drop (length (dm_timeline peer before d) - (length page + nat (clamp 201 limit2)))
      (dm_timeline peer before d)"
proof -
  let ?t = "dm_timeline peer before d"
  define i where "i = length ?t - nat (clamp 201 limit)"
  have page: "page = drop i ?t" using assms(2) by (simp add: dm_last_page i_def)
  then have "hd page \<in> set ?t" using assms(3) by (metis hd_in_set in_set_dropD)
  then have hd: "hd page \<in> set (messages d)" by (simp add: dm_timeline_def)
  have i: "i \<le> length ?t" by (simp add: i_def)
  have "filter (\<lambda>x. by_sent x < by_sent (hd page)) ?t = take i ?t"
    unfolding page by (rule filter_below_window [OF dm_timeline_sorted [OF assms(1)]]) (use assms(3) page in simp)
  then have "get_dm_history peer limit2 before (Some (envelope_id (hd page))) None d =
      drop (i - nat (clamp 201 limit2)) (take i ?t)"
    using i by (simp add: dm_older_page [OF assms(1) hd assms(4)] Let_def min_absorb2)
  moreover have "drop (i - k) (take i ?t) @ drop i ?t = drop (i - k) ?t" for k
    by (metis append_take_drop_id diff_le_self drop_append diff_is_0_eq drop0 i length_take min_absorb2)
  moreover have "length ?t - (length page + k) = i - k" for k
    using i by (simp add: page)
  ultimately show ?thesis using page by simp
qed

lemma dm_page_ids:
  "map envelope_id (get_dm_history ''alice'' 1 None None None thread_db) = [''c'']"
  by code_simp

theorem dm_reverse_paging_witness:
  "get_dm_history ''alice'' 5 None (Some ''c'') None thread_db @ get_dm_history ''alice'' 1 None None None thread_db =
    drop (length (dm_timeline ''alice'' None thread_db) - (1 + nat (clamp 201 5))) (dm_timeline ''alice'' None thread_db)"
proof -
  obtain m where m: "get_dm_history ''alice'' 1 None None None thread_db = [m]" "envelope_id m = ''c''"
    using dm_page_ids by (auto simp: map_eq_Cons_conv)
  show ?thesis
    using dm_reverse_paging [OF store_inv_thread_db m(1), of 5] m by simp
qed

subsection \<open>Held direct messages\<close>

lemma in_history_selectD: "x \<in> set (history_select o' n rows) \<Longrightarrow> x \<in> set rows"
  by (auto simp: history_select_def history_sorted_def sql_limit_def Let_def
      dest: in_set_takeD split: if_splits)

text \<open>
  C28. A held foreign direct message is withheld everywhere: while its row is gated, it is in no page
  of a direct-message history, in no thread page, batch or note list, is not found by its envelope,
  and is not among the pending rows the Inbox pushes.
\<close>

theorem gated_withheld:
  assumes "store_inv d" "m \<in> set (messages d)" "receipt_disposition m = Some FOREIGN_DM_GATED"
  shows "m \<notin> set (get_dm_history peer limit before be ae d) \<and>
    m \<notin> set (get_thread_batch root since d) \<and>
    (\<forall>ms. get_thread_messages root limit b d = Inr ms \<longrightarrow> m \<notin> set ms) \<and>
    (\<forall>ms. get_thread_notes root limit d = Inr ms \<longrightarrow> m \<notin> set ms) \<and>
    get_visible_message_by_envelope (envelope_id m) d = None \<and>
    m \<notin> set (get_pending_all d)"
proof -
  have gated: "\<not> not_gated m" using assms(3) by (simp add: not_gated_def)
  have same: "x = m" if "x \<in> set (messages d)" "envelope_id x = envelope_id m" for x
    using message_pk.same_key assms that by (metis store_inv_def inv_messages_def)
  have "\<not> is_pending m"
    using assms by (auto simp: store_inv_def inv_messages_def row_wf_def is_pending_def)
  moreover have "get_visible_message_by_envelope (envelope_id m) d = None"
    using gated same by (auto simp: get_visible_message_by_envelope_def sql_fetchone_None)
  ultimately show ?thesis
    using gated
    by (auto simp: get_dm_history_def get_thread_batch_def get_thread_messages_def get_thread_notes_def
        get_pending_all_def pending_visible_def sql_limit_def Let_def
        dest!: in_set_takeD in_history_selectD split: if_splits)
qed

theorem gated_withheld_witness:
  "get_visible_message_by_envelope ''e1'' gated_db = None \<and>
   gated_row \<notin> set (get_dm_history ''alice'' 50 None None None gated_db)"
proof -
  have "gated_row \<in> set (messages gated_db)" "receipt_disposition gated_row = Some FOREIGN_DM_GATED"
    "envelope_id gated_row = ''e1''"
    by (simp_all add: gated_db_def gated_row_def)
  from gated_withheld [OF store_inv_gated_db this(1,2)] this(3) show ?thesis by simp
qed

subsection \<open>Sticky notes\<close>

text \<open>The notes of a channel.\<close>

definition channel_note_rows :: "string \<Rightarrow> db \<Rightarrow> message_row list" where
  "channel_note_rows ch d = filter (\<lambda>m. channel_id m = Some ch \<and> is_note m) (messages d)"

text \<open>The rows the window function numbers first: no other note of the thread is later.\<close>

definition newest_notes :: "message_row list \<Rightarrow> message_row list" where
  "newest_notes notes =
     filter (\<lambda>m. \<not> list_ex (\<lambda>n. note_thread n = note_thread m \<and> by_sent m < by_sent n) notes) notes"

lemma newest_notes_best:
  "n \<in> set (newest_notes notes) \<Longrightarrow> m \<in> set notes \<Longrightarrow> note_thread m = note_thread n \<Longrightarrow> by_sent m \<le> by_sent n"
  by (auto simp: newest_notes_def list_ex_iff not_less)

lemma newest_notes_subset: "set (newest_notes notes) \<subseteq> set notes"
  by (auto simp: newest_notes_def)

lemma inj_newest_notes:
  assumes "distinct (map envelope_id notes)"
  shows "inj_on note_thread (set (newest_notes notes))"
proof (rule inj_onI)
  fix x y assume xy: "x \<in> set (newest_notes notes)" "y \<in> set (newest_notes notes)" "note_thread x = note_thread y"
  then have "x \<in> set notes" "y \<in> set notes" using newest_notes_subset by auto
  moreover from this xy have "by_sent x = by_sent y"
    using newest_notes_best by (simp add: order_antisym)
  ultimately show "x = y"
    using distinct_by_keys(1) [OF assms] by (auto simp: distinct_map dest: inj_onD)
qed

lemma newest_per_thread: "note_thread ` set (newest_notes notes) = note_thread ` set notes"
proof
  show "note_thread ` set notes \<subseteq> note_thread ` set (newest_notes notes)"
  proof (rule image_subsetI)
    fix m assume m: "m \<in> set notes"
    let ?G = "{n \<in> set notes. note_thread n = note_thread m}"
    have "Max (by_sent ` ?G) \<in> by_sent ` ?G" using m by (intro Max_in) auto
    then obtain n where n: "n \<in> ?G" "by_sent n = Max (by_sent ` ?G)" by auto
    then have "\<forall>x\<in>?G. by_sent x \<le> by_sent n" by simp
    with n(1) have "n \<in> set (newest_notes notes)"
      by (auto simp: newest_notes_def list_ex_iff not_less)
    with n(1) show "note_thread m \<in> note_thread ` set (newest_notes notes)" by (auto intro: rev_image_eqI)
  qed
qed (use newest_notes_subset in blast)

lemma channel_notes_list:
  assumes "get_channel_notes ch limit d = Inr ns"
  shows "ns = take (nat (clamp 200 limit)) (rev (sort_key by_sent (newest_notes (channel_note_rows ch d))))"
  using assms
  by (simp add: get_channel_notes_def channel_note_rows_def newest_notes_def sql_limit_pos Let_def split: if_splits)

text \<open>
  A channel shows the note in effect in each thread: the rows returned are notes of the channel,
  newest first, at most one per thread, each no older than any other note of its thread; and when the
  limit is not exceeded every thread that has a note is represented.
\<close>

theorem channel_notes_in_effect:
  assumes "store_inv d" "get_channel_notes ch limit d = Inr ns"
  shows "set ns \<subseteq> set (channel_note_rows ch d) \<and>
    sorted_wrt (\<lambda>x y. by_sent y < by_sent x) ns \<and>
    distinct (map note_thread ns) \<and>
    (\<forall>n\<in>set ns. \<forall>m\<in>set (channel_note_rows ch d). note_thread m = note_thread n \<longrightarrow> by_sent m \<le> by_sent n) \<and>
    length ns \<le> nat (clamp 200 limit) \<and>
    (length ns < nat (clamp 200 limit) \<longrightarrow> note_thread ` set ns = note_thread ` set (channel_note_rows ch d))"
proof -
  let ?rows = "channel_note_rows ch d" and ?k = "nat (clamp 200 limit)"
  let ?desc = "rev (sort_key by_sent (newest_notes ?rows))"
  note ns = channel_notes_list [OF assms(2)]
  have ids: "distinct (map envelope_id ?rows)"
    unfolding channel_note_rows_def by (rule distinct_ids [OF assms(1)])
  then have ids': "distinct (map envelope_id (newest_notes ?rows))"
    unfolding newest_notes_def by (rule distinct_map_filter_key)
  have strict: "sorted_wrt (\<lambda>x y. by_sent y < by_sent x) ?desc"
    unfolding sorted_wrt_rev by (rule strict_sort_key [OF distinct_by_keys(1) [OF ids']])
  have "distinct ?desc" using ids' by (auto simp: distinct_map)
  then have threads: "distinct (map note_thread ?desc)"
    using inj_newest_notes [OF ids] by (simp add: distinct_map)
  have sub: "set ns \<subseteq> set (newest_notes ?rows)"
    unfolding ns using set_take_subset [of ?k ?desc] by simp
  have "ns = ?desc" if "length ns < ?k" using that by (simp add: ns)
  then have all: "note_thread ` set ns = note_thread ` set ?rows" if "length ns < ?k"
    using that newest_per_thread [of ?rows] by simp
  show ?thesis
  proof (intro conjI impI ballI)
    show "set ns \<subseteq> set ?rows" using sub newest_notes_subset by blast
    show "sorted_wrt (\<lambda>x y. by_sent y < by_sent x) ns"
      unfolding ns by (rule sorted_wrt_parts(1) [OF strict])
    show "distinct (map note_thread ns)"
      unfolding ns take_map [symmetric] by (rule distinct_take [OF threads])
    show "by_sent m \<le> by_sent n" if "n \<in> set ns" "m \<in> set ?rows" "note_thread m = note_thread n" for n m
      using newest_notes_best that sub by blast
    show "length ns \<le> ?k" by (simp add: ns)
  qed (rule all)
qed

definition notes_db :: db where
  "notes_db = empty_db\<lparr>messages :=
     [(sample_row ''a'')\<lparr>sent_at := 1, channel_id := Some ''c1'', content := ''/note old''\<rparr>,
      (sample_row ''b'')\<lparr>sent_at := 2, channel_id := Some ''c1'', thread_root_id := Some ''a'', content := ''/NOTE new''\<rparr>,
      (sample_row ''x'')\<lparr>sent_at := 3, channel_id := Some ''c1'', content := ''plain''\<rparr>]\<rparr>"

lemma store_inv_notes_db: "store_inv notes_db"
  by (simp add: store_inv_def inv_messages_def inv_turns_def inv_notice_def empty_db_def notes_db_def
      initial_notice_def contributions_ok_def generations_ok_def sql_count_def
      told_all_def pending_ids_def row_wf_def is_pending_def map_filter_simps)

definition shown_notes :: "message_row list" where
  "shown_notes = (case get_channel_notes ''c1'' 20 notes_db of Inl _ \<Rightarrow> [] | Inr ms \<Rightarrow> ms)"

lemma shown_notes_ids: "map envelope_id shown_notes = [''b'']"
  by code_simp

lemma shown_notes_read: "get_channel_notes ''c1'' 20 notes_db = Inr shown_notes"
proof -
  have "\<not> (case get_channel_notes ''c1'' 20 notes_db of Inl _ \<Rightarrow> True | Inr _ \<Rightarrow> False)"
    by code_simp
  then show ?thesis by (simp add: shown_notes_def split: sum.splits)
qed

theorem channel_notes_in_effect_witness:
  "map envelope_id shown_notes = [''b''] \<and> distinct (map note_thread shown_notes)"
  using channel_notes_in_effect [OF store_inv_notes_db shown_notes_read] shown_notes_ids by simp

subsection \<open>Channel spaces\<close>

lemma map_of_upsert: "map_of (upsert k v tbl) = (map_of tbl)(k \<mapsto> v)"
proof (cases "k \<in> fst ` set tbl")
  case True
  have "map_of (map (\<lambda>e. if fst e = k then (k, v) else e) tbl) x =
      map_option (\<lambda>y. if x = k then v else y) (map_of tbl x)" for x
    by (induction tbl) auto
  moreover obtain y where "map_of tbl k = Some y" using True by (metis map_of_eq_None_iff option.exhaust)
  ultimately show ?thesis using True by (simp add: upsert_def fun_eq_iff option.map_ident)
next
  case False
  then have "map_of tbl k = None" by (simp add: map_of_eq_None_iff)
  with False show ?thesis by (auto simp: upsert_def fun_eq_iff map_add_def split: option.splits)
qed

lemma latest_message_space_map [simp]:
  "latest_message_space ch (d\<lparr>channel_space_map := x\<rparr>) = latest_message_space ch d"
  by (simp add: latest_message_space_def)

lemma map_of_sql_delete_key: "map_of (sql_delete (\<lambda>e. fst e = k) tbl) = (map_of tbl)(k := None)"
  by (induction tbl) (auto simp: sql_delete_def fun_eq_iff)

text \<open>
  The explicit channel map: after a mark the channel resolves to the marked space whatever its
  messages say, marking again replaces it, dropping the mark falls back to the latest message that
  names a space, and no step touches another channel.
\<close>

theorem channel_space_round_trip:
  assumes "ch \<noteq> []" "space \<noteq> []"
  shows "lookup_channel_space ch (mark_channel_space now ch space d) = Some space \<and>
    lookup_channel_space ch (mark_channel_space now ch space (mark_channel_space now' ch space' d)) = Some space \<and>
    lookup_channel_space ch (unmark_channel_space ch (mark_channel_space now ch space d)) = latest_message_space ch d \<and>
    (other \<noteq> ch \<longrightarrow>
       lookup_channel_space other (mark_channel_space now ch space d) = lookup_channel_space other d \<and>
       lookup_channel_space other (unmark_channel_space ch d) = lookup_channel_space other d)"
  using assms
  by (auto simp: lookup_channel_space_def mark_channel_space_def unmark_channel_space_def map_of_upsert
      map_of_sql_delete_key split: option.splits)

theorem channel_space_round_trip_witness:
  "lookup_channel_space ''c1'' (mark_channel_space 5 ''c1'' ''s1'' notes_db) = Some ''s1'' \<and>
   lookup_channel_space ''c1'' (unmark_channel_space ''c1'' (mark_channel_space 5 ''c1'' ''s1'' notes_db)) =
     latest_message_space ''c1'' notes_db"
  using channel_space_round_trip [of "''c1''" "''s1''" 5 notes_db] by simp

end
