(* ===== verification/Notice_Props.thy ===== *)
theory Notice_Props
  imports Notice_Delivery Receipt_Props
begin

section \<open>Notices as announcements\<close>

text \<open>
  The abstract specification of the notice row: the outstanding (pending) rows and, per provider
  session, the rows it has been told of. The generation counters, the contribution table and the
  delivered generation of \<open>agent/inbox_store.py\<close> implement it: a session is due when some
  outstanding row was not announced to it, marking announces, releasing retracts.
\<close>

record board =
  outstanding :: "string set"
  told :: "string \<Rightarrow> string set"

definition board_of :: "db \<Rightarrow> board" where
  "board_of d = \<lparr>outstanding = pending_ids d, told = announced_to d\<rparr>"

definition board_due :: "string \<Rightarrow> board \<Rightarrow> bool" where
  "board_due s v \<longleftrightarrow> outstanding v - told v s \<noteq> {}"

text \<open>Announcing to a session forgets what another one was told.\<close>

definition announce :: "string \<Rightarrow> string set \<Rightarrow> board \<Rightarrow> board" where
  "announce s ids v = v\<lparr>told := (\<lambda>_. {})(s := told v s \<union> (ids \<inter> outstanding v))\<rparr>"

definition retract :: "string \<Rightarrow> string set \<Rightarrow> board \<Rightarrow> board" where
  "retract s ids v = v\<lparr>told := (told v)(s := told v s - ids)\<rparr>"

subsection \<open>The interface a notifier relies on\<close>

locale notice_board =
  fixes ok :: "'d \<Rightarrow> bool" and valid :: "string \<Rightarrow> bool" and view :: "'d \<Rightarrow> board"
    and due :: "'d \<Rightarrow> string \<Rightarrow> bool"
    and mark release :: "string \<Rightarrow> string list \<Rightarrow> 'd \<Rightarrow> 'd"
  assumes due_iff: "ok d \<Longrightarrow> valid s \<Longrightarrow> due d s \<longleftrightarrow> board_due s (view d)"
    and mark_ok: "ok d \<Longrightarrow> ok (mark s ids d)"
    and mark_view: "ok d \<Longrightarrow> valid s \<Longrightarrow> distinct ids \<Longrightarrow> set ids \<inter> outstanding (view d) \<noteq> {}
      \<Longrightarrow> view (mark s ids d) = announce s (set ids) (view d)"
    and release_ok: "ok d \<Longrightarrow> ok (release s ids d)"
    and release_view: "ok d \<Longrightarrow> valid s \<Longrightarrow> distinct ids \<Longrightarrow> view (release s ids d) = retract s (set ids) (view d)"
begin

text \<open>A session that was told of everything is quiet; any other session is due.\<close>

lemma told_all_quiet:
  assumes "ok d" "valid s" "distinct ids" "set ids = outstanding (view d)" "ids \<noteq> []"
  shows "\<not> due (mark s ids d) s" and "valid t \<Longrightarrow> t \<noteq> s \<Longrightarrow> due (mark s ids d) t"
proof -
  have "outstanding (view d) \<noteq> {}" using assms(4,5) by (metis set_empty)
  with mark_view [OF assms(1,2,3)] assms(4)
  have v: "view (mark s ids d) = announce s (set ids) (view d)" by simp
  show "\<not> due (mark s ids d) s"
    using due_iff [OF mark_ok [OF assms(1)] assms(2)] assms(4) by (simp add: v board_due_def announce_def)
  show "due (mark s ids d) t" if "valid t" "t \<noteq> s"
    using due_iff [OF mark_ok [OF assms(1)] that(1)] that(2) \<open>outstanding (view d) \<noteq> {}\<close>
    by (simp add: v board_due_def announce_def)
qed

text \<open>A released row makes its session due again.\<close>

lemma released_due:
  assumes "ok d" "valid s" "distinct ids" "set ids \<inter> outstanding (view d) \<noteq> {}"
  shows "due (release s ids d) s"
  using due_iff [OF release_ok [OF assms(1)] assms(2)] release_view [OF assms(1,2,3)] assms(4)
  by (auto simp: board_due_def retract_def)

text \<open>Marking and then releasing the same rows leaves the session told of the others only.\<close>

lemma mark_release:
  assumes "ok d" "valid s" "distinct ids" "set ids \<inter> outstanding (view d) \<noteq> {}"
  shows "told (view (release s ids (mark s ids d))) s = told (view d) s - set ids"
  using release_view [OF mark_ok [OF assms(1)] assms(2,3)] mark_view [OF assms]
  by (auto simp: retract_def announce_def)

end

subsection \<open>The store implements it\<close>

lemma announced_to_sub: "store_inv d \<Longrightarrow> announced_to d s \<subseteq> pending_ids d"
  by (auto simp: announced_to_def store_inv_def inv_notice_def)

lemma pending_count_pos:
  assumes "store_inv d" "pending_ids d \<noteq> {}"
  shows "0 < pending_count (notice d)"
proof -
  have "finite (pending_ids d)" by (simp add: pending_ids_def)
  with assms show ?thesis
    by (simp add: store_inv_def inv_messages_def inv_notice_def count_pending_card card_gt_0_iff)
qed

lemma mark_board:
  assumes "store_inv d" "s \<noteq> []" "distinct ids" "set ids \<inter> pending_ids d \<noteq> {}"
    "0 \<le> gen" "gen \<le> generation (notice d)"
  shows "board_of (snd (mark_notice_delivered gen (Some s) (Some ids) None d)) = announce s (set ids) (board_of d)"
proof -
  let ?d = "snd (mark_notice_delivered gen (Some s) (Some ids) None d)"
  let ?cs0 = "if last_delivered_provider_session_id (notice d) \<noteq> Some s then [] else notice_contributions d"
  have inv: "inv_notice d" and ok: "contributions_ok d"
    using assms(1) by (simp_all add: store_inv_def inv_notice_def)
  have ne: "ids \<noteq> []" "pending_ids d \<noteq> {}" "announced ids d \<noteq> {}" using assms(4) by (auto simp: announced_def)
  note c = mark_contributions [OF inv, of s ids]
  have pids: "sorted_list_of_set (batched_select_ids envelope_id is_pending (messages d) ids) \<noteq> []"
    using ne(3) marked_ids [of d ids] by (metis set_empty)
  have cs: "notice_contributions ?d = insert_or_ignore ?cs0 (map (\<lambda>i. (i, s))
      (sorted_list_of_set (batched_select_ids envelope_id is_pending (messages d) ids)))"
    using assms(2,3,5,6) ne(1) pids pending_count_pos [OF assms(1) ne(2)]
    by (simp add: mark_notice_delivered_def mark_notice_delivered_unlocked_def valid_notice_acceptance_def
        truthy_def or_empty_def get_default_def distinct_card Let_def)
  have "pending_ids ?d = pending_ids d"
    by (simp add: pending_ids_def mark_notice_delivered_def mark_unlocked_frame Let_def)
  moreover have "announced_to ?d t = (if t = s then announced_to d s \<union> (set ids \<inter> pending_ids d) else {})" for t
  proof -
    have "announced_to ?d t = (if t = s then fst ` set (notice_contributions ?d) else {})"
      using c(4) unfolding announced_to_def cs by auto
    also have "fst ` set (notice_contributions ?d) = fst ` set ?cs0 \<union> announced ids d"
      using c(2) unfolding cs .
    also have "fst ` set ?cs0 = announced_to d s" by (simp add: announced_to_last [OF ok])
    finally show ?thesis by (simp add: announced_def)
  qed
  ultimately show ?thesis by (simp add: board_of_def announce_def fun_eq_iff)
qed

lemma release_board:
  assumes "store_inv d" "s \<noteq> []" "case mids of None \<Rightarrow> True | Some ids \<Rightarrow> distinct ids"
  shows "board_of (snd (release_notice_delivery (Some s) mids d)) =
    retract s (case mids of None \<Rightarrow> pending_ids d | Some ids \<Rightarrow> set ids) (board_of d)"
proof -
  let ?d = "snd (release_notice_delivery (Some s) mids d)"
  let ?ids = "case mids of None \<Rightarrow> pending_ids d | Some ids \<Rightarrow> set ids"
  have ok: "contributions_ok d" using assms(1) by (simp add: store_inv_def inv_notice_def)
  have pend: "pending_ids ?d = pending_ids d" by (simp add: pending_ids_def release_frame)
  have sub: "fst c \<in> pending_ids d" if "c \<in> set (notice_contributions d)" for c
    using announced_to_sub [OF assms(1), of "snd c"] that by (auto simp: announced_to_def)
  have "announced_to ?d t = (if t = s then announced_to d s - ?ids else announced_to d t)" for t
  proof (cases "last_delivered_provider_session_id (notice d) = Some s \<and> mids \<noteq> Some []")
    case True
    then have "notice_contributions ?d = sql_delete (\<lambda>c. snd c = s \<and>
        (case mids of None \<Rightarrow> True | Some ids \<Rightarrow> fst c \<in> set ids)) (notice_contributions d)"
      using assms(2,3)
      by (auto simp: release_notice_delivery_def truthy_def or_empty_def get_default_def distinct_card Let_def
          split: option.splits)
    moreover have "c = c'" if "c \<in> set (notice_contributions d)" "c' \<in> set (notice_contributions d)" "fst c = fst c'" for c c'
      using ok that by (auto simp: contributions_ok_def dest: distinct_map_unique)
    ultimately show ?thesis
      using sub by (auto simp: announced_to_def split: option.splits)
  next
    case False
    then have "?d = d"
      by (auto simp: release_notice_delivery_def truthy_def Let_def)
    moreover have "announced_to d s = {}" if "last_delivered_provider_session_id (notice d) \<noteq> Some s"
      using that announced_to_last [OF ok, of s] by simp
    ultimately show ?thesis using False by auto
  qed
  with pend show ?thesis by (simp add: board_of_def retract_def fun_eq_iff)
qed

lemma generation_nonneg: "store_inv d \<Longrightarrow> 0 \<le> generation (notice d)"
  by (simp add: store_inv_def inv_notice_def generations_ok_def)

interpretation notices: notice_board store_inv "\<lambda>s. s \<noteq> []" board_of "\<lambda>d s. is_due_for (notice d) (Some s)"
  "\<lambda>s ids d. snd (mark_notice_delivered (generation (notice d)) (Some s) (Some ids) None d)"
  "\<lambda>s ids d. snd (release_notice_delivery (Some s) (Some ids) d)"
proof
  show "is_due_for (notice d) (Some s) \<longleftrightarrow> board_due s (board_of d)" if "store_inv d" "s \<noteq> []" for d s
    using due_iff_unannounced [OF that] by (simp add: board_due_def board_of_def)
  show "board_of (snd (mark_notice_delivered (generation (notice d)) (Some s) (Some ids) None d)) =
      announce s (set ids) (board_of d)"
    if "store_inv d" "s \<noteq> []" "distinct ids" "set ids \<inter> outstanding (board_of d) \<noteq> {}" for d s ids
    using that generation_nonneg [OF that(1)] by (intro mark_board) (simp_all add: board_of_def)
  show "board_of (snd (release_notice_delivery (Some s) (Some ids) d)) = retract s (set ids) (board_of d)"
    if "store_inv d" "s \<noteq> []" "distinct ids" for d s ids
    using release_board [of d s "Some ids"] that by simp
qed (intro store_inv_mark store_inv_release; assumption)+

text \<open>Two pending rows nobody was told of.\<close>

definition notice_db :: db where
  "notice_db = refresh_notice_state 10 None (empty_db\<lparr>high_water := 5, messages :=
     [(sample_row ''p'')\<lparr>server_seq := Some 4, receipt_disposition := Some ELIGIBLE, processing_state := Some PENDING\<rparr>,
      (sample_row ''q'')\<lparr>server_seq := Some 5, receipt_disposition := Some ELIGIBLE, processing_state := Some PENDING\<rparr>]\<rparr>)"

lemma pending_ids_notice_db: "pending_ids notice_db = {''p'', ''q''}"
  by (simp add: notice_db_def refresh_notice_state_def Let_def pending_ids_def is_pending_def insert_commute)

lemma store_inv_notice_db: "store_inv notice_db"
  by (simp add: store_inv_def inv_messages_def inv_turns_def inv_notice_def empty_db_def notice_db_def
      refresh_notice_state_def initial_notice_def contributions_ok_def generations_ok_def sql_count_def
      told_all_def pending_ids_def row_wf_def is_pending_def map_filter_simps truthy_def
      contributed_def sql_delete_def Let_def)

text \<open>
  C14. The notice row refines the board of announcements: under the store invariant a session is due
  exactly when some outstanding row was not announced to it; an accepted mark announces the named
  rows that are still outstanding and forgets other sessions; a release retracts the named rows, or
  all of them; and the rows offered to a session are the pending ones it was not told of.
\<close>

theorem notice_refines_board:
  assumes "store_inv d" "s \<noteq> []" "distinct ids"
  shows "(is_due_for (notice d) (Some s) \<longleftrightarrow> board_due s (board_of d)) \<and>
    (0 \<le> gen \<and> gen \<le> generation (notice d) \<and> set ids \<inter> outstanding (board_of d) \<noteq> {} \<longrightarrow>
       board_of (snd (mark_notice_delivered gen (Some s) (Some ids) None d)) = announce s (set ids) (board_of d)) \<and>
    board_of (snd (release_notice_delivery (Some s) (Some ids) d)) = retract s (set ids) (board_of d) \<and>
    board_of (snd (release_notice_delivery (Some s) None d)) = retract s (outstanding (board_of d)) (board_of d) \<and>
    get_notice_candidates (Some s) d = filter (\<lambda>m. envelope_id m \<notin> told (board_of d) s) (get_pending_all d)"
proof -
  have "contributions_ok d" using assms(1) by (simp add: store_inv_def inv_notice_def)
  from announced_to_last [OF this, of s] assms(2)
  have "get_notice_candidates (Some s) d = filter (\<lambda>m. envelope_id m \<notin> told (board_of d) s) (get_pending_all d)"
    by (auto simp: get_notice_candidates_def get_notice_snapshot_def truthy_def or_empty_def get_default_def
        board_of_def announced_to_def Let_def)
  with mark_board [OF assms] release_board [OF assms(1,2), of "Some ids"] release_board [OF assms(1,2), of None]
    notices.due_iff [OF assms(1,2)] assms(3)
  show ?thesis by (simp add: board_of_def)
qed

theorem notice_refines_board_witness:
  "board_of (snd (mark_notice_delivered 1 (Some ''s'') (Some [''p'', ''x'']) None notice_db)) =
     announce ''s'' {''p'', ''x''} (board_of notice_db) \<and>
   board_of (snd (release_notice_delivery (Some ''s'') (Some [''p'', ''x'']) notice_db)) =
     retract ''s'' {''p'', ''x''} (board_of notice_db)"
proof -
  have g: "generation (notice notice_db) = 1"
    by (simp add: notice_db_def refresh_notice_state_def empty_db_def initial_notice_def sql_count_def is_pending_def Let_def)
  have o: "outstanding (board_of notice_db) = {''p'', ''q''}" by (simp add: board_of_def pending_ids_notice_db)
  from notice_refines_board [OF store_inv_notice_db, of "''s''" "[''p'', ''x'']" 1]
  show ?thesis unfolding g o by simp
qed

text \<open>
  One wake per pending set and session: after a notice for the whole pending set is recorded, the
  session it was recorded for is not due any more while every other session is, and releasing any of
  those rows makes the first session due again. No wake is lost and none repeats.
\<close>

theorem notice_wakes_once:
  assumes "store_inv d" "s \<noteq> []" "distinct ids" "set ids = pending_ids d" "ids \<noteq> []"
    "t \<noteq> []" "t \<noteq> s" "set back_ids \<subseteq> pending_ids d" "back_ids \<noteq> []" "distinct back_ids"
  shows "let d' = snd (mark_notice_delivered (generation (notice d)) (Some s) (Some ids) None d) in
    \<not> is_due_for (notice d') (Some s) \<and> is_due_for (notice d') (Some t) \<and>
    is_due_for (notice (snd (release_notice_delivery (Some s) (Some back_ids) d'))) (Some s)"
proof -
  define d' where "d' = snd (mark_notice_delivered (generation (notice d)) (Some s) (Some ids) None d)"
  have out: "set ids = outstanding (board_of d)" using assms(4) by (simp add: board_of_def)
  note q = notices.told_all_quiet [OF assms(1,2,3) out assms(5), folded d'_def]
  have "set ids \<inter> outstanding (board_of d) \<noteq> {}" using out assms(5) by (metis inf.idem set_empty)
  from notices.mark_view [OF assms(1,2,3) this, folded d'_def]
  have "outstanding (board_of d') = pending_ids d" by (simp add: announce_def board_of_def)
  with assms(8,9) have "set back_ids \<inter> outstanding (board_of d') \<noteq> {}" by (metis inf.absorb1 set_empty)
  moreover have "store_inv d'" unfolding d'_def by (rule notices.mark_ok [OF assms(1)])
  ultimately have "is_due_for (notice (snd (release_notice_delivery (Some s) (Some back_ids) d'))) (Some s)"
    using notices.released_due assms(2,10) by blast
  then show ?thesis using q assms(6,7) by (simp add: d'_def Let_def)
qed

theorem notice_wakes_once_witness:
  "let d' = snd (mark_notice_delivered (generation (notice notice_db)) (Some ''s'') (Some [''q'', ''p'']) None notice_db) in
    \<not> is_due_for (notice d') (Some ''s'') \<and> is_due_for (notice d') (Some ''t'') \<and>
    is_due_for (notice (snd (release_notice_delivery (Some ''s'') (Some [''p'']) d'))) (Some ''s'')"
  by (rule notice_wakes_once [OF store_inv_notice_db]) (auto simp: pending_ids_notice_db)

end
