(* ===== verification/Reminder_Model.thy ===== *)
theory Reminder_Model
  imports Store_Schema
begin

section \<open>Reminders: rows, clock text, constraints\<close>

text \<open>
  The reminder part of \<open>agent/message_store_models.py\<close> and the helpers of
  \<open>agent/reminder_store.py\<close>: who may deliver a reminder, the size of its remote envelope, its
  times as RFC 3339 text, the constraints of the \<open>reminder_occurrences\<close> table, and the views of a
  row. \<open>ReminderOccurrence\<close> and \<open>ReminderSyncRecord\<close> hold the columns of the row they were read
  from, so an operation returns the \<^typ>\<open>reminder_row\<close> itself.
\<close>

definition REMINDER_STATES :: "string list" where
  "REMINDER_STATES = [''scheduled'', ''claimed'', ''cancelled'', ''delivered'']"

definition MAX_REMINDER_LIST_LIMIT :: int where "MAX_REMINDER_LIST_LIMIT = 100"

definition MAX_REMINDER_ENVELOPE_BYTES :: int where "MAX_REMINDER_ENVELOPE_BYTES = 32768"

record ReminderMaterializationResult =
  mr_changed :: bool
  mr_conflict :: bool

definition materialized :: "bool \<Rightarrow> bool \<Rightarrow> ReminderMaterializationResult" where
  "materialized ch cf = \<lparr>mr_changed = ch, mr_conflict = cf\<rparr>"

subsection \<open>Delivery custody\<close>

text \<open>\<open>_REMINDER_LOCAL_DELIVERY_SQL\<close>, which \<open>ReminderSyncRecord.is_unprepared_local_only\<close> repeats
  in Python, and \<open>_reminder_delivery_custody_sql\<close>.\<close>

definition reminder_local_delivery :: "reminder_row \<Rightarrow> bool" where
  "reminder_local_delivery r \<longleftrightarrow>
     \<not> snapshot_conflict r \<and> server_ack_revision r = 0 \<and> payload_format r = None
     \<and> opaque_payload r = None \<and> delivery_claim_id r = None
     \<and> \<not> delivery_claim_acquired r \<and> delivery_claim_expires_at_ms r = None"

definition is_unprepared_local_only :: "reminder_row \<Rightarrow> bool" where
  "is_unprepared_local_only r \<longleftrightarrow>
     \<not> snapshot_conflict r \<and> server_ack_revision r = 0 \<and> payload_format r = None
     \<and> opaque_payload r = None \<and> delivery_claim_id r = None
     \<and> \<not> delivery_claim_acquired r \<and> delivery_claim_expires_at_ms r = None"

definition reminder_delivery_custody :: "int \<Rightarrow> reminder_row \<Rightarrow> bool" where
  "reminder_delivery_custody now r \<longleftrightarrow>
     \<not> snapshot_conflict r \<and>
     (reminder_local_delivery r
      \<or> (delivery_claim_acquired r \<and> delivery_claim_id r \<noteq> None
         \<and> (case delivery_claim_expires_at_ms r of None \<Rightarrow> False | Some e \<Rightarrow> e > now)))"

definition live_reminder :: "reminder_row \<Rightarrow> bool" where
  "live_reminder r \<longleftrightarrow> rem_state r = ''scheduled'' \<or> rem_state r = ''claimed''"

subsection \<open>Sync views\<close>

definition server_lifecycle :: "reminder_row \<Rightarrow> string" where
  "server_lifecycle r = (if rem_state r = ''claimed'' then ''scheduled'' else rem_state r)"

definition lifecycle_at_ms :: "reminder_row \<Rightarrow> int res" where
  "lifecycle_at_ms r =
     (if live_reminder r then Inr (created_at_ms r)
      else case (rem_state r = ''cancelled'', cancelled_at_ms r) of
        (True, Some t) \<Rightarrow> Inr t
      | _ \<Rightarrow> (case (rem_state r = ''delivered'', delivered_at_ms r) of
               (True, Some t) \<Rightarrow> Inr t
             | _ \<Rightarrow> Inl (LifecycleConflict ''reminder lifecycle timestamp is missing'')))"

subsection \<open>The remote envelope\<close>

text \<open>\<open>reminder_plaintext_envelope_size\<close>: the bytes of the envelope that will hold the encrypted
  pair, its ciphertext in unpadded base64.\<close>

definition reminder_ciphertext_chars :: "nat \<Rightarrow> nat" where
  "reminder_ciphertext_chars plain =
     (let c = plain + 16 in (c + 2) div 3 * 4 - (3 - c mod 3) mod 3)"

definition reminder_plaintext_envelope_size :: "string \<Rightarrow> string \<Rightarrow> nat" where
  "reminder_plaintext_envelope_size tgt cont =
     (let plaintext = json_dumps (JObj [(''content'', JStr cont), (''target'', JStr tgt)]);
          encoded_bytes = reminder_ciphertext_chars (length plaintext)
      in length (json_dumps (JObj [(''algorithm'', JStr ''chacha20-poly1305''),
                                   (''ciphertext'', JStr (replicate encoded_bytes (CHR ''A''))),
                                   (''nonce'', JStr (replicate 16 (CHR ''A''))),
                                   (''version'', JInt 1)])))"

subsection \<open>Times\<close>

text \<open>
  \<open>reminder_time_to_rfc3339\<close>. \<open>value / 1000\<close> is a double: the true quotient, rounded to 53
  significant bits, ties to even; \<open>datetime.fromtimestamp\<close> splits it into whole seconds and a
  fraction, and rounds the fraction times a million (a double product) to the nearest microsecond,
  ties to even; \<open>isoformat(timespec="milliseconds")\<close> cuts the microseconds. A double is a quotient
  of integers here. A year outside 1 to 9999 raises.
\<close>

definition round_half_even :: "int \<Rightarrow> int \<Rightarrow> int" where
  "round_half_even n m =
     (let q = n div m; r = n mod m
      in if 2 * r < m \<or> (2 * r = m \<and> even q) then q else q + 1)"

text \<open>\<open>int.bit_length\<close> of a positive number.\<close>

function bit_length :: "int \<Rightarrow> int" where
  "bit_length n = (if n \<le> 0 then 0 else 1 + bit_length (n div 2))"
  by pat_completeness auto
termination
  by (relation "measure nat") auto

declare bit_length.simps [simp del]

definition to_double :: "int \<Rightarrow> int \<Rightarrow> int \<times> int" where
  "to_double n m =
     (if n = 0 then (0, 1)
      else let a = \<bar>n\<bar>; e0 = bit_length a - bit_length m - 53;
               scaled = (\<lambda>e. (a * 2 ^ nat (- e), m * 2 ^ nat e));
               e = (if fst (scaled e0) < 2 ^ 53 * snd (scaled e0) then e0 else e0 + 1);
               mant = round_half_even (fst (scaled e)) (snd (scaled e))
           in (sgn n * mant * 2 ^ nat e, 2 ^ nat (- e)))"

text \<open>Seconds and microseconds of \<open>value / 1000\<close>, as \<open>modf\<close> and the rounding leave them.\<close>

definition timestamp_parts :: "int \<Rightarrow> int \<times> int" where
  "timestamp_parts v =
     (let (n, m) = to_double v 1000;
          whole = sgn n * (\<bar>n\<bar> div m); part = n - whole * m;
          (pn, pm) = to_double (part * 1000000) m;
          us = round_half_even pn pm
      in if us \<ge> 1000000 then (whole + 1, us - 1000000)
         else if us < 0 then (whole - 1, us + 1000000)
         else (whole, us))"

text \<open>The proleptic Gregorian date of a day counted from 1970-01-01.\<close>

definition civil_date :: "int \<Rightarrow> int \<times> int \<times> int" where
  "civil_date days =
     (let z = days + 719468; era = z div 146097; doe = z mod 146097;
          yoe = (doe - doe div 1460 + doe div 36524 - doe div 146096) div 365;
          doy = doe - (365 * yoe + yoe div 4 - yoe div 100);
          mp = (5 * doy + 2) div 153;
          dd = doy - (153 * mp + 2) div 5 + 1;
          mm = (if mp < 10 then mp + 3 else mp - 9);
          yy = yoe + era * 400 + (if mm \<le> 2 then 1 else 0)
      in (yy, mm, dd))"

definition padded :: "nat \<Rightarrow> int \<Rightarrow> string" where
  "padded w n = (let s = int_dec n in replicate (w - length s) (CHR ''0'') @ s)"

definition reminder_time_to_rfc3339 :: "int \<Rightarrow> string res" where
  "reminder_time_to_rfc3339 v =
     (let (secs, us) = timestamp_parts v; (yy, mm, dd) = civil_date (secs div 86400); t = secs mod 86400
      in if yy < 1 \<or> 9999 < yy then Inl (ValueError ''year is out of range'')
         else Inr (padded 4 yy @ ''-'' @ padded 2 mm @ ''-'' @ padded 2 dd @ ''T'' @
                   padded 2 (t div 3600) @ '':'' @ padded 2 (t div 60 mod 60) @ '':'' @ padded 2 (t mod 60)
                   @ ''.'' @ padded 3 (us div 1000) @ ''Z''))"

subsection \<open>The tool result\<close>

definition optional_time :: "int option \<Rightarrow> json res" where
  "optional_time t = (case t of None \<Rightarrow> Inr JNull
     | Some v \<Rightarrow> res_bind (reminder_time_to_rfc3339 v) (\<lambda>s. Inr (JStr s)))"

text \<open>\<open>ReminderOccurrence.as_dict\<close>: a claimed reminder shows as scheduled, its fire time hidden.\<close>

definition reminder_as_dict :: "reminder_row \<Rightarrow> json res" where
  "reminder_as_dict r =
     (let internal = rem_state r = ''claimed''
      in res_bind (optional_time (Some (intended_at_ms r))) (\<lambda>intended.
         res_bind (optional_time (if internal then None else actual_fire_at_ms r)) (\<lambda>fired.
         res_bind (optional_time (Some (created_at_ms r))) (\<lambda>created.
         res_bind (optional_time (cancelled_at_ms r)) (\<lambda>cancelled.
         res_bind (optional_time (delivered_at_ms r)) (\<lambda>delivered.
           Inr (JObj [(''reminder_id'', JStr (reminder_id r)),
                      (''occurrence_id'', JStr (occurrence_id r)),
                      (''state'', JStr (if internal then ''scheduled'' else rem_state r)),
                      (''target'', JStr (rem_target r)), (''content'', JStr (rem_content r)),
                      (''intended_at'', intended), (''actual_fire_at'', fired),
                      (''created_at'', created), (''cancelled_at'', cancelled),
                      (''delivered_at'', delivered)])))))))"

subsection \<open>Argument checks\<close>

definition is_ascii :: "char \<Rightarrow> bool" where
  "is_ascii c \<longleftrightarrow> (of_char c :: nat) < 128"

definition valid_payload_format :: "string \<Rightarrow> bool" where
  "valid_payload_format s \<longleftrightarrow>
     s \<noteq> [] \<and> length s \<le> 64 \<and> list_all is_ascii s \<and> \<not> list_ex is_space s"

definition valid_opaque_payload :: "string \<Rightarrow> bool" where
  "valid_opaque_payload s \<longleftrightarrow> 1 \<le> length s \<and> length s \<le> 32768"

text \<open>The code of a permanent failure that is safe to keep.\<close>

definition safe_failure_code :: "string \<Rightarrow> string" where
  "safe_failure_code code =
     (if 1 \<le> length code \<and> length code \<le> 64
         \<and> list_all (\<lambda>c. (97 \<le> (of_char c :: nat) \<and> (of_char c :: nat) \<le> 122) \<or> is_digit c
                         \<or> c = CHR ''_'' \<or> c = CHR ''-'') code
      then code else ''contract_error'')"

text \<open>\<open>uuid.UUID(claim_id)\<close> accepts: the \<open>urn:\<close> and \<open>uuid:\<close> marks and the hyphens removed, braces
  stripped, 32 characters that \<open>int(hex, 16)\<close> reads (surrounding blanks, a sign, a \<open>0x\<close> mark and
  single underscores included). Claim ids are ASCII.\<close>

function remove_all :: "string \<Rightarrow> string \<Rightarrow> string" where
  "remove_all p [] = []"
| "remove_all p (c # cs) =
     (if p \<noteq> [] \<and> starts_with p (c # cs) then remove_all p (drop (length p) (c # cs))
      else c # remove_all p cs)"
  by pat_completeness auto
termination
  by (relation "measure (\<lambda>(p, s). length s)") (auto simp: starts_with_def)

fun hex_groups :: "bool \<Rightarrow> string \<Rightarrow> bool" where
  "hex_groups after_digit [] = after_digit"
| "hex_groups after_digit (c # cs) =
     (if c = CHR ''_'' then after_digit \<and> hex_groups False cs
      else hex_value c \<noteq> None \<and> hex_groups True cs)"

definition int16_reads :: "string \<Rightarrow> bool" where
  "int16_reads s =
     (let t = snd (scan_sign (strip s))
      in if starts_with ''0x'' t \<or> starts_with ''0X'' t
         then hex_groups False (if starts_with ''_'' (drop 2 t) then drop 3 t else drop 2 t)
         else hex_groups False t)"

definition is_brace :: "char \<Rightarrow> bool" where
  "is_brace c \<longleftrightarrow> c = CHR ''{'' \<or> c = CHR ''}''"

definition uuid_reads :: "string \<Rightarrow> bool" where
  "uuid_reads s =
     (let h = remove_all ''uuid:'' (remove_all ''urn:'' s);
          b = rev (dropWhile is_brace (rev (dropWhile is_brace h)));
          x = remove_all ''-'' b
      in length x = 32 \<and> int16_reads x)"

subsection \<open>The table\<close>

text \<open>The CHECK clauses of \<open>reminder_occurrences\<close>.\<close>

definition reminder_checks :: "reminder_row \<Rightarrow> bool" where
  "reminder_checks r \<longleftrightarrow>
     rem_state r \<in> set REMINDER_STATES \<and> 0 < revision r \<and> 0 \<le> server_ack_revision r \<and>
     (case payload_format r of None \<Rightarrow> True | Some f \<Rightarrow> 1 \<le> length f \<and> length f \<le> 64) \<and>
     (case opaque_payload r of None \<Rightarrow> True | Some p \<Rightarrow> 1 \<le> length p \<and> length p \<le> 32768) \<and>
     0 \<le> sync_retry_count r \<and> sync_retry_count r \<le> 20 \<and>
     (case sync_permanent_code r of None \<Rightarrow> True | Some c \<Rightarrow> length c \<le> 128)"

text \<open>A statement that leaves the table with \<open>rows\<close>: SQLite checks the clauses, then the keys.\<close>

definition write_reminders :: "reminder_row list \<Rightarrow> db \<Rightarrow> db res" where
  "write_reminders rows d =
     (if \<not> list_all reminder_checks rows
      then Inl (IntegrityError ''CHECK constraint failed: reminder_occurrences'')
      else if \<not> distinct (map reminder_id rows)
      then Inl (IntegrityError ''UNIQUE constraint failed: reminder_occurrences.reminder_id'')
      else if \<not> distinct (map occurrence_id rows)
      then Inl (IntegrityError ''UNIQUE constraint failed: reminder_occurrences.occurrence_id'')
      else if \<not> distinct (List.map_filter delivered_event_id rows)
      then Inl (IntegrityError ''UNIQUE constraint failed: reminder_occurrences.delivered_event_id'')
      else Inr (d\<lparr>reminder_occurrences := rows\<rparr>))"

definition insert_reminder :: "reminder_row \<Rightarrow> db \<Rightarrow> db res" where
  "insert_reminder r d = write_reminders (reminder_occurrences d @ [r]) d"

definition update_reminders ::
  "(reminder_row \<Rightarrow> bool) \<Rightarrow> (reminder_row \<Rightarrow> reminder_row) \<Rightarrow> db \<Rightarrow> db res" where
  "update_reminders P f d = write_reminders (sql_update P f (reminder_occurrences d)) d"

abbreviation count_reminders :: "(reminder_row \<Rightarrow> bool) \<Rightarrow> db \<Rightarrow> nat" where
  "count_reminders P d \<equiv> sql_count P (reminder_occurrences d)"

text \<open>The columns of an INSERT of a scheduled row; the others take their defaults.\<close>

definition new_reminder ::
  "string \<Rightarrow> string \<Rightarrow> string \<Rightarrow> string \<Rightarrow> int \<Rightarrow> int \<Rightarrow> reminder_row" where
  "new_reminder rid oid tgt cont intended created =
     \<lparr>reminder_id = rid, occurrence_id = oid, rem_target = tgt, rem_content = cont,
      intended_at_ms = intended, rem_state = ''scheduled'', created_at_ms = created,
      claimed_at_ms = None, actual_fire_at_ms = None, cancelled_at_ms = None,
      delivered_at_ms = None, delivered_event_id = None, revision = 1, server_ack_revision = 0,
      payload_format = None, opaque_payload = None, sync_retry_after_ms = None,
      sync_retry_count = 0, sync_permanent_revision = None, sync_permanent_code = None,
      delivery_claim_id = None, delivery_claim_acquired = False,
      delivery_claim_expires_at_ms = None, snapshot_conflict = False\<rparr>"

text \<open>ORDER BY intended_at_ms, occurrence_id.\<close>

definition by_intended :: "reminder_row list \<Rightarrow> reminder_row list" where
  "by_intended rows = sort_key (\<lambda>r. (intended_at_ms r, occurrence_id r)) rows"

definition find_reminder :: "string \<Rightarrow> db \<Rightarrow> reminder_row option" where
  "find_reminder rid d = sql_fetchone (\<lambda>r. reminder_id r = rid) (reminder_occurrences d)"

definition find_occurrence :: "string \<Rightarrow> db \<Rightarrow> reminder_row option" where
  "find_occurrence oid d = sql_fetchone (\<lambda>r. occurrence_id r = oid) (reminder_occurrences d)"

text \<open>The final read-back of a mutation, with its assertion.\<close>

definition reminder_back :: "string \<Rightarrow> db \<Rightarrow> (reminder_row \<times> db) res" where
  "reminder_back rid d =
     (case find_reminder rid d of None \<Rightarrow> Inl AssertionFailure | Some r \<Rightarrow> Inr (r, d))"

definition occurrence_back :: "string \<Rightarrow> db \<Rightarrow> (reminder_row \<times> db) res" where
  "occurrence_back oid d =
     (case find_occurrence oid d of None \<Rightarrow> Inl AssertionFailure | Some r \<Rightarrow> Inr (r, d))"

end
