(* ===== verification/Reminder_Sync.thy ===== *)
theory Reminder_Sync
  imports Reminder_Model
begin

section \<open>Reminders: creation, remote sync and snapshots\<close>

text \<open>
  The operations of \<open>ReminderStoreMixin\<close> that create a reminder, keep its opaque envelope, drive
  the embedded outbox (pending revisions, acknowledgement, back-off, permanent failure), and
  materialize the Server's scheduled and terminal snapshots; and its reads.
\<close>

subsection \<open>Creation and reads\<close>

text \<open>\<open>fresh_rid\<close> and \<open>fresh_oid\<close> are the identities \<open>uuid.uuid4\<close> would give.\<close>

definition create_reminder ::
  "int \<Rightarrow> string \<Rightarrow> string \<Rightarrow> string \<Rightarrow> string \<Rightarrow> int \<Rightarrow> string option \<Rightarrow> string option \<Rightarrow> int option
   \<Rightarrow> db \<Rightarrow> (reminder_row \<times> db) res" where
  "create_reminder now fresh_rid fresh_oid cont tgt intended rid_arg oid_arg created d =
     (if cont = [] then Inl (ValueError ''reminder content must be a non-empty string'')
      else res_bind (parse_inbox_target tgt) (\<lambda>_.
        if int (reminder_plaintext_envelope_size tgt cont) > MAX_REMINDER_ENVELOPE_BYTES
        then Inl (ValueError ''reminder content exceeds the remote envelope limit'')
        else let created_ms = get_default created now;
                 rid = (if truthy rid_arg then or_empty rid_arg else ''reminder-'' @ fresh_rid);
                 oid = (if truthy oid_arg then or_empty oid_arg else ''occurrence-'' @ fresh_oid)
             in if rid = oid
                then Inl (ValueError ''reminder and occurrence identities must be distinct'')
                else res_bind (insert_reminder (new_reminder rid oid tgt cont intended created_ms) d)
                       (reminder_back rid)))"

definition get_reminder :: "string \<Rightarrow> db \<Rightarrow> reminder_row option res" where
  "get_reminder rid d =
     (if rid = [] then Inl (ValueError ''reminder_id must be a non-empty string'')
      else Inr (find_reminder rid d))"

definition get_reminder_sync_record :: "string \<Rightarrow> db \<Rightarrow> reminder_row option res" where
  "get_reminder_sync_record oid d =
     (if oid = [] then Inl (ValueError ''occurrence_id must be a non-empty string'')
      else Inr (find_occurrence oid d))"

definition get_reminder_sync_record_by_reminder_id :: "string \<Rightarrow> db \<Rightarrow> reminder_row option res" where
  "get_reminder_sync_record_by_reminder_id rid d =
     (if rid = [] then Inl (ValueError ''reminder_id must be a non-empty string'')
      else Inr (sql_fetchone (\<lambda>r. reminder_id r = rid) (reminder_occurrences d)))"

definition list_reminders :: "string \<Rightarrow> int \<Rightarrow> db \<Rightarrow> reminder_row list res" where
  "list_reminders st limit d =
     (if st \<noteq> [] \<and> st \<notin> set REMINDER_STATES
      then Inl (ValueError ''state must be empty or a reminder state'')
      else if \<not> (1 \<le> limit \<and> limit \<le> MAX_REMINDER_LIST_LIMIT)
      then Inl (ValueError ''limit must be between 1 and 100'')
      else Inr (take (nat limit) (by_intended
             (if st = ''scheduled'' then filter live_reminder (reminder_occurrences d)
              else if st \<noteq> [] then filter (\<lambda>r. rem_state r = st) (reminder_occurrences d)
              else reminder_occurrences d))))"

text \<open>\<open>next_reminder_deadline\<close>: claimed recovery is due now, unless the caller asks only for what
  comes \<open>after_ms\<close>.\<close>

definition next_reminder_deadline :: "int \<Rightarrow> bool \<Rightarrow> int option \<Rightarrow> db \<Rightarrow> int option" where
  "next_reminder_deadline now local_only after_ms d =
     (let eligible = (\<lambda>r. \<not> snapshot_conflict r \<and> (\<not> local_only \<or> reminder_local_delivery r))
      in if after_ms = None
            \<and> sql_exists (\<lambda>r. rem_state r = ''claimed'' \<and> eligible r) (reminder_occurrences d)
         then Some now
         else case by_intended (filter (\<lambda>r. rem_state r = ''scheduled'' \<and> eligible r
                     \<and> (case after_ms of None \<Rightarrow> True | Some a \<Rightarrow> intended_at_ms r > a))
                     (reminder_occurrences d)) of
                [] \<Rightarrow> None | r # _ \<Rightarrow> Some (intended_at_ms r))"

definition due_reminder_delivery_candidates :: "int \<Rightarrow> db \<Rightarrow> reminder_row list" where
  "due_reminder_delivery_candidates now d =
     by_intended (filter (\<lambda>r. \<not> snapshot_conflict r
        \<and> ((rem_state r = ''scheduled'' \<and> intended_at_ms r \<le> now) \<or> rem_state r = ''claimed''))
        (reminder_occurrences d))"

subsection \<open>The opaque envelope\<close>

definition persist_reminder_envelope ::
  "string \<Rightarrow> string \<Rightarrow> string \<Rightarrow> db \<Rightarrow> (reminder_row \<times> db) res" where
  "persist_reminder_envelope oid fmt opaque d =
     (if oid = [] \<or> \<not> valid_payload_format fmt \<or> \<not> valid_opaque_payload opaque
      then Inl (ValueError ''invalid reminder envelope metadata'')
      else case find_occurrence oid d of
        None \<Rightarrow> Inl (ValueError ''unknown reminder occurrence'')
      | Some r \<Rightarrow>
          if opaque_payload r \<noteq> None
          then (if payload_format r \<noteq> Some fmt \<or> opaque_payload r \<noteq> Some opaque
                then Inl (LifecycleConflict ''reminder envelope is immutable'')
                else Inr (r, d))
          else res_bind (update_reminders (\<lambda>r. occurrence_id r = oid \<and> opaque_payload r = None)
                 (\<lambda>r. r\<lparr>payload_format := Some fmt, opaque_payload := Some opaque\<rparr>) d)
               (occurrence_back oid))"

subsection \<open>The outbox\<close>

definition pending_reminder_sync_records ::
  "int \<Rightarrow> int \<Rightarrow> bool \<Rightarrow> bool \<Rightarrow> db \<Rightarrow> reminder_row list res" where
  "pending_reminder_sync_records now limit force retry_permanent d =
     (if \<not> (1 \<le> limit \<and> limit \<le> 200) then Inl (ValueError ''limit must be between 1 and 200'')
      else Inr (take (nat limit) (by_intended (filter (\<lambda>r.
             server_ack_revision r < revision r \<and> \<not> snapshot_conflict r
             \<and> (retry_permanent \<or> sync_permanent_revision r \<noteq> Some (revision r))
             \<and> (force \<or> (case sync_retry_after_ms r of None \<Rightarrow> True | Some t \<Rightarrow> t \<le> now)))
             (reminder_occurrences d)))))"

definition acknowledge_reminder_sync_revision :: "string \<Rightarrow> int \<Rightarrow> db \<Rightarrow> (bool \<times> db) res" where
  "acknowledge_reminder_sync_revision oid rv d =
     (if oid = [] \<or> rv \<le> 0 then Inl (ValueError ''invalid reminder acknowledgment'')
      else let P = (\<lambda>r. occurrence_id r = oid \<and> revision r = rv \<and> server_ack_revision r < rv)
           in res_bind (update_reminders P
                (\<lambda>r. r\<lparr>server_ack_revision := rv, sync_retry_after_ms := None,
                       sync_retry_count := 0, sync_permanent_revision := None,
                       sync_permanent_code := None\<rparr>) d)
              (\<lambda>d'. Inr (count_reminders P d = 1, d')))"

definition schedule_reminder_sync_retry :: "string \<Rightarrow> int \<Rightarrow> int \<Rightarrow> db \<Rightarrow> (bool \<times> db) res" where
  "schedule_reminder_sync_retry oid rv retry_after d =
     (if oid = [] \<or> rv \<le> 0 then Inl (ValueError ''invalid reminder retry state'')
      else let P = (\<lambda>r. occurrence_id r = oid \<and> revision r = rv)
           in res_bind (update_reminders P
                (\<lambda>r. r\<lparr>sync_retry_after_ms := Some retry_after,
                       sync_retry_count := min (sync_retry_count r + 1) 20,
                       sync_permanent_revision := None, sync_permanent_code := None\<rparr>) d)
              (\<lambda>d'. Inr (count_reminders P d = 1, d')))"

definition record_reminder_sync_permanent_failure ::
  "string \<Rightarrow> int \<Rightarrow> string \<Rightarrow> db \<Rightarrow> (bool \<times> db) res" where
  "record_reminder_sync_permanent_failure oid rv code d =
     (let safe_code = safe_failure_code code
      in if oid = [] \<or> rv \<le> 0 then Inl (ValueError ''invalid reminder permanent failure'')
         else let P = (\<lambda>r. occurrence_id r = oid \<and> revision r = rv)
              in res_bind (update_reminders P
                   (\<lambda>r. r\<lparr>sync_retry_after_ms := None, sync_permanent_revision := Some rv,
                          sync_permanent_code := Some safe_code\<rparr>) d)
                 (\<lambda>d'. Inr (count_reminders P d = 1, d')))"

subsection \<open>Server snapshots\<close>

text \<open>A scheduled reminder as the Server reports it.\<close>

record remote_reminder =
  rm_reminder_id :: string
  rm_occurrence_id :: string
  rm_target :: string
  rm_content :: string
  rm_intended_at_ms :: int
  rm_lifecycle_at_ms :: int
  rm_revision :: int
  rm_payload_format :: string
  rm_opaque_payload :: string

definition validate_remote_scheduled_reminder :: "remote_reminder \<Rightarrow> unit res" where
  "validate_remote_scheduled_reminder s =
     (if rm_reminder_id s = [] \<or> rm_occurrence_id s = [] \<or> rm_target s = [] \<or> rm_content s = []
         \<or> rm_payload_format s = [] \<or> rm_reminder_id s = rm_occurrence_id s \<or> rm_revision s \<le> 0
         \<or> \<not> valid_payload_format (rm_payload_format s)
         \<or> \<not> valid_opaque_payload (rm_opaque_payload s)
      then Inl (ValueError ''invalid remote reminder metadata'')
      else res_bind (parse_inbox_target (rm_target s)) (\<lambda>_. Inr ()))"

definition validate_remote_terminal_reminder ::
  "string \<Rightarrow> string \<Rightarrow> string \<Rightarrow> int \<Rightarrow> string \<Rightarrow> unit res" where
  "validate_remote_terminal_reminder rid oid lifecycle rv fmt =
     (if rid = [] \<or> oid = [] \<or> lifecycle = [] \<or> fmt = [] \<or> rid = oid
         \<or> lifecycle \<notin> {''cancelled'', ''delivered''} \<or> rv \<le> 0 \<or> \<not> valid_payload_format fmt
      then Inl (ValueError ''invalid remote reminder tombstone'') else Inr ())"

text \<open>The columns a terminal snapshot sets: \<open>_terminal_values\<close>, then
  \<open>_merged_remote_terminal_values\<close>. A delivery that was committed locally stays visible.\<close>

record terminal_fields =
  tv_state :: string
  tv_actual_fire_at_ms :: "int option"
  tv_cancelled_at_ms :: "int option"
  tv_delivered_at_ms :: "int option"
  tv_delivered_event_id :: "string option"

record merged_fields = terminal_fields +
  tv_revision :: int
  tv_server_ack_revision :: int

definition terminal_values :: "reminder_row \<Rightarrow> string \<Rightarrow> int \<Rightarrow> terminal_fields" where
  "terminal_values r lifecycle at_ms =
     (let was = rem_state r = ''delivered''; next_state = (if was then ''delivered'' else lifecycle)
      in if next_state = ''delivered''
         then \<lparr>tv_state = next_state,
               tv_actual_fire_at_ms = (if was then actual_fire_at_ms r else Some at_ms),
               tv_cancelled_at_ms = None,
               tv_delivered_at_ms = (if was then delivered_at_ms r else Some at_ms),
               tv_delivered_event_id = (if was then delivered_event_id r else None)\<rparr>
         else \<lparr>tv_state = next_state, tv_actual_fire_at_ms = None,
               tv_cancelled_at_ms = Some at_ms, tv_delivered_at_ms = None,
               tv_delivered_event_id = None\<rparr>)"

definition merged_remote_terminal_values ::
  "reminder_row \<Rightarrow> string \<Rightarrow> int \<Rightarrow> int \<Rightarrow> merged_fields" where
  "merged_remote_terminal_values r lifecycle at_ms rv =
     (let v = terminal_values r lifecycle at_ms
      in \<lparr>tv_state = tv_state v, tv_actual_fire_at_ms = tv_actual_fire_at_ms v,
          tv_cancelled_at_ms = tv_cancelled_at_ms v, tv_delivered_at_ms = tv_delivered_at_ms v,
          tv_delivered_event_id = tv_delivered_event_id v,
          tv_revision = max (revision r) rv,
          tv_server_ack_revision = max (server_ack_revision r) rv\<rparr>)"

definition terminal_materialization_changes :: "reminder_row \<Rightarrow> merged_fields \<Rightarrow> bool" where
  "terminal_materialization_changes r v \<longleftrightarrow>
     rem_state r \<noteq> tv_state v \<or> revision r \<noteq> tv_revision v
     \<or> server_ack_revision r < tv_server_ack_revision v \<or> payload_format r = None
     \<or> actual_fire_at_ms r \<noteq> tv_actual_fire_at_ms v \<or> cancelled_at_ms r \<noteq> tv_cancelled_at_ms v
     \<or> delivered_at_ms r \<noteq> tv_delivered_at_ms v \<or> delivered_event_id r \<noteq> tv_delivered_event_id v
     \<or> claimed_at_ms r \<noteq> None \<or> sync_retry_after_ms r \<noteq> None \<or> sync_retry_count r \<noteq> 0
     \<or> sync_permanent_revision r \<noteq> None \<or> sync_permanent_code r \<noteq> None
     \<or> delivery_claim_id r \<noteq> None \<or> delivery_claim_acquired r
     \<or> delivery_claim_expires_at_ms r \<noteq> None \<or> snapshot_conflict r"

definition scheduled_snapshot_matches :: "reminder_row \<Rightarrow> remote_reminder \<Rightarrow> bool" where
  "scheduled_snapshot_matches r s \<longleftrightarrow>
     reminder_id r = rm_reminder_id s \<and> rem_target r = rm_target s \<and> rem_content r = rm_content s
     \<and> intended_at_ms r = rm_intended_at_ms s \<and> payload_format r = Some (rm_payload_format s)
     \<and> opaque_payload r = Some (rm_opaque_payload s)"

definition mark_occurrence_snapshot_conflict ::
  "string \<Rightarrow> db \<Rightarrow> (ReminderMaterializationResult \<times> db) res" where
  "mark_occurrence_snapshot_conflict oid d =
     (let P = (\<lambda>r. occurrence_id r = oid \<and> \<not> snapshot_conflict r)
      in res_bind (update_reminders P (\<lambda>r. r\<lparr>snapshot_conflict := True\<rparr>) d)
         (\<lambda>d'. Inr (materialized (count_reminders P d = 1) True, d')))"

definition mark_reminder_snapshot_conflict ::
  "string \<Rightarrow> db \<Rightarrow> (ReminderMaterializationResult \<times> db) res" where
  "mark_reminder_snapshot_conflict rid d =
     (let P = (\<lambda>r. reminder_id r = rid \<and> \<not> snapshot_conflict r)
      in res_bind (update_reminders P (\<lambda>r. r\<lparr>snapshot_conflict := True\<rparr>) d)
         (\<lambda>d'. if count_reminders P d \<noteq> 0 then Inr (materialized True True, d')
               else Inr (materialized False False, d)))"

definition materialize_remote_scheduled_reminder ::
  "remote_reminder \<Rightarrow> db \<Rightarrow> (ReminderMaterializationResult \<times> db) res" where
  "materialize_remote_scheduled_reminder s d =
     res_bind (validate_remote_scheduled_reminder s) (\<lambda>_.
       let oid = rm_occurrence_id s
       in case find_occurrence oid d of
            Some r \<Rightarrow>
              if \<not> live_reminder r then Inr (materialized False False, d)
              else if \<not> scheduled_snapshot_matches r s then mark_occurrence_snapshot_conflict oid d
              else let ack = min (rm_revision s) (revision r);
                       P = (\<lambda>r. occurrence_id r = oid
                              \<and> (server_ack_revision r < ack \<or> snapshot_conflict r))
                   in res_bind (update_reminders P
                        (\<lambda>r. r\<lparr>server_ack_revision := max (server_ack_revision r) ack,
                               snapshot_conflict := False\<rparr>) d)
                      (\<lambda>d'. Inr (materialized (count_reminders P d = 1) False, d'))
          | None \<Rightarrow>
              if find_reminder (rm_reminder_id s) d \<noteq> None
              then mark_reminder_snapshot_conflict (rm_reminder_id s) d
              else res_bind (insert_reminder
                     ((new_reminder (rm_reminder_id s) oid (rm_target s) (rm_content s)
                         (rm_intended_at_ms s) (rm_lifecycle_at_ms s))
                      \<lparr>revision := rm_revision s, server_ack_revision := rm_revision s,
                       payload_format := Some (rm_payload_format s),
                       opaque_payload := Some (rm_opaque_payload s)\<rparr>) d)
                   (\<lambda>d'. Inr (materialized True False, d')))"

definition apply_terminal :: "merged_fields \<Rightarrow> string \<Rightarrow> reminder_row \<Rightarrow> reminder_row" where
  "apply_terminal v fmt r =
     r\<lparr>rem_state := tv_state v, claimed_at_ms := None,
       actual_fire_at_ms := tv_actual_fire_at_ms v, cancelled_at_ms := tv_cancelled_at_ms v,
       delivered_at_ms := tv_delivered_at_ms v, delivered_event_id := tv_delivered_event_id v,
       revision := tv_revision v, server_ack_revision := tv_server_ack_revision v,
       payload_format := Some (get_default (payload_format r) fmt),
       sync_retry_after_ms := None, sync_retry_count := 0, sync_permanent_revision := None,
       sync_permanent_code := None, delivery_claim_id := None, delivery_claim_acquired := False,
       delivery_claim_expires_at_ms := None, snapshot_conflict := False\<rparr>"

definition materialize_remote_terminal_reminder ::
  "string \<Rightarrow> string \<Rightarrow> int \<Rightarrow> string \<Rightarrow> int \<Rightarrow> int \<Rightarrow> string \<Rightarrow> db
   \<Rightarrow> (ReminderMaterializationResult \<times> db) res" where
  "materialize_remote_terminal_reminder rid oid intended lifecycle at_ms rv fmt d =
     res_bind (validate_remote_terminal_reminder rid oid lifecycle rv fmt) (\<lambda>_.
       case find_occurrence oid d of
         None \<Rightarrow> mark_reminder_snapshot_conflict rid d
       | Some r \<Rightarrow>
           if reminder_id r \<noteq> rid \<or> intended_at_ms r \<noteq> intended
              \<or> payload_format r \<notin> {None, Some fmt}
           then mark_occurrence_snapshot_conflict oid d
           else let v = merged_remote_terminal_values r lifecycle at_ms rv
                in if \<not> terminal_materialization_changes r v then Inr (materialized False False, d)
                   else res_bind (update_reminders (\<lambda>r. occurrence_id r = oid) (apply_terminal v fmt) d)
                        (\<lambda>d'. Inr (materialized True False, d')))"

end
