(* ===== verification/Reminder_Delivery.thy ===== *)
theory Reminder_Delivery
  imports Receipts Reminder_Sync
begin

section \<open>Reminders: claims, delivery, replacement, cancellation\<close>

text \<open>
  The operations of \<open>ReminderStoreMixin\<close> that move a reminder through its life. A call that reads
  the clock several times takes each reading as an argument. \<open>deliver_due_reminders\<close> and
  \<open>deliver_authorized_reminders\<close> commit one transaction per reminder: they return the database
  with their result, because what earlier transactions committed stays when a later one raises.
\<close>

subsection \<open>Remote delivery claims\<close>

definition persist_reminder_delivery_claim_id ::
  "string \<Rightarrow> int \<Rightarrow> string \<Rightarrow> db \<Rightarrow> (reminder_row option \<times> db) res" where
  "persist_reminder_delivery_claim_id oid rv claim d =
     (if oid = [] \<or> rv \<le> 0 \<or> claim = [] \<or> \<not> uuid_reads claim
      then Inl (ValueError ''invalid reminder delivery claim'')
      else case find_occurrence oid d of
        None \<Rightarrow> Inr (None, d)
      | Some r \<Rightarrow>
          if revision r \<noteq> rv then Inr (None, d)
          else if delivery_claim_id r \<noteq> None then Inr (Some r, d)
          else res_bind (update_reminders
                 (\<lambda>r. occurrence_id r = oid \<and> revision r = rv \<and> delivery_claim_id r = None
                      \<and> \<not> snapshot_conflict r)
                 (\<lambda>r. r\<lparr>delivery_claim_id := Some claim\<rparr>) d)
               (\<lambda>d'. Inr (find_occurrence oid d', d')))"

definition acquire_reminder_delivery_claim ::
  "string \<Rightarrow> int \<Rightarrow> string \<Rightarrow> int \<Rightarrow> db \<Rightarrow> (bool \<times> db) res" where
  "acquire_reminder_delivery_claim oid rv claim expires d =
     (let P = (\<lambda>r. occurrence_id r = oid \<and> revision r = rv \<and> delivery_claim_id r = Some claim
                  \<and> live_reminder r \<and> \<not> snapshot_conflict r)
      in res_bind (update_reminders P
           (\<lambda>r. r\<lparr>delivery_claim_acquired := True, delivery_claim_expires_at_ms := Some expires\<rparr>) d)
         (\<lambda>d'. Inr (count_reminders P d = 1, d')))"

subsection \<open>Entering the claimed state\<close>

definition claim_row :: "int \<Rightarrow> reminder_row \<Rightarrow> reminder_row" where
  "claim_row now r = r\<lparr>rem_state := ''claimed'', claimed_at_ms := Some now,
                        actual_fire_at_ms := Some now\<rparr>"

definition claim_authorized_reminders ::
  "int \<Rightarrow> int \<Rightarrow> string list \<Rightarrow> int \<Rightarrow> db \<Rightarrow> (reminder_row list \<times> db) res" where
  "claim_authorized_reminders claim_now select_now oids now d =
     (if oids = [] then Inr ([], d)
      else res_bind (update_reminders
             (\<lambda>r. occurrence_id r \<in> set oids \<and> rem_state r = ''scheduled''
                  \<and> reminder_delivery_custody claim_now r) (claim_row now) d)
           (\<lambda>d'. Inr (by_intended (filter (\<lambda>r. occurrence_id r \<in> set oids
                        \<and> rem_state r = ''claimed'' \<and> reminder_delivery_custody select_now r)
                        (reminder_occurrences d')), d')))"

text \<open>\<open>_claim_due_reminders_unlocked\<close>: select the due rows, claim them one by one, then read
  back those whose UPDATE counted one row.\<close>

fun claim_each :: "int \<Rightarrow> string list \<Rightarrow> string list \<Rightarrow> db \<Rightarrow> (string list \<times> db) res" where
  "claim_each now [] claimed d = Inr (claimed, d)"
| "claim_each now (rid # rids) claimed d =
     (let P = (\<lambda>r. reminder_id r = rid \<and> rem_state r = ''scheduled'' \<and> reminder_local_delivery r)
      in res_bind (update_reminders P (claim_row now) d)
         (claim_each now rids (if count_reminders P d = 1 then claimed @ [rid] else claimed)))"

fun read_reminders :: "string list \<Rightarrow> db \<Rightarrow> reminder_row list res" where
  "read_reminders [] d = Inr []"
| "read_reminders (rid # rids) d =
     (case find_reminder rid d of
        None \<Rightarrow> Inl AssertionFailure
      | Some r \<Rightarrow> res_bind (read_reminders rids d) (\<lambda>rs. Inr (r # rs)))"

definition due_local :: "int \<Rightarrow> reminder_row \<Rightarrow> bool" where
  "due_local now r \<longleftrightarrow>
     rem_state r = ''scheduled'' \<and> intended_at_ms r \<le> now \<and> reminder_local_delivery r"

definition claim_due_reminders :: "int \<Rightarrow> db \<Rightarrow> (reminder_row list \<times> db) res" where
  "claim_due_reminders now d =
     res_bind (claim_each now
        (map reminder_id (by_intended (filter (due_local now) (reminder_occurrences d)))) [] d)
     (\<lambda>(claimed, d'). res_bind (read_reminders claimed d') (\<lambda>rs. Inr (rs, d')))"

subsection \<open>The Inbox event of a reminder\<close>

definition reminder_event_id :: "string \<Rightarrow> string" where
  "reminder_event_id oid = ''reminder-occurrence:'' @ oid"

definition reminder_event_payload :: "reminder_row \<Rightarrow> payload res" where
  "reminder_event_payload r =
     res_bind (parse_inbox_target (rem_target r)) (\<lambda>(kind, space, chan, tail).
       case actual_fire_at_ms r of
         None \<Rightarrow> Inl (LifecycleConflict ''claimed reminder is missing actual fire time'')
       | Some fire \<Rightarrow>
           res_bind (reminder_time_to_rfc3339 (intended_at_ms r)) (\<lambda>intended_text.
           res_bind (reminder_time_to_rfc3339 fire) (\<lambda>fire_text.
             let body = JObj [(''event_type'', JStr ''reminder''),
                              (''reminder_id'', JStr (reminder_id r)),
                              (''occurrence_id'', JStr (occurrence_id r)),
                              (''target'', JStr (rem_target r)), (''content'', JStr (rem_content r)),
                              (''intended_at'', JStr intended_text), (''actual_fire_at'', JStr fire_text)];
                 base = \<lparr>p_envelope_id = Some (reminder_event_id (occurrence_id r)),
                         p_envelope_kind = Some ''dm'', p_sender_slug = Some tail,
                         p_channel_id = None, p_space_id = None, p_recipient_slug = Some [],
                         p_content_type = Some ''application/puffo-reminder+json'',
                         p_content = Some body, p_sent_at = Some fire, p_thread_root_id = None,
                         p_reply_to_id = None, p_thread_root_unverified = None,
                         p_is_encrypted = None\<rparr>
             in Inr (if kind = ''dm'' then base
                     else base\<lparr>p_envelope_kind := Some ''channel'', p_sender_slug := Some ''reminder'',
                               p_channel_id := Some chan, p_space_id := Some space,
                               p_recipient_slug := None,
                               p_thread_root_id := (if tail \<noteq> [] then Some tail else None)\<rparr>))))"

text \<open>The check on a row that already has the event's id: its content column is parsed as it is
  stored.\<close>

definition existing_event_ok :: "string \<Rightarrow> message_row \<Rightarrow> bool" where
  "existing_event_ok oid m \<longleftrightarrow>
     receipt_disposition m = Some LOCAL_RUNTIME \<and>
     (case json_loads (content m) of
        Some (JObj kvs) \<Rightarrow> json_get (JObj kvs) ''event_type'' = Some (JStr ''reminder'')
                           \<and> json_get (JObj kvs) ''occurrence_id'' = Some (JStr oid)
      | _ \<Rightarrow> False)"

subsection \<open>Delivery\<close>

definition deliver_row :: "string \<Rightarrow> int \<Rightarrow> reminder_row \<Rightarrow> reminder_row" where
  "deliver_row event_id now r =
     r\<lparr>rem_state := ''delivered'',
       delivered_event_id := Some event_id,
       delivered_at_ms := Some now, revision := revision r + 1, sync_retry_after_ms := None,
       sync_retry_count := 0, sync_permanent_revision := None, sync_permanent_code := None\<rparr>"

definition claimed_with_custody :: "string \<Rightarrow> int \<Rightarrow> reminder_row \<Rightarrow> bool" where
  "claimed_with_custody rid now r \<longleftrightarrow>
     reminder_id r = rid \<and> rem_state r = ''claimed'' \<and> reminder_delivery_custody now r"

definition ensure_reminder_event :: "int \<Rightarrow> int \<Rightarrow> reminder_row \<Rightarrow> db \<Rightarrow> db res" where
  "ensure_reminder_event refresh_now now r d =
     (case sql_fetchone (\<lambda>m. envelope_id m = reminder_event_id (occurrence_id r)) (messages d) of
        None \<Rightarrow> res_bind (reminder_event_payload r) (\<lambda>p.
                 insert_local_event refresh_now (payload_values refresh_now p (Some now))
                   ''reminder occurrence'' d)
      | Some m \<Rightarrow>
          if existing_event_ok (occurrence_id r) m then Inr d
          else Inl (LifecycleConflict ''reminder delivery event identity belongs to another row''))"

text \<open>\<open>_deliver_claimed_reminder_unlocked\<close>, its clock read before the selection, in the refresh of
  the notice row, and before the terminal UPDATE. A lost row rolls the inserted event back.\<close>

definition deliver_claimed_reminder ::
  "int \<times> int \<times> int \<Rightarrow> string \<Rightarrow> int \<Rightarrow> db \<Rightarrow> (reminder_row option \<times> db) res" where
  "deliver_claimed_reminder clocks rid now d =
     (let (select_now, refresh_now, final_now) = clocks
      in case sql_fetchone (claimed_with_custody rid select_now) (reminder_occurrences d) of
        None \<Rightarrow> Inr (None, d)
      | Some r \<Rightarrow>
          res_bind (ensure_reminder_event refresh_now now r d) (\<lambda>d1.
            let P = claimed_with_custody rid final_now
            in res_bind (update_reminders P
                 (deliver_row (reminder_event_id (occurrence_id r)) now) d1)
               (\<lambda>d2. if count_reminders P d1 \<noteq> 1 then Inr (None, d)
                     else res_bind (reminder_back rid d2) (\<lambda>(r', d3). Inr (Some r', d3)))))"

fun deliver_each ::
  "(nat \<Rightarrow> int \<times> int \<times> int) \<Rightarrow> nat \<Rightarrow> string list \<Rightarrow> int \<Rightarrow> reminder_row list \<Rightarrow> db
   \<Rightarrow> reminder_row list res \<times> db" where
  "deliver_each clk i [] now done_rows d = (Inr done_rows, d)"
| "deliver_each clk i (rid # rids) now done_rows d =
     (case deliver_claimed_reminder (clk i) rid now d of
        Inl e \<Rightarrow> (Inl e, d)
      | Inr (None, d') \<Rightarrow> deliver_each clk (i + 1) rids now done_rows d'
      | Inr (Some r, d') \<Rightarrow> deliver_each clk (i + 1) rids now (done_rows @ [r]) d')"

definition deliver_due_reminders ::
  "(nat \<Rightarrow> int \<times> int \<times> int) \<Rightarrow> int \<Rightarrow> db \<Rightarrow> reminder_row list res \<times> db" where
  "deliver_due_reminders clk now d =
     (case claim_due_reminders now d of
        Inl e \<Rightarrow> (Inl e, d)
      | Inr (_, d') \<Rightarrow>
          deliver_each clk 0
            (map reminder_id (by_intended (filter (\<lambda>r. rem_state r = ''claimed'' \<and> reminder_local_delivery r)
               (reminder_occurrences d')))) now [] d')"

definition deliver_authorized_reminders ::
  "(nat \<Rightarrow> int \<times> int \<times> int) \<Rightarrow> int \<Rightarrow> string list \<Rightarrow> int \<Rightarrow> db \<Rightarrow> reminder_row list res \<times> db" where
  "deliver_authorized_reminders clk custody_now oids now d =
     (if oids = [] then (Inr [], d)
      else deliver_each clk 0
             (map reminder_id (by_intended (filter (\<lambda>r. occurrence_id r \<in> set oids
                \<and> rem_state r = ''claimed'' \<and> reminder_delivery_custody custody_now r)
                (reminder_occurrences d)))) now [] d)"

subsection \<open>Replacement\<close>

text \<open>\<open>_replacement_terminal_fields\<close>: fire, cancellation and delivery time.\<close>

definition replacement_terminal_fields ::
  "string \<Rightarrow> int \<Rightarrow> (int option \<times> int option \<times> int option) res" where
  "replacement_terminal_fields lifecycle at_ms =
     (if lifecycle = ''scheduled'' then Inr (None, None, None)
      else if lifecycle = ''cancelled'' then Inr (None, Some at_ms, None)
      else if lifecycle = ''delivered'' then Inr (Some at_ms, None, Some at_ms)
      else Inl (ValueError ''invalid replacement lifecycle''))"

definition replacement_matches ::
  "reminder_row \<Rightarrow> string \<Rightarrow> string \<Rightarrow> string \<Rightarrow> int \<Rightarrow> string option \<Rightarrow> string option \<Rightarrow> bool" where
  "replacement_matches r rid tgt cont intended fmt opaque \<longleftrightarrow>
     reminder_id r = rid \<and> rem_target r = tgt \<and> rem_content r = cont
     \<and> intended_at_ms r = intended \<and> payload_format r = fmt \<and> opaque_payload r = opaque"

definition replace_local_reminder ::
  "string \<Rightarrow> string \<Rightarrow> string \<Rightarrow> string \<Rightarrow> string \<Rightarrow> int \<Rightarrow> int \<Rightarrow> db
   \<Rightarrow> ((reminder_row \<times> reminder_row) \<times> db) res" where
  "replace_local_reminder rid new_rid new_oid cont tgt intended replaced_at d =
     res_bind (parse_inbox_target tgt) (\<lambda>_.
       if cont = [] \<or> int (reminder_plaintext_envelope_size tgt cont) > MAX_REMINDER_ENVELOPE_BYTES
       then Inl (ValueError ''invalid reminder replacement'')
       else case find_reminder rid d of
         None \<Rightarrow> Inl (ValueError ''unknown reminder_id'')
       | Some old \<Rightarrow>
         (case find_occurrence (occurrence_id old) d of
            None \<Rightarrow> Inl AssertionFailure
          | Some record \<Rightarrow>
            (case (rem_state old = ''cancelled'', find_occurrence new_oid d) of
               (True, Some existing) \<Rightarrow>
                 if \<not> replacement_matches existing new_rid tgt cont intended None None
                 then Inl (LifecycleConflict ''replacement identity changed'')
                 else Inr ((old, existing), d)
             | (False, Some existing) \<Rightarrow>
                 Inl (LifecycleConflict ''replacement identity already exists'')
             | (_, None) \<Rightarrow>
                 if rem_state old \<noteq> ''scheduled'' \<or> \<not> is_unprepared_local_only record
                 then Inl (LifecycleConflict ''reminder replacement conflicts with claimed or remote work'')
                 else res_bind (insert_reminder
                        (new_reminder new_rid new_oid tgt cont intended replaced_at) d) (\<lambda>d1.
                      res_bind (update_reminders
                        (\<lambda>r. reminder_id r = rid \<and> rem_state r = ''scheduled'')
                        (\<lambda>r. r\<lparr>rem_state := ''cancelled'', cancelled_at_ms := Some replaced_at,
                               revision := 2, sync_retry_after_ms := None, sync_retry_count := 0\<rparr>) d1)
                      (\<lambda>d2. res_bind (reminder_back rid d2) (\<lambda>(cancelled, _).
                             res_bind (reminder_back new_rid d2) (\<lambda>(replacement, _).
                               Inr ((cancelled, replacement), d2))))))))"

definition validate_remote_replacement_fields ::
  "remote_reminder \<Rightarrow> string \<Rightarrow> (int option \<times> int option \<times> int option) res" where
  "validate_remote_replacement_fields s lifecycle =
     res_bind (validate_remote_scheduled_reminder s) (\<lambda>_.
       if rm_revision s \<noteq> (if lifecycle = ''scheduled'' then 1 else 2)
       then Inl (ValueError ''invalid replacement lifecycle revision'')
       else replacement_terminal_fields lifecycle (rm_lifecycle_at_ms s))"

definition upsert_remote_replacement ::
  "remote_reminder \<Rightarrow> int \<Rightarrow> string \<Rightarrow> int option \<times> int option \<times> int option \<Rightarrow> db \<Rightarrow> db res" where
  "upsert_remote_replacement s created lifecycle flds d =
     (let (fire, cancelled, delivered) = flds; oid = rm_occurrence_id s
      in case find_occurrence oid d of
           None \<Rightarrow> insert_reminder
             ((new_reminder (rm_reminder_id s) oid (rm_target s) (rm_content s)
                 (rm_intended_at_ms s) created)
              \<lparr>rem_state := lifecycle, actual_fire_at_ms := fire, cancelled_at_ms := cancelled,
               delivered_at_ms := delivered, revision := rm_revision s,
               server_ack_revision := rm_revision s, payload_format := Some (rm_payload_format s),
               opaque_payload := Some (rm_opaque_payload s)\<rparr>) d
         | Some r \<Rightarrow>
             if \<not> replacement_matches r (rm_reminder_id s) (rm_target s) (rm_content s)
                  (rm_intended_at_ms s) (Some (rm_payload_format s)) (Some (rm_opaque_payload s))
             then Inl (LifecycleConflict ''replacement identity changed'')
             else if live_reminder r \<and> lifecycle \<noteq> ''scheduled''
             then update_reminders (\<lambda>r. occurrence_id r = oid \<and> live_reminder r)
               (\<lambda>r. r\<lparr>rem_state := lifecycle, actual_fire_at_ms := fire, cancelled_at_ms := cancelled,
                      delivered_at_ms := delivered, revision := rm_revision s,
                      server_ack_revision := rm_revision s, claimed_at_ms := None,
                      delivery_claim_id := None, delivery_claim_acquired := False,
                      delivery_claim_expires_at_ms := None, sync_retry_after_ms := None,
                      sync_retry_count := 0, sync_permanent_revision := None,
                      sync_permanent_code := None, snapshot_conflict := False\<rparr>) d
             else Inr d)"

definition cancel_replaced_row :: "int \<Rightarrow> reminder_row \<Rightarrow> reminder_row" where
  "cancel_replaced_row at_ms r =
     (let was = rem_state r = ''delivered''
      in r\<lparr>rem_state := (if was then rem_state r else ''cancelled''), claimed_at_ms := None,
           actual_fire_at_ms := (if was then actual_fire_at_ms r else None),
           cancelled_at_ms := (if was then cancelled_at_ms r else Some at_ms),
           delivered_at_ms := (if was then delivered_at_ms r else None),
           delivered_event_id := (if was then delivered_event_id r else None),
           revision := max (revision r) 2, server_ack_revision := max (server_ack_revision r) 2,
           delivery_claim_id := None, delivery_claim_acquired := False,
           delivery_claim_expires_at_ms := None, sync_retry_after_ms := None,
           sync_retry_count := 0, sync_permanent_revision := None, sync_permanent_code := None,
           snapshot_conflict := False\<rparr>)"

definition materialize_remote_replacement ::
  "string \<Rightarrow> string \<Rightarrow> int \<Rightarrow> remote_reminder \<Rightarrow> int \<Rightarrow> string \<Rightarrow> db
   \<Rightarrow> ((reminder_row \<times> reminder_row) \<times> db) res" where
  "materialize_remote_replacement rid oid cancelled_at s created lifecycle d =
     res_bind (validate_remote_replacement_fields s lifecycle) (\<lambda>flds.
       case find_occurrence oid d of
         None \<Rightarrow> Inl (LifecycleConflict ''reminder replacement identity changed'')
       | Some old \<Rightarrow>
           if reminder_id old \<noteq> rid
           then Inl (LifecycleConflict ''reminder replacement identity changed'')
           else if rem_state old \<notin> set REMINDER_STATES
           then Inl (LifecycleConflict ''invalid reminder lifecycle'')
           else res_bind (upsert_remote_replacement s created lifecycle flds d) (\<lambda>d1.
                res_bind (update_reminders (\<lambda>r. occurrence_id r = oid)
                            (cancel_replaced_row cancelled_at) d1) (\<lambda>d2.
                res_bind (reminder_back rid d2) (\<lambda>(cancelled, _).
                res_bind (reminder_back (rm_reminder_id s) d2) (\<lambda>(new, _).
                  Inr ((cancelled, new), d2))))))"

subsection \<open>Cancellation\<close>

definition cancel_row :: "int \<Rightarrow> reminder_row \<Rightarrow> reminder_row" where
  "cancel_row at_ms r =
     r\<lparr>rem_state := ''cancelled'', cancelled_at_ms := Some at_ms, claimed_at_ms := None,
       actual_fire_at_ms := None, revision := revision r + 1, delivery_claim_id := None,
       delivery_claim_acquired := False, delivery_claim_expires_at_ms := None,
       sync_retry_after_ms := None, sync_retry_count := 0, sync_permanent_revision := None,
       sync_permanent_code := None\<rparr>"

definition cancel_reminder :: "string \<Rightarrow> int \<Rightarrow> db \<Rightarrow> (reminder_row \<times> db) res" where
  "cancel_reminder rid cancelled_at d =
     (if rid = [] then Inl (ValueError ''reminder_id must be a non-empty string'')
      else case find_reminder rid d of
        None \<Rightarrow> Inl (ValueError ''unknown reminder_id'')
      | Some r \<Rightarrow>
        (case find_occurrence (occurrence_id r) d of
           None \<Rightarrow> Inl AssertionFailure
         | Some record \<Rightarrow>
             if live_reminder r \<and> \<not> is_unprepared_local_only record
             then Inl (LifecycleConflict ''reminder cancellation conflicts with claimed or remote work'')
             else if live_reminder r
             then (let P = (\<lambda>r. reminder_id r = rid \<and> live_reminder r)
                   in res_bind (update_reminders P (cancel_row cancelled_at) d) (\<lambda>d1.
                        if count_reminders P d \<noteq> 1
                        then Inl (LifecycleConflict ''reminder cancellation lost ownership'')
                        else reminder_back rid d1))
             else reminder_back rid d))"

end
