(* ===== verification/Reminder_Facts.thy ===== *)
theory Reminder_Facts
  imports Reminder_Delivery Receipt_Facts
begin

section \<open>The invariant and the life of reminders\<close>

text \<open>
  \<open>reminder_wf\<close> says which timestamps a row has in each state, that the Server never acknowledged a
  revision the row does not have, and that a delivery lease belongs to a claim.
  \<open>reminder_evolves\<close> is what a transaction may do to a row: its identity and intent never change,
  an envelope once written stays, a delivered row stays as it was delivered, a cancelled row never
  becomes live again. Every operation keeps both.
\<close>

subsection \<open>Well-formed rows\<close>

definition reminder_times_ok :: "reminder_row \<Rightarrow> bool" where
  "reminder_times_ok r \<longleftrightarrow>
     (if rem_state r = ''delivered''
      then actual_fire_at_ms r \<noteq> None \<and> delivered_at_ms r \<noteq> None \<and> cancelled_at_ms r = None \<and>
           (delivered_event_id r = None
            \<or> delivered_event_id r = Some (reminder_event_id (occurrence_id r)))
      else delivered_at_ms r = None \<and> delivered_event_id r = None \<and>
           (cancelled_at_ms r \<noteq> None \<longleftrightarrow> rem_state r = ''cancelled'') \<and>
           (claimed_at_ms r \<noteq> None \<longleftrightarrow> rem_state r = ''claimed'') \<and>
           (actual_fire_at_ms r \<noteq> None \<longleftrightarrow> rem_state r = ''claimed''))"

definition reminder_wf :: "reminder_row \<Rightarrow> bool" where
  "reminder_wf r \<longleftrightarrow>
     reminder_checks r \<and> reminder_times_ok r \<and>
     server_ack_revision r \<le> revision r \<and>
     (live_reminder r \<and> server_ack_revision r = 0 \<longrightarrow> revision r = 1) \<and>
     (delivery_claim_acquired r \<longrightarrow> delivery_claim_id r \<noteq> None) \<and>
     (delivery_claim_acquired r \<longleftrightarrow> delivery_claim_expires_at_ms r \<noteq> None) \<and>
     (opaque_payload r \<noteq> None \<longrightarrow> payload_format r \<noteq> None)"

definition reminders_ok :: "db \<Rightarrow> bool" where
  "reminders_ok d \<longleftrightarrow>
     distinct (map reminder_id (reminder_occurrences d)) \<and>
     distinct (map occurrence_id (reminder_occurrences d)) \<and>
     (\<forall>r\<in>set (reminder_occurrences d). reminder_wf r)"

interpretation reminder_pk: primary_key reminder_occurrences reminder_id reminders_ok
  by unfold_locales (simp add: reminders_ok_def)

interpretation occurrence_pk: primary_key reminder_occurrences occurrence_id reminders_ok
  by unfold_locales (simp add: reminders_ok_def)

text \<open>The unique index on \<open>delivered_event_id\<close> follows from the one on \<open>occurrence_id\<close>.\<close>

lemma delivered_events_distinct:
  assumes "distinct (map occurrence_id rows)" "\<forall>r\<in>set rows. reminder_wf r"
  shows "distinct (List.map_filter delivered_event_id rows)"
  using assms
proof (induction rows)
  case Nil
  then show ?case by (simp add: map_filter_simps)
next
  case (Cons r rows)
  let ?e = "reminder_event_id (occurrence_id r)"
  have "?e \<notin> set (List.map_filter delivered_event_id rows)"
  proof
    assume "?e \<in> set (List.map_filter delivered_event_id rows)"
    then obtain x where x: "x \<in> set rows" "delivered_event_id x = Some ?e"
      by (auto simp: map_filter_def)
    with Cons.prems have "reminder_wf x" by simp
    with x(2) have "?e = reminder_event_id (occurrence_id x)"
      by (auto simp: reminder_wf_def reminder_times_ok_def split: if_splits)
    then have "occurrence_id x = occurrence_id r" by (simp add: reminder_event_id_def)
    moreover from x(1) have "occurrence_id x \<in> occurrence_id ` set rows" by (rule imageI)
    ultimately show False using Cons.prems(1) by simp
  qed
  moreover have "delivered_event_id r = None
      \<or> delivered_event_id r = Some (reminder_event_id (occurrence_id r))"
    using Cons.prems by (auto simp: reminder_wf_def reminder_times_ok_def split: if_splits)
  ultimately show ?case
    using Cons by (auto simp: map_filter_simps)
qed

lemma write_reminders_total:
  assumes "distinct (map reminder_id rows)" "distinct (map occurrence_id rows)"
    and "\<forall>r\<in>set rows. reminder_wf r"
  shows "write_reminders rows d = Inr (d\<lparr>reminder_occurrences := rows\<rparr>)"
  using assms delivered_events_distinct [OF assms(2,3)]
  by (simp add: write_reminders_def list_all_iff reminder_wf_def)

lemma write_reminders_Inr:
  "write_reminders rows d = Inr d' \<Longrightarrow>
     d' = d\<lparr>reminder_occurrences := rows\<rparr> \<and> distinct (map reminder_id rows)
     \<and> distinct (map occurrence_id rows)"
  by (simp add: write_reminders_def split: if_splits)

subsection \<open>Evolution\<close>

definition reminder_evolves :: "reminder_row \<Rightarrow> reminder_row \<Rightarrow> bool" where
  "reminder_evolves r r' \<longleftrightarrow>
     reminder_id r' = reminder_id r \<and> occurrence_id r' = occurrence_id r \<and>
     rem_target r' = rem_target r \<and> rem_content r' = rem_content r \<and>
     intended_at_ms r' = intended_at_ms r \<and> created_at_ms r' = created_at_ms r \<and>
     (opaque_payload r \<noteq> None \<longrightarrow>
        opaque_payload r' = opaque_payload r \<and> payload_format r' = payload_format r) \<and>
     (rem_state r' = ''scheduled'' \<longrightarrow> rem_state r = ''scheduled'') \<and>
     (live_reminder r' \<longrightarrow> live_reminder r) \<and>
     (rem_state r = ''delivered'' \<longrightarrow>
        rem_state r' = ''delivered'' \<and> actual_fire_at_ms r' = actual_fire_at_ms r \<and>
        delivered_at_ms r' = delivered_at_ms r \<and> delivered_event_id r' = delivered_event_id r)"

lemma reminder_evolves_refl [simp]: "reminder_evolves r r"
  by (simp add: reminder_evolves_def)

lemma reminder_evolves_trans:
  "reminder_evolves r r' \<Longrightarrow> reminder_evolves r' r'' \<Longrightarrow> reminder_evolves r r''"
  unfolding reminder_evolves_def by (elim conjE, intro conjI impI; simp)

definition reminders_evolve :: "db \<Rightarrow> db \<Rightarrow> bool" where
  "reminders_evolve d d' \<longleftrightarrow>
     (\<forall>r\<in>set (reminder_occurrences d). \<exists>r'\<in>set (reminder_occurrences d'). reminder_evolves r r')"

lemma reminders_evolve_refl [simp]: "reminders_evolve d d"
  by (auto simp: reminders_evolve_def intro: reminder_evolves_refl)

lemma reminders_evolve_trans:
  "reminders_evolve d d' \<Longrightarrow> reminders_evolve d' d'' \<Longrightarrow> reminders_evolve d d''"
  unfolding reminders_evolve_def by (meson reminder_evolves_trans)

text \<open>What a committed transaction on reminders owes.\<close>

definition reminder_tx :: "db \<Rightarrow> db \<Rightarrow> bool" where
  "reminder_tx d d' \<longleftrightarrow> reminders_ok d' \<and> reminders_evolve d d'"

lemma reminder_tx_refl: "reminders_ok d \<Longrightarrow> reminder_tx d d"
  by (simp add: reminder_tx_def)

lemma reminder_tx_trans: "reminder_tx d d' \<Longrightarrow> reminder_tx d' d'' \<Longrightarrow> reminder_tx d d''"
  by (auto simp: reminder_tx_def intro: reminders_evolve_trans)

lemma reminder_tx_frame:
  "reminder_occurrences d1 = reminder_occurrences d \<Longrightarrow> reminder_tx d1 d' = reminder_tx d d'"
  "reminder_occurrences d1 = reminder_occurrences d' \<Longrightarrow> reminder_tx d d1 = reminder_tx d d'"
  by (simp_all add: reminder_tx_def reminders_ok_def reminders_evolve_def)

subsection \<open>UPDATE and INSERT\<close>

definition row_safe :: "(reminder_row \<Rightarrow> bool) \<Rightarrow> (reminder_row \<Rightarrow> reminder_row) \<Rightarrow> bool" where
  "row_safe P f \<longleftrightarrow> (\<forall>r. reminder_wf r \<longrightarrow> P r \<longrightarrow> reminder_wf (f r) \<and> reminder_evolves r (f r))"

lemma update_reminders_total:
  assumes ok: "reminders_ok d" and safe: "row_safe P f"
  shows "update_reminders P f d
      = Inr (d\<lparr>reminder_occurrences := sql_update P f (reminder_occurrences d)\<rparr>)"
    and "reminder_tx d (d\<lparr>reminder_occurrences := sql_update P f (reminder_occurrences d)\<rparr>)"
proof -
  let ?rows = "sql_update P f (reminder_occurrences d)"
  have step: "reminder_wf (f r) \<and> reminder_evolves r (f r)"
    if "r \<in> set (reminder_occurrences d)" "P r" for r
    using that ok safe by (simp add: reminders_ok_def row_safe_def)
  have ids: "map reminder_id ?rows = map reminder_id (reminder_occurrences d)"
    using step by (intro map_sql_update_frame) (auto simp: reminder_evolves_def)
  have occs: "map occurrence_id ?rows = map occurrence_id (reminder_occurrences d)"
    using step by (intro map_sql_update_frame) (auto simp: reminder_evolves_def)
  have wf: "\<forall>r\<in>set ?rows. reminder_wf r"
    using step ok by (auto simp: set_sql_update reminders_ok_def)
  show "update_reminders P f d = Inr (d\<lparr>reminder_occurrences := ?rows\<rparr>)"
    unfolding update_reminders_def
    using ok ids occs wf by (intro write_reminders_total) (simp_all add: reminders_ok_def)
  have "\<exists>r'\<in>set ?rows. reminder_evolves r r'" if "r \<in> set (reminder_occurrences d)" for r
    using that step [OF that] by (cases "P r") (force simp: set_sql_update)+
  then show "reminder_tx d (d\<lparr>reminder_occurrences := ?rows\<rparr>)"
    using ok ids occs wf by (simp add: reminder_tx_def reminders_ok_def reminders_evolve_def)
qed

lemma update_reminders_tx:
  assumes "reminders_ok d" "row_safe P f" "update_reminders P f d = Inr d'"
  shows "reminder_tx d d'"
  using update_reminders_total [OF assms(1,2)] assms(3) by simp

lemma insert_reminder_tx:
  assumes "reminders_ok d" "reminder_wf r" "insert_reminder r d = Inr d'"
  shows "reminder_tx d d'"
proof -
  have d': "d' = d\<lparr>reminder_occurrences := reminder_occurrences d @ [r]\<rparr>"
    and keys: "distinct (map reminder_id (reminder_occurrences d @ [r]))"
      "distinct (map occurrence_id (reminder_occurrences d @ [r]))"
    using write_reminders_Inr [of "reminder_occurrences d @ [r]" d d'] assms(3)
    by (simp_all add: insert_reminder_def)
  show ?thesis
    using d' keys assms(1,2)
    by (auto simp: reminder_tx_def reminders_ok_def reminders_evolve_def intro: reminder_evolves_refl)
qed

lemma insert_reminder_frame:
  "insert_reminder r d = Inr d' \<Longrightarrow> d' = d\<lparr>reminder_occurrences := reminder_occurrences d @ [r]\<rparr>"
  by (auto simp: insert_reminder_def dest: write_reminders_Inr)

lemma update_reminders_frame:
  "update_reminders P f d = Inr d'
   \<Longrightarrow> d' = d\<lparr>reminder_occurrences := sql_update P f (reminder_occurrences d)\<rparr>"
  by (auto simp: update_reminders_def dest: write_reminders_Inr)

text \<open>The message part of the store does not read reminders.\<close>

lemma store_inv_reminders [simp]: "store_inv (d\<lparr>reminder_occurrences := rows\<rparr>) = store_inv d"
  by (simp add: store_inv_def inv_messages_def inv_turns_def inv_notice_def contributions_ok_def
      told_all_def pending_ids_def turn_active_def turn_message_ids_def)

lemma update_reminders_store_inv:
  "update_reminders P f d = Inr d' \<Longrightarrow> store_inv d' = store_inv d"
  by (auto dest: update_reminders_frame)

lemma insert_reminder_store_inv:
  "insert_reminder r d = Inr d' \<Longrightarrow> store_inv d' = store_inv d"
  by (auto dest: insert_reminder_frame)

end
