(* ===== verification/Reminder_Ops.thy ===== *)
theory Reminder_Ops
  imports Reminder_Facts
begin

section \<open>Every reminder operation keeps the invariant\<close>

text \<open>
  First the statements, row by row (\<open>row_safe\<close>), then the operations composed of them
  (\<open>reminder_tx\<close>: the invariant holds afterwards and every row evolved).
\<close>

lemmas reminder_row_defs = reminder_wf_def reminder_checks_def reminder_times_ok_def
  reminder_evolves_def live_reminder_def

lemma reminder_states [simp]:
  "''scheduled'' \<in> set REMINDER_STATES" "''claimed'' \<in> set REMINDER_STATES"
  "''cancelled'' \<in> set REMINDER_STATES" "''delivered'' \<in> set REMINDER_STATES"
  by (simp_all add: REMINDER_STATES_def)

subsection \<open>The statements\<close>

lemma row_safeI:
  assumes "\<And>r. reminder_wf r \<Longrightarrow> P r \<Longrightarrow> reminder_wf (f r)"
    and "\<And>r. reminder_wf r \<Longrightarrow> P r \<Longrightarrow> reminder_evolves r (f r)"
  shows "row_safe P f"
  using assms by (simp add: row_safe_def)

lemma safe_envelope:
  "valid_payload_format fmt \<Longrightarrow> valid_opaque_payload opaque \<Longrightarrow>
   row_safe (\<lambda>r. occurrence_id r = oid \<and> opaque_payload r = None)
     (\<lambda>r. r\<lparr>payload_format := Some fmt, opaque_payload := Some opaque\<rparr>)"
  by (rule row_safeI; cases fmt; auto simp: reminder_row_defs valid_payload_format_def
      valid_opaque_payload_def)

lemma safe_ack:
  "\<not> rv \<le> 0 \<Longrightarrow> row_safe (\<lambda>r. occurrence_id r = oid \<and> revision r = rv \<and> server_ack_revision r < rv)
     (\<lambda>r. r\<lparr>server_ack_revision := rv, sync_retry_after_ms := None, sync_retry_count := 0,
            sync_permanent_revision := None, sync_permanent_code := None\<rparr>)"
  by (rule row_safeI; auto simp: reminder_row_defs)

lemma safe_retry:
  "row_safe (\<lambda>r. occurrence_id r = oid \<and> revision r = rv)
     (\<lambda>r. r\<lparr>sync_retry_after_ms := Some t, sync_retry_count := min (sync_retry_count r + 1) 20,
            sync_permanent_revision := None, sync_permanent_code := None\<rparr>)"
  by (rule row_safeI; auto simp: reminder_row_defs)

lemma safe_failure_code_length: "length (safe_failure_code code) \<le> 64"
  by (simp add: safe_failure_code_def)

lemma safe_permanent:
  "row_safe (\<lambda>r. occurrence_id r = oid \<and> revision r = rv)
     (\<lambda>r. r\<lparr>sync_retry_after_ms := None, sync_permanent_revision := Some rv,
            sync_permanent_code := Some (safe_failure_code code)\<rparr>)"
proof -
  have "length (safe_failure_code code) \<le> 128"
    using safe_failure_code_length [of code] by simp
  then show ?thesis by (intro row_safeI; auto simp: reminder_row_defs)
qed

lemma safe_conflict: "row_safe P (\<lambda>r. r\<lparr>snapshot_conflict := True\<rparr>)"
  by (rule row_safeI; auto simp: reminder_row_defs)

lemma safe_snapshot_ack:
  "ack \<le> rv \<Longrightarrow> 0 < ack \<Longrightarrow> row_safe (\<lambda>r. P r \<and> revision r = rv)
     (\<lambda>r. r\<lparr>server_ack_revision := max (server_ack_revision r) ack, snapshot_conflict := False\<rparr>)"
  by (rule row_safeI; auto simp: reminder_row_defs)

lemma safe_claim_id:
  "row_safe (\<lambda>r. occurrence_id r = oid \<and> revision r = rv \<and> delivery_claim_id r = None
                \<and> \<not> snapshot_conflict r) (\<lambda>r. r\<lparr>delivery_claim_id := Some claim\<rparr>)"
  by (rule row_safeI; auto simp: reminder_row_defs)

lemma safe_acquire:
  "row_safe (\<lambda>r. occurrence_id r = oid \<and> revision r = rv \<and> delivery_claim_id r = Some claim
                \<and> live_reminder r \<and> \<not> snapshot_conflict r)
     (\<lambda>r. r\<lparr>delivery_claim_acquired := True, delivery_claim_expires_at_ms := Some e\<rparr>)"
  by (rule row_safeI; auto simp: reminder_row_defs)

lemma safe_claim:
  "row_safe (\<lambda>r. P r \<and> rem_state r = ''scheduled'' \<and> Q r) (claim_row now)"
  by (rule row_safeI; auto simp: reminder_row_defs claim_row_def)

lemma safe_cancel: "row_safe (\<lambda>r. P r \<and> live_reminder r) (cancel_row t)"
  by (rule row_safeI; auto simp: reminder_row_defs cancel_row_def)

lemma safe_cancel_replaced: "row_safe P (cancel_replaced_row t)"
  by (rule row_safeI; auto simp: reminder_row_defs cancel_replaced_row_def Let_def)

lemma safe_terminal:
  assumes "lifecycle \<in> {''cancelled'', ''delivered''}" "0 < rv" "valid_payload_format fmt"
  shows "row_safe (\<lambda>r. r = r0) (apply_terminal (merged_remote_terminal_values r0 lifecycle t rv) fmt)"
proof (rule row_safeI)
  fix r assume wf: "reminder_wf r" and r: "r = r0"
  let ?v = "merged_remote_terminal_values r0 lifecycle t rv"
  have fmt: "1 \<le> length fmt" "length fmt \<le> 64"
    using assms(3) by (cases fmt; simp add: valid_payload_format_def)+
  have "server_ack_revision r0 \<le> revision r0" using wf r by (simp add: reminder_wf_def)
  then have ord: "rv \<le> revision r0 \<or> server_ack_revision r0 \<le> rv" by linarith
  consider (kept) "rem_state r0 = ''delivered''"
    | (del) "rem_state r0 \<noteq> ''delivered''" "lifecycle = ''delivered''"
    | (can) "rem_state r0 \<noteq> ''delivered''" "lifecycle = ''cancelled''"
    using assms(1) by blast
  then have "reminder_wf (apply_terminal ?v fmt r) \<and> reminder_evolves r (apply_terminal ?v fmt r)"
  proof cases
    case kept
    with wf r assms(2) fmt ord show ?thesis
      by (cases "payload_format r0")
        (simp_all add: reminder_row_defs apply_terminal_def merged_remote_terminal_values_def
          terminal_values_def get_default_def less_max_iff_disj le_max_iff_disj)
  next
    case del
    with wf r assms(2) fmt ord show ?thesis
      by (cases "payload_format r0")
        (simp_all add: reminder_row_defs apply_terminal_def merged_remote_terminal_values_def
          terminal_values_def get_default_def less_max_iff_disj le_max_iff_disj)
  next
    case can
    with wf r assms(2) fmt ord show ?thesis
      by (cases "payload_format r0")
        (simp_all add: reminder_row_defs apply_terminal_def merged_remote_terminal_values_def
          terminal_values_def get_default_def less_max_iff_disj le_max_iff_disj)
  qed
  then show "reminder_wf (apply_terminal ?v fmt r)" "reminder_evolves r (apply_terminal ?v fmt r)"
    by blast+
qed

lemma safe_deliver:
  "row_safe (\<lambda>r. P r \<and> rem_state r = ''claimed'' \<and> Q r \<and> occurrence_id r = oid)
     (deliver_row (reminder_event_id oid) now)"
  by (rule row_safeI; auto simp: reminder_row_defs deliver_row_def)

lemma safe_replace_local:
  "row_safe (\<lambda>r. P r \<and> rem_state r = ''scheduled'' \<and> server_ack_revision r = 0)
     (\<lambda>r. r\<lparr>rem_state := ''cancelled'', cancelled_at_ms := Some t, revision := 2,
            sync_retry_after_ms := None, sync_retry_count := 0\<rparr>)"
  by (rule row_safeI; auto simp: reminder_row_defs)

lemma safe_upsert:
  assumes "replacement_terminal_fields lifecycle t = Inr (fire, cancelled, delivered)"
    and "lifecycle \<noteq> ''scheduled''" "0 < rv"
  shows "row_safe (\<lambda>r. occurrence_id r = oid \<and> live_reminder r)
    (\<lambda>r. r\<lparr>rem_state := lifecycle, actual_fire_at_ms := fire, cancelled_at_ms := cancelled,
           delivered_at_ms := delivered, revision := rv, server_ack_revision := rv,
           claimed_at_ms := None, delivery_claim_id := None, delivery_claim_acquired := False,
           delivery_claim_expires_at_ms := None, sync_retry_after_ms := None,
           sync_retry_count := 0, sync_permanent_revision := None, sync_permanent_code := None,
           snapshot_conflict := False\<rparr>)"
  using assms
  by (intro row_safeI; auto simp: reminder_row_defs replacement_terminal_fields_def split: if_splits)

lemma wf_new_reminder: "reminder_wf (new_reminder rid oid tgt cont intended created)"
  by (simp add: reminder_row_defs new_reminder_def)

lemma wf_new_remote:
  assumes "valid_payload_format fmt" "valid_opaque_payload opaque" "0 < rv"
  shows "reminder_wf ((new_reminder rid oid tgt cont intended created)
    \<lparr>revision := rv, server_ack_revision := rv, payload_format := Some fmt,
     opaque_payload := Some opaque\<rparr>)"
  using assms
  by (cases fmt) (simp_all add: reminder_row_defs new_reminder_def valid_payload_format_def
      valid_opaque_payload_def)

lemma wf_new_replacement:
  assumes "replacement_terminal_fields lifecycle t = Inr (fire, cancelled, delivered)"
    and "valid_payload_format fmt" "valid_opaque_payload opaque" "0 < rv"
  shows "reminder_wf ((new_reminder rid oid tgt cont intended created)
    \<lparr>rem_state := lifecycle, actual_fire_at_ms := fire, cancelled_at_ms := cancelled,
     delivered_at_ms := delivered, revision := rv, server_ack_revision := rv,
     payload_format := Some fmt, opaque_payload := Some opaque\<rparr>)"
  using assms
  by (cases fmt) (auto simp: reminder_row_defs new_reminder_def valid_payload_format_def
      valid_opaque_payload_def replacement_terminal_fields_def split: if_splits)

end
