(* ===== verification/Reminder_Steps.thy ===== *)
theory Reminder_Steps
  imports Reminder_Ops
begin

section \<open>The reminder operations as transactions\<close>

text \<open>
  Each operation of \<open>Reminder_Sync\<close> and \<open>Reminder_Delivery\<close>: what it commits is a
  \<open>quiet_tx\<close> (a \<open>reminder_tx\<close> that touches no other table) or, for a delivery, a \<open>reminder_tx\<close>
  that keeps the message store's invariant.
\<close>

subsection \<open>Transactions that write reminders only\<close>

definition quiet_tx :: "db \<Rightarrow> db \<Rightarrow> bool" where
  "quiet_tx d d' \<longleftrightarrow> reminder_tx d d' \<and> d' = d\<lparr>reminder_occurrences := reminder_occurrences d'\<rparr>"

lemma quiet_tx_refl: "reminders_ok d \<Longrightarrow> quiet_tx d d"
  by (simp add: quiet_tx_def reminder_tx_refl)

lemma quiet_tx_trans:
  assumes "quiet_tx d d'" "quiet_tx d' d''"
  shows "quiet_tx d d''"
proof -
  have "d' = d\<lparr>reminder_occurrences := reminder_occurrences d'\<rparr>"
    and "d'' = d'\<lparr>reminder_occurrences := reminder_occurrences d''\<rparr>"
    using assms by (simp_all add: quiet_tx_def)
  then have "d'' = d\<lparr>reminder_occurrences := reminder_occurrences d''\<rparr>"
    by (metis db.surjective db.update_convs(13))
  with assms show ?thesis by (auto simp: quiet_tx_def intro: reminder_tx_trans)
qed

lemma quiet_tx_ok: "quiet_tx d d' \<Longrightarrow> reminders_ok d'"
  by (simp add: quiet_tx_def reminder_tx_def)

lemma quiet_tx_store_inv: "quiet_tx d d' \<Longrightarrow> store_inv d' = store_inv d"
  unfolding quiet_tx_def using store_inv_reminders by metis

lemma quiet_tx_messages: "quiet_tx d d' \<Longrightarrow> messages d' = messages d"
  unfolding quiet_tx_def by (metis db.select_convs(1) db.surjective db.update_convs(13))

lemma update_quiet:
  assumes "update_reminders P f d = Inr d'" "reminders_ok d" "row_safe P f"
  shows "quiet_tx d d'"
  using update_reminders_tx [OF assms(2,3,1)] update_reminders_frame [OF assms(1)]
  by (simp add: quiet_tx_def)

lemma insert_quiet:
  assumes "insert_reminder r d = Inr d'" "reminders_ok d" "reminder_wf r"
  shows "quiet_tx d d'"
  using insert_reminder_tx [OF assms(2,3,1)] insert_reminder_frame [OF assms(1)]
  by (simp add: quiet_tx_def)

subsection \<open>Lookups\<close>

lemma find_occurrence_Some:
  "find_occurrence oid d = Some r \<Longrightarrow> r \<in> set (reminder_occurrences d) \<and> occurrence_id r = oid"
  by (auto simp: find_occurrence_def dest: sql_fetchone_Some)

lemma find_reminder_Some:
  "find_reminder rid d = Some r \<Longrightarrow> r \<in> set (reminder_occurrences d) \<and> reminder_id r = rid"
  by (auto simp: find_reminder_def dest: sql_fetchone_Some)

lemmas same_occurrence = occurrence_pk.same_key
lemmas same_reminder = reminder_pk.same_key

lemma find_reminder_in:
  "reminders_ok d \<Longrightarrow> r \<in> set (reminder_occurrences d) \<Longrightarrow> find_reminder (reminder_id r) d = Some r"
  by (simp add: find_reminder_def reminder_pk.fetch_key)

lemma find_occurrence_in:
  "reminders_ok d \<Longrightarrow> r \<in> set (reminder_occurrences d)
   \<Longrightarrow> find_occurrence (occurrence_id r) d = Some r"
  by (simp add: find_occurrence_def occurrence_pk.fetch_key)

lemma update_reminders_cong:
  "(\<And>r. r \<in> set (reminder_occurrences d) \<Longrightarrow> P r = Q r) \<Longrightarrow>
   update_reminders P f d = update_reminders Q f d"
  using sql_update_cong [of "reminder_occurrences d" P Q f f] by (simp add: update_reminders_def)

lemma reminder_back_db: "reminder_back rid d = Inr (r, d') \<Longrightarrow> d' = d"
  by (auto simp: reminder_back_def split: option.splits)

lemma occurrence_back_db: "occurrence_back oid d = Inr (r, d') \<Longrightarrow> d' = d"
  by (auto simp: occurrence_back_def split: option.splits)

subsection \<open>Creation and sync\<close>

lemma create_quiet:
  assumes "reminders_ok d"
    and "create_reminder now fr fo cont tgt intended rid oid created d = Inr (r, d')"
  shows "quiet_tx d d'"
  using assms
  by (auto simp: create_reminder_def Let_def res_bind_Inr split: if_splits
      dest!: reminder_back_db intro: insert_quiet wf_new_reminder)

lemma envelope_quiet:
  assumes "reminders_ok d" "persist_reminder_envelope oid fmt opaque d = Inr (r, d')"
  shows "quiet_tx d d'"
  using assms
  by (auto simp: persist_reminder_envelope_def res_bind_Inr split: if_splits option.splits
      dest!: occurrence_back_db intro: update_quiet safe_envelope
      quiet_tx_refl)

lemma acknowledge_quiet:
  assumes "reminders_ok d" "acknowledge_reminder_sync_revision oid rv d = Inr (b, d')"
  shows "quiet_tx d d'"
  using assms
  by (auto simp: acknowledge_reminder_sync_revision_def Let_def res_bind_Inr split: if_splits
      intro: update_quiet safe_ack)

lemma retry_quiet:
  assumes "reminders_ok d" "schedule_reminder_sync_retry oid rv t d = Inr (b, d')"
  shows "quiet_tx d d'"
  using assms
  by (auto simp: schedule_reminder_sync_retry_def Let_def res_bind_Inr split: if_splits
      intro: update_quiet safe_retry)

lemma permanent_quiet:
  assumes "reminders_ok d" "record_reminder_sync_permanent_failure oid rv code d = Inr (b, d')"
  shows "quiet_tx d d'"
  using assms
  by (auto simp: record_reminder_sync_permanent_failure_def Let_def res_bind_Inr split: if_splits
      intro: update_quiet safe_permanent)

lemma mark_occurrence_quiet:
  assumes "reminders_ok d" "mark_occurrence_snapshot_conflict oid d = Inr (b, d')"
  shows "quiet_tx d d'"
  using assms
  by (auto simp: mark_occurrence_snapshot_conflict_def Let_def res_bind_Inr
      intro: update_quiet safe_conflict)

lemma mark_reminder_quiet:
  assumes "reminders_ok d" "mark_reminder_snapshot_conflict rid d = Inr (b, d')"
  shows "quiet_tx d d'"
  using assms
  by (auto simp: mark_reminder_snapshot_conflict_def Let_def res_bind_Inr split: if_splits
      intro: update_quiet safe_conflict quiet_tx_refl)

lemma validate_scheduled_Inr:
  "validate_remote_scheduled_reminder s = Inr u \<Longrightarrow>
     0 < rm_revision s \<and> valid_payload_format (rm_payload_format s)
     \<and> valid_opaque_payload (rm_opaque_payload s) \<and> rm_reminder_id s \<noteq> rm_occurrence_id s"
  by (auto simp: validate_remote_scheduled_reminder_def split: if_splits)

lemma validate_terminal_Inr:
  "validate_remote_terminal_reminder rid oid lifecycle rv fmt = Inr u \<Longrightarrow>
     0 < rv \<and> valid_payload_format fmt \<and> lifecycle \<in> {''cancelled'', ''delivered''}"
  by (auto simp: validate_remote_terminal_reminder_def split: if_splits)

lemma update_quiet_on:
  assumes "update_reminders P f d = Inr d'" "reminders_ok d"
    and "\<And>r. r \<in> set (reminder_occurrences d) \<Longrightarrow> P r \<Longrightarrow> Q r" "row_safe Q f"
  shows "quiet_tx d d'"
proof (rule update_quiet)
  have "update_reminders P f d = update_reminders (\<lambda>r. P r \<and> Q r) f d"
    using assms(3) by (intro update_reminders_cong) blast
  with assms(1) show "update_reminders (\<lambda>r. P r \<and> Q r) f d = Inr d'" by simp
  show "row_safe (\<lambda>r. P r \<and> Q r) f" using assms(4) by (simp add: row_safe_def)
qed (rule assms(2))

lemma materialize_scheduled_quiet:
  assumes ok: "reminders_ok d" and op: "materialize_remote_scheduled_reminder s d = Inr (b, d')"
  shows "quiet_tx d d'"
proof -
  have valid: "0 < rm_revision s" "valid_payload_format (rm_payload_format s)"
    "valid_opaque_payload (rm_opaque_payload s)"
    using op by (auto simp: materialize_remote_scheduled_reminder_def res_bind_Inr
        dest!: validate_scheduled_Inr)
  show ?thesis
  proof (cases "find_occurrence (rm_occurrence_id s) d")
    case None
    with op ok valid show ?thesis
      by (auto simp: materialize_remote_scheduled_reminder_def res_bind_Inr Let_def split: if_splits
          intro: mark_reminder_quiet insert_quiet wf_new_remote)
  next
    case (Some r)
    then have r: "r \<in> set (reminder_occurrences d)" "occurrence_id r = rm_occurrence_id s"
      by (auto dest: find_occurrence_Some)
    let ?ack = "min (rm_revision s) (revision r)"
    let ?P = "\<lambda>x. occurrence_id x = rm_occurrence_id s
                \<and> (server_ack_revision x < ?ack \<or> snapshot_conflict x)"
    let ?f = "\<lambda>x. x\<lparr>server_ack_revision := max (server_ack_revision x) ?ack,
                    snapshot_conflict := False\<rparr>"
    have "0 < revision r" using ok r by (auto simp: reminders_ok_def reminder_wf_def reminder_checks_def)
    with valid have safe: "row_safe (\<lambda>x. ?P x \<and> revision x = revision r) ?f"
      by (intro safe_snapshot_ack) auto
    have "quiet_tx d d''" if "update_reminders ?P ?f d = Inr d''" for d''
      using that ok
      by (rule update_quiet_on [OF _ _ _ safe]) (use ok r same_occurrence in force)
    with op Some ok show ?thesis
      by (auto simp: materialize_remote_scheduled_reminder_def res_bind_Inr Let_def split: if_splits
          intro: mark_occurrence_quiet quiet_tx_refl)
  qed
qed

lemma materialize_terminal_quiet:
  assumes ok: "reminders_ok d"
    and op: "materialize_remote_terminal_reminder rid oid intended lifecycle t rv fmt d = Inr (b, d')"
  shows "quiet_tx d d'"
proof -
  have valid: "0 < rv" "valid_payload_format fmt" "lifecycle \<in> {''cancelled'', ''delivered''}"
    using op by (auto simp: materialize_remote_terminal_reminder_def res_bind_Inr
        dest!: validate_terminal_Inr)
  show ?thesis
  proof (cases "find_occurrence oid d")
    case None
    with op ok show ?thesis
      by (auto simp: materialize_remote_terminal_reminder_def res_bind_Inr intro: mark_reminder_quiet)
  next
    case (Some r)
    then have r: "r \<in> set (reminder_occurrences d)" "occurrence_id r = oid"
      by (auto dest: find_occurrence_Some)
    let ?f = "apply_terminal (merged_remote_terminal_values r lifecycle t rv) fmt"
    have "quiet_tx d d''" if "update_reminders (\<lambda>r. occurrence_id r = oid) ?f d = Inr d''" for d''
      using that ok
      by (rule update_quiet_on [OF _ _ _ safe_terminal [OF valid(3,1,2)]])
         (use ok r same_occurrence in force)
    with op Some ok show ?thesis
      by (auto simp: materialize_remote_terminal_reminder_def res_bind_Inr Let_def split: if_splits
          intro: mark_occurrence_quiet quiet_tx_refl)
  qed
qed

subsection \<open>Claims\<close>

lemma persist_claim_quiet:
  assumes "reminders_ok d" "persist_reminder_delivery_claim_id oid rv claim d = Inr (r, d')"
  shows "quiet_tx d d'"
  using assms
  by (auto simp: persist_reminder_delivery_claim_id_def res_bind_Inr split: if_splits option.splits
      intro: update_quiet safe_claim_id quiet_tx_refl)

lemma acquire_quiet:
  assumes "reminders_ok d" "acquire_reminder_delivery_claim oid rv claim e d = Inr (b, d')"
  shows "quiet_tx d d'"
  using assms
  by (auto simp: acquire_reminder_delivery_claim_def Let_def res_bind_Inr
      intro: update_quiet safe_acquire)

lemma claim_authorized_quiet:
  assumes "reminders_ok d" "claim_authorized_reminders t1 t2 oids now d = Inr (rs, d')"
  shows "quiet_tx d d'"
  using assms
  by (auto simp: claim_authorized_reminders_def res_bind_Inr split: if_splits
      intro: update_quiet safe_claim quiet_tx_refl)

lemma claim_each_quiet:
  "reminders_ok d \<Longrightarrow> claim_each now rids claimed d = Inr (cs, d') \<Longrightarrow> quiet_tx d d'"
proof (induction now rids claimed d rule: claim_each.induct)
  case (1 now claimed d)
  then show ?case by (simp add: quiet_tx_refl)
next
  case (2 now rid rids claimed d)
  let ?P = "\<lambda>r. reminder_id r = rid \<and> rem_state r = ''scheduled'' \<and> reminder_local_delivery r"
  from "2.prems"(2) obtain d1 where d1: "update_reminders ?P (claim_row now) d = Inr d1"
    and rest: "claim_each now rids (if count_reminders ?P d = 1 then claimed @ [rid] else claimed) d1
      = Inr (cs, d')"
    by (auto simp: res_bind_Inr Let_def)
  have step: "quiet_tx d d1" by (rule update_quiet [OF d1 "2.prems"(1) safe_claim])
  with rest "2.IH" have "quiet_tx d1 d'" by (blast intro: quiet_tx_ok)
  with step show ?case by (rule quiet_tx_trans)
qed

lemma claim_due_quiet:
  assumes "reminders_ok d" "claim_due_reminders now d = Inr (rs, d')"
  shows "quiet_tx d d'"
  using assms by (auto simp: claim_due_reminders_def res_bind_Inr intro: claim_each_quiet)

subsection \<open>Replacement and cancellation\<close>

lemma replace_local_quiet:
  assumes ok: "reminders_ok d"
    and op: "replace_local_reminder rid nrid noid cont tgt intended t d = Inr (rs, d')"
  shows "quiet_tx d d'"
proof -
  obtain old rec where old: "find_reminder rid d = Some old"
    and rec: "find_occurrence (occurrence_id old) d = Some rec"
    using op by (auto simp: replace_local_reminder_def res_bind_Inr split: if_splits option.splits)
  have in_old: "old \<in> set (reminder_occurrences d)" "reminder_id old = rid"
    using old by (auto dest: find_reminder_Some)
  with ok rec have "rec = old" by (simp add: find_occurrence_in)
  let ?f = "\<lambda>r. r\<lparr>rem_state := ''cancelled'', cancelled_at_ms := Some t, revision := 2,
                 sync_retry_after_ms := None, sync_retry_count := 0\<rparr>"
  let ?P = "\<lambda>r. reminder_id r = rid \<and> rem_state r = ''scheduled''"
  have upd: "quiet_tx d d2"
    if ins: "insert_reminder (new_reminder nrid noid tgt cont intended t) d = Inr d1"
      and up: "update_reminders ?P ?f d1 = Inr d2" and local: "is_unprepared_local_only old" for d1 d2
  proof -
    have q: "quiet_tx d d1" by (rule insert_quiet [OF ins ok wf_new_reminder])
    then have ok1: "reminders_ok d1" by (rule quiet_tx_ok)
    have "old \<in> set (reminder_occurrences d1)"
      using insert_reminder_frame [OF ins] in_old by simp
    with ok1 in_old local have on: "server_ack_revision x = 0"
      if "x \<in> set (reminder_occurrences d1)" "?P x" for x
      using that same_reminder [of d1 old x] by (simp add: is_unprepared_local_only_def)
    have "quiet_tx d1 d2"
      by (rule update_quiet_on [OF up ok1 _ safe_replace_local [of "\<lambda>_. True"]]) (use on in auto)
    with q show ?thesis by (rule quiet_tx_trans)
  qed
  show ?thesis
    using op old rec \<open>rec = old\<close> ok upd
    by (auto simp: replace_local_reminder_def res_bind_Inr split: if_splits option.splits bool.splits
        dest!: reminder_back_db intro: quiet_tx_refl)
qed

lemma upsert_quiet:
  assumes ok: "reminders_ok d" and valid: "validate_remote_replacement_fields s lifecycle = Inr flds"
    and op: "upsert_remote_replacement s created lifecycle flds d = Inr d'"
  shows "quiet_tx d d'"
proof -
  obtain fire cancelled delivered where flds: "flds = (fire, cancelled, delivered)" by (cases flds)
  have v: "0 < rm_revision s" "valid_payload_format (rm_payload_format s)"
    "valid_opaque_payload (rm_opaque_payload s)"
    "replacement_terminal_fields lifecycle (rm_lifecycle_at_ms s) = Inr (fire, cancelled, delivered)"
    using valid flds
    by (auto simp: validate_remote_replacement_fields_def res_bind_Inr split: if_splits
        dest!: validate_scheduled_Inr)
  show ?thesis
    using op ok v flds
    by (auto simp: upsert_remote_replacement_def Let_def split: if_splits option.splits
        intro: quiet_tx_refl insert_quiet wf_new_replacement update_quiet safe_upsert)
qed

lemma materialize_replacement_quiet:
  assumes "reminders_ok d"
    and "materialize_remote_replacement rid oid t s created lifecycle d = Inr (rs, d')"
  shows "quiet_tx d d'"
proof -
  obtain flds d1 where "validate_remote_replacement_fields s lifecycle = Inr flds"
    and "upsert_remote_replacement s created lifecycle flds d = Inr d1"
    and d': "update_reminders (\<lambda>r. occurrence_id r = oid) (cancel_replaced_row t) d1 = Inr d'"
    using assms(2)
    by (auto simp: materialize_remote_replacement_def res_bind_Inr split: if_splits option.splits)
  then have q: "quiet_tx d d1" using assms(1) by (blast intro: upsert_quiet)
  have "quiet_tx d1 d'" by (rule update_quiet [OF d' quiet_tx_ok [OF q] safe_cancel_replaced])
  with q show ?thesis by (rule quiet_tx_trans)
qed

lemma cancel_quiet:
  assumes "reminders_ok d" "cancel_reminder rid t d = Inr (r, d')"
  shows "quiet_tx d d'"
  using assms
  by (auto simp: cancel_reminder_def Let_def res_bind_Inr split: if_splits option.splits
      dest!: reminder_back_db intro: quiet_tx_refl update_quiet safe_cancel)

end
