(* ===== verification/Reminder_Runs.thy ===== *)
theory Reminder_Runs
  imports Reminder_Steps
begin

section \<open>Deliveries as transactions\<close>

text \<open>
  What one delivery commits, and what the delivery loops commit, one transaction after the other.
\<close>

subsection \<open>The event\<close>

lemma insert_local_event_reminders:
  "insert_local_event now vals rsn d = Inr d' \<Longrightarrow> reminder_occurrences d' = reminder_occurrences d"
  by (auto simp: insert_local_event_def allocate_local_position_def Let_def split: sum.splits)

lemma insert_local_event_messages:
  assumes "insert_local_event now vals rsn d = Inr d'"
  shows "\<exists>row. messages d' = messages d @ [row] \<and> envelope_id row = envelope_id vals
           \<and> receipt_disposition row = Some LOCAL_RUNTIME \<and> is_pending row \<and> content row = content vals"
  using assms
  by (auto simp: insert_local_event_def allocate_local_position_def Let_def insert_message_def
      check_seq_index_def is_pending_def split: sum.splits if_splits)

lemma event_payload_id:
  "reminder_event_payload r = Inr p \<Longrightarrow>
   envelope_id (payload_values now p recv) = reminder_event_id (occurrence_id r)"
  by (auto simp: reminder_event_payload_def res_bind_Inr Let_def payload_values_def get_default_def
      split: option.splits if_splits)

lemma payload_values_unsequenced [simp]:
  "server_seq (payload_values now p recv) = None"
  "processing_turn_id (payload_values now p recv) = None"
  by (simp_all add: payload_values_def)

lemma ensure_event_reminders:
  "ensure_reminder_event t now r d = Inr d' \<Longrightarrow> reminder_occurrences d' = reminder_occurrences d"
  by (auto simp: ensure_reminder_event_def res_bind_Inr dest: insert_local_event_reminders
      split: option.splits if_splits)

lemma ensure_event_store_inv:
  assumes "store_inv d" "ensure_reminder_event t now r d = Inr d'"
  shows "store_inv d'"
  using assms
  by (auto simp: ensure_reminder_event_def res_bind_Inr split: option.splits if_splits
      intro: store_inv_insert_local_event)

lemma ensure_event_messages:
  assumes "ensure_reminder_event t now r d = Inr d'"
  shows "(messages d' = messages d \<and> (\<exists>m\<in>set (messages d). envelope_id m = reminder_event_id (occurrence_id r)
            \<and> existing_event_ok (occurrence_id r) m))
    \<or> (reminder_event_id (occurrence_id r) \<notin> envelope_id ` set (messages d)
       \<and> (\<exists>row. messages d' = messages d @ [row] \<and> envelope_id row = reminder_event_id (occurrence_id r)
            \<and> receipt_disposition row = Some LOCAL_RUNTIME \<and> is_pending row))"
proof (cases "sql_fetchone (\<lambda>m. envelope_id m = reminder_event_id (occurrence_id r)) (messages d)")
  case None
  then have fresh: "reminder_event_id (occurrence_id r) \<notin> envelope_id ` set (messages d)"
    by (auto simp: sql_fetchone_None)
  from None assms obtain p where p: "reminder_event_payload r = Inr p"
    and ins: "insert_local_event t (payload_values t p (Some now)) ''reminder occurrence'' d = Inr d'"
    by (auto simp: ensure_reminder_event_def res_bind_Inr)
  from insert_local_event_messages [OF ins] fresh event_payload_id [OF p] show ?thesis by metis
next
  case (Some m)
  with assms show ?thesis
    by (auto simp: ensure_reminder_event_def split: if_splits dest: sql_fetchone_Some)
qed

subsection \<open>One delivery\<close>

lemma deliver_cases:
  assumes ok: "reminders_ok d" and op: "deliver_claimed_reminder (t1, t2, t3) rid now d = Inr (x, d')"
  obtains (lost) "x = None" "d' = d"
    | (sent) r d1 where "r \<in> set (reminder_occurrences d)" "claimed_with_custody rid t1 r"
        "claimed_with_custody rid t3 r" "ensure_reminder_event t2 now r d = Inr d1"
        "x = Some (deliver_row (reminder_event_id (occurrence_id r)) now r)"
        "d' = d1\<lparr>reminder_occurrences := sql_update (\<lambda>y. y = r)
                  (deliver_row (reminder_event_id (occurrence_id r)) now) (reminder_occurrences d)\<rparr>"
proof (cases "sql_fetchone (claimed_with_custody rid t1) (reminder_occurrences d)")
  case None
  with op show ?thesis by (auto simp: deliver_claimed_reminder_def intro: lost)
next
  case (Some r)
  then have r: "r \<in> set (reminder_occurrences d)" "claimed_with_custody rid t1 r"
    by (auto dest: sql_fetchone_Some)
  let ?P = "claimed_with_custody rid t3"
  let ?f = "deliver_row (reminder_event_id (occurrence_id r)) now"
  from op Some obtain d1 d2 where d1: "ensure_reminder_event t2 now r d = Inr d1"
    and d2: "update_reminders ?P ?f d1 = Inr d2"
    and rest: "(if count_reminders ?P d1 \<noteq> 1 then Inr (None, d)
        else res_bind (reminder_back rid d2) (\<lambda>(r', d3). Inr (Some r', d3))) = Inr (x, d')"
    by (auto simp: deliver_claimed_reminder_def res_bind_Inr Let_def)
  have rows: "reminder_occurrences d1 = reminder_occurrences d"
    using d1 by (rule ensure_event_reminders)
  have d2': "d2 = d1\<lparr>reminder_occurrences := sql_update ?P ?f (reminder_occurrences d)\<rparr>"
    using update_reminders_frame [OF d2] rows by simp
  show ?thesis
  proof (cases "count_reminders ?P d1 = 1")
    case False
    with rest show ?thesis by (auto intro: lost)
  next
    case True
    with rest have rback: "reminder_back rid d2 = Inr (the x, d')" "x \<noteq> None"
      by (auto simp: res_bind_Inr)
    then have d': "d' = d2" by (auto dest: reminder_back_db)
    have key: "claimed_with_custody rid t y \<Longrightarrow> y \<in> set (reminder_occurrences d) \<Longrightarrow> y = r" for t y
      using r ok same_reminder [of d r y] by (simp add: claimed_with_custody_def)
    from True rows obtain y where "y \<in> set (reminder_occurrences d)" "?P y"
      using sql_count_0 [of ?P "reminder_occurrences d"] by auto
    with key have Pr: "?P r" by blast
    have upd: "sql_update ?P ?f (reminder_occurrences d) = sql_update (\<lambda>y. y = r) ?f (reminder_occurrences d)"
    proof (rule sql_update_cong)
      show "?P y = (y = r)" if "y \<in> set (reminder_occurrences d)" for y
        using key [OF _ that] Pr by blast
    qed (rule refl)
    have "reminder_id (?f r) = rid"
      using r by (simp add: deliver_row_def claimed_with_custody_def)
    moreover have "?f r \<in> set (reminder_occurrences d2)"
      using r(1) by (auto simp: d2' upd set_sql_update)
    moreover have "distinct (map reminder_id (reminder_occurrences d2))"
      using d2 by (auto simp: update_reminders_def dest: write_reminders_Inr)
    ultimately have "find_reminder rid d2 = Some (?f r)"
      using sql_fetchone_key [of reminder_id "reminder_occurrences d2" "?f r"]
      by (simp add: find_reminder_def)
    with rback have "x = Some (?f r)" by (auto simp: reminder_back_def)
    with r Pr d1 d' d2' upd show ?thesis by (auto intro: sent)
  qed
qed

lemma deliver_tx:
  assumes ok: "reminders_ok d" and op: "deliver_claimed_reminder clocks rid now d = Inr (x, d')"
  shows "reminder_tx d d'"
proof -
  obtain t1 t2 t3 where clocks: "clocks = (t1, t2, t3)" by (cases clocks)
  from ok op [unfolded clocks] show ?thesis
  proof (cases rule: deliver_cases)
    case lost
    with ok show ?thesis by (simp add: reminder_tx_refl)
  next
    case (sent r d1)
    let ?f = "deliver_row (reminder_event_id (occurrence_id r)) now"
    let ?Q = "\<lambda>y. y = r \<and> rem_state y = ''claimed'' \<and> True \<and> occurrence_id y = occurrence_id r"
    have "sql_update (\<lambda>y. y = r) ?f (reminder_occurrences d) = sql_update ?Q ?f (reminder_occurrences d)"
      using sent(2) by (intro sql_update_cong) (auto simp: claimed_with_custody_def)
    with sent(6) update_reminders_total(2) [OF ok safe_deliver [of "\<lambda>y. y = r" "\<lambda>_. True" "occurrence_id r" now]]
    show ?thesis by (simp add: reminder_tx_def reminders_ok_def reminders_evolve_def)
  qed
qed

lemma deliver_store_inv:
  assumes ok: "reminders_ok d" and inv: "store_inv d"
    and op: "deliver_claimed_reminder clocks rid now d = Inr (x, d')"
  shows "store_inv d'"
proof -
  obtain t1 t2 t3 where clocks: "clocks = (t1, t2, t3)" by (cases clocks)
  from ok op [unfolded clocks] show ?thesis
    by (cases rule: deliver_cases) (use inv ensure_event_store_inv in auto)
qed

subsection \<open>The loops\<close>

lemma deliver_each_rel:
  assumes step: "\<And>d c rid x d'. I d \<Longrightarrow> deliver_claimed_reminder c rid now d = Inr (x, d') \<Longrightarrow> I d' \<and> R d d'"
    and refl: "\<And>d. I d \<Longrightarrow> R d d" and trans: "\<And>d d' d''. R d d' \<Longrightarrow> R d' d'' \<Longrightarrow> R d d''"
  shows "I d \<Longrightarrow> I (snd (deliver_each clk i rids now rs d)) \<and> R d (snd (deliver_each clk i rids now rs d))"
proof (induction rids arbitrary: i rs d)
  case Nil
  then show ?case by (simp add: refl)
next
  case (Cons rid rids)
  show ?case
  proof (cases "deliver_claimed_reminder (clk i) rid now d")
    case (Inl e)
    with Cons.prems show ?thesis by (simp add: refl)
  next
    case (Inr res)
    obtain x d' where res: "res = (x, d')" by (cases res)
    have d': "I d'" "R d d'" using step [OF Cons.prems] Inr res by auto
    have "deliver_each clk i (rid # rids) now rs d
        = deliver_each clk (i + 1) rids now (case x of None \<Rightarrow> rs | Some r \<Rightarrow> rs @ [r]) d'"
      using Inr res by (cases x) simp_all
    with Cons.IH [OF d'(1)] trans [OF d'(2)] show ?thesis by auto
  qed
qed

lemma deliver_each_tx:
  assumes "reminders_ok d" "store_inv d"
  shows "reminder_tx d (snd (deliver_each clk i rids now rs d)) \<and>
   store_inv (snd (deliver_each clk i rids now rs d))"
proof -
  let ?I = "\<lambda>d. reminders_ok d \<and> store_inv d"
  have "?I d' \<and> reminder_tx d d'" if "?I d" "deliver_claimed_reminder c rid now d = Inr (x, d')" for d c rid x d'
    using that deliver_tx [of d c rid now x d'] deliver_store_inv [of d c rid now x d']
    by (auto simp: reminder_tx_def)
  from deliver_each_rel [of ?I now reminder_tx, OF this _ reminder_tx_trans] assms show ?thesis
    by (auto simp: reminder_tx_refl)
qed

end
