(* ===== verification/Reminder_Props.thy ===== *)
theory Reminder_Props
  imports Reminder_Runs Receipt_Props
begin

section \<open>Correctness of reminders\<close>

text \<open>
  One delivery (a single transaction for the Inbox event and the terminal state, custody at both
  clock readings), the check on an event row that already exists, and the compare-and-set
  acknowledgement of the outbox.
\<close>

subsection \<open>Sample data\<close>

definition due_reminder :: reminder_row where
  "due_reminder = new_reminder ''r1'' ''o1'' ''dm:bob'' ''hi'' 900 100"

definition due_db :: db where
  "due_db = empty_db\<lparr>reminder_occurrences := [due_reminder]\<rparr>"

definition claimed_db :: db where
  "claimed_db = empty_db\<lparr>reminder_occurrences := [claim_row 1000 due_reminder]\<rparr>"

lemma reminders_ok_due: "reminders_ok due_db"
  using wf_new_reminder [of "''r1''" "''o1''" "''dm:bob''" "''hi''" 900 100]
  by (simp add: reminders_ok_def due_db_def due_reminder_def)

lemma reminders_ok_claimed: "reminders_ok claimed_db"
proof -
  have "reminder_wf (claim_row 1000 due_reminder)"
    using safe_claim [of "\<lambda>_. True" "\<lambda>_. True"] wf_new_reminder
    by (simp add: row_safe_def due_reminder_def new_reminder_def)
  then show ?thesis by (simp add: reminders_ok_def claimed_db_def)
qed

lemma store_inv_due: "store_inv due_db" "store_inv claimed_db"
  by (simp_all add: due_db_def claimed_db_def store_inv_empty)

subsection \<open>Delivery\<close>

text \<open>
  A delivery is atomic and needs custody: either it reports nothing and the database is
  untouched, or the occurrence was claimed with custody at both clock readings, exactly its row
  became delivered under the event id of the occurrence, the Inbox holds the row of that event, and
  the invariants of the message store and of the reminder table hold.
\<close>

theorem delivery_atomic:
  assumes "store_inv d" "reminders_ok d"
    and "deliver_claimed_reminder (t1, t2, t3) rid now d = Inr (x, d')"
  shows "(x = None \<longrightarrow> d' = d) \<and>
    (\<forall>r'. x = Some r' \<longrightarrow>
       (\<exists>r\<in>set (reminder_occurrences d).
          reminder_id r = rid \<and> rem_state r = ''claimed'' \<and>
          reminder_delivery_custody t1 r \<and> reminder_delivery_custody t3 r \<and>
          r' = deliver_row (reminder_event_id (occurrence_id r)) now r \<and>
          set (reminder_occurrences d') = insert r' (set (reminder_occurrences d) - {r})) \<and>
       (\<exists>m\<in>set (messages d'). envelope_id m = reminder_event_id (occurrence_id r')
          \<and> receipt_disposition m = Some LOCAL_RUNTIME) \<and>
       store_inv d' \<and> reminders_ok d')"
  using assms(2,3)
proof (cases rule: deliver_cases)
  case lost
  then show ?thesis by simp
next
  case (sent r d1)
  let ?f = "deliver_row (reminder_event_id (occurrence_id r)) now"
  have rows: "set (reminder_occurrences d') = insert (?f r) (set (reminder_occurrences d) - {r})"
    using sent(1,6) by (auto simp: set_sql_update)
  have "\<exists>m\<in>set (messages d1). envelope_id m = reminder_event_id (occurrence_id r)
      \<and> receipt_disposition m = Some LOCAL_RUNTIME"
    using ensure_event_messages [OF sent(4)] by (auto simp: existing_event_ok_def)
  then have event: "\<exists>m\<in>set (messages d'). envelope_id m = reminder_event_id (occurrence_id (?f r))
      \<and> receipt_disposition m = Some LOCAL_RUNTIME"
    using sent(6) by (simp add: deliver_row_def)
  have inv: "store_inv d'" "reminders_ok d'"
    using deliver_store_inv [OF assms(2,1,3)] deliver_tx [OF assms(2,3)] by (simp_all add: reminder_tx_def)
  from sent(1-3,5) rows event inv show ?thesis by (auto simp: claimed_with_custody_def)
qed

lemma delivered_case:
  "(case x of Inr (Some r, d') \<Rightarrow> True | _ \<Rightarrow> False) \<Longrightarrow> \<exists>r d'. x = Inr (Some r, d')"
  by (auto split: sum.splits option.splits)

lemma delivery_sample:
  "case deliver_claimed_reminder (1001, 1002, 1003) ''r1'' 1004 claimed_db of
     Inr (Some r, d') \<Rightarrow> True | _ \<Rightarrow> False"
  by code_simp

theorem delivery_atomic_witness:
  "\<exists>r' d'. deliver_claimed_reminder (1001, 1002, 1003) ''r1'' 1004 claimed_db = Inr (Some r', d') \<and>
     (\<exists>r\<in>set (reminder_occurrences claimed_db).
          reminder_id r = ''r1'' \<and> rem_state r = ''claimed'' \<and>
          reminder_delivery_custody 1001 r \<and> reminder_delivery_custody 1003 r \<and>
          r' = deliver_row (reminder_event_id (occurrence_id r)) 1004 r \<and>
          set (reminder_occurrences d') = insert r' (set (reminder_occurrences claimed_db) - {r})) \<and>
       (\<exists>m\<in>set (messages d'). envelope_id m = reminder_event_id (occurrence_id r')
          \<and> receipt_disposition m = Some LOCAL_RUNTIME) \<and>
       store_inv d' \<and> reminders_ok d'"
proof -
  from delivered_case [OF delivery_sample] obtain r' d' where
    op: "deliver_claimed_reminder (1001, 1002, 1003) ''r1'' 1004 claimed_db = Inr (Some r', d')"
    by (elim exE) (rule that)
  note a = delivery_atomic [OF store_inv_due(2) reminders_ok_claimed op,
      THEN conjunct2, THEN spec, THEN mp, OF refl]
  show ?thesis by (rule exI, rule exI, rule conjI [OF op a])
qed

subsection \<open>The event check\<close>

lemma json_loads_marker: "json_loads (CHR 0x1E # s) = None"
  by (simp add: json_loads_def skip_ws_def is_ws_def scan_literal_def starts_with_def scan_number_def
      scan_int_part_def is_digit_def numeral_2_eq_2)

text \<open>
  C40. The check on a pre-existing event row refuses every row this store writes, a genuine event of
  the same occurrence included: the stored content carries the store's own marker, which the check
  does not strip before it parses the JSON. So a claimed occurrence whose event is already in the
  Inbox can never be delivered, every attempt raises and changes nothing.
\<close>

theorem existing_event_blocks:
  assumes "r \<in> set (reminder_occurrences d)" "claimed_with_custody rid t1 r" "reminders_ok d" "store_inv d"
    and "m \<in> set (messages d)" "envelope_id m = reminder_event_id (occurrence_id r)"
    and "content m = encode_content v"
  shows "deliver_claimed_reminder (t1, t2, t3) rid now d =
      Inl (LifecycleConflict ''reminder delivery event identity belongs to another row'')"
proof -
  have m: "sql_fetchone (\<lambda>m. envelope_id m = reminder_event_id (occurrence_id r)) (messages d) = Some m"
    using message_pk.fetch_key [OF assms(4,5)] assms(6) by simp
  have "\<not> existing_event_ok (occurrence_id r) m"
    by (simp add: existing_event_ok_def assms(7) encode_content_def CONTENT_JSON_PREFIX_def
        json_loads_marker)
  with m have e: "ensure_reminder_event t2 now r d =
      Inl (LifecycleConflict ''reminder delivery event identity belongs to another row'')"
    by (simp add: ensure_reminder_event_def)
  obtain r0 where r0: "sql_fetchone (claimed_with_custody rid t1) (reminder_occurrences d) = Some r0"
    using assms(1,2) sql_fetchone_None [of "claimed_with_custody rid t1" "reminder_occurrences d"]
    by (cases "sql_fetchone (claimed_with_custody rid t1) (reminder_occurrences d)") auto
  then have "r0 = r"
    using same_reminder [OF assms(3,1), of r0] assms(2)
    by (auto simp: claimed_with_custody_def dest: sql_fetchone_Some)
  with r0 e show ?thesis by (simp add: deliver_claimed_reminder_def)
qed

definition blocked_db :: db where
  "blocked_db = claimed_db\<lparr>messages := [(sample_row (reminder_event_id ''o1''))\<lparr>
     receipt_disposition := Some LOCAL_RUNTIME\<rparr>]\<rparr>"

lemma store_inv_blocked: "store_inv blocked_db"
  by (simp add: blocked_db_def store_inv_def inv_messages_def inv_turns_def inv_notice_def claimed_db_def
      empty_db_def initial_notice_def contributions_ok_def generations_ok_def sql_count_def
      map_filter_simps sample_row_def payload_values_def row_wf_def is_pending_def pending_ids_def
      told_all_def)

theorem existing_event_blocks_witness:
  "deliver_claimed_reminder (1001, 1002, 1003) ''r1'' 1004 blocked_db =
      Inl (LifecycleConflict ''reminder delivery event identity belongs to another row'')"
proof (rule existing_event_blocks)
  show "claim_row 1000 due_reminder \<in> set (reminder_occurrences blocked_db)"
    by (simp add: blocked_db_def claimed_db_def)
  show "claimed_with_custody ''r1'' 1001 (claim_row 1000 due_reminder)"
    by (simp add: claimed_with_custody_def claim_row_def due_reminder_def new_reminder_def
        reminder_delivery_custody_def reminder_local_delivery_def)
  show "reminders_ok blocked_db"
    using reminders_ok_claimed by (simp add: reminders_ok_def blocked_db_def)
  show "store_inv blocked_db" by (rule store_inv_blocked)
  show "hd (messages blocked_db) \<in> set (messages blocked_db)" by (simp add: blocked_db_def)
  show "envelope_id (hd (messages blocked_db)) = reminder_event_id (occurrence_id (claim_row 1000 due_reminder))"
    by (simp add: blocked_db_def sample_row_def sample_payload_def payload_values_def get_default_def
        claim_row_def due_reminder_def new_reminder_def)
  show "content (hd (messages blocked_db)) = encode_content (JStr ''hi'')"
    by (simp add: blocked_db_def sample_row_def sample_payload_def payload_values_def get_default_def)
qed

subsection \<open>The outbox\<close>

text \<open>
  Acknowledging a revision is a compare-and-set: it succeeds exactly when that revision is the
  row's current one and is not yet acknowledged; then exactly this row leaves the outbox. Otherwise
  the database is unchanged, so an acknowledgement that raced a newer local revision never clears
  the newer work.
\<close>

theorem acknowledge_is_cas:
  assumes "reminders_ok d" "r \<in> set (reminder_occurrences d)" "occurrence_id r \<noteq> []" "0 < rv"
  shows "\<exists>d'. acknowledge_reminder_sync_revision (occurrence_id r) rv d
        = Inr (revision r = rv \<and> server_ack_revision r < rv, d') \<and> reminders_ok d' \<and>
      (\<not> (revision r = rv \<and> server_ack_revision r < rv) \<longrightarrow> d' = d) \<and>
      (revision r = rv \<and> server_ack_revision r < rv \<longrightarrow>
         (\<exists>r'. find_occurrence (occurrence_id r) d' = Some r' \<and> server_ack_revision r' = revision r') \<and>
         (\<forall>x\<in>set (reminder_occurrences d). x \<noteq> r \<longrightarrow> x \<in> set (reminder_occurrences d')))"
proof -
  let ?P = "\<lambda>x. occurrence_id x = occurrence_id r \<and> revision x = rv \<and> server_ack_revision x < rv"
  let ?f = "\<lambda>x. x\<lparr>server_ack_revision := rv, sync_retry_after_ms := None, sync_retry_count := 0,
             sync_permanent_revision := None, sync_permanent_code := None\<rparr>"
  let ?d = "d\<lparr>reminder_occurrences := sql_update ?P ?f (reminder_occurrences d)\<rparr>"
  have safe: "row_safe ?P ?f" using assms(4) by (intro safe_ack) simp
  have op: "acknowledge_reminder_sync_revision (occurrence_id r) rv d
      = Inr (revision r = rv \<and> server_ack_revision r < rv, ?d)"
    using assms(3,4) update_reminders_total(1) [OF assms(1) safe]
      occurrence_pk.count_key [OF assms(1,2), of "\<lambda>x. revision x = rv \<and> server_ack_revision x < rv"]
    by (simp add: acknowledge_reminder_sync_revision_def Let_def)
  have ok: "reminders_ok ?d"
    using update_reminders_total(2) [OF assms(1) safe] by (simp add: reminder_tx_def)
  have one: "sql_update ?P ?f (reminder_occurrences d)
      = (if revision r = rv \<and> server_ack_revision r < rv
         then sql_update (\<lambda>x. x = r) ?f (reminder_occurrences d) else reminder_occurrences d)"
    using occurrence_pk.update_key [OF assms(1,2), of "\<lambda>x. revision x = rv \<and> server_ack_revision x < rv" ?f] by simp
  have "find_occurrence (occurrence_id r) ?d = Some (?f r)" if "revision r = rv \<and> server_ack_revision r < rv"
  proof -
    have "?f r \<in> set (reminder_occurrences ?d)"
      using assms(2) that by (simp add: one set_sql_update)
    from find_occurrence_in [OF ok this] show ?thesis by simp
  qed
  with op ok show ?thesis by (auto simp: one set_sql_update)
qed

theorem acknowledge_is_cas_witness:
  "\<exists>d'. acknowledge_reminder_sync_revision ''o1'' 1 due_db = Inr (True, d') \<and> reminders_ok d' \<and>
     (\<exists>r'. find_occurrence ''o1'' d' = Some r' \<and> server_ack_revision r' = revision r')"
  using acknowledge_is_cas [OF reminders_ok_due, of due_reminder 1]
  by (simp add: due_db_def due_reminder_def new_reminder_def)

end
