(* ===== verification/Reminder_Passes.thy ===== *)
theory Reminder_Passes
  imports Reminder_Props
begin

section \<open>Delivery passes\<close>

text \<open>
  \<open>deliver_due_reminders\<close> end to end: the claims one by one are one UPDATE of all due rows, every
  claimed row on the local path is delivered, and the pass leaves no due reminder behind.
\<close>

subsection \<open>No due reminder is left behind\<close>

text \<open>What a delivery needs besides custody: a canonical target, times that can be rendered, and a
  free event id.\<close>

definition renders :: "int \<Rightarrow> reminder_row \<Rightarrow> bool" where
  "renders now r \<longleftrightarrow>
     (\<exists>x. parse_inbox_target (rem_target r) = Inr x) \<and>
     (\<exists>x. reminder_time_to_rfc3339 (intended_at_ms r) = Inr x) \<and>
     (\<exists>x. reminder_time_to_rfc3339 (get_default (actual_fire_at_ms r) now) = Inr x)"

definition event_free :: "db \<Rightarrow> reminder_row \<Rightarrow> bool" where
  "event_free d r \<longleftrightarrow> reminder_event_id (occurrence_id r) \<notin> envelope_id ` set (messages d)"

lemma renders_payload:
  "renders now r \<Longrightarrow> actual_fire_at_ms r = Some t \<Longrightarrow> \<exists>p. reminder_event_payload r = Inr p"
  by (auto simp: renders_def reminder_event_payload_def get_default_def Let_def)

lemma insert_local_event_total:
  assumes "store_inv d" "envelope_id vals \<notin> envelope_id ` set (messages d)" "server_seq vals = None"
  shows "\<exists>d'. insert_local_event now vals rsn d = Inr d'"
proof -
  have "distinct (seqs (messages d))" using assms(1) by (simp add: store_inv_def inv_messages_def)
  with assms(2,3) show ?thesis
    by (simp add: insert_local_event_def allocate_local_position_def insert_message_def
        check_seq_index_def Let_def map_filter_def)
qed

lemma ensure_total:
  assumes inv: "store_inv d" and wf: "reminder_wf r" and claimed: "rem_state r = ''claimed''"
    and can: "renders now0 r" "event_free d r"
  shows "\<exists>d'. ensure_reminder_event t now r d = Inr d' \<and>
    envelope_id ` set (messages d') = insert (reminder_event_id (occurrence_id r)) (envelope_id ` set (messages d))"
proof -
  obtain fire where fire: "actual_fire_at_ms r = Some fire"
    using wf claimed by (auto simp: reminder_wf_def reminder_times_ok_def)
  obtain p where p: "reminder_event_payload r = Inr p" using renders_payload [OF can(1) fire] by blast
  have id: "envelope_id (payload_values t p (Some now)) = reminder_event_id (occurrence_id r)"
    using p by (rule event_payload_id)
  obtain d1 where ins: "insert_local_event t (payload_values t p (Some now)) ''reminder occurrence'' d = Inr d1"
    using insert_local_event_total [OF inv, of "payload_values t p (Some now)" t "''reminder occurrence''"] id can(2)
    by (auto simp: event_free_def)
  have none: "sql_fetchone (\<lambda>m. envelope_id m = reminder_event_id (occurrence_id r)) (messages d) = None"
    using can(2) unfolding event_free_def sql_fetchone_None by (metis imageI)
  have "envelope_id ` set (messages d1)
      = insert (reminder_event_id (occurrence_id r)) (envelope_id ` set (messages d))"
    using insert_local_event_messages [OF ins] id by auto
  with none p ins show ?thesis by (simp add: ensure_reminder_event_def)
qed

text \<open>A claimed row on the local path has custody at every time.\<close>

lemma local_claim_selected:
  assumes ok: "reminders_ok d"
    and r: "r \<in> set (reminder_occurrences d)" "rem_state r = ''claimed''" "reminder_local_delivery r"
  shows "\<And>y. y \<in> set (reminder_occurrences d) \<Longrightarrow> claimed_with_custody (reminder_id r) t y = (y = r)"
    and "sql_fetchone (claimed_with_custody (reminder_id r) t) (reminder_occurrences d) = Some r"
    and "sql_count (claimed_with_custody (reminder_id r) t) (reminder_occurrences d) = 1"
proof -
  have cust: "claimed_with_custody (reminder_id r) t r"
    using r(2,3) by (simp add: claimed_with_custody_def reminder_delivery_custody_def reminder_local_delivery_def)
  show key: "claimed_with_custody (reminder_id r) t y = (y = r)" if "y \<in> set (reminder_occurrences d)" for y
    using that cust same_reminder [OF ok r(1) that] by (auto simp: claimed_with_custody_def)
  show "sql_fetchone (claimed_with_custody (reminder_id r) t) (reminder_occurrences d) = Some r"
  proof (cases "sql_fetchone (claimed_with_custody (reminder_id r) t) (reminder_occurrences d)")
    case None
    with r(1) cust show ?thesis by (auto simp: sql_fetchone_None)
  next
    case (Some y)
    with key show ?thesis by (auto dest: sql_fetchone_Some)
  qed
  let ?Q = "\<lambda>x. rem_state x = ''claimed'' \<and> reminder_delivery_custody t x"
  have "claimed_with_custody (reminder_id r) t = (\<lambda>x. reminder_id x = reminder_id r \<and> ?Q x)"
    by (simp add: claimed_with_custody_def fun_eq_iff)
  moreover have "\<exists>x\<in>set (reminder_occurrences d). reminder_id x = reminder_id r \<and> ?Q x"
    using r(1) cust by (auto simp: claimed_with_custody_def)
  ultimately show "sql_count (claimed_with_custody (reminder_id r) t) (reminder_occurrences d) = 1"
    using sql_count_one [of reminder_id "reminder_occurrences d" "reminder_id r" ?Q] ok
    by (simp add: reminders_ok_def)
qed

lemma deliver_total:
  assumes inv: "store_inv d" and ok: "reminders_ok d"
    and r: "r \<in> set (reminder_occurrences d)" "rem_state r = ''claimed''" "reminder_local_delivery r"
    and can: "renders now0 r" "event_free d r"
  shows "\<exists>x d'. deliver_claimed_reminder clocks (reminder_id r) now d = Inr (Some x, d') \<and>
    store_inv d' \<and> reminders_ok d' \<and>
    reminder_occurrences d' = sql_update (\<lambda>y. y = r)
      (deliver_row (reminder_event_id (occurrence_id r)) now) (reminder_occurrences d) \<and>
    envelope_id ` set (messages d') = insert (reminder_event_id (occurrence_id r)) (envelope_id ` set (messages d))"
proof -
  obtain t1 t2 t3 where clocks: "clocks = (t1, t2, t3)" by (cases clocks)
  let ?f = "deliver_row (reminder_event_id (occurrence_id r)) now"
  let ?P = "claimed_with_custody (reminder_id r) t3"
  let ?Q = "\<lambda>y. y = r \<and> rem_state y = ''claimed'' \<and> True \<and> occurrence_id y = occurrence_id r"
  note sel = local_claim_selected [OF ok r]
  have "reminder_wf r" using ok r(1) by (simp add: reminders_ok_def)
  from ensure_total [OF inv this r(2) can] obtain d1 where ev: "ensure_reminder_event t2 now r d = Inr d1"
    and msgs: "envelope_id ` set (messages d1)
      = insert (reminder_event_id (occurrence_id r)) (envelope_id ` set (messages d))" by blast
  have rows: "reminder_occurrences d1 = reminder_occurrences d" using ev by (rule ensure_event_reminders)
  have ok1: "reminders_ok d1" using ok rows by (simp add: reminders_ok_def)
  have eq: "?P y = ?Q y" if "y \<in> set (reminder_occurrences d1)" for y
    using that rows sel(1) r(2) by auto
  obtain d2 where d2: "update_reminders ?P ?f d1 = Inr d2"
    using update_reminders_total(1) [OF ok1 safe_deliver [of "\<lambda>y. y = r" "\<lambda>_. True" "occurrence_id r" now]]
      update_reminders_cong [of d1 ?P ?Q ?f, OF eq] by simp
  have rows2: "reminder_occurrences d2 = sql_update (\<lambda>y. y = r) ?f (reminder_occurrences d)"
    using update_reminders_frame [OF d2] rows sql_update_cong [OF sel(1) refl] by simp
  have "distinct (map reminder_id (reminder_occurrences d2))"
    using d2 by (auto simp: update_reminders_def dest: write_reminders_Inr)
  moreover have "?f r \<in> set (reminder_occurrences d2)" using r(1) by (auto simp: rows2 set_sql_update)
  ultimately have "find_reminder (reminder_id r) d2 = Some (?f r)"
    using sql_fetchone_key [of reminder_id "reminder_occurrences d2" "?f r"]
    by (simp add: find_reminder_def deliver_row_def)
  then have op: "deliver_claimed_reminder clocks (reminder_id r) now d = Inr (Some (?f r), d2)"
    using sel(2,3) ev d2 rows by (simp add: deliver_claimed_reminder_def clocks reminder_back_def)
  have "envelope_id ` set (messages d2) = envelope_id ` set (messages d1)"
    using update_reminders_frame [OF d2] by simp
  moreover have "store_inv d2" "reminders_ok d2"
    using deliver_store_inv [OF ok inv op] deliver_tx [OF ok op] by (simp_all add: reminder_tx_def)
  ultimately show ?thesis using op rows2 msgs by auto
qed

lemma deliver_each_all:
  assumes "store_inv d" "reminders_ok d" "distinct rids"
    and "\<forall>rid\<in>set rids. \<exists>r\<in>set (reminder_occurrences d). reminder_id r = rid \<and> rem_state r = ''claimed''
           \<and> reminder_local_delivery r \<and> renders now0 r \<and> event_free d r"
  shows "\<exists>rs d'. deliver_each clk i rids now acc d = (Inr rs, d') \<and> length rs = length acc + length rids \<and>
    (\<forall>r'\<in>set (reminder_occurrences d'). r' \<in> set (reminder_occurrences d) \<or> rem_state r' = ''delivered'') \<and>
    (\<forall>r0\<in>set (reminder_occurrences d). reminder_id r0 \<notin> set rids \<longrightarrow> r0 \<in> set (reminder_occurrences d')) \<and>
    (\<forall>rid\<in>set rids. \<exists>r'\<in>set (reminder_occurrences d'). reminder_id r' = rid \<and> rem_state r' = ''delivered'')"
  using assms
proof (induction rids arbitrary: i acc d)
  case Nil
  then show ?case by simp
next
  case (Cons rid rids)
  from Cons.prems(4) obtain r where r: "r \<in> set (reminder_occurrences d)" "reminder_id r = rid"
    "rem_state r = ''claimed''" "reminder_local_delivery r" "renders now0 r" "event_free d r" by auto
  let ?f = "deliver_row (reminder_event_id (occurrence_id r)) now"
  from deliver_total [OF Cons.prems(1,2) r(1,3,4,5,6), of "clk i" now] r(2)
  obtain x d1 where op: "deliver_claimed_reminder (clk i) rid now d = Inr (Some x, d1)"
    and d1: "store_inv d1" "reminders_ok d1"
      "reminder_occurrences d1 = sql_update (\<lambda>y. y = r) ?f (reminder_occurrences d)"
      "envelope_id ` set (messages d1) = insert (reminder_event_id (occurrence_id r)) (envelope_id ` set (messages d))"
    by blast
  have rest: "\<exists>y\<in>set (reminder_occurrences d1). reminder_id y = rid' \<and> rem_state y = ''claimed''
      \<and> reminder_local_delivery y \<and> renders now0 y \<and> event_free d1 y" if rid': "rid' \<in> set rids" for rid'
  proof -
    from Cons.prems(4) rid' obtain y where y: "y \<in> set (reminder_occurrences d)" "reminder_id y = rid'"
      "rem_state y = ''claimed''" "reminder_local_delivery y" "renders now0 y" "event_free d y" by auto
    have "y \<noteq> r" using y(2) r(2) rid' Cons.prems(3) by auto
    moreover from this have "occurrence_id y \<noteq> occurrence_id r"
      using same_occurrence [OF Cons.prems(2) r(1) y(1)] by simp
    ultimately have "y \<in> set (reminder_occurrences d1)" "event_free d1 y"
      using y(1,6) by (auto simp: d1(3,4) set_sql_update event_free_def reminder_event_id_def)
    with y show ?thesis by blast
  qed
  have "distinct rids" using Cons.prems(3) by simp
  from Cons.IH [OF d1(1,2) this, of "i + 1" "acc @ [x]"] rest
  obtain rs d' where go: "deliver_each clk (i + 1) rids now (acc @ [x]) d1 = (Inr rs, d')"
      "length rs = length (acc @ [x]) + length rids"
    and old: "\<forall>r'\<in>set (reminder_occurrences d'). r' \<in> set (reminder_occurrences d1) \<or> rem_state r' = ''delivered''"
    and kept: "\<forall>r0\<in>set (reminder_occurrences d1). reminder_id r0 \<notin> set rids \<longrightarrow> r0 \<in> set (reminder_occurrences d')"
    and all: "\<forall>rid\<in>set rids. \<exists>r'\<in>set (reminder_occurrences d'). reminder_id r' = rid \<and> rem_state r' = ''delivered''"
    by blast
  have "?f r \<in> set (reminder_occurrences d1)" using r(1) by (auto simp: d1(3) set_sql_update)
  moreover have "reminders_evolve d1 d'"
    using deliver_each_tx [OF d1(2,1), of clk "i + 1" rids now "acc @ [x]"] go(1) by (simp add: reminder_tx_def)
  ultimately obtain r' where "r' \<in> set (reminder_occurrences d')" "reminder_evolves (?f r) r'"
    by (auto simp: reminders_evolve_def)
  then have "\<exists>r'\<in>set (reminder_occurrences d'). reminder_id r' = rid \<and> rem_state r' = ''delivered''"
    using r(2) by (auto simp: reminder_evolves_def deliver_row_def)
  moreover have "\<forall>y\<in>set (reminder_occurrences d1). y \<in> set (reminder_occurrences d) \<or> rem_state y = ''delivered''"
    by (auto simp: d1(3) set_sql_update deliver_row_def)
  moreover have "length rs = length acc + length (rid # rids)" using go(2) by simp
  moreover have "\<forall>r0\<in>set (reminder_occurrences d). reminder_id r0 \<notin> set (rid # rids) \<longrightarrow>
      r0 \<in> set (reminder_occurrences d')"
    using kept r(2) by (auto simp: d1(3) set_sql_update)
  ultimately show ?case using op go(1) all old by (intro exI [of _ rs] exI [of _ d']) auto
qed

lemma selected_ids:
  "set (map reminder_id (by_intended (filter P rows))) = reminder_id ` {r \<in> set rows. P r}"
  by (auto simp: by_intended_def)

lemma distinct_selected_ids:
  assumes "reminders_ok d"
  shows "distinct (map reminder_id (by_intended (filter P (reminder_occurrences d))))"
proof -
  have "distinct (map reminder_id (filter P (reminder_occurrences d)))"
    using assms by (simp add: reminders_ok_def distinct_map_filter)
  moreover have "mset (map reminder_id (by_intended (filter P (reminder_occurrences d))))
      = mset (map reminder_id (filter P (reminder_occurrences d)))"
    by (simp add: by_intended_def)
  ultimately show ?thesis by (metis mset_eq_imp_distinct_iff)
qed

text \<open>Claiming: the UPDATEs one by one are one UPDATE of all the due rows.\<close>

lemma claim_each_all:
  assumes "reminders_ok d" "distinct rids"
    and "\<forall>rid\<in>set rids. \<exists>r\<in>set (reminder_occurrences d). reminder_id r = rid
           \<and> rem_state r = ''scheduled'' \<and> reminder_local_delivery r"
  shows "\<exists>cs d'. claim_each now rids acc d = Inr (cs, d') \<and> set cs = set acc \<union> set rids \<and>
    reminder_occurrences d' = sql_update (\<lambda>r. reminder_id r \<in> set rids) (claim_row now) (reminder_occurrences d)"
  using assms
proof (induction rids arbitrary: acc d)
  case Nil
  then show ?case by (simp add: sql_update_none)
next
  case (Cons rid rids)
  from Cons.prems(3) obtain r where r: "r \<in> set (reminder_occurrences d)" "reminder_id r = rid"
    "rem_state r = ''scheduled''" "reminder_local_delivery r" by auto
  let ?P = "\<lambda>r. reminder_id r = rid \<and> rem_state r = ''scheduled'' \<and> reminder_local_delivery r"
  have key: "?P y = (y = r)" if "y \<in> set (reminder_occurrences d)" for y
    using that r same_reminder [OF Cons.prems(1) r(1) that] by auto
  define d1 where "d1 = d\<lparr>reminder_occurrences := sql_update ?P (claim_row now) (reminder_occurrences d)\<rparr>"
  note upd = update_reminders_total [OF Cons.prems(1) safe_claim, of "\<lambda>r. reminder_id r = rid"
      reminder_local_delivery now, folded d1_def]
  have rows: "reminder_occurrences d1 = sql_update (\<lambda>y. y = r) (claim_row now) (reminder_occurrences d)"
    unfolding d1_def by simp (rule sql_update_cong [OF key refl])
  have ok1: "reminders_ok d1" using upd(2) by (simp add: reminder_tx_def)
  have cnt: "count_reminders ?P d = 1"
    using sql_count_one [of reminder_id "reminder_occurrences d" rid
        "\<lambda>r. rem_state r = ''scheduled'' \<and> reminder_local_delivery r"] r Cons.prems(1)
    by (auto simp: reminders_ok_def)
  have rest: "\<forall>rid'\<in>set rids. \<exists>y\<in>set (reminder_occurrences d1). reminder_id y = rid'
      \<and> rem_state y = ''scheduled'' \<and> reminder_local_delivery y"
  proof
    fix rid' assume rid': "rid' \<in> set rids"
    with Cons.prems(3) obtain y where y: "y \<in> set (reminder_occurrences d)" "reminder_id y = rid'"
      "rem_state y = ''scheduled''" "reminder_local_delivery y" by auto
    moreover have "y \<noteq> r" using y(2) r(2) rid' Cons.prems(2) by auto
    ultimately show "\<exists>y\<in>set (reminder_occurrences d1). reminder_id y = rid'
        \<and> rem_state y = ''scheduled'' \<and> reminder_local_delivery y"
      using sql_update_other [of y "reminder_occurrences d" "\<lambda>y. y = r" "claim_row now"] rows by auto
  qed
  have "distinct rids" using Cons.prems(2) by simp
  from Cons.IH [OF ok1 this rest, of "acc @ [rid]"]
  obtain cs d' where go: "claim_each now rids (acc @ [rid]) d1 = Inr (cs, d')"
    and cs: "set cs = set acc \<union> set (rid # rids)"
    and rows': "reminder_occurrences d' = sql_update (\<lambda>r. reminder_id r \<in> set rids) (claim_row now)
        (reminder_occurrences d1)" by auto
  have "sql_update (\<lambda>x. reminder_id x \<in> set rids) (claim_row now)
          (sql_update (\<lambda>y. y = r) (claim_row now) (reminder_occurrences d))
      = sql_update (\<lambda>x. reminder_id x \<in> set (rid # rids)) (claim_row now) (reminder_occurrences d)"
    using r(2) Cons.prems(2) same_reminder [OF Cons.prems(1) r(1)]
    by (auto simp: sql_update_def claim_row_def)
  with go cs rows' rows upd(1) cnt show ?case by simp
qed

lemma read_reminders_total:
  "set rids \<subseteq> reminder_id ` set (reminder_occurrences d) \<Longrightarrow> \<exists>rs. read_reminders rids d = Inr rs"
proof (induction rids)
  case (Cons rid rids)
  then have "find_reminder rid d \<noteq> None" by (auto simp: find_reminder_def sql_fetchone_None)
  with Cons show ?case by auto
qed simp

lemma claim_due_total:
  assumes ok: "reminders_ok d"
  shows "\<exists>rs d'. claim_due_reminders now d = Inr (rs, d') \<and> quiet_tx d d' \<and>
    reminder_occurrences d' = sql_update (due_local now) (claim_row now) (reminder_occurrences d)"
proof -
  let ?rids = "map reminder_id (by_intended (filter (due_local now) (reminder_occurrences d)))"
  note set_rids = selected_ids [of "due_local now" "reminder_occurrences d"]
  have dis: "distinct ?rids" by (rule distinct_selected_ids [OF ok])
  have "\<forall>rid\<in>set ?rids. \<exists>r\<in>set (reminder_occurrences d). reminder_id r = rid
      \<and> rem_state r = ''scheduled'' \<and> reminder_local_delivery r"
    unfolding set_rids by (auto simp: due_local_def)
  from claim_each_all [OF ok dis this, of now "[]"]
  obtain cs d' where go: "claim_each now ?rids [] d = Inr (cs, d')" and cs: "set cs = set ?rids"
    and rows: "reminder_occurrences d' = sql_update (\<lambda>r. reminder_id r \<in> set ?rids) (claim_row now)
        (reminder_occurrences d)" by auto
  have "reminder_id r \<in> set ?rids \<longleftrightarrow> due_local now r" if "r \<in> set (reminder_occurrences d)" for r
    unfolding set_rids image_iff using that same_reminder [OF ok that]
    by (metis (mono_tags, lifting) mem_Collect_eq)
  then have rows': "reminder_occurrences d' = sql_update (due_local now) (claim_row now) (reminder_occurrences d)"
    unfolding rows by (intro sql_update_cong) simp_all
  have "map reminder_id (reminder_occurrences d') = map reminder_id (reminder_occurrences d)"
    unfolding rows' by (rule map_sql_update_frame) (simp add: claim_row_def)
  then have "reminder_id ` set (reminder_occurrences d') = reminder_id ` set (reminder_occurrences d)"
    by (metis list.set_map)
  with cs set_rids have "set cs \<subseteq> reminder_id ` set (reminder_occurrences d')" by auto
  then obtain rs where "read_reminders cs d' = Inr rs" using read_reminders_total by blast
  with go rows' claim_each_quiet [OF ok go] show ?thesis by (simp add: claim_due_reminders_def)
qed

text \<open>After the claims: what the pass selects can be delivered, and nothing due is missing.\<close>

lemma ready_after_claim:
  assumes ok: "reminders_ok d" and same: "messages d1 = messages d"
    and can: "\<forall>r\<in>set (reminder_occurrences d).
      reminder_local_delivery r \<and> (due_local now r \<or> rem_state r = ''claimed'') \<longrightarrow>
      renders now r \<and> event_free d r"
    and r: "r \<in> set (sql_update (due_local now) (claim_row now) (reminder_occurrences d))"
      "rem_state r = ''claimed'' \<and> reminder_local_delivery r"
  shows "renders now r \<and> event_free d1 r"
  using r(1)
proof (cases rule: in_sql_updateE)
  case (1 r0)
  with can have "renders now r0" "event_free d r0" by (auto simp: due_local_def)
  moreover have "actual_fire_at_ms r0 = None"
    using 1 ok by (auto simp: reminders_ok_def reminder_wf_def reminder_times_ok_def due_local_def)
  ultimately show ?thesis
    using 1(3) same by (simp add: renders_def event_free_def claim_row_def get_default_def)
next
  case 2
  with can r(2) same show ?thesis by (auto simp: event_free_def)
qed

lemma selected_after_claim:
  assumes "r \<in> set rows" "reminder_local_delivery r" "due_local now r \<or> rem_state r = ''claimed''"
  shows "reminder_id r \<in> reminder_id ` {x \<in> set (sql_update (due_local now) (claim_row now) rows).
      rem_state x = ''claimed'' \<and> reminder_local_delivery x}"
proof (cases "due_local now r")
  case True
  with assms(1) have "claim_row now r \<in> set (sql_update (due_local now) (claim_row now) rows)"
    by (rule sql_update_in)
  then have "claim_row now r \<in> {x \<in> set (sql_update (due_local now) (claim_row now) rows).
      rem_state x = ''claimed'' \<and> reminder_local_delivery x}"
    using assms(2) by (simp add: claim_row_def reminder_local_delivery_def)
  from imageI [OF this, of reminder_id] show ?thesis by (simp add: claim_row_def)
next
  case False
  with assms(1) have "r \<in> set (sql_update (due_local now) (claim_row now) rows)"
    by (rule sql_update_other)
  with assms False show ?thesis by auto
qed

lemma length_filter_sql_update:
  "(\<And>r. r \<in> set rows \<Longrightarrow> C (if P r then f r else r) = B r)
   \<Longrightarrow> length (filter C (sql_update P f rows)) = length (filter B rows)"
  by (induction rows) (simp_all add: sql_update_def)

definition deliverable :: "int \<Rightarrow> reminder_row \<Rightarrow> bool" where
  "deliverable now r \<longleftrightarrow> reminder_local_delivery r \<and> (due_local now r \<or> rem_state r = ''claimed'')"

text \<open>The whole pass: what is delivered, how many, and that every other row is as before.\<close>

lemma deliver_due_all:
  assumes inv: "store_inv d" and ok: "reminders_ok d"
    and can: "\<forall>r\<in>set (reminder_occurrences d). deliverable now r \<longrightarrow> renders now r \<and> event_free d r"
  shows "\<exists>rs d'. deliver_due_reminders clk now d = (Inr rs, d') \<and>
    length rs = length (filter (deliverable now) (reminder_occurrences d)) \<and>
    (\<forall>r\<in>set (reminder_occurrences d). deliverable now r \<longrightarrow>
      (\<exists>r'\<in>set (reminder_occurrences d'). reminder_id r' = reminder_id r \<and> rem_state r' = ''delivered'')) \<and>
    (\<forall>r'\<in>set (reminder_occurrences d'). rem_state r' = ''delivered'' \<or>
      r' \<in> set (reminder_occurrences d) \<and> \<not> deliverable now r') \<and>
    (\<forall>r\<in>set (reminder_occurrences d). \<not> deliverable now r \<longrightarrow> r \<in> set (reminder_occurrences d'))"
proof -
  from claim_due_total [OF ok, of now] obtain rs0 d1 where claim: "claim_due_reminders now d = Inr (rs0, d1)"
    and q: "quiet_tx d d1"
    and rows: "reminder_occurrences d1 = sql_update (due_local now) (claim_row now) (reminder_occurrences d)"
    by blast
  have d1: "store_inv d1" "reminders_ok d1" "messages d1 = messages d"
    using q inv by (auto simp: quiet_tx_store_inv quiet_tx_ok quiet_tx_messages)
  let ?C = "\<lambda>r. rem_state r = ''claimed'' \<and> reminder_local_delivery r"
  let ?rids = "map reminder_id (by_intended (filter ?C (reminder_occurrences d1)))"
  note set_rids = selected_ids [of ?C "reminder_occurrences d1"]
  note ready = ready_after_claim [OF ok d1(3) can [unfolded deliverable_def], folded rows]
  have "\<forall>rid\<in>set ?rids. \<exists>r\<in>set (reminder_occurrences d1). reminder_id r = rid \<and> rem_state r = ''claimed''
      \<and> reminder_local_delivery r \<and> renders now r \<and> event_free d1 r"
    unfolding set_rids using ready by auto
  from deliver_each_all [OF d1(1,2) distinct_selected_ids [OF d1(2)] this, of clk 0 now "[]"]
  obtain rs d' where go: "deliver_each clk 0 ?rids now [] d1 = (Inr rs, d')" "length rs = length ?rids"
    and old: "\<forall>r'\<in>set (reminder_occurrences d'). r' \<in> set (reminder_occurrences d1) \<or> rem_state r' = ''delivered''"
    and kept: "\<forall>r0\<in>set (reminder_occurrences d1). reminder_id r0 \<notin> set ?rids \<longrightarrow> r0 \<in> set (reminder_occurrences d')"
    and all: "\<forall>rid\<in>set ?rids. \<exists>r'\<in>set (reminder_occurrences d'). reminder_id r' = rid
      \<and> rem_state r' = ''delivered''" by auto
  have ok': "reminders_ok d'"
    using deliver_each_tx [OF d1(2,1), of clk 0 ?rids now "[]"] go(1) by (simp add: reminder_tx_def)
  have "length rs = length (filter (deliverable now) (reminder_occurrences d))"
    unfolding go(2) rows length_map by_intended_def length_sort
    by (rule length_filter_sql_update)
      (auto simp: deliverable_def due_local_def claim_row_def reminder_local_delivery_def)
  moreover have "\<exists>r'\<in>set (reminder_occurrences d'). reminder_id r' = reminder_id r \<and> rem_state r' = ''delivered''"
    if "r \<in> set (reminder_occurrences d)" "deliverable now r" for r
  proof -
    have "reminder_id r \<in> set ?rids" using that
      unfolding selected_ids rows deliverable_def by (intro selected_after_claim) auto
    with all show ?thesis by blast
  qed
  moreover have "r' \<in> set (reminder_occurrences d) \<and> \<not> deliverable now r'"
    if r': "r' \<in> set (reminder_occurrences d')" "rem_state r' \<noteq> ''delivered''" for r'
  proof -
    have in1: "r' \<in> set (reminder_occurrences d1)" using old r' by blast
    have free: "\<not> ?C r'"
    proof
      assume "?C r'"
      with in1 have "reminder_id r' \<in> set ?rids" unfolding set_rids by blast
      with all obtain x where "x \<in> set (reminder_occurrences d')" "reminder_id x = reminder_id r'"
        "rem_state x = ''delivered''" by blast
      with same_reminder [OF ok' r'(1)] r'(2) show False by metis
    qed
    from in1 [unfolded rows] show ?thesis
      by (cases rule: in_sql_updateE)
        (use free in \<open>auto simp: deliverable_def due_local_def claim_row_def reminder_local_delivery_def\<close>)
  qed
  moreover have "r \<in> set (reminder_occurrences d')"
    if r: "r \<in> set (reminder_occurrences d)" "\<not> deliverable now r" for r
  proof -
    have "\<not> due_local now r" "\<not> ?C r" using r(2) by (auto simp: deliverable_def due_local_def)
    with r(1) have in1: "r \<in> set (reminder_occurrences d1)" by (auto simp: rows set_sql_update)
    have "reminder_id r \<notin> set ?rids" unfolding set_rids
      using same_reminder [OF d1(2) in1] \<open>\<not> ?C r\<close> by force
    with kept in1 show ?thesis by blast
  qed
  moreover have "deliver_due_reminders clk now d = (Inr rs, d')"
    using claim go(1) by (simp add: deliver_due_reminders_def)
  ultimately show ?thesis by (intro exI conjI) blast+
qed

text \<open>
  No due reminder is left behind: when every claimed or due reminder on the local path has a
  canonical target, renderable times and a free event id, a delivery pass returns without an error,
  whatever the clock reads during it, and every one of those reminders is delivered.
\<close>

theorem deliver_due_complete:
  assumes "store_inv d" and "reminders_ok d"
    and "\<forall>r\<in>set (reminder_occurrences d).
      reminder_local_delivery r \<and> (due_local now r \<or> rem_state r = ''claimed'') \<longrightarrow>
      renders now r \<and> event_free d r"
  shows "\<exists>rs d'. deliver_due_reminders clk now d = (Inr rs, d') \<and>
    (\<forall>r\<in>set (reminder_occurrences d).
      reminder_local_delivery r \<and> (due_local now r \<or> rem_state r = ''claimed'') \<longrightarrow>
      (\<exists>r'\<in>set (reminder_occurrences d'). reminder_id r' = reminder_id r \<and> rem_state r' = ''delivered''))"
proof -
  from deliver_due_all [OF assms(1,2) assms(3) [folded deliverable_def], of clk]
  obtain rs d' where "deliver_due_reminders clk now d = (Inr rs, d')"
    "\<forall>r\<in>set (reminder_occurrences d). deliverable now r \<longrightarrow>
      (\<exists>r'\<in>set (reminder_occurrences d'). reminder_id r' = reminder_id r \<and> rem_state r' = ''delivered'')"
    by (elim exE conjE) (rule that)
  then show ?thesis unfolding deliverable_def by (intro exI conjI)
qed

lemma target_reads: "parse_inbox_target ''dm:bob'' = Inr (''dm'', [], [], ''bob'')"
  by code_simp

lemma times_read: "reminder_time_to_rfc3339 900 = Inr ''1970-01-01T00:00:00.900Z''"
  "reminder_time_to_rfc3339 1000 = Inr ''1970-01-01T00:00:01.000Z''"
  by code_simp+

theorem deliver_due_complete_witness:
  "\<exists>rs d'. deliver_due_reminders (\<lambda>i. (1001, 1002, 1003)) 1000 due_db = (Inr rs, d') \<and>
    (\<exists>r'\<in>set (reminder_occurrences d'). reminder_id r' = ''r1'' \<and> rem_state r' = ''delivered'')"
proof -
  have r: "set (reminder_occurrences due_db) = {due_reminder}" by (simp add: due_db_def)
  have "renders 1000 due_reminder"
    by (simp add: renders_def due_reminder_def new_reminder_def target_reads times_read get_default_def)
  moreover have "event_free due_db due_reminder" by (simp add: event_free_def due_db_def empty_db_def)
  ultimately have "\<exists>rs d'. deliver_due_reminders (\<lambda>i. (1001, 1002, 1003)) 1000 due_db = (Inr rs, d') \<and>
    (\<forall>r\<in>set (reminder_occurrences due_db).
      reminder_local_delivery r \<and> (due_local 1000 r \<or> rem_state r = ''claimed'') \<longrightarrow>
      (\<exists>r'\<in>set (reminder_occurrences d'). reminder_id r' = reminder_id r \<and> rem_state r' = ''delivered''))"
    using r by (intro deliver_due_complete store_inv_due(1) reminders_ok_due) simp
  moreover have "reminder_local_delivery due_reminder" "due_local 1000 due_reminder"
    "reminder_id due_reminder = ''r1''"
    by (simp_all add: due_local_def reminder_local_delivery_def due_reminder_def new_reminder_def)
  ultimately show ?thesis unfolding r by fastforce
qed

end
