(* ===== verification/Reminder_Snapshots.thy ===== *)
theory Reminder_Snapshots
  imports Reminder_Props
begin

section \<open>Envelopes, deadlines, snapshots, replacement\<close>

text \<open>
  The write-once envelope and its size, the scheduler's next deadline, the idempotence of the
  Server's terminal snapshots, and the replayable local replacement.
\<close>

subsection \<open>The envelope\<close>

text \<open>
  The opaque envelope is written once: storing it succeeds for any row without one, the stored
  row reads back with exactly these bytes, storing the same envelope again returns the same row and
  writes nothing, and every different envelope is refused from then on.
\<close>

theorem envelope_write_once:
  assumes "reminders_ok d" "r \<in> set (reminder_occurrences d)" "occurrence_id r \<noteq> []"
    and "opaque_payload r = None" "valid_payload_format fmt" "valid_opaque_payload opaque"
  shows "\<exists>r' d'. persist_reminder_envelope (occurrence_id r) fmt opaque d = Inr (r', d') \<and>
    payload_format r' = Some fmt \<and> opaque_payload r' = Some opaque \<and>
    get_reminder_sync_record (occurrence_id r) d' = Inr (Some r') \<and>
    persist_reminder_envelope (occurrence_id r) fmt opaque d' = Inr (r', d') \<and>
    (\<forall>fmt' opaque'. (fmt', opaque') \<noteq> (fmt, opaque) \<and> valid_payload_format fmt'
       \<and> valid_opaque_payload opaque' \<longrightarrow>
       persist_reminder_envelope (occurrence_id r) fmt' opaque' d' =
         Inl (LifecycleConflict ''reminder envelope is immutable''))"
proof -
  let ?P = "\<lambda>x. occurrence_id x = occurrence_id r \<and> opaque_payload x = None"
  let ?f = "\<lambda>x. x\<lparr>payload_format := Some fmt, opaque_payload := Some opaque\<rparr>"
  let ?d = "d\<lparr>reminder_occurrences := sql_update ?P ?f (reminder_occurrences d)\<rparr>"
  note upd = update_reminders_total [OF assms(1) safe_envelope [OF assms(5,6)], of "occurrence_id r"]
  have ok: "reminders_ok ?d" using upd(2) by (simp add: reminder_tx_def)
  have "?f r \<in> set (reminder_occurrences ?d)"
    using assms(2,4) sql_update_in [of r "reminder_occurrences d" ?P ?f] by simp
  from find_occurrence_in [OF ok this] have found: "find_occurrence (occurrence_id r) ?d = Some (?f r)"
    by simp
  have "persist_reminder_envelope (occurrence_id r) fmt opaque d = Inr (?f r, ?d)"
    using assms(3-6) upd(1) find_occurrence_in [OF assms(1,2)] found
    by (simp add: persist_reminder_envelope_def occurrence_back_def)
  with found assms(3,5,6) show ?thesis
    by (auto simp: persist_reminder_envelope_def get_reminder_sync_record_def)
qed

theorem envelope_write_once_witness:
  "\<exists>r' d'. persist_reminder_envelope ''o1'' ''v1'' ''xyz'' due_db = Inr (r', d') \<and>
    opaque_payload r' = Some ''xyz'' \<and>
    persist_reminder_envelope ''o1'' ''v1'' ''abc'' d' =
      Inl (LifecycleConflict ''reminder envelope is immutable'')"
proof -
  have v: "valid_payload_format ''v1''" "valid_opaque_payload ''xyz''" "valid_opaque_payload ''abc''"
    by (simp_all add: valid_payload_format_def valid_opaque_payload_def is_ascii_def is_space_def Let_def)
  have r: "due_reminder \<in> set (reminder_occurrences due_db)" "occurrence_id due_reminder = ''o1''"
    "opaque_payload due_reminder = None"
    by (simp_all add: due_db_def due_reminder_def new_reminder_def)
  have "occurrence_id due_reminder \<noteq> []" by (simp add: r(2))
  from envelope_write_once [OF reminders_ok_due r(1) this r(3) v(1,2), unfolded r(2)]
  obtain r' d' where p: "persist_reminder_envelope ''o1'' ''v1'' ''xyz'' due_db = Inr (r', d')"
    and q: "opaque_payload r' = Some ''xyz''"
    and all: "\<forall>fmt' opaque'. (fmt', opaque') \<noteq> (''v1'', ''xyz'') \<and> valid_payload_format fmt'
       \<and> valid_opaque_payload opaque' \<longrightarrow> persist_reminder_envelope ''o1'' fmt' opaque' d' =
         Inl (LifecycleConflict ''reminder envelope is immutable'')"
    by (elim exE conjE) (rule that)
  have "persist_reminder_envelope ''o1'' ''v1'' ''abc'' d' =
      Inl (LifecycleConflict ''reminder envelope is immutable'')"
    using all [THEN spec, of "''v1''", THEN spec, of "''abc''"] v by simp
  then show ?thesis by (intro exI conjI) (rule p, rule q)
qed

subsection \<open>The next deadline\<close>

lemma by_intended_hd:
  assumes "by_intended rows = r # rest" "x \<in> set rows"
  shows "r \<in> set rows \<and> intended_at_ms r \<le> intended_at_ms x"
proof -
  let ?k = "\<lambda>r. (intended_at_ms r, occurrence_id r)"
  have set: "set (r # rest) = set rows" using assms(1) by (metis by_intended_def set_sort)
  have "sorted (map ?k (r # rest))" using assms(1) by (metis by_intended_def sorted_sort_key)
  then have "\<forall>y\<in>set (r # rest). ?k r \<le> ?k y" by auto
  with set assms(2) show ?thesis by (auto simp: less_eq_prod_def)
qed

definition deadline_eligible :: "bool \<Rightarrow> int option \<Rightarrow> reminder_row \<Rightarrow> bool" where
  "deadline_eligible local_only after_ms r \<longleftrightarrow>
     rem_state r = ''scheduled'' \<and> \<not> snapshot_conflict r
     \<and> (local_only \<longrightarrow> reminder_local_delivery r)
     \<and> (case after_ms of None \<Rightarrow> True | Some a \<Rightarrow> a < intended_at_ms r)"

definition deadline_recovers :: "bool \<Rightarrow> reminder_row \<Rightarrow> bool" where
  "deadline_recovers local_only r \<longleftrightarrow>
     rem_state r = ''claimed'' \<and> \<not> snapshot_conflict r \<and> (local_only \<longrightarrow> reminder_local_delivery r)"

text \<open>
  The scheduler's next deadline is exact: with claimed work to recover it is now (unless only
  later work was asked for), otherwise it is the least intended time of an eligible scheduled
  reminder, and there is none only when no reminder is eligible.
\<close>

lemma next_deadline_exact:
  "if after_ms = None \<and> (\<exists>r\<in>set (reminder_occurrences d). deadline_recovers lo r)
   then next_reminder_deadline now lo after_ms d = Some now
   else (case next_reminder_deadline now lo after_ms d of
           None \<Rightarrow> {r \<in> set (reminder_occurrences d). deadline_eligible lo after_ms r} = {}
         | Some t \<Rightarrow> (\<exists>r\<in>set (reminder_occurrences d). deadline_eligible lo after_ms r \<and> intended_at_ms r = t)
             \<and> {r \<in> set (reminder_occurrences d). deadline_eligible lo after_ms r \<and> intended_at_ms r < t} = {})"
proof (cases "after_ms = None \<and> (\<exists>r\<in>set (reminder_occurrences d). deadline_recovers lo r)")
  case True
  then show ?thesis by (auto simp: next_reminder_deadline_def deadline_recovers_def)
next
  case False
  let ?rows = "filter (deadline_eligible lo after_ms) (reminder_occurrences d)"
  have "(\<lambda>r. rem_state r = ''scheduled'' \<and> (\<not> snapshot_conflict r \<and> (\<not> lo \<or> reminder_local_delivery r))
      \<and> (case after_ms of None \<Rightarrow> True | Some a \<Rightarrow> intended_at_ms r > a)) = deadline_eligible lo after_ms"
    by (auto simp: deadline_eligible_def fun_eq_iff)
  moreover have "\<not> (after_ms = None \<and> sql_exists (\<lambda>r. rem_state r = ''claimed''
      \<and> (\<not> snapshot_conflict r \<and> (\<not> lo \<or> reminder_local_delivery r))) (reminder_occurrences d))"
    using False by (auto simp: deadline_recovers_def)
  ultimately have op: "next_reminder_deadline now lo after_ms d =
      (case by_intended ?rows of [] \<Rightarrow> None | r # _ \<Rightarrow> Some (intended_at_ms r))"
    unfolding next_reminder_deadline_def Let_def by (simp only: if_False)
  show ?thesis
  proof (cases "by_intended ?rows")
    case Nil
    then have "?rows = []" by (metis by_intended_def set_sort set_empty)
    with op Nil False show ?thesis by (auto simp: filter_empty_conv)
  next
    case (Cons r rest)
    have "r \<in> set ?rows" using Cons by (metis by_intended_def list.set_intros(1) set_sort)
    moreover have "\<forall>x\<in>set ?rows. intended_at_ms r \<le> intended_at_ms x"
      using by_intended_hd [OF Cons] by blast
    ultimately show ?thesis using op Cons False by auto
  qed
qed

subsection \<open>Snapshots\<close>

lemma find_after_update:
  assumes "reminders_ok d" "row_safe P f" "r \<in> set (reminder_occurrences d)"
    and "update_reminders P f d = Inr d'"
  shows "find_occurrence (occurrence_id r) d' = Some (if P r then f r else r)"
    and "find_reminder (reminder_id r) d' = Some (if P r then f r else r)"
proof -
  have ok: "reminders_ok d'" using update_reminders_tx [OF assms(1,2,4)] by (simp add: reminder_tx_def)
  let ?r = "if P r then f r else r"
  have "?r \<in> set (reminder_occurrences d')"
    using update_reminders_frame [OF assms(4)] assms(3) by (simp add: set_sql_update)
  moreover have "occurrence_id ?r = occurrence_id r" "reminder_id ?r = reminder_id r"
    using assms(1,2,3) by (auto simp: row_safe_def reminders_ok_def reminder_evolves_def)
  ultimately show "find_occurrence (occurrence_id r) d' = Some ?r" "find_reminder (reminder_id r) d' = Some ?r"
    using find_occurrence_in [OF ok, of ?r] find_reminder_in [OF ok, of ?r] by (auto split: if_splits)
qed

lemma find_occurrence_None_iff:
  "find_occurrence oid d = None \<longleftrightarrow> oid \<notin> occurrence_id ` set (reminder_occurrences d)"
  by (auto simp: find_occurrence_def sql_fetchone_None)

lemma quiet_occurrences:
  assumes "update_reminders P f d = Inr d'" "reminders_ok d" "row_safe P f"
  shows "occurrence_id ` set (reminder_occurrences d') = occurrence_id ` set (reminder_occurrences d)"
proof -
  have "map occurrence_id (sql_update P f (reminder_occurrences d)) = map occurrence_id (reminder_occurrences d)"
    using assms(2,3)
    by (intro map_sql_update_frame) (auto simp: row_safe_def reminders_ok_def reminder_evolves_def)
  then show ?thesis
    using update_reminders_frame [OF assms(1)] by (metis db.select_convs(13) db.surjective db.update_convs(13) list.set_map)
qed

text \<open>Marking twice.\<close>

lemma sql_update_done:
  "r \<in> set (sql_update P f rows) \<Longrightarrow> (\<And>x. P x \<Longrightarrow> \<not> P (f x)) \<Longrightarrow> \<not> P r"
  by (erule in_sql_updateE) simp_all

lemma update_nothing:
  assumes "reminders_ok d" "\<And>r. r \<in> set (reminder_occurrences d) \<Longrightarrow> \<not> P r"
  shows "update_reminders P f d = Inr d" "count_reminders P d = 0"
proof -
  have "sql_update P f (reminder_occurrences d) = reminder_occurrences d"
    using assms(2) by (rule sql_update_none)
  then show "update_reminders P f d = Inr d"
    using assms(1) by (simp add: update_reminders_def write_reminders_total reminders_ok_def)
  show "count_reminders P d = 0" using assms(2) by (simp add: sql_count_0)
qed

lemma mark_occurrence_again:
  assumes "reminders_ok d" "mark_occurrence_snapshot_conflict oid d = Inr (res, d')"
  shows "mark_occurrence_snapshot_conflict oid d' = Inr (materialized False True, d')"
proof -
  let ?P = "\<lambda>r. occurrence_id r = oid \<and> \<not> snapshot_conflict r"
  have upd: "update_reminders ?P (\<lambda>r. r\<lparr>snapshot_conflict := True\<rparr>) d = Inr d'"
    using assms(2) by (auto simp: mark_occurrence_snapshot_conflict_def Let_def res_bind_Inr)
  have "\<not> ?P r" if "r \<in> set (reminder_occurrences d')" for r
  proof -
    have "r \<in> set (sql_update ?P (\<lambda>r. r\<lparr>snapshot_conflict := True\<rparr>) (reminder_occurrences d))"
      using that update_reminders_frame [OF upd] by simp
    then show ?thesis by (rule sql_update_done) simp
  qed
  from update_nothing [OF quiet_tx_ok [OF mark_occurrence_quiet [OF assms]] this] show ?thesis
    by (simp add: mark_occurrence_snapshot_conflict_def)
qed

lemma mark_reminder_again:
  assumes "reminders_ok d" "mark_reminder_snapshot_conflict rid d = Inr (res, d')"
  shows "mark_reminder_snapshot_conflict rid d' = Inr (materialized False False, d')"
proof -
  let ?P = "\<lambda>r. reminder_id r = rid \<and> \<not> snapshot_conflict r"
  obtain d1 where upd: "update_reminders ?P (\<lambda>r. r\<lparr>snapshot_conflict := True\<rparr>) d = Inr d1"
    and d': "d' = (if count_reminders ?P d \<noteq> 0 then d1 else d)"
    using assms(2) by (auto simp: mark_reminder_snapshot_conflict_def Let_def res_bind_Inr split: if_splits)
  have "\<not> ?P r" if "r \<in> set (reminder_occurrences d')" for r
  proof (cases "count_reminders ?P d = 0")
    case True
    with that d' show ?thesis by (simp add: sql_count_0)
  next
    case False
    with that d' update_reminders_frame [OF upd]
    have "r \<in> set (sql_update ?P (\<lambda>r. r\<lparr>snapshot_conflict := True\<rparr>) (reminder_occurrences d))" by simp
    then show ?thesis by (rule sql_update_done) simp
  qed
  from update_nothing [OF quiet_tx_ok [OF mark_reminder_quiet [OF assms]] this] show ?thesis
    by (simp add: mark_reminder_snapshot_conflict_def)
qed

lemma mark_occurrences_same:
  "reminders_ok d \<Longrightarrow> mark_reminder_snapshot_conflict rid d = Inr (res, d') \<Longrightarrow>
   occurrence_id ` set (reminder_occurrences d') = occurrence_id ` set (reminder_occurrences d)"
  by (auto simp: mark_reminder_snapshot_conflict_def Let_def res_bind_Inr split: if_splits
      dest: quiet_occurrences [OF _ _ safe_conflict])

lemma mark_occurrence_found:
  assumes "reminders_ok d" "mark_occurrence_snapshot_conflict (occurrence_id r) d = Inr (res, d')"
    and "r \<in> set (reminder_occurrences d)"
  shows "find_occurrence (occurrence_id r) d' = Some (r\<lparr>snapshot_conflict := True\<rparr>)"
proof -
  have upd: "update_reminders (\<lambda>x. occurrence_id x = occurrence_id r \<and> \<not> snapshot_conflict x)
      (\<lambda>r. r\<lparr>snapshot_conflict := True\<rparr>) d = Inr d'"
    using assms(2) by (auto simp: mark_occurrence_snapshot_conflict_def Let_def res_bind_Inr)
  from find_after_update(1) [OF assms(1) safe_conflict assms(3) upd] show ?thesis by simp
qed

lemma terminal_settled:
  assumes "lifecycle \<in> {''cancelled'', ''delivered''}"
    and r': "r' = apply_terminal (merged_remote_terminal_values r lifecycle t rv) fmt r"
  shows "\<not> terminal_materialization_changes r' (merged_remote_terminal_values r' lifecycle t rv)"
proof -
  consider (kept) "rem_state r = ''delivered''"
    | (del) "rem_state r \<noteq> ''delivered''" "lifecycle = ''delivered''"
    | (can) "rem_state r \<noteq> ''delivered''" "lifecycle = ''cancelled''"
    using assms(1) by blast
  then show ?thesis
    by cases (simp_all add: r' apply_terminal_def merged_remote_terminal_values_def
        terminal_values_def terminal_materialization_changes_def)
qed

text \<open>
  A Server terminal snapshot is idempotent: applying the same one again, on whatever branch the
  first application took (conflict on either identity, already settled, or applied), changes nothing
  and reports no change.
\<close>

theorem terminal_snapshot_idempotent:
  assumes ok: "reminders_ok d"
    and op: "materialize_remote_terminal_reminder rid oid intended lifecycle t rv fmt d = Inr (res, d')"
  shows "\<exists>c. materialize_remote_terminal_reminder rid oid intended lifecycle t rv fmt d'
      = Inr (materialized False c, d')"
proof -
  have v: "validate_remote_terminal_reminder rid oid lifecycle rv fmt = Inr ()"
    using op by (auto simp: materialize_remote_terminal_reminder_def res_bind_Inr)
  note valid = validate_terminal_Inr [OF v]
  show ?thesis
  proof (cases "find_occurrence oid d")
    case None
    with op v have m: "mark_reminder_snapshot_conflict rid d = Inr (res, d')"
      by (simp add: materialize_remote_terminal_reminder_def)
    have "find_occurrence oid d' = None"
      using None mark_occurrences_same [OF ok m] by (simp add: find_occurrence_None_iff)
    with v mark_reminder_again [OF ok m] show ?thesis
      by (intro exI) (simp add: materialize_remote_terminal_reminder_def)
  next
    case (Some r)
    then have r: "r \<in> set (reminder_occurrences d)" "occurrence_id r = oid" by (auto dest: find_occurrence_Some)
    let ?bad = "reminder_id r \<noteq> rid \<or> intended_at_ms r \<noteq> intended \<or> payload_format r \<notin> {None, Some fmt}"
    let ?v = "merged_remote_terminal_values r lifecycle t rv"
    consider (bad) ?bad | (same) "\<not> ?bad" "\<not> terminal_materialization_changes r ?v"
      | (go) "\<not> ?bad" "terminal_materialization_changes r ?v" by blast
    then show ?thesis
    proof cases
      case bad
      with op v Some have m: "mark_occurrence_snapshot_conflict (occurrence_id r) d = Inr (res, d')"
        by (simp add: materialize_remote_terminal_reminder_def r(2))
      from mark_occurrence_found [OF ok m r(1)] mark_occurrence_again [OF ok m] bad v show ?thesis
        by (intro exI) (simp add: materialize_remote_terminal_reminder_def r(2))
    next
      case same
      with op v Some show ?thesis by (auto simp: materialize_remote_terminal_reminder_def)
    next
      case go
      let ?f = "apply_terminal ?v fmt"
      have upd: "update_reminders (\<lambda>r. occurrence_id r = oid) ?f d = Inr d'"
        using op v Some go by (auto simp: materialize_remote_terminal_reminder_def Let_def res_bind_Inr)
      have "update_reminders (\<lambda>x. x = r) ?f d = Inr d'"
        using upd update_reminders_cong [of d "\<lambda>x. occurrence_id x = oid" "\<lambda>x. x = r" ?f]
          same_occurrence [OF ok r(1)] r(2) by simp
      from find_after_update(1) [OF ok safe_terminal r(1) this] valid
      have "find_occurrence oid d' = Some (?f r)" using r(2) by simp
      moreover have "\<not> terminal_materialization_changes (?f r) (merged_remote_terminal_values (?f r) lifecycle t rv)"
        using valid by (intro terminal_settled [OF _ refl]) simp
      ultimately show ?thesis
        using v go(1) by (auto simp: materialize_remote_terminal_reminder_def apply_terminal_def get_default_def)
    qed
  qed
qed

theorem terminal_snapshot_idempotent_witness:
  "\<exists>c d'. materialize_remote_terminal_reminder ''r1'' ''o1'' 900 ''cancelled'' 950 2 ''v1'' due_db
      = Inr (materialized True False, d') \<and>
    materialize_remote_terminal_reminder ''r1'' ''o1'' 900 ''cancelled'' 950 2 ''v1'' d'
      = Inr (materialized False c, d')"
proof -
  have v: "validate_remote_terminal_reminder ''r1'' ''o1'' ''cancelled'' 2 ''v1'' = Inr ()"
    by (simp add: validate_remote_terminal_reminder_def valid_payload_format_def is_ascii_def
        is_space_def Let_def)
  have r: "find_occurrence ''o1'' due_db = Some due_reminder"
    by (simp add: find_occurrence_def sql_fetchone_def due_db_def due_reminder_def new_reminder_def)
  let ?v = "merged_remote_terminal_values due_reminder ''cancelled'' 950 2"
  have "update_reminders (\<lambda>x. x = due_reminder) (apply_terminal ?v ''v1'') due_db =
      Inr (due_db\<lparr>reminder_occurrences := sql_update (\<lambda>x. x = due_reminder) (apply_terminal ?v ''v1'')
        (reminder_occurrences due_db)\<rparr>)"
    by (rule update_reminders_total(1) [OF reminders_ok_due safe_terminal])
       (simp_all add: valid_payload_format_def is_ascii_def is_space_def Let_def)
  then obtain d' where "update_reminders (\<lambda>r. occurrence_id r = ''o1'') (apply_terminal ?v ''v1'') due_db = Inr d'"
    by (simp add: update_reminders_def due_db_def sql_update_def due_reminder_def new_reminder_def)
  then have op: "materialize_remote_terminal_reminder ''r1'' ''o1'' 900 ''cancelled'' 950 2 ''v1'' due_db
      = Inr (materialized True False, d')"
    using v r by (simp add: materialize_remote_terminal_reminder_def due_reminder_def new_reminder_def
        terminal_materialization_changes_def Let_def)
  from terminal_snapshot_idempotent [OF reminders_ok_due op] op show ?thesis by (elim exE) (intro exI conjI)
qed

subsection \<open>Local replacement\<close>

text \<open>
  Replacing a local reminder is one step that can be replayed: the old row is cancelled under a
  revision the Server has not seen, the new row is scheduled, and repeating the call returns the
  same pair and changes nothing.
\<close>

theorem replace_local_replays:
  assumes ok: "reminders_ok d"
    and old: "old \<in> set (reminder_occurrences d)" "reminder_id old = rid" "rem_state old = ''scheduled''"
    and op: "replace_local_reminder rid nrid noid cont tgt intended t d = Inr ((c, n), d')"
  shows "reminder_id c = rid \<and> rem_state c = ''cancelled'' \<and> server_ack_revision c < revision c \<and>
    reminder_id n = nrid \<and> occurrence_id n = noid \<and> rem_state n = ''scheduled'' \<and>
    rem_content n = cont \<and> rem_target n = tgt \<and>
    replace_local_reminder rid nrid noid cont tgt intended t d' = Inr ((c, n), d')"
proof -
  let ?n = "new_reminder nrid noid tgt cont intended t"
  let ?P = "\<lambda>r. reminder_id r = rid \<and> rem_state r = ''scheduled''"
  let ?f = "\<lambda>r. r\<lparr>rem_state := ''cancelled'', cancelled_at_ms := Some t, revision := 2,
                 sync_retry_after_ms := None, sync_retry_count := 0\<rparr>"
  have f_old: "find_reminder rid d = Some old" "find_occurrence (occurrence_id old) d = Some old"
    using ok old find_reminder_in find_occurrence_in by auto
  obtain x d1 where args: "parse_inbox_target tgt = Inr x" "cont \<noteq> []"
      "\<not> int (reminder_plaintext_envelope_size tgt cont) > MAX_REMINDER_ENVELOPE_BYTES"
    and local: "is_unprepared_local_only old"
    and d1: "insert_reminder ?n d = Inr d1" and d2: "update_reminders ?P ?f d1 = Inr d'"
    and c: "find_reminder rid d' = Some c" and n: "find_reminder nrid d' = Some n"
    using op f_old old(3)
    by (auto simp: replace_local_reminder_def res_bind_Inr reminder_back_def split: if_splits option.splits)
  have rows: "reminder_occurrences d1 = reminder_occurrences d @ [?n]"
    using insert_reminder_frame [OF d1] by simp
  have ok1: "reminders_ok d1"
    using quiet_tx_ok [OF insert_quiet [OF d1 ok wf_new_reminder]] .
  have ne: "nrid \<noteq> rid" "noid \<noteq> occurrence_id old"
    using ok1 old(1,2) by (auto simp: reminders_ok_def rows new_reminder_def)
  have ok2: "reminders_ok d'"
    using replace_local_quiet [OF ok op] by (rule quiet_tx_ok)
  have rows': "reminder_occurrences d' = sql_update ?P ?f (reminder_occurrences d @ [?n])"
    using update_reminders_frame [OF d2] rows by simp
  have in_old: "?f old \<in> set (reminder_occurrences d')"
    unfolding rows' using old by (intro sql_update_in) simp_all
  have in_new: "?n \<in> set (reminder_occurrences d')"
    unfolding rows' using ne by (intro sql_update_other) (simp_all add: new_reminder_def)
  have c': "c = ?f old" using find_reminder_in [OF ok2 in_old] c old(2) by simp
  have n': "n = ?n" using find_reminder_in [OF ok2 in_new] n by (simp add: new_reminder_def)
  have "find_occurrence noid d' = Some n" "find_occurrence (occurrence_id c) d' = Some c"
    using find_occurrence_in [OF ok2 in_new] find_occurrence_in [OF ok2 in_old]
    by (simp_all add: n' c' new_reminder_def)
  moreover have "replacement_matches n nrid tgt cont intended None None"
    by (simp add: replacement_matches_def n' new_reminder_def)
  ultimately have "replace_local_reminder rid nrid noid cont tgt intended t d' = Inr ((c, n), d')"
    using args c c' by (simp add: replace_local_reminder_def)
  then show ?thesis
    using old(2) local by (simp add: c' n' new_reminder_def is_unprepared_local_only_def)
qed

lemma replaced_case:
  "(case x of Inr ((c, n), d') \<Rightarrow> True | _ \<Rightarrow> False) \<Longrightarrow> \<exists>c n d'. x = Inr ((c, n), d')"
  by (auto split: sum.splits)

lemma replace_sample:
  "case replace_local_reminder ''r1'' ''r2'' ''o2'' ''yo'' ''dm:bob'' 1200 500 due_db of
     Inr ((c, n), d') \<Rightarrow> True | _ \<Rightarrow> False"
  by code_simp

theorem replace_local_replays_witness:
  "\<exists>c n d'. replace_local_reminder ''r1'' ''r2'' ''o2'' ''yo'' ''dm:bob'' 1200 500 due_db = Inr ((c, n), d') \<and>
    reminder_id c = ''r1'' \<and> rem_state c = ''cancelled'' \<and> server_ack_revision c < revision c \<and>
    reminder_id n = ''r2'' \<and> occurrence_id n = ''o2'' \<and> rem_state n = ''scheduled'' \<and>
    rem_content n = ''yo'' \<and> rem_target n = ''dm:bob'' \<and>
    replace_local_reminder ''r1'' ''r2'' ''o2'' ''yo'' ''dm:bob'' 1200 500 d' = Inr ((c, n), d')"
proof -
  from replaced_case [OF replace_sample] obtain c n d' where
    op: "replace_local_reminder ''r1'' ''r2'' ''o2'' ''yo'' ''dm:bob'' 1200 500 due_db = Inr ((c, n), d')"
    by (elim exE) (rule that)
  have old: "due_reminder \<in> set (reminder_occurrences due_db)" "reminder_id due_reminder = ''r1''"
    "rem_state due_reminder = ''scheduled''"
    by (simp_all add: due_db_def due_reminder_def new_reminder_def)
  note a = replace_local_replays [OF reminders_ok_due old op]
  show ?thesis by (rule exI, rule exI, rule exI, rule conjI [OF op a])
qed

subsection \<open>The size of the remote envelope\<close>

lemma ciphertext_chars_ceiling: "reminder_ciphertext_chars n = (4 * (n + 16) + 2) div 3"
proof -
  define q k where "q = (n + 16) div 3" and "k = (n + 16) mod 3"
  have c: "n + 16 = 3 * q + k" and "k < 3" by (simp_all add: q_def k_def)
  then consider "k = 0" | "k = 1" | "k = 2" by linarith
  then show ?thesis
  proof cases
    case 1
    have "(3 * q + k + 2) div 3 = q" "(4 * (3 * q + k) + 2) div 3 = 4 * q"
      by (rule div_nat_eqI; simp add: 1)+
    with 1 show ?thesis by (simp only: reminder_ciphertext_chars_def Let_def c) simp
  next
    case 2
    have "(3 * q + k + 2) div 3 = q + 1" "(4 * (3 * q + k) + 2) div 3 = 4 * q + 2"
      by (rule div_nat_eqI; simp add: 2)+
    with 2 show ?thesis by (simp only: reminder_ciphertext_chars_def Let_def c) simp
  next
    case 3
    have "(3 * q + k + 2) div 3 = q + 1" "(4 * (3 * q + k) + 2) div 3 = 4 * q + 3"
      by (rule div_nat_eqI; simp add: 3)+
    moreover have "(3 * q + k) mod 3 = 2" by (simp add: 3 mod_Suc)
    ultimately show ?thesis by (simp only: reminder_ciphertext_chars_def Let_def c) simp
  qed
qed

lemma length_dump_plain: "length (dump_string (replicate n (CHR ''A''))) = n + 2"
  by (induction n) (simp_all add: dump_string_def escape_char_def)

text \<open>
  The size check before a reminder is created is exact: the envelope takes 88 bytes and the
  unpadded base64 of the encrypted plaintext, four characters for every three bytes, rounded up; so
  a pair passes exactly when its JSON text is at most 24494 bytes long.
\<close>

theorem envelope_size_exact:
  "reminder_plaintext_envelope_size tgt cont
     = 88 + (4 * (length (json_dumps (JObj [(''content'', JStr cont), (''target'', JStr tgt)])) + 16) + 2) div 3
   \<and> (int (reminder_plaintext_envelope_size tgt cont) \<le> MAX_REMINDER_ENVELOPE_BYTES \<longleftrightarrow>
      length (json_dumps (JObj [(''content'', JStr cont), (''target'', JStr tgt)])) \<le> 24494)"
proof -
  let ?n = "length (json_dumps (JObj [(''content'', JStr cont), (''target'', JStr tgt)]))"
  have d: "length (dump_string (replicate k (CHR ''A''))) = k + 2" for k by (rule length_dump_plain)
  have lits: "length (dump_string ''algorithm'') = 11" "length (dump_string ''chacha20-poly1305'') = 19"
    "length (dump_string ''ciphertext'') = 12" "length (dump_string ''nonce'') = 7"
    "length (dump_string ''version'') = 9" "length (int_dec 1) = 1"
    by code_simp+
  have "reminder_plaintext_envelope_size tgt cont = 88 + reminder_ciphertext_chars ?n"
    unfolding reminder_plaintext_envelope_size_def Let_def
    by (simp add: d lits del: replicate.simps)
  then have eq: "reminder_plaintext_envelope_size tgt cont = 88 + (4 * (?n + 16) + 2) div 3"
    by (simp only: ciphertext_chars_ceiling)
  have "88 + (4 * (m + 16) + 2) div 3 \<le> 32768 \<longleftrightarrow> m \<le> 24494" for m :: nat by presburger
  from this [of ?n] have "reminder_plaintext_envelope_size tgt cont \<le> 32768 \<longleftrightarrow> ?n \<le> 24494"
    by (simp only: eq)
  moreover have "int k \<le> MAX_REMINDER_ENVELOPE_BYTES \<longleftrightarrow> k \<le> 32768" for k
    by (auto simp: MAX_REMINDER_ENVELOPE_BYTES_def)
  ultimately show ?thesis using eq by (simp only: simp_thms)
qed

subsection \<open>Rendered times\<close>

text \<open>
  The rendered time is not canonical for the whole range the schema admits: the division by a
  thousand is a double and the microseconds are cut, so two instants one millisecond apart can render
  alike.
\<close>

theorem rfc3339_drops_millisecond:
  "reminder_time_to_rfc3339 17179869184001 = Inr ''2514-05-30T01:53:04.000Z'' \<and>
   reminder_time_to_rfc3339 17179869184000 = Inr ''2514-05-30T01:53:04.000Z''"
proof
  show "reminder_time_to_rfc3339 17179869184001 = Inr ''2514-05-30T01:53:04.000Z''" by code_simp
  show "reminder_time_to_rfc3339 17179869184000 = Inr ''2514-05-30T01:53:04.000Z''" by code_simp
qed

end
