(* ===== verification/Message_Evolution.thy ===== *)
theory Message_Evolution
  imports Reminder_Runs Turn_Facts Inbox_Reads
begin

section \<open>How message rows evolve\<close>

text \<open>
  What a transaction other than retention may do to a message row: never lose it, never change its
  identity, sender or times, never change a server sequence once set, never take a processed row
  back, never revive a terminal verdict, never forget that a row was re-announced.
\<close>

definition message_evolves :: "message_row \<Rightarrow> message_row \<Rightarrow> bool" where
  "message_evolves m m' \<longleftrightarrow>
     envelope_id m' = envelope_id m \<and> envelope_kind m' = envelope_kind m \<and>
     sender_slug m' = sender_slug m \<and> sent_at m' = sent_at m \<and> received_at m' = received_at m \<and>
     (server_seq m \<noteq> None \<longrightarrow> server_seq m' = server_seq m) \<and>
     (processing_state m = Some PROCESSED \<longrightarrow> processing_state m' = Some PROCESSED) \<and>
     (receipt_disposition m = Some TERMINAL \<longrightarrow> receipt_disposition m' = Some TERMINAL) \<and>
     (renotified m \<longrightarrow> renotified m')"

lemma message_evolves_refl [simp]: "message_evolves m m"
  by (simp add: message_evolves_def)

lemma message_evolves_trans:
  "message_evolves m m' \<Longrightarrow> message_evolves m' m'' \<Longrightarrow> message_evolves m m''"
  unfolding message_evolves_def by (elim conjE, intro conjI impI; simp)

definition rows_evolve :: "message_row list \<Rightarrow> message_row list \<Rightarrow> bool" where
  "rows_evolve xs ys \<longleftrightarrow> (\<forall>m\<in>set xs. \<exists>m'\<in>set ys. message_evolves m m')"

lemma rows_evolve_refl [simp]: "rows_evolve xs xs"
  by (auto simp: rows_evolve_def intro: message_evolves_refl)

lemma rows_evolve_trans: "rows_evolve xs ys \<Longrightarrow> rows_evolve ys zs \<Longrightarrow> rows_evolve xs zs"
  unfolding rows_evolve_def by (meson message_evolves_trans)

lemma rows_evolve_append: "rows_evolve xs ys \<Longrightarrow> rows_evolve xs (ys @ zs)"
  by (auto simp: rows_evolve_def)

lemma rows_evolve_map:
  "(\<And>m. m \<in> set xs \<Longrightarrow> message_evolves m (f m)) \<Longrightarrow> rows_evolve xs (map f xs)"
  by (auto simp: rows_evolve_def)

lemma rows_evolve_update:
  "(\<And>m. m \<in> set xs \<Longrightarrow> P m \<Longrightarrow> message_evolves m (f m)) \<Longrightarrow> rows_evolve xs (sql_update P f xs)"
  unfolding sql_update_def by (rule rows_evolve_map) simp

text \<open>A transaction on messages: its rows evolve and it leaves the reminders alone.\<close>

definition message_tx :: "db \<Rightarrow> db \<Rightarrow> bool" where
  "message_tx d d' \<longleftrightarrow>
     rows_evolve (messages d) (messages d') \<and> reminder_occurrences d' = reminder_occurrences d"

lemma message_tx_refl [simp]: "message_tx d d"
  by (simp add: message_tx_def)

lemma message_tx_refresh [simp]: "message_tx d (refresh_notice_state now a d') = message_tx d d'"
  by (simp add: message_tx_def)

lemma message_tx_same:
  "messages d' = messages d \<Longrightarrow> reminder_occurrences d' = reminder_occurrences d \<Longrightarrow> message_tx d d'"
  by (simp add: message_tx_def)

subsection \<open>Receipts\<close>

lemma insert_message_evolves: "insert_message row xs = Inr ys \<Longrightarrow> rows_evolve xs ys"
  by (auto simp: insert_message_def check_seq_index_def split: if_splits intro: rows_evolve_append)

lemma tx_store: "message_tx d (store now p recv d)"
  by (simp add: store_def Let_def message_tx_def rows_evolve_append)

lemma settle_evolves: "rows_evolve xs (settle_unverified_thread_claims v xs)"
proof -
  have "rows_evolve xs (sql_update P f xs)" if "\<And>m. message_evolves m (f m)" for P f xs
    by (rule rows_evolve_update) (rule that)
  then have u: "rows_evolve xs (sql_update P settle_verify xs)"
    "rows_evolve xs (sql_update P (settle_reroot v) xs)"
    "rows_evolve xs (sql_update P settle_wipe xs)" for P xs
    by (simp_all add: settle_verify_def settle_reroot_def settle_wipe_def message_evolves_def)
  have "rows_evolve xs ys \<Longrightarrow> rows_evolve xs (sql_update P settle_wipe ys)" for ys P
    by (erule rows_evolve_trans) (rule u(3))
  with u show ?thesis by (simp add: settle_unverified_thread_claims_def Let_def)
qed

lemma check_seq_index_rows: "check_seq_index xs = Inr ys \<Longrightarrow> ys = xs"
  by (simp add: check_seq_index_def split: if_splits)

lemma tx_backfill:
  assumes "backfill_missing_sequence eid seq disp rsn by_id by_seq d = Inr (r, d')"
  shows "message_tx d d'"
  using assms
  by (auto simp: backfill_missing_sequence_def Let_def message_tx_def message_evolves_def
      advance_server_sequence_high_water_def split: if_splits sum.splits
      dest!: check_seq_index_rows intro!: rows_evolve_update)

lemma tx_store_receipt:
  assumes "store_receipt now p seq disp rsn recv d = Inr (r, d')"
  shows "message_tx d d'"
proof -
  have new: "message_tx d d'" if "insert_new_receipt now vals seq disp rsn d = Inr (r, d')" for vals
  proof -
    from that obtain rows where "insert_message (vals\<lparr>server_seq := Some seq, receipt_disposition := Some disp,
        receipt_reason := Some rsn, processing_state := if disp = ELIGIBLE then Some PENDING else None\<rparr>)
        (messages d) = Inr rows"
      and d': "messages d' = settle_unverified_thread_claims vals rows"
        "reminder_occurrences d' = reminder_occurrences d"
      by (auto simp: insert_new_receipt_def Let_def advance_server_sequence_high_water_def
          split: sum.splits if_splits)
    then have "rows_evolve (messages d) rows" by (blast intro: insert_message_evolves)
    with d' settle_evolves [of rows vals] show ?thesis by (auto simp: message_tx_def intro: rows_evolve_trans)
  qed
  have "message_tx d d'" if "persist_existing_receipt eid seq disp rsn by_id by_seq d = Inr (r, d')" for eid by_id by_seq
    using that by (auto simp: persist_existing_receipt_def Let_def split: option.splits if_splits dest: tx_backfill)
  with new assms show ?thesis
    by (auto simp: store_receipt_def Let_def split: if_splits option.splits)
qed

lemma tx_insert_local_event:
  assumes "insert_local_event now vals rsn d = Inr d'"
  shows "message_tx d d'"
  using insert_local_event_messages [OF assms] insert_local_event_reminders [OF assms]
  by (auto simp: message_tx_def intro!: rows_evolve_append)

lemma tx_store_local_receipt:
  assumes "store_local_receipt now p disp rsn recv d = Inr (r, d')"
  shows "message_tx d d'"
  using assms
  by (auto simp: store_local_receipt_def classify_existing_local_row_def allocate_local_position_def
      Let_def message_tx_def message_evolves_def split: if_splits option.splits sum.splits prod.splits
      intro!: rows_evolve_update dest: insert_message_evolves)

lemma tx_store_local_event:
  assumes "store_local_event now p rsn intro recv idem d = Inr (m, d')"
  shows "message_tx d d'"
proof -
  have rb: "d2 = d'" if "read_back i d2 = Inr (m, d')" for i d2
    using that by (simp add: read_back_def split: option.splits)
  define d1 where "d1 = (if truthy intro then d\<lparr>channel_intro_prompted :=
      channel_intro_prompted d @ [(or_empty intro, now)]\<rparr> else d)"
  have d1: "messages d1 = messages d" "reminder_occurrences d1 = reminder_occurrences d"
    by (simp_all add: d1_def)
  from assms have "d' = d \<or> insert_local_event now (payload_values now p recv) rsn d1 = Inr d'"
    unfolding store_local_event_def Let_def d1_def [symmetric]
    by (auto split: if_splits option.splits sum.splits dest: rb)
  then show ?thesis
    using d1 by (auto dest: tx_insert_local_event simp: message_tx_def)
qed

lemma tx_promote:
  assumes "promote_gated_receipt now eid seq rsn approved d = Inr (r, d')"
  shows "message_tx d d'"
proof -
  have up: "rows_evolve xs (sql_update P f xs)"
    if "\<And>m. P m \<Longrightarrow> receipt_disposition m = Some FOREIGN_DM_GATED \<and> processing_state m = None"
      and "\<And>m. message_evolves (m\<lparr>receipt_disposition := None, processing_state := None\<rparr>) (f m)"
    for P f xs
    using that by (intro rows_evolve_update) (auto simp: message_evolves_def)
  show ?thesis
    using assms
    by (auto simp: promote_gated_receipt_def promote_local_gated_row_def allocate_local_position_def Let_def
        message_tx_def split: if_splits option.splits prod.splits
        intro!: up simp: message_evolves_def)
qed

lemma tx_deny: "(\<And>m. P m \<Longrightarrow> receipt_disposition m = Some FOREIGN_DM_GATED) \<Longrightarrow>
  message_tx d (d\<lparr>messages := sql_update P deny_row (messages d)\<rparr>)"
  by (auto simp: message_tx_def deny_row_def message_evolves_def intro!: rows_evolve_update)

lemma tx_tombstone_from: "message_tx d (snd (tombstone_gated_dms_from sender d))"
  by (auto simp: tombstone_gated_dms_from_def Let_def intro!: tx_deny)

lemma tx_tombstone: "message_tx d (snd (tombstone_gated_dm eid seq d))"
  by (auto simp: tombstone_gated_dm_def intro!: tx_deny split: option.splits)

subsection \<open>Notices and turns\<close>

lemma tx_mark_notice: "message_tx d (snd (mark_notice_delivered gen session ids turn d))"
  by (rule message_tx_same)
     (auto simp: mark_notice_delivered_def mark_notice_delivered_unlocked_def Let_def)

lemma tx_release_notice: "message_tx d (snd (release_notice_delivery session ids d))"
  by (rule message_tx_same) (auto simp: release_notice_delivery_def Let_def)

lemma update_active_frame:
  "update_active_turn t P f msg d = Inr d' \<Longrightarrow> messages d' = messages d \<and> reminder_occurrences d' = reminder_occurrences d"
  by (auto simp: update_active_turn_def Let_def split: if_splits)

lemma turn_result_db: "turn_result t d = Inr (run, d') \<Longrightarrow> d' = d"
  by (auto simp: turn_result_def split: option.splits)

lemma insert_turn_run_frame:
  "insert_turn_run r d = Inr d' \<Longrightarrow> messages d' = messages d \<and> reminder_occurrences d' = reminder_occurrences d"
  by (auto simp: insert_turn_run_def split: if_splits)

lemma mark_unlocked_rows:
  "mark_notice_delivered_unlocked gen session ids turn d = (b, d')
   \<Longrightarrow> messages d' = messages d \<and> reminder_occurrences d' = reminder_occurrences d"
  by (auto simp: mark_notice_delivered_unlocked_def Let_def split: if_splits)

lemma tx_start_turn:
  assumes "start_turn now t session started gen ids d = Inr (run, d')"
  shows "message_tx d d'"
  using assms
  by (intro message_tx_same)
     (auto simp: start_turn_def Let_def res_bind_Inr split: if_splits option.splits prod.splits
       dest!: turn_result_db insert_turn_run_frame mark_unlocked_rows)

lemma tx_finalize_empty:
  assumes "finalize_empty_turn now t st d = Inr (run, d')"
  shows "message_tx d d'"
  using assms
  by (intro message_tx_same)
     (auto simp: finalize_empty_turn_def Let_def res_bind_Inr split: if_splits option.splits
       dest!: turn_result_db update_active_frame)

lemma tx_transfer:
  assumes "transfer_turn_session t a b d = Inr (run, d')"
  shows "message_tx d d'"
  using assms
  by (intro message_tx_same)
     (auto simp: transfer_turn_session_def Let_def res_bind_Inr split: if_splits option.splits
       dest!: turn_result_db update_active_frame)

lemma tx_admit:
  assumes "admit_messages now ids t session visible d = Inr (run, d')"
  shows "message_tx d d'"
  using assms
proof (cases rule: admit_cases)
  case (1 n d1)
  from 1(6) have "messages d1 = messages d \<and> reminder_occurrences d1 = reminder_occurrences d"
    by (auto simp: admit_turn_def Let_def res_bind_Inr split: if_splits option.splits
        dest!: insert_turn_run_frame)
  with 1(8) show ?thesis
    by (auto simp: message_tx_def admitted_db_def admit_row_def pending_in_def is_pending_def
        message_evolves_def intro!: rows_evolve_update)
qed

lemma tx_complete:
  assumes "complete_turn now processed renotice t at session d = Inr (run, d')"
  shows "message_tx d d'"
proof -
  have "message_evolves m (complete_row c processed renotice t m)" for c m
    by (simp add: complete_row_def process_row_def renotice_row_def in_turn_among_def in_turn_of_def
        message_evolves_def)
  then show ?thesis
    using complete_turn_cases(6) [OF assms] by (simp add: message_tx_def completed_db_def rows_evolve_map)
qed

lemma tx_mark_processed: "mark_processed now ids t at session d = Inr (run, d') \<Longrightarrow> message_tx d d'"
  by (auto simp: mark_processed_def res_bind_Inr intro: tx_complete)

lemma tx_complete_with_renotice:
  "complete_turn_with_renotice now P R t session d = Inr (run, d') \<Longrightarrow> message_tx d d'"
  by (auto simp: complete_turn_with_renotice_def res_bind_Inr split: if_splits intro: tx_complete)

lemma tx_complete_unrenotified:
  "complete_turn_renotice_unrenotified now t session d = Inr (ids, d') \<Longrightarrow> message_tx d d'"
  by (auto simp: complete_turn_renotice_unrenotified_def res_bind_Inr Let_def split: if_splits
      intro: tx_complete)

lemma tx_requeue:
  assumes "requeue_messages now ids t d = Inr (run, d')"
  shows "message_tx d d'"
proof -
  have "message_evolves m (requeued_row now C ids t m)" for C m
    by (simp add: requeued_row_def settle_row_def requeue_row_def in_turn_among_def in_turn_of_def
        message_evolves_def)
  then show ?thesis
    using requeue_cases(5) [OF assms] by (simp add: message_tx_def requeued_db_def rows_evolve_map)
qed

lemma tx_covers:
  assumes "add_message_covers now ids src by_id cnote t d = Inr (r, d')"
  shows "message_tx d d'"
  using assms
  by (auto simp: add_message_covers_def Let_def message_tx_def cover_row_settled_def message_evolves_def
      split: if_splits intro!: rows_evolve_update)

lemma tx_quarantine: "message_tx d (snd (quarantine_pending now eid rsn d))"
  by (auto simp: quarantine_pending_def Let_def message_tx_def quarantine_row_def is_pending_def
      message_evolves_def intro!: rows_evolve_update)

lemma tx_baseline: "set_context_baseline now space channel seq updated d = Inr d' \<Longrightarrow> message_tx d d'"
  by (auto simp: set_context_baseline_def Let_def message_tx_def split: if_splits)

subsection \<open>Deliveries\<close>

lemma deliver_rows:
  assumes "reminders_ok d" "deliver_claimed_reminder c rid now d = Inr (x, d')"
  shows "rows_evolve (messages d) (messages d')"
proof -
  obtain t1 t2 t3 where c: "c = (t1, t2, t3)" by (cases c)
  from assms(1) assms(2) [unfolded c] show ?thesis
  proof (cases rule: deliver_cases)
    case (sent r d1)
    from ensure_event_messages [OF sent(4)] sent(6) show ?thesis by (auto intro!: rows_evolve_append)
  qed simp
qed

end
