(* ===== verification/Store_Machine.thy ===== *)
theory Store_Machine
  imports Message_Evolution History_Reads
begin

section \<open>The store as a machine\<close>

text \<open>
  Every method of \<open>MessageStore\<close> that writes to these tables, as one value of \<open>store_op\<close> with its
  arguments and the clock readings it makes; \<open>exec\<close> is the database after the call, which is the one before it
  when the call raises. Calls are serialised by \<open>_inbox_lock\<close>, so a history of the store is a list
  of operations. Retention is apart, because it is the only one that deletes messages.
\<close>

datatype receipt_op =
    Store int payload "int option"
  | StoreReceipt int payload int receipt_disposition string "int option"
  | StoreLocalReceipt int payload receipt_disposition string "int option"
  | StoreLocalEvent int payload string "string option" "int option" bool
  | PromoteGated int string "int option" string "payload option"
  | TombstoneGated string "int option"
  | TombstoneFrom string

datatype turn_op =
    MarkNotice int "string option" "string list option" "string option"
  | ReleaseNotice "string option" "string list option"
  | StartTurn int string "string option" "int option" "int option" "string list"
  | FinalizeEmptyTurn int string string
  | TransferTurn string "string option" string
  | Admit int "string list" string "string option" "int option"
  | MarkProcessed int "string list" string "int option" "string option"
  | CompleteWithRenotice int "string list" "string list" string "string option"
  | CompleteUnrenotified int string "string option"
  | Requeue int "string list" string
  | AddCovers int "string list" string "string option" "string option" "string option"
  | Quarantine int string string
  | SetBaseline int string string int "int option"

datatype reminder_op =
    CreateReminder int string string string string int "string option" "string option" "int option"
  | PersistEnvelope string string string
  | AckSync string int
  | RetrySync string int int
  | FailSync string int string
  | RemoteScheduled remote_reminder
  | RemoteTerminal string string int string int int string
  | PersistClaim string int string
  | AcquireClaim string int string int
  | ClaimAuthorized int int "string list" int
  | ClaimDue int
  | DeliverDue "nat \<Rightarrow> int \<times> int \<times> int" int
  | DeliverAuthorized "nat \<Rightarrow> int \<times> int \<times> int" int "string list" int
  | ReplaceLocal string string string string string int int
  | RemoteReplacement string string int remote_reminder int string
  | CancelReminder string int

datatype table_op =
    MarkSpace int string string
  | UnmarkSpace string
  | UnmarkSpaceFor string
  | SetDmNotice string int
  | MarkIntro int string

datatype store_op = Receipts receipt_op | Turns turn_op | Reminders reminder_op | Tables table_op

definition committed :: "('a \<times> db) res \<Rightarrow> db \<Rightarrow> db" where
  "committed r d = (case r of Inl _ \<Rightarrow> d | Inr (_, d') \<Rightarrow> d')"

fun exec_receipt :: "receipt_op \<Rightarrow> db \<Rightarrow> db" where
  "exec_receipt (Store now p recv) d = store now p recv d"
| "exec_receipt (StoreReceipt now p seq disp rsn recv) d = committed (store_receipt now p seq disp rsn recv d) d"
| "exec_receipt (StoreLocalReceipt now p disp rsn recv) d = committed (store_local_receipt now p disp rsn recv d) d"
| "exec_receipt (StoreLocalEvent now p rsn intro recv idem) d = committed (store_local_event now p rsn intro recv idem d) d"
| "exec_receipt (PromoteGated now eid seq rsn approved) d = committed (promote_gated_receipt now eid seq rsn approved d) d"
| "exec_receipt (TombstoneGated eid seq) d = snd (tombstone_gated_dm eid seq d)"
| "exec_receipt (TombstoneFrom sender) d = snd (tombstone_gated_dms_from sender d)"

fun exec_turn :: "turn_op \<Rightarrow> db \<Rightarrow> db" where
  "exec_turn (MarkNotice gen session ids turn) d = snd (mark_notice_delivered gen session ids turn d)"
| "exec_turn (ReleaseNotice session ids) d = snd (release_notice_delivery session ids d)"
| "exec_turn (StartTurn now t session started gen ids) d = committed (start_turn now t session started gen ids d) d"
| "exec_turn (FinalizeEmptyTurn now t st) d = committed (finalize_empty_turn now t st d) d"
| "exec_turn (TransferTurn t a b) d = committed (transfer_turn_session t a b d) d"
| "exec_turn (Admit now ids t session visible) d = committed (admit_messages now ids t session visible d) d"
| "exec_turn (MarkProcessed now ids t at session) d = committed (mark_processed now ids t at session d) d"
| "exec_turn (CompleteWithRenotice now ps rs t session) d = committed (complete_turn_with_renotice now ps rs t session d) d"
| "exec_turn (CompleteUnrenotified now t session) d = committed (complete_turn_renotice_unrenotified now t session d) d"
| "exec_turn (Requeue now ids t) d = committed (requeue_messages now ids t d) d"
| "exec_turn (AddCovers now ids src by_id cnote t) d = committed (add_message_covers now ids src by_id cnote t d) d"
| "exec_turn (Quarantine now eid rsn) d = snd (quarantine_pending now eid rsn d)"
| "exec_turn (SetBaseline now space channel seq upd) d =
     (case set_context_baseline now space channel seq upd d of Inl _ \<Rightarrow> d | Inr d' \<Rightarrow> d')"

fun exec_reminder :: "reminder_op \<Rightarrow> db \<Rightarrow> db" where
  "exec_reminder (CreateReminder now fr fo cont tgt intended rid oid created) d =
     committed (create_reminder now fr fo cont tgt intended rid oid created d) d"
| "exec_reminder (PersistEnvelope oid fmt opaque) d = committed (persist_reminder_envelope oid fmt opaque d) d"
| "exec_reminder (AckSync oid rv) d = committed (acknowledge_reminder_sync_revision oid rv d) d"
| "exec_reminder (RetrySync oid rv t) d = committed (schedule_reminder_sync_retry oid rv t d) d"
| "exec_reminder (FailSync oid rv code) d = committed (record_reminder_sync_permanent_failure oid rv code d) d"
| "exec_reminder (RemoteScheduled s) d = committed (materialize_remote_scheduled_reminder s d) d"
| "exec_reminder (RemoteTerminal rid oid intended lifecycle t rv fmt) d =
     committed (materialize_remote_terminal_reminder rid oid intended lifecycle t rv fmt d) d"
| "exec_reminder (PersistClaim oid rv claim) d = committed (persist_reminder_delivery_claim_id oid rv claim d) d"
| "exec_reminder (AcquireClaim oid rv claim e) d = committed (acquire_reminder_delivery_claim oid rv claim e d) d"
| "exec_reminder (ClaimAuthorized t1 t2 oids now) d = committed (claim_authorized_reminders t1 t2 oids now d) d"
| "exec_reminder (ClaimDue now) d = committed (claim_due_reminders now d) d"
| "exec_reminder (DeliverDue clk now) d = snd (deliver_due_reminders clk now d)"
| "exec_reminder (DeliverAuthorized clk t oids now) d = snd (deliver_authorized_reminders clk t oids now d)"
| "exec_reminder (ReplaceLocal rid nrid noid cont tgt intended t) d =
     committed (replace_local_reminder rid nrid noid cont tgt intended t d) d"
| "exec_reminder (RemoteReplacement rid oid t s created lifecycle) d =
     committed (materialize_remote_replacement rid oid t s created lifecycle d) d"
| "exec_reminder (CancelReminder rid t) d = committed (cancel_reminder rid t d) d"

fun exec_table :: "table_op \<Rightarrow> db \<Rightarrow> db" where
  "exec_table (MarkSpace now ch space) d = mark_channel_space now ch space d"
| "exec_table (UnmarkSpace ch) d = unmark_channel_space ch d"
| "exec_table (UnmarkSpaceFor space) d = unmark_channel_space_for_space space d"
| "exec_table (SetDmNotice sender at_ms) d = set_dm_notice sender at_ms d"
| "exec_table (MarkIntro now ch) d = mark_channel_intro_prompted now ch d"

fun exec :: "store_op \<Rightarrow> db \<Rightarrow> db" where
  "exec (Receipts op) d = exec_receipt op d"
| "exec (Turns op) d = exec_turn op d"
| "exec (Reminders op) d = exec_reminder op d"
| "exec (Tables op) d = exec_table op d"

definition full_inv :: "db \<Rightarrow> bool" where
  "full_inv d \<longleftrightarrow> store_inv d \<and> reminders_ok d"

definition store_evolves :: "db \<Rightarrow> db \<Rightarrow> bool" where
  "store_evolves d d' \<longleftrightarrow> rows_evolve (messages d) (messages d') \<and> reminders_evolve d d'"

definition full_tx :: "db \<Rightarrow> db \<Rightarrow> bool" where
  "full_tx d d' \<longleftrightarrow> full_inv d' \<and> store_evolves d d'"

lemma full_message:
  "full_inv d \<Longrightarrow> message_tx d d' \<Longrightarrow> store_inv d' \<Longrightarrow> full_tx d d'"
  by (simp add: full_tx_def full_inv_def message_tx_def store_evolves_def reminders_ok_def reminders_evolve_def)
     (blast intro: reminder_evolves_refl)

lemma full_quiet:
  assumes "full_inv d" "quiet_tx d d'"
  shows "full_tx d d'"
proof -
  have "reminder_tx d d'" using assms(2) unfolding quiet_tx_def by (rule conjunct1)
  with assms(1) quiet_tx_store_inv [OF assms(2)] quiet_tx_messages [OF assms(2)] show ?thesis
    by (simp add: full_tx_def full_inv_def store_evolves_def reminder_tx_def)
qed

lemma full_committed:
  assumes "full_inv d" "\<And>x d'. r = Inr (x, d') \<Longrightarrow> full_tx d d'"
  shows "full_tx d (committed r d)"
proof (cases r)
  case (Inl e)
  with assms(1) show ?thesis by (simp add: committed_def full_tx_def store_evolves_def)
next
  case (Inr y)
  with assms(2) show ?thesis by (cases y) (simp add: committed_def)
qed

lemma full_tx_trans: "full_tx d d' \<Longrightarrow> full_tx d' d'' \<Longrightarrow> full_tx d d''"
  by (auto simp: full_tx_def store_evolves_def intro: rows_evolve_trans reminders_evolve_trans)

lemma full_deliver_each:
  assumes "full_inv d"
  shows "full_tx d (snd (deliver_each clk i rids now rs d))"
proof -
  have "full_inv d' \<and> full_tx d d'" if "full_inv d" "deliver_claimed_reminder c rid now d = Inr (x, d')" for d c rid x d'
    using that deliver_rows [of d c rid now x d'] deliver_tx [of d c rid now x d'] deliver_store_inv [of d c rid now x d']
    by (simp add: full_inv_def full_tx_def store_evolves_def reminder_tx_def)
  from deliver_each_rel [of full_inv now full_tx, OF this _ full_tx_trans assms] show ?thesis
    by (simp add: full_tx_def store_evolves_def)
qed

lemma full_deliver_due:
  assumes "full_inv d"
  shows "full_tx d (snd (deliver_due_reminders clk now d))"
proof (cases "claim_due_reminders now d")
  case (Inl e)
  with assms show ?thesis by (simp add: deliver_due_reminders_def full_tx_def store_evolves_def)
next
  case (Inr y)
  obtain rs d1 where y: "y = (rs, d1)" by (cases y)
  have "reminders_ok d" using assms by (simp add: full_inv_def)
  with Inr y have tx: "full_tx d d1" by (intro full_quiet [OF assms] claim_due_quiet) simp_all
  then have "full_inv d1" by (simp add: full_tx_def)
  from full_tx_trans [OF tx full_deliver_each [OF this]] Inr y show ?thesis
    by (simp add: deliver_due_reminders_def)
qed

lemma full_deliver_authorized:
  "full_inv d \<Longrightarrow> full_tx d (snd (deliver_authorized_reminders clk t oids now d))"
  by (simp add: deliver_authorized_reminders_def full_deliver_each)
     (simp add: full_tx_def store_evolves_def)

lemma full_inv_parts: "full_inv d \<Longrightarrow> store_inv d" "full_inv d \<Longrightarrow> reminders_ok d"
  by (simp_all add: full_inv_def)

lemmas message_steps =
  tx_store store_inv_store tx_store_receipt store_inv_store_receipt tx_store_local_receipt
  store_inv_store_local_receipt tx_store_local_event store_inv_store_local_event tx_promote
  store_inv_promote tx_tombstone store_inv_tombstone tx_tombstone_from store_inv_tombstone_from
  tx_mark_notice store_inv_mark tx_release_notice store_inv_release tx_start_turn
  store_inv_start_turn tx_finalize_empty store_inv_finalize_empty tx_transfer store_inv_transfer
  tx_admit store_inv_admit tx_mark_processed store_inv_mark_processed tx_complete_with_renotice
  store_inv_complete_with_renotice tx_complete_unrenotified store_inv_complete_unrenotified
  tx_requeue store_inv_requeue tx_covers store_inv_covers tx_quarantine store_inv_quarantine

lemmas reminder_steps =
  create_quiet envelope_quiet acknowledge_quiet retry_quiet permanent_quiet
  materialize_scheduled_quiet materialize_terminal_quiet persist_claim_quiet acquire_quiet
  claim_authorized_quiet claim_due_quiet replace_local_quiet materialize_replacement_quiet
  cancel_quiet

text \<open>The invariant does not read the tables beside the messages, turns and notices.\<close>

lemma store_inv_side_tables [simp]:
  "store_inv (d\<lparr>channel_context_state := x\<rparr>) = store_inv d"
  "store_inv (d\<lparr>channel_space_map := y\<rparr>) = store_inv d"
  "store_inv (d\<lparr>dm_notices := z\<rparr>) = store_inv d"
  "store_inv (d\<lparr>channel_intro_prompted := w\<rparr>) = store_inv d"
  by (simp_all add: store_inv_def inv_messages_def inv_turns_def inv_notice_def contributions_ok_def
      told_all_def pending_ids_def turn_active_def turn_message_ids_def)

lemma side_tables_full:
  assumes "full_inv d"
  shows "full_tx d (mark_channel_space now ch space d)" "full_tx d (unmark_channel_space ch d)"
    "full_tx d (unmark_channel_space_for_space space d)" "full_tx d (set_dm_notice sender at_ms d)"
    "full_tx d (mark_channel_intro_prompted now ch d)"
  using assms
  by (simp_all add: full_tx_def full_inv_def store_evolves_def reminders_ok_def reminders_evolve_def
      mark_channel_space_def unmark_channel_space_def unmark_channel_space_for_space_def
      set_dm_notice_def mark_channel_intro_prompted_def)
     (blast intro: reminder_evolves_refl)+

lemma full_baseline:
  assumes "full_inv d"
  shows "full_tx d (exec_turn (SetBaseline now space channel seq upd) d)"
proof (cases "set_context_baseline now space channel seq upd d")
  case (Inl e)
  with assms show ?thesis by (simp add: full_tx_def store_evolves_def)
next
  case (Inr d')
  then have "store_inv d' = store_inv d"
    by (auto simp: set_context_baseline_def Let_def simp del: if_split split: if_splits)
  with full_message [OF assms tx_baseline [OF Inr]] assms Inr show ?thesis by (simp add: full_inv_def)
qed

lemma exec_receipt_tx: "full_inv d \<Longrightarrow> full_tx d (exec_receipt op d)"
  by (cases op) (auto intro!: full_committed intro: full_message message_steps full_inv_parts)

lemma exec_turn_tx:
  assumes "full_inv d"
  shows "full_tx d (exec_turn op d)"
proof (cases op)
  case (SetBaseline now space channel seq upd)
  then show ?thesis using full_baseline [OF assms] by simp
qed (use assms in \<open>auto intro!: full_committed intro: full_message message_steps full_inv_parts\<close>)

lemma exec_reminder_tx:
  assumes "full_inv d"
  shows "full_tx d (exec_reminder op d)"
proof (cases op)
  case (DeliverDue clk now)
  with assms show ?thesis by (simp add: full_deliver_due)
next
  case (DeliverAuthorized clk t oids now)
  with assms show ?thesis by (simp add: full_deliver_authorized)
qed (use assms in \<open>auto intro!: full_committed intro: full_quiet reminder_steps full_inv_parts\<close>)

lemma exec_tx: "full_inv d \<Longrightarrow> full_tx d (exec op d)"
proof (cases op)
  case (Tables t)
  then show "full_inv d \<Longrightarrow> full_tx d (exec op d)" by (cases t) (simp_all add: side_tables_full)
qed (simp_all add: exec_receipt_tx exec_turn_tx exec_reminder_tx)

interpretation store: evolving_store exec full_inv store_evolves
proof
  show "full_inv (exec op d)" "store_evolves d (exec op d)" if "full_inv d" for d op
    using exec_tx [OF that] by (simp_all add: full_tx_def)
  show "store_evolves d d" for d by (simp add: store_evolves_def)
  show "store_evolves d d''" if "store_evolves d d'" "store_evolves d' d''" for d d' d''
    using that by (auto simp: store_evolves_def intro: rows_evolve_trans reminders_evolve_trans)
qed

text \<open>With retention: it deletes messages, so only the reminders evolve.\<close>

datatype service_op = Op store_op | Cleanup int int

fun serve :: "service_op \<Rightarrow> db \<Rightarrow> db" where
  "serve (Op op) d = exec op d"
| "serve (Cleanup now days) d = snd (cleanup now days d)"

interpretation service: evolving_store serve full_inv reminders_evolve
proof
  fix d op assume inv: "full_inv d"
  have c: "reminder_occurrences (snd (cleanup now days d)) = reminder_occurrences d" for now days
    by (simp add: cleanup_def Let_def)
  show "full_inv (serve op d)"
    using inv store.step_inv [OF inv] store_inv_cleanup [OF full_inv_parts(1) [OF inv]] c
    by (cases op) (simp_all add: full_inv_def reminders_ok_def)
  show "reminders_evolve d (serve op d)"
    using store.step_evolves [OF inv] c
    by (cases op) (auto simp: store_evolves_def reminders_evolve_def intro: reminder_evolves_refl)
next
  show "reminders_evolve d d" for d by simp
  show "reminders_evolve d d''" if "reminders_evolve d d'" "reminders_evolve d' d''" for d d' d''
    using that by (rule reminders_evolve_trans)
qed

lemma full_inv_empty: "full_inv empty_db"
  using store_inv_empty by (simp add: full_inv_def reminders_ok_def empty_db_def)

subsection \<open>Histories\<close>

text \<open>The states a service reaches from a fresh database, one locked call after the other.\<close>

inductive reachable :: "db \<Rightarrow> bool" where
  init: "reachable empty_db"
| step: "reachable d \<Longrightarrow> reachable (serve op d)"

inductive_cases reachableE: "reachable d"

end
