(* ===== verification/Report_Outbox.thy ===== *)
theory Report_Outbox
  imports Store_Prelude
begin

section \<open>The outbox of processing reports\<close>

text \<open>
  \<open>agent/processing_receipts.py\<close>: results of processed messages are queued in the table
  \<open>processing_report_outbox\<close> of the agent's database and uploaded in batches. The table is the
  state of this theory; no operation of the message store touches it. \<open>ProcessingReportStoreMixin\<close>
  comes first, then the decisions of \<open>ProcessingReportDispatcher\<close>. The answer of the HTTP client is
  a value of \<open>http_answer\<close>; request pacing and the wake queue are timers and not modelled.
\<close>

record report =
  pr_run_id :: string
  pr_message_id :: string
  pr_succeeded :: bool
  pr_error_text :: "string option"
  pr_created_at_ms :: int
  pr_retry_count :: int
  pr_next_attempt_at_ms :: int
  pr_isolated :: bool

record report_value =
  rv_run_id :: string
  rv_message_id :: string
  rv_succeeded :: bool
  rv_error_text :: "string option"

definition PROCESSING_REPORT_BATCH_SIZE :: nat where "PROCESSING_REPORT_BATCH_SIZE = 50"

definition PROCESSING_REPORT_RETENTION_MS :: int where
  "PROCESSING_REPORT_RETENTION_MS = 7 * 24 * 60 * 60 * 1000"

definition PROCESSING_REPORT_PARKED_RETRY_MS :: int where
  "PROCESSING_REPORT_PARKED_RETRY_MS = 60 * 60 * 1000"

definition PROCESSING_REPORT_REQUEST_INTERVAL_MS :: int where
  "PROCESSING_REPORT_REQUEST_INTERVAL_MS = 1000"

text \<open>\<open>PROCESSING_REPORT_RETRY_DELAYS_MS\<close> and the CASE of \<open>retry_processing_reports\<close>.\<close>

definition retry_delay_ms :: "int \<Rightarrow> int" where
  "retry_delay_ms n =
     (if n = 0 then 60000 else if n = 1 then 300000 else if n = 2 then 600000
      else PROCESSING_REPORT_PARKED_RETRY_MS)"

text \<open>\<open>processing_run_id\<close>; the hash is a parameter.\<close>

definition processing_run_id :: "(string \<Rightarrow> string) \<Rightarrow> string \<Rightarrow> string \<Rightarrow> string" where
  "processing_run_id sha256_hex turn_id message_id =
     ''run_'' @ take 32 (sha256_hex (turn_id @ CHR 0x00 # message_id))"

type_synonym report_result = "string \<times> string \<times> bool \<times> string option"

text \<open>What a report says, which is also what \<open>wire_value\<close> sends; and \<open>stored_version\<close>.\<close>

definition result_of :: "report \<Rightarrow> report_result" where
  "result_of r = (pr_run_id r, pr_message_id r, pr_succeeded r, pr_error_text r)"

definition stored_version :: "report \<Rightarrow> report_result \<times> int" where
  "stored_version r = (result_of r, pr_created_at_ms r)"

subsection \<open>Normalisation\<close>

text \<open>\<open>len\<close> and slicing count code points: the bytes of a string that do not continue one.\<close>

definition continues :: "char \<Rightarrow> bool" where
  "continues c \<longleftrightarrow> (let n = of_char c :: nat in 128 \<le> n \<and> n < 192)"

definition char_count :: "string \<Rightarrow> nat" where
  "char_count s = length (filter (\<lambda>c. \<not> continues c) s)"

fun take_chars :: "nat \<Rightarrow> string \<Rightarrow> string" where
  "take_chars n [] = []"
| "take_chars n (c # cs) =
     (if continues c then c # take_chars n cs
      else case n of 0 \<Rightarrow> [] | Suc k \<Rightarrow> c # take_chars k cs)"

text \<open>\<open>_normalize_report\<close>; the argument types rule out the other values.\<close>

definition normalize_report :: "report_value \<Rightarrow> report_result res" where
  "normalize_report v =
     (if \<not> (1 \<le> char_count (rv_run_id v) \<and> char_count (rv_run_id v) \<le> 1024)
      then Inl (ValueError ''processing run_id must be 1-1024 characters'')
      else if rv_message_id v = [] then Inl (ValueError ''processing report ids must be non-empty'')
      else Inr (rv_run_id v, rv_message_id v, rv_succeeded v, map_option (take_chars 1024) (rv_error_text v)))"

fun normalize_reports :: "report_value list \<Rightarrow> report_result list res" where
  "normalize_reports [] = Inr []"
| "normalize_reports (v # vs) =
     res_bind (normalize_report v) (\<lambda>x. res_bind (normalize_reports vs) (\<lambda>xs. Inr (x # xs)))"

text \<open>The dictionary \<open>expected\<close> from run to identity, in the order of its keys.\<close>

fun expected_results ::
  "report_result list \<Rightarrow> (string \<times> string \<times> bool \<times> string option) list
   \<Rightarrow> (string \<times> string \<times> bool \<times> string option) list res" where
  "expected_results [] expected = Inr expected"
| "expected_results ((run, identity) # rest) expected =
     (case map_of expected run of
        None \<Rightarrow> expected_results rest (expected @ [(run, identity)])
      | Some i \<Rightarrow> if i \<noteq> identity
                  then Inl (ValueError (''processing run '' @ run @ '' has conflicting results''))
                  else expected_results rest expected)"

subsection \<open>The table\<close>

text \<open>One INSERT ... ON CONFLICT(run_id) DO UPDATE ... WHERE of \<open>enqueue_processing_reports\<close>.\<close>

definition new_report :: "int \<Rightarrow> report_result \<Rightarrow> report" where
  "new_report now v =
     (case v of (run, msg, ok, err) \<Rightarrow>
        \<lparr>pr_run_id = run, pr_message_id = msg, pr_succeeded = ok, pr_error_text = err,
         pr_created_at_ms = now, pr_retry_count = 0, pr_next_attempt_at_ms = now, pr_isolated = False\<rparr>)"

definition upsert_report :: "int \<Rightarrow> report_result \<Rightarrow> report list \<Rightarrow> report list" where
  "upsert_report now v tbl =
     (case v of (run, msg, ok, err) \<Rightarrow>
        if run \<notin> pr_run_id ` set tbl then tbl @ [new_report now v]
        else sql_update
               (\<lambda>r. pr_run_id r = run \<and> pr_message_id r = msg \<and> (pr_succeeded r \<noteq> ok \<or> pr_error_text r \<noteq> err))
               (\<lambda>r. r\<lparr>pr_succeeded := ok, pr_error_text := err, pr_created_at_ms := now,
                      pr_retry_count := 0, pr_next_attempt_at_ms := now, pr_isolated := False\<rparr>) tbl)"

text \<open>The closing SELECT: every expected run must hold its expected identity.\<close>

definition actual_matches :: "(string \<times> string \<times> bool \<times> string option) list \<Rightarrow> report list \<Rightarrow> bool" where
  "actual_matches expected tbl \<longleftrightarrow>
     list_all (\<lambda>e. map_of (map result_of tbl) (fst e) = Some (snd e)) expected"

definition enqueue_processing_reports :: "int \<Rightarrow> report_value list \<Rightarrow> report list \<Rightarrow> report list res" where
  "enqueue_processing_reports now values tbl =
     res_bind (normalize_reports values) (\<lambda>normalized.
       if normalized = [] then Inr tbl
       else res_bind (expected_results normalized []) (\<lambda>expected.
         let tbl' = fold (upsert_report now) normalized tbl
         in if \<not> actual_matches expected tbl'
            then Inl (ValueError ''processing run is bound to another result'')
            else Inr tbl'))"

definition cleanup_processing_reports :: "int \<Rightarrow> report list \<Rightarrow> report list" where
  "cleanup_processing_reports now tbl =
     sql_delete (\<lambda>r. pr_created_at_ms r < now - PROCESSING_REPORT_RETENTION_MS) tbl"

definition report_due :: "bool \<Rightarrow> int \<Rightarrow> report \<Rightarrow> bool" where
  "report_due force_all now r \<longleftrightarrow> force_all \<or> pr_next_attempt_at_ms r \<le> now"

definition by_created :: "report list \<Rightarrow> report list" where
  "by_created rows = sort_key (\<lambda>r. (pr_created_at_ms r, pr_run_id r)) rows"

text \<open>\<open>due_processing_reports\<close>: after retention, one isolated report, or else a batch of the others.\<close>

definition due_processing_reports :: "int \<Rightarrow> bool \<Rightarrow> report list \<Rightarrow> report list \<times> report list" where
  "due_processing_reports now force_all tbl =
     (let kept = cleanup_processing_reports now tbl;
          alone = take 1 (by_created (filter (\<lambda>r. pr_isolated r \<and> report_due force_all now r) kept))
      in (if alone \<noteq> [] then alone
          else take PROCESSING_REPORT_BATCH_SIZE
                 (by_created (filter (\<lambda>r. \<not> pr_isolated r \<and> report_due force_all now r) kept)),
          kept))"

definition next_processing_report_at :: "report list \<Rightarrow> int option" where
  "next_processing_report_at tbl =
     (case map pr_next_attempt_at_ms tbl of [] \<Rightarrow> None | t # ts \<Rightarrow> Some (fold min ts t))"

definition has_processing_reports :: "string list \<Rightarrow> report list \<Rightarrow> bool" where
  "has_processing_reports run_ids tbl \<longleftrightarrow>
     run_ids \<noteq> [] \<and> sql_exists (\<lambda>r. pr_run_id r \<in> set run_ids) tbl"

text \<open>The three statements over the exact versions that were selected, one execution per report.\<close>

definition acknowledge_processing_reports :: "report list \<Rightarrow> report list \<Rightarrow> nat \<times> report list" where
  "acknowledge_processing_reports reports tbl =
     (let tbl' = fold (\<lambda>x. sql_delete (\<lambda>r. stored_version r = stored_version x)) reports tbl
      in (length tbl - length tbl', tbl'))"

definition retry_report :: "int \<Rightarrow> report \<Rightarrow> report" where
  "retry_report now r =
     r\<lparr>pr_next_attempt_at_ms := now + retry_delay_ms (pr_retry_count r),
       pr_retry_count := pr_retry_count r + 1\<rparr>"

definition retry_processing_reports :: "report list \<Rightarrow> int \<Rightarrow> report list \<Rightarrow> report list" where
  "retry_processing_reports reports now tbl =
     fold (\<lambda>x. sql_update (\<lambda>r. stored_version r = stored_version x) (retry_report now)) reports tbl"

definition isolate_report :: "int \<Rightarrow> report \<Rightarrow> report" where
  "isolate_report now r = r\<lparr>pr_isolated := True, pr_next_attempt_at_ms := now\<rparr>"

definition isolate_processing_reports :: "report list \<Rightarrow> int \<Rightarrow> report list \<Rightarrow> report list" where
  "isolate_processing_reports reports now tbl =
     fold (\<lambda>x. sql_update (\<lambda>r. stored_version r = stored_version x) (isolate_report now)) reports tbl"

subsection \<open>The dispatcher\<close>

datatype report_state = Idle | Queued | Uploaded | Isolating | Discarded | Retry

record ProcessingReportResult =
  res_state :: report_state
  res_count :: nat
  res_requested_pending :: bool

definition report_outcome :: "report_state \<Rightarrow> nat \<Rightarrow> ProcessingReportResult" where
  "report_outcome st n = \<lparr>res_state = st, res_count = n, res_requested_pending = False\<rparr>"

text \<open>
  What the HTTP client gives back: a response, an \<open>HttpError\<close> with its status, or another exception.
  A response is \<open>None\<close> when it is no object with a list under \<open>runs\<close>; otherwise each row of that list
  is \<open>None\<close> when it is no object, and else the text of its \<open>run_id\<close>.
\<close>

datatype http_answer = Response "string option list option" | HttpError int | TransportError

datatype ack_check = AckExact | AckMalformed | AckRowNotObject

text \<open>\<open>_validate_acknowledgement\<close>: reading \<open>run_id\<close> off a row that is no object raises
  \<open>AttributeError\<close>, which is not the \<open>ValueError\<close> that the caller handles.\<close>

definition validate_acknowledgement :: "string option list option \<Rightarrow> string list \<Rightarrow> ack_check" where
  "validate_acknowledgement response expected =
     (case response of
        None \<Rightarrow> AckMalformed
      | Some rows \<Rightarrow>
          if None \<in> set rows then AckRowNotObject
          else let acknowledged = List.map_filter id rows
               in if length acknowledged \<noteq> length expected \<or> set acknowledged \<noteq> set expected
                  then AckMalformed else AckExact)"

definition retryable_status :: "int \<Rightarrow> bool" where
  "retryable_status status \<longleftrightarrow> status \<in> {401, 408, 425, 429} \<or> status \<ge> 500"

definition send_retry :: "report list \<Rightarrow> int \<Rightarrow> report list \<Rightarrow> ProcessingReportResult \<times> report list" where
  "send_retry reports now tbl = (report_outcome Retry 0, retry_processing_reports reports now tbl)"

definition handle_http_error ::
  "report list \<Rightarrow> int \<Rightarrow> int \<Rightarrow> report list \<Rightarrow> ProcessingReportResult \<times> report list" where
  "handle_http_error reports status now tbl =
     (if retryable_status status then send_retry reports now tbl
      else if length reports > 1
      then (report_outcome Isolating 0, isolate_processing_reports reports now tbl)
      else (report_outcome Discarded 1, snd (acknowledge_processing_reports (take 1 reports) tbl)))"

text \<open>\<open>_send\<close> after the request; \<open>None\<close> is the exception that no branch handles.\<close>

definition finish_send ::
  "report list \<Rightarrow> int \<Rightarrow> http_answer \<Rightarrow> report list \<Rightarrow> (ProcessingReportResult \<times> report list) option" where
  "finish_send reports now answer tbl =
     (case answer of
        HttpError status \<Rightarrow> Some (handle_http_error reports status now tbl)
      | TransportError \<Rightarrow> Some (send_retry reports now tbl)
      | Response response \<Rightarrow>
          (case validate_acknowledgement response (map pr_run_id reports) of
             AckRowNotObject \<Rightarrow> None
           | AckMalformed \<Rightarrow> Some (send_retry reports now tbl)
           | AckExact \<Rightarrow> Some (report_outcome Uploaded (length reports),
                               snd (acknowledge_processing_reports reports tbl))))"

text \<open>\<open>flush_once\<close> when nothing else runs during the request; the table is kept when it raises.\<close>

definition flush_once ::
  "int \<Rightarrow> bool \<Rightarrow> (report list \<Rightarrow> http_answer) \<Rightarrow> report list
   \<Rightarrow> ProcessingReportResult option \<times> report list" where
  "flush_once now force_all post tbl =
     (let (reports, kept) = due_processing_reports now force_all tbl
      in if reports = [] then (Some (report_outcome Idle 0), kept)
         else case finish_send reports now (post reports) kept of
                None \<Rightarrow> (None, kept)
              | Some (r, tbl') \<Rightarrow> (Some r, tbl'))"

text \<open>\<open>_next_delay\<close>, in milliseconds.\<close>

definition next_delay_ms :: "int \<Rightarrow> report list \<Rightarrow> int" where
  "next_delay_ms now tbl =
     (case next_processing_report_at tbl of
        None \<Rightarrow> PROCESSING_REPORT_PARKED_RETRY_MS
      | Some t \<Rightarrow> max PROCESSING_REPORT_REQUEST_INTERVAL_MS (min PROCESSING_REPORT_PARKED_RETRY_MS (t - now)))"

text \<open>One round of the loop of \<open>run\<close>: the next \<open>_force_all\<close>, the delay and the table.\<close>

definition run_round ::
  "int \<Rightarrow> bool \<Rightarrow> (report list \<Rightarrow> http_answer) \<Rightarrow> report list \<Rightarrow> bool \<times> int \<times> report list" where
  "run_round now force_all post tbl =
     (case flush_once now force_all post tbl of
        (None, tbl') \<Rightarrow> (False, retry_delay_ms 0, tbl')
      | (Some r, tbl') \<Rightarrow>
          let continue_drain = (res_state r = Uploaded
                \<or> (force_all \<and> (res_state r = Isolating \<or> res_state r = Discarded)))
          in if continue_drain \<and> next_processing_report_at tbl' \<noteq> None then (True, 0, tbl')
             else (False, next_delay_ms now tbl', tbl'))"

text \<open>\<open>enqueue\<close> of the dispatcher.\<close>

definition enqueue_reports ::
  "int \<Rightarrow> report_value list \<Rightarrow> bool \<Rightarrow> int \<Rightarrow> (report list \<Rightarrow> http_answer) \<Rightarrow> report list
   \<Rightarrow> (ProcessingReportResult option \<times> report list) res" where
  "enqueue_reports now values immediate now2 post tbl =
     (if values = [] then Inr (Some (report_outcome Idle 0), tbl)
      else res_bind (enqueue_processing_reports now values tbl) (\<lambda>tbl1.
        if immediate
        then (case flush_once now2 False post tbl1 of
                (None, tbl2) \<Rightarrow> Inr (None, tbl2)
              | (Some r, tbl2) \<Rightarrow>
                  Inr (Some (r\<lparr>res_requested_pending :=
                              has_processing_reports (map rv_run_id values) tbl2\<rparr>), tbl2))
        else Inr (Some (report_outcome Queued (length values)), tbl1)))"

end
