(* ===== verification/Report_Facts.thy ===== *)
theory Report_Facts
  imports Report_Outbox
begin

section \<open>Facts about the report outbox\<close>

text \<open>
  The statements over stored versions in closed form, the invariant of the table, and what
  retention, selection and each answer of the Server do to its rows.
\<close>

definition outbox_ok :: "report list \<Rightarrow> bool" where
  "outbox_ok tbl \<longleftrightarrow> distinct (map pr_run_id tbl) \<and> list_all (\<lambda>r. 0 \<le> pr_retry_count r) tbl"

lemma result_of_run [simp]: "fst (result_of r) = pr_run_id r"
  by (simp add: result_of_def)

lemma stored_version_result: "stored_version r = stored_version x \<Longrightarrow> result_of r = result_of x"
  by (simp add: stored_version_def)

lemma stored_version_run: "stored_version r = stored_version x \<Longrightarrow> pr_run_id r = pr_run_id x"
  by (simp add: stored_version_def result_of_def)

subsection \<open>Acknowledge, retry, isolate\<close>

lemma acknowledge_rows:
  "snd (acknowledge_processing_reports reports tbl) =
     filter (\<lambda>r. stored_version r \<notin> stored_version ` set reports) tbl"
proof -
  have "fold (\<lambda>x. sql_delete (\<lambda>r. stored_version r = stored_version x)) reports tbl =
      filter (\<lambda>r. stored_version r \<notin> stored_version ` set reports) tbl"
    by (induction reports arbitrary: tbl) (auto simp: sql_delete_def intro: filter_cong)
  then show ?thesis by (simp add: acknowledge_processing_reports_def Let_def)
qed

lemma acknowledge_all:
  "stored_version ` set tbl \<subseteq> stored_version ` set reports \<Longrightarrow> snd (acknowledge_processing_reports reports tbl) = []"
  by (auto simp: acknowledge_rows filter_empty_conv)

lemma fold_version_update:
  assumes "\<And>r. stored_version (f r) = stored_version r" "distinct (map stored_version reports)"
  shows "fold (\<lambda>x. sql_update (\<lambda>r. stored_version r = stored_version x) f) reports tbl =
    sql_update (\<lambda>r. stored_version r \<in> stored_version ` set reports) f tbl"
  using assms(2)
proof (induction reports arbitrary: tbl)
  case Nil
  then show ?case by (simp add: sql_update_def)
next
  case (Cons x xs)
  then have "fold (\<lambda>x. sql_update (\<lambda>r. stored_version r = stored_version x) f) (x # xs) tbl =
      sql_update (\<lambda>r. stored_version r \<in> stored_version ` set xs) f
        (sql_update (\<lambda>r. stored_version r = stored_version x) f tbl)"
    by simp
  also have "\<dots> = sql_update (\<lambda>r. stored_version r \<in> stored_version ` set (x # xs)) f tbl"
    using Cons.prems assms(1) by (auto simp: sql_update_def)
  finally show ?case .
qed

lemma version_kept [simp]:
  "stored_version (retry_report now r) = stored_version r"
  "stored_version (isolate_report now r) = stored_version r"
  by (simp_all add: stored_version_def result_of_def retry_report_def isolate_report_def)

lemma result_kept [simp]:
  "result_of (retry_report now r) = result_of r" "result_of (isolate_report now r) = result_of r"
  by (simp_all add: result_of_def retry_report_def isolate_report_def)

lemma version_updates:
  assumes "distinct (map stored_version rs)"
  shows "retry_processing_reports rs now tbl =
      sql_update (\<lambda>r. stored_version r \<in> stored_version ` set rs) (retry_report now) tbl"
    "isolate_processing_reports rs now tbl =
      sql_update (\<lambda>r. stored_version r \<in> stored_version ` set rs) (isolate_report now) tbl"
  unfolding retry_processing_reports_def isolate_processing_reports_def
  by (rule fold_version_update [OF _ assms], simp)+

lemma versions_distinct: "distinct (map pr_run_id rs) \<Longrightarrow> distinct (map stored_version rs)"
  by (auto simp: distinct_map inj_on_def dest: stored_version_run)

lemma map_retry_isolate:
  assumes "\<And>r. k (retry_report now r) = k r" "\<And>r. k (isolate_report now r) = k r" "distinct (map pr_run_id rs)"
  shows "map k (retry_processing_reports rs now tbl) = map k tbl"
    "map k (isolate_processing_reports rs now tbl) = map k tbl"
  unfolding version_updates [OF versions_distinct [OF assms(3)]]
  by (rule map_sql_update_frame, simp add: assms(1,2))+

subsection \<open>Selection\<close>

lemma set_by_created [simp]: "set (by_created rows) = set rows" "length (by_created rows) = length rows"
  "by_created [] = []" "by_created rows = [] \<longleftrightarrow> rows = []"
  by (simp_all add: by_created_def flip: length_0_conv)

lemma distinct_by_created: "distinct (map k rows) \<Longrightarrow> distinct (map k (by_created rows))"
  by (simp add: by_created_def distinct_map)

lemma kept_rows: "snd (due_processing_reports now force tbl) = cleanup_processing_reports now tbl"
  by (simp add: due_processing_reports_def Let_def)

lemma due_cases:
  fixes tbl now force
  defines "kept \<equiv> cleanup_processing_reports now tbl"
  obtains (alone) x where "fst (due_processing_reports now force tbl) = [x]" "x \<in> set kept" "pr_isolated x"
      "report_due force now x"
  | (batch) rs where "fst (due_processing_reports now force tbl) = rs"
      "rs = take PROCESSING_REPORT_BATCH_SIZE (by_created (filter (\<lambda>r. \<not> pr_isolated r \<and> report_due force now r) kept))"
      "filter (\<lambda>r. pr_isolated r \<and> report_due force now r) kept = []"
proof -
  let ?i = "by_created (filter (\<lambda>r. pr_isolated r \<and> report_due force now r) kept)"
  show thesis
  proof (cases ?i)
    case Nil
    then have "filter (\<lambda>r. pr_isolated r \<and> report_due force now r) kept = []" by simp
    then show thesis using batch by (simp add: due_processing_reports_def Let_def kept_def)
  next
    case (Cons x xs)
    then have "x \<in> set ?i" by simp
    then have "x \<in> set kept" "pr_isolated x" "report_due force now x" by auto
    moreover have "fst (due_processing_reports now force tbl) = [x]"
      using Cons by (simp add: due_processing_reports_def Let_def kept_def del: set_by_created(4))
    ultimately show thesis by (intro alone)
  qed
qed

lemma due_subset: "set (fst (due_processing_reports now force tbl)) \<subseteq> set (cleanup_processing_reports now tbl)"
  by (cases rule: due_cases [where now = now and tbl = tbl and force = force]) (auto dest: in_set_takeD)

lemma due_distinct:
  assumes "distinct (map pr_run_id tbl)"
  shows "distinct (map pr_run_id (fst (due_processing_reports now force tbl)))"
proof (cases rule: due_cases [where now = now and tbl = tbl and force = force])
  case (alone x)
  then show ?thesis by simp
next
  case (batch rs)
  have "distinct (map pr_run_id (by_created (filter P (cleanup_processing_reports now tbl))))" for P
    unfolding cleanup_processing_reports_def
    by (intro distinct_by_created distinct_map_filter_key distinct_map_sql_delete assms)
  with batch(1,2) show ?thesis by (simp add: distinct_take flip: take_map)
qed

lemma due_length: "length (fst (due_processing_reports now force tbl)) \<le> PROCESSING_REPORT_BATCH_SIZE"
  by (cases rule: due_cases [where now = now and tbl = tbl and force = force]) (simp_all add: PROCESSING_REPORT_BATCH_SIZE_def)

subsection \<open>Enqueue\<close>

lemma upsert_report_run:
  assumes "distinct (map pr_run_id tbl)"
  shows "distinct (map pr_run_id (upsert_report now v tbl))"
    and "r \<in> set tbl \<Longrightarrow> pr_run_id r \<noteq> fst v \<Longrightarrow> r \<in> set (upsert_report now v tbl)"
  using assms
  by (cases v; auto simp: upsert_report_def new_report_def map_sql_update_frame intro: sql_update_other)+

lemma upsert_report_retry:
  "list_all (\<lambda>r. 0 \<le> pr_retry_count r) tbl \<Longrightarrow> list_all (\<lambda>r. 0 \<le> pr_retry_count r) (upsert_report now v tbl)"
  by (cases v) (auto simp: upsert_report_def new_report_def list_all_iff elim!: in_sql_updateE)

lemma fold_upsert:
  assumes "outbox_ok tbl"
  shows "outbox_ok (fold (upsert_report now) vs tbl)"
    and "r \<in> set tbl \<Longrightarrow> pr_run_id r \<notin> fst ` set vs \<Longrightarrow> r \<in> set (fold (upsert_report now) vs tbl)"
  using assms
proof (induction vs arbitrary: tbl)
  case (Cons v vs)
  {
    case 1
    then show ?case using Cons.IH(1) by (simp add: outbox_ok_def upsert_report_run upsert_report_retry)
  next
    case 2
    then have "outbox_ok (upsert_report now v tbl)" by (simp add: outbox_ok_def upsert_report_run upsert_report_retry)
    moreover have "r \<in> set (upsert_report now v tbl)"
      using 2 by (intro upsert_report_run(2)) (auto simp: outbox_ok_def)
    ultimately show ?case using Cons.IH(2) 2(2) by simp
  }
qed simp_all

lemma expected_results_map:
  "expected_results vs e0 = Inr e \<Longrightarrow> map_of e = map_of vs ++ map_of e0"
proof (induction vs e0 arbitrary: e rule: expected_results.induct)
  case (2 run identity rest e0)
  show ?case
  proof (cases "map_of e0 run")
    case None
    then have "expected_results rest (e0 @ [(run, identity)]) = Inr e" using 2(3) by simp
    from 2(1) [OF None this] have "map_of e = map_of rest ++ map_of (e0 @ [(run, identity)])" .
    moreover have "map_of e0 x = None \<Longrightarrow> map_of (e0 @ [(run, identity)]) x = [run \<mapsto> identity] x"
      "map_of e0 x = Some y \<Longrightarrow> map_of (e0 @ [(run, identity)]) x = Some y" for x y
      by (simp_all add: map_of_append map_add_def)
    ultimately show ?thesis using None
      by (intro ext) (simp add: map_add_def split: option.split)
  next
    case (Some i)
    with 2(3) have i: "\<not> i \<noteq> identity" "expected_results rest e0 = Inr e" by (auto split: if_splits)
    from 2(2) [OF Some i] have "map_of e = map_of rest ++ map_of e0" .
    moreover have "i = identity" using i(1) by simp
    ultimately show ?thesis using Some by (intro ext) (simp add: map_add_def split: option.split)
  qed
qed simp

lemma enqueue_cases:
  assumes "enqueue_processing_reports now vs tbl = Inr tbl'"
  obtains ns where "normalize_reports vs = Inr ns" "tbl' = fold (upsert_report now) ns tbl"
    "\<And>run i. map_of ns run = Some i \<Longrightarrow> (run, i) \<in> result_of ` set tbl'"
proof -
  obtain ns where ns: "normalize_reports vs = Inr ns"
    using assms by (auto simp: enqueue_processing_reports_def res_bind_Inr)
  show thesis
  proof (cases "ns = []")
    case True
    with assms ns show thesis by (intro that [of ns]) (auto simp: enqueue_processing_reports_def)
  next
    case False
    then obtain e where e: "expected_results ns [] = Inr e" "actual_matches e (fold (upsert_report now) ns tbl)"
      and tbl': "tbl' = fold (upsert_report now) ns tbl"
      using assms ns
      by (cases "expected_results ns []")
         (simp_all add: enqueue_processing_reports_def Let_def split: if_split_asm)
    have "(run, i) \<in> result_of ` set tbl'" if "map_of ns run = Some i" for run i
    proof -
      have "map_of e run = Some i" using expected_results_map [OF e(1)] that by simp
      then have "map_of (map result_of tbl') run = Some i"
        using e(2) map_of_SomeD [of e run i] by (auto simp: actual_matches_def list_all_iff tbl')
      from map_of_SomeD [OF this] show ?thesis by simp
    qed
    with ns tbl' show thesis by (rule that)
  qed
qed

end
