(* ===== verification/Report_Props.thy ===== *)
theory Report_Props
  imports Report_Facts
begin

section \<open>No processing result is lost\<close>

text \<open>
  The outbox and its dispatcher as a transition system. A request is in flight while reports are
  enqueued beside it, since the dispatcher's lock does not cover the store; the answer is applied to
  the versions that were sent. Four history components say what was last reported for a run, and
  which results the Server accepted, which it refused on their own, and which retention removed.
\<close>

record outbox_sys =
  rows :: "report list"
  flight :: "(report list \<times> int) option"
  latest :: "string \<rightharpoonup> string \<times> bool \<times> string option"
  accepted :: "report_result set"
  refused :: "report_result set"
  expired :: "report_result set"

definition outbox_start :: outbox_sys where
  "outbox_start = \<lparr>rows = [], flight = None, latest = Map.empty, accepted = {}, refused = {}, expired = {}\<rparr>"

definition expire :: "int \<Rightarrow> outbox_sys \<Rightarrow> outbox_sys" where
  "expire now s = s\<lparr>rows := cleanup_processing_reports now (rows s),
     expired := expired s \<union> result_of ` (set (rows s) - set (cleanup_processing_reports now (rows s)))\<rparr>"

definition conclude :: "ProcessingReportResult \<Rightarrow> report list \<Rightarrow> report list \<Rightarrow> outbox_sys \<Rightarrow> outbox_sys" where
  "conclude res reports tbl s =
     s\<lparr>rows := tbl, flight := None,
       accepted := accepted s \<union> (if res_state res = Uploaded then result_of ` set reports else {}),
       refused := refused s \<union> (if res_state res = Discarded then result_of ` set reports else {})\<rparr>"

inductive outbox_step :: "outbox_sys \<Rightarrow> outbox_sys \<Rightarrow> bool" where
  enqueue: "enqueue_processing_reports now vs (rows s) = Inr tbl \<Longrightarrow> normalize_reports vs = Inr ns \<Longrightarrow>
    outbox_step s (s\<lparr>rows := tbl, latest := latest s ++ map_of ns\<rparr>)"
| idle: "flight s = None \<Longrightarrow> fst (due_processing_reports now force (rows s)) = [] \<Longrightarrow> outbox_step s (expire now s)"
| post: "flight s = None \<Longrightarrow> fst (due_processing_reports now force (rows s)) = reports \<Longrightarrow> reports \<noteq> [] \<Longrightarrow>
    outbox_step s ((expire now s)\<lparr>flight := Some (reports, now)\<rparr>)"
| answered: "flight s = Some (reports, now) \<Longrightarrow> finish_send reports now answer (rows s) = Some (res, tbl) \<Longrightarrow>
    outbox_step s (conclude res reports tbl s)"
| unhandled: "flight s = Some (reports, now) \<Longrightarrow> finish_send reports now answer (rows s) = None \<Longrightarrow>
    outbox_step s (s\<lparr>flight := None\<rparr>)"

inductive outbox_reach :: "outbox_sys \<Rightarrow> bool" where
  start: "outbox_reach outbox_start"
| step: "outbox_reach s \<Longrightarrow> outbox_step s s' \<Longrightarrow> outbox_reach s'"

inductive_cases outbox_stepE: "outbox_step s s'"

subsection \<open>The answers\<close>

text \<open>An answer deletes exactly the versions sent, or keeps every row's result.\<close>

lemma finish_cases:
  assumes "finish_send reports now answer tbl = Some (res, tbl')" "distinct (map pr_run_id reports)" "reports \<noteq> []"
  obtains (gone) "res_state res = Uploaded \<or> res_state res = Discarded"
      "tbl' = filter (\<lambda>r. stored_version r \<notin> stored_version ` set reports) tbl"
  | (kept) "res_state res = Retry \<or> res_state res = Isolating"
      "map result_of tbl' = map result_of tbl"
proof -
  have m: "map result_of (retry_processing_reports reports now tbl) = map result_of tbl"
    "map result_of (isolate_processing_reports reports now tbl) = map result_of tbl"
    by (rule map_retry_isolate [OF _ _ assms(2)]; simp)+
  have one: "take 1 reports = reports" if "\<not> length reports > 1" using that by simp
  show thesis
  proof (cases answer)
    case (Response response)
    with assms(1) gone kept m show thesis
      by (auto simp: finish_send_def send_retry_def report_outcome_def acknowledge_rows split: ack_check.splits)
  next
    case (HttpError status)
    with assms(1) have h: "handle_http_error reports status now tbl = (res, tbl')" by (simp add: finish_send_def)
    consider "retryable_status status" | "\<not> retryable_status status" "length reports > 1"
      | "\<not> retryable_status status" "\<not> length reports > 1" by blast
    then show thesis
    proof cases
      case 3
      with h one have "res_state res = Discarded"
        "tbl' = filter (\<lambda>r. stored_version r \<notin> stored_version ` set reports) tbl"
        by (auto simp: handle_http_error_def report_outcome_def acknowledge_rows)
      then show thesis by (intro gone) simp_all
    qed (use h kept m in \<open>auto simp: handle_http_error_def send_retry_def report_outcome_def\<close>)
  next
    case TransportError
    with assms(1) kept m show thesis by (auto simp: finish_send_def send_retry_def report_outcome_def)
  qed
qed

lemma finish_keeps:
  assumes "finish_send reports now answer tbl = Some (res, tbl')" "distinct (map pr_run_id reports)" "reports \<noteq> []"
    "v \<in> result_of ` set tbl"
  shows "v \<in> result_of ` set tbl' \<or> (v \<in> result_of ` set reports \<and> (res_state res = Uploaded \<or> res_state res = Discarded))"
  using assms(1-3)
proof (cases rule: finish_cases)
  case gone
  obtain r where r: "r \<in> set tbl" "v = result_of r" using assms(4) by auto
  show ?thesis
  proof (cases "stored_version r \<in> stored_version ` set reports")
    case True
    then have "v \<in> result_of ` set reports" using r(2) stored_version_result by blast
    with gone(1) show ?thesis by simp
  next
    case False
    with r gone(2) show ?thesis by auto
  qed
next
  case kept
  then show ?thesis using assms(4) by (metis list.set_map)
qed

subsection \<open>The invariant\<close>

definition accounted :: "outbox_sys \<Rightarrow> bool" where
  "accounted s \<longleftrightarrow> (\<forall>run i. latest s run = Some i \<longrightarrow>
     (run, i) \<in> result_of ` set (rows s) \<union> accepted s \<union> refused s \<union> expired s)"

lemma accountedI:
  "(\<And>run i. latest s run = Some i \<Longrightarrow> (run, i) \<in> result_of ` set (rows s) \<union> accepted s \<union> refused s \<union> expired s)
   \<Longrightarrow> accounted s"
  unfolding accounted_def by blast

lemma accountedD:
  "accounted s \<Longrightarrow> latest s run = Some i \<Longrightarrow>
   (run, i) \<in> result_of ` set (rows s) \<union> accepted s \<union> refused s \<union> expired s"
  unfolding accounted_def by blast

definition flight_ok :: "outbox_sys \<Rightarrow> bool" where
  "flight_ok s \<longleftrightarrow> (case flight s of None \<Rightarrow> True
     | Some (reports, now) \<Rightarrow> reports \<noteq> [] \<and> distinct (map pr_run_id reports)
         \<and> length reports \<le> PROCESSING_REPORT_BATCH_SIZE)"

definition outbox_inv :: "outbox_sys \<Rightarrow> bool" where
  "outbox_inv s \<longleftrightarrow> outbox_ok (rows s) \<and> flight_ok s \<and> accounted s"

lemma outbox_ok_filter: "outbox_ok tbl \<Longrightarrow> outbox_ok (filter P tbl)"
  by (simp add: outbox_ok_def distinct_map_filter_key list_all_iff)

lemma outbox_ok_cleanup: "outbox_ok tbl \<Longrightarrow> outbox_ok (cleanup_processing_reports now tbl)"
  by (simp add: cleanup_processing_reports_def sql_delete_def outbox_ok_filter)

lemma outbox_ok_map:
  "outbox_ok tbl \<Longrightarrow> map pr_run_id tbl' = map pr_run_id tbl \<Longrightarrow> (\<And>r. r \<in> set tbl' \<Longrightarrow> 0 \<le> pr_retry_count r)
   \<Longrightarrow> outbox_ok tbl'"
  by (simp add: outbox_ok_def list_all_iff)

lemma outbox_ok_retry:
  assumes "outbox_ok tbl" "distinct (map pr_run_id rs)"
  shows "outbox_ok (retry_processing_reports rs now tbl)" "outbox_ok (isolate_processing_reports rs now tbl)"
  using map_retry_isolate [OF _ _ assms(2), of pr_run_id] assms(1) version_updates [OF versions_distinct [OF assms(2)]]
  by (auto simp: retry_report_def isolate_report_def outbox_ok_def list_all_iff intro!: outbox_ok_map [OF assms(1)]
      elim!: in_sql_updateE)

lemma outbox_ok_finish:
  assumes "finish_send reports now answer tbl = Some (res, tbl')" "distinct (map pr_run_id reports)" "outbox_ok tbl"
  shows "outbox_ok tbl'"
  using assms outbox_ok_retry [OF assms(3,2)]
  by (auto simp: finish_send_def handle_http_error_def send_retry_def acknowledge_rows outbox_ok_filter
      split: http_answer.splits ack_check.splits if_splits)

lemma accounted_expire:
  assumes "accounted s"
  shows "accounted (expire now s)"
proof (rule accountedI)
  fix run i assume "latest (expire now s) run = Some i"
  then have "(run, i) \<in> result_of ` set (rows s) \<union> accepted s \<union> refused s \<union> expired s"
    using accountedD [OF assms] by (simp add: expire_def)
  then show "(run, i) \<in> result_of ` set (rows (expire now s)) \<union> accepted (expire now s)
      \<union> refused (expire now s) \<union> expired (expire now s)"
    unfolding expire_def by (cases "(run, i) \<in> result_of ` set (rows s)") auto
qed

lemma outbox_inv_expire: "outbox_inv s \<Longrightarrow> outbox_inv (expire now s)"
  using accounted_expire [of s now]
  by (auto simp: outbox_inv_def outbox_ok_cleanup expire_def flight_ok_def)

lemma outbox_inv_step:
  assumes "outbox_step s s'" "outbox_inv s"
  shows "outbox_inv s'"
  using assms(1)
proof cases
  case (enqueue now vs tbl ns)
  from enqueue(2) obtain ms where ms: "normalize_reports vs = Inr ms" "tbl = fold (upsert_report now) ms (rows s)"
    "\<And>run i. map_of ms run = Some i \<Longrightarrow> (run, i) \<in> result_of ` set tbl" by (rule enqueue_cases) (rule that)
  then have ns: "ns = ms" using enqueue(3) by simp
  have ok: "outbox_ok (rows s)" using assms(2) by (simp add: outbox_inv_def)
  have "(run, i) \<in> result_of ` set tbl \<union> accepted s \<union> refused s \<union> expired s"
    if l: "(latest s ++ map_of ns) run = Some i" for run i
  proof (cases "map_of ns run")
    case None
    then have "latest s run = Some i" using l by (simp add: map_add_def)
    then have "(run, i) \<in> result_of ` set (rows s) \<union> accepted s \<union> refused s \<union> expired s"
      using assms(2) accountedD by (simp add: outbox_inv_def)
    moreover have "(run, i) \<in> result_of ` set tbl" if r: "r \<in> set (rows s)" "(run, i) = result_of r" for r
    proof -
      have "pr_run_id r = run" using r(2) by (simp add: result_of_def)
      then have "pr_run_id r \<notin> fst ` set ms" using None ns by (simp add: map_of_eq_None_iff)
      from fold_upsert(2) [OF ok r(1) this] r(2) ms(2) show ?thesis by auto
    qed
    ultimately show ?thesis by blast
  next
    case (Some j)
    with l ms(3) ns show ?thesis by (simp add: map_add_def)
  qed
  then have "accounted s'" unfolding enqueue(1) by (intro accountedI) simp
  with enqueue(1) ms(2) fold_upsert(1) [OF ok, of now ms] assms(2) show ?thesis
    by (simp add: outbox_inv_def flight_ok_def)
next
  case (idle now force)
  then show ?thesis using outbox_inv_expire [OF assms(2)] by simp
next
  case (post now force reports)
  have "distinct (map pr_run_id (rows s))" using assms(2) by (simp add: outbox_inv_def outbox_ok_def)
  then have "distinct (map pr_run_id reports)" "length reports \<le> PROCESSING_REPORT_BATCH_SIZE"
    using due_distinct due_length post(3) by blast+
  with post(1,4) outbox_inv_expire [OF assms(2), of now] show ?thesis
    by (simp add: outbox_inv_def flight_ok_def accounted_def)
next
  case (answered reports now answer res tbl)
  have f: "reports \<noteq> []" "distinct (map pr_run_id reports)"
    using assms(2) answered(2) by (simp_all add: outbox_inv_def flight_ok_def)
  note k = finish_keeps [OF answered(3) f(2,1)]
  have "accounted s'"
  proof (rule accountedI)
    fix run i assume "latest s' run = Some i"
    then have "(run, i) \<in> result_of ` set (rows s) \<union> accepted s \<union> refused s \<union> expired s"
      using assms(2) accountedD by (simp add: answered(1) conclude_def outbox_inv_def)
    then show "(run, i) \<in> result_of ` set (rows s') \<union> accepted s' \<union> refused s' \<union> expired s'"
      using k [of "(run, i)"] unfolding answered(1) conclude_def by auto
  qed
  with answered(1) outbox_ok_finish [OF answered(3) f(2)] assms(2) show ?thesis
    by (simp add: outbox_inv_def conclude_def flight_ok_def)
next
  case (unhandled reports now answer)
  with assms(2) show ?thesis by (simp add: outbox_inv_def flight_ok_def accounted_def)
qed

lemma outbox_reach_inv: "outbox_reach s \<Longrightarrow> outbox_inv s"
proof (induction rule: outbox_reach.induct)
  case start
  show ?case by (simp add: outbox_start_def outbox_inv_def outbox_ok_def flight_ok_def accounted_def)
next
  case (step s s')
  from outbox_inv_step [OF step(2,3)] show ?case .
qed

text \<open>
  C35. No processing result is lost: in every state the outbox and its dispatcher can reach, with
  reports enqueued while a request is in flight and any answers of the Server, the last result
  enqueued for a run is still in the outbox, or was acknowledged by the Server as it was sent, or was
  refused by it on its own, or is older than the retention. A late answer never settles a newer result.
\<close>

theorem no_result_lost:
  assumes "outbox_reach s" "latest s run = Some i"
  shows "(run, i) \<in> result_of ` set (rows s) \<union> accepted s \<union> refused s \<union> expired s"
  using outbox_reach_inv [OF assms(1)] accountedD [OF _ assms(2)] by (simp add: outbox_inv_def)

text \<open>A run is reported, sent, reported again with another result while the request is in flight, and
  then the first result is acknowledged: the second one stays.\<close>

definition report_ok :: report_value where
  "report_ok = \<lparr>rv_run_id = ''r'', rv_message_id = ''m'', rv_succeeded = True, rv_error_text = None\<rparr>"

definition report_failed :: report_value where
  "report_failed = report_ok\<lparr>rv_succeeded := False, rv_error_text := Some ''boom''\<rparr>"

definition first_report :: report where "first_report = new_report 1 (''r'', ''m'', True, None)"

definition second_report :: report where "second_report = new_report 3 (''r'', ''m'', False, Some ''boom'')"

definition queued_sys :: outbox_sys where
  "queued_sys = outbox_start\<lparr>rows := [first_report], latest := [''r'' \<mapsto> (''m'', True, None)]\<rparr>"

definition posted_sys :: outbox_sys where
  "posted_sys = queued_sys\<lparr>flight := Some ([first_report], 2)\<rparr>"

definition requeued_sys :: outbox_sys where
  "requeued_sys = posted_sys\<lparr>rows := [second_report], latest := [''r'' \<mapsto> (''m'', False, Some ''boom'')]\<rparr>"

lemma sample_evaluations:
  "normalize_reports [report_ok] = Inr [(''r'', ''m'', True, None)]"
  "enqueue_processing_reports 1 [report_ok] [] = Inr [first_report]"
  "fst (due_processing_reports 2 False [first_report]) = [first_report]"
  "cleanup_processing_reports 2 [first_report] = [first_report]"
  "normalize_reports [report_failed] = Inr [(''r'', ''m'', False, Some ''boom'')]"
  "enqueue_processing_reports 3 [report_failed] [first_report] = Inr [second_report]"
  "finish_send [first_report] 2 (Response (Some [Some ''r''])) [second_report] =
     Some (report_outcome Uploaded 1, [second_report])"
  by code_simp+

lemma queued_reached: "outbox_reach queued_sys"
proof -
  have "queued_sys = outbox_start\<lparr>rows := [first_report], latest := latest outbox_start ++ map_of [(''r'', ''m'', True, None)]\<rparr>"
    by (simp add: queued_sys_def outbox_start_def)
  moreover have "enqueue_processing_reports 1 [report_ok] (rows outbox_start) = Inr [first_report]"
    by (simp add: outbox_start_def sample_evaluations)
  ultimately have "outbox_step outbox_start queued_sys"
    using outbox_step.enqueue [OF _ sample_evaluations(1)] by metis
  with outbox_reach.start show ?thesis by (rule outbox_reach.step)
qed

lemma posted_reached: "outbox_reach posted_sys"
proof -
  have q: "flight queued_sys = None" "rows queued_sys = [first_report]" "expired queued_sys = {}"
    by (simp_all add: queued_sys_def outbox_start_def)
  have "posted_sys = (expire 2 queued_sys)\<lparr>flight := Some ([first_report], 2)\<rparr>"
    by (simp add: posted_sys_def expire_def queued_sys_def outbox_start_def sample_evaluations)
  then have "outbox_step queued_sys posted_sys"
    using outbox_step.post [OF q(1), of 2 False "[first_report]"] by (simp add: q(2) sample_evaluations)
  with queued_reached show ?thesis by (rule outbox_reach.step)
qed

lemma requeued_reached: "outbox_reach requeued_sys"
proof -
  have "requeued_sys = posted_sys\<lparr>rows := [second_report], latest := latest posted_sys ++ map_of [(''r'', ''m'', False, Some ''boom'')]\<rparr>"
    by (simp add: requeued_sys_def posted_sys_def queued_sys_def)
  moreover have "enqueue_processing_reports 3 [report_failed] (rows posted_sys) = Inr [second_report]"
    by (simp add: posted_sys_def queued_sys_def sample_evaluations)
  ultimately have "outbox_step posted_sys requeued_sys"
    using outbox_step.enqueue [OF _ sample_evaluations(5)] by metis
  with posted_reached show ?thesis by (rule outbox_reach.step)
qed

theorem no_result_lost_witness:
  "\<exists>s :: outbox_sys. accepted s = {(''r'', ''m'', True, None)} \<and> latest s ''r'' = Some (''m'', False, Some ''boom'') \<and>
     (''r'', ''m'', False, Some ''boom'') \<in> result_of ` set (rows s) \<union> accepted s \<union> refused s \<union> expired s"
proof -
  let ?t = "conclude (report_outcome Uploaded 1) [first_report] [second_report] requeued_sys"
  have "flight requeued_sys = Some ([first_report], 2)" "rows requeued_sys = [second_report]"
    by (simp_all add: requeued_sys_def posted_sys_def)
  then have "outbox_step requeued_sys ?t"
    using outbox_step.answered [of requeued_sys "[first_report]" 2] sample_evaluations(7) by metis
  with requeued_reached have reach: "outbox_reach ?t" by (rule outbox_reach.step)
  have l: "latest ?t ''r'' = Some (''m'', False, Some ''boom'')" "accepted ?t = {(''r'', ''m'', True, None)}"
    by (simp_all add: conclude_def requeued_sys_def posted_sys_def queued_sys_def outbox_start_def
        report_outcome_def result_of_def first_report_def new_report_def)
  show ?thesis
    by (rule exI [of _ ?t], intro conjI l, rule no_result_lost [OF reach l(1)])
qed

end
