(* ===== verification/Report_Drain.thy ===== *)
theory Report_Drain
  imports Report_Facts
begin

section \<open>The outbox drains\<close>

text \<open>
  The loop of the dispatcher against a Server that takes some results and rejects others: a batch is
  acknowledged when it would take all of it and answered with status 400 otherwise. The loop isolates
  a rejected batch, sends its reports one by one and drops the rejected ones, so that one bad report
  never keeps the others back and the outbox empties.
\<close>

definition fair_server :: "(report_result \<Rightarrow> bool) \<Rightarrow> report list \<Rightarrow> http_answer" where
  "fair_server takes reports =
     (if list_all (\<lambda>r. takes (result_of r)) reports
      then Response (Some (map (\<lambda>r. Some (pr_run_id r)) reports)) else HttpError 400)"

text \<open>The rounds of the loop until it sleeps, \<open>clk i\<close> being the clock of round \<open>i\<close>.\<close>

fun drain :: "nat \<Rightarrow> (nat \<Rightarrow> int) \<Rightarrow> nat \<Rightarrow> bool \<Rightarrow> (report list \<Rightarrow> http_answer) \<Rightarrow> report list
  \<Rightarrow> (int \<times> report list) option" where
  "drain 0 clk i force_all post tbl = None"
| "drain (Suc n) clk i force_all post tbl =
     (case run_round (clk i) force_all post tbl of
        (force', delay, tbl') \<Rightarrow>
          if delay = 0 then drain n clk (Suc i) force' post tbl' else Some (delay, tbl'))"

subsection \<open>One request\<close>

lemma exact_ack: "validate_acknowledgement (Some (map (\<lambda>r. Some (f r)) rs)) (map f rs) = AckExact"
proof -
  have "List.map_filter id (map (\<lambda>r. Some (f r)) rs) = map f rs"
    by (induction rs) (simp_all add: map_filter_simps)
  then show ?thesis by (auto simp: validate_acknowledgement_def)
qed

lemma fair_answer:
  assumes "reports \<noteq> []"
  shows "finish_send reports now (fair_server takes reports) tbl =
    (if list_all (\<lambda>r. takes (result_of r)) reports
     then Some (report_outcome Uploaded (length reports), snd (acknowledge_processing_reports reports tbl))
     else if length reports > 1
     then Some (report_outcome Isolating 0, isolate_processing_reports reports now tbl)
     else Some (report_outcome Discarded 1, snd (acknowledge_processing_reports reports tbl)))"
  using exact_ack [of pr_run_id reports]
  by (simp add: finish_send_def fair_server_def handle_http_error_def retryable_status_def)

definition fresh :: "int \<Rightarrow> report list \<Rightarrow> bool" where
  "fresh now tbl \<longleftrightarrow> list_all (\<lambda>r. now - PROCESSING_REPORT_RETENTION_MS \<le> pr_created_at_ms r) tbl"

lemma fresh_cleanup: "fresh now tbl \<Longrightarrow> cleanup_processing_reports now tbl = tbl"
  by (auto simp: fresh_def cleanup_processing_reports_def sql_delete_def list_all_iff filter_id_conv)

text \<open>With \<open>force_all\<close> something is sent, and only fresh rows of one kind.\<close>

lemma forced_batch:
  assumes "fresh now tbl" "tbl \<noteq> []"
  shows "fst (due_processing_reports now True tbl) \<noteq> []"
    "length (fst (due_processing_reports now True tbl)) > 1 \<Longrightarrow>
      \<forall>r\<in>set (fst (due_processing_reports now True tbl)). \<not> pr_isolated r"
proof -
  have k: "cleanup_processing_reports now tbl = tbl" using assms(1) by (rule fresh_cleanup)
  have "fst (due_processing_reports now True tbl) \<noteq> [] \<and>
    (length (fst (due_processing_reports now True tbl)) > 1 \<longrightarrow>
      (\<forall>r\<in>set (fst (due_processing_reports now True tbl)). \<not> pr_isolated r))"
  proof (cases rule: due_cases [where now = now and tbl = tbl and force = True])
    case (batch rs)
    have "filter (\<lambda>r. \<not> pr_isolated r \<and> report_due True now r) tbl \<noteq> []"
      using batch(3) assms(2) by (auto simp: k report_due_def filter_empty_conv neq_Nil_conv)
    with batch(1,2) k show ?thesis by (auto simp: PROCESSING_REPORT_BATCH_SIZE_def dest: in_set_takeD)
  qed simp
  then show "fst (due_processing_reports now True tbl) \<noteq> []"
    "length (fst (due_processing_reports now True tbl)) > 1 \<Longrightarrow>
      \<forall>r\<in>set (fst (due_processing_reports now True tbl)). \<not> pr_isolated r" by blast+
qed

subsection \<open>The measure\<close>

definition pending_work :: "report list \<Rightarrow> nat" where
  "pending_work tbl = sum_list (map (\<lambda>r. if pr_isolated r then 1 else 2) tbl)"

lemma pending_work_bound: "pending_work tbl \<le> 2 * length tbl"
  by (induction tbl) (auto simp: pending_work_def)

lemma pending_work_0 [simp]: "pending_work tbl = 0 \<longleftrightarrow> tbl = []"
  by (cases tbl) (auto simp: pending_work_def)

lemma pending_work_delete:
  assumes "x \<in> set tbl" "\<not> P x"
  shows "pending_work (filter P tbl) < pending_work tbl"
  using assms
proof (induction tbl)
  case (Cons r tbl)
  have le: "pending_work (filter P tbl) \<le> pending_work tbl" by (induction tbl) (auto simp: pending_work_def)
  show ?case
  proof (cases "P r")
    case True
    then have "pending_work (filter P tbl) < pending_work tbl" using Cons by auto
    with True show ?thesis by (simp add: pending_work_def)
  next
    case False
    with le show ?thesis by (simp add: pending_work_def)
  qed
qed simp

lemma isolate_report_isolated [simp]: "pr_isolated (isolate_report now r)"
  by (simp add: isolate_report_def)

lemma pending_work_isolate:
  assumes "x \<in> set tbl" "P x" "\<forall>r\<in>set tbl. P r \<longrightarrow> \<not> pr_isolated r"
  shows "pending_work (sql_update P (isolate_report now) tbl) < pending_work tbl"
  using assms
proof (induction tbl)
  case (Cons r tbl)
  have le: "pending_work (sql_update P (isolate_report now) tbl) \<le> pending_work tbl"
    by (induction tbl) (auto simp: pending_work_def sql_update_def)
  show ?case
  proof (cases "x \<in> set tbl")
    case True
    then have "pending_work (sql_update P (isolate_report now) tbl) < pending_work tbl" using Cons by auto
    with Cons.prems(3) show ?thesis by (auto simp: pending_work_def sql_update_def)
  next
    case False
    with Cons.prems le show ?thesis by (auto simp: pending_work_def sql_update_def)
  qed
qed simp

subsection \<open>The loop\<close>

lemma fresh_filter: "fresh now tbl \<Longrightarrow> fresh now (filter P tbl)"
  by (auto simp: fresh_def list_all_iff)

lemma fresh_isolate: "fresh now tbl \<Longrightarrow> fresh now (sql_update P (isolate_report t) tbl)"
  by (auto simp: fresh_def list_all_iff isolate_report_def elim!: in_sql_updateE)

lemma run_ids_isolate: "map pr_run_id (sql_update P (isolate_report t) tbl) = map pr_run_id tbl"
  by (rule map_sql_update_frame) (simp add: isolate_report_def)

lemma sent_rows:
  assumes "distinct (map pr_run_id tbl)" "set rs \<subseteq> set tbl" "r \<in> set tbl" "stored_version r \<in> stored_version ` set rs"
  shows "r \<in> set rs"
proof -
  obtain x where x: "x \<in> set rs" "stored_version r = stored_version x" using assms(4) by auto
  then have "r = x"
    using distinct_map_unique [OF assms(1,3)] assms(2) stored_version_run [OF x(2)] by auto
  with x(1) show ?thesis by simp
qed

text \<open>A forced request on a non-empty outbox leaves less work, in a state that continues the drain.\<close>

lemma forced_flush:
  assumes "distinct (map pr_run_id tbl)" "fresh now tbl" "tbl \<noteq> []"
  obtains res tbl' where "flush_once now True (fair_server takes) tbl = (Some res, tbl')"
    "res_state res = Uploaded \<or> res_state res = Isolating \<or> res_state res = Discarded"
    "pending_work tbl' < pending_work tbl" "distinct (map pr_run_id tbl')"
    "\<And>t. fresh t tbl \<Longrightarrow> fresh t tbl'"
proof -
  define rs where "rs = fst (due_processing_reports now True tbl)"
  have k: "cleanup_processing_reports now tbl = tbl" using assms(2) by (rule fresh_cleanup)
  have ne: "rs \<noteq> []" and iso: "length rs > 1 \<Longrightarrow> \<forall>r\<in>set rs. \<not> pr_isolated r"
    using forced_batch [OF assms(2,3)] by (simp_all add: rs_def)
  have sub: "set rs \<subseteq> set tbl" using due_subset [of now True tbl] by (simp add: rs_def k)
  have dist: "distinct (map stored_version rs)"
    unfolding rs_def by (intro versions_distinct due_distinct assms(1))
  obtain x where x: "x \<in> set rs" "x \<in> set tbl" using ne sub by (metis list.set_intros(1) neq_Nil_conv subsetD)
  have due: "due_processing_reports now True tbl = (rs, tbl)"
    using kept_rows [of now True tbl] by (simp add: rs_def k prod_eq_iff)
  let ?gone = "filter (\<lambda>r. stored_version r \<notin> stored_version ` set rs) tbl"
  let ?apart = "sql_update (\<lambda>r. stored_version r \<in> stored_version ` set rs) (isolate_report now) tbl"
  note same = sent_rows [OF assms(1) sub]
  have w: "pending_work ?gone < pending_work tbl" using x by (intro pending_work_delete [of x]) auto
  have i: "pending_work ?apart < pending_work tbl" if "length rs > 1"
    using x same iso [OF that] by (intro pending_work_isolate [of x]) auto
  have ids: "distinct (map pr_run_id ?gone)" "distinct (map pr_run_id ?apart)"
    using assms(1) by (simp_all add: distinct_map_filter_key run_ids_isolate)
  have fr: "fresh t ?gone" "fresh t ?apart" if "fresh t tbl" for t
    using that by (simp_all add: fresh_filter fresh_isolate)
  note f = fair_answer [OF ne, of now takes tbl, unfolded acknowledge_rows version_updates(2) [OF dist]]
  consider (all) "list_all (\<lambda>r. takes (result_of r)) rs" | (many) "\<not> list_all (\<lambda>r. takes (result_of r)) rs" "length rs > 1"
    | (one) "\<not> list_all (\<lambda>r. takes (result_of r)) rs" "\<not> length rs > 1" by blast
  then show thesis
  proof cases
    case all
    then show thesis using that [OF _ _ w ids(1) fr(1)] ne due f
      by (simp add: flush_once_def report_outcome_def)
  next
    case many
    then show thesis using that [OF _ _ i ids(2) fr(2)] ne due f
      by (simp add: flush_once_def report_outcome_def)
  next
    case one
    then show thesis using that [OF _ _ w ids(1) fr(1)] ne due f
      by (simp add: flush_once_def report_outcome_def)
  qed
qed

lemma next_report_none [simp]: "next_processing_report_at tbl = None \<longleftrightarrow> tbl = []"
  by (cases tbl) (simp_all add: next_processing_report_at_def)

lemma next_report_empty [simp]: "next_processing_report_at [] = None"
  by simp

lemma forced_round:
  assumes "distinct (map pr_run_id tbl)" "fresh now tbl" "tbl \<noteq> []"
  obtains tbl' where "pending_work tbl' < pending_work tbl" "distinct (map pr_run_id tbl')"
    "\<And>t. fresh t tbl \<Longrightarrow> fresh t tbl'"
    "run_round now True (fair_server takes) tbl =
       (if tbl' = [] then (False, PROCESSING_REPORT_PARKED_RETRY_MS, []) else (True, 0, tbl'))"
proof -
  from forced_flush [OF assms] obtain res tbl' where
    f: "flush_once now True (fair_server takes) tbl = (Some res, tbl')"
      "res_state res = Uploaded \<or> res_state res = Isolating \<or> res_state res = Discarded"
    and t: "pending_work tbl' < pending_work tbl" "distinct (map pr_run_id tbl')"
      "\<And>t. fresh t tbl \<Longrightarrow> fresh t tbl'" by metis
  have "run_round now True (fair_server takes) tbl =
      (if tbl' = [] then (False, PROCESSING_REPORT_PARKED_RETRY_MS, []) else (True, 0, tbl'))"
    using f by (auto simp: run_round_def next_delay_ms_def)
  with t show thesis by (rule that)
qed

lemma drain_aux:
  assumes "distinct (map pr_run_id tbl)" "\<And>j. fresh (clk j) tbl" "tbl \<noteq> []" "pending_work tbl \<le> n"
  shows "drain n clk i True (fair_server takes) tbl = Some (PROCESSING_REPORT_PARKED_RETRY_MS, [])"
  using assms
proof (induction n arbitrary: tbl i)
  case 0
  then show ?case by simp
next
  case (Suc n)
  from forced_round [OF Suc.prems(1) Suc.prems(2) Suc.prems(3)] obtain tbl' where
    t: "pending_work tbl' < pending_work tbl" "distinct (map pr_run_id tbl')" "\<And>t. fresh t tbl \<Longrightarrow> fresh t tbl'"
    and r: "run_round (clk i) True (fair_server takes) tbl =
       (if tbl' = [] then (False, PROCESSING_REPORT_PARKED_RETRY_MS, []) else (True, 0, tbl'))" by metis
  show ?case
  proof (cases "tbl' = []")
    case True
    with r show ?thesis by (simp add: PROCESSING_REPORT_PARKED_RETRY_MS_def)
  next
    case False
    have "drain n clk (Suc i) True (fair_server takes) tbl' = Some (PROCESSING_REPORT_PARKED_RETRY_MS, [])"
      using t Suc.prems(2,4) False by (intro Suc.IH) auto
    with r False show ?thesis by simp
  qed
qed

text \<open>What a request removes was taken by the Server, or rejected by it on its own.\<close>

lemma removed_by_server:
  assumes "distinct (map pr_run_id tbl)" "fresh now tbl" "r \<in> set tbl"
    "flush_once now force (fair_server takes) tbl = (Some res, tbl')" "result_of r \<notin> result_of ` set tbl'"
  shows "if takes (result_of r) then res_state res = Uploaded else res_state res = Discarded"
proof -
  define rs where "rs = fst (due_processing_reports now force tbl)"
  have k: "cleanup_processing_reports now tbl = tbl" using assms(2) by (rule fresh_cleanup)
  have due: "due_processing_reports now force tbl = (rs, tbl)"
    using kept_rows [of now force tbl] by (simp add: rs_def k prod_eq_iff)
  have "rs \<noteq> []" using assms(3-5) due by (auto simp: flush_once_def)
  have dist: "distinct (map stored_version rs)"
    unfolding rs_def by (intro versions_distinct due_distinct assms(1))
  have sub: "set rs \<subseteq> set tbl" using due_subset [of now force tbl] by (simp add: rs_def k)
  note f = fair_answer [OF \<open>rs \<noteq> []\<close>, of now takes tbl, unfolded acknowledge_rows version_updates(2) [OF dist]]
  have gone: "r \<in> set rs" if "tbl' = filter (\<lambda>r. stored_version r \<notin> stored_version ` set rs) tbl"
  proof -
    have "stored_version r \<in> stored_version ` set rs" using assms(3,5) that by auto
    then show ?thesis by (rule sent_rows [OF assms(1) sub assms(3)])
  qed
  consider (all) "list_all (\<lambda>r. takes (result_of r)) rs" | (many) "\<not> list_all (\<lambda>r. takes (result_of r)) rs" "length rs > 1"
    | (one) x where "rs = [x]" "\<not> takes (result_of x)"
    using \<open>rs \<noteq> []\<close> by (cases rs) (auto, metis length_greater_0_conv list.pred_inject(1))
  then show ?thesis
  proof cases
    case all
    with f due assms(4) \<open>rs \<noteq> []\<close> have "res = report_outcome Uploaded (length rs)"
      "tbl' = filter (\<lambda>r. stored_version r \<notin> stored_version ` set rs) tbl"
      by (simp_all add: flush_once_def)
    with gone all show ?thesis by (auto simp: report_outcome_def list_all_iff)
  next
    case many
    with f due assms(4) \<open>rs \<noteq> []\<close> have
      "tbl' = sql_update (\<lambda>r. stored_version r \<in> stored_version ` set rs) (isolate_report now) tbl"
      by (simp add: flush_once_def)
    then have "map result_of tbl' = map result_of tbl" by (simp add: map_sql_update_frame)
    with assms(3,5) show ?thesis by (metis image_eqI list.set_map)
  next
    case one
    with f due assms(4) have "res = report_outcome Discarded 1"
      "tbl' = filter (\<lambda>r. stored_version r \<notin> stored_version ` set rs) tbl"
      by (simp_all add: flush_once_def)
    with gone one show ?thesis by (auto simp: report_outcome_def)
  qed
qed

text \<open>
  One bad report never keeps the others back: after a reconnect the dispatcher loop, whatever
  results the Server rejects, empties the outbox within two rounds per report and then sleeps for an
  hour; and in every single request, a report that leaves the outbox was acknowledged if the Server
  takes it, and was rejected on its own otherwise. Reports within the retention are assumed.
\<close>

theorem outbox_drains:
  assumes "outbox_ok tbl" "tbl \<noteq> []" "\<And>j. fresh (clk j) tbl"
  shows "drain (2 * length tbl) clk i True (fair_server takes) tbl = Some (PROCESSING_REPORT_PARKED_RETRY_MS, []) \<and>
    (\<forall>r force res tbl'. r \<in> set tbl \<and> flush_once (clk i) force (fair_server takes) tbl = (Some res, tbl')
        \<and> result_of r \<notin> result_of ` set tbl' \<longrightarrow>
       (if takes (result_of r) then res_state res = Uploaded else res_state res = Discarded))"
proof
  have d: "distinct (map pr_run_id tbl)" using assms(1) by (simp add: outbox_ok_def)
  show "drain (2 * length tbl) clk i True (fair_server takes) tbl = Some (PROCESSING_REPORT_PARKED_RETRY_MS, [])"
    by (rule drain_aux [OF d assms(3,2) pending_work_bound])
  show "\<forall>r force res tbl'. r \<in> set tbl \<and> flush_once (clk i) force (fair_server takes) tbl = (Some res, tbl')
        \<and> result_of r \<notin> result_of ` set tbl' \<longrightarrow>
       (if takes (result_of r) then res_state res = Uploaded else res_state res = Discarded)"
    using removed_by_server [OF d assms(3)] by blast
qed

definition two_reports :: "report list" where
  "two_reports = [new_report 1 (''r'', ''m'', True, None), new_report 2 (''bad'', ''n'', True, None)]"

theorem outbox_drains_witness:
  "drain 4 (\<lambda>_. 9) 0 True (fair_server (\<lambda>v. fst v \<noteq> ''bad'')) two_reports = Some (PROCESSING_REPORT_PARKED_RETRY_MS, [])"
proof -
  have "outbox_ok two_reports" "two_reports \<noteq> []" "fresh 9 two_reports" "2 * length two_reports = 4"
    by (simp_all add: two_reports_def outbox_ok_def new_report_def fresh_def PROCESSING_REPORT_RETENTION_MS_def)
  then show ?thesis using outbox_drains [of two_reports "\<lambda>_. 9" 0 "\<lambda>v. fst v \<noteq> ''bad''"] by simp
qed

end
