(* ===== verification/Inbox_Planner.thy ===== *)
theory Inbox_Planner
  imports Inbox_Turns
begin

section \<open>The Inbox planner\<close>

text \<open>
  \<open>agent/inbox_scheduler.py\<close>: the leading-prefix planner, the resolution of a head that cannot fit
  and the offer of a notice to an active turn; \<open>agent/global_inbox_types.py\<close>: routes and planned
  turns; \<open>agent/global_inbox_runtime.py\<close>: the batch loop \<open>_plan_bounded_batch\<close>, which plans, has
  an unfit head quarantined in the store and charges the wrapper around the batch. The formatter,
  the token estimator, the unfit policy and the delivery are the caller's and are arguments. A text
  is its UTF-8 bytes, so \<open>len(text.encode("utf-8"))\<close> is its length.
\<close>

definition MAX_MESSAGES :: int where "MAX_MESSAGES = 50"
definition MAX_ESTIMATED_TOKENS :: int where "MAX_ESTIMATED_TOKENS = 32000"
definition MAX_FORMATTED_BYTES :: int where "MAX_FORMATTED_BYTES = 96000"

subsection \<open>Offering a notice\<close>

datatype NoticeDeliveryCapability = DIRECT | GATED | NEXT_TURN

text \<open>\<open>InboxNoticeDelivery.offer\<close>: whether the offer is made, and its answer; a delivery that is
  not made leaves the state of the provider \<open>'p\<close> alone. The provider answers with a Python value,
  of which only \<open>True\<close> counts (\<open>Some True\<close>).\<close>

definition offer ::
  "NoticeDeliveryCapability \<Rightarrow> string \<Rightarrow> string \<Rightarrow> ('p \<Rightarrow> bool option \<times> 'p) \<Rightarrow> 'p \<Rightarrow> bool \<times> 'p" where
  "offer capability named_turn_id active_turn_id deliver p =
     (if named_turn_id = [] \<or> named_turn_id \<noteq> active_turn_id then (False, p)
      else if capability = NEXT_TURN then (False, p)
      else let (result, p') = deliver p in (result = Some True, p'))"

subsection \<open>The leading-prefix planner\<close>

text \<open>What a formatter or an estimator may return: the planner checks the type at run time. The
  default estimate of a text is its size, at least one.\<close>

datatype estimate = EstimateBool bool | EstimateInt int | EstimateOther

type_synonym formatter = "message_row \<Rightarrow> string option"
type_synonym estimator = "string \<Rightarrow> estimate"

datatype plan_error = FormatterTypeError | EstimatorValueError

definition formatted_size :: "string \<Rightarrow> int" where
  "formatted_size s = int (length s)"

definition estimate_text :: "estimator option \<Rightarrow> string \<Rightarrow> plan_error + int" where
  "estimate_text est s =
     (case (case est of Some f \<Rightarrow> f s | None \<Rightarrow> EstimateInt (max 1 (formatted_size s))) of
        EstimateInt i \<Rightarrow> if i < 0 then Inl EstimatorValueError else Inr i
      | _ \<Rightarrow> Inl EstimatorValueError)"

text \<open>The order-preserving loops with a set of seen keys, over messages and over targets.\<close>

fun keep_unseen :: "('a \<Rightarrow> 'k) \<Rightarrow> 'k set \<Rightarrow> 'a list \<Rightarrow> 'a list" where
  "keep_unseen key seen [] = []"
| "keep_unseen key seen (x # xs) =
     (if key x \<in> seen then keep_unseen key seen xs
      else x # keep_unseen key (insert (key x) seen) xs)"

definition unique_items :: "message_row list \<Rightarrow> message_row list" where
  "unique_items xs = keep_unseen envelope_id {} xs"

definition unique_targets :: "message_row list \<Rightarrow> target_parts list" where
  "unique_targets xs = keep_unseen (\<lambda>t. t) {} (map canonical_target_parts xs)"

definition join_reasons :: "string list \<Rightarrow> string" where
  "join_reasons rs = (case rs of [] \<Rightarrow> [] | r # rest \<Rightarrow> r @ concat (map (\<lambda>x. '', '' @ x) rest))"

record selection =
  selected :: "message_row list"
  formatted_selected :: "string list"
  tokens :: int
  byte_count :: int
  sel_unfit_head_id :: "string option"
  sel_unfit_reason :: "string option"

definition cap_reasons :: "selection \<Rightarrow> int \<Rightarrow> int \<Rightarrow> string list" where
  "cap_reasons s est nbytes =
     (if int (length (selected s)) + 1 > MAX_MESSAGES then [''message count cap''] else [])
     @ (if tokens s + est > MAX_ESTIMATED_TOKENS then [''estimated token cap''] else [])
     @ (if byte_count s + nbytes > MAX_FORMATTED_BYTES then [''formatted byte cap''] else [])"

fun select_prefix ::
  "formatter \<Rightarrow> estimator option \<Rightarrow> selection \<Rightarrow> message_row list \<Rightarrow> plan_error + selection" where
  "select_prefix fmt est s [] = Inr s"
| "select_prefix fmt est s (item # rest) =
     (case fmt item of
        None \<Rightarrow> Inl FormatterTypeError
      | Some formatted \<Rightarrow>
          (case estimate_text est formatted of
             Inl e \<Rightarrow> Inl e
           | Inr n \<Rightarrow>
               (let reasons = cap_reasons s n (formatted_size formatted)
                in if reasons \<noteq> [] then
                     Inr (if selected s = []
                          then s\<lparr>sel_unfit_head_id := Some (envelope_id item),
                                 sel_unfit_reason := Some (join_reasons reasons)\<rparr>
                          else s)
                   else select_prefix fmt est
                          (s\<lparr>selected := selected s @ [item],
                             formatted_selected := formatted_selected s @ [formatted],
                             tokens := tokens s + n,
                             byte_count := byte_count s + formatted_size formatted\<rparr>) rest)))"

definition nothing_selected :: selection where
  "nothing_selected = \<lparr>selected = [], formatted_selected = [], tokens = 0, byte_count = 0,
     sel_unfit_head_id = None, sel_unfit_reason = None\<rparr>"

record PlannedBatch =
  batch_items :: "message_row list"
  batch_message_ids :: "string list"
  formatted_messages :: "string list"
  target_projections :: "target_parts list"
  pending_target_projections :: "target_parts list"
  estimated_tokens :: int
  formatted_bytes :: int
  more_available :: bool
  unfit_head_id :: "string option"
  unfit_reason :: "string option"

definition plan :: "formatter \<Rightarrow> estimator option \<Rightarrow> message_row list \<Rightarrow> plan_error + PlannedBatch" where
  "plan fmt est xs =
     (let unique = unique_items xs
      in case select_prefix fmt est nothing_selected unique of
           Inl e \<Rightarrow> Inl e
         | Inr s \<Rightarrow>
             (let consumed = length (selected s)
              in Inr \<lparr>batch_items = selected s,
                      batch_message_ids = map envelope_id (selected s),
                      formatted_messages = formatted_selected s,
                      target_projections = unique_targets (selected s),
                      pending_target_projections = unique_targets (drop consumed unique),
                      estimated_tokens = tokens s,
                      formatted_bytes = byte_count s,
                      more_available = consumed < length unique,
                      unfit_head_id = sel_unfit_head_id s,
                      unfit_reason = sel_unfit_reason s\<rparr>))"

subsection \<open>A head that cannot fit\<close>

text \<open>\<open>resolve_unfit_head\<close>: the policy decides, once, whether the head is given up; then the
  guarded quarantine runs. A policy takes the identifier, or the identifier and the reason. Both act
  on the state \<open>'s\<close>.\<close>

datatype 's unfit_policy =
    PolicyWithReason "string \<Rightarrow> string \<Rightarrow> 's \<Rightarrow> bool \<times> 's"
  | PolicyIdOnly "string \<Rightarrow> 's \<Rightarrow> bool \<times> 's"

definition resolve_unfit_head ::
  "PlannedBatch \<Rightarrow> 's unfit_policy \<Rightarrow> (string \<Rightarrow> string \<Rightarrow> 's \<Rightarrow> bool \<times> 's) \<Rightarrow> 's \<Rightarrow> bool \<times> 's" where
  "resolve_unfit_head batch policy quarantine s =
     (case unfit_head_id batch of
        None \<Rightarrow> (False, s)
      | Some hid \<Rightarrow>
          (let reason = (case unfit_reason batch of
                           Some r \<Rightarrow> if r = [] then ''oldest item cannot fit'' else r
                         | None \<Rightarrow> ''oldest item cannot fit'');
               (still_unfit, s1) = (case policy of
                                      PolicyWithReason p \<Rightarrow> p hid reason s
                                    | PolicyIdOnly p \<Rightarrow> p hid s)
           in if \<not> still_unfit then (False, s1) else quarantine hid reason s1))"

subsection \<open>Routes and planned turns\<close>

text \<open>\<open>MessageRoute.target\<close> rebuilds the tuple that \<open>route_for\<close> took apart.\<close>

record MessageRoute =
  route_envelope_id :: string
  route_kind :: string
  route_space_id :: string
  route_channel_id :: string
  route_thread_root_id :: string
  route_dm_peer :: string

definition route_for :: "message_row \<Rightarrow> MessageRoute" where
  "route_for item =
     (case canonical_target_parts item of
        DmTarget peer \<Rightarrow>
          \<lparr>route_envelope_id = envelope_id item, route_kind = ''dm'', route_space_id = [],
           route_channel_id = [], route_thread_root_id = [], route_dm_peer = peer\<rparr>
      | ThreadTarget sp ch root \<Rightarrow>
          \<lparr>route_envelope_id = envelope_id item, route_kind = ''thread'', route_space_id = sp,
           route_channel_id = ch, route_thread_root_id = root, route_dm_peer = []\<rparr>
      | ChannelTarget sp ch \<Rightarrow>
          \<lparr>route_envelope_id = envelope_id item, route_kind = ''channel'', route_space_id = sp,
           route_channel_id = ch, route_thread_root_id = [], route_dm_peer = []\<rparr>)"

definition route_target :: "MessageRoute \<Rightarrow> target_parts" where
  "route_target r =
     (if route_kind r = ''dm'' then DmTarget (route_dm_peer r)
      else if route_kind r = ''thread''
           then ThreadTarget (route_space_id r) (route_channel_id r) (route_thread_root_id r)
      else ChannelTarget (route_space_id r) (route_channel_id r))"

text \<open>\<open>json.dumps\<close> as \<open>_target_summary\<close> calls it, with \<open>ensure_ascii\<close>: a code point outside
  printable ASCII is written as \<open>\u\<close> escapes, one outside the basic plane as a surrogate pair. The
  bytes of a code point are read back from UTF-8.\<close>

definition hex4 :: "nat \<Rightarrow> string" where
  "hex4 n = [CHR 0x5C, CHR ''u'', hex_digit (n div 4096 mod 16), hex_digit (n div 256 mod 16),
             hex_digit (n div 16 mod 16), hex_digit (n mod 16)]"

definition escape_point :: "nat \<Rightarrow> string" where
  "escape_point n =
     (if n < 65536 then hex4 n
      else hex4 (55296 + (n - 65536) div 1024 mod 1024) @ hex4 (56320 + (n - 65536) mod 1024))"

definition byte_of :: "char \<Rightarrow> nat" where
  "byte_of c = of_char c"

fun escape_ascii :: "string \<Rightarrow> string" where
  "escape_ascii [] = []"
| "escape_ascii (a # s) =
     (if byte_of a < 127 then escape_char a @ escape_ascii s
      else if byte_of a < 192 then escape_point (byte_of a) @ escape_ascii s
      else if byte_of a < 224 then
        (case s of
           b # s' \<Rightarrow> escape_point (byte_of a mod 32 * 64 + byte_of b mod 64) @ escape_ascii s'
         | _ \<Rightarrow> [])
      else if byte_of a < 240 then
        (case s of
           b # c # s' \<Rightarrow>
             escape_point (byte_of a mod 16 * 4096 + byte_of b mod 64 * 64 + byte_of c mod 64) @ escape_ascii s'
         | _ \<Rightarrow> [])
      else
        (case s of
           b # c # d # s' \<Rightarrow>
             escape_point (byte_of a mod 8 * 262144 + byte_of b mod 64 * 4096 + byte_of c mod 64 * 64
                           + byte_of d mod 64) @ escape_ascii s'
         | _ \<Rightarrow> []))"

definition dump_ascii :: "string \<Rightarrow> string" where
  "dump_ascii s = CHR 0x22 # escape_ascii s @ [CHR 0x22]"

fun target_fields :: "target_parts \<Rightarrow> string list" where
  "target_fields (DmTarget p) = [''dm'', p]"
| "target_fields (ThreadTarget sp ch root) = [''thread'', sp, ch, root]"
| "target_fields (ChannelTarget sp ch) = [''channel'', sp, ch]"

definition dump_targets :: "target_parts list \<Rightarrow> string" where
  "dump_targets ts =
     CHR ''['' # intersperse_comma
       (map (\<lambda>t. CHR ''['' # intersperse_comma (map dump_ascii (target_fields t)) @ '']'') ts) @ '']''"

definition target_summary :: "target_parts list \<Rightarrow> nat \<Rightarrow> bool \<Rightarrow> target_parts list \<Rightarrow> string" where
  "target_summary targets n more_pending pending_targets =
     CHR ''{'' # intersperse_comma
       [dump_ascii ''version'' @ '':2'',
        dump_ascii ''message_count'' @ '':'' @ nat_dec n,
        dump_ascii ''more_pending'' @ '':'' @ (if more_pending then ''true'' else ''false''),
        dump_ascii ''pending_targets'' @ '':'' @ dump_targets pending_targets,
        dump_ascii ''targets'' @ '':'' @ dump_targets targets] @ ''}''"

record PlannedTurn =
  planned_turn_id :: string
  planning_cycle_key :: string
  planned_message_ids :: "string list"
  planned_items :: "message_row list"
  planned_routes :: "MessageRoute list"
  planned_targets :: "target_parts list"
  planned_pending_targets :: "target_parts list"
  planned_target_summary :: string
  formatted_blocks :: "string list"
  provider_input :: string
  planned_tokens :: int
  wrapper_overhead_tokens :: int
  planned_bytes :: int
  wrapper_overhead_bytes :: int
  planned_more_available :: bool
  notice_generation :: int
  notice_message_ids :: "string list"
  requires_encryption :: bool

definition newline :: string where "newline = [CHR 0x0A]"

definition join_lines :: "string list \<Rightarrow> string" where
  "join_lines xs = (case xs of [] \<Rightarrow> [] | x # rest \<Rightarrow> x @ concat (map (\<lambda>y. newline @ y) rest))"

text \<open>\<open>_from_batch\<close>. The two identifiers are drawn by the caller when it names none: \<open>fresh\<close> is
  the pair of generated ones. The runtime calls its estimator directly here, without the checks of
  the planner, so it is a plain function.\<close>

definition from_batch ::
  "(string \<Rightarrow> int) \<Rightarrow> string \<times> string \<Rightarrow> string option \<Rightarrow> string option \<Rightarrow> PlannedBatch \<Rightarrow> PlannedTurn option" where
  "from_batch est fresh turn_id cycle_key batch =
     (if batch_items batch = [] then None
      else let routes = map route_for (batch_items batch);
               targets = keep_unseen (\<lambda>t. t) {} (map route_target routes);
               summary = target_summary targets (length (batch_items batch)) (more_available batch)
                           (pending_target_projections batch);
               prefix = ''<global_inbox_turn>'' @ newline @ summary @ newline;
               suffix = newline @ ''</global_inbox_turn>''
           in Some \<lparr>planned_turn_id = (case turn_id of Some t \<Rightarrow> if t = [] then fst fresh else t
                                                   | None \<Rightarrow> fst fresh),
                    planning_cycle_key = (case cycle_key of Some t \<Rightarrow> if t = [] then snd fresh else t
                                                          | None \<Rightarrow> snd fresh),
                    planned_message_ids = batch_message_ids batch,
                    planned_items = batch_items batch,
                    planned_routes = routes,
                    planned_targets = targets,
                    planned_pending_targets = pending_target_projections batch,
                    planned_target_summary = summary,
                    formatted_blocks = formatted_messages batch,
                    provider_input = prefix @ join_lines (formatted_messages batch) @ suffix,
                    planned_tokens = estimated_tokens batch,
                    wrapper_overhead_tokens = est (prefix @ suffix),
                    planned_bytes = formatted_bytes batch,
                    wrapper_overhead_bytes = formatted_size (prefix @ suffix),
                    planned_more_available = more_available batch,
                    notice_generation = 0,
                    notice_message_ids = [],
                    requires_encryption = list_ex is_encrypted (batch_items batch)\<rparr>)"

subsection \<open>The batch loop\<close>

text \<open>\<open>xs[:n]\<close>, which counts a negative bound from the end.\<close>

definition py_prefix :: "int \<Rightarrow> 'a list \<Rightarrow> 'a list" where
  "py_prefix n xs = (if n \<ge> 0 then take (nat n) xs else take (nat (int (length xs) + n)) xs)"

definition limited :: "int option \<Rightarrow> 'a list \<Rightarrow> 'a list" where
  "limited max_items xs = (case max_items of Some n \<Rightarrow> py_prefix n xs | None \<Rightarrow> xs)"

definition remaining_items :: "PlannedBatch \<Rightarrow> message_row list \<Rightarrow> message_row list" where
  "remaining_items batch pending_universe =
     keep_unseen envelope_id (set (batch_message_ids batch)) pending_universe"

definition with_remaining :: "PlannedBatch \<Rightarrow> message_row list \<Rightarrow> PlannedBatch" where
  "with_remaining batch pending_universe =
     batch\<lparr>pending_target_projections := unique_targets (remaining_items batch pending_universe),
           more_available := remaining_items batch pending_universe \<noteq> []\<rparr>"

definition within_caps :: "PlannedTurn \<Rightarrow> bool" where
  "within_caps p \<longleftrightarrow>
     planned_bytes p + wrapper_overhead_bytes p \<le> MAX_FORMATTED_BYTES \<and>
     planned_tokens p + wrapper_overhead_tokens p \<le> MAX_ESTIMATED_TOKENS"

text \<open>What the caller of the loop provides: the formatter, the estimator, the unfit policy, the
  clock at the \<open>n\<close>-th round, the generated identifiers, and the three arguments of
  \<open>plan_pending\<close>.\<close>

record planning =
  pl_formatter :: formatter
  pl_estimator :: "string \<Rightarrow> int"
  pl_policy :: "db unfit_policy"
  pl_clock :: "nat \<Rightarrow> int"
  pl_fresh :: "string \<times> string"
  pl_max_items :: "int option"
  pl_turn_id :: "string option"
  pl_cycle_key :: "string option"

definition plan_with :: "planning \<Rightarrow> message_row list \<Rightarrow> plan_error + PlannedBatch" where
  "plan_with cfg pending = plan (pl_formatter cfg) (Some (\<lambda>s. EstimateInt (pl_estimator cfg s))) pending"

definition planned_of :: "planning \<Rightarrow> PlannedBatch \<Rightarrow> PlannedTurn option" where
  "planned_of cfg batch =
     from_batch (pl_estimator cfg) (pl_fresh cfg) (pl_turn_id cfg) (pl_cycle_key cfg) batch"

text \<open>\<open>_plan_bounded_batch\<close>; \<open>None\<close> would be a loop that never ends.\<close>

partial_function (option) plan_rounds ::
  "planning \<Rightarrow> nat \<Rightarrow> message_row list \<Rightarrow> message_row list \<Rightarrow> db
    \<Rightarrow> ((plan_error + PlannedTurn option) \<times> db) option" where
  [code]: "plan_rounds cfg n pending_universe pending d =
     (if pending = [] then Some (Inr None, d)
      else case plan_with cfg pending of
        Inl e \<Rightarrow> Some (Inl e, d)
      | Inr batch \<Rightarrow>
          (if unfit_head_id batch \<noteq> None \<and> unfit_head_id batch \<noteq> Some [] then
             (case resolve_unfit_head batch (pl_policy cfg) (quarantine_pending (pl_clock cfg n)) d of
                (changed, d1) \<Rightarrow>
                  if changed
                  then plan_rounds cfg (Suc n) (get_pending_all d1)
                         (limited (pl_max_items cfg) (get_pending_all d1)) d1
                  else Some (Inr None, d1))
           else case planned_of cfg (with_remaining batch pending_universe) of
             None \<Rightarrow> Some (Inr None, d)
           | Some planned \<Rightarrow>
               if within_caps planned then Some (Inr (Some planned), d)
               else plan_rounds cfg (Suc n) pending_universe
                      (py_prefix (int (length (batch_items batch)) - 1) pending) d))"

definition plan_bounded_batch ::
  "planning \<Rightarrow> message_row list \<Rightarrow> db \<Rightarrow> ((plan_error + PlannedTurn option) \<times> db) option" where
  "plan_bounded_batch cfg pending_universe d =
     plan_rounds cfg 0 pending_universe (limited (pl_max_items cfg) pending_universe) d"

end
