(* ===== verification/Planner_Props.thy ===== *)
theory Planner_Props
  imports Inbox_Planner Read_Props
begin

section \<open>What a plan holds\<close>

text \<open>
  The planner takes the longest prefix of the distinct messages that stays within the three caps,
  and the batch loop always returns: each round either takes a row out of the pending set or
  shortens the batch. A planned turn is within the caps with its wrapper.
\<close>

subsection \<open>Seen-set loops\<close>

lemma set_keep_unseen: "key ` set (keep_unseen key seen xs) = key ` set xs - seen"
  by (induction xs arbitrary: seen) auto

lemma keep_unseen_subset: "set (keep_unseen key seen xs) \<subseteq> set xs"
  by (induction xs arbitrary: seen) auto

lemma keep_unseen_distinct: "distinct (map key (keep_unseen key seen xs))"
proof (induction xs arbitrary: seen)
  case (Cons x xs)
  then show ?case using set_keep_unseen [of key "insert (key x) seen" xs] by auto
qed simp

lemma keep_unseen_id: "distinct (map key xs) \<Longrightarrow> key ` set xs \<inter> seen = {} \<Longrightarrow> keep_unseen key seen xs = xs"
proof (induction xs arbitrary: seen)
  case (Cons x xs)
  then have "keep_unseen key (insert (key x) seen) xs = xs" by (intro Cons.IH) auto
  with Cons.prems show ?case by simp
qed simp

lemma keep_unseen_length: "length (keep_unseen key seen xs) \<le> length xs"
proof (induction xs arbitrary: seen)
  case (Cons x xs)
  from Cons [of "insert (key x) seen"] Cons [of seen] show ?case by simp
qed simp

subsection \<open>The longest fitting prefix\<close>

text \<open>What one message costs: its tokens and its bytes, if the formatter and the estimator give
  values of the right type; and when a list of messages is within the caps.\<close>

definition item_cost :: "formatter \<Rightarrow> estimator option \<Rightarrow> message_row \<Rightarrow> (int \<times> int) option" where
  "item_cost fmt est item =
     (case fmt item of
        None \<Rightarrow> None
      | Some s \<Rightarrow> (case estimate_text est s of Inl e \<Rightarrow> None | Inr n \<Rightarrow> Some (n, formatted_size s)))"

definition cost_tokens :: "formatter \<Rightarrow> estimator option \<Rightarrow> message_row list \<Rightarrow> int" where
  "cost_tokens fmt est xs = sum_list (map (\<lambda>i. case item_cost fmt est i of Some c \<Rightarrow> fst c | None \<Rightarrow> 0) xs)"

definition cost_bytes :: "formatter \<Rightarrow> estimator option \<Rightarrow> message_row list \<Rightarrow> int" where
  "cost_bytes fmt est xs = sum_list (map (\<lambda>i. case item_cost fmt est i of Some c \<Rightarrow> snd c | None \<Rightarrow> 0) xs)"

definition batch_fits :: "formatter \<Rightarrow> estimator option \<Rightarrow> message_row list \<Rightarrow> bool" where
  "batch_fits fmt est xs \<longleftrightarrow>
     list_all (\<lambda>i. item_cost fmt est i \<noteq> None) xs \<and> int (length xs) \<le> MAX_MESSAGES \<and>
     cost_tokens fmt est xs \<le> MAX_ESTIMATED_TOKENS \<and> cost_bytes fmt est xs \<le> MAX_FORMATTED_BYTES"

lemma item_cost_nonneg: "item_cost fmt est i = Some (n, b) \<Longrightarrow> 0 \<le> n \<and> 0 \<le> b"
  by (auto simp: item_cost_def estimate_text_def formatted_size_def
      split: option.splits sum.splits estimate.splits if_splits)

lemma cost_append:
  "cost_tokens fmt est (xs @ ys) = cost_tokens fmt est xs + cost_tokens fmt est ys"
  "cost_bytes fmt est (xs @ ys) = cost_bytes fmt est xs + cost_bytes fmt est ys"
  by (simp_all add: cost_tokens_def cost_bytes_def)

lemma cost_one:
  "item_cost fmt est i = Some (n, b) \<Longrightarrow> cost_tokens fmt est [i] = n"
  "item_cost fmt est i = Some (n, b) \<Longrightarrow> cost_bytes fmt est [i] = b"
  by (simp_all add: cost_tokens_def cost_bytes_def)

lemma cost_nonneg: "0 \<le> cost_tokens fmt est xs" "0 \<le> cost_bytes fmt est xs"
  unfolding cost_tokens_def cost_bytes_def
  by (intro sum_list_nonneg; use item_cost_nonneg in \<open>fastforce split: option.splits\<close>)+

lemma batch_fits_prefix: "batch_fits fmt est (xs @ ys) \<Longrightarrow> batch_fits fmt est xs"
  using cost_nonneg [of fmt est ys] by (auto simp: batch_fits_def cost_append)

lemma batch_fits_take: "batch_fits fmt est (take k xs) \<Longrightarrow> j \<le> k \<Longrightarrow> batch_fits fmt est (take j xs)"
  using batch_fits_prefix [of fmt est "take j xs" "take (k - j) (drop j xs)"]
  by (metis le_add_diff_inverse take_add)

definition tallies :: "formatter \<Rightarrow> estimator option \<Rightarrow> selection \<Rightarrow> bool" where
  "tallies fmt est s \<longleftrightarrow>
     batch_fits fmt est (selected s) \<and> tokens s = cost_tokens fmt est (selected s) \<and>
     byte_count s = cost_bytes fmt est (selected s) \<and>
     map Some (formatted_selected s) = map fmt (selected s) \<and>
     sel_unfit_head_id s = None \<and> sel_unfit_reason s = None"

lemma cap_reasons_fits:
  assumes "tallies fmt est s" "item_cost fmt est i = Some (n, b)"
  shows "cap_reasons s n b = [] \<longleftrightarrow> batch_fits fmt est (selected s @ [i])"
  using assms by (auto simp: tallies_def cap_reasons_def batch_fits_def cost_append cost_one)

lemma item_cost_Some:
  "item_cost fmt est i = Some (n, b) \<longleftrightarrow>
     (\<exists>s. fmt i = Some s \<and> estimate_text est s = Inr n \<and> b = formatted_size s)"
  by (auto simp: item_cost_def split: option.splits sum.splits)

text \<open>Where the loop stops, by the number of messages it takes from the rest.\<close>

definition stops_at ::
  "formatter \<Rightarrow> estimator option \<Rightarrow> selection \<Rightarrow> message_row list \<Rightarrow> nat \<Rightarrow> selection \<Rightarrow> bool" where
  "stops_at fmt est s rest k s' \<longleftrightarrow>
     k \<le> length rest \<and> tallies fmt est (s'\<lparr>sel_unfit_head_id := None, sel_unfit_reason := None\<rparr>) \<and>
     selected s' = selected s @ take k rest \<and>
     (k < length rest \<longrightarrow> \<not> batch_fits fmt est (selected s @ take (Suc k) rest)) \<and>
     sel_unfit_head_id s' =
       (if selected s' = [] \<and> rest \<noteq> [] then Some (envelope_id (hd rest)) else None)"

lemma select_prefix_stops:
  assumes "tallies fmt est s" "select_prefix fmt est s rest = Inr s'"
  shows "\<exists>k. stops_at fmt est s rest k s'"
  using assms
proof (induction rest arbitrary: s)
  case Nil
  then have "stops_at fmt est s [] 0 s'" by (simp add: stops_at_def tallies_def)
  then show ?case ..
next
  case (Cons i rest)
  from Cons.prems(2) obtain t n where fmt: "fmt i = Some t" "estimate_text est t = Inr n"
    by (auto split: option.splits sum.splits)
  let ?b = "formatted_size t"
  have cost: "item_cost fmt est i = Some (n, ?b)" using fmt by (simp add: item_cost_Some)
  note step = cap_reasons_fits [OF Cons.prems(1) cost]
  show ?case
  proof (cases "cap_reasons s n ?b = []")
    case False
    with step have "\<not> batch_fits fmt est (selected s @ [i])" by simp
    moreover from False Cons.prems(2) fmt have
      "s' = (if selected s = [] then s\<lparr>sel_unfit_head_id := Some (envelope_id i),
         sel_unfit_reason := Some (join_reasons (cap_reasons s n ?b))\<rparr> else s)"
      by (simp add: Let_def split: if_splits)
    ultimately have "stops_at fmt est s (i # rest) 0 s'"
      using Cons.prems(1) by (auto simp: stops_at_def tallies_def)
    then show ?thesis ..
  next
    case True
    let ?s = "s\<lparr>selected := selected s @ [i], formatted_selected := formatted_selected s @ [t],
        tokens := tokens s + n, byte_count := byte_count s + ?b\<rparr>"
    have "tallies fmt est ?s"
      using Cons.prems(1) step True fmt cost by (simp add: tallies_def cost_append cost_one)
    moreover have "select_prefix fmt est ?s rest = Inr s'" using Cons.prems(2) fmt True by simp
    ultimately obtain k where "stops_at fmt est ?s rest k s'" using Cons.IH by blast
    then have "stops_at fmt est s (i # rest) (Suc k) s'" by (simp add: stops_at_def)
    then show ?thesis ..
  qed
qed

lemma select_prefix_raises:
  assumes "tallies fmt est s"
  shows "(\<exists>e. select_prefix fmt est s rest = Inl e) \<longleftrightarrow>
     (\<exists>k < length rest. batch_fits fmt est (selected s @ take k rest) \<and> item_cost fmt est (rest ! k) = None)"
  using assms
proof (induction rest arbitrary: s)
  case (Cons i rest)
  have bf: "batch_fits fmt est (selected s)" using Cons.prems by (simp add: tallies_def)
  show ?case
  proof (cases "item_cost fmt est i")
    case None
    then have "\<exists>e. select_prefix fmt est s (i # rest) = Inl e"
      by (auto simp: item_cost_def split: option.splits sum.splits)
    moreover have "\<exists>k < length (i # rest). batch_fits fmt est (selected s @ take k (i # rest)) \<and>
        item_cost fmt est ((i # rest) ! k) = None"
      using None bf by (intro exI [of _ 0]) simp
    ultimately show ?thesis by blast
  next
    case (Some c)
    then obtain n b where cost: "item_cost fmt est i = Some (n, b)" by (cases c) auto
    then obtain t where fmt: "fmt i = Some t" "estimate_text est t = Inr n" "b = formatted_size t"
      by (auto simp: item_cost_Some)
    note step = cap_reasons_fits [OF Cons.prems cost]
    have shift: "(\<exists>k < length (i # rest). batch_fits fmt est (selected s @ take k (i # rest)) \<and>
        item_cost fmt est ((i # rest) ! k) = None) \<longleftrightarrow>
      (\<exists>k < length rest. batch_fits fmt est ((selected s @ [i]) @ take k rest) \<and>
        item_cost fmt est (rest ! k) = None)"
      using Some by (auto simp: Ex_less_Suc2)
    show ?thesis
    proof (cases "cap_reasons s n b = []")
      case False
      then have "\<not> (\<exists>e. select_prefix fmt est s (i # rest) = Inl e)" using fmt by simp
      moreover have "\<not> batch_fits fmt est ((selected s @ [i]) @ take k rest)" for k
        using False step batch_fits_prefix by blast
      ultimately show ?thesis unfolding shift by blast
    next
      case True
      let ?s = "s\<lparr>selected := selected s @ [i], formatted_selected := formatted_selected s @ [t],
          tokens := tokens s + n, byte_count := byte_count s + b\<rparr>"
      have "tallies fmt est ?s"
        using Cons.prems step True fmt cost by (simp add: tallies_def cost_append cost_one)
      from Cons.IH [OF this] show ?thesis unfolding shift using fmt True by simp
    qed
  qed
qed simp

lemma tallies_nothing: "tallies fmt est nothing_selected"
  by (simp add: tallies_def nothing_selected_def batch_fits_def cost_tokens_def cost_bytes_def
      MAX_MESSAGES_def MAX_ESTIMATED_TOKENS_def MAX_FORMATTED_BYTES_def)

lemma plan_select:
  assumes "plan fmt est xs = Inr b"
  obtains s k where "stops_at fmt est nothing_selected (unique_items xs) k s"
    "batch_items b = selected s" "batch_message_ids b = map envelope_id (selected s)"
    "estimated_tokens b = tokens s" "formatted_bytes b = byte_count s"
    "formatted_messages b = formatted_selected s" "unfit_head_id b = sel_unfit_head_id s"
    "more_available b \<longleftrightarrow> length (selected s) < length (unique_items xs)"
proof -
  from assms obtain s where sel: "select_prefix fmt est nothing_selected (unique_items xs) = Inr s"
    and b: "batch_items b = selected s" "batch_message_ids b = map envelope_id (selected s)"
    "estimated_tokens b = tokens s" "formatted_bytes b = byte_count s"
    "formatted_messages b = formatted_selected s" "unfit_head_id b = sel_unfit_head_id s"
    "more_available b \<longleftrightarrow> length (selected s) < length (unique_items xs)"
    by (auto simp: plan_def Let_def split: sum.splits)
  from select_prefix_stops [OF tallies_nothing sel] obtain k
    where "stops_at fmt est nothing_selected (unique_items xs) k s" ..
  with b show thesis by (rule_tac that)
qed

lemma plan_raises_iff:
  "(\<exists>e. plan fmt est xs = Inl e) \<longleftrightarrow>
     (\<exists>k < length (unique_items xs). batch_fits fmt est (take k (unique_items xs)) \<and>
        item_cost fmt est (unique_items xs ! k) = None)"
  using select_prefix_raises [OF tallies_nothing, of fmt est "unique_items xs"]
  by (auto simp: plan_def nothing_selected_def Let_def split: sum.splits)

definition is_longest_prefix :: "('a list \<Rightarrow> bool) \<Rightarrow> 'a list \<Rightarrow> 'a list \<Rightarrow> bool" where
  "is_longest_prefix P xs ys \<longleftrightarrow>
     ys = take (length ys) xs \<and> (\<forall>k \<le> length xs. P (take k xs) \<longleftrightarrow> k \<le> length ys)"

lemma stops_at_longest:
  assumes "stops_at fmt est nothing_selected xs k s"
  shows "is_longest_prefix (batch_fits fmt est) xs (selected s)"
proof -
  have none: "selected nothing_selected = []" by (simp add: nothing_selected_def)
  from assms have k: "k \<le> length xs" "selected s = take k xs" "batch_fits fmt est (take k xs)"
    "k < length xs \<Longrightarrow> \<not> batch_fits fmt est (take (Suc k) xs)"
    by (auto simp: stops_at_def none tallies_def)
  have "batch_fits fmt est (take j xs) \<longleftrightarrow> j \<le> k" if "j \<le> length xs" for j
  proof
    assume fits: "batch_fits fmt est (take j xs)"
    show "j \<le> k"
    proof (rule ccontr)
      assume "\<not> j \<le> k"
      with that have "k < length xs" "Suc k \<le> j" by simp_all
      with k(4) batch_fits_take [OF fits] show False by blast
    qed
  qed (use k batch_fits_take in blast)
  with k show ?thesis by (simp add: is_longest_prefix_def)
qed


text \<open>
  C25: the plan of a list of pending messages takes the longest prefix of its distinct messages that
  stays within the message, token and byte caps, in order, with the text the formatter gave for each;
  its totals are the sums over that prefix; it reports more work exactly when a message is left; and
  it names an unfit head exactly when the first message alone does not fit.
\<close>

theorem plan_longest_prefix:
  assumes "plan fmt est xs = Inr b"
  shows "is_longest_prefix (batch_fits fmt est) (unique_items xs) (batch_items b) \<and>
    distinct (map envelope_id (unique_items xs)) \<and>
    envelope_id ` set (unique_items xs) = envelope_id ` set xs \<and>
    batch_message_ids b = map envelope_id (batch_items b) \<and>
    map Some (formatted_messages b) = map fmt (batch_items b) \<and>
    estimated_tokens b = cost_tokens fmt est (batch_items b) \<and>
    formatted_bytes b = cost_bytes fmt est (batch_items b) \<and>
    (more_available b \<longleftrightarrow> batch_items b \<noteq> unique_items xs) \<and>
    unfit_head_id b = (if batch_items b = [] \<and> xs \<noteq> [] then Some (envelope_id (hd xs)) else None)"
proof -
  from assms obtain s k where st: "stops_at fmt est nothing_selected (unique_items xs) k s"
    and b: "batch_items b = selected s" "batch_message_ids b = map envelope_id (selected s)"
    "estimated_tokens b = tokens s" "formatted_bytes b = byte_count s"
    "formatted_messages b = formatted_selected s" "unfit_head_id b = sel_unfit_head_id s"
    "more_available b \<longleftrightarrow> length (selected s) < length (unique_items xs)"
    by (rule plan_select)
  note long = stops_at_longest [OF st]
  have head: "hd (unique_items xs) = hd xs" "unique_items xs = [] \<longleftrightarrow> xs = []"
    by (cases xs; simp add: unique_items_def)+
  have "more_available b \<longleftrightarrow> batch_items b \<noteq> unique_items xs"
  proof -
    have "selected s = take (length (selected s)) (unique_items xs)"
      using long by (simp add: is_longest_prefix_def)
    then show ?thesis unfolding b by (metis linorder_not_less nat_less_le take_all_iff)
  qed
  moreover have "unfit_head_id b =
      (if batch_items b = [] \<and> xs \<noteq> [] then Some (envelope_id (hd xs)) else None)"
  proof -
    have "sel_unfit_head_id s =
        (if selected s = [] \<and> unique_items xs \<noteq> [] then Some (envelope_id (hd (unique_items xs))) else None)"
      using st by (simp only: stops_at_def)
    then show ?thesis unfolding b head .
  qed
  ultimately show ?thesis
    using long st keep_unseen_distinct [of envelope_id "{}" xs] set_keep_unseen [of envelope_id "{}" xs]
    by (simp add: b stops_at_def tallies_def unique_items_def)
qed

theorem plan_longest_prefix_witness:
  "\<exists>b. plan (\<lambda>m. Some (envelope_id m)) None (messages two_db @ messages two_db) = Inr b \<and>
     is_longest_prefix (batch_fits (\<lambda>m. Some (envelope_id m)) None) (unique_items (messages two_db @ messages two_db))
       (batch_items b) \<and> batch_message_ids b = [''e1'', ''e2''] \<and> estimated_tokens b = 4"
proof -
  let ?fmt = "\<lambda>m :: message_row. Some (envelope_id m)" and ?xs = "messages two_db @ messages two_db"
  have "case plan ?fmt None ?xs of
      Inr b \<Rightarrow> batch_message_ids b = [''e1'', ''e2''] \<and> estimated_tokens b = 4 | Inl e \<Rightarrow> False"
    by code_simp
  then obtain b where b: "plan ?fmt None ?xs = Inr b" "batch_message_ids b = [''e1'', ''e2'']" "estimated_tokens b = 4"
    by (auto split: sum.splits)
  from plan_longest_prefix [OF b(1)] b show ?thesis by blast
qed

subsection \<open>The batch loop returns\<close>

text \<open>A policy that only answers, like the one the runtime installs, which gives every unfit head
  up.\<close>

fun policy_answers :: "'s unfit_policy \<Rightarrow> string \<Rightarrow> string \<Rightarrow> 's \<Rightarrow> bool \<times> 's" where
  "policy_answers (PolicyWithReason p) hid r s = p hid r s"
| "policy_answers (PolicyIdOnly p) hid r s = p hid s"

definition reads_only :: "'s unfit_policy \<Rightarrow> bool" where
  "reads_only policy \<longleftrightarrow> (\<forall>hid r s. snd (policy_answers policy hid r s) = s)"

definition always_unfit :: "'s unfit_policy" where
  "always_unfit = PolicyWithReason (\<lambda>hid r s. (True, s))"

definition open_rows :: "db \<Rightarrow> nat" where
  "open_rows d = sql_count is_pending (messages d)"

lemma messages_refresh_planned: "messages (refresh_notice_state now x d) = messages d"
  by (simp add: refresh_notice_state_def Let_def)

lemma quarantine_frees:
  assumes "quarantine_pending now eid rsn d = (True, d1)"
  shows "open_rows d1 < open_rows d"
proof -
  define P where "P = (\<lambda>m. envelope_id m = eid \<and> is_pending m)"
  from assms have one: "sql_count P (messages d) = 1"
    and d1: "messages d1 = sql_update P (quarantine_row rsn) (messages d)"
    by (auto simp: quarantine_pending_def P_def Let_def messages_refresh_planned split: if_splits)
  have "length (filter is_pending (map (\<lambda>m. if P m then quarantine_row rsn m else m) ms)) + sql_count P ms
      = length (filter is_pending ms)" for ms
    by (induction ms) (auto simp: P_def sql_count_def quarantine_row_def is_pending_def)
  from this [of "messages d"] one show ?thesis
    by (simp add: open_rows_def d1 sql_count_def sql_update_def)
qed

definition unfit_text :: "PlannedBatch \<Rightarrow> string" where
  "unfit_text batch =
     (case unfit_reason batch of
        Some r \<Rightarrow> if r = [] then ''oldest item cannot fit'' else r
      | None \<Rightarrow> ''oldest item cannot fit'')"

lemma resolve_unfit_head_answers:
  "resolve_unfit_head batch policy quarantine s =
     (case unfit_head_id batch of
        None \<Rightarrow> (False, s)
      | Some hid \<Rightarrow>
          (case policy_answers policy hid (unfit_text batch) s of
             (still, s1) \<Rightarrow> if still then quarantine hid (unfit_text batch) s1 else (False, s1)))"
  unfolding resolve_unfit_head_def unfit_text_def [symmetric] Let_def
  by (cases policy) (auto split: option.splits prod.splits)

lemma resolve_changed:
  assumes res: "resolve_unfit_head b policy (quarantine_pending now) d = (ch, d1)" and ch: "ch"
    and "reads_only policy"
  shows "open_rows d1 < open_rows d"
proof -
  from res ch obtain hid where hid: "unfit_head_id b = Some hid"
    by (auto simp: resolve_unfit_head_answers split: option.splits)
  obtain still where "policy_answers policy hid (unfit_text b) d = (still, d)"
    using assms(3) by (metis reads_only_def prod.collapse)
  with res ch hid have "quarantine_pending now hid (unfit_text b) d = (True, d1)"
    by (simp add: resolve_unfit_head_answers split: if_splits)
  then show ?thesis by (rule quarantine_frees)
qed

lemma plan_items_bound: "plan_with cfg xs = Inr b \<Longrightarrow> length (batch_items b) \<le> length xs"
proof -
  assume "plan_with cfg xs = Inr b"
  then obtain s k where "stops_at (pl_formatter cfg) (Some (\<lambda>s. EstimateInt (pl_estimator cfg s)))
      nothing_selected (unique_items xs) k s" "batch_items b = selected s"
    unfolding plan_with_def by (rule plan_select)
  then have "length (batch_items b) \<le> length (unique_items xs)"
    by (simp add: stops_at_def nothing_selected_def)
  also have "\<dots> \<le> length xs" by (simp add: unique_items_def keep_unseen_length)
  finally show ?thesis .
qed

lemma py_prefix_shorter:
  assumes "0 < n" "n \<le> length xs"
  shows "length (py_prefix (int n - 1) xs) < length xs"
  using assms by (auto simp: py_prefix_def)

text \<open>The result of the loop: a planned turn is cut from a plan of some list of rows and is within
  the caps with its wrapper; no result means that no row was left or that the head was held.\<close>

definition sound_turn :: "planning \<Rightarrow> PlannedTurn \<Rightarrow> bool" where
  "sound_turn cfg t \<longleftrightarrow>
     within_caps t \<and> planned_items t \<noteq> [] \<and>
     planned_message_ids t = map envelope_id (planned_items t) \<and>
     distinct (planned_message_ids t) \<and>
     int (length (planned_items t)) \<le> MAX_MESSAGES \<and>
     map Some (formatted_blocks t) = map (pl_formatter cfg) (planned_items t)"

lemma planned_of_sound:
  assumes plan: "plan_with cfg xs = Inr b" and t: "planned_of cfg (with_remaining b u) = Some t"
    and caps: "within_caps t"
  shows "sound_turn cfg t \<and> planned_items t = batch_items b"
proof -
  let ?est = "Some (\<lambda>s. EstimateInt (pl_estimator cfg s))"
  from t have items: "planned_items t = batch_items b" "batch_items b \<noteq> []"
    "planned_message_ids t = batch_message_ids b" "formatted_blocks t = formatted_messages b"
    by (auto simp: planned_of_def from_batch_def with_remaining_def Let_def split: if_splits)
  from plan obtain s k where st: "stops_at (pl_formatter cfg) ?est nothing_selected (unique_items xs) k s"
    and b: "batch_items b = selected s" "batch_message_ids b = map envelope_id (selected s)"
      "formatted_messages b = formatted_selected s"
    unfolding plan_with_def by (rule plan_select)
  from st have sel: "selected s = take k (unique_items xs)"
    by (simp add: stops_at_def nothing_selected_def)
  from st have "tallies (pl_formatter cfg) ?est (s\<lparr>sel_unfit_head_id := None, sel_unfit_reason := None\<rparr>)"
    by (simp only: stops_at_def)
  then have tl: "batch_fits (pl_formatter cfg) ?est (selected s)"
      "map Some (formatted_selected s) = map (pl_formatter cfg) (selected s)"
    by (simp_all add: tallies_def)
  have "distinct (map envelope_id (selected s))"
    unfolding sel take_map [symmetric] unique_items_def by (intro distinct_take keep_unseen_distinct)
  moreover have "int (length (selected s)) \<le> MAX_MESSAGES" using tl(1) by (simp only: batch_fits_def)
  ultimately show ?thesis using items b tl(2) caps by (simp add: sound_turn_def)
qed

text \<open>The lists the loop works on are prefixes of the pending rows of the store, whose identifiers
  are distinct.\<close>

definition fifo_turn :: "planning \<Rightarrow> db \<Rightarrow> PlannedTurn \<Rightarrow> bool" where
  "fifo_turn cfg d t \<longleftrightarrow>
     sound_turn cfg t \<and> planned_items t = take (length (planned_items t)) (get_pending_all d) \<and>
     (planned_more_available t \<longleftrightarrow> planned_items t \<noteq> get_pending_all d)"

lemma distinct_pending_ids:
  assumes "store_inv d"
  shows "distinct (map envelope_id (get_pending_all d))"
proof -
  have "distinct (map envelope_id (messages d))" using assms by (simp add: store_inv_def inv_messages_def)
  then have "distinct (map envelope_id (filter pending_visible (messages d)))" by (rule distinct_map_filter)
  moreover have "mset (map envelope_id (get_pending_all d)) = mset (map envelope_id (filter pending_visible (messages d)))"
    by (simp add: get_pending_all_def)
  ultimately show ?thesis by (metis mset_eq_imp_distinct_iff)
qed

lemma remaining_after_prefix:
  assumes dist: "distinct (map envelope_id u)" and b: "batch_message_ids b = map envelope_id (take k u)"
  shows "remaining_items b u = drop k u"
proof -
  have skip: "keep_unseen key seen (xs @ ys) = keep_unseen key seen ys" if "key ` set xs \<subseteq> seen"
    for key :: "message_row \<Rightarrow> string" and seen xs ys
    using that by (induction xs) auto
  have "keep_unseen envelope_id (envelope_id ` set (take k u)) (take k u @ drop k u) = drop k u"
  proof -
    have "distinct (map envelope_id (take k u @ drop k u))" using dist by simp
    then have "envelope_id ` set (drop k u) \<inter> envelope_id ` set (take k u) = {}"
      "distinct (map envelope_id (drop k u))"
      unfolding map_append distinct_append by auto
    then show ?thesis by (simp add: skip keep_unseen_id del: append_take_drop_id)
  qed
  then show ?thesis by (simp add: remaining_items_def b)
qed

lemma planned_of_fifo:
  assumes "store_inv d" "plan_with cfg (take m (get_pending_all d)) = Inr b"
    and t: "planned_of cfg (with_remaining b (get_pending_all d)) = Some t" and caps: "within_caps t"
  shows "fifo_turn cfg d t"
proof -
  let ?u = "get_pending_all d"
  have dist: "distinct (map envelope_id ?u)" using assms(1) by (rule distinct_pending_ids)
  have "unique_items (take m ?u) = take m ?u"
    unfolding unique_items_def by (rule keep_unseen_id) (use distinct_take [OF dist] in \<open>auto simp: take_map\<close>)
  with assms(2) obtain s k where "stops_at (pl_formatter cfg) (Some (\<lambda>s. EstimateInt (pl_estimator cfg s)))
      nothing_selected (take m ?u) k s" "batch_items b = selected s"
      "batch_message_ids b = map envelope_id (selected s)"
    unfolding plan_with_def by (metis plan_select)
  then have items: "batch_items b = take (min k m) ?u" "batch_message_ids b = map envelope_id (take (min k m) ?u)"
    by (simp_all add: stops_at_def nothing_selected_def min.commute)
  note sound = planned_of_sound [OF assms(2) t caps]
  from t have "planned_more_available t \<longleftrightarrow> remaining_items b ?u \<noteq> []"
    by (auto simp: planned_of_def from_batch_def with_remaining_def Let_def split: if_splits)
  also have "\<dots> \<longleftrightarrow> batch_items b \<noteq> ?u"
    unfolding remaining_after_prefix [OF dist items(2)] items(1) by auto
  finally have more: "planned_more_available t \<longleftrightarrow> batch_items b \<noteq> ?u" .
  have "take j ?u = take (length (take j ?u)) ?u" for j by (simp add: min_def)
  with sound items(1) more show ?thesis unfolding fifo_turn_def by metis
qed

lemma resolve_store_inv:
  assumes res: "resolve_unfit_head b policy (quarantine_pending now) d = (ch, d1)"
    and "reads_only policy" "store_inv d"
  shows "store_inv d1"
proof (cases "unfit_head_id b")
  case None
  with res assms(3) show ?thesis by (simp add: resolve_unfit_head_answers)
next
  case (Some hid)
  obtain still where "policy_answers policy hid (unfit_text b) d = (still, d)"
    using assms(2) by (metis reads_only_def prod.collapse)
  with res Some have "d1 = d \<or> d1 = snd (quarantine_pending now hid (unfit_text b) d)"
    by (auto simp: resolve_unfit_head_answers split: if_splits)
  with assms(3) show ?thesis using store_inv_quarantine by blast
qed

lemma py_prefix_take: "\<exists>m. py_prefix n xs = take m xs"
  by (auto simp: py_prefix_def)

lemma limited_take: "\<exists>m. limited n xs = take m xs"
  using py_prefix_take by (cases n) (auto simp: limited_def intro: exI [of _ "length xs"])

definition round_done ::
  "planning \<Rightarrow> ((plan_error + PlannedTurn option) \<times> db) option \<Rightarrow> bool" where
  "round_done cfg r \<longleftrightarrow>
     (\<exists>x d'. r = Some (x, d') \<and> store_inv d' \<and> (\<forall>t. x = Inr (Some t) \<longrightarrow> fifo_turn cfg d' t))"

lemma round_doneI:
  "store_inv d \<Longrightarrow> (\<And>t. x = Inr (Some t) \<Longrightarrow> fifo_turn cfg d t) \<Longrightarrow> round_done cfg (Some (x, d))"
  by (simp add: round_done_def)

lemma plan_rounds_returns:
  assumes "reads_only (pl_policy cfg)" "store_inv d" "pending = take m (get_pending_all d)"
  shows "round_done cfg (plan_rounds cfg n (get_pending_all d) pending d)"
  using assms(2,3)
proof (induction "(open_rows d, length pending)" arbitrary: n pending m d
    rule: wf_induct_rule [OF wf_lex_prod [OF wf_less_than wf_less_than]])
  case less: 1
  let ?u = "get_pending_all d"
  note inv = less.prems(1) and unf = plan_rounds.simps [of cfg n ?u pending d]
  have IH: "round_done cfg (plan_rounds cfg n' (get_pending_all e) (take m' (get_pending_all e)) e)"
    if "store_inv e" "open_rows e < open_rows d \<or>
      open_rows e = open_rows d \<and> length (take m' (get_pending_all e)) < length pending" for n' e m'
    using that by (intro less.hyps) auto
  show ?case
  proof (cases "pending = []")
    case True
    then show ?thesis unfolding unf using inv by (auto intro: round_doneI)
  next
    case ne: False
    show ?thesis
    proof (cases "plan_with cfg pending")
      case (Inl e)
      then show ?thesis unfolding unf using inv ne by (auto intro: round_doneI)
    next
      case (Inr b)
      show ?thesis
      proof (cases "unfit_head_id b \<noteq> None \<and> unfit_head_id b \<noteq> Some []")
        case True
        obtain ch d1 where res: "resolve_unfit_head b (pl_policy cfg) (quarantine_pending (pl_clock cfg n)) d = (ch, d1)"
          by fastforce
        note inv1 = resolve_store_inv [OF res assms(1) inv]
        obtain m1 where m1: "limited (pl_max_items cfg) (get_pending_all d1) = take m1 (get_pending_all d1)"
          using limited_take by blast
        show ?thesis
          unfolding unf using ne Inr True res m1 inv1 IH [OF inv1, of m1] resolve_changed [OF res _ assms(1)]
          by (auto intro: round_doneI)
      next
        case fit: False
        show ?thesis
        proof (cases "planned_of cfg (with_remaining b ?u)")
          case None
          then show ?thesis unfolding unf using inv ne Inr fit by (auto intro: round_doneI)
        next
          case (Some t)
          then have "0 < length (batch_items b)"
            by (auto simp: planned_of_def from_batch_def with_remaining_def Let_def split: if_splits)
          then have short: "length (py_prefix (int (length (batch_items b)) - 1) pending) < length pending"
            using py_prefix_shorter plan_items_bound [OF Inr] by blast
          obtain m2 where m2: "py_prefix (int (length (batch_items b)) - 1) pending = take m2 ?u"
            using py_prefix_take less.prems(2) by (metis take_take)
          show ?thesis
            unfolding unf using inv ne Inr fit Some m2 IH [OF inv, of m2] short
              planned_of_fifo [OF inv Inr [unfolded less.prems(2)] Some]
            by (auto intro: round_doneI)
        qed
      qed
    qed
  qed
qed

text \<open>
  C26: the batch loop of the runtime always returns, because each round quarantines a pending row or
  shortens the batch. What it returns is the oldest pending rows of the store it leaves, without a
  gap, at most fifty and within the token and byte caps with the wrapper charged; it says that
  more is available exactly when a pending row is left out; and the store invariant is kept.
\<close>

theorem bounded_plan_returns:
  assumes "reads_only (pl_policy cfg)" "store_inv d"
  shows "\<exists>r d'. plan_bounded_batch cfg (get_pending_all d) d = Some (r, d') \<and> store_inv d' \<and>
    (\<forall>t. r = Inr (Some t) \<longrightarrow> fifo_turn cfg d' t)"
proof -
  obtain m where "limited (pl_max_items cfg) (get_pending_all d) = take m (get_pending_all d)"
    using limited_take by blast
  from plan_rounds_returns [OF assms this, of 0] show ?thesis
    by (simp add: round_done_def plan_bounded_batch_def)
qed

definition sample_planning :: planning where
  "sample_planning = \<lparr>pl_formatter = (\<lambda>m. Some (envelope_id m)),
     pl_estimator = (\<lambda>s. if s = ''e1'' then 40000 else int (length s)), pl_policy = always_unfit,
     pl_clock = int, pl_fresh = (''turn_f'', ''plan_f''), pl_max_items = None,
     pl_turn_id = None, pl_cycle_key = None\<rparr>"

theorem bounded_plan_returns_witness:
  "\<exists>t d'. plan_bounded_batch sample_planning (get_pending_all two_db) two_db = Some (Inr (Some t), d') \<and>
     store_inv d' \<and> fifo_turn sample_planning d' t \<and> planned_message_ids t = [''e2'']"
proof -
  have ro: "reads_only (pl_policy sample_planning)"
    by (simp add: sample_planning_def reads_only_def always_unfit_def)
  have "case plan_bounded_batch sample_planning (get_pending_all two_db) two_db of
      Some (Inr (Some t), d) \<Rightarrow> planned_message_ids t = [''e2''] | _ \<Rightarrow> False"
    by code_simp
  then obtain t d where "plan_bounded_batch sample_planning (get_pending_all two_db) two_db = Some (Inr (Some t), d)"
    "planned_message_ids t = [''e2'']"
    by (auto split: option.splits sum.splits prod.splits)
  with bounded_plan_returns [OF ro store_inv_two_db] show ?thesis by fastforce
qed

end
