(* ===== verification/Inbox_Coalescer.thy ===== *)
theory Inbox_Coalescer
  imports Store_Prelude Complex_Main
begin

section \<open>The wake coalescer\<close>

text \<open>
  \<open>InboxCoalescer\<close> of \<open>agent/inbox_scheduler.py\<close>: the queue of wake deadlines, the two events, and
  the task that waits for the next burst, interleaved with the notifications and the clock. A clock
  reading is a rational number (a float without its rounding). Awaiting hands control to the other
  tasks, so a step of the waiter below is the code between two awaits: taking the lock, reading the
  head deadline after the pull event was cleared, and what follows the sleep.
\<close>

definition COALESCE_SECONDS :: rat where "COALESCE_SECONDS = 3"

record coalescer =
  window_seconds :: rat
  wake :: bool
  pulled :: bool
  deadlines :: "rat list"

definition new_coalescer :: "rat \<Rightarrow> coalescer" where
  "new_coalescer window = \<lparr>window_seconds = window, wake = False, pulled = False, deadlines = []\<rparr>"

definition notify_delay :: "coalescer \<Rightarrow> rat option \<Rightarrow> rat" where
  "notify_delay c delay_seconds =
     (case delay_seconds of None \<Rightarrow> window_seconds c | Some s \<Rightarrow> max 0 s)"

text \<open>\<open>notify\<close>, its clock reading an argument.\<close>

definition pull_head :: "rat \<Rightarrow> coalescer \<Rightarrow> coalescer" where
  "pull_head candidate c = c\<lparr>deadlines := candidate # tl (deadlines c), pulled := True\<rparr>"

definition notify :: "rat \<Rightarrow> rat option \<Rightarrow> coalescer \<Rightarrow> coalescer" where
  "notify now delay_seconds c =
     (let delay = notify_delay c delay_seconds; candidate = now + delay;
          c1 = (case deadlines c of
                  [] \<Rightarrow> c\<lparr>deadlines := [candidate]\<rparr>
                | head # rest \<Rightarrow>
                    if delay = 0 then (if candidate < head then pull_head candidate c else c)
                    else if now \<ge> last (head # rest) then c\<lparr>deadlines := deadlines c @ [candidate]\<rparr>
                    else if candidate < head then pull_head candidate c
                    else c)
      in c1\<lparr>wake := True\<rparr>)"

text \<open>\<open>wait_for_burst\<close>. The waiter holds the lock and waits for the wake event, or sleeps: it keeps
  the deadline it read and the time its sleep ends. Reading the head of an empty queue raises.\<close>

datatype waiter = NoWaiter | AwaitWake | Sleeping rat rat | IndexErrorRaised

definition read_deadline :: "rat \<Rightarrow> coalescer \<Rightarrow> coalescer \<times> waiter" where
  "read_deadline now c =
     (case deadlines c of
        [] \<Rightarrow> (c\<lparr>pulled := False\<rparr>, IndexErrorRaised)
      | deadline # _ \<Rightarrow>
          (let remaining = max 0 (deadline - now)
           in (c\<lparr>pulled := False\<rparr>, Sleeping deadline (now + remaining))))"

definition finish_burst :: "coalescer \<Rightarrow> coalescer" where
  "finish_burst c = c\<lparr>deadlines := tl (deadlines c), wake := tl (deadlines c) \<noteq> []\<rparr>"

text \<open>The system: the coalescer, the clock and the waiter; and, for the statements below, the
  deadlines that fired with their time, and the earliest time asked for since the last burst.\<close>

record burst_sys =
  co :: coalescer
  clock :: rat
  waiter :: waiter
  fired :: "(rat \<times> rat) list"
  asked :: "rat option"

definition start_sys :: "rat \<Rightarrow> rat \<Rightarrow> burst_sys" where
  "start_sys window now =
     \<lparr>co = new_coalescer window, clock = now, waiter = NoWaiter, fired = [], asked = None\<rparr>"

definition earlier :: "rat option \<Rightarrow> rat \<Rightarrow> rat option" where
  "earlier a t = (case a of None \<Rightarrow> Some t | Some u \<Rightarrow> Some (min u t))"

definition do_notify :: "rat option \<Rightarrow> burst_sys \<Rightarrow> burst_sys" where
  "do_notify delay_seconds s =
     s\<lparr>co := notify (clock s) delay_seconds (co s),
       asked := earlier (asked s) (clock s + notify_delay (co s) delay_seconds)\<rparr>"

definition do_read :: "burst_sys \<Rightarrow> burst_sys" where
  "do_read s = (let (c, w) = read_deadline (clock s) (co s) in s\<lparr>co := c, waiter := w\<rparr>)"

definition do_finish :: "burst_sys \<Rightarrow> burst_sys" where
  "do_finish s =
     (if deadlines (co s) = [] then s\<lparr>waiter := IndexErrorRaised\<rparr>
      else s\<lparr>co := finish_burst (co s), waiter := NoWaiter,
             fired := (hd (deadlines (co s)), clock s) # fired s, asked := None\<rparr>)"

text \<open>The steps of the waiter, once it runs: it is woken, its sleep ends, or a pull cuts the sleep
  short and the head deadline is compared with the one it read.\<close>

inductive waiter_step :: "burst_sys \<Rightarrow> burst_sys \<Rightarrow> bool" where
  woken: "waiter s = AwaitWake \<Longrightarrow> wake (co s) \<Longrightarrow> waiter_step s (do_read s)"
| slept: "waiter s = Sleeping deadline until \<Longrightarrow> until \<le> clock s \<Longrightarrow> waiter_step s (do_finish s)"
| pull_cut: "waiter s = Sleeping deadline until \<Longrightarrow> pulled (co s)
     \<Longrightarrow> waiter_step s (case deadlines (co s) of
            [] \<Rightarrow> s\<lparr>waiter := IndexErrorRaised\<rparr>
          | head # _ \<Rightarrow> if head \<ge> deadline then do_finish s else do_read s)"

text \<open>All steps: time passes, somebody notifies, a task calls \<open>wait_for_burst\<close> and gets the lock,
  the waiter runs, or its task is cancelled and gives the lock back.\<close>

inductive burst_step :: "burst_sys \<Rightarrow> burst_sys \<Rightarrow> bool" where
  tick: "clock s \<le> t \<Longrightarrow> burst_step s (s\<lparr>clock := t\<rparr>)"
| notified: "burst_step s (do_notify delay_seconds s)"
| entered: "waiter s = NoWaiter \<Longrightarrow> burst_step s (s\<lparr>waiter := AwaitWake\<rparr>)"
| waited: "waiter_step s s' \<Longrightarrow> burst_step s s'"
| cancelled: "waiter s \<noteq> IndexErrorRaised \<Longrightarrow> burst_step s (s\<lparr>waiter := NoWaiter\<rparr>)"

inductive burst_reach :: "rat \<Rightarrow> burst_sys \<Rightarrow> bool" for window where
  start: "burst_reach window (start_sys window now)"
| step: "burst_reach window s \<Longrightarrow> burst_step s s' \<Longrightarrow> burst_reach window s'"

subsection \<open>The invariant\<close>

definition sleeping_ok :: "coalescer \<Rightarrow> rat \<Rightarrow> waiter \<Rightarrow> bool" where
  "sleeping_ok c now w \<longleftrightarrow>
     (case w of
        Sleeping deadline until \<Rightarrow>
          deadlines c \<noteq> [] \<and> hd (deadlines c) \<le> deadline \<and> deadline \<le> until \<and>
          (until \<le> now \<or> until = deadline) \<and>
          (pulled c \<longleftrightarrow> hd (deadlines c) < deadline)
      | IndexErrorRaised \<Rightarrow> False
      | _ \<Rightarrow> True)"

definition burst_inv :: "burst_sys \<Rightarrow> bool" where
  "burst_inv s \<longleftrightarrow>
     0 \<le> window_seconds (co s) \<and> sorted (deadlines (co s)) \<and>
     (wake (co s) \<longleftrightarrow> deadlines (co s) \<noteq> []) \<and>
     sleeping_ok (co s) (clock s) (waiter s) \<and>
     (\<forall>(d, t) \<in> set (fired s). d \<le> t) \<and>
     (case asked s of None \<Rightarrow> True | Some t \<Rightarrow> deadlines (co s) \<noteq> [] \<and> hd (deadlines (co s)) \<le> t)"

lemma notify_delay_nonneg: "0 \<le> window_seconds c \<Longrightarrow> 0 \<le> notify_delay c delay"
  by (simp add: notify_delay_def split: option.splits)

lemma sorted_hd_le: "sorted (x # xs) \<Longrightarrow> y \<in> set (x # xs) \<Longrightarrow> (x :: rat) \<le> y"
  by auto

text \<open>The head deadline only moves earlier, to no later than what was asked for, and a move raises
  the pull event.\<close>

lemma notify_effect:
  assumes "0 \<le> window_seconds c" "sorted (deadlines c)"
  shows "sorted (deadlines (notify now delay c)) \<and> deadlines (notify now delay c) \<noteq> [] \<and>
    wake (notify now delay c) \<and> window_seconds (notify now delay c) = window_seconds c \<and>
    hd (deadlines (notify now delay c)) \<le> now + notify_delay c delay \<and>
    (deadlines c \<noteq> [] \<longrightarrow> hd (deadlines (notify now delay c)) \<le> hd (deadlines c) \<and>
       (pulled (notify now delay c) \<longleftrightarrow>
          pulled c \<or> hd (deadlines (notify now delay c)) < hd (deadlines c)))"
proof (cases "deadlines c")
  case Nil
  then show ?thesis by (simp add: notify_def Let_def)
next
  case (Cons head rest)
  have d: "0 \<le> notify_delay c delay" using assms(1) by (rule notify_delay_nonneg)
  have last: "head \<le> last (head # rest)" using assms(2) Cons sorted_hd_le last_in_set by (metis list.distinct(1))
  have app: "sorted ((head # rest) @ [now + notify_delay c delay])" if "last (head # rest) \<le> now"
  proof -
    have "x \<le> now + notify_delay c delay" if "x \<in> set (head # rest)" for x
    proof -
      have "x \<le> last (head # rest)" using assms(2) Cons that sorted_le_last [of "\<lambda>x. x" "deadlines c" x] by simp
      then show ?thesis using d \<open>last (head # rest) \<le> now\<close> by linarith
    qed
    then show ?thesis using assms(2) Cons by (auto simp: sorted_append)
  qed
  show ?thesis
  proof (cases "notify_delay c delay \<noteq> 0 \<and> last (head # rest) \<le> now")
    case True
    then show ?thesis using app last d by (simp add: notify_def Let_def Cons)
  next
    case False
    have "sorted (x # rest)" if "x < head" for x using assms(2) Cons that by auto
    with False assms(2) d Cons show ?thesis
      by (auto simp: notify_def Let_def pull_head_def)
  qed
qed

lemma burst_inv_notify: "burst_inv s \<Longrightarrow> burst_inv (do_notify delay s)"
proof -
  assume inv: "burst_inv s"
  then have "0 \<le> window_seconds (co s)" "sorted (deadlines (co s))" by (simp_all add: burst_inv_def)
  note eff = notify_effect [OF this, of "clock s" delay]
  have "sleeping_ok (notify (clock s) delay (co s)) (clock s) (waiter s)"
    using inv eff by (auto simp: burst_inv_def sleeping_ok_def split: waiter.splits)
  moreover have "hd (deadlines (notify (clock s) delay (co s))) \<le> t"
    if "earlier (asked s) (clock s + notify_delay (co s) delay) = Some t" for t
    using inv eff that by (auto simp: burst_inv_def earlier_def min_def split: option.splits if_splits)
  ultimately show ?thesis
    using inv eff by (auto simp: burst_inv_def do_notify_def earlier_def split: option.splits)
qed

lemma burst_inv_read:
  assumes "burst_inv s" "deadlines (co s) \<noteq> []"
  shows "burst_inv (do_read s)"
  using assms
  by (cases "deadlines (co s)") (auto simp: burst_inv_def do_read_def read_deadline_def sleeping_ok_def Let_def max_def
      split: option.splits)

lemma burst_inv_finish:
  assumes "burst_inv s" "deadlines (co s) \<noteq> []" "hd (deadlines (co s)) \<le> clock s"
  shows "burst_inv (do_finish s)"
  using assms
  by (cases "deadlines (co s)") (auto simp: burst_inv_def do_finish_def finish_burst_def sleeping_ok_def)

text \<open>A pull that cut the sleep short has moved the head before the deadline that was read: the
  comparison after it never ends the wait.\<close>

lemma pull_rereads:
  assumes "burst_inv s" "waiter s = Sleeping deadline until" "pulled (co s)"
  obtains head rest where "deadlines (co s) = head # rest" "head < deadline"
  using assms by (cases "deadlines (co s)") (auto simp: burst_inv_def sleeping_ok_def)

lemma burst_inv_waiter: "waiter_step s s' \<Longrightarrow> burst_inv s \<Longrightarrow> burst_inv s'"
proof (induction rule: waiter_step.induct)
  case (woken s)
  then show ?case by (intro burst_inv_read) (auto simp: burst_inv_def)
next
  case (slept s deadline until)
  then have "sleeping_ok (co s) (clock s) (Sleeping deadline until)" by (simp add: burst_inv_def)
  with slept show ?case by (intro burst_inv_finish) (auto simp: sleeping_ok_def)
next
  case (pull_cut s deadline until)
  then obtain head rest where "deadlines (co s) = head # rest" "head < deadline"
    by (blast elim: pull_rereads)
  with pull_cut burst_inv_read [of s] show ?case by simp
qed

lemma burst_inv_step: "burst_step s s' \<Longrightarrow> burst_inv s \<Longrightarrow> burst_inv s'"
proof (induction rule: burst_step.induct)
  case (tick s t)
  then show ?case by (auto simp: burst_inv_def sleeping_ok_def split: waiter.splits option.splits)
next
  case (notified s delay)
  then show ?case by (rule burst_inv_notify)
next
  case (waited s s')
  then show ?case by (rule burst_inv_waiter)
qed (auto simp: burst_inv_def sleeping_ok_def split: option.splits)

lemma burst_inv_reach: "burst_reach window s \<Longrightarrow> 0 \<le> window \<Longrightarrow> burst_inv s"
proof (induction rule: burst_reach.induct)
  case (start now)
  then show ?case by (simp add: burst_inv_def start_sys_def new_coalescer_def sleeping_ok_def)
qed (rule burst_inv_step)

subsection \<open>Bursts are on time\<close>

lemma do_read_fields:
  assumes "deadlines (co s) = head # rest"
  shows "waiter (do_read s) = Sleeping head (max (clock s) head)" "clock (do_read s) = clock s"
    "deadlines (co (do_read s)) = head # rest" "fired (do_read s) = fired s"
  using assms by (auto simp: do_read_def read_deadline_def Let_def max_def)

lemma read_then_burst:
  assumes head: "deadlines (co s) = head # rest" and due: "head \<le> clock s"
  shows "waiter_step (do_read s) (do_finish (do_read s)) \<and>
    fired (do_finish (do_read s)) = (head, clock s) # fired s \<and> clock (do_finish (do_read s)) = clock s"
proof -
  note f = do_read_fields [OF head]
  have "waiter_step (do_read s) (do_finish (do_read s))"
    by (rule slept [where deadline = head and until = "max (clock s) head"]) (use f due in auto)
  then show ?thesis using f by (simp add: do_finish_def)
qed

lemma sleeper_bursts:
  assumes inv: "burst_inv s" and w: "waiter s = Sleeping deadline until"
    and due: "hd (deadlines (co s)) \<le> clock s"
  shows "\<exists>s'. waiter_step\<^sup>*\<^sup>* s s' \<and> clock s' = clock s \<and>
    fired s' = (hd (deadlines (co s)), clock s) # fired s"
proof -
  from inv w have ok: "sleeping_ok (co s) (clock s) (Sleeping deadline until)" by (simp add: burst_inv_def)
  then obtain head rest where ds: "deadlines (co s) = head # rest" by (cases "deadlines (co s)") (auto simp: sleeping_ok_def)
  show ?thesis
  proof (cases "until \<le> clock s")
    case True
    then have "waiter_step s (do_finish s)" using w by (intro slept)
    moreover have "clock (do_finish s) = clock s" "fired (do_finish s) = (head, clock s) # fired s"
      using ds by (simp_all add: do_finish_def)
    ultimately show ?thesis using ds by (auto intro: r_into_rtranclp)
  next
    case False
    with ok ds due have pull: "pulled (co s)" "head < deadline" by (auto simp: sleeping_ok_def)
    have "waiter_step s (do_read s)" using pull_cut [OF w pull(1)] ds pull(2) by simp
    with read_then_burst [OF ds] due ds show ?thesis
      by (metis converse_rtranclp_into_rtranclp list.sel(1) r_into_rtranclp)
  qed
qed

text \<open>
  C27: however notifications, the clock, cancellations and the waiter interleave, the coalescer never
  reads an empty queue; no burst fires before its deadline; and no wake is lost: once the time asked
  for by any notification since the last burst has come, a task that waits for a burst gets it
  without any further delay, because a sleep that is too long has been pulled.
\<close>

theorem burst_on_time:
  assumes "burst_reach window s" "0 \<le> window"
  shows "waiter s \<noteq> IndexErrorRaised \<and> (\<forall>d t. (d, t) \<in> set (fired s) \<longrightarrow> d \<le> t) \<and>
    (\<forall>t. asked s = Some t \<and> t \<le> clock s \<and> waiter s \<noteq> NoWaiter \<longrightarrow>
      (\<exists>s' d. waiter_step\<^sup>*\<^sup>* s s' \<and> clock s' = clock s \<and> d \<le> t \<and> fired s' = (d, clock s) # fired s))"
proof (intro conjI allI impI)
  note inv = burst_inv_reach [OF assms]
  then show "waiter s \<noteq> IndexErrorRaised" by (auto simp: burst_inv_def sleeping_ok_def)
  show "d \<le> t" if "(d, t) \<in> set (fired s)" for d t using inv that by (auto simp: burst_inv_def)
  fix t assume t: "asked s = Some t \<and> t \<le> clock s \<and> waiter s \<noteq> NoWaiter"
  with inv have ds: "deadlines (co s) \<noteq> []" "hd (deadlines (co s)) \<le> t" "wake (co s)"
    by (auto simp: burst_inv_def)
  then obtain head rest where hr: "deadlines (co s) = head # rest" by (cases "deadlines (co s)") auto
  show "\<exists>s' d. waiter_step\<^sup>*\<^sup>* s s' \<and> clock s' = clock s \<and> d \<le> t \<and> fired s' = (d, clock s) # fired s"
  proof (cases "waiter s")
    case AwaitWake
    then have "waiter_step s (do_read s)" using ds by (intro woken)
    with read_then_burst [OF hr] ds t hr show ?thesis
      by (metis converse_rtranclp_into_rtranclp list.sel(1) order.trans r_into_rtranclp)
  next
    case (Sleeping deadline until)
    have "hd (deadlines (co s)) \<le> clock s" using ds(2) t by linarith
    from sleeper_bursts [OF inv Sleeping this] show ?thesis using ds(2) by blast
  qed (use t inv in \<open>auto simp: burst_inv_def sleeping_ok_def\<close>)
qed

text \<open>A wait of ten seconds that a notification without delay cuts short.\<close>

definition backed_off :: burst_sys where
  "backed_off = do_read ((do_notify (Some 10) (start_sys COALESCE_SECONDS 100))\<lparr>waiter := AwaitWake\<rparr>)"

definition pulled_sys :: burst_sys where
  "pulled_sys = do_notify (Some 0) (backed_off\<lparr>clock := 101\<rparr>)"

lemma pulled_sys_fields: "asked pulled_sys = Some 101" "clock pulled_sys = 101"
  "waiter pulled_sys = Sleeping 110 110" "fired pulled_sys = []"
  by (simp_all add: pulled_sys_def backed_off_def do_notify_def do_read_def read_deadline_def notify_def
      start_sys_def new_coalescer_def notify_delay_def earlier_def COALESCE_SECONDS_def pull_head_def Let_def)

lemma pulled_sys_reach: "burst_reach COALESCE_SECONDS pulled_sys"
proof -
  let ?n = "do_notify (Some 10) (start_sys COALESCE_SECONDS 100)"
  have "burst_reach COALESCE_SECONDS ?n" by (rule step [OF start notified])
  moreover have "waiter ?n = NoWaiter" "wake (co ?n)"
    by (simp_all add: do_notify_def start_sys_def notify_def Let_def)
  ultimately have "burst_reach COALESCE_SECONDS (?n\<lparr>waiter := AwaitWake\<rparr>)" by (blast intro: step entered)
  from step [OF this waited [OF woken]] have "burst_reach COALESCE_SECONDS backed_off"
    unfolding backed_off_def using \<open>wake (co ?n)\<close> by simp
  moreover have "clock backed_off \<le> 101"
    by (simp add: backed_off_def do_read_def read_deadline_def do_notify_def start_sys_def notify_def
        new_coalescer_def Let_def)
  ultimately have "burst_reach COALESCE_SECONDS (backed_off\<lparr>clock := 101\<rparr>)" by (blast intro: step tick)
  from step [OF this notified] show ?thesis unfolding pulled_sys_def .
qed

theorem burst_on_time_witness:
  "\<exists>s' d. waiter_step\<^sup>*\<^sup>* pulled_sys s' \<and> clock s' = 101 \<and> d \<le> 101 \<and> fired s' = [(d, 101)]"
proof -
  have "0 \<le> COALESCE_SECONDS" by (simp add: COALESCE_SECONDS_def)
  from burst_on_time [OF pulled_sys_reach this] show ?thesis
    unfolding pulled_sys_fields by auto
qed

end
