(* ===== verification/Turn_Lifecycle.thy ===== *)
theory Turn_Lifecycle
  imports Inbox_Planner Inbox_Reads History_Reads
begin

section \<open>The turn lifecycle of the runtime\<close>

text \<open>
  \<open>GlobalInboxRuntime\<close> over the store: the in-memory union of the active turn
  (\<open>agent/global_inbox_types.py\<close>), starting a turn and binding it to the provider
  (\<open>agent/global_inbox_runtime.py\<close>), admitting a page that the model read
  (\<open>agent/global_inbox_admission.py\<close>), settling a finished turn with its cover reconciliation
  (\<open>agent/global_inbox_covers.py\<close>), requeueing a failed one, and the recovery of turns that a crash
  left behind (\<open>agent/global_inbox_recovery.py\<close>).

  An operation works on the database and the union and either returns or raises; what it wrote
  before a raise stays, since each store call is a transaction of its own. Log records, the status
  callbacks (whose failures the code swallows) and the file \<open>current_turn.json\<close> are left out.
\<close>

subsection \<open>State\<close>

record ActiveExactUnion =
  act_turn_id :: string
  act_message_ids :: "string list"
  act_notice_message_ids :: "string list"
  act_visible_message_ids :: "string list"
  act_provider_session_id :: "string option"
  act_provider_turn_id :: "string option"
  act_routes :: "MessageRoute list"
  act_through_by_channel :: "((string \<times> string) \<times> int) list"

definition cleared_union :: ActiveExactUnion where
  "cleared_union =
     \<lparr>act_turn_id = [], act_message_ids = [], act_notice_message_ids = [], act_visible_message_ids = [],
      act_provider_session_id = None, act_provider_turn_id = None, act_routes = [],
      act_through_by_channel = []\<rparr>"

record runtime =
  rt_db :: db
  active :: ActiveExactUnion

datatype runtime_error = StoreRaised store_error | RuntimeError string

type_synonym 'a action = "runtime \<Rightarrow> (runtime_error + 'a) \<times> runtime"

definition act_return :: "'a \<Rightarrow> 'a action" where
  "act_return a rt = (Inr a, rt)"

definition act_raise :: "string \<Rightarrow> 'a action" where
  "act_raise msg rt = (Inl (RuntimeError msg), rt)"

definition act_bind :: "'a action \<Rightarrow> ('a \<Rightarrow> 'b action) \<Rightarrow> 'b action" where
  "act_bind m f rt = (case m rt of (Inl e, rt') \<Rightarrow> (Inl e, rt') | (Inr a, rt') \<Rightarrow> f a rt')"

text \<open>A store call is a transaction: it raises without an effect, or commits.\<close>

definition store_call :: "(db \<Rightarrow> ('a \<times> db) res) \<Rightarrow> 'a action" where
  "store_call f rt =
     (case f (rt_db rt) of
        Inl e \<Rightarrow> (Inl (StoreRaised e), rt)
      | Inr (a, d) \<Rightarrow> (Inr a, rt\<lparr>rt_db := d\<rparr>))"

definition store_write :: "(db \<Rightarrow> bool \<times> db) \<Rightarrow> bool action" where
  "store_write f = store_call (\<lambda>d. Inr (f d))"

definition set_active :: "(ActiveExactUnion \<Rightarrow> ActiveExactUnion) \<Rightarrow> unit action" where
  "set_active f rt = (Inr (), rt\<lparr>active := f (active rt)\<rparr>)"

definition act_when :: "bool \<Rightarrow> unit action \<Rightarrow> unit action" where
  "act_when b m = (if b then m else act_return ())"

subsection \<open>Visible messages and channel watermarks\<close>

text \<open>\<open>_add_visible_message_ids\<close> without a channel boundary.\<close>

definition add_visible_message_ids :: "string list \<Rightarrow> unit action" where
  "add_visible_message_ids ids rt =
     (if [] \<in> set ids then act_raise ''visible message IDs must be non-empty strings'' rt
      else if list_ex (\<lambda>i. get_message_by_envelope i (rt_db rt) = None) ids
      then act_raise ''visible message ID does not resolve locally'' rt
      else set_active (\<lambda>a. a\<lparr>act_visible_message_ids :=
             act_visible_message_ids a @ keep_unseen (\<lambda>i. i) (set (act_visible_message_ids a)) ids\<rparr>) rt)"

text \<open>\<open>ActiveBoundaryAdapter\<close>.\<close>

definition get_active_turn_through_seq :: "string \<Rightarrow> string \<Rightarrow> runtime \<Rightarrow> int option" where
  "get_active_turn_through_seq sp ch rt =
     (if act_turn_id (active rt) = [] then None
      else let persisted = get_model_visible_through_seq (act_turn_id (active rt)) sp ch None (rt_db rt);
               advanced = map_of (act_through_by_channel (active rt)) (sp, ch)
           in (case (persisted, advanced) of
                 (Some a, Some b) \<Rightarrow> Some (max a b)
               | (Some a, None) \<Rightarrow> Some a
               | (None, b) \<Rightarrow> b))"

definition advance_active_turn_through_seq :: "string \<Rightarrow> string \<Rightarrow> int \<Rightarrow> unit action" where
  "advance_active_turn_through_seq sp ch seq rt =
     (if act_turn_id (active rt) = [] then (Inr (), rt)
      else case get_model_visible_through_seq (act_turn_id (active rt)) sp ch (Some seq) (rt_db rt) of
        Some proven \<Rightarrow>
          set_active (\<lambda>a. a\<lparr>act_through_by_channel := dict_set (act_through_by_channel a) (sp, ch) proven\<rparr>) rt
      | None \<Rightarrow>
          if \<not> has_known_channel_rows_above_baseline sp ch (rt_db rt)
          then set_active (\<lambda>a. a\<lparr>act_through_by_channel := dict_set (act_through_by_channel a) (sp, ch) seq\<rparr>) rt
          else (Inr (), rt))"

subsection \<open>Starting a turn\<close>

text \<open>\<open>_start_local_turn\<close>: admit the planned rows, or open a turn that claims the notice.\<close>

definition start_local_turn :: "int \<Rightarrow> string option \<Rightarrow> PlannedTurn \<Rightarrow> unit action" where
  "start_local_turn now session planned =
     act_bind
       (store_call
         (if planned_message_ids planned \<noteq> []
          then admit_messages now (planned_message_ids planned) (planned_turn_id planned) session None
          else start_turn now (planned_turn_id planned) session None (Some (notice_generation planned))
                 (notice_message_ids planned)))
       (\<lambda>run. act_bind
         (set_active (\<lambda>a. a\<lparr>act_turn_id := run_turn_id run, act_message_ids := run_message_ids run,
                           act_notice_message_ids := notice_message_ids planned\<rparr>))
         (\<lambda>_. act_bind (add_visible_message_ids (run_message_ids run))
           (\<lambda>_. set_active (\<lambda>a. a\<lparr>act_provider_session_id := session, act_provider_turn_id := None,
                                 act_routes := planned_routes planned\<rparr>))))"

subsection \<open>Binding the provider\<close>

record ProviderAdmissionEvent =
  ev_planning_cycle_key :: string
  ev_provider_session_id :: "string option"
  ev_provider_turn_id :: "string option"

text \<open>The part that \<open>_admit\<close> and \<open>_admit_retry_attempt\<close> share: the durable turn follows the
  session of the event, the notice counts as delivered to it, then the union follows.\<close>

definition bind_provider :: "PlannedTurn \<Rightarrow> ProviderAdmissionEvent \<Rightarrow> unit action" where
  "bind_provider planned event rt =
     (let previous = act_provider_session_id (active rt);
          session = (if truthy (ev_provider_session_id event) then ev_provider_session_id event else previous)
      in act_bind
           (act_when (session \<noteq> previous)
             (act_bind (store_call (transfer_turn_session (planned_turn_id planned) previous (or_empty session)))
               (\<lambda>_. act_return ())))
           (\<lambda>_. act_bind
             (act_when (notice_message_ids planned \<noteq> [] \<and> truthy session)
               (act_bind (store_write (mark_notice_delivered (notice_generation planned) session
                            (Some (notice_message_ids planned)) (Some (planned_turn_id planned))))
                 (\<lambda>_. act_return ())))
             (\<lambda>_. set_active (\<lambda>a. a\<lparr>act_provider_session_id := session,
                                   act_provider_turn_id := ev_provider_turn_id event\<rparr>))) rt)"

definition admit :: "PlannedTurn \<Rightarrow> ProviderAdmissionEvent \<Rightarrow> unit action" where
  "admit planned event rt =
     (if ev_planning_cycle_key event \<noteq> planning_cycle_key planned
      then act_raise ''provider admission did not correlate to planned turn'' rt
      else if act_turn_id (active rt) \<noteq> planned_turn_id planned
      then act_raise ''provider admission crossed the active turn'' rt
      else bind_provider planned event rt)"

definition admit_retry_attempt :: "PlannedTurn \<Rightarrow> ProviderAdmissionEvent \<Rightarrow> unit action" where
  "admit_retry_attempt planned event rt =
     (if ev_planning_cycle_key event \<noteq> planning_cycle_key planned
         \<or> act_turn_id (active rt) \<noteq> planned_turn_id planned
      then act_raise ''provider retry admission crossed the active turn'' rt
      else bind_provider planned event rt)"

subsection \<open>Admitting a page that the model read\<close>

text \<open>The loop over the page: a sequenced channel row advances the watermark of its channel to what
  the store proves.\<close>

fun advance_page :: "message_row list \<Rightarrow> string \<Rightarrow> runtime \<Rightarrow> runtime" where
  "advance_page [] t rt = rt"
| "advance_page (item # rest) t rt =
     advance_page rest t
       (let route = route_for item
        in if server_seq item \<noteq> None \<and> route_kind route \<noteq> ''dm'' then
             (case get_model_visible_through_seq t (route_space_id route) (route_channel_id route) None (rt_db rt) of
                None \<Rightarrow> rt
              | Some proven \<Rightarrow>
                  rt\<lparr>active := (active rt)\<lparr>act_through_by_channel :=
                       dict_set (act_through_by_channel (active rt))
                         (route_space_id route, route_channel_id route) proven\<rparr>\<rparr>)
           else rt)"

text \<open>\<open>_admit_inbox_page\<close>.\<close>

definition admit_inbox_page ::
  "int \<Rightarrow> message_row list \<Rightarrow> string \<Rightarrow> string option \<Rightarrow> string option \<Rightarrow> unit action" where
  "admit_inbox_page now page turn session provider_turn rt =
     (if act_turn_id (active rt) \<noteq> turn
         \<or> (session \<noteq> None \<and> act_provider_session_id (active rt) \<noteq> session)
         \<or> (provider_turn \<noteq> None \<and> act_provider_turn_id (active rt) \<noteq> provider_turn)
      then act_raise ''Inbox read crossed the active provider turn'' rt
      else let ids = map envelope_id page
           in act_bind (store_call (admit_messages now ids turn (act_provider_session_id (active rt)) None))
                (\<lambda>run. act_bind (set_active (\<lambda>a. a\<lparr>act_message_ids := run_message_ids run\<rparr>))
                  (\<lambda>_. act_bind (add_visible_message_ids ids)
                    (\<lambda>_. act_bind (set_active (\<lambda>a. a\<lparr>act_routes := act_routes a @ map route_for page\<rparr>))
                      (\<lambda>_ rt'. (Inr (), advance_page page turn rt'))))) rt)"

subsection \<open>Who sent a message\<close>

text \<open>\<open>sender_type\<close> of \<open>agent/message_projection.py\<close> on a stored row, which has none of the optional
  attributes, so only its content can carry the facts. Looking an unhashable value up in a set
  raises: \<open>None\<close>. \<open>lower\<close> acts on ASCII letters.\<close>

fun json_truthy :: "json option \<Rightarrow> bool" where
  "json_truthy None = False"
| "json_truthy (Some JNull) = False"
| "json_truthy (Some (JBool b)) = b"
| "json_truthy (Some (JInt i)) = (i \<noteq> 0)"
| "json_truthy (Some (JFloat r)) = (r \<noteq> ''0.0'' \<and> r \<noteq> ''-0.0'')"
| "json_truthy (Some (JStr t)) = (t \<noteq> [])"
| "json_truthy (Some (JArr vs)) = (vs \<noteq> [])"
| "json_truthy (Some (JObj kvs)) = (kvs \<noteq> [])"

definition lower_char :: "char \<Rightarrow> char" where
  "lower_char c = (let n = of_char c :: nat in if 65 \<le> n \<and> n \<le> 90 then char_of (n + 32) else c)"

definition normalized_slug :: "string \<Rightarrow> string" where
  "normalized_slug v = map lower_char (dropWhile (\<lambda>c. c = CHR ''@'') (strip v))"

definition sender_type :: "string list \<Rightarrow> message_row \<Rightarrow> string option" where
  "sender_type aliases m =
     (let field = json_get (row_content m); explicit = field ''sender_type'';
          slug = normalized_slug (sender_slug m);
          inferred =
            (if slug = ''system'' then ''system''
             else if json_truthy (field ''sender_is_agent'') \<or> json_truthy (field ''sender_is_bot'')
                     \<or> json_truthy (field ''sender_owner_slug'') then ''agent''
             else if envelope_kind m = ''system'' \<or> envelope_kind m = ''runtime'' then ''system''
             else if json_truthy (field ''is_from_operator'') \<or> json_truthy (field ''sender_is_human'')
                  then ''human''
             else if slug \<in> set (map normalized_slug (filter (\<lambda>a. a \<noteq> []) aliases)) then ''agent''
             else ''unknown'')
      in if \<not> json_truthy explicit then Some inferred
         else case explicit of
           Some (JStr e) \<Rightarrow> Some (if e = ''human'' \<or> e = ''agent'' \<or> e = ''system'' then e else inferred)
         | Some (JArr vs) \<Rightarrow> None
         | Some (JObj kvs) \<Rightarrow> None
         | _ \<Rightarrow> Some inferred)"

subsection \<open>Settling a finished turn\<close>

text \<open>\<open>_reconcile_uncovered_messages\<close>: the uncovered rows of the turn that are neither from an agent
  nor from the system and were not redelivered yet, and all rows of the turn. \<open>None\<close> is a raise.\<close>

fun candidate_ids :: "string list \<Rightarrow> message_row list \<Rightarrow> string list option" where
  "candidate_ids aliases [] = Some []"
| "candidate_ids aliases (m # ms) =
     (if renotified m then candidate_ids aliases ms
      else case sender_type aliases m of
        None \<Rightarrow> None
      | Some kind \<Rightarrow>
          (case candidate_ids aliases ms of
             None \<Rightarrow> None
           | Some rest \<Rightarrow> Some (if kind = ''agent'' \<or> kind = ''system'' then rest else envelope_id m # rest)))"

definition reconcile_uncovered_messages ::
  "string list \<Rightarrow> bool \<Rightarrow> string \<Rightarrow> runtime \<Rightarrow> (string list \<times> string list) option" where
  "reconcile_uncovered_messages aliases renotice_enabled t rt =
     (let rows = get_in_turn_messages t (act_provider_session_id (active rt)) (rt_db rt);
          row_ids = map envelope_id rows
      in case candidate_ids aliases rows of
           None \<Rightarrow> None
         | Some ids \<Rightarrow>
             (let uncovered = filter (\<lambda>i. i \<notin> get_covered_ids ids (rt_db rt)) ids
              in Some (if renotice_enabled then uncovered else [], row_ids)))"

text \<open>\<open>_finalize_active_messages\<close>: settle by the reconciliation; if that raised and redelivery is on,
  by the store's own partition; if that raised too, or the union drifted from the store, plainly.\<close>

definition settle_plainly :: "int \<Rightarrow> string \<Rightarrow> string list action" where
  "settle_plainly now t rt =
     act_bind (store_call (mark_processed now (act_message_ids (active rt)) t None
                 (act_provider_session_id (active rt))))
       (\<lambda>_. act_return []) rt"

definition settle_with :: "int \<Rightarrow> string \<Rightarrow> string list \<Rightarrow> string list \<Rightarrow> string list action" where
  "settle_with now t renotice row_ids rt =
     (let ids = act_message_ids (active rt);
          renotice_ids = (if renotice \<noteq> [] \<and> set ids \<noteq> set row_ids then [] else renotice)
      in if renotice_ids \<noteq> [] then
           act_bind (store_call (complete_turn_with_renotice now
                       (filter (\<lambda>i. i \<notin> set renotice_ids) ids) renotice_ids t
                       (act_provider_session_id (active rt))))
             (\<lambda>_. act_return renotice_ids) rt
         else settle_plainly now t rt)"

definition finalize_active_messages :: "int \<Rightarrow> string list \<Rightarrow> bool \<Rightarrow> string \<Rightarrow> string list action" where
  "finalize_active_messages now aliases renotice_enabled t rt =
     (case reconcile_uncovered_messages aliases renotice_enabled t rt of
        Some (renotice, row_ids) \<Rightarrow> settle_with now t renotice row_ids rt
      | None \<Rightarrow>
          if renotice_enabled then
            (case store_call (complete_turn_renotice_unrenotified now t (act_provider_session_id (active rt))) rt of
               (Inr redelivered, rt') \<Rightarrow> (Inr redelivered, rt')
             | (Inl e, rt') \<Rightarrow> settle_plainly now t rt')
          else settle_plainly now t rt)"

text \<open>\<open>_mark_active_processed\<close>; a turn that admitted nothing is closed empty and keeps its notice.\<close>

definition mark_active_processed :: "int \<Rightarrow> string list \<Rightarrow> bool \<Rightarrow> string \<Rightarrow> string list action" where
  "mark_active_processed now aliases renotice_enabled t rt =
     (if act_message_ids (active rt) \<noteq> [] then
        act_bind (finalize_active_messages now aliases renotice_enabled t)
          (\<lambda>renoticed. act_bind
            (store_write (release_notice_delivery (act_provider_session_id (active rt))
                            (Some (act_notice_message_ids (active rt)))))
            (\<lambda>_. act_return renoticed)) rt
      else act_bind (store_call (finalize_empty_turn now t (processing_state_value PROCESSED)))
             (\<lambda>_. act_return []) rt)"

text \<open>\<open>_health_outcome_for_turn\<close>.\<close>

definition health_outcome_for_turn :: "PlannedTurn \<Rightarrow> runtime \<Rightarrow> string" where
  "health_outcome_for_turn planned rt =
     (if notice_message_ids planned = [] then ''succeeded''
      else if act_message_ids (active rt) \<noteq> [] then ''succeeded''
      else ''no_progress'')"

subsection \<open>Requeue and recovery\<close>

text \<open>\<open>_requeue_active_turn\<close>; \<open>False\<close> when the turn is not the active one.\<close>

definition requeue_active_turn :: "int \<Rightarrow> string \<Rightarrow> bool action" where
  "requeue_active_turn now t rt =
     (if act_turn_id (active rt) \<noteq> t then (Inr False, rt)
      else act_bind
        (store_call (if act_message_ids (active rt) \<noteq> []
                     then requeue_messages now (act_message_ids (active rt)) t
                     else finalize_empty_turn now t ''requeued''))
        (\<lambda>_. act_bind
          (store_write (release_notice_delivery (act_provider_session_id (active rt))
                          (Some (act_notice_message_ids (active rt)))))
          (\<lambda>_. act_return True)) rt)"

text \<open>\<open>TurnRecovery\<close>, the operator's gate on disk, and \<open>resolve_effectless_recovery\<close>: whether nothing
  blocks the recovery at startup, and the gate it leaves.\<close>

record TurnRecovery =
  rec_session_ref :: string
  rec_turn_ref :: string
  rec_provider_session_id :: string
  rec_provider_turn_id :: string
  rec_owner :: string
  rec_reason :: string
  rec_durable_turn_id :: string
  rec_stop_attempted :: bool
  rec_stopped :: bool
  rec_retry_requested :: bool
  rec_resolved :: bool

definition recovery_required :: "TurnRecovery option \<Rightarrow> bool" where
  "recovery_required gate \<longleftrightarrow> (case gate of None \<Rightarrow> False | Some r \<Rightarrow> \<not> rec_resolved r)"

definition authorize_retry :: "TurnRecovery option \<Rightarrow> (TurnRecovery option \<times> TurnRecovery option) res" where
  "authorize_retry gate =
     (case gate of
        None \<Rightarrow> Inr (None, gate)
      | Some r \<Rightarrow>
          if rec_resolved r then Inr (None, gate)
          else if \<not> rec_stopped r then Inl (ValueError ''provider stop is unconfirmed'')
          else let r' = (if rec_retry_requested r then r else r\<lparr>rec_retry_requested := True\<rparr>)
               in Inr (Some r', Some r'))"

definition resolve_effectless_recovery ::
  "db \<Rightarrow> TurnRecovery option \<Rightarrow> bool \<times> TurnRecovery option" where
  "resolve_effectless_recovery d gate =
     (case gate of
        None \<Rightarrow> (True, gate)
      | Some r \<Rightarrow>
          if rec_resolved r then (True, gate)
          else if \<not> rec_stopped r \<or> rec_retry_requested r then (False, gate)
          else let turn =
                     (if rec_durable_turn_id r \<noteq> [] then Some (rec_durable_turn_id r)
                      else case filter (\<lambda>run. or_empty (run_provider_session_id run) = rec_provider_session_id r)
                                  (get_active_turn_runs d) of
                        [run] \<Rightarrow> Some (run_turn_id run)
                      | _ \<Rightarrow> None)
               in case turn of
                    None \<Rightarrow> (False, gate)
                  | Some t \<Rightarrow>
                      (case get_turn_run d t of
                         Some run \<Rightarrow> if run_message_ids run \<noteq> [] then (False, gate)
                                     else (True, Some (r\<lparr>rec_resolved := True\<rparr>))
                       | None \<Rightarrow> (True, Some (r\<lparr>rec_resolved := True\<rparr>))))"

text \<open>\<open>recover_orphaned_turns\<close>; the list is read once, the clock at each turn.\<close>

definition recover_turn :: "int \<Rightarrow> TurnRun \<Rightarrow> unit action" where
  "recover_turn now run =
     act_bind
       (store_call (if run_message_ids run \<noteq> []
                    then requeue_messages now (run_message_ids run) (run_turn_id run)
                    else finalize_empty_turn now (run_turn_id run) ''requeued''))
       (\<lambda>_. act_bind (store_write (release_notice_delivery (run_provider_session_id run) None))
         (\<lambda>_. act_return ()))"

fun recover_turns :: "(nat \<Rightarrow> int) \<Rightarrow> nat \<Rightarrow> TurnRun list \<Rightarrow> nat action" where
  "recover_turns clock n [] rt = (Inr n, rt)"
| "recover_turns clock n (run # runs) rt =
     act_bind (recover_turn (clock n) run) (\<lambda>_. recover_turns clock (Suc n) runs) rt"

definition recover_orphaned_turns ::
  "(nat \<Rightarrow> int) \<Rightarrow> TurnRecovery option \<Rightarrow> runtime \<Rightarrow> (runtime_error + nat) \<times> TurnRecovery option \<times> runtime" where
  "recover_orphaned_turns clock gate rt =
     (case resolve_effectless_recovery (rt_db rt) gate of
        (clear, gate') \<Rightarrow>
          if \<not> clear then (Inr 0, gate', rt)
          else case recover_turns clock 0 (get_active_turn_runs (rt_db rt)) rt of
                 (r, rt') \<Rightarrow> (r, gate', rt'))"

end
