(* ===== verification/Recovery_Props.thy ===== *)
theory Recovery_Props
  imports Turn_Lifecycle Turn_Props
begin

section \<open>Failed and orphaned turns\<close>

text \<open>
  A failed turn is requeued exactly, and after a crash the recovery at startup leaves no turn open
  and no row behind: every row that was in a turn is pending again, or processed when a cover
  names it.
\<close>

subsection \<open>Actions\<close>

lemma act_simps [simp]:
  "act_return a rt = (Inr a, rt)"
  "act_raise msg rt = (Inl (RuntimeError msg), rt)"
  "set_active f rt = (Inr (), rt\<lparr>active := f (active rt)\<rparr>)"
  "store_write g rt = (Inr (fst (g (rt_db rt))), rt\<lparr>rt_db := snd (g (rt_db rt))\<rparr>)"
  by (simp_all add: act_return_def act_raise_def set_active_def store_write_def store_call_def split: prod.splits)

lemma act_bind_Inr [simp]: "m rt = (Inr a, rt') \<Longrightarrow> act_bind m f rt = f a rt'"
  by (simp add: act_bind_def)

lemma act_bind_Inl [simp]: "m rt = (Inl e, rt') \<Longrightarrow> act_bind m f rt = (Inl e, rt')"
  by (simp add: act_bind_def)

lemma store_call_Inr [simp]: "g (rt_db rt) = Inr (a, d) \<Longrightarrow> store_call g rt = (Inr a, rt\<lparr>rt_db := d\<rparr>)"
  by (simp add: store_call_def)

lemma store_call_Inl [simp]: "g (rt_db rt) = Inl e \<Longrightarrow> store_call g rt = (Inl (StoreRaised e), rt)"
  by (simp add: store_call_def)

subsection \<open>One turn requeued\<close>

text \<open>What happens to a row when the turns \<open>ts\<close> are given up: \<open>K\<close> are the covered rows.\<close>

definition given_up :: "string set \<Rightarrow> string set \<Rightarrow> message_row \<Rightarrow> message_row \<Rightarrow> bool" where
  "given_up ts K m m' \<longleftrightarrow>
     (if \<exists>t\<in>ts. in_turn_of t m
      then (if envelope_id m \<in> K then \<exists>now. m' = settle_row now m else m' = requeue_row m)
      else m' = m)"

definition covered_ids :: "db \<Rightarrow> string set" where
  "covered_ids d = cv_covered_envelope_id ` set (message_covers d)"

definition named_members :: "db \<Rightarrow> bool" where
  "named_members d \<longleftrightarrow> (\<forall>r\<in>set (turn_run_messages d). trm_envelope_id r \<noteq> [])"

text \<open>The turns \<open>ts\<close> were given up between two databases.\<close>

definition turns_given_up :: "string set \<Rightarrow> db \<Rightarrow> db \<Rightarrow> bool" where
  "turns_given_up ts d d' \<longleftrightarrow>
     store_inv d' \<and> list_all2 (given_up ts (covered_ids d)) (messages d) (messages d') \<and>
     (\<forall>t. turn_active d' t \<longleftrightarrow> turn_active d t \<and> t \<notin> ts) \<and>
     turn_run_messages d' = turn_run_messages d \<and> message_covers d' = message_covers d"

lemma given_up_left: "given_up ts K m m' \<Longrightarrow> in_turn_of t m' \<longleftrightarrow> in_turn_of t m \<and> t \<notin> ts"
  by (auto simp: given_up_def in_turn_of_def settle_row_def requeue_row_def split: if_splits)

lemma given_up_comp:
  assumes a: "given_up {t} K m m1" and b: "given_up ts K m1 m2"
  shows "given_up (insert t ts) K m m2"
proof (cases "in_turn_of t m")
  case True
  have none: "\<not> in_turn_of u m1" for u
    using given_up_left [OF a, of u] True by (auto simp: in_turn_of_def)
  then have "m2 = m1" using b by (simp add: given_up_def)
  with a True show ?thesis by (simp add: given_up_def)
next
  case False
  with a have "m1 = m" by (simp add: given_up_def)
  with b False show ?thesis by (auto simp: given_up_def split: if_splits)
qed

lemma turns_given_up_comp:
  assumes a: "turns_given_up {t} d d1" and b: "turns_given_up ts d1 d2"
  shows "turns_given_up (insert t ts) d d2"
proof -
  have K: "covered_ids d1 = covered_ids d" using a by (simp add: turns_given_up_def covered_ids_def)
  have "list_all2 (given_up (insert t ts) (covered_ids d)) (messages d) (messages d2)"
    by (rule list_all2_trans [OF given_up_comp])
       (use a b K in \<open>auto simp: turns_given_up_def\<close>)
  with a b show ?thesis by (auto simp: turns_given_up_def)
qed

lemma turns_given_up_none: "store_inv d \<Longrightarrow> turns_given_up {} d d"
  by (simp add: turns_given_up_def given_up_def list_all2_refl)

lemma active_closed:
  assumes "st \<noteq> processing_state_value IN_TURN" "turn_runs d' = closed_runs now st t (turn_runs d)"
  shows "turn_active d' u \<longleftrightarrow> turn_active d u \<and> u \<noteq> t"
proof -
  have "(\<exists>r\<in>set (closed_runs now st t rows). tr_turn_id r = u \<and> tr_state r = processing_state_value IN_TURN) \<longleftrightarrow>
     (\<exists>r\<in>set rows. tr_turn_id r = u \<and> tr_state r = processing_state_value IN_TURN) \<and> u \<noteq> t" for rows
    using assms(1) by (induction rows) (auto simp: closed_runs_def sql_update_def)
  then show ?thesis using assms(2) by (simp add: turn_active_def)
qed

lemma requeue_gives_up:
  assumes inv: "store_inv d" and act: "turn_active d t" and ids: "set ids = set (turn_message_ids d t)"
    and ok: "ids \<noteq> []" "[] \<notin> set ids" "distinct ids"
  shows "\<exists>run d'. requeue_messages now ids t d = Inr (run, d') \<and> turns_given_up {t} d d'"
proof -
  obtain run d' where r: "requeue_messages now ids t d = Inr (run, d')"
    using requeue_iff_aux [OF inv, of now ids t] act ids ok by blast
  note c = requeue_cases [OF r]
  have cov: "i \<in> covered_among ids d \<longleftrightarrow> i \<in> covered_ids d" if "i \<in> set ids" for i
    using that by (auto simp: covered_among_def batched_select_ids_eq covered_ids_def)
  have "given_up {t} (covered_ids d) m (requeued_row now (covered_among ids d) ids t m)"
    if "m \<in> set (messages d)" for m
    using in_turn_member [OF _ that, of t] inv ids cov [of "envelope_id m"]
    by (auto simp: given_up_def requeued_row_def in_turn_among_def store_inv_def)
  then have "list_all2 (given_up {t} (covered_ids d)) (messages d) (messages d')"
    by (simp add: c(5) requeued_db_def list.rel_map list_all2_same)
  moreover have "turn_active d' u \<longleftrightarrow> turn_active d u \<and> u \<noteq> t" for u
    by (rule active_closed [where st = "''requeued''" and now = now]) (simp_all add: c(5) requeued_db_def)
  ultimately show ?thesis using r store_inv_requeue [OF inv r]
    by (auto simp: turns_given_up_def c(5) requeued_db_def)
qed

lemma finalize_gives_up:
  assumes inv: "store_inv d" and act: "turn_active d t" and none: "turn_message_ids d t = []"
    and st: "st = processing_state_value PROCESSED \<or> st = ''requeued''"
  shows "\<exists>run d'. finalize_empty_turn now t st d = Inr (run, d') \<and> turns_given_up {t} d d' \<and> messages d' = messages d"
proof -
  let ?Q = "\<lambda>r. tr_turn_id r = t \<and> tr_state r = processing_state_value IN_TURN"
  let ?d = "d\<lparr>turn_runs := closed_runs now st t (turn_runs d)\<rparr>"
  have empty: "\<not> (\<exists>m\<in>set (turn_run_messages d). trm_turn_id m = t)"
    using none set_turn_message_ids [of d t] by auto
  have "sql_count ?Q (turn_runs d) = 1" using count_active [OF inv] act by simp
  then have "update_active_turn t (\<lambda>_. \<not> sql_exists (\<lambda>m. trm_turn_id m = t) (turn_run_messages d))
      (\<lambda>r. r\<lparr>tr_state := st, tr_completed_at := Some now\<rparr>) ''Turn is not active and empty'' d = Inr ?d"
    using empty by (simp add: update_active_turn_def closed_runs_def)
  moreover obtain run where "turn_result t ?d = Inr (run, ?d)"
    using turn_result_total [of t ?d] act by (auto simp: closed_runs_ids turn_active_def)
  ultimately have fin: "finalize_empty_turn now t st d = Inr (run, ?d)"
    using st by (auto simp: finalize_empty_turn_def)
  have "\<not> in_turn_of t m" if "m \<in> set (messages d)" for m
    using in_turn_member [OF _ that, of t] inv none by (auto simp: store_inv_def)
  then have "list_all2 (given_up {t} K) (messages d) (messages d)" for K
    by (simp add: list_all2_same given_up_def)
  moreover have "turn_active ?d u \<longleftrightarrow> turn_active d u \<and> u \<noteq> t" for u
    by (rule active_closed [where st = st and now = now]) (use st in auto)
  ultimately have "turns_given_up {t} d ?d"
    using store_inv_finalize_empty [OF inv fin] by (simp add: turns_given_up_def)
  with fin show ?thesis by auto
qed

lemma release_given_up: "turns_given_up ts d d' \<Longrightarrow> turns_given_up ts d (snd (release_notice_delivery s ids d'))"
  by (simp add: turns_given_up_def store_inv_release release_frame turn_active_def)

text \<open>Both ways of giving a turn up, as the runtime chooses between them.\<close>

lemma give_up_turn:
  assumes inv: "store_inv d" and act: "turn_active d t" and ids: "set ids = set (turn_message_ids d t)"
    and ok: "[] \<notin> set ids" "distinct ids"
  shows "\<exists>run d'. (if ids \<noteq> [] then requeue_messages now ids t else finalize_empty_turn now t ''requeued'') d
      = Inr (run, d') \<and> turns_given_up {t} d d'"
proof (cases "ids = []")
  case True
  then show ?thesis using finalize_gives_up [OF inv act, of "''requeued''" now] ids by auto
next
  case False
  then show ?thesis using requeue_gives_up [OF inv act ids False ok] by simp
qed

subsection \<open>Recovery\<close>

definition recoverable :: "TurnRun list \<Rightarrow> db \<Rightarrow> bool" where
  "recoverable runs d \<longleftrightarrow>
     store_inv d \<and> named_members d \<and> distinct (map run_turn_id runs) \<and>
     (\<forall>run\<in>set runs. turn_active d (run_turn_id run) \<and> run_message_ids run = turn_message_ids d (run_turn_id run))"

lemma named_members_ids: "named_members d \<Longrightarrow> [] \<notin> set (turn_message_ids d t)"
  by (auto simp: named_members_def set_turn_message_ids)

lemma recoverable_next:
  assumes "recoverable (run # runs) d" "turns_given_up {run_turn_id run} d d'"
  shows "recoverable runs d'"
proof -
  have ids: "turn_message_ids d' t = turn_message_ids d t" for t
    using assms(2) by (simp add: turns_given_up_def turn_message_ids_def)
  have act: "turn_active d' t \<longleftrightarrow> turn_active d t \<and> t \<noteq> run_turn_id run" for t
    using assms(2) by (simp add: turns_given_up_def)
  have "run_turn_id r \<noteq> run_turn_id run" if "r \<in> set runs" for r
    using assms(1) that by (metis distinct.simps(2) image_eqI list.set_map list.simps(9) recoverable_def)
  with assms show ?thesis
    by (simp add: recoverable_def ids act) (simp add: turns_given_up_def named_members_def)
qed

lemma recover_turns_all:
  "recoverable runs (rt_db rt) \<Longrightarrow>
   \<exists>rt'. recover_turns clock n runs rt = (Inr (n + length runs), rt') \<and> active rt' = active rt \<and>
     turns_given_up (set (map run_turn_id runs)) (rt_db rt) (rt_db rt')"
proof (induction runs arbitrary: n rt)
  case Nil
  then show ?case by (simp add: recoverable_def turns_given_up_none)
next
  case (Cons run runs)
  let ?t = "run_turn_id run" and ?d = "rt_db rt"
  have mem: "run_message_ids run = turn_message_ids ?d ?t" and inv: "store_inv ?d" and act: "turn_active ?d ?t"
    and nm: "named_members ?d" using Cons.prems by (auto simp: recoverable_def)
  obtain r d1 where op: "(if run_message_ids run \<noteq> [] then requeue_messages (clock n) (run_message_ids run) ?t
      else finalize_empty_turn (clock n) ?t ''requeued'') ?d = Inr (r, d1)" and g: "turns_given_up {?t} ?d d1"
    using give_up_turn [OF inv act, of "run_message_ids run" "clock n"] mem
      named_members_ids [OF nm] distinct_turn_message_ids [OF inv] by auto
  let ?d2 = "snd (release_notice_delivery (run_provider_session_id run) None d1)"
  note g2 = release_given_up [OF g, of "run_provider_session_id run" None]
  have step: "recover_turn (clock n) run rt = (Inr (), rt\<lparr>rt_db := ?d2\<rparr>)"
    using op by (simp add: recover_turn_def)
  obtain rt' where "recover_turns clock (Suc n) runs (rt\<lparr>rt_db := ?d2\<rparr>) = (Inr (Suc n + length runs), rt')"
    "active rt' = active rt" "turns_given_up (set (map run_turn_id runs)) ?d2 (rt_db rt')"
    using Cons.IH [of "rt\<lparr>rt_db := ?d2\<rparr>" "Suc n"] recoverable_next [OF Cons.prems g2] by auto
  with step turns_given_up_comp [OF g2] show ?case by auto
qed

lemma get_turn_run_some:
  assumes "store_inv d" "r \<in> set (turn_runs d)"
  shows "\<exists>run. get_turn_run d (tr_turn_id r) = Some run \<and> run_turn_id run = tr_turn_id r \<and>
     run_message_ids run = turn_message_ids d (tr_turn_id r)"
  using sql_fetchone_key [OF turn_idsD [OF assms(1)] assms(2)] by (simp add: get_turn_run_def)

lemma active_runs:
  assumes "store_inv d"
  shows "map run_turn_id (get_active_turn_runs d) =
      map tr_turn_id (sort_key (\<lambda>r. (tr_started_at r, tr_turn_id r))
        (filter (\<lambda>r. tr_state r = processing_state_value IN_TURN) (turn_runs d)))"
    and "run \<in> set (get_active_turn_runs d) \<Longrightarrow> run_message_ids run = turn_message_ids d (run_turn_id run)"
proof -
  let ?rows = "sort_key (\<lambda>r. (tr_started_at r, tr_turn_id r))
        (filter (\<lambda>r. tr_state r = processing_state_value IN_TURN) (turn_runs d))"
  have aux: "\<And>rows. set rows \<subseteq> set (turn_runs d) \<Longrightarrow>
      map run_turn_id (List.map_filter (\<lambda>r. get_turn_run d (tr_turn_id r)) rows) = map tr_turn_id rows \<and>
      (\<forall>run\<in>set (List.map_filter (\<lambda>r. get_turn_run d (tr_turn_id r)) rows).
         run_message_ids run = turn_message_ids d (run_turn_id run))"
  proof -
    fix rows assume "set rows \<subseteq> set (turn_runs d)"
    then show "map run_turn_id (List.map_filter (\<lambda>r. get_turn_run d (tr_turn_id r)) rows) = map tr_turn_id rows \<and>
      (\<forall>run\<in>set (List.map_filter (\<lambda>r. get_turn_run d (tr_turn_id r)) rows).
         run_message_ids run = turn_message_ids d (run_turn_id run))"
    proof (induction rows)
      case (Cons r rows)
      then obtain run where "get_turn_run d (tr_turn_id r) = Some run" "run_turn_id run = tr_turn_id r"
        "run_message_ids run = turn_message_ids d (tr_turn_id r)"
        using get_turn_run_some [OF assms, of r] by auto
      with Cons show ?case by (simp add: map_filter_simps)
    qed (simp add: map_filter_simps)
  qed
  have "set ?rows \<subseteq> set (turn_runs d)" by auto
  note a = aux [OF this]
  show "map run_turn_id (get_active_turn_runs d) = map tr_turn_id ?rows"
    unfolding get_active_turn_runs_def using a by blast
  show "run \<in> set (get_active_turn_runs d) \<Longrightarrow> run_message_ids run = turn_message_ids d (run_turn_id run)"
    unfolding get_active_turn_runs_def using a by blast
qed

lemma active_run_ids:
  assumes "store_inv d"
  shows "set (map run_turn_id (get_active_turn_runs d)) = {t. turn_active d t}"
    and "distinct (map run_turn_id (get_active_turn_runs d))"
proof -
  let ?f = "filter (\<lambda>r. tr_state r = processing_state_value IN_TURN) (turn_runs d)"
  show "set (map run_turn_id (get_active_turn_runs d)) = {t. turn_active d t}"
    unfolding active_runs(1) [OF assms] by (auto simp: turn_active_def)
  have "distinct (map tr_turn_id ?f)" using turn_idsD [OF assms] by (rule distinct_map_filter)
  moreover have "mset (map tr_turn_id (sort_key (\<lambda>r. (tr_started_at r, tr_turn_id r)) ?f)) = mset (map tr_turn_id ?f)"
    by simp
  ultimately show "distinct (map run_turn_id (get_active_turn_runs d))"
    unfolding active_runs(1) [OF assms] by (metis mset_eq_imp_distinct_iff)
qed

definition recovered_row :: "string set \<Rightarrow> message_row \<Rightarrow> message_row \<Rightarrow> bool" where
  "recovered_row K m m' \<longleftrightarrow>
     (if processing_state m = Some IN_TURN
      then (if envelope_id m \<in> K then \<exists>now. m' = settle_row now m else m' = requeue_row m)
      else m' = m)"

text \<open>
  C23: the recovery at startup, when no operator gate blocks it, never raises and gives up every turn
  that was open: afterwards no turn is active and no row is in a turn, each row that was in one is
  pending again or, when a cover names it, processed, and every other row is as it was.
\<close>

theorem recovery_frees_all_turns:
  assumes "store_inv (rt_db rt)" "named_members (rt_db rt)"
    "fst (resolve_effectless_recovery (rt_db rt) gate)"
  shows "\<exists>gate' rt'. recover_orphaned_turns clock gate rt =
       (Inr (length (get_active_turn_runs (rt_db rt))), gate', rt') \<and>
    store_inv (rt_db rt') \<and> get_active_turn_runs (rt_db rt') = [] \<and>
    (\<forall>m\<in>set (messages (rt_db rt')). processing_state m \<noteq> Some IN_TURN) \<and>
    list_all2 (recovered_row (covered_ids (rt_db rt))) (messages (rt_db rt)) (messages (rt_db rt'))"
proof -
  let ?d = "rt_db rt" and ?runs = "get_active_turn_runs (rt_db rt)"
  note ids = active_run_ids [OF assms(1)]
  have act: "turn_active ?d (run_turn_id run)" if "run \<in> set ?runs" for run
    using that ids(1) by (metis image_eqI list.set_map mem_Collect_eq)
  then have "recoverable ?runs ?d"
    using assms ids active_runs(2) [OF assms(1)] by (auto simp: recoverable_def)
  from recover_turns_all [OF this, of clock 0] obtain rt' where
    run: "recover_turns clock 0 ?runs rt = (Inr (length ?runs), rt')"
    and g: "turns_given_up {t. turn_active ?d t} ?d (rt_db rt')" unfolding ids(1) by auto
  have inv': "store_inv (rt_db rt')" and none: "\<not> turn_active (rt_db rt') t" for t
    using g by (auto simp: turns_given_up_def)
  then have "get_active_turn_runs (rt_db rt') = []" using active_run_ids(1) [OF inv'] by simp
  moreover have "processing_state m \<noteq> Some IN_TURN" if "m \<in> set (messages (rt_db rt'))" for m
    using that inv' none by (auto simp: store_inv_def inv_turns_def)
  moreover have "given_up {t. turn_active ?d t} K m m' \<longleftrightarrow> recovered_row K m m'"
    if "m \<in> set (messages ?d)" for m m' K
  proof -
    have "(\<exists>t\<in>{t. turn_active ?d t}. in_turn_of t m) \<longleftrightarrow> processing_state m = Some IN_TURN"
      using that assms(1) by (auto simp: store_inv_def inv_turns_def in_turn_of_def)
    then show ?thesis by (simp only: given_up_def recovered_row_def)
  qed
  then have "list_all2 (recovered_row (covered_ids ?d)) (messages ?d) (messages (rt_db rt'))"
    using g unfolding turns_given_up_def by (smt (verit, ccfv_threshold) list.rel_mono_strong)
  ultimately show ?thesis
    using run inv' assms(3) by (auto simp: recover_orphaned_turns_def split: prod.splits)
qed

theorem recovery_frees_all_turns_witness:
  "\<exists>gate' rt'. recover_orphaned_turns (\<lambda>n. 30) None \<lparr>rt_db = turn_db, active = cleared_union\<rparr> =
       (Inr (length (get_active_turn_runs turn_db)), gate', rt') \<and>
    store_inv (rt_db rt') \<and> get_active_turn_runs (rt_db rt') = []"
proof -
  let ?rt = "\<lparr>rt_db = turn_db, active = cleared_union\<rparr>"
  have "store_inv (rt_db ?rt)" by (simp add: store_inv_turn_db)
  moreover have "named_members (rt_db ?rt)" by (simp add: named_members_def turn_db_def)
  moreover have "fst (resolve_effectless_recovery (rt_db ?rt) None)"
    by (simp add: resolve_effectless_recovery_def)
  ultimately have "store_inv (rt_db ?rt)" "named_members (rt_db ?rt)"
    "fst (resolve_effectless_recovery (rt_db ?rt) None)" by blast+
  from recovery_frees_all_turns [OF this, of "\<lambda>n. 30"] show ?thesis unfolding runtime.simps by blast
qed

end
