(* ===== verification/Settle_Props.thy ===== *)
theory Settle_Props
  imports Recovery_Props
begin

section \<open>The active union and the store\<close>

text \<open>
  The union in memory is exactly the durable turn: it names the open turn, its session and its
  members. From there a finished turn always settles, redelivering precisely the rows that nobody
  answered, and a failed one is always given up.
\<close>

definition open_turn :: "string \<Rightarrow> string option \<Rightarrow> db \<Rightarrow> bool" where
  "open_turn t session d \<longleftrightarrow>
     (\<exists>r\<in>set (turn_runs d). tr_turn_id r = t \<and> tr_state r = processing_state_value IN_TURN \<and>
        tr_provider_session_id r = session)"

definition union_exact :: "runtime \<Rightarrow> bool" where
  "union_exact rt \<longleftrightarrow>
     store_inv (rt_db rt) \<and> named_members (rt_db rt) \<and>
     (act_turn_id (active rt) \<noteq> [] \<longrightarrow>
        open_turn (act_turn_id (active rt)) (act_provider_session_id (active rt)) (rt_db rt) \<and>
        act_message_ids (active rt) = turn_message_ids (rt_db rt) (act_turn_id (active rt)))"

lemma union_exactD:
  assumes "union_exact rt" "act_turn_id (active rt) = t" "t \<noteq> []"
  shows "store_inv (rt_db rt)" "turn_active (rt_db rt) t"
    "turn_owned t (act_provider_session_id (active rt)) (rt_db rt)"
    "act_message_ids (active rt) = turn_message_ids (rt_db rt) t" "[] \<notin> set (turn_message_ids (rt_db rt) t)"
    "distinct (turn_message_ids (rt_db rt) t)"
  using assms distinct_turn_message_ids [of "rt_db rt" t] named_members_ids [of "rt_db rt" t]
  by (auto simp: union_exact_def open_turn_def turn_active_def turn_owned_def)

lemma requeue_gives_up_active:
  assumes "union_exact rt" "act_turn_id (active rt) = t" "t \<noteq> []"
  shows "\<exists>rt'. requeue_active_turn now t rt = (Inr True, rt') \<and> active rt' = active rt \<and>
    turns_given_up {t} (rt_db rt) (rt_db rt')"
proof -
  note u = union_exactD [OF assms]
  obtain run d' where op: "(if act_message_ids (active rt) \<noteq> [] then requeue_messages now (act_message_ids (active rt)) t
      else finalize_empty_turn now t ''requeued'') (rt_db rt) = Inr (run, d')" and g: "turns_given_up {t} (rt_db rt) d'"
    using give_up_turn [OF u(1,2), of "act_message_ids (active rt)" now] u(4,5,6) by auto
  have "requeue_active_turn now t rt = (Inr True, rt\<lparr>rt_db := snd (release_notice_delivery
      (act_provider_session_id (active rt)) (Some (act_notice_message_ids (active rt))) d')\<rparr>)"
    using op assms(2) by (simp add: requeue_active_turn_def)
  with release_given_up [OF g] show ?thesis by auto
qed

subsection \<open>Settling\<close>

definition settled_rows :: "int \<Rightarrow> string \<Rightarrow> (message_row \<Rightarrow> bool) \<Rightarrow> message_row list \<Rightarrow> message_row list" where
  "settled_rows now t again rows =
     map (\<lambda>m. if \<not> in_turn_of t m then m else if again m then renotice_row m else process_row now m) rows"

lemma complete_settles:
  assumes inv: "store_inv d" and act: "turn_active d t" and own: "turn_owned t session d"
    and dis: "distinct (P @ R)" and mem: "set (P @ R) = set (turn_message_ids d t)"
  shows "\<exists>run d'. complete_turn now P R t None session d = Inr (run, d') \<and> store_inv d' \<and>
    \<not> turn_active d' t \<and> messages d' = settled_rows now t (\<lambda>m. envelope_id m \<in> set R) (messages d) \<and>
    turn_run_messages d' = turn_run_messages d"
proof -
  obtain run d' where c: "complete_turn now P R t None session d = Inr (run, d')"
    using complete_iff_aux [OF inv, of now P R t None session] act own dis mem by blast
  note cs = complete_turn_cases [OF c]
  have inv': "store_inv d'" using inv c by (rule store_inv_complete_turn)
  have "\<not> turn_active d' t"
    using active_closed [of "processing_state_value PROCESSED" d' "get_default None now" t d t]
    by (simp add: cs(6) completed_db_def)
  moreover have "complete_row (get_default None now) P R t m =
      (if \<not> in_turn_of t m then m else if envelope_id m \<in> set R then renotice_row m else process_row now m)"
    if "m \<in> set (messages d)" for m
    using in_turn_member [OF _ that, of t] inv mem dis
    by (auto simp: complete_row_def in_turn_among_def store_inv_def get_default_def)
  then have "messages d' = settled_rows now t (\<lambda>m. envelope_id m \<in> set R) (messages d)"
    by (simp add: cs(6) completed_db_def settled_rows_def)
  moreover have "turn_run_messages d' = turn_run_messages d" by (simp add: cs(6) completed_db_def)
  ultimately show ?thesis using c inv' by blast
qed

lemma settled_rows_cong:
  "(\<And>m. m \<in> set rows \<Longrightarrow> in_turn_of t m \<Longrightarrow> P m = Q m) \<Longrightarrow> settled_rows now t P rows = settled_rows now t Q rows"
  by (simp add: settled_rows_def)

text \<open>The rows of the turn, as the reconciliation reads them.\<close>

lemma in_turn_rows:
  assumes inv: "store_inv d" and run: "r \<in> set (turn_runs d)" "tr_turn_id r = t"
    "tr_state r = processing_state_value IN_TURN" "tr_provider_session_id r = Some s"
  shows "set (get_in_turn_messages t (Some s) d) = {m \<in> set (messages d). in_turn_of t m}"
    and "set (map envelope_id (get_in_turn_messages t (Some s) d)) = set (turn_message_ids d t)"
    and "distinct (map envelope_id (get_in_turn_messages t (Some s) d))"
proof -
  let ?rows = "\<lambda>i. filter (\<lambda>m. envelope_id m = i \<and> in_turn_of t m) (messages d)"
  have it: "inv_turns d" using inv by (simp add: store_inv_def)
  have act: "turn_active d t" using run by (auto simp: turn_active_def)
  have "sql_fetchone (\<lambda>x. tr_turn_id x = t) (turn_runs d) = Some r"
    using sql_fetchone_key [OF turn_idsD [OF inv] run(1)] run(2) by simp
  then have eq: "get_in_turn_messages t (Some s) d = concat (map ?rows (turn_message_ids d t))"
    using run by (simp add: get_in_turn_messages_def get_turn_run_def)
  show rows: "set (get_in_turn_messages t (Some s) d) = {m \<in> set (messages d). in_turn_of t m}"
    using in_turn_member [OF it] by (auto simp: eq)
  show "set (map envelope_id (get_in_turn_messages t (Some s) d)) = set (turn_message_ids d t)"
    using rows in_turn_member [OF it] member_in_turn [OF it _ act] by fastforce
  have keys: "distinct (map envelope_id (messages d))" using inv by (simp add: store_inv_def inv_messages_def)
  have "distinct (map envelope_id (concat (map ?rows is)))" if "distinct is" for "is"
    using that
  proof (induction "is")
    case (Cons i "is")
    have "distinct (map envelope_id (?rows i))" using keys by (rule distinct_map_filter)
    moreover have "envelope_id ` set (?rows i) \<inter> envelope_id ` set (concat (map ?rows is)) = {}"
      using Cons.prems by auto
    ultimately show ?case using Cons by simp
  qed simp
  then show "distinct (map envelope_id (get_in_turn_messages t (Some s) d))"
    unfolding eq using distinct_turn_message_ids [OF inv] by blast
qed

definition answerable :: "string list \<Rightarrow> message_row \<Rightarrow> bool" where
  "answerable aliases m \<longleftrightarrow>
     \<not> renotified m \<and> sender_type aliases m \<noteq> Some ''agent'' \<and> sender_type aliases m \<noteq> Some ''system''"

lemma candidate_ids_Some:
  "candidate_ids aliases rows = Some ids \<Longrightarrow> ids = map envelope_id (filter (answerable aliases) rows)"
  by (induction rows arbitrary: ids) (auto simp: answerable_def split: if_splits option.splits)

text \<open>Which rows of the finished turn are redelivered: with redelivery on, the unanswered ones of
  people; and if some sender cannot be classified, every row that was not redelivered before.\<close>

definition redelivered :: "string list \<Rightarrow> bool \<Rightarrow> string \<Rightarrow> runtime \<Rightarrow> message_row \<Rightarrow> bool" where
  "redelivered aliases renotice_enabled t rt m \<longleftrightarrow>
     renotice_enabled \<and> act_provider_session_id (active rt) \<noteq> None \<and> \<not> renotified m \<and>
     (candidate_ids aliases (get_in_turn_messages t (act_provider_session_id (active rt)) (rt_db rt)) \<noteq> None \<longrightarrow>
        answerable aliases m \<and> envelope_id m \<notin> covered_ids (rt_db rt))"

lemma covered_named: "i \<in> set ids \<Longrightarrow> i \<noteq> [] \<Longrightarrow> i \<in> get_covered_ids ids d \<longleftrightarrow> i \<in> covered_ids d"
  by (auto simp: get_covered_ids_def covered_among_def batched_select_ids_eq covered_ids_def Let_def
      set_dict_fromkeys dest: arg_cong [where f = set])

text \<open>The three ways to settle.\<close>

definition settled :: "int \<Rightarrow> string \<Rightarrow> (message_row \<Rightarrow> bool) \<Rightarrow> runtime \<Rightarrow> (runtime_error + string list) \<times> runtime \<Rightarrow> bool" where
  "settled now t again rt out \<longleftrightarrow>
     (\<exists>ids rt'. out = (Inr ids, rt') \<and> active rt' = active rt \<and> store_inv (rt_db rt') \<and>
        \<not> turn_active (rt_db rt') t \<and>
        messages (rt_db rt') = settled_rows now t again (messages (rt_db rt)) \<and>
        turn_run_messages (rt_db rt') = turn_run_messages (rt_db rt) \<and>
        set ids = envelope_id ` {m \<in> set (messages (rt_db rt)). in_turn_of t m \<and> again m})"

lemma settled_plainly:
  assumes "union_exact rt" "act_turn_id (active rt) = t" "t \<noteq> []" "act_message_ids (active rt) \<noteq> []"
    and no: "\<And>m. m \<in> set (messages (rt_db rt)) \<Longrightarrow> in_turn_of t m \<Longrightarrow> \<not> again m"
  shows "settled now t again rt (settle_plainly now t rt)"
proof -
  note u = union_exactD [OF assms(1-3)]
  let ?ids = "turn_message_ids (rt_db rt) t" and ?s = "act_provider_session_id (active rt)"
  obtain run d' where c: "complete_turn now ?ids [] t None ?s (rt_db rt) = Inr (run, d')" "store_inv d'"
    "\<not> turn_active d' t" "messages d' = settled_rows now t (\<lambda>m. envelope_id m \<in> set []) (messages (rt_db rt))"
    "turn_run_messages d' = turn_run_messages (rt_db rt)"
    using complete_settles [OF u(1-3), of ?ids "[]" now] u(6) by auto
  have "exact_ids ?ids = Inr ?ids" using u assms(4) by (auto simp: exact_ids_Inr)
  then have "mark_processed now (act_message_ids (active rt)) t None ?s (rt_db rt) = Inr (run, d')"
    using c(1) u(4) by (simp add: mark_processed_def)
  then have "settle_plainly now t rt = (Inr [], rt\<lparr>rt_db := d'\<rparr>)" by (simp add: settle_plainly_def)
  moreover have "settled_rows now t (\<lambda>m. envelope_id m \<in> set []) (messages (rt_db rt)) = settled_rows now t again (messages (rt_db rt))"
    by (rule settled_rows_cong) (use no in simp)
  ultimately show ?thesis using c no by (auto simp: settled_def)
qed

lemma settled_renotice:
  assumes "union_exact rt" "act_turn_id (active rt) = t" "t \<noteq> []"
    and R: "R \<noteq> []" "distinct R" "set R = envelope_id ` {m \<in> set (messages (rt_db rt)). in_turn_of t m \<and> again m}"
    and rows: "set row_ids = set (turn_message_ids (rt_db rt) t)"
  shows "settled now t again rt (settle_with now t R row_ids rt)"
proof -
  note u = union_exactD [OF assms(1-3)]
  let ?d = "rt_db rt" and ?s = "act_provider_session_id (active rt)"
  let ?P = "filter (\<lambda>i. i \<notin> set R) (turn_message_ids ?d t)"
  have it: "inv_turns ?d" and keys: "distinct (map envelope_id (messages ?d))"
    using u(1) by (auto simp: store_inv_def inv_messages_def)
  have sub: "set R \<subseteq> set (turn_message_ids ?d t)" using R(3) in_turn_member [OF it] by auto
  then have part: "distinct (?P @ R)" "set (?P @ R) = set (turn_message_ids ?d t)" using u(6) R(2) by auto
  from complete_settles [OF u(1-3) part, of now] obtain run d' where
    c: "complete_turn now ?P R t None ?s ?d = Inr (run, d')" "store_inv d'" "\<not> turn_active d' t"
      "messages d' = settled_rows now t (\<lambda>m. envelope_id m \<in> set R) (messages ?d)"
      "turn_run_messages d' = turn_run_messages ?d" by blast
  have "exact_ids R = Inr R" using R sub u(5) by (auto simp: exact_ids_Inr)
  moreover have "?P \<noteq> [] \<Longrightarrow> exact_ids ?P = Inr ?P" using u(5,6) by (auto simp: exact_ids_Inr)
  ultimately have "complete_turn_with_renotice now ?P R t ?s ?d = Inr (run, d')"
    using c(1) R(1) by (cases "?P = []") (auto simp: complete_turn_with_renotice_def)
  then have "settle_with now t R row_ids rt = (Inr R, rt\<lparr>rt_db := d'\<rparr>)"
    using R(1) rows u(4) by (simp add: settle_with_def)
  moreover have "envelope_id m \<in> set R \<longleftrightarrow> again m" if "m \<in> set (messages ?d)" "in_turn_of t m" for m
    using R(3) that distinct_map_unique [OF keys] by auto
  then have "settled_rows now t (\<lambda>m. envelope_id m \<in> set R) (messages ?d) = settled_rows now t again (messages ?d)"
    by (intro settled_rows_cong)
  ultimately show ?thesis using c R(3) by (auto simp: settled_def)
qed

lemma settled_fallback:
  assumes "union_exact rt" "act_turn_id (active rt) = t" "t \<noteq> []"
    and again: "\<And>m. m \<in> set (messages (rt_db rt)) \<Longrightarrow> in_turn_of t m \<Longrightarrow> again m \<longleftrightarrow> \<not> renotified m"
  shows "settled now t again rt
    (store_call (complete_turn_renotice_unrenotified now t (act_provider_session_id (active rt))) rt)"
proof -
  note u = union_exactD [OF assms(1-3)]
  let ?d = "rt_db rt" and ?s = "act_provider_session_id (active rt)"
  let ?P = "renotified_members t ?d" and ?R = "unrenotified_members t ?d"
  have it: "inv_turns ?d" and keys: "distinct (map envelope_id (messages ?d))"
    using u(1) by (auto simp: store_inv_def inv_messages_def)
  have part: "distinct (?P @ ?R)" "set (?P @ ?R) = set (turn_message_ids ?d t)"
    using u(6) by (auto simp: renotified_members_def unrenotified_members_def)
  from complete_settles [OF u(1-3) part, of now] obtain run d' where
    c: "complete_turn now ?P ?R t None ?s ?d = Inr (run, d')" "store_inv d'" "\<not> turn_active d' t"
      "messages d' = settled_rows now t (\<lambda>m. envelope_id m \<in> set ?R) (messages ?d)"
      "turn_run_messages d' = turn_run_messages ?d" by blast
  then have op: "complete_turn_renotice_unrenotified now t ?s ?d = Inr (?R, d')"
    by (simp add: fallback_unfold)
  have mem: "envelope_id m \<in> set ?R \<longleftrightarrow> again m" if "m \<in> set (messages ?d)" "in_turn_of t m" for m
    using that in_turn_member [OF it that] again [OF that] distinct_map_unique [OF keys]
    by (auto simp: unrenotified_members_def)
  have ids: "set ?R = envelope_id ` {m \<in> set (messages ?d). in_turn_of t m \<and> again m}"
  proof (intro equalityI subsetI)
    fix i assume i: "i \<in> set ?R"
    then obtain m where m: "m \<in> set (messages ?d)" "envelope_id m = i" "in_turn_of t m"
      using member_in_turn [OF it _ u(2), of i] by (auto simp: unrenotified_members_def)
    with i mem show "i \<in> envelope_id ` {m \<in> set (messages ?d). in_turn_of t m \<and> again m}" by auto
  qed (use mem in auto)
  have "settled_rows now t (\<lambda>m. envelope_id m \<in> set ?R) (messages ?d) = settled_rows now t again (messages ?d)"
    by (rule settled_rows_cong) (rule mem)
  with op c ids show ?thesis by (auto simp: settled_def)
qed

lemma finalize_settles:
  assumes "union_exact rt" "act_turn_id (active rt) = t" "t \<noteq> []" "act_message_ids (active rt) \<noteq> []"
  shows "settled now t (redelivered aliases en t rt) rt (finalize_active_messages now aliases en t rt)"
proof -
  note u = union_exactD [OF assms(1-3)]
  let ?d = "rt_db rt" and ?s = "act_provider_session_id (active rt)" and ?again = "redelivered aliases en t rt"
  let ?rows = "get_in_turn_messages t ?s ?d"
  note plain = settled_plainly [OF assms, of ?again now]
  show ?thesis
  proof (cases ?s)
    case None
    then have "settle_with now t (if en then [] else []) [] rt = settle_plainly now t rt" by (simp add: settle_with_def)
    moreover have "reconcile_uncovered_messages aliases en t rt = Some (if en then [] else [], [])"
      using None by (simp add: reconcile_uncovered_messages_def get_in_turn_messages_def)
    ultimately show ?thesis using plain None by (simp add: finalize_active_messages_def redelivered_def)
  next
    case (Some s)
    from assms(1-3) Some obtain r where r: "r \<in> set (turn_runs ?d)" "tr_turn_id r = t"
      "tr_state r = processing_state_value IN_TURN" "tr_provider_session_id r = Some s"
      by (auto simp: union_exact_def open_turn_def)
    note rows = in_turn_rows [OF u(1) r]
    show ?thesis
    proof (cases "candidate_ids aliases ?rows")
      case None
      then have rec: "reconcile_uncovered_messages aliases en t rt = None"
        by (simp add: reconcile_uncovered_messages_def Let_def)
      show ?thesis
      proof (cases en)
        case True
        have "?again m \<longleftrightarrow> \<not> renotified m" for m using True None Some by (simp add: redelivered_def)
        from settled_fallback [OF assms(1-3), of ?again now] this
        have "settled now t ?again rt (store_call (complete_turn_renotice_unrenotified now t ?s) rt)" by blast
        then show ?thesis using rec True
          by (auto simp: finalize_active_messages_def settled_def)
      next
        case False
        then show ?thesis using plain rec by (simp add: finalize_active_messages_def redelivered_def)
      qed
    next
      case cand: (Some ids)
      let ?R = "if en then filter (\<lambda>i. i \<notin> get_covered_ids ids ?d) ids else []"
      have rec: "reconcile_uncovered_messages aliases en t rt = Some (?R, map envelope_id ?rows)"
        using cand by (simp add: reconcile_uncovered_messages_def Let_def)
      have ids: "ids = map envelope_id (filter (answerable aliases) ?rows)"
        using cand by (rule candidate_ids_Some)
      have named: "i \<noteq> []" if "i \<in> set ids" for i
        using that ids rows(2) u(5) Some by fastforce
      have setR: "set ?R = envelope_id ` {m \<in> set (messages ?d). in_turn_of t m \<and> ?again m}"
      proof -
        have "set ?R = {i \<in> set ids. en \<and> i \<notin> get_covered_ids ids ?d}" by auto
        also have "\<dots> = {i \<in> set ids. en \<and> i \<notin> covered_ids ?d}"
          using named covered_named [of _ ids ?d] by blast
        also have "\<dots> = envelope_id ` {m \<in> set ?rows. en \<and> answerable aliases m \<and> envelope_id m \<notin> covered_ids ?d}"
          unfolding ids by auto
        also have "\<dots> = envelope_id ` {m \<in> set (messages ?d). in_turn_of t m \<and> ?again m}"
          using rows(1) Some cand by (auto simp: redelivered_def answerable_def)
        finally show ?thesis .
      qed
      show ?thesis
      proof (cases "?R = []")
        case True
        have "envelope_id ` {m \<in> set (messages ?d). in_turn_of t m \<and> ?again m} = {}"
          unfolding setR [symmetric] True by (rule list.set(1))
        then have "\<not> ?again m" if "m \<in> set (messages ?d)" "in_turn_of t m" for m
          using that by blast
        moreover have "finalize_active_messages now aliases en t rt = settle_plainly now t rt"
          unfolding finalize_active_messages_def rec using True by (simp add: settle_with_def)
        ultimately show ?thesis using plain by metis
      next
        case False
        have "distinct ?R" using rows(3) Some by (auto simp: ids distinct_map_filter)
        from settled_renotice [OF assms(1-3) False this setR, of "map envelope_id ?rows" now] rows(2) Some
        show ?thesis by (simp add: finalize_active_messages_def rec)
      qed
    qed
  qed
qed

lemma finish_settles_active:
  assumes "union_exact rt" "act_turn_id (active rt) = t" "t \<noteq> []"
  shows "\<exists>ids rt'. mark_active_processed now aliases en t rt = (Inr ids, rt') \<and>
    active rt' = active rt \<and> store_inv (rt_db rt') \<and> \<not> turn_active (rt_db rt') t \<and>
    turn_run_messages (rt_db rt') = turn_run_messages (rt_db rt) \<and>
    messages (rt_db rt') =
      (if act_message_ids (active rt) = [] then messages (rt_db rt)
       else settled_rows now t (redelivered aliases en t rt) (messages (rt_db rt)))"
proof (cases "act_message_ids (active rt) = []")
  case True
  note u = union_exactD [OF assms]
  obtain run d' where "finalize_empty_turn now t (processing_state_value PROCESSED) (rt_db rt) = Inr (run, d')"
    "turns_given_up {t} (rt_db rt) d'" "messages d' = messages (rt_db rt)"
    using finalize_gives_up [OF u(1,2), of "processing_state_value PROCESSED" now] u(4) True by auto
  then show ?thesis using True by (auto simp: mark_active_processed_def turns_given_up_def)
next
  case False
  from finalize_settles [OF assms False, of now aliases en] obtain ids rt1 where
    fin: "finalize_active_messages now aliases en t rt = (Inr ids, rt1)" and
    s: "active rt1 = active rt" "store_inv (rt_db rt1)" "\<not> turn_active (rt_db rt1) t"
      "messages (rt_db rt1) = settled_rows now t (redelivered aliases en t rt) (messages (rt_db rt))"
      "turn_run_messages (rt_db rt1) = turn_run_messages (rt_db rt)"
    by (auto simp: settled_def)
  let ?d = "snd (release_notice_delivery (act_provider_session_id (active rt))
      (Some (act_notice_message_ids (active rt))) (rt_db rt1))"
  have "mark_active_processed now aliases en t rt = (Inr ids, rt1\<lparr>rt_db := ?d\<rparr>)"
    using fin False by (simp add: mark_active_processed_def)
  moreover have "store_inv ?d" "\<not> turn_active ?d t" "messages ?d = messages (rt_db rt1)"
    "turn_run_messages ?d = turn_run_messages (rt_db rt1)"
    using s by (simp_all add: store_inv_release release_frame turn_active_def)
  ultimately show ?thesis using s False by auto
qed

text \<open>The sample store with both rows in turn \<open>t1\<close>, and the union that goes with it.\<close>

definition turn_rt :: runtime where
  "turn_rt = \<lparr>rt_db = turn_db, active = cleared_union\<lparr>act_turn_id := ''t1'',
     act_message_ids := [''e2'', ''e1''], act_provider_session_id := Some ''s''\<rparr>\<rparr>"

lemma turn_rt_exact: "union_exact turn_rt" "act_turn_id (active turn_rt) = ''t1''"
proof -
  have "open_turn ''t1'' (Some ''s'') turn_db" by (simp add: open_turn_def turn_db_def)
  moreover have "named_members turn_db" by (simp add: named_members_def turn_db_def)
  ultimately show "union_exact turn_rt" using store_inv_turn_db by (simp add: union_exact_def turn_rt_def)
qed (simp add: turn_rt_def)

text \<open>
  When a turn fails or is cancelled while it is the active one, the requeue never raises: its
  covered rows are processed, all its other rows are pending again, no other row changes, and no
  other turn is closed.
\<close>

theorem failed_turn_given_up:
  assumes "union_exact rt" "act_turn_id (active rt) = t" "t \<noteq> []"
  shows "\<exists>rt'. requeue_active_turn now t rt = (Inr True, rt') \<and> active rt' = active rt \<and>
    turns_given_up {t} (rt_db rt) (rt_db rt')"
  using assms by (rule requeue_gives_up_active)

theorem failed_turn_given_up_witness:
  "\<exists>rt'. requeue_active_turn 30 ''t1'' turn_rt = (Inr True, rt') \<and> active rt' = active turn_rt \<and>
    turns_given_up {''t1''} (rt_db turn_rt) (rt_db rt')"
  by (rule failed_turn_given_up [OF turn_rt_exact]) simp

text \<open>
  C24: when a turn finishes while it is the active one, settling it never raises. A turn that read
  nothing is closed and changes no row. Otherwise each of its rows is either processed or, if nobody
  answered it, pending again with its one redelivery used up; with redelivery on, that is every row of
  a person that no cover names, and every row not yet redelivered when a sender cannot be
  classified. The rows outside the turn are untouched.
\<close>

theorem finished_turn_settles:
  assumes "union_exact rt" "act_turn_id (active rt) = t" "t \<noteq> []"
  shows "\<exists>ids rt'. mark_active_processed now aliases en t rt = (Inr ids, rt') \<and>
    active rt' = active rt \<and> store_inv (rt_db rt') \<and> \<not> turn_active (rt_db rt') t \<and>
    messages (rt_db rt') =
      (if act_message_ids (active rt) = [] then messages (rt_db rt)
       else settled_rows now t (redelivered aliases en t rt) (messages (rt_db rt)))"
  using finish_settles_active [OF assms, of now aliases en] by blast

theorem finished_turn_settles_witness:
  "\<exists>ids rt'. mark_active_processed 30 [] True ''t1'' turn_rt = (Inr ids, rt') \<and>
    active rt' = active turn_rt \<and> store_inv (rt_db rt') \<and> \<not> turn_active (rt_db rt') ''t1'' \<and>
    messages (rt_db rt') =
      (if act_message_ids (active turn_rt) = [] then messages (rt_db turn_rt)
       else settled_rows 30 ''t1'' (redelivered [] True ''t1'' turn_rt) (messages (rt_db turn_rt)))"
  by (rule finished_turn_settles [OF turn_rt_exact]) simp

end
