(* ===== verification/Union_Props.thy ===== *)
theory Union_Props
  imports Settle_Props
begin

section \<open>The union stays exact\<close>

text \<open>
  The life of the active union as a transition system: a turn starts when none is active, the
  provider binds, retries and rebinds, the model reads pages, the turn is settled or given up and the
  union cleared, and in between the store changes in ways that leave the turn tables alone.
\<close>

inductive lifecycle_step :: "runtime \<Rightarrow> runtime \<Rightarrow> bool" where
  started: "act_turn_id (active rt) = [] \<Longrightarrow> lifecycle_step rt (snd (start_local_turn now session planned rt))"
| bound: "lifecycle_step rt (snd (admit planned event rt))"
| rebound: "lifecycle_step rt (snd (admit_retry_attempt planned event rt))"
| read_page: "lifecycle_step rt (snd (admit_inbox_page now page turn session provider_turn rt))"
| finished: "act_turn_id (active rt) = t \<Longrightarrow> t \<noteq> []
    \<Longrightarrow> lifecycle_step rt ((snd (mark_active_processed now aliases en t rt))\<lparr>active := cleared_union\<rparr>)"
| failed: "act_turn_id (active rt) = t \<Longrightarrow> t \<noteq> []
    \<Longrightarrow> lifecycle_step rt ((snd (requeue_active_turn now t rt))\<lparr>active := cleared_union\<rparr>)"
| stored: "store_inv d \<Longrightarrow> turn_runs d = turn_runs (rt_db rt)
    \<Longrightarrow> turn_run_messages d = turn_run_messages (rt_db rt) \<Longrightarrow> lifecycle_step rt (rt\<lparr>rt_db := d\<rparr>)"

inductive lifecycle_reach :: "runtime \<Rightarrow> bool" where
  booted: "store_inv d \<Longrightarrow> named_members d \<Longrightarrow> lifecycle_reach \<lparr>rt_db = d, active = cleared_union\<rparr>"
| stepped: "lifecycle_reach rt \<Longrightarrow> lifecycle_step rt rt' \<Longrightarrow> lifecycle_reach rt'"

subsection \<open>What the store calls leave\<close>

lemma turn_run_fields:
  assumes "get_turn_run d t = Some run"
  shows "run_turn_id run = t" "run_message_ids run = turn_message_ids d t"
  using assms sql_fetchone_Some [of "\<lambda>r. tr_turn_id r = t" "turn_runs d"]
  by (auto simp: get_turn_run_def split: option.splits)

lemma admit_opens:
  assumes inv: "store_inv d" and nm: "named_members d" and op: "admit_messages now ids t session v d = Inr (run, d')"
  shows "store_inv d'" "named_members d'" "open_turn t session d'" "t \<noteq> []" "run_turn_id run = t"
    "run_message_ids run = turn_message_ids d' t"
proof -
  from op obtain n d1 where c: "[] \<notin> set ids" "t \<noteq> []" "admit_turn ids t session (get_default v now) d = Inr (n, d1)"
    "d' = refresh_notice_state now None (admitted_db ids t (get_default v now) n d1)" "get_turn_run d' t = Some run"
    by (rule admit_cases)
  note f = admit_turn_Inr [OF inv c(3)]
  have "open_turn t session d1"
    using c(3) by (auto simp: admit_turn_def open_turn_def res_bind_Inr insert_turn_run_def
        split: option.splits if_splits dest: sql_fetchone_Some)
  then show "open_turn t session d'" by (simp add: c(4) open_turn_def admitted_db_def)
  have "trm_envelope_id r \<noteq> []" if "r \<in> set (new_members t n ids)" for r
    using that set_new_members [of t n ids] c(1) by force
  then show "named_members d'" using nm f(4) by (auto simp: c(4) named_members_def admitted_db_def)
  show "store_inv d'" using inv op by (rule store_inv_admit)
  show "t \<noteq> []" "run_turn_id run = t" "run_message_ids run = turn_message_ids d' t"
    using c(2) turn_run_fields [OF c(5)] by auto
qed

lemma start_opens:
  assumes inv: "store_inv d" and nm: "named_members d" and op: "start_turn now t session st gen ids d = Inr (run, d')"
  shows "store_inv d'" "named_members d'" "open_turn t session d'" "t \<noteq> []" "run_turn_id run = t"
    "run_message_ids run = turn_message_ids d' t"
proof -
  from op obtain d1 where d1: "turn_run_messages d1 = turn_run_messages d" "t \<noteq> []"
    and ins: "insert_turn_run \<lparr>tr_turn_id = t, tr_provider_session_id = session,
         tr_state = processing_state_value IN_TURN, tr_started_at = get_default st now, tr_completed_at = None\<rparr> d1 = Inr d'"
    and run: "get_turn_run d' t = Some run"
    by (auto simp: start_turn_def res_bind_Inr turn_result_Inr Let_def split: if_splits option.splits prod.splits)
       (metis mark_unlocked_frame(3) snd_conv)+
  show "open_turn t session d'" "named_members d'"
    using ins nm d1 by (auto simp: insert_turn_run_def open_turn_def named_members_def split: if_splits)
  show "store_inv d'" using inv op by (rule store_inv_start_turn)
  show "t \<noteq> []" "run_turn_id run = t" "run_message_ids run = turn_message_ids d' t"
    using d1 turn_run_fields [OF run] by auto
qed

lemma members_resolve:
  assumes "store_inv d" "turn_active d t" "i \<in> set (turn_message_ids d t)" "i \<noteq> []"
  shows "get_message_by_envelope i d \<noteq> None"
  using member_in_turn [of d i t] assms by (auto simp: get_message_by_envelope_def sql_fetchone_None store_inv_def)

lemma add_visible_frame:
  "\<exists>r f. add_visible_message_ids ids rt = (r, rt\<lparr>active := (active rt)\<lparr>act_visible_message_ids := f\<rparr>\<rparr>)"
  by (auto simp: add_visible_message_ids_def intro: exI [of _ "act_visible_message_ids (active rt)"])

lemma add_visible_total:
  "[] \<notin> set ids \<Longrightarrow> (\<And>i. i \<in> set ids \<Longrightarrow> get_message_by_envelope i (rt_db rt) \<noteq> None)
   \<Longrightarrow> fst (add_visible_message_ids ids rt) = Inr ()"
  by (auto simp: add_visible_message_ids_def list_ex_iff)

subsection \<open>The steps\<close>

lemma start_exact:
  assumes ex: "union_exact rt" and none: "act_turn_id (active rt) = []"
  shows "union_exact (snd (start_local_turn now session planned rt))"
proof -
  let ?op = "if planned_message_ids planned \<noteq> []
          then admit_messages now (planned_message_ids planned) (planned_turn_id planned) session None
          else start_turn now (planned_turn_id planned) session None (Some (notice_generation planned))
                 (notice_message_ids planned)"
  have inv: "store_inv (rt_db rt)" "named_members (rt_db rt)" using ex by (auto simp: union_exact_def)
  show ?thesis
  proof (cases "?op (rt_db rt)")
    case (Inl e)
    then have "start_local_turn now session planned rt = (Inl (StoreRaised e), rt)"
      by (simp add: start_local_turn_def)
    then show ?thesis using ex by simp
  next
    case (Inr p)
    then obtain run d' where op: "?op (rt_db rt) = Inr (run, d')" by (cases p) auto
    have o: "store_inv d'" "named_members d'" "open_turn (planned_turn_id planned) session d'"
      "run_turn_id run = planned_turn_id planned" "run_message_ids run = turn_message_ids d' (planned_turn_id planned)"
      using op admit_opens [OF inv] start_opens [OF inv] by (auto split: if_splits)
    let ?rt = "rt\<lparr>rt_db := d', active := (active rt)\<lparr>act_turn_id := run_turn_id run,
        act_message_ids := run_message_ids run, act_notice_message_ids := notice_message_ids planned\<rparr>\<rparr>"
    have act: "turn_active d' (planned_turn_id planned)" using o(3) by (auto simp: open_turn_def turn_active_def)
    have "fst (add_visible_message_ids (run_message_ids run) ?rt) = Inr ()"
      using members_resolve [OF o(1) act] named_members_ids [OF o(2)] o(5) by (intro add_visible_total) auto
    with add_visible_frame obtain f where
      v: "add_visible_message_ids (run_message_ids run) ?rt = (Inr (), ?rt\<lparr>active := (active ?rt)\<lparr>act_visible_message_ids := f\<rparr>\<rparr>)"
      by (metis fst_conv)
    have "store_call ?op rt = (Inr run, rt\<lparr>rt_db := d'\<rparr>)" using op by (rule store_call_Inr)
    then have "snd (start_local_turn now session planned rt) =
        ?rt\<lparr>active := (active ?rt)\<lparr>act_visible_message_ids := f, act_provider_session_id := session,
          act_provider_turn_id := None, act_routes := planned_routes planned\<rparr>\<rparr>"
      using v by (simp add: start_local_turn_def)
    then show ?thesis using o by (simp add: union_exact_def)
  qed
qed

lemma transfer_opens:
  assumes inv: "store_inv d" and op: "transfer_turn_session t a b d = Inr (run, d')"
  shows "store_inv d'" "turn_run_messages d' = turn_run_messages d" "open_turn t (Some b) d'"
proof -
  let ?Q = "\<lambda>r. tr_turn_id r = t \<and> tr_state r = processing_state_value IN_TURN \<and> tr_provider_session_id r = a"
  from op have d': "d' = d\<lparr>turn_runs := sql_update ?Q (\<lambda>r. r\<lparr>tr_provider_session_id := Some b\<rparr>) (turn_runs d)\<rparr>"
    and one: "sql_count ?Q (turn_runs d) = 1"
    by (auto simp: transfer_turn_session_def update_active_turn_def res_bind_Inr turn_result_Inr Let_def split: if_splits)
  from one have "filter ?Q (turn_runs d) \<noteq> []" by (auto simp: sql_count_def)
  then obtain r where r: "r \<in> set (turn_runs d)" "?Q r" unfolding filter_empty_conv by blast
  then have "r\<lparr>tr_provider_session_id := Some b\<rparr> \<in> set (turn_runs d')"
    using sql_update_in [of r "turn_runs d" ?Q "\<lambda>r. r\<lparr>tr_provider_session_id := Some b\<rparr>"] by (simp add: d')
  then show "open_turn t (Some b) d'" unfolding open_turn_def by (rule bexI [rotated]) (use r in simp)
  show "store_inv d'" using inv op by (rule store_inv_transfer)
  show "turn_run_messages d' = turn_run_messages d" by (simp add: d')
qed

lemma mark_frame:
  "messages (snd (mark_notice_delivered g s ids t d)) = messages d"
  "turn_runs (snd (mark_notice_delivered g s ids t d)) = turn_runs d"
  "turn_run_messages (snd (mark_notice_delivered g s ids t d)) = turn_run_messages d"
  by (simp_all add: mark_notice_delivered_def Let_def mark_unlocked_frame)

lemma union_exact_tables:
  assumes "union_exact rt" "store_inv d" "turn_runs d = turn_runs (rt_db rt)"
    "turn_run_messages d = turn_run_messages (rt_db rt)"
  shows "union_exact (rt\<lparr>rt_db := d\<rparr>)"
  using assms by (simp add: union_exact_def open_turn_def named_members_def turn_message_ids_def)

text \<open>After the transfer the union is exact for the new session.\<close>

lemma bind_exact:
  assumes ex: "union_exact rt" and t: "act_turn_id (active rt) = planned_turn_id planned"
  shows "union_exact (snd (bind_provider planned event rt))"
proof -
  define prev where "prev = act_provider_session_id (active rt)"
  define s where "s = (if truthy (ev_provider_session_id event) then ev_provider_session_id event else prev)"
  define t0 where "t0 = planned_turn_id planned"
  define mark where "mark = act_when (notice_message_ids planned \<noteq> [] \<and> truthy s)
      (act_bind (store_write (mark_notice_delivered (notice_generation planned) s
          (Some (notice_message_ids planned)) (Some t0))) (\<lambda>_. act_return ()))"
  define assign where "assign = set_active (\<lambda>a. a\<lparr>act_provider_session_id := s,
      act_provider_turn_id := ev_provider_turn_id event\<rparr>)"
  have inv: "store_inv (rt_db rt)" using ex by (simp add: union_exact_def)
  have eq: "bind_provider planned event rt = act_bind
      (act_when (s \<noteq> prev) (act_bind (store_call (transfer_turn_session t0 prev (or_empty s))) (\<lambda>_. act_return ())))
      (\<lambda>_. act_bind mark (\<lambda>_. assign)) rt"
    by (simp only: bind_provider_def Let_def prev_def s_def t0_def mark_def assign_def)
  have tail: "union_exact (snd (act_bind mark (\<lambda>_. assign) x))"
    if x: "union_exact (x\<lparr>active := (active x)\<lparr>act_provider_session_id := s\<rparr>\<rparr>)" for x
  proof -
    let ?d = "snd (mark_notice_delivered (notice_generation planned) s (Some (notice_message_ids planned)) (Some t0) (rt_db x))"
    have "store_inv ?d" using x by (intro store_inv_mark) (simp add: union_exact_def)
    then have "union_exact ((x\<lparr>active := (active x)\<lparr>act_provider_session_id := s\<rparr>\<rparr>)\<lparr>rt_db := ?d\<rparr>)"
      by (intro union_exact_tables [OF x]) (simp_all add: mark_frame)
    then show ?thesis using x by (simp add: mark_def assign_def act_when_def union_exact_def)
  qed
  show ?thesis
  proof (cases "s = prev")
    case True
    have "union_exact (snd (act_bind mark (\<lambda>_. assign) rt))"
      by (rule tail) (use ex True in \<open>simp add: union_exact_def prev_def\<close>)
    moreover have "bind_provider planned event rt = act_bind mark (\<lambda>_. assign) rt"
      unfolding eq by (rule act_bind_Inr) (simp add: True act_when_def)
    ultimately show ?thesis by simp
  next
    case False
    then obtain b where b: "s = Some b" "or_empty s = b"
      by (auto simp: s_def truthy_def or_empty_def get_default_def split: if_splits option.splits)
    show ?thesis
    proof (cases "transfer_turn_session t0 prev b (rt_db rt)")
      case (Inl e)
      then have "bind_provider planned event rt = (Inl (StoreRaised e), rt)"
        unfolding eq using False b by (simp add: act_when_def)
      then show ?thesis using ex by simp
    next
      case (Inr p)
      then obtain run d' where op: "transfer_turn_session t0 prev b (rt_db rt) = Inr (run, d')" by (cases p) auto
      note o = transfer_opens [OF inv op]
      have "union_exact (snd (act_bind mark (\<lambda>_. assign) (rt\<lparr>rt_db := d'\<rparr>)))"
        by (rule tail) (use ex o t b in \<open>simp add: union_exact_def named_members_def turn_message_ids_def t0_def\<close>)
      moreover have "bind_provider planned event rt = act_bind mark (\<lambda>_. assign) (rt\<lparr>rt_db := d'\<rparr>)"
        unfolding eq using False b op by (intro act_bind_Inr) (simp add: act_when_def)
      ultimately show ?thesis by simp
    qed
  qed
qed

lemma advance_page_frame:
  "rt_db (advance_page page t rt) = rt_db rt \<and>
   (\<exists>f. active (advance_page page t rt) = (active rt)\<lparr>act_through_by_channel := f\<rparr>)"
proof (induction page arbitrary: rt)
  case Nil
  then show ?case by (auto intro: exI [of _ "act_through_by_channel (active rt)"])
next
  case (Cons m page)
  let ?rt = "let route = route_for m
        in if server_seq m \<noteq> None \<and> route_kind route \<noteq> ''dm'' then
             (case get_model_visible_through_seq t (route_space_id route) (route_channel_id route) None (rt_db rt) of
                None \<Rightarrow> rt
              | Some proven \<Rightarrow>
                  rt\<lparr>active := (active rt)\<lparr>act_through_by_channel :=
                       dict_set (act_through_by_channel (active rt))
                         (route_space_id route, route_channel_id route) proven\<rparr>\<rparr>)
           else rt"
  have "rt_db ?rt = rt_db rt" "\<exists>f. active ?rt = (active rt)\<lparr>act_through_by_channel := f\<rparr>"
    by (auto simp: Let_def intro: exI [of _ "act_through_by_channel (active rt)"] split: option.splits)
  with Cons [of ?rt] show ?case by auto
qed

lemma page_exact:
  assumes ex: "union_exact rt"
  shows "union_exact (snd (admit_inbox_page now page turn session provider_turn rt))"
proof -
  let ?ids = "map envelope_id page"
  have inv: "store_inv (rt_db rt)" "named_members (rt_db rt)" using ex by (auto simp: union_exact_def)
  show ?thesis
  proof (cases "act_turn_id (active rt) \<noteq> turn \<or> (session \<noteq> None \<and> act_provider_session_id (active rt) \<noteq> session)
      \<or> (provider_turn \<noteq> None \<and> act_provider_turn_id (active rt) \<noteq> provider_turn)")
    case True
    then show ?thesis using ex by (simp only: admit_inbox_page_def if_True act_simps snd_conv)
  next
    case False
    let ?op = "admit_messages now ?ids turn (act_provider_session_id (active rt)) None"
    let ?rest = "\<lambda>run. act_bind (set_active (\<lambda>a. a\<lparr>act_message_ids := run_message_ids run\<rparr>))
        (\<lambda>_. act_bind (add_visible_message_ids ?ids)
          (\<lambda>_. act_bind (set_active (\<lambda>a. a\<lparr>act_routes := act_routes a @ map route_for page\<rparr>))
            (\<lambda>_ rt'. (Inr (), advance_page page turn rt'))))"
    have eq: "admit_inbox_page now page turn session provider_turn rt = act_bind (store_call ?op) ?rest rt"
      unfolding admit_inbox_page_def Let_def using False by (simp only: if_False)
    show ?thesis
    proof (cases "?op (rt_db rt)")
      case (Inl e)
      then have "admit_inbox_page now page turn session provider_turn rt = (Inl (StoreRaised e), rt)"
        unfolding eq by (intro act_bind_Inl store_call_Inl)
      then show ?thesis using ex by simp
    next
      case (Inr p)
      then obtain run d' where op: "?op (rt_db rt) = Inr (run, d')" by (cases p) auto
      note o = admit_opens [OF inv op]
      let ?rt = "rt\<lparr>rt_db := d', active := (active rt)\<lparr>act_message_ids := run_message_ids run\<rparr>\<rparr>"
      obtain r f where v: "add_visible_message_ids ?ids ?rt = (r, ?rt\<lparr>active := (active ?rt)\<lparr>act_visible_message_ids := f\<rparr>\<rparr>)"
        using add_visible_frame by blast
      let ?rt2 = "?rt\<lparr>active := (active ?rt)\<lparr>act_visible_message_ids := f\<rparr>\<rparr>"
      let ?rt3 = "?rt2\<lparr>active := (active ?rt2)\<lparr>act_routes := act_routes (active ?rt2) @ map route_for page\<rparr>\<rparr>"
      have e: "union_exact ?rt2" "union_exact ?rt3" using o False by (simp_all add: union_exact_def)
      have adv: "union_exact (advance_page page turn ?rt3)"
        using e(2) advance_page_frame [of page turn ?rt3] by (auto simp: union_exact_def)
      have "act_bind (store_call ?op) ?rest rt = ?rest run (rt\<lparr>rt_db := d'\<rparr>)"
        using op by (intro act_bind_Inr store_call_Inr)
      also have "\<dots> = act_bind (add_visible_message_ids ?ids)
          (\<lambda>_. act_bind (set_active (\<lambda>a. a\<lparr>act_routes := act_routes a @ map route_for page\<rparr>))
            (\<lambda>_ rt'. (Inr (), advance_page page turn rt'))) ?rt"
        by (rule act_bind_Inr) simp
      finally have go: "admit_inbox_page now page turn session provider_turn rt = \<dots>" unfolding eq .
      show ?thesis
      proof (cases r)
        case (Inl e')
        have "admit_inbox_page now page turn session provider_turn rt = (Inl e', ?rt2)"
          unfolding go by (rule act_bind_Inl) (use v Inl in simp)
        then show ?thesis using e(1) by simp
      next
        case (Inr u)
        have "act_bind (set_active (\<lambda>a. a\<lparr>act_routes := act_routes a @ map route_for page\<rparr>))
            (\<lambda>_ rt'. (Inr (), advance_page page turn rt')) ?rt2 = (Inr (), advance_page page turn ?rt3)"
          by (rule act_bind_Inr [THEN trans]) (rule act_simps, rule refl)
        moreover have "admit_inbox_page now page turn session provider_turn rt =
            act_bind (set_active (\<lambda>a. a\<lparr>act_routes := act_routes a @ map route_for page\<rparr>))
              (\<lambda>_ rt'. (Inr (), advance_page page turn rt')) ?rt2"
          unfolding go by (rule act_bind_Inr) (use v Inr in simp)
        ultimately show ?thesis using adv by simp
      qed
    qed
  qed
qed

lemma mark_processed_exact:
  assumes "union_exact rt" "act_turn_id (active rt) = t" "t \<noteq> []"
  shows "store_inv (rt_db (snd (mark_active_processed now aliases en t rt))) \<and>
    named_members (rt_db (snd (mark_active_processed now aliases en t rt)))"
  using finish_settles_active [OF assms, of now aliases en] assms(1)
  by (auto simp: union_exact_def named_members_def)

lemma requeue_active_exact:
  assumes "union_exact rt" "act_turn_id (active rt) = t" "t \<noteq> []"
  shows "store_inv (rt_db (snd (requeue_active_turn now t rt))) \<and>
    named_members (rt_db (snd (requeue_active_turn now t rt)))"
  using requeue_gives_up_active [OF assms, of now] assms(1)
  by (auto simp: union_exact_def named_members_def turns_given_up_def)


definition sample_turn :: PlannedTurn where
  "sample_turn =
     \<lparr>planned_turn_id = ''t1'', planning_cycle_key = ''k'', planned_message_ids = [''e1'', ''e2''], planned_items = [],
      planned_routes = [], planned_targets = [], planned_pending_targets = [], planned_target_summary = [],
      formatted_blocks = [], provider_input = [], planned_tokens = 0, wrapper_overhead_tokens = 0,
      planned_bytes = 0, wrapper_overhead_bytes = 0, planned_more_available = False, notice_generation = 0,
      notice_message_ids = [], requires_encryption = False\<rparr>"

definition booted_rt :: runtime where
  "booted_rt = \<lparr>rt_db = two_db, active = cleared_union\<rparr>"


end
