(* ===== verification/Reminder_Timer.thy ===== *)
theory Reminder_Timer
  imports Reminder_Snapshots
begin

section \<open>The reminder timer\<close>

text \<open>
  \<open>agent/reminder_scheduler.py\<close>: reading an RFC 3339 timestamp, the tool operations with their
  wake-ups, a delivery pass with or without remote custody, and the deadline the loop waits for.
  The state is the database with the wake event, the stop flag and the retry time of the last
  authorization; the calls of \<open>notify\<close> and of the lifecycle callback are counted. The clock, fresh
  identifiers and the authorizer are arguments; a remote mutation handler replaces the local store
  call, so the operations here are those of a scheduler without one.
\<close>

subsection \<open>Timestamps\<close>

text \<open>The shape that \<open>_RFC3339_OFFSET\<close> asks for, cut into its numbers: date, time, the digits of
  the fraction, and the offset in minutes. Both the expression and \<open>datetime.fromisoformat\<close> have to
  accept the digits, which leaves the ASCII ones.\<close>

fun number_of :: "string \<Rightarrow> int option" where
  "number_of [] = Some 0"
| "number_of s =
     (if is_digit (last s)
      then (case number_of (butlast s) of
              None \<Rightarrow> None
            | Some n \<Rightarrow> Some (10 * n + int (of_char (last s)) - 48))
      else None)"

definition digits :: "nat \<Rightarrow> string \<Rightarrow> (int \<times> string) option" where
  "digits w s =
     (if length (take w s) = w
      then (case number_of (take w s) of None \<Rightarrow> None | Some n \<Rightarrow> Some (n, drop w s))
      else None)"

fun expect :: "char \<Rightarrow> string \<Rightarrow> string option" where
  "expect c [] = None"
| "expect c (x # s) = (if x = c then Some s else None)"

definition opt_bind :: "'a option \<Rightarrow> ('a \<Rightarrow> 'b option) \<Rightarrow> 'b option" where
  "opt_bind m f = (case m of None \<Rightarrow> None | Some a \<Rightarrow> f a)"

definition parse_fraction :: "string \<Rightarrow> (string \<times> string) option" where
  "parse_fraction s =
     (case expect (CHR ''.'') s of
        None \<Rightarrow> Some ([], s)
      | Some s' \<Rightarrow> (let ds = takeWhile is_digit s' in if ds = [] then None else Some (ds, dropWhile is_digit s')))"

definition parse_offset :: "string \<Rightarrow> int option" where
  "parse_offset s =
     (if s = ''Z'' then Some 0
      else case s of
        [] \<Rightarrow> None
      | c # rest \<Rightarrow>
          if c = CHR ''+'' \<or> c = CHR ''-'' then
            opt_bind (digits 2 rest) (\<lambda>(h, s1). opt_bind (expect (CHR '':'') s1) (\<lambda>s2.
              opt_bind (digits 2 s2) (\<lambda>(m, s3).
                if s3 = [] then Some (if c = CHR ''+'' then 60 * h + m else - (60 * h + m)) else None)))
          else None)"

record timestamp =
  ts_year :: int
  ts_month :: int
  ts_day :: int
  ts_hour :: int
  ts_minute :: int
  ts_second :: int
  ts_fraction :: string
  ts_offset :: int

definition parse_timestamp :: "string \<Rightarrow> timestamp option" where
  "parse_timestamp s0 =
     opt_bind (digits 4 s0) (\<lambda>(yy, s1). opt_bind (expect (CHR ''-'') s1) (\<lambda>s2.
     opt_bind (digits 2 s2) (\<lambda>(mo, s3). opt_bind (expect (CHR ''-'') s3) (\<lambda>s4.
     opt_bind (digits 2 s4) (\<lambda>(dd, s5). opt_bind (expect (CHR ''T'') s5) (\<lambda>s6.
     opt_bind (digits 2 s6) (\<lambda>(hh, s7). opt_bind (expect (CHR '':'') s7) (\<lambda>s8.
     opt_bind (digits 2 s8) (\<lambda>(mi, s9). opt_bind (expect (CHR '':'') s9) (\<lambda>s10.
     opt_bind (digits 2 s10) (\<lambda>(ss, s11). opt_bind (parse_fraction s11) (\<lambda>(frac, s12).
     opt_bind (parse_offset s12) (\<lambda>off.
       Some \<lparr>ts_year = yy, ts_month = mo, ts_day = dd, ts_hour = hh, ts_minute = mi, ts_second = ss,
             ts_fraction = frac, ts_offset = off\<rparr>)))))))))))))"

text \<open>The checks of the \<open>datetime\<close> constructor, and the day number of a date.\<close>

definition leap_year :: "int \<Rightarrow> bool" where
  "leap_year y \<longleftrightarrow> y mod 4 = 0 \<and> (y mod 100 \<noteq> 0 \<or> y mod 400 = 0)"

definition month_days :: "int \<Rightarrow> int \<Rightarrow> int" where
  "month_days y m =
     (if m = 2 then (if leap_year y then 29 else 28)
      else if m = 4 \<or> m = 6 \<or> m = 9 \<or> m = 11 then 30 else 31)"

definition valid_timestamp :: "timestamp \<Rightarrow> bool" where
  "valid_timestamp ts \<longleftrightarrow>
     1 \<le> ts_year ts \<and> ts_year ts \<le> 9999 \<and> 1 \<le> ts_month ts \<and> ts_month ts \<le> 12 \<and>
     1 \<le> ts_day ts \<and> ts_day ts \<le> month_days (ts_year ts) (ts_month ts) \<and>
     ts_hour ts \<le> 23 \<and> ts_minute ts \<le> 59 \<and> ts_second ts \<le> 59 \<and> \<bar>ts_offset ts\<bar> < 1440"

definition day_number :: "int \<Rightarrow> int \<Rightarrow> int \<Rightarrow> int" where
  "day_number y m d =
     (let y' = (if m \<le> 2 then y - 1 else y); era = y' div 400; yoe = y' mod 400;
          doy = (153 * (if m > 2 then m - 3 else m + 9) + 2) div 5 + d - 1
      in era * 146097 + (yoe * 365 + yoe div 4 - yoe div 100 + doy) - 719468)"

text \<open>Fractional digits beyond the sixth are cut.\<close>

definition fraction_us :: "string \<Rightarrow> int" where
  "fraction_us ds =
     (case number_of (take 6 (ds @ replicate 6 (CHR ''0''))) of None \<Rightarrow> 0 | Some n \<Rightarrow> n)"

text \<open>\<open>int(utc.timestamp() * 1000)\<close>: the quotient of the microseconds by a million as a double, the
  product with a thousand as a double, cut towards zero.\<close>

definition epoch_ms :: "int \<Rightarrow> int" where
  "epoch_ms us =
     (let (n, m) = to_double us 1000000; (pn, pm) = to_double (n * 1000) m
      in sgn pn * (\<bar>pn\<bar> div pm))"

text \<open>\<open>normalize_reminder_timestamp\<close>. An instant whose UTC year is outside 1 to 9999 raises
  \<open>OverflowError\<close> in \<open>astimezone\<close>.\<close>

datatype scheduler_error = Raised store_error | OverflowRaised

definition normalize_reminder_timestamp :: "string \<Rightarrow> scheduler_error + (int \<times> string)" where
  "normalize_reminder_timestamp v =
     (case parse_timestamp v of
        None \<Rightarrow> Inl (Raised (ValueError ''intended_at must be a non-empty RFC3339 timestamp''))
      | Some ts \<Rightarrow>
          if \<not> valid_timestamp ts
          then Inl (Raised (ValueError ''intended_at must be RFC3339 with an explicit UTC offset''))
          else let secs = day_number (ts_year ts) (ts_month ts) (ts_day ts) * 86400
                          + ts_hour ts * 3600 + ts_minute ts * 60 + ts_second ts - ts_offset ts * 60;
                   (yy, _, _) = civil_date (secs div 86400)
               in if yy < 1 \<or> 9999 < yy then Inl OverflowRaised
                  else let ms = epoch_ms (secs * 1000000 + fraction_us (ts_fraction ts))
                       in case reminder_time_to_rfc3339 ms of
                            Inl e \<Rightarrow> Inl (Raised e)
                          | Inr s \<Rightarrow> Inr (ms, s))"

subsection \<open>The scheduler object\<close>

text \<open>The remote coordinator installs three callbacks: they see the database and may write to it.\<close>

record ReminderDeliveryAuthorization =
  auth_occurrence_ids :: "string list"
  auth_retry_after_ms :: "int option"

type_synonym 'a db_call = "db \<Rightarrow> 'a res \<times> db"

record reminder_scheduler =
  timer_db :: db
  timer_wakeup :: bool
  timer_stopping :: bool
  timer_retry :: "int option"
  delivery_authorizer :: "(reminder_row list \<Rightarrow> ReminderDeliveryAuthorization db_call) option"
  has_lifecycle_callback :: bool
  cancellation_handler :: "(string \<Rightarrow> reminder_row db_call) option"
  replacement_handler :: "(string \<Rightarrow> string option \<Rightarrow> string option \<Rightarrow> int option
                           \<Rightarrow> (reminder_row \<times> reminder_row) db_call) option"
  notified :: nat
  lifecycle_calls :: nat

definition signal :: "reminder_scheduler \<Rightarrow> reminder_scheduler" where
  "signal s = s\<lparr>timer_wakeup := True\<rparr>"

definition stop :: "reminder_scheduler \<Rightarrow> reminder_scheduler" where
  "stop s = s\<lparr>timer_stopping := True, timer_wakeup := True\<rparr>"

definition set_delivery_authorizer ::
  "(reminder_row list \<Rightarrow> ReminderDeliveryAuthorization db_call) option \<Rightarrow> reminder_scheduler \<Rightarrow> reminder_scheduler" where
  "set_delivery_authorizer a s = signal (s\<lparr>delivery_authorizer := a, timer_retry := None\<rparr>)"

definition lifecycle_committed :: "reminder_scheduler \<Rightarrow> reminder_scheduler" where
  "lifecycle_committed s =
     (if has_lifecycle_callback s then s\<lparr>lifecycle_calls := lifecycle_calls s + 1\<rparr> else s)"

text \<open>What every successful tool call does after its commit; an exception of the call skips it.\<close>

definition tool_result :: "'a res \<times> db \<Rightarrow> ('a \<Rightarrow> json res) \<Rightarrow> reminder_scheduler
  \<Rightarrow> (scheduler_error + json) \<times> reminder_scheduler" where
  "tool_result outcome show_result s =
     (case outcome of
        (Inl e, d') \<Rightarrow> (Inl (Raised e), s\<lparr>timer_db := d'\<rparr>)
      | (Inr v, d') \<Rightarrow>
          (case show_result v of Inl e \<Rightarrow> Inl (Raised e) | Inr j \<Rightarrow> Inr j,
           lifecycle_committed (signal (s\<lparr>timer_db := d'\<rparr>))))"

text \<open>A store transaction that raises leaves the database as it was.\<close>

definition in_transaction :: "('a \<times> db) res \<Rightarrow> db \<Rightarrow> 'a res \<times> db" where
  "in_transaction r d = (case r of Inl e \<Rightarrow> (Inl e, d) | Inr (v, d') \<Rightarrow> (Inr v, d'))"

definition schedule_reminder ::
  "int \<Rightarrow> string \<Rightarrow> string \<Rightarrow> string \<Rightarrow> string \<Rightarrow> string \<Rightarrow> reminder_scheduler
   \<Rightarrow> (scheduler_error + json) \<times> reminder_scheduler" where
  "schedule_reminder now fresh_rid fresh_oid cont tgt intended_at s =
     (case normalize_reminder_timestamp intended_at of
        Inl e \<Rightarrow> (Inl e, s)
      | Inr (ms, _) \<Rightarrow>
          tool_result (in_transaction
            (create_reminder now fresh_rid fresh_oid cont tgt ms None None None (timer_db s)) (timer_db s))
            reminder_as_dict s)"

definition PUBLIC_REMINDER_STATES :: "string list" where
  "PUBLIC_REMINDER_STATES = [''scheduled'', ''cancelled'', ''delivered'']"

fun as_dicts :: "reminder_row list \<Rightarrow> json list res" where
  "as_dicts [] = Inr []"
| "as_dicts (r # rs) = res_bind (reminder_as_dict r) (\<lambda>j. res_bind (as_dicts rs) (\<lambda>js. Inr (j # js)))"

definition show_reminders :: "string \<Rightarrow> int \<Rightarrow> reminder_scheduler \<Rightarrow> json res" where
  "show_reminders st limit s =
     (if st \<noteq> [] \<and> st \<notin> set PUBLIC_REMINDER_STATES
      then Inl (ValueError ''state must be empty or one of scheduled, cancelled, delivered'')
      else if \<not> (1 \<le> limit \<and> limit \<le> MAX_REMINDER_LIST_LIMIT)
      then Inl (ValueError ''limit must be between 1 and 100'')
      else res_bind (list_reminders st limit (timer_db s)) (\<lambda>rs.
             res_bind (as_dicts rs) (\<lambda>js. Inr (JObj [(''reminders'', JArr js)]))))"

definition withdraw_reminder ::
  "int \<Rightarrow> string \<Rightarrow> reminder_scheduler \<Rightarrow> (scheduler_error + json) \<times> reminder_scheduler" where
  "withdraw_reminder now rid s =
     tool_result (case cancellation_handler s of
                  None \<Rightarrow> in_transaction (cancel_reminder rid now (timer_db s)) (timer_db s)
                | Some h \<Rightarrow> h rid (timer_db s))
       reminder_as_dict s"

definition or_none :: "string \<Rightarrow> string option" where
  "or_none v = (if v = [] then None else Some v)"

definition as_dict_pair :: "reminder_row \<times> reminder_row \<Rightarrow> json res" where
  "as_dict_pair p =
     res_bind (reminder_as_dict (fst p)) (\<lambda>c. res_bind (reminder_as_dict (snd p)) (\<lambda>r.
       Inr (JObj [(''cancelled'', c), (''replacement'', r)])))"

definition replace_stored ::
  "int \<Rightarrow> string \<Rightarrow> string \<Rightarrow> string \<Rightarrow> string \<Rightarrow> string \<Rightarrow> int option \<Rightarrow> (reminder_row \<times> reminder_row) db_call" where
  "replace_stored now fresh_rid fresh_oid rid cont tgt intended d =
     in_transaction
       (res_bind (get_reminder rid d) (\<lambda>found. case found of
          None \<Rightarrow> Inl (ValueError ''unknown reminder_id'')
        | Some old \<Rightarrow>
            replace_local_reminder rid (''reminder-'' @ fresh_rid) (''occurrence-'' @ fresh_oid)
              (if cont = [] then rem_content old else cont) (if tgt = [] then rem_target old else tgt)
              (get_default intended (intended_at_ms old)) now d)) d"

definition supersede_reminder ::
  "int \<Rightarrow> string \<Rightarrow> string \<Rightarrow> string \<Rightarrow> string \<Rightarrow> string \<Rightarrow> string \<Rightarrow> reminder_scheduler
   \<Rightarrow> (scheduler_error + json) \<times> reminder_scheduler" where
  "supersede_reminder now fresh_rid fresh_oid rid cont tgt intended_at s =
     (case (if intended_at = [] then Inr None
            else case normalize_reminder_timestamp intended_at of
                   Inl e \<Rightarrow> Inl e | Inr (ms, _) \<Rightarrow> Inr (Some ms)) of
        Inl e \<Rightarrow> (Inl e, s)
      | Inr intended \<Rightarrow>
          if cont = [] \<and> tgt = [] \<and> intended_at = []
          then (Inl (Raised (ValueError ''replace_reminder requires at least one changed field'')), s)
          else tool_result (case replacement_handler s of
                 Some h \<Rightarrow> h rid (or_none cont) (or_none tgt) intended (timer_db s)
               | None \<Rightarrow> replace_stored now fresh_rid fresh_oid rid cont tgt intended (timer_db s))
            as_dict_pair s)"

subsection \<open>A delivery pass\<close>

text \<open>The readings of the clock in one pass: its own, those of the claim, of the selection of
  claimed rows and of each delivery.\<close>

record pass_clock =
  pass_now :: int
  pass_claim :: "int \<times> int"
  pass_select :: int
  pass_each :: "nat \<Rightarrow> int \<times> int \<times> int"

definition after_pass :: "reminder_row list res \<times> db \<Rightarrow> reminder_scheduler
  \<Rightarrow> reminder_row list res \<times> reminder_scheduler" where
  "after_pass outcome s =
     (case outcome of
        (Inl e, d') \<Rightarrow> (Inl e, s\<lparr>timer_db := d'\<rparr>)
      | (Inr rs, d') \<Rightarrow>
          (let s' = s\<lparr>timer_db := d', notified := notified s + length rs\<rparr>
           in (Inr rs, if rs = [] then s' else lifecycle_committed s')))"

definition process_due_once ::
  "pass_clock \<Rightarrow> reminder_scheduler \<Rightarrow> reminder_row list res \<times> reminder_scheduler" where
  "process_due_once clk s =
     (case delivery_authorizer s of
        None \<Rightarrow> after_pass (deliver_due_reminders (pass_each clk) (pass_now clk) (timer_db s)) s
      | Some authorize \<Rightarrow>
          (case authorize (due_reminder_delivery_candidates (pass_now clk) (timer_db s)) (timer_db s) of
             (Inl e, d1) \<Rightarrow> (Inl e, s\<lparr>timer_db := d1\<rparr>)
           | (Inr a, d1) \<Rightarrow>
               let oids = auth_occurrence_ids a;
                   s1 = s\<lparr>timer_db := d1, timer_retry := auth_retry_after_ms a\<rparr>
               in case claim_authorized_reminders (fst (pass_claim clk)) (snd (pass_claim clk))
                         oids (pass_now clk) d1 of
                    Inl e \<Rightarrow> (Inl e, s1)
                  | Inr (_, d2) \<Rightarrow>
                      after_pass (deliver_authorized_reminders (pass_each clk) (pass_select clk)
                        oids (pass_now clk) d2) s1))"

subsection \<open>The loop\<close>

text \<open>\<open>run\<close> computes the deadline from the durable rows. A retry time stands for due work whose claim
  was blocked: then only later work counts beside it.\<close>

definition wait_deadline :: "int \<Rightarrow> reminder_scheduler \<Rightarrow> int option" where
  "wait_deadline now s =
     (let local_only = Option.is_none (delivery_authorizer s);
          deadline = next_reminder_deadline now local_only None (timer_db s)
      in case timer_retry s of
           None \<Rightarrow> deadline
         | Some retry \<Rightarrow>
             (case (case deadline of
                      None \<Rightarrow> next_reminder_deadline now local_only (Some now) (timer_db s)
                    | Some t \<Rightarrow> if t \<le> now
                        then next_reminder_deadline now local_only (Some now) (timer_db s) else Some t) of
                None \<Rightarrow> Some retry
              | Some t \<Rightarrow> Some (min t retry)))"

text \<open>\<open>_wait_until_changed_or_due\<close>: a wake-up that already happened is taken at once; otherwise the
  wait ends after the given milliseconds, or only with a wake-up. Either way the event is cleared.\<close>

datatype timer_wait = AlreadySignalled | WaitMillis int | WaitSignal

definition wait_until_changed_or_due :: "int \<Rightarrow> int option \<Rightarrow> reminder_scheduler \<Rightarrow> timer_wait \<times> reminder_scheduler" where
  "wait_until_changed_or_due now deadline s =
     (if timer_wakeup s then AlreadySignalled
      else case deadline of None \<Rightarrow> WaitSignal | Some t \<Rightarrow> WaitMillis (max 0 (t - now)),
      s\<lparr>timer_wakeup := False\<rparr>)"

text \<open>One round of \<open>run\<close>: \<open>None\<close> when it ends, the exception of the pass when it raises.\<close>

definition run_once ::
  "pass_clock \<Rightarrow> int \<Rightarrow> int \<Rightarrow> reminder_scheduler \<Rightarrow> timer_wait option res \<times> reminder_scheduler" where
  "run_once clk now wait_now s =
     (if timer_stopping s then (Inr None, s)
      else case process_due_once clk s of
        (Inl e, s1) \<Rightarrow> (Inl e, s1)
      | (Inr _, s1) \<Rightarrow>
          if timer_stopping s1 then (Inr None, s1)
          else let (w, s2) = wait_until_changed_or_due wait_now (wait_deadline now s1) s1
               in (Inr (Some w), s2))"

end
