(* ===== verification/Timer_Props.thy ===== *)
theory Timer_Props
  imports Reminder_Timer Reminder_Passes
begin

section \<open>What the reminder timer waits for\<close>

text \<open>
  The loop of the reminder scheduler over the store: a pass that delivers what is due and then a wait
  that ends exactly at the next useful moment, also while due work is blocked by the Server.
\<close>

subsection \<open>The least deadline\<close>

lemma deadline_is_Min:
  assumes "\<not> (after_ms = None \<and> (\<exists>r\<in>set (reminder_occurrences d). deadline_recovers lo r))"
  shows "next_reminder_deadline now lo after_ms d =
    (let R = {r \<in> set (reminder_occurrences d). deadline_eligible lo after_ms r}
     in if R = {} then None else Some (Min (intended_at_ms ` R)))"
proof -
  let ?R = "{r \<in> set (reminder_occurrences d). deadline_eligible lo after_ms r}"
  note exact = next_deadline_exact [of after_ms d lo now, unfolded if_not_P [OF assms]]
  show ?thesis
  proof (cases "next_reminder_deadline now lo after_ms d")
    case None
    with exact show ?thesis by simp
  next
    case (Some t)
    with exact have "t \<in> intended_at_ms ` ?R" "\<And>r. r \<in> ?R \<Longrightarrow> t \<le> intended_at_ms r"
      by (auto simp: not_less)
    then have "Min (intended_at_ms ` ?R) = t" "?R \<noteq> {}" by (auto intro!: Min_eqI)
    with Some show ?thesis by (simp add: Let_def)
  qed
qed

lemma deadline_after:
  assumes "next_reminder_deadline now lo (Some a) d = Some t"
  shows "a < t"
  using assms next_deadline_exact [of "Some a" d lo now] by (auto simp: deadline_eligible_def)

subsection \<open>Blocked work\<close>

definition later_work :: "int \<Rightarrow> reminder_scheduler \<Rightarrow> reminder_row set" where
  "later_work now s =
     {r \<in> set (reminder_occurrences (timer_db s)).
        deadline_eligible (Option.is_none (delivery_authorizer s)) None r \<and> now < intended_at_ms r}"

lemma later_work_eligible:
  "later_work now s = {r \<in> set (reminder_occurrences (timer_db s)).
     deadline_eligible (Option.is_none (delivery_authorizer s)) (Some now) r}"
  by (auto simp: later_work_def deadline_eligible_def)

text \<open>A deadline in the future is the least time of later work, whether or not the earlier rows were
  skipped.\<close>

lemma first_later:
  assumes "next_reminder_deadline now (Option.is_none (delivery_authorizer s)) None (timer_db s) = Some t" "now < t"
  shows "later_work now s \<noteq> {} \<and> Min (intended_at_ms ` later_work now s) = t"
proof -
  let ?lo = "Option.is_none (delivery_authorizer s)"
  let ?E = "{r \<in> set (reminder_occurrences (timer_db s)). deadline_eligible ?lo None r}"
  note exact = next_deadline_exact [of None "timer_db s" ?lo now]
  have no: "\<not> (\<exists>r\<in>set (reminder_occurrences (timer_db s)). deadline_recovers ?lo r)"
  proof
    assume "\<exists>r\<in>set (reminder_occurrences (timer_db s)). deadline_recovers ?lo r"
    then have "t = now" using exact assms(1) by simp
    with assms(2) show False by simp
  qed
  with exact assms(1) have t: "t \<in> intended_at_ms ` ?E" "\<And>r. r \<in> ?E \<Longrightarrow> t \<le> intended_at_ms r"
    by (auto simp: not_less)
  with assms(2) have "later_work now s = ?E" by (force simp: later_work_def)
  with t show ?thesis by (auto intro!: Min_eqI)
qed

text \<open>
  While the Server blocks due reminders and names a later time to retry, the scheduler neither
  spins nor oversleeps: it waits for a moment after now, which is the retry time or the least intended
  time of the reminders still to come, whichever is earlier.
\<close>

theorem blocked_work_waits:
  assumes "timer_retry s = Some retry" "now < retry"
  shows "\<exists>t. wait_deadline now s = Some t \<and> now < t \<and>
    t = Min (insert retry (intended_at_ms ` later_work now s))"
proof -
  let ?lo = "Option.is_none (delivery_authorizer s)"
  let ?L = "later_work now s"
  let ?after = "next_reminder_deadline now ?lo (Some now) (timer_db s)"
  have after: "?after = (if ?L = {} then None else Some (Min (intended_at_ms ` ?L)))"
    by (simp add: deadline_is_Min later_work_eligible Let_def)
  have fin: "finite ?L" by (simp add: later_work_def)
  have min: "Min (insert retry (intended_at_ms ` ?L)) =
      (if ?L = {} then retry else min (Min (intended_at_ms ` ?L)) retry)"
    using fin by (auto simp: min.commute)
  have "wait_deadline now s = Some (Min (insert retry (intended_at_ms ` ?L)))"
  proof (cases "next_reminder_deadline now ?lo None (timer_db s)")
    case None
    then show ?thesis using after min assms(1) by (simp add: wait_deadline_def Let_def)
  next
    case (Some t)
    then show ?thesis using after min assms(1) first_later [OF Some]
      by (cases "t \<le> now") (simp_all add: wait_deadline_def Let_def)
  qed
  moreover have "now < Min (insert retry (intended_at_ms ` ?L))"
    using fin assms(2) by (auto simp: later_work_def)
  ultimately show ?thesis by blast
qed

text \<open>A scheduler with one due reminder that the Server holds back until 1500, and one for 1200.\<close>

definition later_reminder :: reminder_row where
  "later_reminder = due_reminder\<lparr>reminder_id := ''r2'', occurrence_id := ''o2'', intended_at_ms := 1200\<rparr>"

definition held_scheduler :: reminder_scheduler where
  "held_scheduler =
     \<lparr>timer_db = empty_db\<lparr>reminder_occurrences :=
        [due_reminder, later_reminder]\<rparr>,
      timer_wakeup = False, timer_stopping = False, timer_retry = Some 1500,
      delivery_authorizer = Some (\<lambda>_ d. (Inr \<lparr>auth_occurrence_ids = [], auth_retry_after_ms = Some 1500\<rparr>, d)),
      has_lifecycle_callback = False, cancellation_handler = None, replacement_handler = None,
      notified = 0, lifecycle_calls = 0\<rparr>"

theorem blocked_work_waits_witness: "wait_deadline 1000 held_scheduler = Some 1200"
proof -
  have "later_work 1000 held_scheduler = {later_reminder}" "intended_at_ms later_reminder = 1200"
    by (auto simp: later_work_def held_scheduler_def deadline_eligible_def later_reminder_def
        due_reminder_def new_reminder_def)
  then show ?thesis
    using blocked_work_waits [of held_scheduler 1500 1000] by (auto simp: held_scheduler_def)
qed

subsection \<open>A clean pass\<close>

lemma after_clean_pass:
  assumes "\<forall>r'\<in>set (reminder_occurrences d'). rem_state r' = ''delivered'' \<or>
      r' \<in> set (reminder_occurrences d) \<and> \<not> deliverable now0 r'"
    and "\<forall>r\<in>set (reminder_occurrences d). \<not> deliverable now0 r \<longrightarrow> r \<in> set (reminder_occurrences d')"
  shows "\<not> (\<exists>r\<in>set (reminder_occurrences d'). deadline_recovers True r)"
    and "{r \<in> set (reminder_occurrences d'). deadline_eligible True None r} =
      {r \<in> set (reminder_occurrences d). deadline_eligible True (Some now0) r}"
proof -
  show "\<not> (\<exists>r\<in>set (reminder_occurrences d'). deadline_recovers True r)"
    using assms(1) by (force simp: deadline_recovers_def deliverable_def)
  show "{r \<in> set (reminder_occurrences d'). deadline_eligible True None r} =
      {r \<in> set (reminder_occurrences d). deadline_eligible True (Some now0) r}" (is "?A = ?B")
  proof (intro equalityI subsetI)
    fix r assume r: "r \<in> ?A"
    then have "rem_state r = ''scheduled''" by (simp add: deadline_eligible_def)
    then have "rem_state r \<noteq> ''delivered''" by simp
    with r assms(1) have "r \<in> set (reminder_occurrences d)" "\<not> deliverable now0 r" by auto
    with r show "r \<in> ?B" by (auto simp: deadline_eligible_def deliverable_def due_local_def)
  next
    fix r assume r: "r \<in> ?B"
    then have "\<not> deliverable now0 r"
      by (auto simp: deadline_eligible_def deliverable_def due_local_def)
    with r assms(2) show "r \<in> ?A" by (auto simp: deadline_eligible_def)
  qed
qed

text \<open>
  A round of the local loop does all the due work and then sleeps exactly until the next
  reminder: when everything due can be rendered, the round raises nothing, delivers every due or
  claimed local reminder, notifies the runtime once for each, and (unless a signal is pending) waits
  for the least intended time among the scheduled local reminders that were not yet due, or only for a
  signal when there is none.
\<close>

theorem clean_round_sleeps:
  assumes "store_inv (timer_db s)" "reminders_ok (timer_db s)"
    and "\<not> timer_stopping s" "delivery_authorizer s = None" "timer_retry s = None"
    and "\<forall>r\<in>set (reminder_occurrences (timer_db s)). deliverable (pass_now clk) r \<longrightarrow>
      renders (pass_now clk) r \<and> event_free (timer_db s) r"
  shows "\<exists>w s'. run_once clk now wait_now s = (Inr (Some w), s') \<and>
    (\<forall>r\<in>set (reminder_occurrences (timer_db s)). deliverable (pass_now clk) r \<longrightarrow>
      (\<exists>r'\<in>set (reminder_occurrences (timer_db s')). reminder_id r' = reminder_id r \<and> rem_state r' = ''delivered'')) \<and>
    notified s' = notified s + length (filter (deliverable (pass_now clk)) (reminder_occurrences (timer_db s))) \<and>
    w = (let R = {r \<in> set (reminder_occurrences (timer_db s)). deadline_eligible True (Some (pass_now clk)) r}
         in if timer_wakeup s then AlreadySignalled
            else if R = {} then WaitSignal
            else WaitMillis (max 0 (Min (intended_at_ms ` R) - wait_now)))"
proof -
  let ?d = "timer_db s" and ?now = "pass_now clk"
  from deliver_due_all [OF assms(1,2,6), of "pass_each clk"]
  obtain rs d' where op: "deliver_due_reminders (pass_each clk) ?now ?d = (Inr rs, d')"
    and len: "length rs = length (filter (deliverable ?now) (reminder_occurrences ?d))"
    and dlv: "\<forall>r\<in>set (reminder_occurrences ?d). deliverable ?now r \<longrightarrow>
      (\<exists>r'\<in>set (reminder_occurrences d'). reminder_id r' = reminder_id r \<and> rem_state r' = ''delivered'')"
    and new: "\<forall>r'\<in>set (reminder_occurrences d'). rem_state r' = ''delivered'' \<or>
      r' \<in> set (reminder_occurrences ?d) \<and> \<not> deliverable ?now r'"
    and kept: "\<forall>r\<in>set (reminder_occurrences ?d). \<not> deliverable ?now r \<longrightarrow> r \<in> set (reminder_occurrences d')"
    by (elim exE conjE) (rule that)
  define R where "R = {r \<in> set (reminder_occurrences ?d). deadline_eligible True (Some ?now) r}"
  note clean = after_clean_pass [OF new kept]
  have dl: "next_reminder_deadline now True None d' = (if R = {} then None else Some (Min (intended_at_ms ` R)))"
    using deadline_is_Min [of None d' True now] clean by (simp add: Let_def R_def)
  define s1 where "s1 = (if rs = [] then s\<lparr>timer_db := d', notified := notified s + length rs\<rparr>
    else lifecycle_committed (s\<lparr>timer_db := d', notified := notified s + length rs\<rparr>))"
  have s1: "timer_db s1 = d'" "notified s1 = notified s + length rs" "timer_stopping s1 = timer_stopping s"
    "timer_wakeup s1 = timer_wakeup s" "timer_retry s1 = None" "delivery_authorizer s1 = None"
    using assms(4,5) by (simp_all add: s1_def lifecycle_committed_def)
  have pass: "process_due_once clk s = (Inr rs, s1)"
    by (simp add: process_due_once_def assms(4) op after_pass_def s1_def Let_def)
  have wd: "wait_deadline now s1 = (if R = {} then None else Some (Min (intended_at_ms ` R)))"
    using dl s1 by (simp add: wait_deadline_def)
  have "run_once clk now wait_now s =
      (Inr (Some (fst (wait_until_changed_or_due wait_now (wait_deadline now s1) s1))),
       snd (wait_until_changed_or_due wait_now (wait_deadline now s1) s1))"
    using pass s1(3) assms(3) by (simp add: run_once_def split_beta)
  moreover have "timer_db (snd (wait_until_changed_or_due wait_now (wait_deadline now s1) s1)) = d'"
    "notified (snd (wait_until_changed_or_due wait_now (wait_deadline now s1) s1)) = notified s + length rs"
    using s1 by (simp_all add: wait_until_changed_or_due_def)
  moreover have "fst (wait_until_changed_or_due wait_now (wait_deadline now s1) s1) =
      (if timer_wakeup s then AlreadySignalled else if R = {} then WaitSignal
       else WaitMillis (max 0 (Min (intended_at_ms ` R) - wait_now)))"
    using s1(4) by (simp add: wait_until_changed_or_due_def wd)
  ultimately show ?thesis using dlv len unfolding Let_def R_def [symmetric] by (intro exI conjI) simp_all
qed

definition quiet_scheduler :: reminder_scheduler where
  "quiet_scheduler = held_scheduler\<lparr>timer_db := due_db, timer_retry := None, delivery_authorizer := None\<rparr>"

theorem clean_round_sleeps_witness:
  "\<exists>s'. run_once \<lparr>pass_now = 1000, pass_claim = (1000, 1000), pass_select = 1000, pass_each = \<lambda>i. (1001, 1002, 1003)\<rparr>
      1004 1005 quiet_scheduler = (Inr (Some WaitSignal), s') \<and> notified s' = 1"
proof -
  let ?clk = "\<lparr>pass_now = 1000, pass_claim = (1000, 1000), pass_select = 1000, pass_each = \<lambda>i. (1001, 1002, 1003)\<rparr>"
  have r: "reminder_occurrences due_db = [due_reminder]" by (simp add: due_db_def)
  have can: "renders 1000 due_reminder" "event_free due_db due_reminder"
    by (simp_all add: renders_def due_reminder_def new_reminder_def target_reads times_read get_default_def
        event_free_def due_db_def empty_db_def)
  have q: "timer_db quiet_scheduler = due_db" "\<not> timer_stopping quiet_scheduler"
    "delivery_authorizer quiet_scheduler = None" "timer_retry quiet_scheduler = None"
    "\<not> timer_wakeup quiet_scheduler" "notified quiet_scheduler = 0"
    by (simp_all add: quiet_scheduler_def held_scheduler_def)
  have due: "deliverable 1000 due_reminder" "\<not> deadline_eligible True (Some 1000) due_reminder"
    by (simp_all add: deliverable_def due_local_def reminder_local_delivery_def deadline_eligible_def
        due_reminder_def new_reminder_def)
  have "\<exists>w s'. run_once ?clk 1004 1005 quiet_scheduler = (Inr (Some w), s') \<and>
    (\<forall>r\<in>set (reminder_occurrences (timer_db quiet_scheduler)). deliverable (pass_now ?clk) r \<longrightarrow>
      (\<exists>r'\<in>set (reminder_occurrences (timer_db s')). reminder_id r' = reminder_id r \<and> rem_state r' = ''delivered'')) \<and>
    notified s' = notified quiet_scheduler
      + length (filter (deliverable (pass_now ?clk)) (reminder_occurrences (timer_db quiet_scheduler))) \<and>
    w = (let R = {r \<in> set (reminder_occurrences (timer_db quiet_scheduler)). deadline_eligible True (Some (pass_now ?clk)) r}
         in if timer_wakeup quiet_scheduler then AlreadySignalled
            else if R = {} then WaitSignal
            else WaitMillis (max 0 (Min (intended_at_ms ` R) - 1005)))"
    by (rule clean_round_sleeps) (use q r can store_inv_due(1) reminders_ok_due in simp_all)
  then show ?thesis using q r due by (elim exE conjE) (simp add: Let_def)
qed

subsection \<open>Timestamps at the edges\<close>

text \<open>Two readings that differ from the text: a millisecond is lost in the double product, and an
  instant before year 1 in UTC leaves with \<open>OverflowError\<close> instead of the documented \<open>ValueError\<close>.\<close>

lemma timestamp_loses_millisecond:
  "normalize_reminder_timestamp ''2038-02-01T00:00:02.002Z'' = Inr (2148595202001, ''2038-02-01T00:00:02.001Z'')"
  by code_simp

lemma timestamp_overflow_escapes:
  "normalize_reminder_timestamp ''0001-01-01T00:00:00+01:00'' = Inl OverflowRaised"
  by code_simp

end
