(* ===== verification/Contact_Cache.thy ===== *)
theory Contact_Cache
  imports Store_Prelude Complex_Main
begin

section \<open>The contact cache\<close>

text \<open>
  \<open>ContactCache\<close> of \<open>agent/contact_cache.py\<close>: the allow and block sets of the agent, refreshed from the
  Server on the signed transport, kept in a local file on the keyless one. The file is part of the
  state; a read of the lists, the two clock readings around it and whether a write of the file
  succeeds are arguments. Clock readings are rational numbers, zero for never.
\<close>

subsection \<open>State\<close>

text \<open>The file at the local path: absent, not readable as JSON, or an object whose two entries are the
  texts of their non-empty members when they are lists.\<close>

datatype contact_file = NoFile | UnreadableFile | ContactFile "string list option" "string list option"

record contact_cache =
  cc_keyless :: bool
  cc_ttl :: rat
  cc_miss_refresh_interval :: rat
  cc_allow :: "string set"
  cc_block :: "string set"
  cc_fetched_at :: rat
  cc_hydrated :: bool
  cc_local_state :: "contact_file option"
  cc_local_state_loaded :: bool

definition new_contact_cache :: "bool \<Rightarrow> rat \<Rightarrow> rat \<Rightarrow> contact_file option \<Rightarrow> contact_cache" where
  "new_contact_cache keyless ttl miss path =
     \<lparr>cc_keyless = keyless, cc_ttl = ttl, cc_miss_refresh_interval = miss, cc_allow = {}, cc_block = {},
      cc_fetched_at = 0, cc_hydrated = False, cc_local_state = path, cc_local_state_loaded = False\<rparr>"

subsection \<open>Reading from the Server\<close>

text \<open>The peers of \<open>/allowlists\<close> and the pairs of target and id of \<open>/blocklists\<close>; \<open>None\<close> when a request
  fails.\<close>

type_synonym server_lists = "(string list \<times> (string \<times> string) list) option"

definition refresh :: "rat \<Rightarrow> server_lists \<Rightarrow> contact_cache \<Rightarrow> contact_cache" where
  "refresh fetched answer c =
     (if cc_keyless c then c
      else case answer of
        None \<Rightarrow> c
      | Some (allow, block) \<Rightarrow>
          c\<lparr>cc_allow := set allow - {[]},
            cc_block := set (map snd (filter (\<lambda>b. fst b = ''user'') block)) - {[]},
            cc_fetched_at := fetched, cc_hydrated := True\<rparr>)"

record cache_read =
  cr_now :: rat
  cr_fetched :: rat
  cr_lists :: server_lists

definition cache_age :: "rat \<Rightarrow> contact_cache \<Rightarrow> rat option" where
  "cache_age now c = (if cc_fetched_at c = 0 then None else Some (now - cc_fetched_at c))"

definition maybe_refresh :: "cache_read \<Rightarrow> bool \<Rightarrow> contact_cache \<Rightarrow> contact_cache" where
  "maybe_refresh r on_miss c =
     (case cache_age (cr_now r) c of
        None \<Rightarrow> refresh (cr_fetched r) (cr_lists r) c
      | Some a \<Rightarrow>
          if cc_ttl c \<le> a then refresh (cr_fetched r) (cr_lists r) c
          else if on_miss \<and> cc_miss_refresh_interval c \<le> a then refresh (cr_fetched r) (cr_lists r) c
          else c)"

subsection \<open>The local file\<close>

definition file_entries :: "string list option \<Rightarrow> string set \<Rightarrow> string set" where
  "file_entries entries old = (case entries of None \<Rightarrow> old | Some xs \<Rightarrow> set xs - {[]})"

definition ensure_local_state :: "contact_cache \<Rightarrow> contact_cache" where
  "ensure_local_state c =
     (case cc_local_state c of
        None \<Rightarrow> c
      | Some path \<Rightarrow>
          if cc_local_state_loaded c then c
          else let c1 = c\<lparr>cc_local_state_loaded := True\<rparr>
               in if \<not> cc_keyless c then c1
                  else case path of
                    ContactFile allow block \<Rightarrow>
                      (let b = file_entries block (cc_block c1)
                       in c1\<lparr>cc_allow := file_entries allow (cc_allow c1) - b, cc_block := b\<rparr>)
                  | NoFile \<Rightarrow> c1
                  | UnreadableFile \<Rightarrow> c1)"

text \<open>\<open>_persist_or_rollback\<close>: a failed write restores the sets and raises \<open>OSError\<close>, here \<open>False\<close>.\<close>

definition persist_or_rollback ::
  "bool \<Rightarrow> contact_cache \<Rightarrow> contact_cache \<Rightarrow> bool \<times> contact_cache" where
  "persist_or_rollback write_ok before c =
     (if cc_local_state c = None \<or> \<not> cc_keyless c then (True, c)
      else if write_ok
      then (True, c\<lparr>cc_local_state := Some (ContactFile (Some (sorted_list_of_set (cc_allow c)))
                                                      (Some (sorted_list_of_set (cc_block c))))\<rparr>)
      else (False, c\<lparr>cc_allow := cc_allow before, cc_block := cc_block before\<rparr>))"

subsection \<open>Answers and changes\<close>

definition is_allowed :: "cache_read \<Rightarrow> string \<Rightarrow> contact_cache \<Rightarrow> bool \<times> contact_cache" where
  "is_allowed r slug c =
     (if slug = [] then (False, c)
      else let c1 = ensure_local_state c; c2 = maybe_refresh r (slug \<notin> cc_allow c1) c1
           in (slug \<in> cc_allow c2, c2))"

text \<open>\<open>None\<close> is \<open>BlocklistUnavailable\<close>.\<close>

definition is_blocked :: "cache_read \<Rightarrow> string \<Rightarrow> contact_cache \<Rightarrow> bool option \<times> contact_cache" where
  "is_blocked r slug c =
     (if slug = [] then (Some False, c)
      else let c2 = maybe_refresh r False (ensure_local_state c)
           in (if \<not> cc_hydrated c2 \<and> \<not> cc_keyless c2 then None else Some (slug \<in> cc_block c2), c2))"

definition note_allowed :: "bool \<Rightarrow> string \<Rightarrow> contact_cache \<Rightarrow> bool \<times> contact_cache" where
  "note_allowed write_ok slug c =
     (if slug = [] then (True, c)
      else let c1 = ensure_local_state c;
               unblock = cc_keyless c1 \<and> slug \<in> cc_block c1;
               changed = unblock \<or> slug \<notin> cc_allow c1;
               c2 = c1\<lparr>cc_allow := insert slug (cc_allow c1),
                       cc_block := (if unblock then cc_block c1 - {slug} else cc_block c1)\<rparr>
           in if changed \<and> cc_keyless c1 then persist_or_rollback write_ok c1 c2 else (True, c2))"

definition note_blocked :: "bool \<Rightarrow> string \<Rightarrow> bool \<Rightarrow> contact_cache \<Rightarrow> bool \<times> contact_cache" where
  "note_blocked write_ok slug blocked c =
     (if slug = [] then (True, c)
      else let c1 = ensure_local_state c
           in if blocked then
                (let unallow = cc_keyless c1 \<and> slug \<in> cc_allow c1;
                     changed = unallow \<or> slug \<notin> cc_block c1;
                     c2 = c1\<lparr>cc_allow := (if unallow then cc_allow c1 - {slug} else cc_allow c1),
                             cc_block := insert slug (cc_block c1)\<rparr>
                 in if changed \<and> cc_keyless c1 then persist_or_rollback write_ok c1 c2 else (True, c2))
              else if slug \<in> cc_block c1 then
                (let c2 = c1\<lparr>cc_block := cc_block c1 - {slug}\<rparr>
                 in if cc_keyless c1 then persist_or_rollback write_ok c1 c2 else (True, c2))
              else (True, c1))"

subsection \<open>Memory never runs ahead of the file\<close>

datatype cache_call =
    AskAllowed cache_read string
  | AskBlocked cache_read string
  | NoteAllowed bool string
  | NoteBlocked bool string bool
  | Refresh rat server_lists

primrec call_cache :: "cache_call \<Rightarrow> contact_cache \<Rightarrow> contact_cache" where
  "call_cache (AskAllowed r s) c = snd (is_allowed r s c)"
| "call_cache (AskBlocked r s) c = snd (is_blocked r s c)"
| "call_cache (NoteAllowed ok s) c = snd (note_allowed ok s c)"
| "call_cache (NoteBlocked ok s b) c = snd (note_blocked ok s b c)"
| "call_cache (Refresh t l) c = refresh t l c"

text \<open>What a process that starts on the same file would answer from.\<close>

definition restarted :: "contact_cache \<Rightarrow> contact_cache" where
  "restarted c = ensure_local_state
     (new_contact_cache (cc_keyless c) (cc_ttl c) (cc_miss_refresh_interval c) (cc_local_state c))"

definition contacts_durable :: "contact_cache \<Rightarrow> bool" where
  "contacts_durable c \<longleftrightarrow>
     cc_keyless c \<and> cc_local_state c \<noteq> None \<and> finite (cc_allow c) \<and> finite (cc_block c) \<and>
     [] \<notin> cc_allow c \<and> [] \<notin> cc_block c \<and> cc_allow c \<inter> cc_block c = {} \<and>
     (if cc_local_state_loaded c
      then cc_allow (restarted c) = cc_allow c \<and> cc_block (restarted c) = cc_block c
      else cc_allow c = {} \<and> cc_block c = {})"

lemma refresh_keyless [simp]: "cc_keyless c \<Longrightarrow> refresh t l c = c"
  by (simp add: refresh_def)

lemma maybe_refresh_keyless [simp]: "cc_keyless c \<Longrightarrow> maybe_refresh r m c = c"
  by (simp add: maybe_refresh_def split: option.splits)

lemma ensure_durable:
  assumes "contacts_durable c"
  shows "contacts_durable (ensure_local_state c) \<and> cc_local_state_loaded (ensure_local_state c)"
  using assms by (auto simp: contacts_durable_def ensure_local_state_def restarted_def new_contact_cache_def
      file_entries_def Let_def split: contact_file.splits option.splits if_splits)

lemma persist_durable:
  assumes "contacts_durable c1" "cc_local_state_loaded c1"
    and "c2 = c1\<lparr>cc_allow := A, cc_block := B\<rparr>" "finite A" "finite B" "[] \<notin> A" "[] \<notin> B" "A \<inter> B = {}"
  shows "contacts_durable (snd (persist_or_rollback ok c1 c2))"
  using assms by (auto simp: contacts_durable_def persist_or_rollback_def restarted_def ensure_local_state_def
      new_contact_cache_def file_entries_def Let_def)

lemma note_allowed_durable:
  assumes "contacts_durable c"
  shows "contacts_durable (snd (note_allowed ok s c))"
proof (cases "s = []")
  case False
  define c1 where "c1 = ensure_local_state c"
  have c1: "contacts_durable c1" "cc_local_state_loaded c1" using ensure_durable [OF assms] by (simp_all add: c1_def)
  have k: "cc_keyless c1" using c1(1) by (simp add: contacts_durable_def)
  let ?new = "c1\<lparr>cc_allow := insert s (cc_allow c1), cc_block := cc_block c1 - {s}\<rparr>"
  have blk: "(if s \<in> cc_block c1 then cc_block c1 - {s} else cc_block c1) = cc_block c1 - {s}" by simp
  have "note_allowed ok s c =
      (if s \<in> cc_block c1 \<or> s \<notin> cc_allow c1 then persist_or_rollback ok c1 ?new else (True, ?new))"
    unfolding note_allowed_def Let_def c1_def [symmetric] using False k blk by simp
  moreover have "?new = c1" if "s \<notin> cc_block c1" "s \<in> cc_allow c1" using that by (simp add: insert_absorb)
  moreover have "contacts_durable (snd (persist_or_rollback ok c1 ?new))"
    by (rule persist_durable [OF c1 refl]) (use c1(1) False in \<open>auto simp: contacts_durable_def\<close>)
  ultimately show ?thesis using c1(1) by (cases "s \<in> cc_block c1 \<or> s \<notin> cc_allow c1") simp_all
qed (simp add: note_allowed_def assms)

lemma note_blocked_durable:
  assumes "contacts_durable c"
  shows "contacts_durable (snd (note_blocked ok s b c))"
proof (cases "s = []")
  case False
  define c1 where "c1 = ensure_local_state c"
  have c1: "contacts_durable c1" "cc_local_state_loaded c1" using ensure_durable [OF assms] by (simp_all add: c1_def)
  have k: "cc_keyless c1" using c1(1) by (simp add: contacts_durable_def)
  let ?put = "c1\<lparr>cc_allow := cc_allow c1 - {s}, cc_block := insert s (cc_block c1)\<rparr>"
  let ?drop = "c1\<lparr>cc_allow := cc_allow c1, cc_block := cc_block c1 - {s}\<rparr>"
  have alw: "(if s \<in> cc_allow c1 then cc_allow c1 - {s} else cc_allow c1) = cc_allow c1 - {s}" by simp
  have "note_blocked ok s b c =
      (if b then if s \<in> cc_allow c1 \<or> s \<notin> cc_block c1 then persist_or_rollback ok c1 ?put else (True, ?put)
       else if s \<in> cc_block c1 then persist_or_rollback ok c1 ?drop else (True, c1))"
    unfolding note_blocked_def Let_def c1_def [symmetric] using False k alw by simp
  moreover have "contacts_durable ?put" if "s \<notin> cc_allow c1" "s \<in> cc_block c1"
    using that c1(1) by (simp add: insert_absorb)
  moreover have "contacts_durable (snd (persist_or_rollback ok c1 ?put))"
    "contacts_durable (snd (persist_or_rollback ok c1 ?drop))"
    by (rule persist_durable [OF c1 refl]; use c1(1) False in \<open>auto simp: contacts_durable_def\<close>)+
  ultimately show ?thesis using c1(1) 
    by (cases b; cases "s \<in> cc_allow c1"; cases "s \<in> cc_block c1") (simp_all only: simp_thms if_True if_False snd_conv)
qed (simp add: note_blocked_def assms)

lemma ensure_keyless [simp]: "cc_keyless (ensure_local_state c) = cc_keyless c"
  by (auto simp: ensure_local_state_def Let_def split: option.splits contact_file.splits)

lemma call_durable:
  assumes "contacts_durable c"
  shows "contacts_durable (call_cache op c)"
proof -
  have k: "cc_keyless c" using assms by (simp add: contacts_durable_def)
  show ?thesis
    using assms k ensure_durable [OF assms] note_allowed_durable [OF assms] note_blocked_durable [OF assms]
    by (cases op) (simp_all add: is_allowed_def is_blocked_def Let_def)
qed

text \<open>
  C21: On the keyless transport an answer about a contact survives a restart: after any calls on a
  cache with a local file, whichever of its writes fail, the sets in memory are exactly what a new
  process would load from the file, and nobody is both allowed and blocked.
\<close>

theorem contacts_survive_restart:
  assumes "c = fold call_cache ops (new_contact_cache True ttl miss (Some file))" "cc_local_state_loaded c"
  shows "cc_allow (restarted c) = cc_allow c \<and> cc_block (restarted c) = cc_block c \<and> cc_allow c \<inter> cc_block c = {}"
proof -
  have "contacts_durable (fold call_cache ops c0)" if "contacts_durable c0" for c0
    using that by (induction ops arbitrary: c0) (simp_all add: call_durable)
  moreover have "contacts_durable (new_contact_cache True ttl miss (Some file))"
    by (simp add: contacts_durable_def new_contact_cache_def)
  ultimately have "contacts_durable c" using assms(1) by simp
  with assms(2) show ?thesis by (simp add: contacts_durable_def)
qed

definition contact_calls :: "cache_call list" where
  "contact_calls = [NoteAllowed True ''ann'', NoteBlocked True ''bob'' True, NoteAllowed False ''bob'',
                    NoteBlocked True ''ann'' True]"

theorem contacts_survive_restart_witness:
  "cc_block (restarted (fold call_cache contact_calls (new_contact_cache True 300 15 (Some NoFile)))) = {''ann'', ''bob''}"
proof -
  let ?c = "fold call_cache contact_calls (new_contact_cache True 300 15 (Some NoFile))"
  have "cc_local_state_loaded ?c \<and> cc_block ?c = {''ann'', ''bob''}" by code_simp
  with contacts_survive_restart [OF refl, of contact_calls 300 15 NoFile] show ?thesis by simp
qed

end
