(* ===== verification/Thread_Context.thy ===== *)
theory Thread_Context
  imports Receipts
begin

section \<open>Reply references of inbound messages\<close>

text \<open>
  \<open>agent/thread_context.py\<close>: a reference of an inbound message is kept only when the row it names
  belongs to the conversation of the message, and a thread reference is followed to the root of its
  thread. A lookup that fails counts as a missing parent in the code; the lookup here always answers.
\<close>

definition INCOMING_ROOT_MAX_DEPTH :: nat where "INCOMING_ROOT_MAX_DEPTH = 8"

text \<open>The conversation an inbound message belongs to.\<close>

record incoming =
  in_channel_id :: "string option"
  in_space_id :: "string option"
  in_envelope_kind :: string
  in_dm_peer :: string
  in_self_slug :: string

datatype parent = ParentMissing | ParentMismatch | ParentFound message_row

definition in_conversation :: "incoming \<Rightarrow> message_row \<Rightarrow> bool" where
  "in_conversation i p \<longleftrightarrow>
     \<not> (in_envelope_kind i \<noteq> [] \<and> envelope_kind p \<noteq> in_envelope_kind i) \<and>
     \<not> (in_envelope_kind i = ''dm''
        \<and> (in_dm_peer i = [] \<or> Some (in_dm_peer i) \<notin> {Some (sender_slug p), recipient_slug p}
           \<or> (in_self_slug i \<noteq> [] \<and> Some (in_self_slug i) \<notin> {Some (sender_slug p), recipient_slug p}))) \<and>
     \<not> (truthy (in_channel_id i) \<and> channel_id p \<noteq> in_channel_id i) \<and>
     \<not> (truthy (in_space_id i) \<and> truthy (space_id p) \<and> space_id p \<noteq> in_space_id i)"

definition validated_parent :: "incoming \<Rightarrow> string \<Rightarrow> db \<Rightarrow> parent" where
  "validated_parent i parent_id d =
     (case get_message_by_envelope parent_id d of
        None \<Rightarrow> ParentMissing
      | Some p \<Rightarrow> if in_conversation i p then ParentFound p else ParentMismatch)"

definition validate_incoming_parent_id :: "incoming \<Rightarrow> string option \<Rightarrow> db \<Rightarrow> string option" where
  "validate_incoming_parent_id i parent_id d =
     (if \<not> truthy parent_id then parent_id
      else case validated_parent i (or_empty parent_id) d of
        ParentFound p \<Rightarrow> parent_id
      | _ \<Rightarrow> None)"

text \<open>The loop of \<open>resolve_incoming_thread_root\<close>: at most eight rows, and none twice.\<close>

fun follow_root :: "nat \<Rightarrow> incoming \<Rightarrow> string set \<Rightarrow> string \<Rightarrow> db \<Rightarrow> string option \<times> bool" where
  "follow_root 0 i seen current d = (None, False)"
| "follow_root (Suc n) i seen current d =
     (if current \<in> seen then (None, False)
      else case validated_parent i current d of
        ParentMissing \<Rightarrow> (Some current, True)
      | ParentMismatch \<Rightarrow> (None, False)
      | ParentFound p \<Rightarrow>
          if \<not> truthy (thread_root_id p) \<or> thread_root_id p = Some current then (Some current, False)
          else follow_root n i (insert current seen) (or_empty (thread_root_id p)) d)"

definition resolve_incoming_thread_root :: "incoming \<Rightarrow> string option \<Rightarrow> db \<Rightarrow> string option \<times> bool" where
  "resolve_incoming_thread_root i parent_id d =
     (if \<not> truthy parent_id then (parent_id, False)
      else follow_root INCOMING_ROOT_MAX_DEPTH i {} (or_empty parent_id) d)"

subsection \<open>A reference never leaves its conversation\<close>

definition is_thread_root :: "message_row \<Rightarrow> bool" where
  "is_thread_root m \<longleftrightarrow> \<not> truthy (thread_root_id m) \<or> thread_root_id m = Some (envelope_id m)"

lemma get_message_Some:
  "get_message_by_envelope e d = Some m \<Longrightarrow> m \<in> set (messages d) \<and> envelope_id m = e \<and> e \<noteq> []"
  using sql_fetchone_Some [of "\<lambda>m. envelope_id m = e" "messages d" m]
  by (cases "e = []") (simp_all add: get_message_by_envelope_def)

lemma validated_parent_Found:
  "validated_parent i e d = ParentFound p \<Longrightarrow> get_message_by_envelope e d = Some p \<and> in_conversation i p"
  by (auto simp: validated_parent_def split: option.splits if_splits)

lemma follow_root_sound:
  assumes "follow_root n i seen current d = (Some r, u)"
  shows "if u then get_message_by_envelope r d = None
         else \<exists>m. get_message_by_envelope r d = Some m \<and> in_conversation i m \<and> is_thread_root m"
  using assms
proof (induction n arbitrary: seen current)
  case (Suc n)
  show ?case
  proof (cases "validated_parent i current d")
    case ParentMissing
    with Suc.prems show ?thesis by (auto simp: validated_parent_def split: option.splits if_splits)
  next
    case ParentMismatch
    with Suc.prems show ?thesis by (simp split: if_splits)
  next
    case (ParentFound p)
    show ?thesis
    proof (cases "\<not> truthy (thread_root_id p) \<or> thread_root_id p = Some current")
      case True
      with Suc.prems ParentFound have "r = current" "\<not> u" by (auto split: if_splits)
      moreover note f = validated_parent_Found [OF ParentFound]
      moreover have "is_thread_root p"
        using True get_message_Some [of current d p] f by (simp add: is_thread_root_def)
      ultimately show ?thesis by simp
    next
      case False
      with Suc.prems ParentFound have "follow_root n i (insert current seen) (or_empty (thread_root_id p)) d = (Some r, u)"
        by (simp split: if_splits)
      then show ?thesis by (rule Suc.IH)
    qed
  qed
qed simp

lemma resolved_root:
  assumes "resolve_incoming_thread_root i parent_id d = (Some r, u)" "r \<noteq> []"
  shows "if u then get_message_by_envelope r d = None
         else \<exists>m. get_message_by_envelope r d = Some m \<and> in_conversation i m \<and> is_thread_root m"
proof (cases "truthy parent_id")
  case True
  then show ?thesis using assms follow_root_sound by (simp add: resolve_incoming_thread_root_def)
next
  case False
  then show ?thesis using assms by (auto simp: resolve_incoming_thread_root_def truthy_def)
qed

lemma validated_reply:
  assumes "validate_incoming_parent_id i parent_id d = Some r" "r \<noteq> []"
  shows "\<exists>m. get_message_by_envelope r d = Some m \<and> in_conversation i m"
  using assms validated_parent_Found
  by (auto simp: validate_incoming_parent_id_def truthy_def or_empty_def get_default_def split: parent.splits if_splits)

end
