(* ===== verification/Ingress.thy ===== *)
theory Ingress
  imports Contact_Cache Thread_Context History_Reads
begin

section \<open>Inbound deliveries\<close>

text \<open>
  From a decrypted delivery to a receipt: the gates of \<open>agent/ingress_policy.py\<close>, the approval of
  foreign direct messages (\<open>agent/dm_gate.py\<close>), and \<open>InboundReceiptHandler.handle\<close> with its
  \<open>_ReceiptCommitter\<close> (\<open>agent/inbound_receipts.py\<close>), over the store, the contact cache and the
  pending approvals. What other parties answer during one delivery (the Server, the operator's other
  control prompts, the rendering of an admitted message) is the record \<open>world\<close>.

  Left out: decryption, deliveries of scheduled envelopes, log records, the acknowledgement sent to a
  gated stranger, the file copy of the pending approvals, whose failures the code swallows.
\<close>

subsection \<open>State\<close>

datatype TransportOutcome = ACK | DEFER | HOLD

record MessagePayload =
  mp_envelope_id :: string
  mp_envelope_kind :: string
  mp_sender_slug :: string
  mp_sent_at :: int
  mp_content_type :: string
  mp_content :: json
  mp_is_visible_to_human :: bool
  mp_space_id :: "string option"
  mp_channel_id :: "string option"
  mp_recipient_slug :: "string option"
  mp_thread_root_id :: "string option"
  mp_reply_to_id :: "string option"

text \<open>The client: its settings, the contact cache, the prompts the operator has not answered (prompt
  envelope and sender), the store, the channel cache, and the calls of the runtime and of the report
  dispatcher.\<close>

record client =
  cl_slug :: string
  cl_operator_slug :: string
  cl_auto_accept_dm :: bool
  cl_signed_http :: bool
  cl_catchup_stale_ms :: int
  cl_contacts :: contact_cache
  cl_pending_dm_approvals :: "(string \<times> string) list"
  cl_db :: db
  cl_channel_space :: "(string \<times> string) list"
  cl_has_runtime :: bool
  cl_notified :: nat
  cl_delivery_notified :: nat
  cl_has_reports :: bool
  cl_stale_reports :: "string list"

record world =
  w_now_ms :: int
  w_store_ms :: int
  w_block_read :: cache_read
  w_allow_read :: cache_read
  w_owner_slug :: string
  w_shares_space :: bool
  w_post_ok :: bool
  w_notice_sent :: bool
  w_prompt_envelope :: "string option"
  w_invite_handled :: bool
  w_leave_handled :: bool
  w_permission_handled :: bool
  w_redeem_handled :: bool
  w_invite_code :: string
  w_bare_invite :: bool
  w_repr :: "json \<Rightarrow> string"
  w_prompt_content :: json

subsection \<open>Gate verdicts\<close>

definition BLOCKED_MESSAGE_PLACEHOLDER :: string where
  "BLOCKED_MESSAGE_PLACEHOLDER = ''[message from a blocked account was dropped]''"

text \<open>The dash of the placeholder is the three bytes of its UTF-8 form.\<close>

definition DM_GATE_PROMPT_PLACEHOLDER :: string where
  "DM_GATE_PROMPT_PLACEHOLDER =
     ''[foreign-DM approval prompt '' @ [CHR 0xE2, CHR 0x80, CHR 0x94] @ '' held message withheld from context]''"

record GateVerdict =
  verdict_gate :: string
  verdict_disposition :: receipt_disposition
  verdict_reason :: string
  verdict_content :: "string option"

text \<open>\<open>blocked_gate\<close>: \<open>Inl ()\<close> is \<open>BlocklistUnavailable\<close>.\<close>

definition blocked_gate :: "world \<Rightarrow> MessagePayload \<Rightarrow> client \<Rightarrow> (unit + GateVerdict option) \<times> client" where
  "blocked_gate w p cl =
     (let sender = mp_sender_slug p
      in if sender = cl_slug cl then (Inr None, cl)
         else case is_blocked (w_block_read w) sender (cl_contacts cl) of
           (None, c) \<Rightarrow> (Inl (), cl\<lparr>cl_contacts := c\<rparr>)
         | (Some False, c) \<Rightarrow> (Inr None, cl\<lparr>cl_contacts := c\<rparr>)
         | (Some True, c) \<Rightarrow>
             (Inr (Some \<lparr>verdict_gate = ''blocked'', verdict_disposition = TERMINAL,
                         verdict_reason = (if mp_envelope_kind p = ''dm'' then ''blocked dm tombstone''
                                           else ''blocked channel tombstone''),
                         verdict_content = Some BLOCKED_MESSAGE_PLACEHOLDER\<rparr>),
              cl\<lparr>cl_contacts := c\<rparr>))"

subsection \<open>Who is foreign\<close>

definition is_foreign_dm_sender :: "world \<Rightarrow> string \<Rightarrow> client \<Rightarrow> bool" where
  "is_foreign_dm_sender w sender cl \<longleftrightarrow>
     sender \<noteq> [] \<and> sender \<noteq> cl_operator_slug cl \<and> sender \<noteq> cl_slug cl \<and>
     \<not> (w_owner_slug w \<noteq> [] \<and> w_owner_slug w = cl_operator_slug cl)"

definition note_contact_allowed :: "string \<Rightarrow> client \<Rightarrow> client" where
  "note_contact_allowed slug cl = cl\<lparr>cl_contacts := snd (note_allowed True slug (cl_contacts cl))\<rparr>"

definition ensure_trusted_contact :: "world \<Rightarrow> string \<Rightarrow> client \<Rightarrow> client" where
  "ensure_trusted_contact w slug cl =
     (if slug = [] \<or> slug = cl_slug cl then cl
      else case is_allowed (w_allow_read w) slug (cl_contacts cl) of
        (True, c) \<Rightarrow> cl\<lparr>cl_contacts := c\<rparr>
      | (False, c) \<Rightarrow>
          if w_post_ok w then note_contact_allowed slug (cl\<lparr>cl_contacts := c\<rparr>)
          else cl\<lparr>cl_contacts := c\<rparr>)"

definition DM_NOTICE_INTERVAL_MS :: int where "DM_NOTICE_INTERVAL_MS = 72 * 3600 * 1000"

definition maybe_send_dm_notice :: "world \<Rightarrow> string \<Rightarrow> client \<Rightarrow> client" where
  "maybe_send_dm_notice w sender cl =
     (if cl_operator_slug cl = [] then cl
      else if (case get_dm_notice sender (cl_db cl) of
                 None \<Rightarrow> False | Some last_ms \<Rightarrow> w_now_ms w - last_ms < DM_NOTICE_INTERVAL_MS)
      then cl
      else if w_notice_sent w then cl\<lparr>cl_db := set_dm_notice sender (w_now_ms w) (cl_db cl)\<rparr>
      else cl)"

subsection \<open>The approval prompt\<close>

text \<open>\<open>maybe_gate_foreign_dm\<close>: \<open>True\<close> holds the message. The prompt that was sent names its
  envelope; \<open>None\<close> is a send that raised, an empty name one without an envelope.\<close>

definition maybe_gate_foreign_dm :: "world \<Rightarrow> string \<Rightarrow> client \<Rightarrow> bool \<times> client" where
  "maybe_gate_foreign_dm w sender cl =
     (if sender \<in> snd ` set (cl_pending_dm_approvals cl) then (True, cl)
      else if cl_operator_slug cl = [] then (False, cl)
      else if \<not> truthy (w_prompt_envelope w) then (True, cl)
      else (True, cl\<lparr>cl_pending_dm_approvals :=
             dict_set (cl_pending_dm_approvals cl) (or_empty (w_prompt_envelope w)) sender\<rparr>))"

definition drop_pending_from_sender :: "string \<Rightarrow> client \<Rightarrow> client" where
  "drop_pending_from_sender sender cl =
     (if sender = [] then cl
      else cl\<lparr>cl_db := snd (tombstone_gated_dms_from sender (cl_db cl))\<rparr>)"

text \<open>The answer in a reply: only a text can be one of the four words, since \<open>str\<close> of another JSON
  value never is.\<close>

definition approval_answer :: "json \<Rightarrow> bool option" where
  "approval_answer v =
     (case v of
        JStr t \<Rightarrow>
          (let n = map (\<lambda>c. let k = of_char c :: nat in if 65 \<le> k \<and> k \<le> 90 then char_of (k + 32) else c) (strip t)
           in if n = ''y'' \<or> n = ''yes'' then Some True
              else if n = ''n'' \<or> n = ''no'' then Some False else None)
      | _ \<Rightarrow> None)"

text \<open>\<open>maybe_handle_dm_approval_reply\<close>; \<open>drain\<close> feeds the sender's held deliveries back to this
  handler.\<close>

definition maybe_handle_dm_approval_reply ::
  "(string \<Rightarrow> client \<Rightarrow> client) \<Rightarrow> world \<Rightarrow> string \<Rightarrow> json \<Rightarrow> client \<Rightarrow> bool \<times> client" where
  "maybe_handle_dm_approval_reply drain w prompt body cl =
     (case map_of (cl_pending_dm_approvals cl) prompt of
        None \<Rightarrow> (False, cl)
      | Some sender \<Rightarrow>
          (case approval_answer body of
             None \<Rightarrow> (False, cl)
           | Some approved \<Rightarrow>
               if \<not> w_post_ok w then (True, cl)
               else let cl1 = (if approved then drain sender (note_contact_allowed sender cl)
                               else drop_pending_from_sender sender
                                 (cl\<lparr>cl_contacts := snd (note_blocked True sender True (cl_contacts cl))\<rparr>))
                    in (True, cl1\<lparr>cl_pending_dm_approvals :=
                                filter (\<lambda>e. fst e \<noteq> prompt) (cl_pending_dm_approvals cl1)\<rparr>)))"

subsection \<open>The other gates\<close>

definition terminal_verdict :: "string \<Rightarrow> string \<Rightarrow> GateVerdict" where
  "terminal_verdict gate rsn =
     \<lparr>verdict_gate = gate, verdict_disposition = TERMINAL, verdict_reason = rsn, verdict_content = None\<rparr>"

definition gated_verdict :: "string \<Rightarrow> GateVerdict" where
  "gated_verdict rsn =
     \<lparr>verdict_gate = ''foreign_dm'', verdict_disposition = FOREIGN_DM_GATED, verdict_reason = rsn,
      verdict_content = None\<rparr>"

definition operator_control_gate ::
  "(string \<Rightarrow> client \<Rightarrow> client) \<Rightarrow> world \<Rightarrow> MessagePayload \<Rightarrow> string \<Rightarrow> client \<Rightarrow> GateVerdict option \<times> client" where
  "operator_control_gate drain w p thread cl =
     (if \<not> (mp_envelope_kind p = ''dm'' \<and> mp_sender_slug p = cl_operator_slug cl) then (None, cl)
      else if w_invite_handled w
      then (Some (terminal_verdict ''operator_control'' ''handled invite reply''), cl)
      else if w_leave_handled w
      then (Some (terminal_verdict ''operator_control'' ''handled leave reply''), cl)
      else if w_permission_handled w
      then (Some (terminal_verdict ''operator_control'' ''handled permission reply''), cl)
      else let (handled, cl1) = maybe_handle_dm_approval_reply drain w thread (mp_content p) cl
           in if handled
              then (Some (terminal_verdict ''operator_control'' ''handled dm approval reply''), cl1)
              else if w_redeem_handled w
              then (Some (terminal_verdict ''operator_control'' ''handled invite-link redeem reply''), cl1)
              else (None, cl1))"

definition invite_link_gate :: "world \<Rightarrow> MessagePayload \<Rightarrow> GateVerdict option" where
  "invite_link_gate w p =
     (if mp_envelope_kind p \<noteq> ''dm'' \<or> w_invite_code w = [] \<or> \<not> w_bare_invite w then None
      else Some (terminal_verdict ''invite_link_redeem'' ''invite link routed to operator approval''))"

text \<open>\<open>trusted\<close> in \<open>foreign_dm_gate\<close>: the allow list is asked only when direct messages are not
  accepted from everyone, and shared spaces only after it said no.\<close>

definition trusted_sender :: "world \<Rightarrow> string \<Rightarrow> client \<Rightarrow> bool \<times> client" where
  "trusted_sender w sender cl =
     (if cl_auto_accept_dm cl then (True, cl)
      else let (allowed, c) = is_allowed (w_allow_read w) sender (cl_contacts cl)
           in (allowed \<or> (cl_signed_http cl \<and> w_shares_space w), cl\<lparr>cl_contacts := c\<rparr>))"

definition foreign_dm_gate :: "world \<Rightarrow> MessagePayload \<Rightarrow> client \<Rightarrow> GateVerdict option \<times> client" where
  "foreign_dm_gate w p cl =
     (let sender = mp_sender_slug p
      in if mp_envelope_kind p \<noteq> ''dm'' then (None, cl)
         else if \<not> is_foreign_dm_sender w sender cl
         then (None, if cl_signed_http cl then ensure_trusted_contact w sender cl else cl)
         else let cl1 = (if cl_signed_http cl then maybe_send_dm_notice w sender cl else cl);
                  (trusted, cl2) = trusted_sender w sender cl1
              in if trusted then (None, cl2)
                 else if \<not> cl_signed_http cl2
                 then (Some (gated_verdict
                         (if cl_operator_slug cl2 = [] then ''foreign dm gated (keyless: no operator configured)''
                          else ''foreign dm gated (keyless: no operator prompt)'')), cl2)
                 else let (gated, cl3) = maybe_gate_foreign_dm w sender cl2
                      in if gated then (Some (gated_verdict ''foreign dm awaiting approval''), cl3)
                         else (None, cl3))"

subsection \<open>Committing a receipt\<close>

definition receipt_stored :: "ReceiptResult \<Rightarrow> bool" where
  "receipt_stored r \<longleftrightarrow> rr_status r = COMMITTED \<or> rr_status r = IDEMPOTENT"

definition notify_runtime :: "MessagePayload \<Rightarrow> ReceiptResult \<Rightarrow> client \<Rightarrow> client" where
  "notify_runtime p r cl =
     (if \<not> cl_has_runtime cl then cl
      else let cl1 = (if mp_envelope_kind p = ''channel'' \<and> receipt_stored r
                      then cl\<lparr>cl_delivery_notified := cl_delivery_notified cl + 1\<rparr> else cl)
           in if rr_disposition r = ELIGIBLE \<and> receipt_stored r
              then cl1\<lparr>cl_notified := cl_notified cl1 + 1\<rparr> else cl1)"

text \<open>The write of \<open>commit\<close>: an eligible message first tries to release the row that was held for it;
  a conflict there falls back on an ordinary receipt.\<close>

definition write_receipt ::
  "int \<Rightarrow> MessagePayload \<Rightarrow> int \<Rightarrow> payload \<Rightarrow> receipt_disposition \<Rightarrow> string \<Rightarrow> db \<Rightarrow> (ReceiptResult \<times> db) res" where
  "write_receipt now p seq row disp rsn d =
     (if disp = ELIGIBLE then
        res_bind (promote_gated_receipt now (mp_envelope_id p) (Some seq) rsn (Some row) d) (\<lambda>(r, d1).
          if rr_status r \<noteq> CONFLICT then Inr (r, d1)
          else store_receipt now row seq disp rsn None d1)
      else store_receipt now row seq disp rsn None d)"

type_synonym delivery_result = "store_error + TransportOutcome"

definition commit ::
  "world \<Rightarrow> MessagePayload \<Rightarrow> int \<Rightarrow> payload \<Rightarrow> receipt_disposition \<Rightarrow> string \<Rightarrow> string option \<Rightarrow> client
   \<Rightarrow> delivery_result \<times> client" where
  "commit w p seq stored disp rsn replaced cl =
     (let row = (case replaced of None \<Rightarrow> stored
                 | Some t \<Rightarrow> stored\<lparr>p_content := Some (JStr t), p_content_type := Some ''text/plain''\<rparr>)
      in case write_receipt (w_store_ms w) p seq row disp rsn (cl_db cl) of
           Inl e \<Rightarrow> (Inl e, cl)
         | Inr (r, d') \<Rightarrow>
             (let cl1 = cl\<lparr>cl_db := d'\<rparr>
              in if rr_status r = CONFLICT then (Inr HOLD, cl1)
                 else (Inr (if rr_acknowledge r then ACK
                            else if rr_disposition r = FOREIGN_DM_GATED \<and> receipt_stored r then DEFER
                            else HOLD),
                       notify_runtime p r cl1)))"

subsection \<open>Handling a delivery\<close>

definition incoming_of :: "MessagePayload \<Rightarrow> client \<Rightarrow> incoming" where
  "incoming_of p cl =
     \<lparr>in_channel_id = mp_channel_id p, in_space_id = mp_space_id p, in_envelope_kind = mp_envelope_kind p,
      in_dm_peer = (if mp_envelope_kind p = ''dm''
                    then if mp_sender_slug p = cl_slug cl then or_empty (mp_recipient_slug p) else mp_sender_slug p
                    else []),
      in_self_slug = cl_slug cl\<rparr>"

definition build_payload :: "bool \<Rightarrow> MessagePayload \<Rightarrow> client \<Rightarrow> payload" where
  "build_payload is_plaintext p cl =
     (let (thread, unverified) = resolve_incoming_thread_root (incoming_of p cl) (mp_thread_root_id p) (cl_db cl)
      in \<lparr>p_envelope_id = Some (mp_envelope_id p), p_envelope_kind = Some (mp_envelope_kind p),
          p_sender_slug = Some (mp_sender_slug p), p_channel_id = mp_channel_id p, p_space_id = mp_space_id p,
          p_recipient_slug = mp_recipient_slug p, p_content_type = Some (mp_content_type p),
          p_content = Some (mp_content p), p_sent_at = Some (mp_sent_at p), p_thread_root_id = thread,
          p_reply_to_id = validate_incoming_parent_id (incoming_of p cl) (mp_reply_to_id p) (cl_db cl),
          p_thread_root_unverified = Some unverified, p_is_encrypted = Some (\<not> is_plaintext)\<rparr>)"

definition commit_verdict ::
  "world \<Rightarrow> MessagePayload \<Rightarrow> int \<Rightarrow> payload \<Rightarrow> GateVerdict option \<Rightarrow> client \<Rightarrow> delivery_result option \<times> client" where
  "commit_verdict w p seq stored verdict cl =
     (case verdict of
        None \<Rightarrow> (None, cl)
      | Some v \<Rightarrow>
          (let (out, cl1) = commit w p seq stored (verdict_disposition v) (verdict_reason v) (verdict_content v) cl
           in (Some out, cl1)))"

definition blocked_outcome ::
  "world \<Rightarrow> MessagePayload \<Rightarrow> int \<Rightarrow> payload \<Rightarrow> client \<Rightarrow> delivery_result option \<times> client" where
  "blocked_outcome w p seq stored cl =
     (case blocked_gate w p cl of
        (Inl _, cl1) \<Rightarrow> (Some (Inr HOLD), cl1)
      | (Inr v, cl1) \<Rightarrow> commit_verdict w p seq stored v cl1)"

text \<open>\<open>maybe_allowlist_outbound_dm\<close>.\<close>

definition maybe_allowlist_outbound_dm :: "world \<Rightarrow> string \<Rightarrow> client \<Rightarrow> client" where
  "maybe_allowlist_outbound_dm w recipient cl =
     (if recipient = [] \<or> recipient \<in> snd ` set (cl_pending_dm_approvals cl)
         \<or> has_dm_from recipient (cl_db cl) \<or> \<not> is_foreign_dm_sender w recipient cl
      then cl
      else case is_allowed (w_allow_read w) recipient (cl_contacts cl) of
        (True, c) \<Rightarrow> cl\<lparr>cl_contacts := c\<rparr>
      | (False, c) \<Rightarrow>
          if w_post_ok w then note_contact_allowed recipient (cl\<lparr>cl_contacts := c\<rparr>)
          else cl\<lparr>cl_contacts := c\<rparr>)"

definition shown_value :: "(json \<Rightarrow> string) \<Rightarrow> json \<Rightarrow> string" where
  "shown_value rep v =
     (case v of
        JStr t \<Rightarrow> t
      | JBool b \<Rightarrow> if b then ''True'' else ''False''
      | JInt i \<Rightarrow> int_dec i
      | JFloat r \<Rightarrow> r
      | _ \<Rightarrow> rep v)"

definition content_with_visibility :: "(json \<Rightarrow> string) \<Rightarrow> json \<Rightarrow> bool \<Rightarrow> json" where
  "content_with_visibility rep v visible =
     (case v of
        JObj kvs \<Rightarrow> JObj (dict_set kvs ''is_visible_to_human'' (JBool visible))
      | JNull \<Rightarrow> JObj [(''text'', JStr []), (''is_visible_to_human'', JBool visible)]
      | _ \<Rightarrow> JObj [(''text'', JStr (shown_value rep v)), (''is_visible_to_human'', JBool visible)])"

definition self_echo_outcome ::
  "world \<Rightarrow> MessagePayload \<Rightarrow> int \<Rightarrow> payload \<Rightarrow> client \<Rightarrow> delivery_result option \<times> client" where
  "self_echo_outcome w p seq stored cl =
     (if mp_sender_slug p \<noteq> cl_slug cl then (None, cl)
      else let cl1 = (if mp_envelope_kind p = ''dm''
                      then maybe_allowlist_outbound_dm w (or_empty (mp_recipient_slug p)) cl else cl);
               prompt_echo = mp_envelope_id p \<in> fst ` set (cl_pending_dm_approvals cl1);
               stored1 = stored\<lparr>p_content := Some (content_with_visibility (w_repr w)
                           (if prompt_echo then JStr DM_GATE_PROMPT_PLACEHOLDER else mp_content p)
                           (mp_is_visible_to_human p))\<rparr>;
               stored2 = (if prompt_echo then stored1\<lparr>p_content_type := Some ''text/plain''\<rparr> else stored1);
               (out, cl2) = commit w p seq stored2 TERMINAL ''self echo'' None cl1
           in (Some out, cl2))"

definition is_stale_for_catchup :: "world \<Rightarrow> int \<Rightarrow> client \<Rightarrow> bool" where
  "is_stale_for_catchup w sent cl \<longleftrightarrow>
     cl_catchup_stale_ms cl > 0 \<and> sent < w_now_ms w - cl_catchup_stale_ms cl"

definition stale_outcome ::
  "world \<Rightarrow> MessagePayload \<Rightarrow> int \<Rightarrow> payload \<Rightarrow> client \<Rightarrow> delivery_result option \<times> client" where
  "stale_outcome w p seq stored cl =
     (if \<not> is_stale_for_catchup w (mp_sent_at p) cl then (None, cl)
      else let (out, cl1) = commit w p seq stored TERMINAL ''stale catch-up'' None cl
           in (Some out,
               if out = Inr ACK \<and> cl_has_reports cl1
               then cl1\<lparr>cl_stale_reports := cl_stale_reports cl1 @ [mp_envelope_id p]\<rparr> else cl1))"

definition cache_channel_space :: "MessagePayload \<Rightarrow> client \<Rightarrow> client" where
  "cache_channel_space p cl =
     (if mp_envelope_kind p \<noteq> ''dm'' \<and> truthy (mp_channel_id p) \<and> truthy (mp_space_id p)
      then cl\<lparr>cl_channel_space := dict_set (cl_channel_space cl) (or_empty (mp_channel_id p)) (or_empty (mp_space_id p))\<rparr>
      else cl)"

definition admit_delivery :: "world \<Rightarrow> MessagePayload \<Rightarrow> int \<Rightarrow> payload \<Rightarrow> client \<Rightarrow> delivery_result \<times> client" where
  "admit_delivery w p seq stored cl =
     commit w p seq (stored\<lparr>p_content := Some (w_prompt_content w)\<rparr>) ELIGIBLE ''eligible message'' None
       (cache_channel_space p cl)"

text \<open>An arm that decides ends the handler; otherwise the next one runs on the client it left.\<close>

definition or_else ::
  "delivery_result option \<times> client \<Rightarrow> (client \<Rightarrow> delivery_result \<times> client) \<Rightarrow> delivery_result \<times> client" where
  "or_else arm rest = (case arm of (Some out, cl) \<Rightarrow> (out, cl) | (None, cl) \<Rightarrow> rest cl)"

definition handle ::
  "(string \<Rightarrow> client \<Rightarrow> client) \<Rightarrow> world \<Rightarrow> int \<Rightarrow> bool \<Rightarrow> MessagePayload \<Rightarrow> client \<Rightarrow> delivery_result \<times> client" where
  "handle drain w seq is_plaintext p cl =
     (let stored = build_payload is_plaintext p cl
      in or_else (blocked_outcome w p seq stored cl) (\<lambda>cl1.
         or_else (self_echo_outcome w p seq stored cl1) (\<lambda>cl2.
         or_else (let (v, c) = operator_control_gate drain w p (or_empty (p_thread_root_id stored)) cl2
                  in commit_verdict w p seq stored v c) (\<lambda>cl3.
         or_else (commit_verdict w p seq stored (invite_link_gate w p) cl3) (\<lambda>cl4.
         or_else (let (v, c) = foreign_dm_gate w p cl4 in commit_verdict w p seq stored v c) (\<lambda>cl5.
         or_else (stale_outcome w p seq stored cl5) (\<lambda>cl6.
           admit_delivery w p seq stored cl6)))))))"

text \<open>\<open>drain_pending_from_sender\<close>: the deliveries the Server still holds for the sender run through the
  handler again, each with what the others answer to it; one that raises is skipped. They come from a
  stranger, so none of them is an answer of the operator that would drain again.\<close>

definition redeliver :: "(world \<times> int \<times> bool \<times> MessagePayload) list \<Rightarrow> string \<Rightarrow> client \<Rightarrow> client" where
  "redeliver held sender cl =
     (if sender = [] then cl
      else fold (\<lambda>(w, seq, is_plaintext, p) c. snd (handle (\<lambda>_ c'. c') w seq is_plaintext p c)) held cl)"

end
