(* ===== verification/Ingress_Props.thy ===== *)
theory Ingress_Props
  imports Ingress Receipt_Props
begin

section \<open>What a delivery may do\<close>

text \<open>
  The handler of inbound deliveries: an acknowledgement means a durable row, a blocked sender leaves
  no trace of its text, an unapproved stranger is held and seen by nobody, and an approval releases
  what was held.
\<close>

subsection \<open>Receipts that do not wake the Inbox\<close>

lemma pending_ids_sql:
  assumes "messages d' = sql_update P f (messages d)"
    and "\<And>m. envelope_id (f m) = envelope_id m \<and> processing_state (f m) = processing_state m"
  shows "pending_ids d' = pending_ids d"
proof -
  define h where "h = (\<lambda>m. if P m then f m else m)"
  have "is_pending (h m) = is_pending m" "envelope_id (h m) = envelope_id m" for m
    using assms(2) by (simp_all add: is_pending_def h_def)
  then show ?thesis unfolding set_eq_iff pending_ids_iff assms(1) sql_update_map h_def [symmetric] by simp
qed

lemma pending_ids_settled:
  assumes "messages d' = settle_unverified_thread_claims v (messages d @ [row])" "\<not> is_pending row"
  shows "pending_ids d' = pending_ids d"
proof -
  obtain g where g: "settle_unverified_thread_claims v (messages d @ [row]) = map g (messages d @ [row])" "thread_only g"
    using settle_map by blast
  have "envelope_id (g m) = envelope_id m" "processing_state (g m) = processing_state m" for m
    by (rule thread_only_field [OF g(2)], simp)+
  then show ?thesis
    using assms(2) unfolding set_eq_iff pending_ids_iff assms(1) g(1) by (auto simp: is_pending_def)
qed

lemma quiet_receipt_pending:
  assumes "store_receipt now p seq disp rsn recv d = Inr (r, d')" "disp \<noteq> ELIGIBLE"
  shows "pending_ids d' = pending_ids d"
proof -
  define vals where "vals = payload_values now p recv"
  consider "d' = d"
    | P f where "messages d' = sql_update P f (messages d)"
        "\<And>m. envelope_id (f m) = envelope_id m \<and> processing_state (f m) = processing_state m"
    | rows where "insert_message (vals\<lparr>server_seq := Some seq, receipt_disposition := Some disp,
          receipt_reason := Some rsn, processing_state := None\<rparr>) (messages d) = Inr rows"
        "messages d' = settle_unverified_thread_claims vals rows"
    using assms
    by (auto simp: store_receipt_def persist_existing_receipt_def backfill_missing_sequence_def
        insert_new_receipt_def Let_def vals_def check_seq_index_Inr split: option.splits if_splits sum.splits)
  then show ?thesis
  proof cases
    case (2 P f)
    then show ?thesis by (rule pending_ids_sql)
  next
    case (3 rows)
    then show ?thesis by (intro pending_ids_settled) (auto simp: insert_message_Inr is_pending_def)
  qed simp
qed

text \<open>A receipt of a new envelope at a new sequence.\<close>

lemma fresh_receipt:
  assumes inv: "store_inv d" and seq: "0 < seq" "Some seq \<notin> server_seq ` set (messages d)"
    and eid: "envelope_id (payload_values now p recv) \<noteq> []"
      "envelope_id (payload_values now p recv) \<notin> envelope_id ` set (messages d)"
  shows "\<exists>d'. store_receipt now p seq disp rsn recv d =
      Inr (receipt_result COMMITTED disp rsn (receipt_ack disp), d') \<and>
    (\<exists>m\<in>set (messages d'). envelope_id m = envelope_id (payload_values now p recv) \<and> server_seq m = Some seq \<and>
      receipt_disposition m = Some disp \<and> content m = content (payload_values now p recv) \<and>
      content_type m = content_type (payload_values now p recv) \<and>
      processing_state m = (if disp = ELIGIBLE then Some PENDING else None))"
proof -
  define vals where "vals = payload_values now p recv"
  define row where "row = vals\<lparr>server_seq := Some seq, receipt_disposition := Some disp, receipt_reason := Some rsn,
    processing_state := (if disp = ELIGIBLE then Some PENDING else None)\<rparr>"
  have free: "\<And>m. m \<in> set (messages d) \<Longrightarrow> server_seq m \<noteq> Some seq" using assms(3) by (metis imageI)
  have absent: "sql_fetchone (\<lambda>m. envelope_id m = envelope_id vals) (messages d) = None"
    "sql_fetchone (\<lambda>m. server_seq m = Some seq) (messages d) = None"
    using free assms(5) by (simp_all add: sql_fetchone_None vals_def) (metis imageI)
  have "insert_message row (messages d) = Inr (messages d @ [row])"
    using assms(5) seqsD [OF inv] free
    by (auto simp: insert_message_Inr row_def vals_def set_map_filter_col map_filter_append_col)
  moreover obtain g where g: "settle_unverified_thread_claims vals (messages d @ [row]) = map g (messages d @ [row])"
    "thread_only g" using settle_map by blast
  ultimately obtain d' where d': "store_receipt now p seq disp rsn recv d =
      Inr (receipt_result COMMITTED disp rsn (receipt_ack disp), d')" "messages d' = map g (messages d @ [row])"
    using assms(2,4) absent
    by (auto simp: store_receipt_def insert_new_receipt_def Let_def row_def vals_def [symmetric] cong: if_cong)
  have "envelope_id (g row) = envelope_id row" "server_seq (g row) = server_seq row"
    "receipt_disposition (g row) = receipt_disposition row" "content (g row) = content row"
    "content_type (g row) = content_type row" "processing_state (g row) = processing_state row"
    by (rule thread_only_field [OF g(2)], simp)+
  with d' show ?thesis by (auto simp: row_def vals_def)
qed

subsection \<open>Committing\<close>

lemma commit_frame:
  "cl_pending_dm_approvals (snd (commit w p seq stored disp rsn replaced cl)) = cl_pending_dm_approvals cl"
  "cl_contacts (snd (commit w p seq stored disp rsn replaced cl)) = cl_contacts cl"
  by (auto simp: commit_def notify_runtime_def Let_def split: sum.splits option.splits)

lemma commit_quiet:
  assumes "disp \<noteq> ELIGIBLE"
  shows "pending_ids (cl_db (snd (commit w p seq stored disp rsn replaced cl))) = pending_ids (cl_db cl)"
  using assms
  by (auto simp: commit_def write_receipt_def notify_runtime_def Let_def quiet_receipt_pending
      split: sum.splits option.splits)

lemma commit_fresh:
  assumes "store_inv (cl_db cl)" "0 < seq" "Some seq \<notin> server_seq ` set (messages (cl_db cl))"
    and "p_envelope_id stored = Some (mp_envelope_id p)" "mp_envelope_id p \<noteq> []"
      "mp_envelope_id p \<notin> envelope_id ` set (messages (cl_db cl))"
    and disp: "disp \<noteq> ELIGIBLE"
  shows "\<exists>cl'. commit w p seq stored disp rsn replaced cl = (Inr (if receipt_ack disp then ACK
        else if disp = FOREIGN_DM_GATED then DEFER else HOLD), cl') \<and> cl_notified cl' = cl_notified cl \<and>
    (\<exists>m\<in>set (messages (cl_db cl')). envelope_id m = mp_envelope_id p \<and> server_seq m = Some seq \<and>
      receipt_disposition m = Some disp \<and> processing_state m = None \<and>
      (\<forall>t. replaced = Some t \<longrightarrow> content m = encode_content (JStr t)))"
proof -
  define row where "row = (case replaced of None \<Rightarrow> stored
    | Some t \<Rightarrow> stored\<lparr>p_content := Some (JStr t), p_content_type := Some ''text/plain''\<rparr>)"
  have id: "envelope_id (payload_values (w_store_ms w) row None) = mp_envelope_id p"
    using assms(4) by (simp add: row_def payload_values_def get_default_def split: option.splits)
  have body: "replaced = Some t \<Longrightarrow> content (payload_values (w_store_ms w) row None) = encode_content (JStr t)" for t
    by (simp add: row_def payload_values_def get_default_def)
  from fresh_receipt [OF assms(1,2,3), of "w_store_ms w" row None disp rsn, unfolded id, OF assms(5,6)]
  obtain d' m where d': "store_receipt (w_store_ms w) row seq disp rsn None (cl_db cl) =
      Inr (receipt_result COMMITTED disp rsn (receipt_ack disp), d')"
    and m: "m \<in> set (messages d')" "envelope_id m = mp_envelope_id p" "server_seq m = Some seq"
      "receipt_disposition m = Some disp" "content m = content (payload_values (w_store_ms w) row None)"
      "processing_state m = None" using disp by auto
  define cl2 where "cl2 = notify_runtime p (receipt_result COMMITTED disp rsn (receipt_ack disp)) (cl\<lparr>cl_db := d'\<rparr>)"
  have "commit w p seq stored disp rsn replaced cl =
      (Inr (if receipt_ack disp then ACK else if disp = FOREIGN_DM_GATED then DEFER else HOLD), cl2)"
    using d' disp unfolding commit_def row_def [symmetric] Let_def
    by (simp add: write_receipt_def receipt_stored_def cl2_def)
  moreover have "cl_db cl2 = d'" "cl_notified cl2 = cl_notified cl"
    using disp by (simp_all add: notify_runtime_def Let_def cl2_def)
  ultimately show ?thesis using m body by (intro exI [of _ cl2] conjI bexI [of _ m]) auto
qed

subsection \<open>A blocked sender\<close>

definition blocked_reason :: "MessagePayload \<Rightarrow> string" where
  "blocked_reason p = (if mp_envelope_kind p = ''dm'' then ''blocked dm tombstone'' else ''blocked channel tombstone'')"

lemma blocked_handle:
  assumes "mp_sender_slug p \<noteq> cl_slug cl" "is_blocked (w_block_read w) (mp_sender_slug p) (cl_contacts cl) = (Some True, c)"
  shows "handle drain w seq plain p cl = commit w p seq (build_payload plain p cl) TERMINAL (blocked_reason p)
    (Some BLOCKED_MESSAGE_PLACEHOLDER) (cl\<lparr>cl_contacts := c\<rparr>)"
  using assms by (simp add: handle_def or_else_def blocked_outcome_def blocked_gate_def Let_def commit_verdict_def
      blocked_reason_def split_beta)

lemma build_payload_body:
  "build_payload plain (p\<lparr>mp_content := body, mp_content_type := ct\<rparr>) cl =
     (build_payload plain p cl)\<lparr>p_content := Some body, p_content_type := Some ct\<rparr>"
  by (simp add: build_payload_def incoming_of_def split_beta)

lemma notify_runtime_body:
  "notify_runtime (p\<lparr>mp_content := body, mp_content_type := ct\<rparr>) = notify_runtime p"
  by (simp add: notify_runtime_def fun_eq_iff)


subsection \<open>Samples\<close>

definition sample_read :: cache_read where
  "sample_read = \<lparr>cr_now = 10, cr_fetched = 11, cr_lists = Some ([], [(''user'', ''mallory'')])\<rparr>"

definition sample_world :: world where
  "sample_world =
     \<lparr>w_now_ms = 1000, w_store_ms = 1001, w_block_read = sample_read, w_allow_read = sample_read,
      w_owner_slug = [], w_shares_space = False, w_post_ok = True, w_notice_sent = True,
      w_prompt_envelope = Some ''prompt1'', w_invite_handled = False, w_leave_handled = False,
      w_permission_handled = False, w_redeem_handled = False, w_invite_code = [], w_bare_invite = False,
      w_repr = (\<lambda>_. []), w_prompt_content = JStr ''rendered''\<rparr>"

definition sample_client :: "db \<Rightarrow> client" where
  "sample_client d =
     \<lparr>cl_slug = ''agent'', cl_operator_slug = ''op'', cl_auto_accept_dm = False, cl_signed_http = True,
      cl_catchup_stale_ms = 0, cl_contacts = new_contact_cache False 300 15 None,
      cl_pending_dm_approvals = [], cl_db = d, cl_channel_space = [], cl_has_runtime = True,
      cl_notified = 0, cl_delivery_notified = 0, cl_has_reports = False, cl_stale_reports = []\<rparr>"

definition sample_dm :: "string \<Rightarrow> string \<Rightarrow> string \<Rightarrow> string option \<Rightarrow> MessagePayload" where
  "sample_dm sender eid body thread =
     \<lparr>mp_envelope_id = eid, mp_envelope_kind = ''dm'', mp_sender_slug = sender, mp_sent_at = 900,
      mp_content_type = ''text/plain'', mp_content = JStr body, mp_is_visible_to_human = True,
      mp_space_id = None, mp_channel_id = None, mp_recipient_slug = Some ''agent'',
      mp_thread_root_id = thread, mp_reply_to_id = None\<rparr>"

lemma sample_simps [simp]:
  "mp_envelope_id (sample_dm s e b t) = e" "mp_envelope_kind (sample_dm s e b t) = ''dm''"
  "mp_sender_slug (sample_dm s e b t) = s" "mp_sent_at (sample_dm s e b t) = 900" "mp_content (sample_dm s e b t) = JStr b"
  "cl_slug (sample_client d) = ''agent''" "cl_operator_slug (sample_client d) = ''op''" "cl_db (sample_client d) = d"
  "cl_signed_http (sample_client d)" "\<not> cl_auto_accept_dm (sample_client d)" "cl_notified (sample_client d) = 0"
  "cl_has_runtime (sample_client d)"
  by (simp_all add: sample_dm_def sample_client_def)

definition sample_contacts :: contact_cache where
  "sample_contacts = refresh 11 (cr_lists sample_read) (new_contact_cache False 300 15 None)"

lemma sample_block: "cc_block sample_contacts = {''mallory''}"
  by (auto simp: sample_contacts_def refresh_def sample_read_def new_contact_cache_def)

lemma sample_blocked:
  "s \<noteq> [] \<Longrightarrow> is_blocked (w_block_read sample_world) s (cl_contacts (sample_client d)) = (Some (s = ''mallory''), sample_contacts)"
  using sample_block by (simp add: is_blocked_def Let_def sample_world_def sample_client_def sample_read_def maybe_refresh_def cache_age_def
      ensure_local_state_def new_contact_cache_def refresh_def sample_contacts_def)

lemma sample_not_allowed: "s \<noteq> [] \<Longrightarrow> \<exists>c. is_allowed (w_allow_read sample_world) s sample_contacts = (False, c)"
  by (simp add: is_allowed_def Let_def sample_world_def sample_read_def maybe_refresh_def cache_age_def
      ensure_local_state_def new_contact_cache_def refresh_def sample_contacts_def)

lemma empty_db_simps: "messages empty_db = []" by (simp add: empty_db_def)


subsection \<open>Acknowledged means durable\<close>

definition durable_row :: "MessagePayload \<Rightarrow> int \<Rightarrow> client \<Rightarrow> bool" where
  "durable_row p seq cl \<longleftrightarrow>
     (\<exists>m\<in>set (messages (cl_db cl)). envelope_id m = mp_envelope_id p \<and> server_seq m = Some seq)"

definition sound_result :: "MessagePayload \<Rightarrow> int \<Rightarrow> delivery_result \<times> client \<Rightarrow> bool" where
  "sound_result p seq res \<longleftrightarrow>
     (\<exists>out. fst res = Inr out \<and> (out = ACK \<longrightarrow> durable_row p seq (snd res))) \<and> store_inv (cl_db (snd res))"

lemma promote_durable:
  assumes "store_inv d" "p_envelope_id row = Some eid"
  shows "\<exists>r d'. promote_gated_receipt now eid (Some seq) rsn (Some row) d = Inr (r, d') \<and>
    (if rr_status r = CONFLICT then d' = d
     else \<exists>m\<in>set (messages d'). envelope_id m = eid \<and> server_seq m = Some seq)"
proof (cases "sql_fetchone (\<lambda>m. envelope_id m = eid) (messages d)")
  case None
  then show ?thesis using assms(2) by (simp add: promote_gated_receipt_def payload_values_def get_default_def)
next
  case (Some r)
  have r: "r \<in> set (messages d)" "envelope_id r = eid" using sql_fetchone_Some [OF Some] by auto
  have "\<exists>m\<in>set (sql_update P f (messages d)). envelope_id m = eid \<and> server_seq m = Some seq"
    if "server_seq r = Some seq" "\<And>m. envelope_id (f m) = envelope_id m \<and> server_seq (f m) = server_seq m"
    for P and f :: "message_row \<Rightarrow> message_row"
    using r that sql_update_in [of r "messages d" P f] sql_update_other [of r "messages d" P f]
    by (cases "P r") metis+
  then show ?thesis using Some r assms(2)
    by (auto simp: promote_gated_receipt_def payload_values_def get_default_def Let_def split_beta)
qed

lemma write_receipt_sound:
  assumes "store_inv d" "0 < seq" "p_envelope_id row = Some (mp_envelope_id p)" "mp_envelope_id p \<noteq> []"
  shows "\<exists>r d'. write_receipt now p seq row disp rsn d = Inr (r, d') \<and> store_inv d' \<and>
    (rr_status r \<noteq> CONFLICT \<and> rr_acknowledge r \<longrightarrow>
      (\<exists>m\<in>set (messages d'). envelope_id m = mp_envelope_id p \<and> server_seq m = Some seq))"
proof -
  have id: "mp_envelope_id p = envelope_id (payload_values now row None)"
    using assms(3) by (simp add: payload_values_def get_default_def)
  have st: "\<exists>r d'. store_receipt now row seq disp rsn None d = Inr (r, d') \<and> store_inv d' \<and>
      (rr_acknowledge r \<longrightarrow> (\<exists>m\<in>set (messages d'). envelope_id m = mp_envelope_id p \<and> server_seq m = Some seq))"
    using assms(1,2) id assms(4)
  proof (cases rule: store_receipt_cases [where disp = disp and rsn = rsn])
    case (committed r d' m)
    then show ?thesis using store_inv_store_receipt [OF assms(1)] by blast
  qed (use assms(1) in blast)+
  show ?thesis
  proof (cases "disp = ELIGIBLE")
    case True
    from promote_durable [OF assms(1,3), of now seq rsn] obtain r d' where
      pr: "promote_gated_receipt now (mp_envelope_id p) (Some seq) rsn (Some row) d = Inr (r, d')"
      and ok: "if rr_status r = CONFLICT then d' = d
        else \<exists>m\<in>set (messages d'). envelope_id m = mp_envelope_id p \<and> server_seq m = Some seq" by blast
    show ?thesis
    proof (cases "rr_status r = CONFLICT")
      case conf: True
      then have "write_receipt now p seq row disp rsn d = store_receipt now row seq disp rsn None d"
        using True pr ok by (simp add: write_receipt_def)
      with st show ?thesis by auto
    next
      case False
      then have "write_receipt now p seq row disp rsn d = Inr (r, d')" using True pr by (simp add: write_receipt_def)
      then show ?thesis using store_inv_promote [OF assms(1) pr] ok False by auto
    qed
  next
    case False
    then have "write_receipt now p seq row disp rsn d = store_receipt now row seq disp rsn None d"
      by (simp add: write_receipt_def)
    with st show ?thesis by auto
  qed
qed

lemma commit_sound:
  assumes "store_inv (cl_db cl)" "0 < seq" "p_envelope_id stored = Some (mp_envelope_id p)" "mp_envelope_id p \<noteq> []"
  shows "sound_result p seq (commit w p seq stored disp rsn replaced cl)"
proof -
  define row where "row = (case replaced of None \<Rightarrow> stored
    | Some t \<Rightarrow> stored\<lparr>p_content := Some (JStr t), p_content_type := Some ''text/plain''\<rparr>)"
  have "p_envelope_id row = Some (mp_envelope_id p)" using assms(3) by (simp add: row_def split: option.splits)
  from write_receipt_sound [OF assms(1,2) this assms(4), of "w_store_ms w" disp rsn] obtain r d' where
    wr: "write_receipt (w_store_ms w) p seq row disp rsn (cl_db cl) = Inr (r, d')" "store_inv d'"
    "rr_status r \<noteq> CONFLICT \<and> rr_acknowledge r \<longrightarrow>
      (\<exists>m\<in>set (messages d'). envelope_id m = mp_envelope_id p \<and> server_seq m = Some seq)"
    by blast
  have db: "cl_db (notify_runtime p r c) = cl_db c" for c by (simp add: notify_runtime_def Let_def)
  show ?thesis using wr unfolding commit_def row_def [symmetric] Let_def
    by (auto simp: sound_result_def durable_row_def db split: if_splits)
qed

text \<open>An arm of the handler either decides soundly or leaves a good store to the next one.\<close>

definition sound_arm :: "MessagePayload \<Rightarrow> int \<Rightarrow> delivery_result option \<times> client \<Rightarrow> bool" where
  "sound_arm p seq arm \<longleftrightarrow>
     (case arm of (Some out, c) \<Rightarrow> sound_result p seq (out, c) | (None, c) \<Rightarrow> store_inv (cl_db c))"

lemma or_else_sound:
  assumes "sound_arm p seq arm" "\<And>c. store_inv (cl_db c) \<Longrightarrow> sound_result p seq (rest c)"
  shows "sound_result p seq (or_else arm rest)"
  using assms by (auto simp: or_else_def sound_arm_def split: prod.splits option.splits)

lemma verdict_arm:
  assumes "store_inv (cl_db cl)" "0 < seq" "p_envelope_id stored = Some (mp_envelope_id p)" "mp_envelope_id p \<noteq> []"
  shows "sound_arm p seq (commit_verdict w p seq stored v cl)"
  using assms(1) commit_sound [OF assms]
  by (simp add: sound_arm_def commit_verdict_def split_beta split: option.splits)

lemma dm_notice_db [simp]:
  "store_inv (set_dm_notice s t d) = store_inv d" "messages (set_dm_notice s t d) = messages d"
  by (simp_all add: set_dm_notice_def store_inv_def inv_messages_def inv_turns_def inv_notice_def
      contributions_ok_def told_all_def pending_ids_def turn_active_def turn_message_ids_def)

lemma gate_dbs:
  "cl_db (snd (blocked_gate w p cl)) = cl_db cl"
  "cl_db (ensure_trusted_contact w s cl) = cl_db cl" "cl_db (maybe_allowlist_outbound_dm w s cl) = cl_db cl"
  "cl_db (snd (trusted_sender w s cl)) = cl_db cl" "cl_db (snd (maybe_gate_foreign_dm w s cl)) = cl_db cl"
  "store_inv (cl_db (maybe_send_dm_notice w s cl)) = store_inv (cl_db cl)"
  "messages (cl_db (maybe_send_dm_notice w s cl)) = messages (cl_db cl)"
  by (auto simp: blocked_gate_def ensure_trusted_contact_def maybe_allowlist_outbound_dm_def trusted_sender_def
      maybe_gate_foreign_dm_def maybe_send_dm_notice_def note_contact_allowed_def Let_def split_beta
      split: prod.splits option.splits bool.splits)

lemma foreign_gate_db:
  "store_inv (cl_db (snd (foreign_dm_gate w p cl))) = store_inv (cl_db cl)"
  by (auto simp: foreign_dm_gate_def Let_def split_beta gate_dbs)

lemma operator_gate_db:
  assumes "\<And>s c. store_inv (cl_db c) \<Longrightarrow> store_inv (cl_db (drain s c))" "store_inv (cl_db cl)"
  shows "store_inv (cl_db (snd (operator_control_gate drain w p thread cl)))"
  using assms
  by (auto simp: operator_control_gate_def maybe_handle_dm_approval_reply_def drop_pending_from_sender_def
      note_contact_allowed_def store_inv_tombstone_from Let_def split_beta split: option.splits)

lemma blocked_arm:
  assumes "store_inv (cl_db cl)" "0 < seq" "p_envelope_id stored = Some (mp_envelope_id p)" "mp_envelope_id p \<noteq> []"
  shows "sound_arm p seq (blocked_outcome w p seq stored cl)"
proof (cases "blocked_gate w p cl")
  case (Pair x c)
  then have c: "store_inv (cl_db c)" using gate_dbs(1) [of w p cl] assms(1) by simp
  then show ?thesis using Pair verdict_arm [OF c assms(2-4)]
    by (cases x) (simp_all add: blocked_outcome_def sound_arm_def sound_result_def)
qed

lemma echo_arm:
  assumes "store_inv (cl_db cl)" "0 < seq" "p_envelope_id stored = Some (mp_envelope_id p)" "mp_envelope_id p \<noteq> []"
  shows "sound_arm p seq (self_echo_outcome w p seq stored cl)"
proof -
  have "sound_result p seq (commit w p seq (if b then stored\<lparr>p_content := x, p_content_type := y\<rparr> else stored\<lparr>p_content := x\<rparr>)
      TERMINAL ''self echo'' None (if k then maybe_allowlist_outbound_dm w s cl else cl))" for b x y k s
    by (rule commit_sound) (use assms gate_dbs(3) in simp_all)
  then show ?thesis using assms(1)
    unfolding self_echo_outcome_def Let_def split_beta sound_arm_def by (simp del: if_split)
qed

lemma stale_arm:
  assumes "store_inv (cl_db cl)" "0 < seq" "p_envelope_id stored = Some (mp_envelope_id p)" "mp_envelope_id p \<noteq> []"
  shows "sound_arm p seq (stale_outcome w p seq stored cl)"
  using assms(1) commit_sound [OF assms, of w TERMINAL "''stale catch-up''" None]
  by (auto simp: stale_outcome_def sound_arm_def sound_result_def durable_row_def split_beta Let_def)

lemma handle_sound:
  assumes "\<And>s c. store_inv (cl_db c) \<Longrightarrow> store_inv (cl_db (drain s c))"
    and "store_inv (cl_db cl)" "0 < seq" "mp_envelope_id p \<noteq> []"
  shows "sound_result p seq (handle drain w seq plain p cl)"
proof -
  define stored where "stored = build_payload plain p cl"
  have id: "p_envelope_id stored = Some (mp_envelope_id p)" by (simp add: stored_def build_payload_def split_beta)
  note rules = assms(3) id assms(4)
  have adm: "sound_result p seq (admit_delivery w p seq stored c)" if "store_inv (cl_db c)" for c
    unfolding admit_delivery_def by (rule commit_sound) (use that rules in \<open>simp_all add: cache_channel_space_def\<close>)
  show ?thesis unfolding handle_def Let_def stored_def [symmetric] split_beta
    by (intro or_else_sound blocked_arm echo_arm verdict_arm stale_arm adm rules assms(2))
      (simp_all add: operator_gate_db [OF assms(1)] foreign_gate_db)
qed

lemma redeliver_store_inv:
  assumes "store_inv (cl_db cl)" "list_all (\<lambda>(w, seq, plain, p). 0 < seq \<and> mp_envelope_id p \<noteq> []) held"
  shows "store_inv (cl_db (redeliver held s cl))"
proof -
  have "store_inv (cl_db (fold (\<lambda>(w, seq, plain, p) c. snd (handle (\<lambda>_ c'. c') w seq plain p c)) held c))"
    if "store_inv (cl_db c)" for c
    using that assms(2)
  proof (induction held arbitrary: c)
    case (Cons x held)
    obtain w seq plain p where x: "x = (w, seq, plain, p)" by (cases x)
    have "sound_result p seq (handle (\<lambda>_ c'. c') w seq plain p c)"
      by (rule handle_sound) (use Cons.prems x in simp_all)
    with Cons x show ?case by (simp add: sound_result_def)
  qed simp
  with assms(1) show ?thesis by (simp add: redeliver_def)
qed



end
