(* ===== verification/Approval_Props.thy ===== *)
theory Approval_Props
  imports Ingress_Props
begin

section \<open>Strangers and their approval\<close>

text \<open>
  The gate for foreign direct messages end to end: what an unapproved stranger sends is held where
  nothing reads it, and the operator's answer releases it.
\<close>

subsection \<open>An unapproved stranger is held\<close>

definition unapproved_stranger :: "world \<Rightarrow> MessagePayload \<Rightarrow> client \<Rightarrow> bool" where
  "unapproved_stranger w p cl \<longleftrightarrow>
     mp_envelope_kind p = ''dm'' \<and> is_foreign_dm_sender w (mp_sender_slug p) cl \<and> \<not> cl_auto_accept_dm cl \<and>
     (cl_signed_http cl \<longrightarrow> cl_operator_slug cl \<noteq> [] \<and> \<not> w_shares_space w) \<and>
     (w_invite_code w = [] \<or> \<not> w_bare_invite w) \<and>
     (\<exists>c c'. is_blocked (w_block_read w) (mp_sender_slug p) (cl_contacts cl) = (Some False, c) \<and>
       is_allowed (w_allow_read w) (mp_sender_slug p) c = (False, c'))"

lemma snd_dict_set: "v \<in> snd ` set (dict_set kvs k v)"
  by (induction kvs k v rule: dict_set.induct) auto

lemma foreign_elsewhere:
  assumes "is_foreign_dm_sender w (mp_sender_slug p) cl"
  shows "self_echo_outcome w2 p seq stored (cl\<lparr>cl_contacts := c\<rparr>) = (None, cl\<lparr>cl_contacts := c\<rparr>)"
    and "operator_control_gate drain w2 p thread (cl\<lparr>cl_contacts := c\<rparr>) = (None, cl\<lparr>cl_contacts := c\<rparr>)"
  using assms by (auto simp: is_foreign_dm_sender_def self_echo_outcome_def operator_control_gate_def)

lemma foreign_gate_holds:
  assumes "mp_envelope_kind p = ''dm''" "is_foreign_dm_sender w (mp_sender_slug p) cl" "\<not> cl_auto_accept_dm cl"
    and "cl_signed_http cl \<longrightarrow> cl_operator_slug cl \<noteq> [] \<and> \<not> w_shares_space w"
    and "is_allowed (w_allow_read w) (mp_sender_slug p) (cl_contacts cl) = (False, c')"
  shows "\<exists>rsn cl3. foreign_dm_gate w p cl = (Some (gated_verdict rsn), cl3) \<and>
    messages (cl_db cl3) = messages (cl_db cl) \<and> store_inv (cl_db cl3) = store_inv (cl_db cl) \<and>
    cl_notified cl3 = cl_notified cl \<and>
    (cl_signed_http cl \<and> truthy (w_prompt_envelope w) \<longrightarrow> mp_sender_slug p \<in> snd ` set (cl_pending_dm_approvals cl3))"
proof -
  define cl1 where "cl1 = (if cl_signed_http cl then maybe_send_dm_notice w (mp_sender_slug p) cl else cl)"
  have cl1: "messages (cl_db cl1) = messages (cl_db cl)" "store_inv (cl_db cl1) = store_inv (cl_db cl)"
    "cl_notified cl1 = cl_notified cl" "cl_contacts cl1 = cl_contacts cl" "cl_auto_accept_dm cl1 = cl_auto_accept_dm cl"
    "cl_signed_http cl1 = cl_signed_http cl" "cl_operator_slug cl1 = cl_operator_slug cl"
    by (simp_all add: cl1_def gate_dbs(6,7)) (simp_all add: maybe_send_dm_notice_def)
  have ts: "trusted_sender w (mp_sender_slug p) cl1 = (False, cl1\<lparr>cl_contacts := c'\<rparr>)"
    using assms(3-5) cl1 by (auto simp: trusted_sender_def)
  show ?thesis
  proof (cases "cl_signed_http cl")
    case True
    then have "foreign_dm_gate w p cl = (Some (gated_verdict ''foreign dm awaiting approval''),
        snd (maybe_gate_foreign_dm w (mp_sender_slug p) (cl1\<lparr>cl_contacts := c'\<rparr>)))"
      using assms cl1 ts unfolding foreign_dm_gate_def Let_def cl1_def [symmetric]
      by (simp add: maybe_gate_foreign_dm_def)
    moreover have "mp_sender_slug p \<in> snd ` set (cl_pending_dm_approvals
        (snd (maybe_gate_foreign_dm w (mp_sender_slug p) (cl1\<lparr>cl_contacts := c'\<rparr>))))"
      if "truthy (w_prompt_envelope w)"
      using that assms(4) True cl1 by (simp add: maybe_gate_foreign_dm_def snd_dict_set)
    moreover have "cl_notified (snd (maybe_gate_foreign_dm w (mp_sender_slug p) (cl1\<lparr>cl_contacts := c'\<rparr>))) = cl_notified cl"
      using cl1 by (simp add: maybe_gate_foreign_dm_def)
    ultimately show ?thesis using cl1 gate_dbs(5) by auto
  next
    case False
    then show ?thesis using assms cl1 ts unfolding foreign_dm_gate_def Let_def cl1_def [symmetric] by auto
  qed
qed

text \<open>
  C19: A direct message of a stranger whom nobody approved is held, never delivered: for a new envelope
  the outcome defers the acknowledgement, the row is gated, no work is woken, no envelope read shows
  it, and where the operator can be asked a prompt that was sent is on record for the sender.
\<close>

theorem stranger_is_held:
  assumes "unapproved_stranger w p cl" "store_inv (cl_db cl)"
    and "0 < seq" "Some seq \<notin> server_seq ` set (messages (cl_db cl))"
    and "mp_envelope_id p \<noteq> []" "mp_envelope_id p \<notin> envelope_id ` set (messages (cl_db cl))"
  shows "\<exists>cl'. handle drain w seq plain p cl = (Inr DEFER, cl') \<and>
    pending_ids (cl_db cl') = pending_ids (cl_db cl) \<and> cl_notified cl' = cl_notified cl \<and>
    (\<exists>m\<in>set (messages (cl_db cl')). envelope_id m = mp_envelope_id p \<and> server_seq m = Some seq \<and>
      receipt_disposition m = Some FOREIGN_DM_GATED \<and> processing_state m = None) \<and>
    get_visible_message_by_envelope (mp_envelope_id p) (cl_db cl') = None \<and>
    (cl_signed_http cl \<and> truthy (w_prompt_envelope w) \<longrightarrow> mp_sender_slug p \<in> snd ` set (cl_pending_dm_approvals cl'))"
proof -
  note u = assms(1) [unfolded unapproved_stranger_def]
  from u obtain c c' where c: "is_blocked (w_block_read w) (mp_sender_slug p) (cl_contacts cl) = (Some False, c)"
    "is_allowed (w_allow_read w) (mp_sender_slug p) c = (False, c')" by blast
  let ?cl = "cl\<lparr>cl_contacts := c\<rparr>"
  define stored where "stored = build_payload plain p cl"
  have id: "p_envelope_id stored = Some (mp_envelope_id p)" by (simp add: stored_def build_payload_def split_beta)
  have "is_foreign_dm_sender w (mp_sender_slug p) ?cl" using u by (simp add: is_foreign_dm_sender_def)
  from foreign_gate_holds [of p w ?cl c', OF _ this] u c obtain rsn cl3 where
    g: "foreign_dm_gate w p ?cl = (Some (gated_verdict rsn), cl3)"
    and cl3: "messages (cl_db cl3) = messages (cl_db cl)" "store_inv (cl_db cl3)" "cl_notified cl3 = cl_notified cl"
      "cl_signed_http cl \<and> truthy (w_prompt_envelope w) \<longrightarrow> mp_sender_slug p \<in> snd ` set (cl_pending_dm_approvals cl3)"
    using assms(2) by auto
  have b: "blocked_outcome w p seq stored cl = (None, ?cl)"
    using u c(1) by (auto simp: blocked_outcome_def blocked_gate_def Let_def commit_verdict_def is_foreign_dm_sender_def)
  have i: "invite_link_gate w p = None" using u by (auto simp: invite_link_gate_def)
  have h: "handle drain w seq plain p cl = commit w p seq stored FOREIGN_DM_GATED rsn None cl3"
    using foreign_elsewhere [of w p cl] u unfolding handle_def Let_def stored_def [symmetric]
    by (simp add: or_else_def b i g commit_verdict_def gated_verdict_def) (simp add: split_beta)
  from commit_fresh [of cl3 seq stored p FOREIGN_DM_GATED w rsn None] cl3 assms(3-6) id
  obtain cl' m where r: "commit w p seq stored FOREIGN_DM_GATED rsn None cl3 = (Inr DEFER, cl')"
    "cl_notified cl' = cl_notified cl"
    and m: "m \<in> set (messages (cl_db cl'))" "envelope_id m = mp_envelope_id p" "server_seq m = Some seq"
      "receipt_disposition m = Some FOREIGN_DM_GATED" "processing_state m = None"
    by (auto simp: receipt_ack_def)
  have "store_inv (cl_db cl')"
    using commit_sound [OF cl3(2) assms(3) id assms(5), of w FOREIGN_DM_GATED rsn None] r(1)
    by (simp add: sound_result_def)
  then have "x = m" if "x \<in> set (messages (cl_db cl'))" "envelope_id x = mp_envelope_id p" for x
    using that m(1,2) distinct_map_unique [OF keysD] by metis
  then have "get_visible_message_by_envelope (mp_envelope_id p) (cl_db cl') = None"
    using m(4) by (auto simp: get_visible_message_by_envelope_def sql_fetchone_None not_gated_def)
  moreover have "pending_ids (cl_db cl') = pending_ids (cl_db cl)"
    using commit_quiet [of FOREIGN_DM_GATED w p seq stored rsn None cl3] r(1) pending_ids_cong [OF cl3(1)] by simp
  moreover have "cl_pending_dm_approvals cl' = cl_pending_dm_approvals cl3"
    using commit_frame(1) [of w p seq stored FOREIGN_DM_GATED rsn None cl3] r(1) by simp
  ultimately show ?thesis using h r m cl3(4) by (intro exI [of _ cl'] conjI bexI [of _ m]) auto
qed

theorem stranger_is_held_witness:
  "\<exists>cl'. handle (\<lambda>_ c. c) sample_world 5 False (sample_dm ''alice'' ''e9'' ''hi'' None) (sample_client empty_db) = (Inr DEFER, cl') \<and>
     get_visible_message_by_envelope ''e9'' (cl_db cl') = None \<and> ''alice'' \<in> snd ` set (cl_pending_dm_approvals cl')"
proof -
  let ?p = "sample_dm ''alice'' ''e9'' ''hi'' None" and ?cl = "sample_client empty_db"
  have "unapproved_stranger sample_world ?p ?cl"
    using sample_blocked [of "''alice''" empty_db] sample_not_allowed [of "''alice''"]
    by (simp add: unapproved_stranger_def is_foreign_dm_sender_def) (simp add: sample_world_def)
  moreover have "truthy (w_prompt_envelope sample_world)" by (simp add: sample_world_def truthy_def)
  ultimately show ?thesis
    using stranger_is_held [of sample_world ?p ?cl 5 "\<lambda>_ c. c" False] by (auto simp: store_inv_empty empty_db_simps)
qed

subsection \<open>An approval releases what was held\<close>

definition approved_contact :: "string \<Rightarrow> contact_cache \<Rightarrow> bool" where
  "approved_contact s c \<longleftrightarrow> \<not> cc_keyless c \<and> cc_hydrated c \<and> s \<in> cc_allow c \<and> s \<notin> cc_block c"

text \<open>The Server took the approval: its lists, when they are read, allow the sender.\<close>

definition lists_approve :: "string \<Rightarrow> cache_read \<Rightarrow> bool" where
  "lists_approve s r \<longleftrightarrow>
     (case cr_lists r of None \<Rightarrow> True | Some (allow, block) \<Rightarrow> s \<in> set allow \<and> (''user'', s) \<notin> set block)"

lemma signed_local_state: "\<not> cc_keyless c \<Longrightarrow>
    \<exists>b. ensure_local_state c = c\<lparr>cc_local_state_loaded := b\<rparr>"
  by (auto simp: ensure_local_state_def Let_def split: option.splits intro: exI [of _ "cc_local_state_loaded c"])

lemma approved_refresh:
  assumes "approved_contact s c" "lists_approve s r" "s \<noteq> []"
  shows "approved_contact s (maybe_refresh r m c)"
  using assms by (auto simp: approved_contact_def lists_approve_def maybe_refresh_def refresh_def split: option.splits)

lemma approved_answers:
  assumes "approved_contact s c" "lists_approve s r" "s \<noteq> []"
  shows "\<exists>c'. is_blocked r s c = (Some False, c') \<and> approved_contact s c'"
    and "\<exists>c'. is_allowed r s c = (True, c') \<and> approved_contact s c'"
proof -
  obtain b where e: "ensure_local_state c = c\<lparr>cc_local_state_loaded := b\<rparr>"
    using signed_local_state assms(1) by (auto simp: approved_contact_def)
  have "approved_contact s (c\<lparr>cc_local_state_loaded := b\<rparr>)" using assms(1) by (simp add: approved_contact_def)
  note a = approved_refresh [OF this assms(2,3)]
  show "\<exists>c'. is_blocked r s c = (Some False, c') \<and> approved_contact s c'"
    using a [of False] assms(3) by (auto simp: is_blocked_def Let_def e approved_contact_def)
  show "\<exists>c'. is_allowed r s c = (True, c') \<and> approved_contact s c'"
    using a assms(3) by (auto simp: is_allowed_def Let_def e approved_contact_def)
qed

lemma noted_contact:
  assumes "\<not> cc_keyless c" "cc_hydrated c" "s \<notin> cc_block c" "s \<noteq> []"
  shows "approved_contact s (snd (note_allowed True s c))"
proof -
  obtain b where "ensure_local_state c = c\<lparr>cc_local_state_loaded := b\<rparr>"
    using signed_local_state assms(1) by blast
  then show ?thesis using assms by (simp add: note_allowed_def Let_def approved_contact_def)
qed

lemma answered_hydrated:
  assumes "is_blocked r s c = (Some b, c')" "s \<noteq> []" "\<not> cc_keyless c"
  shows "\<not> cc_keyless c' \<and> cc_hydrated c'"
proof -
  have "cc_keyless (maybe_refresh r False (ensure_local_state c)) = cc_keyless c"
    by (simp add: maybe_refresh_def refresh_def split: option.splits)
  with assms show ?thesis by (auto simp: is_blocked_def Let_def split: if_splits)
qed

text \<open>The redelivered message of an approved sender releases the row that was held for it.\<close>

lemma promote_held:
  assumes inv: "store_inv d" and m: "m \<in> set (messages d)" "receipt_disposition m = Some FOREIGN_DM_GATED"
    "server_seq m = Some seq" and row: "p_envelope_id row = Some (envelope_id m)"
  shows "\<exists>d'. promote_gated_receipt now (envelope_id m) (Some seq) rsn (Some row) d =
      Inr (receipt_result COMMITTED ELIGIBLE rsn True, d') \<and> envelope_id m \<in> pending_ids d'"
proof -
  have f: "sql_fetchone (\<lambda>x. envelope_id x = envelope_id m) (messages d) = Some m"
    by (rule sql_fetchone_key [OF keysD [OF inv] m(1)])
  have q: "processing_state m = None" using row_wfD [OF inv m(1)] m(2) by (rule gated_quiet)
  define P where "P = (\<lambda>x :: message_row. envelope_id x = envelope_id m \<and> server_seq x = Some seq
      \<and> receipt_disposition x = Some FOREIGN_DM_GATED \<and> processing_state x = None)"
  define g where "g = (\<lambda>x :: message_row. x\<lparr>receipt_disposition := Some ELIGIBLE, receipt_reason := Some rsn, processing_state := Some PENDING,
      content_type := content_type (payload_values now row None), content := content (payload_values now row None)\<rparr>)"
  have "P m" using m q by (simp add: P_def)
  then have "g m \<in> set (sql_update P g (messages d))" using m(1) by (intro sql_update_in)
  then have "envelope_id m \<in> pending_ids (d\<lparr>messages := sql_update P g (messages d)\<rparr>)"
    by (auto simp: pending_ids_iff is_pending_def g_def intro!: bexI [of _ "g m"])
  moreover have "promote_gated_receipt now (envelope_id m) (Some seq) rsn (Some row) d =
      Inr (receipt_result COMMITTED ELIGIBLE rsn True,
        refresh_notice_state now None (d\<lparr>messages := sql_update P g (messages d)\<rparr>))"
    using m q row by (simp add: promote_gated_receipt_def f Let_def get_default_def is_pending_def P_def g_def
        payload_values_def)
  ultimately show ?thesis by simp
qed

lemma approved_redelivery:
  assumes inv: "store_inv (cl_db cl)" and m: "m \<in> set (messages (cl_db cl))" "envelope_id m = mp_envelope_id p"
    "receipt_disposition m = Some FOREIGN_DM_GATED" "server_seq m = Some seq"
    and p: "mp_envelope_kind p = ''dm''" "is_foreign_dm_sender w (mp_sender_slug p) cl"
    and w: "lists_approve (mp_sender_slug p) (w_block_read w)" "lists_approve (mp_sender_slug p) (w_allow_read w)"
      "w_invite_code w = [] \<or> \<not> w_bare_invite w" "\<not> is_stale_for_catchup w (mp_sent_at p) cl"
    and ok: "approved_contact (mp_sender_slug p) (cl_contacts cl)"
  shows "\<exists>cl'. handle drain w seq plain p cl = (Inr ACK, cl') \<and> mp_envelope_id p \<in> pending_ids (cl_db cl') \<and>
    (cl_has_runtime cl \<longrightarrow> cl_notified cl' = Suc (cl_notified cl)) \<and>
    cl_pending_dm_approvals cl' = cl_pending_dm_approvals cl"
proof -
  let ?s = "mp_sender_slug p"
  have s: "?s \<noteq> []" using p(2) by (simp add: is_foreign_dm_sender_def)
  from approved_answers(1) [OF ok w(1) s] obtain c where
    c: "is_blocked (w_block_read w) ?s (cl_contacts cl) = (Some False, c)" "approved_contact ?s c" by blast
  from approved_answers(2) [OF c(2) w(2) s] obtain c' where c': "is_allowed (w_allow_read w) ?s c = (True, c')" by blast
  let ?cl = "cl\<lparr>cl_contacts := c\<rparr>"
  define stored where "stored = build_payload plain p cl"
  have id: "p_envelope_id stored = Some (mp_envelope_id p)" by (simp add: stored_def build_payload_def split_beta)
  have b: "blocked_outcome w p seq stored cl = (None, ?cl)"
    using p c(1) by (auto simp: blocked_outcome_def blocked_gate_def Let_def commit_verdict_def is_foreign_dm_sender_def)
  have i: "invite_link_gate w p = None" using w(3) by (auto simp: invite_link_gate_def)
  define cl3 where "cl3 = snd (foreign_dm_gate w p ?cl)"
  define cl1 where "cl1 = (if cl_signed_http cl then maybe_send_dm_notice w ?s ?cl else ?cl)"
  have cl1: "messages (cl_db cl1) = messages (cl_db cl)" "store_inv (cl_db cl1)" "cl_contacts cl1 = c"
    "cl_notified cl1 = cl_notified cl" "cl_has_runtime cl1 = cl_has_runtime cl"
    "cl_pending_dm_approvals cl1 = cl_pending_dm_approvals cl" "cl_catchup_stale_ms cl1 = cl_catchup_stale_ms cl"
    using inv by (simp_all add: cl1_def gate_dbs(6,7)) (simp_all add: maybe_send_dm_notice_def)
  have "trusted_sender w ?s cl1 = (True, if cl_auto_accept_dm cl1 then cl1 else cl1\<lparr>cl_contacts := c'\<rparr>)"
    using c' cl1(3) by (simp add: trusted_sender_def)
  then have g: "foreign_dm_gate w p ?cl = (None, if cl_auto_accept_dm cl1 then cl1 else cl1\<lparr>cl_contacts := c'\<rparr>)"
    using p unfolding foreign_dm_gate_def Let_def by (simp add: cl1_def [symmetric] is_foreign_dm_sender_def)
  have cl3: "messages (cl_db cl3) = messages (cl_db cl)" "store_inv (cl_db cl3)" "cl_notified cl3 = cl_notified cl"
    "cl_has_runtime cl3 = cl_has_runtime cl" "cl_pending_dm_approvals cl3 = cl_pending_dm_approvals cl"
    "cl_catchup_stale_ms cl3 = cl_catchup_stale_ms cl"
    using cl1 by (simp_all add: cl3_def g)
  have g3: "foreign_dm_gate w p ?cl = (None, cl3)" by (simp add: g cl3_def)
  have st: "stale_outcome w p seq stored cl3 = (None, cl3)"
    using w(4) cl3(6) by (simp add: stale_outcome_def is_stale_for_catchup_def)
  have cs: "cache_channel_space p cl3 = cl3" using p(1) by (simp add: cache_channel_space_def)
  let ?row = "stored\<lparr>p_content := Some (w_prompt_content w)\<rparr>"
  have h: "handle drain w seq plain p cl = commit w p seq ?row ELIGIBLE ''eligible message'' None cl3"
    using foreign_elsewhere [of w p cl] p(2) g3 unfolding handle_def Let_def stored_def [symmetric]
    by (simp add: or_else_def b i commit_verdict_def st admit_delivery_def cs)
  from promote_held [OF cl3(2), of m seq ?row "w_store_ms w" "''eligible message''"] m cl3(1) id
  obtain d' where pr: "promote_gated_receipt (w_store_ms w) (mp_envelope_id p) (Some seq) ''eligible message'' (Some ?row) (cl_db cl3) =
      Inr (receipt_result COMMITTED ELIGIBLE ''eligible message'' True, d')" "mp_envelope_id p \<in> pending_ids d'" by auto
  define cl4 where "cl4 = notify_runtime p (receipt_result COMMITTED ELIGIBLE ''eligible message'' True) (cl3\<lparr>cl_db := d'\<rparr>)"
  have "handle drain w seq plain p cl = (Inr ACK, cl4)"
    using pr(1) unfolding h commit_def by (simp add: write_receipt_def cl4_def)
  moreover have "cl_db cl4 = d'" "cl_has_runtime cl \<longrightarrow> cl_notified cl4 = Suc (cl_notified cl)"
    "cl_pending_dm_approvals cl4 = cl_pending_dm_approvals cl"
    using p(1) cl3 by (simp_all add: cl4_def notify_runtime_def receipt_stored_def Let_def)
  ultimately show ?thesis using pr(2) by blast
qed

lemma commit_notified: "cl_notified cl \<le> cl_notified (snd (commit w p seq stored disp rsn replaced cl))"
  by (simp add: commit_def notify_runtime_def Let_def split: sum.splits option.splits)

text \<open>What the three parties do: the store holds the message, the operator answers yes in the thread of
  the prompt and nothing else claims that reply, and the Server, having taken the approval, sends the
  message again while it is fresh enough.\<close>

definition held_message :: "MessagePayload \<Rightarrow> int \<Rightarrow> db \<Rightarrow> bool" where
  "held_message p seq d \<longleftrightarrow>
     (\<exists>m\<in>set (messages d). envelope_id m = mp_envelope_id p \<and>
       receipt_disposition m = Some FOREIGN_DM_GATED \<and> server_seq m = Some seq)"

definition approving_reply :: "world \<Rightarrow> MessagePayload \<Rightarrow> string \<Rightarrow> string \<Rightarrow> client \<Rightarrow> bool" where
  "approving_reply w q prompt sender cl \<longleftrightarrow>
     mp_envelope_kind q = ''dm'' \<and> mp_sender_slug q = cl_operator_slug cl \<and> cl_operator_slug cl \<noteq> [] \<and>
     cl_operator_slug cl \<noteq> cl_slug cl \<and> approval_answer (mp_content q) = Some True \<and>
     map_of (cl_pending_dm_approvals cl) prompt = Some sender \<and> w_post_ok w \<and>
     \<not> w_invite_handled w \<and> \<not> w_leave_handled w \<and> \<not> w_permission_handled w \<and>
     \<not> cc_keyless (cl_contacts cl) \<and>
     (\<exists>c. is_blocked (w_block_read w) (cl_operator_slug cl) (cl_contacts cl) = (Some False, c) \<and> sender \<notin> cc_block c)"

definition fresh_redelivery :: "world \<Rightarrow> MessagePayload \<Rightarrow> client \<Rightarrow> bool" where
  "fresh_redelivery w p cl \<longleftrightarrow>
     mp_envelope_kind p = ''dm'' \<and> is_foreign_dm_sender w (mp_sender_slug p) cl \<and>
     lists_approve (mp_sender_slug p) (w_block_read w) \<and> lists_approve (mp_sender_slug p) (w_allow_read w) \<and>
     (w_invite_code w = [] \<or> \<not> w_bare_invite w) \<and> \<not> is_stale_for_catchup w (mp_sent_at p) cl"


definition approved_world :: world where
  "approved_world = (let r = sample_read\<lparr>cr_lists := Some ([''alice''], [(''user'', ''mallory'')])\<rparr>
     in sample_world\<lparr>w_block_read := r, w_allow_read := r\<rparr>)"


end
