(* ===== verification/Json_Values.thy ===== *)
theory Json_Values
  imports Turn_Lifecycle
begin

section \<open>JSON values as Python values\<close>

text \<open>
  What Python does with a value that was read from JSON: its text, its type tests, its equality with
  an integer. Two results are arguments of the functions that need them: \<open>sh\<close>, the text \<open>str\<close> makes of a
  list or a dict, and \<open>feq\<close>, whether the float with a given text equals an integer.
\<close>

text \<open>\<open>str(value)\<close> of a value read from JSON.\<close>

fun py_str :: "(json \<Rightarrow> string) \<Rightarrow> json \<Rightarrow> string" where
  "py_str sh JNull = ''None''"
| "py_str sh (JBool b) = (if b then ''True'' else ''False'')"
| "py_str sh (JInt i) = int_dec i"
| "py_str sh (JFloat r) = r"
| "py_str sh (JStr t) = t"
| "py_str sh v = sh v"

text \<open>\<open>str(value.get(name) or default)\<close>.\<close>

definition str_or :: "(json \<Rightarrow> string) \<Rightarrow> string \<Rightarrow> json option \<Rightarrow> string" where
  "str_or sh dflt v = (if json_truthy v then py_str sh (the v) else dflt)"

fun py_int :: "json option \<Rightarrow> int option" where
  "py_int (Some (JInt i)) = Some i"
| "py_int _ = None"

fun py_text :: "json option \<Rightarrow> string option" where
  "py_text (Some (JStr s)) = Some s"
| "py_text _ = None"

fun py_bool :: "json option \<Rightarrow> bool option" where
  "py_bool (Some (JBool b)) = Some b"
| "py_bool _ = None"

fun py_strings :: "json option \<Rightarrow> string list option" where
  "py_strings (Some (JArr vs)) =
     (if list_all (\<lambda>v. py_text (Some v) \<noteq> None) vs then Some (map (\<lambda>v. the (py_text (Some v))) vs) else None)"
| "py_strings _ = None"

definition is_none :: "json option \<Rightarrow> bool" where
  "is_none v \<longleftrightarrow> v = None \<or> v = Some JNull"

text \<open>\<open>value == n\<close> for an integer \<open>n\<close>, and for an integer or \<open>None\<close>.\<close>

fun eq_int :: "(string \<Rightarrow> int \<Rightarrow> bool) \<Rightarrow> json option \<Rightarrow> int \<Rightarrow> bool" where
  "eq_int feq (Some (JInt i)) n = (i = n)"
| "eq_int feq (Some (JBool b)) n = ((if b then 1 else 0) = n)"
| "eq_int feq (Some (JFloat r)) n = feq r n"
| "eq_int feq _ n = False"

fun eq_int_or_none :: "(string \<Rightarrow> int \<Rightarrow> bool) \<Rightarrow> json option \<Rightarrow> int option \<Rightarrow> bool" where
  "eq_int_or_none feq v None = is_none v"
| "eq_int_or_none feq v (Some n) = eq_int feq v n"

definition keys_of :: "json \<Rightarrow> string set" where
  "keys_of v = (case v of JObj kvs \<Rightarrow> set (map fst kvs) | _ \<Rightarrow> {})"

fun is_mapping :: "json \<Rightarrow> bool" where
  "is_mapping (JObj kvs) = True"
| "is_mapping _ = False"

lemma str_or_JStr [simp]: "str_or sh dflt (Some (JStr t)) = (if t = [] then dflt else t)"
  by (simp add: str_or_def)

lemma str_or_None [simp]: "str_or sh dflt None = dflt"
  by (simp add: str_or_def)

end
