(* ===== verification/Send_Request.thy ===== *)
theory Send_Request
  imports Json_Values Target_Text
begin

section \<open>Send requests\<close>

text \<open>
  \<open>agent/send_models.py\<close> and \<open>agent/send_routing.py\<close>: the request of the model's send tool, the mapping
  it is read from and written to, the identity of a draft, and the normalisation of a copied Inbox
  target. Two results are arguments: \<open>show_json\<close>, the text \<open>str\<close> makes of a list or a dict, and
  \<open>digest\<close>, the SHA-256 of the JSON text of an argument dict.
\<close>

record SemanticSendRequest =
  destination :: string
  msg_text :: string
  attachment_paths :: "string list"
  caption :: string
  root_id :: string
  visibility_level :: string
  send_anyway :: bool
  covers :: "string list"
  require_thread :: bool

subsection \<open>Reading and writing a request\<close>

definition send_fields :: "string list" where
  "send_fields = [''destination'', ''channel'', ''text'', ''attachment_paths'', ''paths'', ''caption'',
     ''root_id'', ''visibility_level'', ''send_anyway'', ''covers'']"

fun json_strings :: "json list \<Rightarrow> string list option" where
  "json_strings [] = Some []"
| "json_strings (JStr t # vs) = map_option ((#) t) (json_strings vs)"
| "json_strings _ = None"

text \<open>A list of strings after \<open>value or ()\<close>; \<open>None\<close> for anything else.\<close>

definition string_tuple :: "json option \<Rightarrow> string list option" where
  "string_tuple v =
     (if \<not> json_truthy v then Some []
      else case v of Some (JArr vs) \<Rightarrow> json_strings vs | _ \<Rightarrow> None)"

definition first_key :: "string \<Rightarrow> string \<Rightarrow> (string \<times> json) list \<Rightarrow> json option" where
  "first_key k k' kvs = (case map_of kvs k of None \<Rightarrow> map_of kvs k' | Some v \<Rightarrow> Some v)"

definition from_mapping :: "(json \<Rightarrow> string) \<Rightarrow> (string \<times> json) list \<Rightarrow> SemanticSendRequest res" where
  "from_mapping sh kvs =
     (let unknown = sort (remdups (filter (\<lambda>k. k \<notin> set send_fields) (map fst kvs)))
      in if unknown \<noteq> []
         then Inl (ValueError (''unknown send field(s): '' @ concat (map (\<lambda>k. k @ '', '') (butlast unknown)) @ last unknown))
         else case string_tuple (first_key ''attachment_paths'' ''paths'' kvs) of
           None \<Rightarrow> Inl (ValueError ''attachment paths must be a list of strings'')
         | Some paths \<Rightarrow>
             (case string_tuple (map_of kvs ''covers'') of
                None \<Rightarrow> Inl (ValueError ''covers must be a list of message-id strings'')
              | Some cov \<Rightarrow>
                  Inr \<lparr>destination = str_or sh [] (first_key ''destination'' ''channel'' kvs),
                       msg_text = str_or sh [] (map_of kvs ''text''),
                       attachment_paths = paths,
                       caption = str_or sh [] (map_of kvs ''caption''),
                       root_id = str_or sh [] (map_of kvs ''root_id''),
                       visibility_level = str_or sh ''default'' (map_of kvs ''visibility_level''),
                       send_anyway = (map_of kvs ''send_anyway'' = Some (JBool True)),
                       covers = cov,
                       require_thread = False\<rparr>))"

definition to_rpc_dict :: "SemanticSendRequest \<Rightarrow> (string \<times> json) list" where
  "to_rpc_dict r =
     [(''channel'', JStr (destination r)), (''root_id'', JStr (root_id r)),
      (''visibility_level'', JStr (visibility_level r)), (''send_anyway'', JBool (send_anyway r))]
     @ (if covers r \<noteq> [] then [(''covers'', JArr (map JStr (covers r)))] else [])
     @ (if attachment_paths r \<noteq> []
        then [(''paths'', JArr (map JStr (attachment_paths r))), (''caption'', JStr (caption r))]
        else [(''text'', JStr (msg_text r))])"

definition to_tool_arguments :: "SemanticSendRequest \<Rightarrow> (string \<times> json) list" where
  "to_tool_arguments r =
     (''channel'', JStr (destination r))
     # (if attachment_paths r \<noteq> []
        then [(''caption'', JStr (caption r)), (''paths'', JArr (map JStr (attachment_paths r)))]
        else [(''text'', JStr (msg_text r))])
     @ (if root_id r \<noteq> [] then [(''root_id'', JStr (root_id r))] else [])
     @ (if visibility_level r \<noteq> ''default'' then [(''visibility_level'', JStr (visibility_level r))] else [])
     @ (if send_anyway r then [(''send_anyway'', JBool True)] else [])
     @ (if covers r \<noteq> [] then [(''covers'', JArr (map JStr (covers r)))] else [])"

text \<open>\<open>arguments.pop("send_anyway", None)\<close> and \<open>sort_keys=True\<close>.\<close>

definition draft_arguments :: "SemanticSendRequest \<Rightarrow> json" where
  "draft_arguments r =
     JObj (sort_key fst (filter (\<lambda>(k, v). k \<noteq> ''send_anyway'') (to_tool_arguments r)))"

definition attempt_fingerprint :: "(json \<Rightarrow> string) \<Rightarrow> SemanticSendRequest \<Rightarrow> string" where
  "attempt_fingerprint digest r = digest (draft_arguments r)"

text \<open>\<open>draft=request.caption if request.attachment_paths else request.text\<close>.\<close>

definition draft_text :: "SemanticSendRequest \<Rightarrow> string" where
  "draft_text r = (if attachment_paths r \<noteq> [] then caption r else msg_text r)"

subsection \<open>Copied Inbox targets\<close>

text \<open>\<open>normalize_send_target\<close>; \<open>lookup\<close> is \<open>lookup_channel_space\<close> of the data client.\<close>

definition normalize_send_target ::
  "(string \<Rightarrow> string option) \<Rightarrow> SemanticSendRequest \<Rightarrow> SemanticSendRequest res" where
  "normalize_send_target lookup r =
     (let target = strip (destination r)
      in if \<not> starts_with ''dm:'' target \<and> \<not> starts_with ''channel:'' target then Inr r
         else res_bind (parse_inbox_target target) (\<lambda>(kind, space, ch, peer_or_root).
           if kind = ''dm''
           then (if list_ex (\<lambda>c. is_space c \<or> c \<in> set [CHR ''@'', CHR ''/'', CHR 0x5C]) peer_or_root
                 then Inl (ValueError ''dm:<peer> requires a bare user slug without @ or whitespace'')
                 else Inr (r\<lparr>destination := CHR ''@'' # peer_or_root\<rparr>))
           else if peer_or_root \<noteq> [] \<and> root_id r \<noteq> [] \<and> peer_or_root \<noteq> root_id r
           then Inl (ValueError ''root_id conflicts with the thread in channel target_ref'')
           else if lookup ch \<noteq> Some space
           then Inl (ValueError (''channel target_ref space does not match the agent's channel record; '' @
                       ''use list_channels_in_all_spaces to verify the destination''))
           else Inr (r\<lparr>destination := ch,
                      root_id := (if peer_or_root \<noteq> [] then peer_or_root else root_id r),
                      require_thread := (peer_or_root \<noteq> [])\<rparr>)))"

subsection \<open>Facts\<close>

lemma json_strings_map [simp]: "json_strings (map JStr ts) = Some ts"
  by (induction ts) auto

lemma string_tuple_map [simp]: "string_tuple (Some (JArr (map JStr ts))) = Some ts"
  by (cases ts) (simp_all add: string_tuple_def)

lemma string_tuple_None [simp]: "string_tuple None = Some []"
  by (simp add: string_tuple_def)

lemma map_JStr_inj [simp]: "map JStr xs = map JStr ys \<longleftrightarrow> xs = ys"
  by (rule inj_map_eq_map) (simp add: inj_def)

text \<open>The part of a request that the RPC body keeps.\<close>

definition rpc_view :: "SemanticSendRequest \<Rightarrow> SemanticSendRequest" where
  "rpc_view r = r\<lparr>msg_text := (if attachment_paths r = [] then msg_text r else []),
     caption := (if attachment_paths r = [] then [] else caption r),
     visibility_level := (if visibility_level r = [] then ''default'' else visibility_level r),
     require_thread := False\<rparr>"

definition same_draft :: "SemanticSendRequest \<Rightarrow> SemanticSendRequest \<Rightarrow> bool" where
  "same_draft r r' \<longleftrightarrow> destination r = destination r' \<and> draft_text r = draft_text r'
     \<and> attachment_paths r = attachment_paths r' \<and> root_id r = root_id r'
     \<and> visibility_level r = visibility_level r' \<and> covers r = covers r'"

text \<open>What the arguments of a draft say under each key.\<close>

definition draft_lookup :: "SemanticSendRequest \<Rightarrow> string \<Rightarrow> json option" where
  "draft_lookup r k = (case draft_arguments r of JObj kvs \<Rightarrow> map_of kvs k | _ \<Rightarrow> None)"

lemma map_of_sort_key:
  assumes "distinct (map fst kvs)"
  shows "map_of (sort_key fst kvs) = map_of kvs"
proof (rule map_of_eqI)
  show "set (map fst (sort_key fst kvs)) = set (map fst kvs)" by simp
  show "\<forall>k\<in>set (map fst (sort_key fst kvs)). map_of (sort_key fst kvs) k = map_of kvs k"
  proof
    fix k assume "k \<in> set (map fst (sort_key fst kvs))"
    then obtain v where kv: "(k, v) \<in> set kvs" by auto
    have "distinct (map fst (sort_key fst kvs))"
      using assms by (metis distinct_map distinct_sort set_sort)
    with kv assms show "map_of (sort_key fst kvs) k = map_of kvs k" by simp
  qed
qed

lemma draft_lookup_simps:
  "draft_lookup r ''channel'' = Some (JStr (destination r))"
  "draft_lookup r ''caption'' = (if attachment_paths r \<noteq> [] then Some (JStr (caption r)) else None)"
  "draft_lookup r ''paths'' = (if attachment_paths r \<noteq> [] then Some (JArr (map JStr (attachment_paths r))) else None)"
  "draft_lookup r ''text'' = (if attachment_paths r \<noteq> [] then None else Some (JStr (msg_text r)))"
  "draft_lookup r ''root_id'' = (if root_id r \<noteq> [] then Some (JStr (root_id r)) else None)"
  "draft_lookup r ''visibility_level'' =
     (if visibility_level r \<noteq> ''default'' then Some (JStr (visibility_level r)) else None)"
  "draft_lookup r ''covers'' = (if covers r \<noteq> [] then Some (JArr (map JStr (covers r))) else None)"
  by (simp_all add: draft_lookup_def draft_arguments_def to_tool_arguments_def map_of_sort_key)

lemma draft_arguments_iff: "draft_arguments r = draft_arguments r' \<longleftrightarrow> same_draft r r'"
proof
  assume eq: "draft_arguments r = draft_arguments r'"
  then have l: "draft_lookup r k = draft_lookup r' k" for k by (simp add: draft_lookup_def)
  have "destination r = destination r'" using l [of "''channel''"] by (simp add: draft_lookup_simps)
  moreover have p: "attachment_paths r = attachment_paths r'"
    using l [of "''paths''"] by (simp add: draft_lookup_simps split: if_splits)
  moreover have "draft_text r = draft_text r'"
    using l [of "''caption''"] l [of "''text''"] p by (simp add: draft_text_def draft_lookup_simps split: if_splits)
  moreover have "root_id r = root_id r'" using l [of "''root_id''"] by (simp add: draft_lookup_simps split: if_splits)
  moreover have "visibility_level r = visibility_level r'"
    using l [of "''visibility_level''"] by (simp add: draft_lookup_simps split: if_splits)
  moreover have "covers r = covers r'" using l [of "''covers''"] by (simp add: draft_lookup_simps split: if_splits)
  ultimately show "same_draft r r'" by (simp add: same_draft_def)
next
  assume s: "same_draft r r'"
  have "filter (\<lambda>(k, v). k \<noteq> ''send_anyway'') (to_tool_arguments r) =
      filter (\<lambda>(k, v). k \<noteq> ''send_anyway'') (to_tool_arguments r')"
    using s by (simp add: same_draft_def to_tool_arguments_def draft_text_def split: if_splits)
  then show "draft_arguments r = draft_arguments r'" by (simp add: draft_arguments_def)
qed

text \<open>
  C31. The fingerprint of a send attempt identifies the draft: as long as the digest does not collide on
  the two drafts compared, two requests have the same fingerprint exactly when destination, text (or
  caption), attachments, thread, visibility and covers agree; setting send_anyway keeps it.
\<close>

theorem fingerprint_identifies_draft:
  assumes "digest (draft_arguments r) = digest (draft_arguments r') \<Longrightarrow> draft_arguments r = draft_arguments r'"
  shows "(attempt_fingerprint digest r = attempt_fingerprint digest r' \<longleftrightarrow> same_draft r r') \<and>
    attempt_fingerprint digest (r\<lparr>send_anyway := b\<rparr>) = attempt_fingerprint digest r"
proof -
  have "same_draft (r\<lparr>send_anyway := b\<rparr>) r" by (simp add: same_draft_def draft_text_def)
  then have "draft_arguments (r\<lparr>send_anyway := b\<rparr>) = draft_arguments r" by (simp add: draft_arguments_iff)
  with assms show ?thesis by (auto simp: attempt_fingerprint_def draft_arguments_iff [symmetric])
qed

definition sample_request :: SemanticSendRequest where
  "sample_request = \<lparr>destination = ''ch1'', msg_text = ''hello'', attachment_paths = [], caption = [],
     root_id = [], visibility_level = ''default'', send_anyway = False, covers = [''m1''], require_thread = False\<rparr>"

theorem fingerprint_identifies_draft_witness:
  "(attempt_fingerprint (\<lambda>v. json_dumps v) sample_request =
      attempt_fingerprint (\<lambda>v. json_dumps v) (sample_request\<lparr>msg_text := ''bye''\<rparr>) \<longleftrightarrow>
    same_draft sample_request (sample_request\<lparr>msg_text := ''bye''\<rparr>)) \<and>
    attempt_fingerprint (\<lambda>v. json_dumps v) (sample_request\<lparr>send_anyway := True\<rparr>) =
      attempt_fingerprint (\<lambda>v. json_dumps v) sample_request"
proof (rule fingerprint_identifies_draft)
  have "json_dumps (draft_arguments sample_request) \<noteq>
      json_dumps (draft_arguments (sample_request\<lparr>msg_text := ''bye''\<rparr>))" by code_simp
  then show "json_dumps (draft_arguments sample_request) =
      json_dumps (draft_arguments (sample_request\<lparr>msg_text := ''bye''\<rparr>)) \<Longrightarrow>
    draft_arguments sample_request = draft_arguments (sample_request\<lparr>msg_text := ''bye''\<rparr>)" by (rule notE)
qed

text \<open>
  A request that crosses the RPC boundary arrives as it was sent: reading the mapping it is
  written to gives the same request, up to the field the chosen kind of send does not use, the
  default visibility and the internal thread flag.
\<close>

theorem rpc_round_trip: "from_mapping sh (to_rpc_dict r) = Inr (rpc_view r)"
  by (cases "covers r = []"; cases "attachment_paths r = []")
     (simp_all add: from_mapping_def to_rpc_dict_def rpc_view_def send_fields_def first_key_def Let_def)

text \<open>
  A target copied from the Inbox sends the reply back to where the message came from: a direct
  message to the peer, a channel message to the channel and thread, provided the agent knows the
  channel under the same space and names no other thread.
\<close>

theorem copied_target_goes_back:
  assumes "canonical ps" and "destination r = target_text ps"
    and "\<And>sp ch. ps = ChannelTarget sp ch \<Longrightarrow> lookup ch = Some sp"
    and "\<And>sp ch root. ps = ThreadTarget sp ch root \<Longrightarrow> lookup ch = Some sp \<and> root_id r \<in> {[], root}"
    and "\<And>peer. ps = DmTarget peer \<Longrightarrow> list_all (\<lambda>c. \<not> is_space c \<and> c \<notin> set [CHR ''@'', CHR ''/'', CHR 0x5C]) peer"
  shows "normalize_send_target lookup r = Inr (case ps of
      DmTarget peer \<Rightarrow> r\<lparr>destination := CHR ''@'' # peer\<rparr>
    | ChannelTarget sp ch \<Rightarrow> r\<lparr>destination := ch, require_thread := False\<rparr>
    | ThreadTarget sp ch root \<Rightarrow> r\<lparr>destination := ch, root_id := root, require_thread := True\<rparr>)"
proof -
  have s: "strip (target_text ps) = target_text ps" using text_unpadded [OF assms(1)] by simp
  have seg: "segment root \<Longrightarrow> root \<noteq> []" for root by (simp add: segment_def valid_segment_def)
  show ?thesis
  proof (cases ps)
    case (DmTarget peer)
    then show ?thesis using assms s parse_target_text [OF assms(1)]
      by (auto simp: normalize_send_target_def starts_with_def list_ex_iff list_all_iff)
  next
    case (ChannelTarget sp ch)
    then show ?thesis using assms s parse_target_text [OF assms(1)]
      by (simp add: normalize_send_target_def starts_with_def)
  next
    case (ThreadTarget sp ch root)
    then show ?thesis using assms s parse_target_text [OF assms(1)] seg [of root]
      by (auto simp: normalize_send_target_def starts_with_def)
  qed
qed

theorem copied_target_goes_back_witness:
  "normalize_send_target (\<lambda>c. Some ''sp'') (sample_request\<lparr>destination := target_text (ThreadTarget ''sp'' ''ch'' ''m1'')\<rparr>) =
   Inr (case ThreadTarget ''sp'' ''ch'' ''m1'' of
      DmTarget peer \<Rightarrow> (sample_request\<lparr>destination := target_text (ThreadTarget ''sp'' ''ch'' ''m1'')\<rparr>)\<lparr>destination := CHR ''@'' # peer\<rparr>
    | ChannelTarget sp ch \<Rightarrow> (sample_request\<lparr>destination := target_text (ThreadTarget ''sp'' ''ch'' ''m1'')\<rparr>)
        \<lparr>destination := ch, require_thread := False\<rparr>
    | ThreadTarget sp ch root \<Rightarrow> (sample_request\<lparr>destination := target_text (ThreadTarget ''sp'' ''ch'' ''m1'')\<rparr>)
        \<lparr>destination := ch, root_id := root, require_thread := True\<rparr>)"
proof (rule copied_target_goes_back)
  show "canonical (ThreadTarget ''sp'' ''ch'' ''m1'')" by code_simp
qed (simp_all add: sample_request_def)

end
