(* ===== verification/Send_Response.thy ===== *)
theory Send_Response
  imports Json_Values
begin

section \<open>Answers to a send\<close>

text \<open>
  \<open>agent/send_response_validation.py\<close> and \<open>SendResult\<close> of \<open>agent/send_models.py\<close>: what the coordinator
  makes of the Server's answer to a channel send, in the encrypted lane and in the keyless lane. An
  answer is any JSON value. Python's \<open>==\<close> also equates a number with a bool or a float of the same
  value; \<open>feq\<close> says whether the float with a given text equals an integer.
\<close>

subsection \<open>Results\<close>

datatype send_state = Sent | Held | Failed

record SendResult =
  sr_state :: send_state
  sr_envelope_id :: "string option"
  sr_seq :: "int option"
  sr_replay :: "bool option"
  sr_devices_queued :: "int option"
  sr_context_baseline_seq :: "int option"
  sr_seen_seq :: "int option"
  sr_latest_seq :: "int option"
  sr_latest_envelope_id :: "string option"
  sr_blocking_seq :: "json option"
  sr_blocking_envelope_id :: "json option"
  sr_blocking_sender_slug :: "json option"
  sr_latest_seq_before_send :: "int option"
  sr_mode :: "string option"
  sr_missing_devices :: "string list"
  sr_error :: "string option"
  sr_error_kind :: "string option"
  sr_status :: "int option"
  sr_note :: string

definition send_result :: "send_state \<Rightarrow> SendResult" where
  "send_result st = \<lparr>sr_state = st, sr_envelope_id = None, sr_seq = None, sr_replay = None,
     sr_devices_queued = None, sr_context_baseline_seq = None, sr_seen_seq = None, sr_latest_seq = None,
     sr_latest_envelope_id = None, sr_blocking_seq = None, sr_blocking_envelope_id = None,
     sr_blocking_sender_slug = None, sr_latest_seq_before_send = None, sr_mode = None,
     sr_missing_devices = [], sr_error = None, sr_error_kind = None, sr_status = None, sr_note = []\<rparr>"

lemma send_result_simps [simp]:
  "sr_state (send_result st) = st" "sr_seq (send_result st) = None"
  "sr_latest_seq (send_result st) = None" "sr_latest_envelope_id (send_result st) = None"
  "sr_context_baseline_seq (send_result st) = None" "sr_seen_seq (send_result st) = None"
  "sr_latest_seq_before_send (send_result st) = None" "sr_error_kind (send_result st) = None"
  by (simp_all add: send_result_def)

definition failed_send :: "string \<Rightarrow> string \<Rightarrow> int option \<Rightarrow> SendResult" where
  "failed_send msg kind status =
     (send_result Failed)\<lparr>sr_error := Some msg, sr_error_kind := Some kind, sr_status := status\<rparr>"

definition protocol_error :: "string \<Rightarrow> SendResult" where
  "protocol_error msg = failed_send msg ''protocol'' None"

lemma failed_send_simps [simp]:
  "sr_state (failed_send m k s) = Failed" "sr_error_kind (failed_send m k s) = Some k"
  "sr_state (protocol_error m) = Failed" "sr_error_kind (protocol_error m) = Some ''protocol''"
  by (simp_all add: failed_send_def protocol_error_def)

text \<open>What the coordinator sends along: the baseline, the sequence seen, the mode.\<close>

record Freshness =
  fr_context_baseline_seq :: "int option"
  fr_seen_seq :: int
  fr_mode :: string

text \<open>The raw value a lane hands to its validator: a result of its own, or the Server's answer.\<close>

datatype raw_answer = Own SendResult | Answer json

subsection \<open>Fields\<close>

text \<open>\<open>devices_queued\<close>: absent, or a non-negative integer.\<close>

definition queued_ok :: "json option \<Rightarrow> bool" where
  "queued_ok v \<longleftrightarrow> is_none v \<or> (case py_int v of None \<Rightarrow> False | Some i \<Rightarrow> 0 \<le> i)"

definition nonblank :: "string option \<Rightarrow> bool" where
  "nonblank v = (case v of None \<Rightarrow> False | Some s \<Rightarrow> strip s \<noteq> [])"

definition FRESHNESS_FIELDS :: "string list" where
  "FRESHNESS_FIELDS = [''mode'', ''context_baseline_seq'', ''seen_seq'', ''latest_seq_before_send'']"

definition LEGACY_HELD_RESPONSE_FIELDS :: "string list" where
  "LEGACY_HELD_RESPONSE_FIELDS =
     [''state'', ''envelope_id'', ''context_baseline_seq'', ''seen_seq'', ''latest_seq'', ''latest_envelope_id'']"

definition BLOCKING_HELD_RESPONSE_FIELDS :: "string list" where
  "BLOCKING_HELD_RESPONSE_FIELDS = [''blocking_seq'', ''blocking_envelope_id'', ''blocking_sender_slug'']"

subsection \<open>The encrypted lane\<close>

definition sent_freshness_matches :: "json \<Rightarrow> Freshness \<Rightarrow> bool" where
  "sent_freshness_matches response fr =
     (case (py_int (json_get response ''context_baseline_seq''), py_int (json_get response ''seen_seq''),
            py_int (json_get response ''latest_seq_before_send'')) of
        (Some baseline_echo, Some seen_echo, Some latest_before) \<Rightarrow>
          json_get response ''mode'' = Some (JStr (fr_mode fr))
          \<and> 0 \<le> baseline_echo
          \<and> (case fr_context_baseline_seq fr of
               None \<Rightarrow> latest_before = baseline_echo
             | Some b \<Rightarrow> baseline_echo = b)
          \<and> 0 \<le> seen_echo \<and> seen_echo = fr_seen_seq fr
          \<and> 0 \<le> latest_before \<and> max baseline_echo seen_echo \<le> latest_before
          \<and> (fr_mode fr = ''require_current'' \<longrightarrow> latest_before = max baseline_echo seen_echo)
      | _ \<Rightarrow> False)"

text \<open>\<open>_validate_sent_freshness\<close>: the sequence before the send and the baseline the Server settled on;
  an old replay carries none.\<close>

definition validate_sent_freshness ::
  "json \<Rightarrow> Freshness \<Rightarrow> bool \<Rightarrow> SendResult + (int option \<times> int option)" where
  "validate_sent_freshness raw fr replay =
     (case json_get raw ''freshness'' of
        None \<Rightarrow> if replay then Inr (None, None) else Inl (protocol_error ''sent response omitted freshness'')
      | Some response \<Rightarrow>
          if \<not> is_mapping response then Inl (protocol_error ''sent response freshness is malformed'')
          else if keys_of response \<noteq> set FRESHNESS_FIELDS
          then Inl (protocol_error ''sent response freshness fields mismatch'')
          else if \<not> sent_freshness_matches response fr
          then Inl (protocol_error ''sent response freshness mismatch'')
          else Inr (py_int (json_get response ''latest_seq_before_send''),
                    py_int (json_get response ''context_baseline_seq'')))"

definition validate_sent_channel_response :: "json \<Rightarrow> string \<Rightarrow> Freshness \<Rightarrow> SendResult" where
  "validate_sent_channel_response raw eid fr =
     (case py_int (json_get raw ''seq'') of
        None \<Rightarrow> protocol_error ''sent response has invalid seq''
      | Some seq \<Rightarrow>
          if seq \<le> 0 then protocol_error ''sent response has invalid seq''
          else if json_get raw ''replay'' = None then protocol_error ''sent response omitted replay''
          else (case py_bool (json_get raw ''replay'') of
            None \<Rightarrow> protocol_error ''sent response has invalid replay''
          | Some replay \<Rightarrow>
              (case validate_sent_freshness raw fr replay of
                 Inl e \<Rightarrow> e
               | Inr (latest_before, established_baseline) \<Rightarrow>
                   if json_get raw ''missing_devices'' = None
                   then protocol_error ''sent response omitted missing_devices''
                   else (case py_strings (json_get raw ''missing_devices'') of
                     None \<Rightarrow> protocol_error ''sent response has invalid missing_devices''
                   | Some missing \<Rightarrow>
                       if \<not> queued_ok (json_get raw ''devices_queued'')
                       then protocol_error ''sent response has invalid devices_queued''
                       else (send_result Sent)\<lparr>sr_envelope_id := Some eid, sr_seq := Some seq,
                              sr_replay := Some replay,
                              sr_devices_queued := py_int (json_get raw ''devices_queued''),
                              sr_context_baseline_seq := established_baseline,
                              sr_seen_seq := Some (fr_seen_seq fr),
                              sr_latest_seq_before_send := latest_before,
                              sr_missing_devices := missing\<rparr>))))"

definition validate_held_channel_response ::
  "(string \<Rightarrow> int \<Rightarrow> bool) \<Rightarrow> json \<Rightarrow> string \<Rightarrow> Freshness \<Rightarrow> SendResult" where
  "validate_held_channel_response feq raw eid fr =
     (let current = (keys_of raw = set (LEGACY_HELD_RESPONSE_FIELDS @ BLOCKING_HELD_RESPONSE_FIELDS))
      in if keys_of raw \<noteq> set LEGACY_HELD_RESPONSE_FIELDS \<and> \<not> current
         then protocol_error ''held response fields mismatch''
         else if \<not> eq_int_or_none feq (json_get raw ''context_baseline_seq'') (fr_context_baseline_seq fr)
         then protocol_error ''held response watermark mismatch''
         else case (py_int (json_get raw ''seen_seq''), py_int (json_get raw ''latest_seq'')) of
           (Some seen, Some latest) \<Rightarrow>
             if seen < 0 \<or> latest < 0
             then protocol_error ''held response has incomplete boundary watermarks''
             else (let boundary = (case fr_context_baseline_seq fr of
                                     None \<Rightarrow> fr_seen_seq fr | Some b \<Rightarrow> max (fr_seen_seq fr) b)
                   in if seen \<noteq> fr_seen_seq fr \<or> latest \<le> boundary
                         \<or> \<not> nonblank (py_text (json_get raw ''latest_envelope_id''))
                      then protocol_error ''held response watermark mismatch''
                      else if current
                              \<and> (\<not> eq_int feq (json_get raw ''blocking_seq'') latest
                                 \<or> json_get raw ''blocking_envelope_id'' \<noteq> json_get raw ''latest_envelope_id''
                                 \<or> \<not> nonblank (py_text (json_get raw ''blocking_sender_slug'')))
                      then protocol_error ''held response blocker metadata mismatch''
                      else (send_result Held)\<lparr>sr_envelope_id := Some eid,
                             sr_context_baseline_seq := fr_context_baseline_seq fr, sr_seen_seq := Some seen,
                             sr_latest_seq := Some latest,
                             sr_latest_envelope_id := py_text (json_get raw ''latest_envelope_id''),
                             sr_blocking_seq := json_get raw ''blocking_seq'',
                             sr_blocking_envelope_id := json_get raw ''blocking_envelope_id'',
                             sr_blocking_sender_slug := json_get raw ''blocking_sender_slug''\<rparr>)
         | _ \<Rightarrow> protocol_error ''held response has incomplete boundary watermarks'')"

definition validate_channel_response ::
  "(string \<Rightarrow> int \<Rightarrow> bool) \<Rightarrow> raw_answer \<Rightarrow> json \<Rightarrow> Freshness \<Rightarrow> SendResult" where
  "validate_channel_response feq answer envelope fr =
     (case answer of
        Own r \<Rightarrow> r
      | Answer raw \<Rightarrow>
          if \<not> is_mapping raw then protocol_error ''channel send returned a malformed response''
          else (case py_text (json_get envelope ''envelope_id'') of
            None \<Rightarrow> protocol_error ''request envelope_id is invalid''
          | Some eid \<Rightarrow>
              if strip eid = [] then protocol_error ''request envelope_id is invalid''
              else if json_get raw ''state'' \<notin> {Some (JStr ''sent''), Some (JStr ''held'')}
              then protocol_error ''unknown channel send state''
              else if json_get raw ''envelope_id'' \<noteq> Some (JStr eid)
              then protocol_error ''response envelope_id mismatch''
              else if json_get raw ''state'' = Some (JStr ''sent'') then validate_sent_channel_response raw eid fr
              else validate_held_channel_response feq raw eid fr))"

subsection \<open>The keyless lane\<close>

definition keyless_freshness_is_valid :: "(string \<Rightarrow> int \<Rightarrow> bool) \<Rightarrow> json option \<Rightarrow> Freshness \<Rightarrow> bool" where
  "keyless_freshness_is_valid feq echo fr =
     (case echo of
        None \<Rightarrow> False
      | Some echoed \<Rightarrow>
          is_mapping echoed \<and> keys_of echoed = set FRESHNESS_FIELDS
          \<and> json_get echoed ''mode'' = Some (JStr (fr_mode fr))
          \<and> eq_int feq (json_get echoed ''seen_seq'') (fr_seen_seq fr)
          \<and> (case (py_int (json_get echoed ''context_baseline_seq''),
                   py_int (json_get echoed ''latest_seq_before_send'')) of
               (Some echoed_baseline, Some latest) \<Rightarrow>
                 0 \<le> echoed_baseline
                 \<and> (case fr_context_baseline_seq fr of
                      None \<Rightarrow> latest = echoed_baseline
                    | Some b \<Rightarrow> echoed_baseline = b)
                 \<and> fr_seen_seq fr \<le> latest
                 \<and> (fr_mode fr = ''require_current'' \<longrightarrow> latest = max echoed_baseline (fr_seen_seq fr))
             | _ \<Rightarrow> False))"

definition keyless_sent_result :: "(string \<Rightarrow> int \<Rightarrow> bool) \<Rightarrow> json \<Rightarrow> Freshness \<Rightarrow> SendResult" where
  "keyless_sent_result feq raw fr =
     (let echo = json_get raw ''freshness''
      in case (py_text (json_get raw ''envelope_id''), py_int (json_get raw ''seq''),
               py_bool (json_get raw ''replay''), py_strings (json_get raw ''missing_devices'')) of
           (Some eid, Some seq, Some replay, Some missing) \<Rightarrow>
             if eid \<noteq> [] \<and> 0 < seq \<and> queued_ok (json_get raw ''devices_queued'')
                \<and> keyless_freshness_is_valid feq echo fr
             then (send_result Sent)\<lparr>sr_envelope_id := Some eid, sr_seq := Some seq, sr_replay := Some replay,
                    sr_devices_queued := py_int (json_get raw ''devices_queued''),
                    sr_context_baseline_seq := py_int (json_get (the echo) ''context_baseline_seq''),
                    sr_seen_seq := Some (fr_seen_seq fr),
                    sr_latest_seq_before_send := py_int (json_get (the echo) ''latest_seq_before_send''),
                    sr_mode := py_text (json_get (the echo) ''mode''),
                    sr_missing_devices := missing\<rparr>
             else protocol_error ''invalid coordinated keyless commit''
         | _ \<Rightarrow> protocol_error ''invalid coordinated keyless commit'')"

definition keyless_blocker_is_valid :: "(string \<Rightarrow> int \<Rightarrow> bool) \<Rightarrow> json \<Rightarrow> int \<Rightarrow> string \<Rightarrow> bool" where
  "keyless_blocker_is_valid feq raw latest eid \<longleftrightarrow>
     set BLOCKING_HELD_RESPONSE_FIELDS \<subseteq> keys_of raw
     \<and> eq_int feq (json_get raw ''blocking_seq'') latest
     \<and> json_get raw ''blocking_envelope_id'' = Some (JStr eid)
     \<and> nonblank (py_text (json_get raw ''blocking_sender_slug''))"

definition keyless_held_result :: "(string \<Rightarrow> int \<Rightarrow> bool) \<Rightarrow> json \<Rightarrow> Freshness \<Rightarrow> SendResult" where
  "keyless_held_result feq raw fr =
     (case (py_int (json_get raw ''latest_seq''), py_text (json_get raw ''latest_envelope_id'')) of
        (Some latest, Some eid) \<Rightarrow>
          if eq_int feq (json_get raw ''seen_seq'') (fr_seen_seq fr)
             \<and> eq_int_or_none feq (json_get raw ''context_baseline_seq'') (fr_context_baseline_seq fr)
             \<and> fr_seen_seq fr < latest \<and> eid \<noteq> []
             \<and> (list_ex (\<lambda>k. k \<in> keys_of raw) BLOCKING_HELD_RESPONSE_FIELDS
                \<longrightarrow> keyless_blocker_is_valid feq raw latest eid)
          then (send_result Held)\<lparr>sr_context_baseline_seq := fr_context_baseline_seq fr,
                 sr_seen_seq := Some (fr_seen_seq fr), sr_latest_seq := Some latest,
                 sr_latest_envelope_id := Some eid,
                 sr_blocking_seq := json_get raw ''blocking_seq'',
                 sr_blocking_envelope_id := json_get raw ''blocking_envelope_id'',
                 sr_blocking_sender_slug := json_get raw ''blocking_sender_slug''\<rparr>
          else protocol_error ''invalid coordinated keyless hold''
      | _ \<Rightarrow> protocol_error ''invalid coordinated keyless hold'')"

definition validate_keyless_response ::
  "(string \<Rightarrow> int \<Rightarrow> bool) \<Rightarrow> raw_answer \<Rightarrow> Freshness \<Rightarrow> SendResult" where
  "validate_keyless_response feq answer fr =
     (case answer of
        Own r \<Rightarrow> r
      | Answer raw \<Rightarrow>
          if \<not> is_mapping raw then protocol_error ''malformed coordinated keyless response''
          else if json_get raw ''state'' = Some (JStr ''sent'') then keyless_sent_result feq raw fr
          else if json_get raw ''state'' = Some (JStr ''held'') then keyless_held_result feq raw fr
          else protocol_error ''unknown coordinated keyless state'')"

subsection \<open>What an accepted answer says\<close>

text \<open>The boundary of a send: the highest sequence the sender is known to have seen.\<close>

definition acknowledged :: "SendResult \<Rightarrow> int" where
  "acknowledged r = max (get_default (sr_seen_seq r) 0) (get_default (sr_context_baseline_seq r) 0)"

definition fresh_boundary :: "Freshness \<Rightarrow> int" where
  "fresh_boundary fr = max (fr_seen_seq fr) (get_default (fr_context_baseline_seq fr) 0)"

text \<open>The contract of a lane's validator, as the coordinator relies on it.\<close>

locale answer_validator =
  fixes validate :: "raw_answer \<Rightarrow> json \<Rightarrow> Freshness \<Rightarrow> SendResult"
  assumes own: "validate (Own r) e fr = r"
    and sent_seq: "sr_state (validate (Answer raw) e fr) = Sent \<Longrightarrow>
      \<exists>q>0. sr_seq (validate (Answer raw) e fr) = Some q"
    and sent_seen: "sr_state (validate (Answer raw) e fr) = Sent \<Longrightarrow>
      sr_seen_seq (validate (Answer raw) e fr) = Some (fr_seen_seq fr)"
    and sent_current: "\<lbrakk>sr_state (validate (Answer raw) e fr) = Sent; fr_mode fr = ''require_current'';
        0 \<le> fr_seen_seq fr; sr_latest_seq_before_send (validate (Answer raw) e fr) = Some q\<rbrakk> \<Longrightarrow>
      q = acknowledged (validate (Answer raw) e fr)"
    and held_head: "\<lbrakk>sr_state (validate (Answer raw) e fr) = Held\<rbrakk> \<Longrightarrow>
      \<exists>q i. sr_latest_seq (validate (Answer raw) e fr) = Some q \<and> fr_seen_seq fr < q \<and>
        sr_latest_envelope_id (validate (Answer raw) e fr) = Some i \<and> i \<noteq> []"
    and failed_kind: "sr_state (validate (Answer raw) e fr) = Failed \<Longrightarrow>
      sr_error_kind (validate (Answer raw) e fr) = Some ''protocol''"
begin

text \<open>A send that required currency was committed right behind what the sender had seen, or the
  Server did not say.\<close>

lemma no_gap:
  assumes "sr_state (validate (Answer raw) e fr) = Sent" "fr_mode fr = ''require_current''" "0 \<le> fr_seen_seq fr"
  shows "sr_latest_seq_before_send (validate (Answer raw) e fr) \<in>
    {None, Some (acknowledged (validate (Answer raw) e fr))}"
  using sent_current [OF assms] by (cases "sr_latest_seq_before_send (validate (Answer raw) e fr)") auto

end

definition rejected :: "SendResult \<Rightarrow> bool" where
  "rejected r \<longleftrightarrow> sr_state r = Failed \<and> sr_error_kind r = Some ''protocol''"

lemma rejected_protocol_error [simp]: "rejected (protocol_error m)"
  by (simp add: rejected_def)

lemma freshness_error:
  "case validate_sent_freshness raw fr replay of Inl e \<Rightarrow> rejected e | Inr _ \<Rightarrow> True"
  unfolding validate_sent_freshness_def by (simp split: option.split)

lemma freshness_Inl: "validate_sent_freshness raw fr replay = Inl e \<Longrightarrow> rejected e"
  using freshness_error [of raw fr replay] by simp

lemma sent_or_rejected:
  "sr_state (validate_sent_channel_response raw eid fr) = Sent \<or> rejected (validate_sent_channel_response raw eid fr)"
  unfolding validate_sent_channel_response_def by (auto split: option.split sum.split dest: freshness_Inl)

lemma held_or_rejected:
  "sr_state (validate_held_channel_response feq raw eid fr) = Held \<or>
   rejected (validate_held_channel_response feq raw eid fr)"
  unfolding validate_held_channel_response_def Let_def by (simp split: option.split)

lemma keyless_sent_or_rejected:
  "sr_state (keyless_sent_result feq raw fr) = Sent \<or> rejected (keyless_sent_result feq raw fr)"
  unfolding keyless_sent_result_def Let_def by (simp split: option.split)

lemma keyless_held_or_rejected:
  "sr_state (keyless_held_result feq raw fr) = Held \<or> rejected (keyless_held_result feq raw fr)"
  unfolding keyless_held_result_def by (simp split: option.split)

lemma sent_states [simp]: "sr_state (validate_sent_channel_response raw eid fr) \<noteq> Held"
  "sr_state (validate_sent_channel_response raw eid fr) = Failed \<Longrightarrow>
     rejected (validate_sent_channel_response raw eid fr)"
  using sent_or_rejected [of raw eid fr] by (auto simp: rejected_def)

lemma held_states [simp]: "sr_state (validate_held_channel_response feq raw eid fr) \<noteq> Sent"
  "sr_state (validate_held_channel_response feq raw eid fr) = Failed \<Longrightarrow>
     rejected (validate_held_channel_response feq raw eid fr)"
  using held_or_rejected [of feq raw eid fr] by (auto simp: rejected_def)

lemma channel_answer_cases:
  "(\<exists>eid. json_get e ''envelope_id'' = Some (JStr eid) \<and> json_get raw ''envelope_id'' = Some (JStr eid) \<and>
      validate_channel_response feq (Answer raw) e fr \<in>
        {validate_sent_channel_response raw eid fr, validate_held_channel_response feq raw eid fr}) \<or>
   rejected (validate_channel_response feq (Answer raw) e fr)"
proof (cases "py_text (json_get e ''envelope_id'')")
  case (Some eid)
  then have "json_get e ''envelope_id'' = Some (JStr eid)" by (elim py_text.elims) simp_all
  then show ?thesis unfolding validate_channel_response_def by simp
qed (simp add: validate_channel_response_def)

lemma keyless_answer_cases:
  "validate_keyless_response feq (Answer raw) fr \<in> {keyless_sent_result feq raw fr, keyless_held_result feq raw fr} \<or>
   rejected (validate_keyless_response feq (Answer raw) fr)"
  unfolding validate_keyless_response_def by simp

lemma validate_sent_cases:
  assumes "sr_state (validate_sent_channel_response raw eid fr) = Sent"
  obtains q replay lb eb where "0 < q" "validate_sent_freshness raw fr replay = Inr (lb, eb)"
    "sr_seq (validate_sent_channel_response raw eid fr) = Some q"
    "sr_seen_seq (validate_sent_channel_response raw eid fr) = Some (fr_seen_seq fr)"
    "sr_latest_seq_before_send (validate_sent_channel_response raw eid fr) = lb"
    "sr_context_baseline_seq (validate_sent_channel_response raw eid fr) = eb"
  using assms freshness_Inl
  by (fastforce simp: validate_sent_channel_response_def rejected_def split: option.splits if_splits sum.splits)

lemma sent_freshness_facts:
  assumes "validate_sent_freshness raw fr replay = Inr (Some q, eb)"
  obtains b where "eb = Some b" "0 \<le> b" "max b (fr_seen_seq fr) \<le> q"
    "fr_context_baseline_seq fr = None \<Longrightarrow> q = b" "fr_context_baseline_seq fr \<noteq> None \<Longrightarrow> fr_context_baseline_seq fr = Some b"
    "fr_mode fr = ''require_current'' \<Longrightarrow> q = max b (fr_seen_seq fr)"
proof -
  from assms obtain v where v: "json_get raw ''freshness'' = Some v" "sent_freshness_matches v fr"
    "py_int (json_get v ''latest_seq_before_send'') = Some q" "eb = py_int (json_get v ''context_baseline_seq'')"
    unfolding validate_sent_freshness_def by (auto split: option.splits if_splits)
  from v(2,3) obtain b where b: "py_int (json_get v ''context_baseline_seq'') = Some b"
    unfolding sent_freshness_matches_def by (auto split: option.splits)
  from v b show ?thesis
    by (intro that [of b]) (auto simp: sent_freshness_matches_def split: option.splits)
qed

lemma channel_is_sent:
  assumes "sr_state (validate_channel_response feq (Answer raw) e fr) = Sent"
  obtains eid where "validate_channel_response feq (Answer raw) e fr = validate_sent_channel_response raw eid fr"
    "json_get e ''envelope_id'' = Some (JStr eid)" "json_get raw ''envelope_id'' = Some (JStr eid)"
  using channel_answer_cases [of e raw feq fr] assms by (auto simp: rejected_def)

lemma channel_is_held:
  assumes "sr_state (validate_channel_response feq (Answer raw) e fr) = Held"
  obtains eid where "validate_channel_response feq (Answer raw) e fr = validate_held_channel_response feq raw eid fr"
  using channel_answer_cases [of e raw feq fr] assms by (auto simp: rejected_def)

lemma validate_held_cases:
  assumes "sr_state (validate_held_channel_response feq raw eid fr) = Held"
  obtains q i where "sr_latest_seq (validate_held_channel_response feq raw eid fr) = Some q"
    "fr_seen_seq fr < q" "\<forall>b. fr_context_baseline_seq fr = Some b \<longrightarrow> b < q"
    "sr_latest_envelope_id (validate_held_channel_response feq raw eid fr) = Some i" "strip i \<noteq> []"
proof -
  let ?r = "validate_held_channel_response feq raw eid fr"
  have nb: "nonblank v \<longleftrightarrow> (\<exists>s. v = Some s \<and> strip s \<noteq> [])" for v
    by (simp add: nonblank_def split: option.split)
  have "sr_state ?r = Held \<longrightarrow> (\<exists>q. sr_latest_seq ?r = Some q \<and> fr_seen_seq fr < q \<and>
      (\<forall>b. fr_context_baseline_seq fr = Some b \<longrightarrow> b < q) \<and> nonblank (sr_latest_envelope_id ?r))"
    unfolding validate_held_channel_response_def Let_def by (simp add: not_le split: option.split)
  with assms that show ?thesis unfolding nb by blast
qed

lemma strip_Nil [simp]: "strip [] = []"
  by (simp add: strip_def)

interpretation channel_answers: answer_validator "validate_channel_response feq" for feq
proof (unfold_locales, goal_cases)
  case (1 r e fr)
  then show ?case by (simp add: validate_channel_response_def)
next
  case (2 raw e fr)
  then show ?case by (metis channel_is_sent validate_sent_cases)
next
  case (3 raw e fr)
  then show ?case by (metis channel_is_sent validate_sent_cases)
next
  case (4 raw e fr q)
  from 4(1) obtain eid where
    eid: "validate_channel_response feq (Answer raw) e fr = validate_sent_channel_response raw eid fr"
    by (rule channel_is_sent)
  from 4(1,4) [unfolded eid] obtain replay eb where
    v: "validate_sent_freshness raw fr replay = Inr (Some q, eb)"
      "sr_seen_seq (validate_sent_channel_response raw eid fr) = Some (fr_seen_seq fr)"
      "sr_context_baseline_seq (validate_sent_channel_response raw eid fr) = eb"
    by (metis validate_sent_cases)
  from sent_freshness_facts [OF v(1)] 4(2) obtain b where "eb = Some b" "q = max b (fr_seen_seq fr)" "0 \<le> b"
    by metis
  then show ?case using v eid by (simp add: acknowledged_def get_default_def max.commute)
next
  case (5 raw e fr)
  then obtain eid where
    "validate_channel_response feq (Answer raw) e fr = validate_held_channel_response feq raw eid fr"
    by (rule channel_is_held)
  with 5 show ?case by (metis validate_held_cases strip_Nil)
next
  case (6 raw e fr)
  then show ?case
    using channel_answer_cases [of e raw feq fr] by (metis insertE singletonD rejected_def sent_states(2) held_states(2))
qed

lemma keyless_sent_cases:
  assumes "sr_state (keyless_sent_result feq raw fr) = Sent"
  obtains v q where "json_get raw ''freshness'' = Some v" "keyless_freshness_is_valid feq (Some v) fr" "0 < q"
    "sr_seq (keyless_sent_result feq raw fr) = Some q"
    "sr_seen_seq (keyless_sent_result feq raw fr) = Some (fr_seen_seq fr)"
    "sr_context_baseline_seq (keyless_sent_result feq raw fr) = py_int (json_get v ''context_baseline_seq'')"
    "sr_latest_seq_before_send (keyless_sent_result feq raw fr) = py_int (json_get v ''latest_seq_before_send'')"
proof -
  from assms obtain eid q rp ms where *: "py_text (json_get raw ''envelope_id'') = Some eid"
      "py_int (json_get raw ''seq'') = Some q" "py_bool (json_get raw ''replay'') = Some rp"
      "py_strings (json_get raw ''missing_devices'') = Some ms"
    unfolding keyless_sent_result_def Let_def by (simp split: option.splits)
  from assms * have c: "eid \<noteq> [] \<and> 0 < q \<and> queued_ok (json_get raw ''devices_queued'')
      \<and> keyless_freshness_is_valid feq (json_get raw ''freshness'') fr"
    unfolding keyless_sent_result_def Let_def by (simp split: if_splits)
  then obtain v where v: "json_get raw ''freshness'' = Some v"
    unfolding keyless_freshness_is_valid_def by (cases "json_get raw ''freshness''") simp_all
  show ?thesis
    by (rule that [of v q]) (use * c v in \<open>simp_all add: keyless_sent_result_def\<close>)
qed

lemma keyless_held_cases:
  assumes "sr_state (keyless_held_result feq raw fr) = Held"
  obtains q i where "sr_latest_seq (keyless_held_result feq raw fr) = Some q" "fr_seen_seq fr < q"
    "sr_latest_envelope_id (keyless_held_result feq raw fr) = Some i" "i \<noteq> []"
proof -
  from assms obtain i q where *: "py_text (json_get raw ''latest_envelope_id'') = Some i"
      "py_int (json_get raw ''latest_seq'') = Some q"
    unfolding keyless_held_result_def by (simp split: option.splits)
  from assms * have "eq_int feq (json_get raw ''seen_seq'') (fr_seen_seq fr)
      \<and> eq_int_or_none feq (json_get raw ''context_baseline_seq'') (fr_context_baseline_seq fr)
      \<and> fr_seen_seq fr < q \<and> i \<noteq> []
      \<and> (list_ex (\<lambda>k. k \<in> keys_of raw) BLOCKING_HELD_RESPONSE_FIELDS
         \<longrightarrow> keyless_blocker_is_valid feq raw q i)" (is ?c)
    unfolding keyless_held_result_def by (simp split: if_splits)
  with * show ?thesis by (intro that [of q i]) (simp_all add: keyless_held_result_def)
qed

lemma keyless_is_sent:
  "sr_state (validate_keyless_response feq (Answer raw) fr) = Sent \<Longrightarrow>
   validate_keyless_response feq (Answer raw) fr = keyless_sent_result feq raw fr"
  using keyless_answer_cases [of feq raw fr] keyless_held_or_rejected [of feq raw fr] by (auto simp: rejected_def)

lemma keyless_is_held:
  "sr_state (validate_keyless_response feq (Answer raw) fr) = Held \<Longrightarrow>
   validate_keyless_response feq (Answer raw) fr = keyless_held_result feq raw fr"
  using keyless_answer_cases [of feq raw fr] keyless_sent_or_rejected [of feq raw fr] by (auto simp: rejected_def)

interpretation keyless_answers: answer_validator "\<lambda>a e. validate_keyless_response feq a" for feq
proof (unfold_locales, goal_cases)
  case (1 r e fr)
  then show ?case by (simp add: validate_keyless_response_def)
next
  case (2 raw e fr)
  then show ?case using keyless_is_sent by (metis keyless_sent_cases)
next
  case (3 raw e fr)
  then show ?case using keyless_is_sent by (metis keyless_sent_cases)
next
  case (4 raw e fr q)
  let ?r = "keyless_sent_result feq raw fr"
  from 4(1) keyless_is_sent have r: "validate_keyless_response feq (Answer raw) fr = ?r" by blast
  with 4 obtain v where v: "keyless_freshness_is_valid feq (Some v) fr"
      "sr_seen_seq ?r = Some (fr_seen_seq fr)"
      "sr_context_baseline_seq ?r = py_int (json_get v ''context_baseline_seq'')"
      "py_int (json_get v ''latest_seq_before_send'') = Some q"
    by (metis keyless_sent_cases)
  then obtain b where "py_int (json_get v ''context_baseline_seq'') = Some b" "q = max b (fr_seen_seq fr)" "0 \<le> b"
    using 4(2) unfolding keyless_freshness_is_valid_def by (auto split: option.splits)
  then show ?case using v r by (simp add: acknowledged_def get_default_def max.commute)
next
  case (5 raw e fr)
  then show ?case using keyless_is_held by (metis keyless_held_cases)
next
  case (6 raw e fr)
  then show ?case
    using keyless_answer_cases [of feq raw fr] keyless_sent_or_rejected [of feq raw fr]
      keyless_held_or_rejected [of feq raw fr]
    by (auto simp: rejected_def)
qed

end
