(* ===== verification/Send_Held.thy ===== *)
theory Send_Held
  imports Send_Request Send_Response "HOL-Library.State_Monad"
begin

section \<open>Held sends\<close>

text \<open>
  The held evidence of \<open>agent/send_coordinator.py\<close> and its recovery source
  (\<open>agent/global_inbox_held.py\<close>) over the runtime and its store. A send that the Server held leaves a
  record of the draft and of the channel head; recovery proves that the head has arrived in the local
  store; \<open>send_anyway\<close> is allowed for exactly that draft once a turn has seen that head.

  The code runs as asyncio tasks: between two awaits a task is alone, at every await the others may
  run. A task here is a state monad over a world that holds the coordinator's state and, as
  \<open>sw_others\<close>, what the other tasks do at each await; \<open>pause\<close> is an await. \<open>_held_lock\<close> guards regions
  without awaits, so it is never contended. An answer to an awaited call is looked up when the task
  resumes. \<open>sw_trace\<close> records the states the task has met and is read by no operation.
\<close>

subsection \<open>State\<close>

type_synonym held_key = "string \<times> string \<times> string \<times> string"

text \<open>A row that recovery returns: a stored row with the head it was recovered for, or, without a
  payload, the proof of the head alone.\<close>

record held_row =
  hr_payload :: "message_row option"
  hr_envelope_id :: string
  hr_server_seq :: "int option"
  hr_latest_seq :: int
  hr_latest_envelope_id :: string
  hr_provider_session_id :: string

record HeldEvidence =
  he_latest_seq :: int
  he_latest_envelope_id :: string
  he_synchronized :: bool
  he_attempt_fingerprint :: string
  he_content_digest :: string
  he_draft :: string
  he_based_on_through_seq :: "int option"
  he_thread_root_id :: string
  he_recovered_messages :: "held_row list"
  he_visible_draft_basis :: "message_row list"
  he_diagnostic :: string

record HeldStaging =
  hs_message_ids :: "string list"
  hs_latest_seq :: "int option"
  hs_latest_envelope_id :: "string option"
  hs_recovered_through_seq :: "int option"
  hs_more_pending :: bool
  hs_synchronized :: bool
  hs_diagnostic :: string
  hs_correlation_key :: string

record HeldAdmissionEvidence =
  ae_active_turn_id :: string
  ae_provider_session_id :: string
  ae_provider_turn_id :: string
  ae_space_id :: string
  ae_channel_id :: string
  ae_latest_seq :: int
  ae_latest_envelope_id :: string
  ae_displayed_ids :: "string list"

text \<open>The coordinator with the runtime it serves. \<open>sc_staging\<close> is the heap of \<open>HeldStaging\<close> objects,
  \<open>sc_held\<close> the dict \<open>runtime.held\<close> of their addresses: a query goes on writing to the object it
  made even when another one has taken its place.\<close>

record send_coordinator =
  sc_rt :: runtime
  sc_provider_session_id :: "string option"
  sc_held_evidence :: "(held_key \<times> HeldEvidence) list"
  sc_held_generation :: nat
  sc_staging :: "HeldStaging list"
  sc_held :: "((string \<times> string) \<times> nat) list"
  sc_admission_evidence :: "((string \<times> string \<times> string \<times> string \<times> int \<times> string) \<times> HeldAdmissionEvidence) list"

text \<open>How a request to the Server ends: with an answer, an \<open>HttpError\<close>, one of \<open>TimeoutError\<close>,
  \<open>ConnectionError\<close> and \<open>OSError\<close>, one of the three named client errors, or another exception.\<close>

datatype post_outcome =
    Answered json
  | HttpError int string
  | ConnectionLost string
  | ClientFault string
  | OtherFault string

text \<open>The world of a task. \<open>sw_rounds\<close> are the rounds of a wait before its deadline and \<open>sw_replies\<close>
  the ends of requests, both by the number of awaits so far. \<open>sw_posts\<close> are the bodies handed to the
  transport and \<open>sw_advances\<close> the calls that advance the boundary of the active turn.\<close>

record send_world =
  sw_state :: send_coordinator
  sw_others :: "nat \<Rightarrow> send_coordinator \<Rightarrow> send_coordinator"
  sw_clock :: nat
  sw_trace :: "send_coordinator list"
  sw_rounds :: "nat \<Rightarrow> bool list"
  sw_has_catchup :: bool
  sw_replies :: "nat \<Rightarrow> post_outcome"
  sw_posts :: "(json \<times> Freshness) list"
  sw_advances :: "(string \<times> string \<times> int) list"

type_synonym 'a send_task = "(send_world, 'a) state"

definition pause :: "unit send_task" where
  "pause = State (\<lambda>w. let s = sw_others w (sw_clock w) (sw_state w)
     in ((), w\<lparr>sw_state := s, sw_clock := Suc (sw_clock w), sw_trace := sw_trace w @ [s]\<rparr>))"

definition look :: "(send_coordinator \<Rightarrow> 'a) \<Rightarrow> 'a send_task" where
  "look f = State (\<lambda>w. (f (sw_state w), w))"

definition alter :: "(send_coordinator \<Rightarrow> send_coordinator) \<Rightarrow> unit send_task" where
  "alter f = State (\<lambda>w. let s = f (sw_state w) in ((), w\<lparr>sw_state := s, sw_trace := sw_trace w @ [s]\<rparr>))"

definition store_view :: "(db \<Rightarrow> 'a) \<Rightarrow> 'a send_task" where
  "store_view f = look (\<lambda>s. f (rt_db (sc_rt s)))"

subsection \<open>The turn in charge\<close>

definition turn_identity :: "send_coordinator \<Rightarrow> string \<times> string" where
  "turn_identity s =
     (let a = active (sc_rt s); turn = act_turn_id a;
          configured = or_empty (sc_provider_session_id s);
          active_session = or_empty (act_provider_session_id a)
      in if configured \<noteq> [] \<and> active_session \<noteq> [] \<and> configured \<noteq> active_session then ([], turn)
         else (if configured \<noteq> [] then configured else active_session, turn))"

subsection \<open>Held evidence\<close>

definition MAX_HELD_RECORDS :: nat where "MAX_HELD_RECORDS = 8"

definition dict_pop :: "('k \<times> 'v) list \<Rightarrow> 'k \<Rightarrow> ('k \<times> 'v) list" where
  "dict_pop kvs k = filter (\<lambda>kv. fst kv \<noteq> k) kvs"

definition owned_by :: "string \<times> string \<Rightarrow> held_key \<Rightarrow> bool" where
  "owned_by i k \<longleftrightarrow> (fst k, fst (snd k)) = i"

text \<open>\<open>_prune_stale_held_locked\<close>: the oldest records beyond the cap go first.\<close>

definition prune_stale_held :: "send_coordinator \<Rightarrow> send_coordinator" where
  "prune_stale_held s =
     (let i = turn_identity s;
          live = (if fst i \<noteq> [] \<and> snd i \<noteq> [] then filter (\<lambda>kv. owned_by i (fst kv)) (sc_held_evidence s)
                  else sc_held_evidence s)
      in s\<lparr>sc_held_evidence := drop (length live - MAX_HELD_RECORDS) live\<rparr>)"

text \<open>\<open>_record_held\<close>; the record to store is given whole, as a new \<open>_HeldEvidence\<close>.\<close>

definition supersedes :: "HeldEvidence \<Rightarrow> HeldEvidence option \<Rightarrow> bool" where
  "supersedes new old =
     (case old of
        None \<Rightarrow> True
      | Some h \<Rightarrow> he_latest_seq h < he_latest_seq new
          \<or> (he_latest_seq new = he_latest_seq h \<and> he_latest_envelope_id new \<noteq> he_latest_envelope_id h)
          \<or> he_attempt_fingerprint new \<noteq> he_attempt_fingerprint h)"

definition record_held :: "held_key \<Rightarrow> HeldEvidence \<Rightarrow> nat \<Rightarrow> send_coordinator \<Rightarrow> send_coordinator" where
  "record_held key new gen s =
     (if gen \<noteq> sc_held_generation s then s
      else prune_stale_held
        (if supersedes new (map_of (sc_held_evidence s) key)
         then s\<lparr>sc_held_evidence := dict_pop (sc_held_evidence s) key @ [(key, new)]\<rparr>
         else s))"

definition new_evidence ::
  "int \<Rightarrow> string \<Rightarrow> string \<Rightarrow> string \<Rightarrow> int \<Rightarrow> string \<Rightarrow> message_row list \<Rightarrow> string \<Rightarrow> HeldEvidence" where
  "new_evidence seq eid fingerprint draft based_on thread basis cdigest =
     \<lparr>he_latest_seq = seq, he_latest_envelope_id = eid, he_synchronized = False,
      he_attempt_fingerprint = fingerprint, he_content_digest = cdigest, he_draft = draft,
      he_based_on_through_seq = Some based_on, he_thread_root_id = thread, he_recovered_messages = [],
      he_visible_draft_basis = basis, he_diagnostic = []\<rparr>"

definition discard_held_evidence :: "send_coordinator \<Rightarrow> send_coordinator" where
  "discard_held_evidence s =
     s\<lparr>sc_held_generation := Suc (sc_held_generation s), sc_held_evidence := []\<rparr>"

definition consume_held :: "held_key \<Rightarrow> send_coordinator \<Rightarrow> send_coordinator" where
  "consume_held key s = prune_stale_held (s\<lparr>sc_held_evidence := dict_pop (sc_held_evidence s) key\<rparr>)"

text \<open>\<open>_held_snapshot_locked\<close>: head, fingerprint, content digest, synchronized.\<close>

definition held_snapshot ::
  "held_key \<Rightarrow> send_coordinator \<Rightarrow> (int \<times> string) option \<times> string \<times> string \<times> bool" where
  "held_snapshot key s =
     (case map_of (sc_held_evidence s) key of
        None \<Rightarrow> (None, [], [], False)
      | Some h \<Rightarrow> (Some (he_latest_seq h, he_latest_envelope_id h), he_attempt_fingerprint h,
                  he_content_digest h, he_synchronized h))"

definition held_draft_reason :: "string \<Rightarrow> string \<Rightarrow> string \<Rightarrow> string \<Rightarrow> string" where
  "held_draft_reason held_fingerprint held_digest fingerprint cdigest =
     (if held_fingerprint \<noteq> fingerprint then ''held_draft_mismatch''
      else if held_digest \<noteq> [] \<and> held_digest \<noteq> cdigest then ''held_content_changed''
      else [])"

subsection \<open>The recovery source\<close>

text \<open>\<open>proven\<close>: the exact head is a row of the store.\<close>

definition head_stored :: "string \<Rightarrow> string \<Rightarrow> int \<Rightarrow> string \<Rightarrow> db \<Rightarrow> bool" where
  "head_stored sp ch seq eid d =
     (case get_message_by_envelope eid d of
        None \<Rightarrow> False
      | Some m \<Rightarrow> server_seq m = Some seq \<and> space_id m = Some sp \<and> channel_id m = Some ch)"

definition blank_staging :: HeldStaging where
  "blank_staging = \<lparr>hs_message_ids = [], hs_latest_seq = None, hs_latest_envelope_id = None,
     hs_recovered_through_seq = None, hs_more_pending = False, hs_synchronized = False,
     hs_diagnostic = [], hs_correlation_key = []\<rparr>"

text \<open>\<open>runtime.held[(space_id, channel_id)] = HeldStaging(...)\<close>; the address of the new object is the
  number of objects before it.\<close>

definition stage :: "string \<Rightarrow> string \<Rightarrow> HeldStaging \<Rightarrow> send_coordinator \<Rightarrow> send_coordinator" where
  "stage sp ch st s =
     s\<lparr>sc_staging := sc_staging s @ [st], sc_held := dict_set (sc_held s) (sp, ch) (length (sc_staging s))\<rparr>"

text \<open>\<open>_reject_query\<close>, also the end of a wait that proved nothing.\<close>

definition reject_query :: "string \<Rightarrow> string \<Rightarrow> int \<Rightarrow> string \<Rightarrow> string \<Rightarrow> unit send_task" where
  "reject_query sp ch seq eid diagnostic =
     alter (stage sp ch (blank_staging\<lparr>hs_latest_seq := Some seq, hs_latest_envelope_id := Some eid,
                           hs_diagnostic := diagnostic\<rparr>))"

text \<open>The loop of \<open>wait_for_held_delivery\<close>: one entry per round that starts before the deadline, saying
  whether its wait timed out. The result tells a proof that came right after the event was cleared.\<close>

fun wait_rounds :: "(db \<Rightarrow> bool) \<Rightarrow> bool list \<Rightarrow> bool send_task" where
  "wait_rounds proven [] = do { pause; State_Monad.return False }"
| "wait_rounds proven (timed_out # rounds) = do {
     pause; found \<leftarrow> store_view proven;
     if found then State_Monad.return False
     else do {
       pause; found \<leftarrow> store_view proven;
       if found then State_Monad.return True
       else do {
         pause;
         if timed_out then State_Monad.return False else wait_rounds proven rounds
       }
     }
   }"

definition wait_for_held_delivery :: "string \<Rightarrow> string \<Rightarrow> int \<Rightarrow> string \<Rightarrow> bool send_task" where
  "wait_for_held_delivery sp ch seq eid = do {
     w \<leftarrow> State_Monad.get;
     early \<leftarrow> wait_rounds (head_stored sp ch seq eid) (sw_rounds w (sw_clock w));
     if early then State_Monad.return True
     else do {
       pause; found \<leftarrow> store_view (head_stored sp ch seq eid);
       if found then State_Monad.return True
       else do {
         caught_up \<leftarrow> (if sw_has_catchup w
                       then do { pause; pause; store_view (head_stored sp ch seq eid) }
                       else State_Monad.return False);
         if caught_up then State_Monad.return True
         else do {
           reject_query sp ch seq eid
             (''exact held watermark unavailable after WebSocket wait '' @ ''and signed pending catch-up'');
           State_Monad.return False
         }
       }
     }
   }"

text \<open>\<open>_project_rows\<close> and the proof of a head that is not among the rows.\<close>

definition project_row :: "int \<Rightarrow> string \<Rightarrow> string \<Rightarrow> message_row \<Rightarrow> held_row" where
  "project_row seq eid session m =
     \<lparr>hr_payload = Some m, hr_envelope_id = envelope_id m, hr_server_seq = server_seq m, hr_latest_seq = seq,
      hr_latest_envelope_id = eid, hr_provider_session_id = session\<rparr>"

definition proof_row :: "int \<Rightarrow> string \<Rightarrow> string \<Rightarrow> held_row" where
  "proof_row seq eid session =
     \<lparr>hr_payload = None, hr_envelope_id = eid, hr_server_seq = Some seq, hr_latest_seq = seq,
      hr_latest_envelope_id = eid, hr_provider_session_id = session\<rparr>"

definition with_proof :: "int \<Rightarrow> string \<Rightarrow> string \<Rightarrow> held_row list \<Rightarrow> held_row list" where
  "with_proof seq eid session rows =
     (if list_ex (\<lambda>r. hr_envelope_id r = eid \<and> hr_server_seq r = Some seq) rows then rows
      else rows @ [proof_row seq eid session])"

text \<open>\<open>_record_admission_evidence\<close>, on the staging object at the given address.\<close>

definition record_admission_evidence ::
  "string \<Rightarrow> string \<Rightarrow> int \<Rightarrow> string \<Rightarrow> string \<Rightarrow> message_row list \<Rightarrow> nat \<Rightarrow> send_coordinator \<Rightarrow> send_coordinator" where
  "record_admission_evidence sp ch seq eid session rows addr s =
     (let a = active (sc_rt s);
          shown = map envelope_id rows;
          evidence = \<lparr>ae_active_turn_id = act_turn_id a, ae_provider_session_id = session,
                      ae_provider_turn_id = or_empty (act_provider_turn_id a), ae_space_id = sp, ae_channel_id = ch,
                      ae_latest_seq = seq, ae_latest_envelope_id = eid, ae_displayed_ids = shown\<rparr>
      in s\<lparr>sc_admission_evidence :=
              dict_set (sc_admission_evidence s) (act_turn_id a, session, sp, ch, seq, eid) evidence,
            sc_staging := (if addr < length (sc_staging s)
                           then (sc_staging s)[addr := (sc_staging s ! addr)\<lparr>hs_message_ids := shown\<rparr>]
                           else sc_staging s)\<rparr>)"

definition query_held_messages ::
  "string \<Rightarrow> string \<Rightarrow> int \<Rightarrow> string \<Rightarrow> string option \<Rightarrow> held_row list send_task" where
  "query_held_messages sp ch seq eid session = do {
     a \<leftarrow> look (\<lambda>s. active (sc_rt s));
     if act_turn_id a = [] \<or> \<not> truthy session \<or> act_provider_session_id a \<noteq> session
     then do {
       reject_query sp ch seq eid ''stateful active provider session unavailable'';
       State_Monad.return []
     }
     else do {
       pause; found \<leftarrow> store_view (head_stored sp ch seq eid);
       if \<not> found
       then do { reject_query sp ch seq eid ''exact held watermark mismatch''; State_Monad.return [] }
       else do {
         addr \<leftarrow> look (\<lambda>s. length (sc_staging s));
         alter (stage sp ch (blank_staging\<lparr>hs_latest_seq := Some seq, hs_latest_envelope_id := Some eid,
                               hs_recovered_through_seq := Some seq, hs_synchronized := True\<rparr>));
         turn \<leftarrow> look (\<lambda>s. act_turn_id (active (sc_rt s)));
         pause; through \<leftarrow> store_view (get_model_visible_through_seq turn sp ch None);
         pause; rows \<leftarrow> store_view (get_held_reconsideration_rows sp ch (get_default through (- 1)) seq 51);
         if 50 < length rows
         then do {
           reject_query sp ch seq eid ''held context exceeds the bounded recovery limit'';
           State_Monad.return []
         }
         else do {
           alter (record_admission_evidence sp ch seq eid (or_empty session) rows addr);
           State_Monad.return (with_proof seq eid (or_empty session) (map (project_row seq eid (or_empty session)) rows))
         }
       }
     }
   }"

subsection \<open>Recovery\<close>

record HeldRecoveryAttempt =
  ra_session_id :: string
  ra_turn_id :: string
  ra_space_id :: string
  ra_channel_id :: string
  ra_latest_seq :: int
  ra_latest_envelope_id :: string
  ra_attempt_fingerprint :: string

definition ra_key :: "HeldRecoveryAttempt \<Rightarrow> held_key" where
  "ra_key a = (ra_session_id a, ra_turn_id a, ra_space_id a, ra_channel_id a)"

definition evidence_of :: "HeldRecoveryAttempt \<Rightarrow> HeldEvidence \<Rightarrow> bool" where
  "evidence_of a h \<longleftrightarrow> he_latest_seq h = ra_latest_seq a \<and> he_latest_envelope_id h = ra_latest_envelope_id a
     \<and> he_attempt_fingerprint h = ra_attempt_fingerprint a"

definition held_evidence_matches :: "HeldRecoveryAttempt \<Rightarrow> send_coordinator \<Rightarrow> bool" where
  "held_evidence_matches a s =
     (case map_of (sc_held_evidence s) (ra_key a) of None \<Rightarrow> False | Some h \<Rightarrow> evidence_of a h)"

definition begin_held_recovery ::
  "string \<Rightarrow> string \<Rightarrow> int option \<Rightarrow> string option \<Rightarrow> string \<Rightarrow> send_coordinator \<Rightarrow> HeldRecoveryAttempt option" where
  "begin_held_recovery sp ch seq eid fingerprint s =
     (case seq of
        None \<Rightarrow> None
      | Some q \<Rightarrow>
          let i = turn_identity s;
              a = \<lparr>ra_session_id = fst i, ra_turn_id = snd i, ra_space_id = sp, ra_channel_id = ch,
                   ra_latest_seq = q, ra_latest_envelope_id = or_empty eid, ra_attempt_fingerprint = fingerprint\<rparr>
          in if \<not> truthy eid \<or> fst i = [] \<or> snd i = [] \<or> \<not> held_evidence_matches a s then None else Some a)"

text \<open>\<open>_query_held_recovery_rows\<close>.\<close>

definition query_held_recovery_rows :: "HeldRecoveryAttempt \<Rightarrow> held_row list option send_task" where
  "query_held_recovery_rows a = do {
     session \<leftarrow> look sc_provider_session_id;
     if session = None then State_Monad.return None
     else do {
       rows \<leftarrow> query_held_messages (ra_space_id a) (ra_channel_id a) (ra_latest_seq a) (ra_latest_envelope_id a) session;
       State_Monad.return (Some rows)
     }
   }"

definition held_rows_are_synchronized :: "held_row list \<Rightarrow> HeldRecoveryAttempt \<Rightarrow> bool" where
  "held_rows_are_synchronized rows a =
     list_ex (\<lambda>r. hr_envelope_id r = ra_latest_envelope_id a \<and> hr_server_seq r = Some (ra_latest_seq a)
        \<and> hr_latest_seq r = ra_latest_seq a \<and> hr_latest_envelope_id r = ra_latest_envelope_id a
        \<and> hr_provider_session_id r = ra_session_id a) rows"

definition mark_synchronized :: "held_row list \<Rightarrow> HeldEvidence \<Rightarrow> HeldEvidence" where
  "mark_synchronized rows h =
     (let shown = filter (\<lambda>r. hr_payload r \<noteq> None) rows
      in h\<lparr>he_synchronized := True, he_recovered_messages := shown,
          he_diagnostic := (if shown = [] then ''freshness synchronized; no new model-visible channel messages''
                            else he_diagnostic h)\<rparr>)"

text \<open>\<open>_commit_held_recovery\<close>: a compare-and-set under the lock.\<close>

definition mark_evidence :: "HeldRecoveryAttempt \<Rightarrow> held_row list \<Rightarrow> send_coordinator \<Rightarrow> send_coordinator" where
  "mark_evidence a rows s = s\<lparr>sc_held_evidence := map (\<lambda>kv. if fst kv = ra_key a
      then (fst kv, mark_synchronized rows (snd kv)) else kv) (sc_held_evidence s)\<rparr>"

definition commit_held_recovery :: "HeldRecoveryAttempt \<Rightarrow> held_row list \<Rightarrow> bool send_task" where
  "commit_held_recovery a rows = do {
     ok \<leftarrow> look (held_evidence_matches a);
     if ok then do { alter (mark_evidence a rows); State_Monad.return True } else State_Monad.return False
   }"

definition recover_held ::
  "string \<Rightarrow> string \<Rightarrow> int option \<Rightarrow> string option \<Rightarrow> string \<Rightarrow> bool send_task" where
  "recover_held sp ch seq eid fingerprint = do {
     attempt \<leftarrow> look (begin_held_recovery sp ch seq eid fingerprint);
     case attempt of
       None \<Rightarrow> State_Monad.return False
     | Some a \<Rightarrow> do {
         waited \<leftarrow> wait_for_held_delivery sp ch (ra_latest_seq a) (ra_latest_envelope_id a);
         matches \<leftarrow> look (held_evidence_matches a);
         if \<not> waited \<or> \<not> matches then State_Monad.return False
         else do {
           found \<leftarrow> query_held_recovery_rows a;
           case found of
             None \<Rightarrow> State_Monad.return False
           | Some rows \<Rightarrow> do {
               i \<leftarrow> look turn_identity;
               if held_rows_are_synchronized rows a \<and> i = (ra_session_id a, ra_turn_id a)
               then commit_held_recovery a rows
               else State_Monad.return False
             }
         }
       }
   }"

subsection \<open>Reconsideration\<close>

record ReconsiderationDecision =
  rd_eligible :: bool
  rd_reason :: string
  rd_provider_session_id :: string
  rd_turn_id :: string
  rd_latest_seq :: "int option"
  rd_latest_envelope_id :: "string option"
  rd_admitted_seq :: "int option"

definition refuse_early :: "string \<Rightarrow> string \<times> string \<Rightarrow> ReconsiderationDecision" where
  "refuse_early reason i = \<lparr>rd_eligible = False, rd_reason = reason, rd_provider_session_id = fst i,
     rd_turn_id = snd i, rd_latest_seq = None, rd_latest_envelope_id = None, rd_admitted_seq = None\<rparr>"

definition normalize_admitted :: "int option \<Rightarrow> int option" where
  "normalize_admitted v = (case v of None \<Rightarrow> None | Some n \<Rightarrow> if n < 0 then None else Some n)"

definition admission_verdict ::
  "string \<times> string \<Rightarrow> bool \<Rightarrow> int \<times> string \<Rightarrow> int \<times> string \<Rightarrow> int option \<Rightarrow> send_coordinator \<Rightarrow> ReconsiderationDecision" where
  "admission_verdict i synchronized current held admitted s =
     (let verdict = (\<lambda>ok reason adm. \<lparr>rd_eligible = ok, rd_reason = reason, rd_provider_session_id = fst i,
            rd_turn_id = snd i, rd_latest_seq = Some (fst current), rd_latest_envelope_id = Some (snd current),
            rd_admitted_seq = adm\<rparr>)
      in if \<not> synchronized
         then verdict False (if current \<noteq> held then ''held_boundary_superseded'' else ''held_not_synchronized'') admitted
         else case admitted of
           None \<Rightarrow> verdict False ''admission_unavailable'' None
         | Some n \<Rightarrow>
             if n < fst current then verdict False ''admission_before_held'' admitted
             else if turn_identity s \<noteq> i then verdict False ''active_identity_changed'' admitted
             else verdict True ''synchronized_and_admitted'' admitted)"

text \<open>\<open>_active_boundary\<close>: one call of the boundary adapter.\<close>

definition active_boundary :: "string \<Rightarrow> string \<Rightarrow> int option send_task" where
  "active_boundary sp ch = do { pause; look (\<lambda>s. get_active_turn_through_seq sp ch (sc_rt s)) }"

definition reconsideration_decision ::
  "string \<Rightarrow> string \<Rightarrow> string \<Rightarrow> string \<Rightarrow> ReconsiderationDecision send_task" where
  "reconsideration_decision sp ch fingerprint cdigest = do {
     i \<leftarrow> look turn_identity;
     if fst i = [] \<or> snd i = [] then State_Monad.return (refuse_early ''missing_active_identity'' i)
     else do {
       (held, held_fp, held_digest, synchronized) \<leftarrow> look (held_snapshot (fst i, snd i, sp, ch));
       case held of
         None \<Rightarrow> State_Monad.return (refuse_early ''missing_held_evidence'' i)
       | Some pair \<Rightarrow>
           if held_draft_reason held_fp held_digest fingerprint cdigest \<noteq> []
           then State_Monad.return (refuse_early (held_draft_reason held_fp held_digest fingerprint cdigest) i)
           else do {
             (if synchronized then State_Monad.return False
              else recover_held sp ch (Some (fst pair)) (Some (snd pair)) fingerprint);
             (current, current_fp, current_digest, now_synchronized) \<leftarrow> look (held_snapshot (fst i, snd i, sp, ch));
             case current of
               None \<Rightarrow> State_Monad.return (refuse_early ''missing_held_evidence'' i)
             | Some cur \<Rightarrow>
                 if held_draft_reason current_fp current_digest fingerprint cdigest \<noteq> []
                 then State_Monad.return (refuse_early (held_draft_reason current_fp current_digest fingerprint cdigest) i)
                 else do {
                   admitted \<leftarrow> active_boundary sp ch;
                   look (admission_verdict i now_synchronized cur pair (normalize_admitted admitted))
                 }
           }
     }
   }"

end
