(* ===== verification/Send_Held_Props.thy ===== *)
theory Send_Held_Props
  imports Send_Held Message_Evolution
begin

section \<open>Properties of held sends\<close>

text \<open>
  What a task may rely on and what it guarantees while other tasks run at its awaits: the record of a
  held draft is only marked synchronized for a head that the store holds, and an override is only
  granted for the draft that was held, in the turn it was held in, once that turn has seen the head.
\<close>

subsection \<open>Running a task\<close>

definition wp :: "('w, 'a) state \<Rightarrow> ('a \<Rightarrow> 'w \<Rightarrow> bool) \<Rightarrow> 'w \<Rightarrow> bool" where
  "wp m Q w = (case run_state m w of (a, w') \<Rightarrow> Q a w')"

lemma wp_bind [simp]: "wp (m \<bind> f) Q = wp m (\<lambda>a. wp (f a) Q)"
  by (auto simp: wp_def fun_eq_iff split: prod.split)

lemma wp_return [simp]: "wp (State_Monad.return a) Q w = Q a w"
  by (simp add: wp_def)

lemma wp_get [simp]: "wp State_Monad.get Q w = Q w w"
  by (simp add: wp_def)

lemma wp_look [simp]: "wp (look f) Q w = Q (f (sw_state w)) w"
  by (simp add: wp_def look_def)

lemma wp_store_view [simp]: "wp (store_view f) Q w = Q (f (rt_db (sc_rt (sw_state w)))) w"
  by (simp add: store_view_def)

lemma wp_conseq: "wp m P w \<Longrightarrow> (\<And>a w'. P a w' \<Longrightarrow> Q a w') \<Longrightarrow> wp m Q w"
  by (auto simp: wp_def split: prod.splits)

lemma wp_conj: "wp m P w \<Longrightarrow> wp m Q w \<Longrightarrow> wp m (\<lambda>a w'. P a w' \<and> Q a w') w"
  by (auto simp: wp_def split: prod.splits)

lemma wp_run: "wp m Q w \<Longrightarrow> run_state m w = (a, w') \<Longrightarrow> Q a w'"
  by (simp add: wp_def)

definition paused :: "send_world \<Rightarrow> send_world" where
  "paused w = snd (run_state pause w)"

definition altered :: "(send_coordinator \<Rightarrow> send_coordinator) \<Rightarrow> send_world \<Rightarrow> send_world" where
  "altered f w = snd (run_state (alter f) w)"

lemma wp_pause [simp]: "wp pause Q w = Q () (paused w)"
  by (simp add: wp_def paused_def split: prod.split)

lemma wp_alter [simp]: "wp (alter f) Q w = Q () (altered f w)"
  by (simp add: wp_def altered_def split: prod.split)

lemma paused_simps [simp]:
  "sw_state (paused w) = sw_others w (sw_clock w) (sw_state w)" "sw_others (paused w) = sw_others w"
  "sw_trace (paused w) = sw_trace w @ [sw_others w (sw_clock w) (sw_state w)]"
  by (simp_all add: paused_def pause_def Let_def)

lemma altered_simps [simp]:
  "sw_state (altered f w) = f (sw_state w)" "sw_others (altered f w) = sw_others w"
  "sw_trace (altered f w) = sw_trace w @ [f (sw_state w)]"
  by (simp_all add: altered_def alter_def Let_def)

subsection \<open>Guarantees\<close>

text \<open>A relation between the worlds before and after a task that every await and every write of the
  recovery source respects holds across the source's operations. \<open>io_intros\<close> takes a task apart.\<close>

named_theorems io_intros \<open>tasks that respect a relation\<close>

lemma io_cases [io_intros]:
  "state_io_rel R m \<Longrightarrow> state_io_rel R m' \<Longrightarrow> state_io_rel R (if c then m else m')"
  "state_io_rel R m \<Longrightarrow> (\<And>x. state_io_rel R (f x)) \<Longrightarrow> state_io_rel R (case v of None \<Rightarrow> m | Some x \<Rightarrow> f x)"
  "(\<And>x. state_io_rel R (g x)) \<Longrightarrow> (\<And>x. state_io_rel R (h x)) \<Longrightarrow>
     state_io_rel R (case u of Inl x \<Rightarrow> g x | Inr x \<Rightarrow> h x)"
  "(\<And>x y. state_io_rel R (k x y)) \<Longrightarrow> state_io_rel R (case p of (x, y) \<Rightarrow> k x y)"
  by (auto split: option.split sum.split prod.split)

lemma wp_io: "state_io_rel R m \<Longrightarrow> wp m (\<lambda>_. R w) w"
  by (auto simp: wp_def state_io_rel_def split: prod.split) (metis snd_conv)

locale task_guarantee =
  fixes R :: "send_world \<Rightarrow> send_world \<Rightarrow> bool"
  assumes R_refl: "R w w"
    and R_trans: "R w w' \<Longrightarrow> R w' w'' \<Longrightarrow> R w w''"
    and R_pause: "R w (paused w)"
    and R_stage: "R w (altered (stage sp ch st) w)"
    and R_admission: "R w (altered (record_admission_evidence sp ch seq eid session rows addr) w)"
begin

lemma io_bind: "state_io_rel R m \<Longrightarrow> (\<And>a. state_io_rel R (f a)) \<Longrightarrow> state_io_rel R (m \<bind> f)"
  by (auto simp: state_io_rel_def split: prod.split) (metis R_trans snd_conv)

lemma io_basic:
  "state_io_rel R (State_Monad.return a)" "state_io_rel R State_Monad.get" "state_io_rel R (look f)"
  "state_io_rel R (store_view g)" "state_io_rel R pause"
  using R_pause by (simp_all add: state_io_rel_def R_refl look_def store_view_def paused_def)

lemma io_source:
  "state_io_rel R (alter (stage sp ch st))"
  "state_io_rel R (alter (record_admission_evidence sp ch seq eid session rows addr))"
  using R_stage R_admission by (simp_all add: state_io_rel_def altered_def)

lemmas io_tasks = io_intros io_bind io_basic io_source

lemma wait_rounds_io: "state_io_rel R (wait_rounds proven rounds)"
  by (induction rounds) (auto intro!: io_tasks)

lemma reject_query_io: "state_io_rel R (reject_query sp ch seq eid msg)"
  unfolding reject_query_def by (rule io_source)

lemma wait_for_held_delivery_io: "state_io_rel R (wait_for_held_delivery sp ch seq eid)"
  unfolding wait_for_held_delivery_def by (intro io_tasks wait_rounds_io reject_query_io)

lemma query_held_messages_io: "state_io_rel R (query_held_messages sp ch seq eid session)"
  unfolding query_held_messages_def by (intro io_tasks reject_query_io)

lemma query_held_recovery_rows_io: "state_io_rel R (query_held_recovery_rows a)"
  unfolding query_held_recovery_rows_def by (intro io_tasks query_held_messages_io)

lemma wp_R: "state_io_rel R m \<Longrightarrow> R w0 w \<Longrightarrow> wp m (\<lambda>_. R w0) w"
  by (erule wp_conseq [OF wp_io]) (erule (1) R_trans)

lemmas wait_for_held_delivery_R = wp_R [OF wait_for_held_delivery_io]
lemmas query_held_recovery_rows_R = wp_R [OF query_held_recovery_rows_io]

end

subsection \<open>The states a task has met\<close>

definition traced :: "send_world \<Rightarrow> send_world \<Rightarrow> bool" where
  "traced w w' \<longleftrightarrow> sw_others w' = sw_others w \<and>
     (\<exists>states. sw_trace w' = sw_trace w @ states \<and> sw_state w' = last (sw_state w # states))"

lemma traced_refl: "traced w w"
  unfolding traced_def by (intro conjI refl exI [of _ "[]"]) simp_all

lemma traced_trans:
  assumes "traced w w'" "traced w' w''"
  shows "traced w w''"
proof -
  from assms obtain xs ys where "sw_trace w' = sw_trace w @ xs" "sw_state w' = last (sw_state w # xs)"
      "sw_trace w'' = sw_trace w' @ ys" "sw_state w'' = last (sw_state w' # ys)"
    unfolding traced_def by blast
  then show ?thesis using assms unfolding traced_def by (intro conjI exI [of _ "xs @ ys"]) simp_all
qed

lemma traced_paused: "traced w (paused w)"
  unfolding traced_def
  by (intro conjI exI [of _ "[sw_others w (sw_clock w) (sw_state w)]"]) simp_all

lemma traced_altered: "traced w (altered f w)"
  unfolding traced_def by (intro conjI exI [of _ "[f (sw_state w)]"]) simp_all

interpretation traced: task_guarantee traced
  by unfold_locales (rule traced_refl traced_paused traced_altered | erule (1) traced_trans)+

text \<open>A rule for recovery: an assertion that the wait establishes and that yields the postcondition,
  also after a commit of the rows that the query returned.\<close>

lemma recover_held_rule:
  assumes wait: "\<And>a :: HeldRecoveryAttempt. wp (wait_for_held_delivery sp ch (ra_latest_seq a) (ra_latest_envelope_id a)) (\<lambda>_. I) w"
    and stop: "\<And>w'. I w' \<Longrightarrow> Q False w'" and "I w"
    and query: "\<And>a w1. I w1 \<Longrightarrow> wp (query_held_recovery_rows a) (\<lambda>found w2. I w2 \<and>
      (\<forall>rows. found = Some rows \<and> held_rows_are_synchronized rows a \<and> held_evidence_matches a (sw_state w2) \<longrightarrow>
         Q True (altered (mark_evidence a rows) w2))) w1"
  shows "wp (recover_held sp ch seq eid fp) Q w"
proof -
  have tail: "wp (do { found \<leftarrow> query_held_recovery_rows a;
      case found of None \<Rightarrow> State_Monad.return False
      | Some rows \<Rightarrow> do { i \<leftarrow> look turn_identity;
          if held_rows_are_synchronized rows a \<and> i = (ra_session_id a, ra_turn_id a)
          then commit_held_recovery a rows else State_Monad.return False } }) Q w1"
    if "I w1" for a w1
    unfolding wp_bind
    by (rule wp_conseq [OF query [OF that]]) (auto simp: commit_held_recovery_def stop split: option.split)
  show ?thesis
  proof (cases "begin_held_recovery sp ch seq eid fp (sw_state w)")
    case None
    with \<open>I w\<close> stop show ?thesis by (simp add: recover_held_def)
  next
    case (Some a)
    have "wp (wait_for_held_delivery sp ch (ra_latest_seq a) (ra_latest_envelope_id a))
        (\<lambda>waited. wp (do { matches \<leftarrow> look (held_evidence_matches a);
           if \<not> waited \<or> \<not> matches then State_Monad.return False
           else do { found \<leftarrow> query_held_recovery_rows a;
             case found of None \<Rightarrow> State_Monad.return False
             | Some rows \<Rightarrow> do { i \<leftarrow> look turn_identity;
                 if held_rows_are_synchronized rows a \<and> i = (ra_session_id a, ra_turn_id a)
                 then commit_held_recovery a rows else State_Monad.return False } } }) Q) w"
      by (rule wp_conseq [OF wait]) (use tail stop in simp)
    with Some show ?thesis by (simp add: recover_held_def)
  qed
qed

lemma recover_held_traced: "wp (recover_held sp ch seq eid fp) (\<lambda>_. traced w) w"
  by (rule recover_held_rule [where I = "traced w"], rule traced.wait_for_held_delivery_R, rule traced_refl, assumption, rule traced_refl,
      rule wp_conseq [OF traced.query_held_recovery_rows_R], assumption)
    (blast intro: traced_trans traced_altered)

subsection \<open>Overrides are earned\<close>

definition allows :: "string \<Rightarrow> string \<Rightarrow> string \<Rightarrow> HeldEvidence \<Rightarrow> bool" where
  "allows fp dg eid h \<longleftrightarrow> he_synchronized h \<and> he_attempt_fingerprint h = fp \<and> he_latest_envelope_id h = eid
     \<and> he_content_digest h \<in> {[], dg}"

lemma verdict_eligible:
  "rd_eligible (admission_verdict i ok cur held adm s) \<longleftrightarrow>
     ok \<and> (\<exists>n. adm = Some n \<and> fst cur \<le> n) \<and> turn_identity s = i"
  by (auto simp: admission_verdict_def Let_def split: option.split)

lemma verdict_fields:
  "rd_provider_session_id (admission_verdict i ok cur held adm s) = fst i"
  "rd_turn_id (admission_verdict i ok cur held adm s) = snd i"
  "rd_eligible (admission_verdict i ok cur held adm s) \<Longrightarrow>
     rd_latest_seq (admission_verdict i ok cur held adm s) = Some (fst cur) \<and>
     rd_latest_envelope_id (admission_verdict i ok cur held adm s) = Some (snd cur) \<and>
     rd_admitted_seq (admission_verdict i ok cur held adm s) = adm"
  by (auto simp: admission_verdict_def Let_def split: option.splits)

lemma draft_reason_Nil: "held_draft_reason hf hdg fp dg = [] \<longleftrightarrow> hf = fp \<and> hdg \<in> {[], dg}"
  by (auto simp: held_draft_reason_def)

lemma normalize_admitted_Some: "normalize_admitted v = Some n \<longleftrightarrow> v = Some n \<and> 0 \<le> n"
  by (auto simp: normalize_admitted_def split: option.splits)

lemma refuse_early_not [simp]: "\<not> rd_eligible (refuse_early r i)"
  by (simp add: refuse_early_def)

definition earned :: "string \<Rightarrow> string \<Rightarrow> string \<Rightarrow> string \<Rightarrow> send_world \<Rightarrow> ReconsiderationDecision \<Rightarrow> send_world \<Rightarrow> bool" where
  "earned sp ch fp dg w d w' \<longleftrightarrow>
     (\<exists>session turn s h n.
        turn_identity (sw_state w') = (session, turn) \<and> session \<noteq> [] \<and> turn \<noteq> []
        \<and> s \<in> insert (sw_state w) (set (sw_trace w'))
        \<and> map_of (sc_held_evidence s) (session, turn, sp, ch) = Some h
        \<and> allows fp dg (the (rd_latest_envelope_id d)) h
        \<and> rd_latest_seq d = Some (he_latest_seq h)
        \<and> rd_admitted_seq d = Some n \<and> he_latest_seq h \<le> n
        \<and> get_active_turn_through_seq sp ch (sc_rt (sw_state w')) = Some n)"

text \<open>The second half of the decision, from the record found after recovery.\<close>

lemma verdict_earned:
  assumes "map_of (sc_held_evidence (sw_state w1)) (fst i, snd i, sp, ch) = Some h"
    and "fst i \<noteq> []" "snd i \<noteq> []" "held_draft_reason (he_attempt_fingerprint h) (he_content_digest h) fp dg = []"
    and "sw_state w1 \<in> insert (sw_state w) (set (sw_trace w1))"
    and d: "d = admission_verdict i (he_synchronized h) (he_latest_seq h, he_latest_envelope_id h) held
       (normalize_admitted (get_active_turn_through_seq sp ch (sc_rt (sw_state (paused w1))))) (sw_state (paused w1))"
    and "rd_eligible d"
  shows "earned sp ch fp dg w d (paused w1)"
proof -
  from assms obtain n where n: "get_active_turn_through_seq sp ch (sc_rt (sw_state (paused w1))) = Some n"
      "0 \<le> n" "he_latest_seq h \<le> n" and h: "he_synchronized h" and i: "turn_identity (sw_state (paused w1)) = i"
    by (auto simp: verdict_eligible normalize_admitted_Some)
  from \<open>rd_eligible d\<close> d n have f: "rd_latest_seq d = Some (he_latest_seq h)"
      "rd_latest_envelope_id d = Some (he_latest_envelope_id h)" "rd_admitted_seq d = Some n"
    using verdict_fields(3) [of i "he_synchronized h" "(he_latest_seq h, he_latest_envelope_id h)" held
        "normalize_admitted (get_active_turn_through_seq sp ch (sc_rt (sw_state (paused w1))))" "sw_state (paused w1)"]
    by (auto simp: normalize_admitted_def)
  show ?thesis unfolding earned_def
    by (rule exI [of _ "fst i"], rule exI [of _ "snd i"], rule exI [of _ "sw_state w1"], rule exI [of _ h],
        rule exI [of _ n])
      (use assms n h i f in \<open>auto simp: allows_def draft_reason_Nil\<close>)
qed

text \<open>A rule for the decision: every early exit refuses, the rest is the verdict on the record found
  after recovery.\<close>

lemma decision_rule:
  assumes "I w"
    and recover: "\<And>q e. wp (recover_held sp ch (Some q) (Some e) fp) (\<lambda>_. I) w"
    and refuse: "\<And>r i w'. I w' \<Longrightarrow> Q (refuse_early r i) w'"
    and verdict: "\<And>w1 h pair i. I w1 \<Longrightarrow> i = turn_identity (sw_state w) \<Longrightarrow> fst i \<noteq> [] \<Longrightarrow> snd i \<noteq> [] \<Longrightarrow>
      map_of (sc_held_evidence (sw_state w1)) (fst i, snd i, sp, ch) = Some h \<Longrightarrow>
      held_draft_reason (he_attempt_fingerprint h) (he_content_digest h) fp dg = [] \<Longrightarrow>
      Q (admission_verdict i (he_synchronized h) (he_latest_seq h, he_latest_envelope_id h) pair
           (normalize_admitted (get_active_turn_through_seq sp ch (sc_rt (sw_state (paused w1)))))
           (sw_state (paused w1))) (paused w1)"
  shows "wp (reconsideration_decision sp ch fp dg) Q w"
proof -
  let ?i = "turn_identity (sw_state w)"
  have rest: "wp (do {
      (current, cfp, cdg, ok) \<leftarrow> look (held_snapshot (fst ?i, snd ?i, sp, ch));
      case current of None \<Rightarrow> State_Monad.return (refuse_early ''missing_held_evidence'' ?i)
      | Some cur \<Rightarrow>
          if held_draft_reason cfp cdg fp dg \<noteq> [] then State_Monad.return (refuse_early (held_draft_reason cfp cdg fp dg) ?i)
          else do { admitted \<leftarrow> active_boundary sp ch;
                    look (admission_verdict ?i ok cur pair (normalize_admitted admitted)) } }) Q w1"
    if "I w1" "fst ?i \<noteq> []" "snd ?i \<noteq> []" for w1 pair
    using verdict [OF that(1) refl that(2,3)]
    by (simp add: held_snapshot_def active_boundary_def refuse [OF that(1)] split: option.split)
  show ?thesis
    unfolding reconsideration_decision_def
    using rest [OF \<open>I w\<close>] \<open>I w\<close>
    by (auto simp: held_snapshot_def refuse split: option.split intro!: wp_conseq [OF recover] dest: rest)
qed

lemma traced_met: "traced w w1 \<Longrightarrow> sw_state w1 \<in> insert (sw_state w) (set (sw_trace w1))"
  by (auto simp: traced_def split: if_splits)

text \<open>A draft held at sequence 9 of a channel whose head has arrived; the turn has seen it.\<close>

definition head_row :: message_row where
  "head_row = (eligible_row ''e9'' 9)\<lparr>space_id := Some ''sp'', channel_id := Some ''ch'', envelope_kind := ''channel''\<rparr>"

definition held_coordinator :: send_coordinator where
  "held_coordinator =
     \<lparr>sc_rt = \<lparr>rt_db = empty_db\<lparr>messages := [head_row]\<rparr>,
               active = cleared_union\<lparr>act_turn_id := ''t1'', act_provider_session_id := Some ''s1'',
                          act_through_by_channel := [((''sp'', ''ch''), 9)]\<rparr>\<rparr>,
      sc_provider_session_id = Some ''s1'',
      sc_held_evidence = [((''s1'', ''t1'', ''sp'', ''ch''),
        (new_evidence 9 ''e9'' ''fp'' ''hi'' 8 [] [] ''d1'')\<lparr>he_synchronized := True\<rparr>)],
      sc_held_generation = 0, sc_staging = [], sc_held = [], sc_admission_evidence = []\<rparr>"

definition held_world :: send_world where
  "held_world = \<lparr>sw_state = held_coordinator, sw_others = (\<lambda>n s. s), sw_clock = 0, sw_trace = [],
     sw_rounds = (\<lambda>n. [False]), sw_has_catchup = False,
     sw_replies = (\<lambda>n. ConnectionLost []), sw_posts = [], sw_advances = []\<rparr>"

lemma held_world_eligible:
  "rd_eligible (fst (run_state (reconsideration_decision ''sp'' ''ch'' ''fp'' ''d1'') held_world))"
  by code_simp

lemma decision_earned:
  "wp (reconsideration_decision sp ch fp dg) (\<lambda>d w'. rd_eligible d \<longrightarrow> earned sp ch fp dg w d w') w"
proof (rule decision_rule [where I = "traced w"])
  fix w1 h pair i
  assume "traced w w1" "fst i \<noteq> []" "snd i \<noteq> []"
    "map_of (sc_held_evidence (sw_state w1)) (fst i, snd i, sp, ch) = Some h"
    "held_draft_reason (he_attempt_fingerprint h) (he_content_digest h) fp dg = []"
  then show "rd_eligible (admission_verdict i (he_synchronized h) (he_latest_seq h, he_latest_envelope_id h) pair
         (normalize_admitted (get_active_turn_through_seq sp ch (sc_rt (sw_state (paused w1)))))
         (sw_state (paused w1))) \<longrightarrow>
     earned sp ch fp dg w (admission_verdict i (he_synchronized h) (he_latest_seq h, he_latest_envelope_id h) pair
         (normalize_admitted (get_active_turn_through_seq sp ch (sc_rt (sw_state (paused w1)))))
         (sw_state (paused w1))) (paused w1)"
    using verdict_earned traced_met by blast
qed (simp_all add: traced_refl recover_held_traced)

text \<open>
  C7. Whatever the other tasks do at its awaits, the decision on a send_anyway is positive only when a
  record of exactly this draft, with these attachment bytes, was found held and synchronized for the
  turn and session that are still in charge when the decision is made, and the sequence that this
  turn has provably seen in the channel has reached the head the draft was held at.
\<close>

theorem override_is_earned:
  assumes "run_state (reconsideration_decision sp ch fp dg) w = (d, w')" and "rd_eligible d"
  shows "earned sp ch fp dg w d w'"
  using wp_run [OF decision_earned assms(1)] assms(2) by blast

theorem override_is_earned_witness:
  "earned ''sp'' ''ch'' ''fp'' ''d1'' held_world
     (fst (run_state (reconsideration_decision ''sp'' ''ch'' ''fp'' ''d1'') held_world))
     (snd (run_state (reconsideration_decision ''sp'' ''ch'' ''fp'' ''d1'') held_world))"
  by (rule override_is_earned [OF _ held_world_eligible]) simp

subsection \<open>Synchronized heads are stored\<close>

definition head_durable :: "int \<Rightarrow> string \<Rightarrow> send_coordinator \<Rightarrow> bool" where
  "head_durable q e s \<longleftrightarrow> (\<exists>m. get_message_by_envelope e (rt_db (sc_rt s)) = Some m \<and> server_seq m = Some q)"

definition evidence_ok :: "send_coordinator \<Rightarrow> (held_key \<times> HeldEvidence) list \<Rightarrow> bool" where
  "evidence_ok s evidence \<longleftrightarrow> distinct (map fst evidence) \<and> (\<forall>kv\<in>set evidence.
     he_synchronized (snd kv) \<longrightarrow> head_durable (he_latest_seq (snd kv)) (he_latest_envelope_id (snd kv)) s)"

text \<open>The invariant: one record per key, never more than the cap, and a synchronized record names a
  head that the store holds.\<close>

definition held_inv :: "send_coordinator \<Rightarrow> bool" where
  "held_inv s \<longleftrightarrow> length (sc_held_evidence s) \<le> MAX_HELD_RECORDS \<and> evidence_ok s (sc_held_evidence s)"

definition heads_kept :: "send_coordinator \<Rightarrow> send_coordinator \<Rightarrow> bool" where
  "heads_kept s s' \<longleftrightarrow> (\<forall>q e. head_durable q e s \<longrightarrow> head_durable q e s')"

definition keeps_proofs :: "send_coordinator \<Rightarrow> send_coordinator \<Rightarrow> bool" where
  "keeps_proofs s s' \<longleftrightarrow> heads_kept s s' \<and> (held_inv s \<longrightarrow> held_inv s')"

definition proved :: "send_world \<Rightarrow> send_world \<Rightarrow> bool" where
  "proved w w' \<longleftrightarrow> sw_others w' = sw_others w \<and>
     ((\<forall>n s. keeps_proofs s (sw_others w n s)) \<longrightarrow> keeps_proofs (sw_state w) (sw_state w'))"

lemma keeps_proofs_refl [simp]: "keeps_proofs s s"
  by (simp add: keeps_proofs_def heads_kept_def)

lemma keeps_proofs_trans: "keeps_proofs s s' \<Longrightarrow> keeps_proofs s' s'' \<Longrightarrow> keeps_proofs s s''"
  by (simp add: keeps_proofs_def heads_kept_def)

lemma head_durable_same_db:
  "rt_db (sc_rt s') = rt_db (sc_rt s) \<Longrightarrow> head_durable q e s' = head_durable q e s"
  by (simp add: head_durable_def)

lemma evidence_ok_same_db:
  "rt_db (sc_rt s') = rt_db (sc_rt s) \<Longrightarrow> evidence_ok s' ev = evidence_ok s ev"
  by (simp add: evidence_ok_def head_durable_def)

lemma keeps_proofs_frame:
  assumes "rt_db (sc_rt s') = rt_db (sc_rt s)" "sc_held_evidence s' = sc_held_evidence s"
  shows "keeps_proofs s s'"
  using assms by (simp add: keeps_proofs_def heads_kept_def held_inv_def evidence_ok_def head_durable_def)

lemma stage_keeps: "keeps_proofs s (stage sp ch st s)"
  by (rule keeps_proofs_frame) (simp_all add: stage_def)

lemma admission_keeps: "keeps_proofs s (record_admission_evidence sp ch seq eid session rows addr s)"
  by (rule keeps_proofs_frame) (simp_all add: record_admission_evidence_def Let_def)

interpretation proved: task_guarantee proved
proof
  show "proved w w''" if "proved w w'" "proved w' w''" for w w' w''
    using that keeps_proofs_trans unfolding proved_def by metis
qed (simp_all add: proved_def stage_keeps admission_keeps)

lemma head_stored_durable: "head_stored sp ch q e (rt_db (sc_rt s)) \<Longrightarrow> head_durable q e s"
  by (auto simp: head_stored_def head_durable_def split: option.splits)

lemma query_durable:
  assumes "\<forall>n s. keeps_proofs s (sw_others w n s)"
  shows "wp (query_held_messages sp ch q e session) (\<lambda>rows w'. rows \<noteq> [] \<longrightarrow> head_durable q e (sw_state w')) w"
proof -
  have k: "head_durable q e (sw_others w n s)" if "head_durable q e s" for n s
    using assms that unfolding keeps_proofs_def heads_kept_def by blast
  have a: "head_durable q e (stage sp ch st s) = head_durable q e s" for st s
    by (rule head_durable_same_db) (simp add: stage_def)
  have b: "head_durable q e (record_admission_evidence sp ch q e se rows addr s) = head_durable q e s" for se rows addr s
    by (rule head_durable_same_db) (simp add: record_admission_evidence_def Let_def)
  show ?thesis
    unfolding query_held_messages_def
    by (simp add: reject_query_def a b k Let_def) (auto intro!: k simp: a dest: head_stored_durable)
qed

lemma mark_keeps:
  assumes "held_evidence_matches a s" "head_durable (ra_latest_seq a) (ra_latest_envelope_id a) s"
  shows "keeps_proofs s (mark_evidence a rows s)"
proof -
  have db: "head_durable q e (mark_evidence a rows s) = head_durable q e s" for q e
    by (rule head_durable_same_db) (simp add: mark_evidence_def)
  have keys: "map fst (sc_held_evidence (mark_evidence a rows s)) = map fst (sc_held_evidence s)"
    by (simp add: mark_evidence_def)
  have "he_latest_seq h = ra_latest_seq a \<and> he_latest_envelope_id h = ra_latest_envelope_id a"
    if "distinct (map fst (sc_held_evidence s))" "(ra_key a, h) \<in> set (sc_held_evidence s)" for h
    using assms that by (auto simp: held_evidence_matches_def evidence_of_def split: option.splits)
  then have "evidence_ok s (sc_held_evidence (mark_evidence a rows s))" if "evidence_ok s (sc_held_evidence s)"
    using assms(2) that unfolding evidence_ok_def keys by (auto simp: mark_evidence_def mark_synchronized_def Let_def)
  moreover have "length (sc_held_evidence (mark_evidence a rows s)) = length (sc_held_evidence s)"
    by (simp add: mark_evidence_def)
  moreover have "evidence_ok (mark_evidence a rows s) ev = evidence_ok s ev" for ev
    by (rule evidence_ok_same_db) (simp add: mark_evidence_def)
  ultimately show ?thesis by (simp add: keeps_proofs_def heads_kept_def held_inv_def db)
qed

lemma evidence_ok_sublist:
  "evidence_ok s ev \<Longrightarrow> evidence_ok s (filter P ev)" "evidence_ok s ev \<Longrightarrow> evidence_ok s (drop n ev)"
  by (simp_all add: evidence_ok_def distinct_map_filter drop_map [symmetric] distinct_drop)
    (meson in_set_dropD)

lemma prune_inv: "evidence_ok s (sc_held_evidence s) \<Longrightarrow> held_inv (prune_stale_held s)"
proof -
  assume ok: "evidence_ok s (sc_held_evidence s)"
  have db: "evidence_ok (prune_stale_held s) ev = evidence_ok s ev" for ev
    by (rule evidence_ok_same_db) (simp add: prune_stale_held_def Let_def)
  define live where "live = (if fst (turn_identity s) \<noteq> [] \<and> snd (turn_identity s) \<noteq> []
    then filter (\<lambda>kv. owned_by (turn_identity s) (fst kv)) (sc_held_evidence s) else sc_held_evidence s)"
  have "evidence_ok s live" using ok evidence_ok_sublist(1) by (simp add: live_def)
  then have "evidence_ok s (drop (length live - MAX_HELD_RECORDS) live)" by (rule evidence_ok_sublist)
  moreover have "sc_held_evidence (prune_stale_held s) = drop (length live - MAX_HELD_RECORDS) live"
    by (simp add: prune_stale_held_def Let_def live_def)
  ultimately show ?thesis unfolding held_inv_def db by simp
qed

lemma prune_db [simp]: "sc_rt (prune_stale_held s) = sc_rt s"
  by (simp add: prune_stale_held_def Let_def)

lemma keeps_proofs_pruned:
  assumes "sc_rt s' = sc_rt s" "evidence_ok s (sc_held_evidence s) \<Longrightarrow> evidence_ok s (sc_held_evidence s')"
  shows "keeps_proofs s (prune_stale_held s')"
proof -
  have "evidence_ok s' ev = evidence_ok s ev" for ev
    by (rule evidence_ok_same_db) (simp add: assms)
  then show ?thesis using assms prune_inv [of s']
    unfolding keeps_proofs_def heads_kept_def held_inv_def by (simp add: head_durable_def)
qed

lemma record_keeps:
  assumes "\<not> he_synchronized new"
  shows "keeps_proofs s (record_held key new gen s)"
proof -
  have "evidence_ok s (sc_held_evidence s) \<Longrightarrow> evidence_ok s (dict_pop (sc_held_evidence s) key @ [(key, new)])"
    using assms evidence_ok_sublist(1) [of s "sc_held_evidence s" "\<lambda>kv. fst kv \<noteq> key"]
    by (auto simp: evidence_ok_def dict_pop_def)
  then show ?thesis by (auto simp: record_held_def intro!: keeps_proofs_pruned)
qed

lemma consume_keeps: "keeps_proofs s (consume_held key s)"
  unfolding consume_held_def
  by (rule keeps_proofs_pruned) (simp_all add: dict_pop_def evidence_ok_sublist)

lemma discard_keeps: "keeps_proofs s (discard_held_evidence s)"
  by (simp add: discard_held_evidence_def keeps_proofs_def heads_kept_def held_inv_def evidence_ok_def head_durable_def)

subsection \<open>The regions between awaits\<close>

text \<open>Every region of the send tasks, and everything else that goes on in the daemon: the store
  evolves, turns start and end, the provider session changes.\<close>

inductive coordinator_step :: "send_coordinator \<Rightarrow> send_coordinator \<Rightarrow> bool" where
  Record: "\<not> he_synchronized new \<Longrightarrow> coordinator_step s (record_held key new gen s)"
| Consume: "coordinator_step s (consume_held key s)"
| Discard: "coordinator_step s (discard_held_evidence s)"
| Stage: "coordinator_step s (stage sp ch st s)"
| Admission: "coordinator_step s (record_admission_evidence sp ch seq eid session rows addr s)"
| Commit: "held_evidence_matches a s \<Longrightarrow> head_durable (ra_latest_seq a) (ra_latest_envelope_id a) s \<Longrightarrow>
    coordinator_step s (mark_evidence a rows s)"
| Elsewhere: "rows_evolve (messages (rt_db (sc_rt s))) (messages (rt_db rt)) \<Longrightarrow>
    distinct (map envelope_id (messages (rt_db rt))) \<Longrightarrow>
    coordinator_step s (s\<lparr>sc_rt := rt, sc_provider_session_id := session\<rparr>)"

lemma evolving_head:
  assumes "rows_evolve (messages d) (messages d')" "distinct (map envelope_id (messages d'))"
    and "get_message_by_envelope e d = Some m" "server_seq m = Some q"
  shows "\<exists>m'. get_message_by_envelope e d' = Some m' \<and> server_seq m' = Some q"
proof -
  from assms(3) have e: "e \<noteq> []" and m: "m \<in> set (messages d)" "envelope_id m = e"
    using sql_fetchone_Some [of "\<lambda>m. envelope_id m = e" "messages d" m]
    by (auto simp: get_message_by_envelope_def split: if_splits)
  with assms(1) obtain m' where m': "m' \<in> set (messages d')" "message_evolves m m'"
    by (auto simp: rows_evolve_def)
  then have "envelope_id m' = e" "server_seq m' = Some q" using m assms(4) by (auto simp: message_evolves_def)
  moreover have "sql_fetchone (\<lambda>x. envelope_id x = envelope_id m') (messages d') = Some m'"
    using assms(2) m'(1) by (rule sql_fetchone_key)
  ultimately show ?thesis using e by (simp add: get_message_by_envelope_def)
qed

lemma step_keeps: "coordinator_step s s' \<Longrightarrow> keeps_proofs s s'"
proof (induction rule: coordinator_step.induct)
  case (Elsewhere s rt session)
  then have "head_durable q e s \<Longrightarrow> head_durable q e (s\<lparr>sc_rt := rt, sc_provider_session_id := session\<rparr>)" for q e
    using evolving_head by (fastforce simp: head_durable_def)
  then show ?case by (auto simp: keeps_proofs_def heads_kept_def held_inv_def evidence_ok_def)
qed (simp_all add: record_keeps consume_keeps discard_keeps stage_keeps admission_keeps mark_keeps)

lemma steps_keep: "coordinator_step\<^sup>*\<^sup>* s s' \<Longrightarrow> keeps_proofs s s'"
  by (induction rule: rtranclp_induct) (auto intro: keeps_proofs_trans step_keeps)

lemma recover_held_proved: "wp (recover_held sp ch seq eid fp) (\<lambda>_. proved w) w"
proof (rule recover_held_rule [where I = "proved w"])
  fix a w1
  assume p: "proved w w1"
  have o: "sw_others w1 = sw_others w" using p by (simp add: proved_def)
  show "wp (query_held_recovery_rows a) (\<lambda>found w2. proved w w2 \<and>
      (\<forall>rows. found = Some rows \<and> held_rows_are_synchronized rows a \<and> held_evidence_matches a (sw_state w2) \<longrightarrow>
         proved w (altered (mark_evidence a rows) w2))) w1"
  proof (cases "\<forall>n s. keeps_proofs s (sw_others w n s)")
    case False
    then show ?thesis
      by (intro wp_conseq [OF proved.query_held_recovery_rows_R [OF p]]) (auto simp: proved_def)
  next
    case True
    have d: "wp (query_held_recovery_rows a) (\<lambda>found w2. found \<noteq> None \<and> found \<noteq> Some [] \<longrightarrow>
        head_durable (ra_latest_seq a) (ra_latest_envelope_id a) (sw_state w2)) w1"
      unfolding query_held_recovery_rows_def using True o
      by (auto intro!: wp_conseq [OF query_durable])
    show ?thesis
    proof (rule wp_conseq [OF wp_conj [OF proved.query_held_recovery_rows_R [OF p] d]])
      fix found :: "held_row list option" and w2
      assume f: "proved w w2 \<and> (found \<noteq> None \<and> found \<noteq> Some [] \<longrightarrow>
        head_durable (ra_latest_seq a) (ra_latest_envelope_id a) (sw_state w2))"
      show "proved w w2 \<and> (\<forall>rows. found = Some rows \<and> held_rows_are_synchronized rows a \<and>
          held_evidence_matches a (sw_state w2) \<longrightarrow> proved w (altered (mark_evidence a rows) w2))"
        using f mark_keeps keeps_proofs_trans
        by (fastforce simp: proved_def held_rows_are_synchronized_def)
    qed
  qed
qed (simp_all add: proved.R_refl proved.wait_for_held_delivery_R)

text \<open>
  C9. When the other tasks run regions of this program and the store evolves without losing rows, a
  granted override also means that the head the draft was held at is a row of the local store, with
  the sequence the Server gave it: the agent has the messages that it decides to talk past.
\<close>

theorem override_head_is_stored:
  assumes others: "\<And>n s. coordinator_step\<^sup>*\<^sup>* s (sw_others w n s)" and inv: "held_inv (sw_state w)"
    and run: "run_state (reconsideration_decision sp ch fp dg) w = (d, w')" "rd_eligible d"
  shows "\<exists>q e m. rd_latest_seq d = Some q \<and> rd_latest_envelope_id d = Some e \<and>
    get_message_by_envelope e (rt_db (sc_rt (sw_state w'))) = Some m \<and> server_seq m = Some q"
proof -
  have k: "\<forall>n s. keeps_proofs s (sw_others w n s)" using others steps_keep by blast
  have "wp (reconsideration_decision sp ch fp dg) (\<lambda>d w'. rd_eligible d \<longrightarrow>
      (\<exists>q e. rd_latest_seq d = Some q \<and> rd_latest_envelope_id d = Some e \<and> head_durable q e (sw_state w'))) w"
  proof (rule decision_rule [where I = "proved w"])
    fix w1 h pair i
    assume p: "proved w w1" and h: "map_of (sc_held_evidence (sw_state w1)) (fst i, snd i, sp, ch) = Some h"
    let ?d = "admission_verdict i (he_synchronized h) (he_latest_seq h, he_latest_envelope_id h) pair
           (normalize_admitted (get_active_turn_through_seq sp ch (sc_rt (sw_state (paused w1)))))
           (sw_state (paused w1))"
    have "held_inv (sw_state w1)" using p k inv by (simp add: proved_def keeps_proofs_def)
    then have "he_synchronized h \<Longrightarrow> head_durable (he_latest_seq h) (he_latest_envelope_id h) (sw_state w1)"
      using map_of_SomeD [OF h] by (fastforce simp: held_inv_def evidence_ok_def)
    then have "he_synchronized h \<Longrightarrow> head_durable (he_latest_seq h) (he_latest_envelope_id h) (sw_state (paused w1))"
      using k p by (simp add: proved_def keeps_proofs_def heads_kept_def)
    then show "rd_eligible ?d \<longrightarrow> (\<exists>q e. rd_latest_seq ?d = Some q \<and> rd_latest_envelope_id ?d = Some e \<and>
        head_durable q e (sw_state (paused w1)))"
      using verdict_fields(3) [of i "he_synchronized h" "(he_latest_seq h, he_latest_envelope_id h)" pair]
      by (fastforce simp: verdict_eligible)
  qed (simp_all add: proved.R_refl recover_held_proved)
  from wp_run [OF this run(1)] run(2) show ?thesis by (auto simp: head_durable_def)
qed

theorem override_head_is_stored_witness:
  "\<exists>q e m. rd_latest_seq (fst (run_state (reconsideration_decision ''sp'' ''ch'' ''fp'' ''d1'') held_world)) = Some q \<and>
     rd_latest_envelope_id (fst (run_state (reconsideration_decision ''sp'' ''ch'' ''fp'' ''d1'') held_world)) = Some e \<and>
     get_message_by_envelope e (rt_db (sc_rt (sw_state
       (snd (run_state (reconsideration_decision ''sp'' ''ch'' ''fp'' ''d1'') held_world))))) = Some m \<and>
     server_seq m = Some q"
  by (rule override_head_is_stored [OF _ _ _ held_world_eligible])
    (simp_all add: held_world_def held_coordinator_def held_inv_def evidence_ok_def new_evidence_def MAX_HELD_RECORDS_def
      head_durable_def get_message_by_envelope_def sql_fetchone_def head_row_def eligible_row_def)



text \<open>A record that is not superseded stays, as long as it belongs to the turn in charge.\<close>

lemma map_of_filter_key: "P k \<Longrightarrow> map_of (filter (\<lambda>kv. P (fst kv)) kvs) k = map_of kvs k"
  by (induction kvs) auto

lemma prune_keeps_own:
  assumes "turn_identity s = (session, turn)" "length (sc_held_evidence s) \<le> MAX_HELD_RECORDS"
  shows "map_of (sc_held_evidence (prune_stale_held s)) (session, turn, sp, ch) =
    map_of (sc_held_evidence s) (session, turn, sp, ch)"
proof -
  have "length (filter (\<lambda>kv. owned_by (session, turn) (fst kv)) (sc_held_evidence s)) \<le> MAX_HELD_RECORDS"
    using assms(2) length_filter_le order_trans by blast
  then show ?thesis
    using assms map_of_filter_key [of "owned_by (session, turn)" "(session, turn, sp, ch)" "sc_held_evidence s"]
    by (simp add: prune_stale_held_def Let_def owned_by_def)
qed

lemma prune_identity [simp]: "turn_identity (prune_stale_held s) = turn_identity s"
  by (simp add: turn_identity_def prune_stale_held_def Let_def)


lemma new_evidence_fields:
  "he_latest_seq (new_evidence q e fp draft b th basis dg) = q"
  "he_latest_envelope_id (new_evidence q e fp draft b th basis dg) = e"
  "he_attempt_fingerprint (new_evidence q e fp draft b th basis dg) = fp"
  "he_content_digest (new_evidence q e fp draft b th basis dg) = dg"
  "he_synchronized (new_evidence q e fp draft b th basis dg) = False"
  by (simp_all add: new_evidence_def)


end
