(* ===== verification/Send_Files.thy ===== *)
theory Send_Files
  imports Send_Request
begin

section \<open>Attachments of a send\<close>

text \<open>
  \<open>_validate_attachment_targets\<close>, \<open>_materialize_attachments\<close> and \<open>_content_digest\<close> of
  \<open>agent/send_coordinator.py\<close>. A path is the list of its parts below the root. The file system is an
  argument: \<open>fs_resolve\<close> follows links and \<open>..\<close> as \<open>Path.resolve\<close> does. The error texts show a name
  without the quotes of its \<open>repr\<close>.
\<close>

type_synonym path = "string list"

record file_system =
  fs_resolve :: "path \<Rightarrow> path"
  fs_is_file :: "path \<Rightarrow> bool"
  fs_size :: "path \<Rightarrow> int"
  fs_read :: "path \<Rightarrow> string"

text \<open>The parts of \<open>Path(text)\<close> for a relative text: empty parts and single dots vanish.\<close>

fun split_slash :: "string \<Rightarrow> string list" where
  "split_slash [] = [[]]"
| "split_slash (c # cs) =
     (if c = CHR ''/'' then [] # split_slash cs
      else (case split_slash cs of [] \<Rightarrow> [[c]] | p # ps \<Rightarrow> (c # p) # ps))"

definition path_parts :: "string \<Rightarrow> path" where
  "path_parts t = filter (\<lambda>p. p \<noteq> [] \<and> p \<noteq> ''.'') (split_slash t)"

text \<open>\<open>target.is_relative_to(base)\<close>.\<close>

definition is_relative_to :: "path \<Rightarrow> path \<Rightarrow> bool" where
  "is_relative_to target base \<longleftrightarrow> take (length base) target = base"

definition path_name :: "path \<Rightarrow> string" where
  "path_name p = (if p = [] then [] else last p)"

definition MAX_ATTACHMENT_BYTES :: int where "MAX_ATTACHMENT_BYTES = 8 * 1024 * 1024"

text \<open>One entry; \<open>shared\<close> is the resolved shared workspace when there is one.\<close>

definition validate_attachment_target ::
  "file_system \<Rightarrow> path \<Rightarrow> path option \<Rightarrow> string \<Rightarrow> string + path" where
  "validate_attachment_target fs workspace shared raw =
     (let rel = strip raw; parts = path_parts rel; target = fs_resolve fs (workspace @ parts)
      in if rel = [] then Inl ''send_message_with_attachments: paths contains empty entry''
         else if starts_with ''/'' rel then Inl (''absolute paths not allowed ('' @ rel @ '')'')
         else if \<not> is_relative_to target workspace
              \<and> \<not> (case shared of None \<Rightarrow> False
                   | Some base \<Rightarrow> parts \<noteq> [] \<and> hd parts = ''shared'' \<and> is_relative_to target base)
         then Inl (rel @ '' escapes the workspace'')
         else if \<not> fs_is_file fs target then Inl (rel @ '' is not a file'')
         else if MAX_ATTACHMENT_BYTES < fs_size fs target then Inl (path_name target @ '' exceeds the 8 MiB cap'')
         else Inr target)"

fun validate_each :: "(string \<Rightarrow> string + path) \<Rightarrow> string list \<Rightarrow> string + path list" where
  "validate_each f [] = Inr []"
| "validate_each f (x # xs) =
     (case f x of Inl e \<Rightarrow> Inl e
      | Inr t \<Rightarrow> (case validate_each f xs of Inl e \<Rightarrow> Inl e | Inr ts \<Rightarrow> Inr (t # ts)))"

definition validate_attachment_targets ::
  "file_system \<Rightarrow> path option \<Rightarrow> path option \<Rightarrow> SemanticSendRequest \<Rightarrow> string + path list" where
  "validate_attachment_targets fs workspace shared r =
     (if attachment_paths r = [] then Inr []
      else case workspace of
        None \<Rightarrow> Inl ''send_message_with_attachments: agent has no configured workspace dir''
      | Some base \<Rightarrow>
          if 10 < length (attachment_paths r) then Inl ''send_message_with_attachments: too many files (> 10 cap)''
          else validate_each (validate_attachment_target fs (fs_resolve fs base) (map_option (fs_resolve fs) shared))
                 (attachment_paths r))"

definition materialize_attachments ::
  "file_system \<Rightarrow> path option \<Rightarrow> path option \<Rightarrow> SemanticSendRequest \<Rightarrow> string + (string \<times> string) list" where
  "materialize_attachments fs workspace shared r =
     (case validate_attachment_targets fs workspace shared r of
        Inl e \<Rightarrow> Inl e
      | Inr targets \<Rightarrow> Inr (map (\<lambda>t. (path_name t, fs_read fs t)) targets))"

text \<open>\<open>sha\<close> gives the 32 bytes of a SHA-256 and \<open>hex\<close> their hexadecimal text.\<close>

definition content_digest :: "(string \<Rightarrow> string) \<Rightarrow> (string \<Rightarrow> string) \<Rightarrow> (string \<times> string) list \<Rightarrow> string" where
  "content_digest sha hex pairs =
     (if pairs = [] then [] else hex (sha (concat (map (\<lambda>(name, payload). name @ CHR 0x00 # sha payload) pairs))))"

subsection \<open>Facts\<close>

lemma validate_each_Inr:
  "validate_each f xs = Inr ts \<Longrightarrow> list_all2 (\<lambda>x t. f x = Inr t) xs ts"
  by (induction xs arbitrary: ts) (auto split: sum.splits)

lemma target_inside:
  "validate_attachment_target fs workspace shared raw = Inr t \<Longrightarrow>
     (is_relative_to t workspace \<or> (\<exists>base. shared = Some base \<and> is_relative_to t base)) \<and>
     fs_is_file fs t \<and> fs_size fs t \<le> MAX_ATTACHMENT_BYTES"
  by (auto simp: validate_attachment_target_def Let_def split: if_splits option.splits)

text \<open>
  C30. Only files of the agent's own workspace leave the machine: whatever paths the model names,
  whatever links the file system has, the files that a send reads lie inside the workspace or inside
  the shared one, are at most ten, and none is larger than eight mebibytes.
\<close>

theorem attachments_stay_inside:
  assumes "validate_attachment_targets fs (Some base) shared r = Inr targets" and "t \<in> set targets"
  shows "length targets = length (attachment_paths r) \<and> length targets \<le> 10 \<and>
    (is_relative_to t (fs_resolve fs base) \<or>
     (\<exists>sh. shared = Some sh \<and> is_relative_to t (fs_resolve fs sh))) \<and>
    fs_is_file fs t \<and> fs_size fs t \<le> MAX_ATTACHMENT_BYTES"
proof -
  let ?f = "validate_attachment_target fs (fs_resolve fs base) (map_option (fs_resolve fs) shared)"
  from assms have l: "length (attachment_paths r) \<le> 10" and v: "list_all2 (\<lambda>x t. ?f x = Inr t) (attachment_paths r) targets"
    by (auto simp: validate_attachment_targets_def dest: validate_each_Inr split: if_splits)
  from v assms(2) obtain x where "?f x = Inr t"
    by (auto simp: list_all2_conv_all_nth in_set_conv_nth)
  from target_inside [OF this] have "is_relative_to t (fs_resolve fs base) \<or>
     (\<exists>sh. shared = Some sh \<and> is_relative_to t (fs_resolve fs sh))"
     "fs_is_file fs t" "fs_size fs t \<le> MAX_ATTACHMENT_BYTES" by auto
  with l list_all2_lengthD [OF v] show ?thesis by simp
qed

definition sample_fs :: file_system where
  "sample_fs = \<lparr>fs_resolve = (\<lambda>p. p), fs_is_file = (\<lambda>p. True), fs_size = (\<lambda>p. 3), fs_read = (\<lambda>p. ''abc'')\<rparr>"

theorem attachments_stay_inside_witness:
  "length [[''w'', ''a'', ''b.txt'']] = length (attachment_paths (sample_request\<lparr>attachment_paths := [''a//b.txt'']\<rparr>)) \<and>
   length [[''w'', ''a'', ''b.txt'']] \<le> 10 \<and>
   (is_relative_to [''w'', ''a'', ''b.txt''] (fs_resolve sample_fs [''w'']) \<or>
    (\<exists>sh. None = Some sh \<and> is_relative_to [''w'', ''a'', ''b.txt''] (fs_resolve sample_fs sh))) \<and>
   fs_is_file sample_fs [''w'', ''a'', ''b.txt''] \<and> fs_size sample_fs [''w'', ''a'', ''b.txt''] \<le> MAX_ATTACHMENT_BYTES"
proof (rule attachments_stay_inside)
  show "validate_attachment_targets sample_fs (Some [''w'']) None (sample_request\<lparr>attachment_paths := [''a//b.txt'']\<rparr>) =
      Inr [[''w'', ''a'', ''b.txt'']]"
    by code_simp
qed simp

end
