(* ===== verification/Send_Channel.thy ===== *)
theory Send_Channel
  imports Send_Held Send_Files
begin

section \<open>Channel sends\<close>

text \<open>
  The channel lanes of \<open>SendCoordinator\<close> (\<open>agent/send_coordinator.py\<close>): the boundary of a send, the
  transport with its one retry, what a committed and a held send leave behind, and the entry
  \<open>_send_request\<close>; the keyless lane; and the legacy direct message. What a send reads outside of the
  coordinator is the record \<open>send_env\<close>, by the number of awaits so far: the file system, the channel
  policy, the resolution of route and content with the sealing of the envelope, and the clock. The
  per-channel lock is left out: the other tasks may do anything at an await, so what is proved does
  not need it. The background supplementation of devices is left out too.
\<close>

subsection \<open>Environment, boundary, output\<close>

record Resolved =
  rs_root_id :: string
  rs_note :: string
  rs_input :: json

text \<open>The end of \<open>_prepare_keyless_channel_send\<close>: a refused upload, an exception, or the body.\<close>

datatype keyless_body =
    PrepRefused
  | PrepHttp int string
  | PrepRaised string
  | Prepared json string string

record send_env =
  se_fs :: "nat \<Rightarrow> file_system"
  se_workspace :: "path option"
  se_shared :: "path option"
  se_digest :: "json \<Rightarrow> string"
  se_sha :: "string \<Rightarrow> string"
  se_hex :: "string \<Rightarrow> string"
  se_policy :: "(nat \<Rightarrow> bool option) option"
  se_refresh :: "nat \<Rightarrow> bool option"
  se_resolve :: "nat \<Rightarrow> SemanticSendRequest \<Rightarrow> (string \<times> string) list \<Rightarrow> bool \<Rightarrow> string + Resolved"
  se_resolve_dm :: "nat \<Rightarrow> SemanticSendRequest \<Rightarrow> string \<Rightarrow> string + Resolved"
  se_seal :: "nat \<Rightarrow> Resolved \<Rightarrow> bool \<Rightarrow> json"
  se_prepare :: "nat \<Rightarrow> SemanticSendRequest \<Rightarrow> (string \<times> string) list \<Rightarrow> keyless_body"
  se_space :: "nat \<Rightarrow> string \<Rightarrow> string + string"
  se_now :: "nat \<Rightarrow> int"
  se_float_eq :: "string \<Rightarrow> int \<Rightarrow> bool"
  se_show :: "json \<Rightarrow> string"

record ChannelSendBoundary =
  cb_baseline :: "int option"
  cb_seen_seq :: int
  cb_held_key :: held_key
  cb_attempt_fingerprint :: string
  cb_reconsideration :: "ReconsiderationDecision option"
  cb_held_generation :: nat
  cb_materialized :: "(string \<times> string) list"
  cb_content_digest :: string

text \<open>A result with what is added to its dict: whether the head was recovered, the held context
  (\<open>Some None\<close> when it is not ready), the audit of a reconsideration.\<close>

record send_output =
  so_result :: SendResult
  so_synchronized :: "bool option"
  so_context :: "HeldEvidence option option"
  so_audit :: "ReconsiderationDecision option"

definition plain_output :: "SendResult \<Rightarrow> send_output" where
  "plain_output r = \<lparr>so_result = r, so_synchronized = None, so_context = None, so_audit = None\<rparr>"

definition clock :: "nat send_task" where
  "clock = State (\<lambda>w. (sw_clock w, w))"

subsection \<open>The boundary of a send\<close>

definition negative :: "int option \<Rightarrow> bool" where
  "negative v = (case v of None \<Rightarrow> False | Some n \<Rightarrow> n < 0)"

definition ineligible_message :: "string \<Rightarrow> string" where
  "ineligible_message reason =
     (if reason = ''missing_active_identity''
      then ''this send is not bound to an admitted daemon turn (background-task wakeup, or the provider session '' @
           ''changed); send_anyway is unavailable here '' @ [CHR 0xE2, CHR 0x80, CHR 0x94] @
           '' the draft can be resent from a newly admitted turn''
      else ''send_anyway requires exact held catch-up and an admitted same-Turn read through that boundary'')"

definition make_boundary ::
  "SemanticSendRequest \<Rightarrow> string \<Rightarrow> string \<Rightarrow> send_env \<Rightarrow> nat \<Rightarrow> int option \<Rightarrow> int option \<Rightarrow>
   (string \<times> string) list \<Rightarrow> ReconsiderationDecision option \<Rightarrow> ChannelSendBoundary send_task" where
  "make_boundary req sp ch env gen baseline seen pairs decision = do {
     i \<leftarrow> look turn_identity;
     State_Monad.return
       \<lparr>cb_baseline = baseline, cb_seen_seq = max (get_default baseline 0) (get_default seen 0),
        cb_held_key = (fst i, snd i, sp, ch), cb_attempt_fingerprint = attempt_fingerprint (se_digest env) req,
        cb_reconsideration = decision, cb_held_generation = gen, cb_materialized = pairs,
        cb_content_digest = content_digest (se_sha env) (se_hex env) pairs\<rparr>
   }"

definition resolve_send_boundary ::
  "send_env \<Rightarrow> SemanticSendRequest \<Rightarrow> string \<Rightarrow> string \<Rightarrow> bool \<Rightarrow> (send_output + ChannelSendBoundary) send_task" where
  "resolve_send_boundary env req sp ch combined_error = do {
     gen \<leftarrow> look sc_held_generation;
     pause; baseline \<leftarrow> store_view (get_context_baseline sp ch);
     if negative baseline \<and> \<not> combined_error
     then State_Monad.return (Inl (plain_output
            (failed_send ''context baseline is invalid for channel send'' ''freshness_unavailable'' None)))
     else do {
       seen \<leftarrow> active_boundary sp ch;
       if combined_error \<and> (negative baseline \<or> negative seen)
       then State_Monad.return (Inl (plain_output
              (failed_send ''channel freshness is unavailable'' ''freshness_unavailable'' None)))
       else if negative seen
       then State_Monad.return (Inl (plain_output
              (failed_send ''active-turn boundary is invalid'' ''freshness_unavailable'' None)))
       else do {
         n \<leftarrow> clock;
         case materialize_attachments (se_fs env n) (se_workspace env) (se_shared env) req of
           Inl e \<Rightarrow> State_Monad.return (Inl (plain_output (failed_send e ''validation'' None)))
         | Inr pairs \<Rightarrow>
             if \<not> send_anyway req
             then do { b \<leftarrow> make_boundary req sp ch env gen baseline seen pairs None; State_Monad.return (Inr b) }
             else do {
               d \<leftarrow> reconsideration_decision sp ch (attempt_fingerprint (se_digest env) req)
                     (content_digest (se_sha env) (se_hex env) pairs);
               if \<not> rd_eligible d
               then State_Monad.return (Inl ((plain_output
                      (failed_send (ineligible_message (rd_reason d)) ''reconsideration_ineligible'' None))\<lparr>so_audit := Some d\<rparr>))
               else do {
                 b \<leftarrow> make_boundary req sp ch env gen baseline (rd_admitted_seq d) pairs (Some d);
                 State_Monad.return (Inr b)
               }
             }
       }
     }
   }"

definition freshness_of :: "SemanticSendRequest \<Rightarrow> ChannelSendBoundary \<Rightarrow> Freshness" where
  "freshness_of req b = \<lparr>fr_context_baseline_seq = cb_baseline b, fr_seen_seq = cb_seen_seq b,
     fr_mode = (if send_anyway req then ''send_anyway'' else ''require_current'')\<rparr>"

subsection \<open>Transport\<close>

text \<open>The first \<open>n\<close> characters of a text that is kept as its UTF-8 bytes.\<close>

fun utf8_take :: "nat \<Rightarrow> string \<Rightarrow> string" where
  "utf8_take n [] = []"
| "utf8_take n (c # cs) =
     (if 128 \<le> (of_char c :: nat) \<and> (of_char c :: nat) < 192 then c # utf8_take n cs
      else if n = 0 then [] else c # utf8_take (n - 1) cs)"

definition http_error_detail :: "(json \<Rightarrow> string) \<Rightarrow> string \<Rightarrow> string" where
  "http_error_detail sh body =
     (case json_loads body of
        None \<Rightarrow> if utf8_take 500 body = [] then ''HTTP request failed'' else utf8_take 500 body
      | Some v \<Rightarrow>
          utf8_take 500 (py_str sh
            (if json_truthy (json_get v ''message'') then the (json_get v ''message'')
             else if json_truthy (json_get v ''error'') then the (json_get v ''error'') else v)))"

definition is_channel_format_mismatch :: "int \<Rightarrow> string \<Rightarrow> bool" where
  "is_channel_format_mismatch status body \<longleftrightarrow>
     status = 400 \<and>
     (case json_loads (if body = [] then ''{}'' else body) of
        None \<Rightarrow> False
      | Some v \<Rightarrow> json_get v ''error'' = Some (JStr ''CHANNEL_FORMAT_MISMATCH''))"

definition http_failure :: "(json \<Rightarrow> string) \<Rightarrow> int \<Rightarrow> string \<Rightarrow> SendResult" where
  "http_failure sh status body =
     failed_send (http_error_detail sh body)
       (if is_channel_format_mismatch status body then ''channel_format_mismatch''
        else if status = 404 \<or> status = 405 then ''deployment''
        else if status < 400 then ''protocol'' else ''http'')
       (Some status)"

text \<open>One request: the body is handed over, the reply is there when the task resumes.\<close>

definition request_once :: "json \<Rightarrow> Freshness \<Rightarrow> post_outcome send_task" where
  "request_once body fr = do {
     State (\<lambda>w. ((), w\<lparr>sw_posts := sw_posts w @ [(body, fr)]\<rparr>));
     pause;
     State (\<lambda>w. (sw_replies w (sw_clock w), w))
   }"

fun retriable :: "post_outcome \<Rightarrow> bool" where
  "retriable (ConnectionLost m) = True"
| "retriable (ClientFault m) = True"
| "retriable _ = False"

fun post_answer :: "(json \<Rightarrow> string) \<Rightarrow> post_outcome \<Rightarrow> raw_answer" where
  "post_answer sh (Answered v) = Answer v"
| "post_answer sh (HttpError status body) = Own (http_failure sh status body)"
| "post_answer sh (ConnectionLost m) = Own (failed_send m ''transport_unknown'' None)"
| "post_answer sh (ClientFault m) = Own (failed_send m ''transport'' None)"
| "post_answer sh (OtherFault m) = Own (failed_send m ''transport'' None)"

definition post_channel_exact :: "send_env \<Rightarrow> json \<Rightarrow> Freshness \<Rightarrow> raw_answer send_task" where
  "post_channel_exact env envelope fr = do {
     r \<leftarrow> request_once envelope fr;
     if retriable r
     then do { r' \<leftarrow> request_once envelope fr; State_Monad.return (post_answer (se_show env) r') }
     else State_Monad.return (post_answer (se_show env) r)
   }"

subsection \<open>After the answer\<close>

text \<open>\<open>persist_baseline\<close> of \<open>agent/send_response_validation.py\<close>: two tries.\<close>

definition try_set_baseline :: "send_env \<Rightarrow> string \<Rightarrow> string \<Rightarrow> int \<Rightarrow> bool send_task" where
  "try_set_baseline env sp ch seq = do {
     pause; n \<leftarrow> clock; d \<leftarrow> store_view (\<lambda>d. d);
     case set_context_baseline (se_now env n) sp ch seq None d of
       Inl e \<Rightarrow> State_Monad.return False
     | Inr d' \<Rightarrow> do {
         alter (\<lambda>s. s\<lparr>sc_rt := (sc_rt s)\<lparr>rt_db := d'\<rparr>\<rparr>);
         State_Monad.return True
       }
   }"

definition persist_baseline ::
  "send_env \<Rightarrow> string \<Rightarrow> string \<Rightarrow> int option \<Rightarrow> int option \<Rightarrow> bool send_task" where
  "persist_baseline env sp ch request_baseline established =
     (if request_baseline \<noteq> None \<or> established = None then State_Monad.return True
      else do {
        ok \<leftarrow> try_set_baseline env sp ch (the established);
        if ok then State_Monad.return True else try_set_baseline env sp ch (the established)
      })"

definition BASELINE_PERSISTENCE_WARNING :: string where
  "BASELINE_PERSISTENCE_WARNING = ''The message was committed, but the local freshness baseline could not be '' @
     ''saved; a later channel send may need to resynchronize context.''"

text \<open>\<open>_advance\<close>.\<close>

definition advance_boundary :: "string \<Rightarrow> string \<Rightarrow> int \<Rightarrow> unit send_task" where
  "advance_boundary sp ch seq = do {
     State (\<lambda>w. ((), w\<lparr>sw_advances := sw_advances w @ [(sp, ch, seq)]\<rparr>));
     pause;
     alter (\<lambda>s. s\<lparr>sc_rt := snd (advance_active_turn_through_seq sp ch seq (sc_rt s))\<rparr>)
   }"

text \<open>The common end of a committed send in both lanes, after its note has been set.\<close>

definition settle_commit ::
  "send_env \<Rightarrow> string \<Rightarrow> string \<Rightarrow> ChannelSendBoundary \<Rightarrow> SendResult \<Rightarrow> SendResult send_task" where
  "settle_commit env sp ch b r = do {
     alter (consume_held (cb_held_key b));
     saved \<leftarrow> persist_baseline env sp ch (cb_baseline b) (sr_context_baseline_seq r);
     (if sr_latest_seq_before_send r = Some (acknowledged r) \<and> sr_seq r \<noteq> None
      then advance_boundary sp ch (the (sr_seq r)) else State_Monad.return ());
     State_Monad.return
       (if saved then r else r\<lparr>sr_note := sr_note r @ '' '' @ BASELINE_PERSISTENCE_WARNING\<rparr>)
   }"

definition finish_sent_channel_send ::
  "send_env \<Rightarrow> SemanticSendRequest \<Rightarrow> string \<Rightarrow> string \<Rightarrow> ChannelSendBoundary \<Rightarrow> Resolved \<Rightarrow> json \<Rightarrow> SendResult \<Rightarrow>
   SendResult send_task" where
  "finish_sent_channel_send env req sp ch b rs envelope r =
     settle_commit env sp ch b (r\<lparr>sr_note :=
       (if attachment_paths req \<noteq> [] then ''uploaded'' else ''posted'') @ '' '' @
       (case json_get envelope ''envelope_id'' of None \<Rightarrow> ''?'' | Some v \<Rightarrow> py_str (se_show env) v) @ '' to '' @
       destination req @ rs_note rs\<rparr>)"

definition HELD_NOTE :: string where
  "HELD_NOTE = ''No message was sent because the channel advanced beyond this turn's visible boundary. Newer '' @
     ''context is returned when available. If that context can change the draft's correctness, position, '' @
     ''necessity, target, or interpretation, revise and retry with normal freshness. Use send_anyway only for '' @
     ''an unchanged, context-independent draft, or leave it unsent.''"

text \<open>The record of a held send, when the result names a head.\<close>

definition keep_held ::
  "SemanticSendRequest \<Rightarrow> ChannelSendBoundary \<Rightarrow> string \<Rightarrow> message_row list \<Rightarrow> SendResult \<Rightarrow> unit send_task" where
  "keep_held req b thread basis r =
     (case sr_latest_seq r of
        None \<Rightarrow> State_Monad.return ()
      | Some q \<Rightarrow>
          if truthy (sr_latest_envelope_id r)
          then alter (record_held (cb_held_key b)
                 (new_evidence q (or_empty (sr_latest_envelope_id r)) (cb_attempt_fingerprint b) (draft_text req)
                    (cb_seen_seq b) thread basis (cb_content_digest b)) (cb_held_generation b))
          else State_Monad.return ())"

definition finish_held_channel_send ::
  "SemanticSendRequest \<Rightarrow> ChannelSendBoundary \<Rightarrow> Resolved \<Rightarrow> message_row list \<Rightarrow> SendResult \<Rightarrow> SendResult send_task" where
  "finish_held_channel_send req b rs basis r = do {
     keep_held req b (if rs_root_id rs \<noteq> [] then rs_root_id rs else root_id req) basis r;
     State_Monad.return (r\<lparr>sr_note := HELD_NOTE @ rs_note rs\<rparr>)
   }"

text \<open>\<open>_visible_draft_basis\<close>: the rows of the target that this turn has seen.\<close>

definition basis_row :: "string \<Rightarrow> string \<Rightarrow> string \<Rightarrow> message_row \<Rightarrow> bool" where
  "basis_row sp ch thread m \<longleftrightarrow> space_id m = Some sp \<and> channel_id m = Some ch \<and>
     (if thread \<noteq> [] then envelope_id m = thread \<or> thread_root_id m = Some thread
      else \<not> truthy (thread_root_id m))"

fun basis_rows :: "string \<Rightarrow> string \<Rightarrow> string \<Rightarrow> string list \<Rightarrow> message_row list send_task" where
  "basis_rows sp ch thread [] = State_Monad.return []"
| "basis_rows sp ch thread (i # ids) = do {
     pause; m \<leftarrow> store_view (get_message_by_envelope i);
     rows \<leftarrow> basis_rows sp ch thread ids;
     State_Monad.return
       ((case m of None \<Rightarrow> [] | Some row \<Rightarrow> if basis_row sp ch thread row then [row] else []) @ rows)
   }"

definition visible_draft_basis :: "string \<Rightarrow> string \<Rightarrow> string \<Rightarrow> message_row list send_task" where
  "visible_draft_basis sp ch thread = do {
     ids \<leftarrow> look (\<lambda>s. act_visible_message_ids (active (sc_rt s)));
     basis_rows sp ch thread ids
   }"

text \<open>\<open>_held_context_output\<close>: the record is read again after the members of the channel are.\<close>

definition own_record :: "held_key \<Rightarrow> string \<Rightarrow> send_coordinator \<Rightarrow> HeldEvidence option" where
  "own_record key fp s =
     (case map_of (sc_held_evidence s) key of
        None \<Rightarrow> None
      | Some h \<Rightarrow> if he_attempt_fingerprint h = fp then Some h else None)"

definition held_context_output :: "held_key \<Rightarrow> string \<Rightarrow> HeldEvidence option send_task" where
  "held_context_output key fp = do {
     before \<leftarrow> look (own_record key fp);
     if before = None then State_Monad.return None else do { pause; look (own_record key fp) }
   }"

definition finish_channel_send ::
  "send_env \<Rightarrow> SemanticSendRequest \<Rightarrow> string \<Rightarrow> string \<Rightarrow> ChannelSendBoundary \<Rightarrow> Resolved \<Rightarrow> json \<Rightarrow>
   message_row list \<Rightarrow> SendResult \<Rightarrow> send_output send_task" where
  "finish_channel_send env req sp ch b rs envelope basis r = (case sr_state r of
       Sent \<Rightarrow> do {
         r' \<leftarrow> finish_sent_channel_send env req sp ch b rs envelope r;
         State_Monad.return ((plain_output r')\<lparr>so_audit := cb_reconsideration b\<rparr>)
       }
     | Held \<Rightarrow> do {
         r' \<leftarrow> finish_held_channel_send req b rs basis r;
         context \<leftarrow> held_context_output (cb_held_key b) (cb_attempt_fingerprint b);
         State_Monad.return ((plain_output r')\<lparr>so_context := Some context, so_audit := cb_reconsideration b\<rparr>)
       }
     | Failed \<Rightarrow> State_Monad.return ((plain_output r)\<lparr>so_audit := cb_reconsideration b\<rparr>))"

subsection \<open>The encrypted lane\<close>

definition channel_encrypt_policy :: "send_env \<Rightarrow> bool send_task" where
  "channel_encrypt_policy env = (case se_policy env of
       None \<Rightarrow> State_Monad.return True
     | Some ask \<Rightarrow> do { pause; n \<leftarrow> clock; State_Monad.return (get_default (ask n) True) })"

definition refresh_channel_encrypt_policy :: "send_env \<Rightarrow> bool \<Rightarrow> bool send_task" where
  "refresh_channel_encrypt_policy env current = (case se_policy env of
       None \<Rightarrow> State_Monad.return current
     | Some ask \<Rightarrow> do { pause; n \<leftarrow> clock; State_Monad.return (get_default (se_refresh env n) current) })"

definition resolve_route_and_content ::
  "send_env \<Rightarrow> SemanticSendRequest \<Rightarrow> (string \<times> string) list \<Rightarrow> bool \<Rightarrow> (string + Resolved) send_task" where
  "resolve_route_and_content env req pairs encrypt = do {
     pause; n \<leftarrow> clock; State_Monad.return (se_resolve env n req pairs encrypt)
   }"

text \<open>One pass of the format loop: seal, post, validate.\<close>

definition send_attempt :: "send_env \<Rightarrow> Freshness \<Rightarrow> Resolved \<Rightarrow> bool \<Rightarrow> (json \<times> SendResult) send_task" where
  "send_attempt env fr rs encrypt = do {
     n \<leftarrow> clock;
     answer \<leftarrow> post_channel_exact env (se_seal env n rs encrypt) fr;
     State_Monad.return (se_seal env n rs encrypt,
       validate_channel_response (se_float_eq env) answer (se_seal env n rs encrypt) fr)
   }"

text \<open>\<open>_send_channel\<close>, first the part behind the boundary: the format loop makes a second pass when
  the Server asks for the other format and the policy has changed.\<close>

definition send_behind ::
  "send_env \<Rightarrow> SemanticSendRequest \<Rightarrow> string \<Rightarrow> string \<Rightarrow> ChannelSendBoundary \<Rightarrow> send_output send_task" where
  "send_behind env req sp ch b = do {
     encrypt \<leftarrow> channel_encrypt_policy env;
     resolved \<leftarrow> resolve_route_and_content env req (cb_materialized b) encrypt;
     case resolved of
       Inl e \<Rightarrow> State_Monad.return (plain_output (failed_send e ''validation'' None))
     | Inr rs \<Rightarrow> do {
         basis \<leftarrow> visible_draft_basis sp ch (if rs_root_id rs \<noteq> [] then rs_root_id rs else root_id req);
         (envelope, r) \<leftarrow> send_attempt env (freshness_of req b) rs encrypt;
         if sr_state r \<noteq> Failed \<or> sr_error_kind r \<noteq> Some ''channel_format_mismatch''
         then finish_channel_send env req sp ch b rs envelope basis r
         else do {
           refreshed \<leftarrow> refresh_channel_encrypt_policy env encrypt;
           if refreshed = encrypt then finish_channel_send env req sp ch b rs envelope basis r
           else do {
             again \<leftarrow> resolve_route_and_content env req (cb_materialized b) refreshed;
             case again of
               Inl e \<Rightarrow> State_Monad.return (plain_output (failed_send e ''validation'' None))
             | Inr rs' \<Rightarrow> do {
                 (envelope', r') \<leftarrow> send_attempt env (freshness_of req b) rs' refreshed;
                 finish_channel_send env req sp ch b rs' envelope' basis r'
               }
           }
         }
       }
   }"

definition send_channel :: "send_env \<Rightarrow> SemanticSendRequest \<Rightarrow> string \<Rightarrow> string \<Rightarrow> send_output send_task" where
  "send_channel env req sp ch = do {
     resolved_boundary \<leftarrow> resolve_send_boundary env req sp ch False;
     case resolved_boundary of
       Inl out \<Rightarrow> State_Monad.return out
     | Inr b \<Rightarrow> send_behind env req sp ch b
   }"

subsection \<open>The keyless lane\<close>

definition finish_keyless_channel_send ::
  "send_env \<Rightarrow> SemanticSendRequest \<Rightarrow> string \<Rightarrow> string \<Rightarrow> ChannelSendBoundary \<Rightarrow> string \<Rightarrow> string \<Rightarrow>
   message_row list \<Rightarrow> SendResult \<Rightarrow> send_output send_task" where
  "finish_keyless_channel_send env req sp ch b thread note basis r = (case sr_state r of
       Held \<Rightarrow> do {
         keep_held req b thread basis r;
         ok \<leftarrow> recover_held sp ch (sr_latest_seq r) (sr_latest_envelope_id r) (cb_attempt_fingerprint b);
         context \<leftarrow> held_context_output (cb_held_key b) (cb_attempt_fingerprint b);
         State_Monad.return ((plain_output (r\<lparr>sr_note :=
             ''No channel message was committed; inspect newer Inbox context.''\<rparr>))
           \<lparr>so_synchronized := Some ok, so_context := Some context, so_audit := cb_reconsideration b\<rparr>)
       }
     | Sent \<Rightarrow> do {
         r' \<leftarrow> settle_commit env sp ch b (r\<lparr>sr_note := ''posted '' @ or_empty (sr_envelope_id r) @ '' to '' @ ch @ note\<rparr>);
         State_Monad.return ((plain_output r')\<lparr>so_audit := cb_reconsideration b\<rparr>)
       }
     | Failed \<Rightarrow> State_Monad.return ((plain_output r)\<lparr>so_audit := cb_reconsideration b\<rparr>))"

definition keyless_http_failure :: "(json \<Rightarrow> string) \<Rightarrow> int \<Rightarrow> string \<Rightarrow> SendResult" where
  "keyless_http_failure sh status body =
     failed_send (http_error_detail sh body)
       (if status \<in> {404, 405, 503} then ''freshness_unavailable'' else ''http'') (Some status)"

text \<open>\<open>_post_keyless_exact\<close>, with the exceptions that its caller turns into results on the left.\<close>

fun keyless_answer :: "(json \<Rightarrow> string) \<Rightarrow> post_outcome \<Rightarrow> SendResult + raw_answer" where
  "keyless_answer sh (Answered v) = Inr (Answer v)"
| "keyless_answer sh (HttpError status body) = Inl (keyless_http_failure sh status body)"
| "keyless_answer sh (ConnectionLost m) =
     Inr (Own (failed_send ''coordinated keyless send outcome is unknown'' ''transport_unknown'' None))"
| "keyless_answer sh (ClientFault m) = Inl (failed_send m ''validation'' None)"
| "keyless_answer sh (OtherFault m) = Inl (failed_send m ''validation'' None)"

fun connection_lost :: "post_outcome \<Rightarrow> bool" where
  "connection_lost (ConnectionLost m) = True"
| "connection_lost _ = False"

definition post_keyless_exact :: "send_env \<Rightarrow> json \<Rightarrow> Freshness \<Rightarrow> (SendResult + raw_answer) send_task" where
  "post_keyless_exact env body fr = do {
     r \<leftarrow> request_once body fr;
     if connection_lost r
     then do { r' \<leftarrow> request_once body fr; State_Monad.return (keyless_answer (se_show env) r') }
     else State_Monad.return (keyless_answer (se_show env) r)
   }"

definition send_keyless_behind ::
  "send_env \<Rightarrow> SemanticSendRequest \<Rightarrow> string \<Rightarrow> string \<Rightarrow> ChannelSendBoundary \<Rightarrow> send_output send_task" where
  "send_keyless_behind env req sp ch b = do {
     pause; n \<leftarrow> clock;
     case se_prepare env n req (cb_materialized b) of
       PrepRefused \<Rightarrow> State_Monad.return (plain_output
         (failed_send ''keyless attachment upload returned no blob_id'' ''protocol'' None))
     | PrepHttp status detail \<Rightarrow> State_Monad.return (plain_output (keyless_http_failure (se_show env) status detail))
     | PrepRaised e \<Rightarrow> State_Monad.return (plain_output (failed_send e ''validation'' None))
     | Prepared body thread note \<Rightarrow> do {
         basis \<leftarrow> visible_draft_basis sp ch thread;
         answer \<leftarrow> post_keyless_exact env body (freshness_of req b);
         case answer of
           Inl r \<Rightarrow> State_Monad.return (plain_output r)
         | Inr raw \<Rightarrow>
             finish_keyless_channel_send env req sp ch b thread note basis
               (validate_keyless_response (se_float_eq env) raw (freshness_of req b))
       }
   }"

definition send_keyless_channel :: "send_env \<Rightarrow> SemanticSendRequest \<Rightarrow> string \<Rightarrow> string \<Rightarrow> send_output send_task" where
  "send_keyless_channel env req sp ch = do {
     resolved_boundary \<leftarrow> resolve_send_boundary env req sp ch True;
     case resolved_boundary of
       Inl out \<Rightarrow> State_Monad.return out
     | Inr b \<Rightarrow> send_keyless_behind env req sp ch b
   }"

subsection \<open>Direct messages\<close>

text \<open>\<open>_legacy_dm_metadata\<close>: sequence, replay, queued devices, missing devices.\<close>

definition optional_int :: "string \<Rightarrow> string \<Rightarrow> json \<Rightarrow> string + int option" where
  "optional_int prefix name raw =
     (if is_none (json_get raw name) then Inr None
      else case py_int (json_get raw name) of
        None \<Rightarrow> Inl (prefix @ '' has invalid '' @ name)
      | Some i \<Rightarrow> if i < 0 then Inl (prefix @ '' has invalid '' @ name) else Inr (Some i))"

definition legacy_dm_metadata :: "json \<Rightarrow> string + (int option \<times> bool option \<times> int option \<times> string list)" where
  "legacy_dm_metadata raw =
     (if \<not> is_mapping raw then Inr (None, None, None, [])
      else if \<not> is_none (json_get raw ''replay'') \<and> py_bool (json_get raw ''replay'') = None
      then Inl ''DM response has invalid replay''
      else case (if json_get raw ''missing_devices'' = None then Some [] else py_strings (json_get raw ''missing_devices'')) of
        None \<Rightarrow> Inl ''DM response has invalid missing_devices''
      | Some missing \<Rightarrow>
          (case optional_int ''DM response'' ''seq'' raw of
             Inl e \<Rightarrow> Inl e
           | Inr seq \<Rightarrow>
               (case optional_int ''DM response'' ''devices_queued'' raw of
                  Inl e \<Rightarrow> Inl e
                | Inr queued \<Rightarrow> Inr (seq, py_bool (json_get raw ''replay''), queued, missing))))"

text \<open>\<open>_send_dm\<close>: no freshness, no retry.\<close>

definition dm_result :: "send_env \<Rightarrow> SemanticSendRequest \<Rightarrow> Resolved \<Rightarrow> json \<Rightarrow> post_outcome \<Rightarrow> SendResult" where
  "dm_result env req rs envelope reply = (case reply of
       HttpError status body \<Rightarrow> failed_send (http_error_detail (se_show env) body) ''http'' (Some status)
     | ConnectionLost m \<Rightarrow> failed_send m ''validation'' None
     | ClientFault m \<Rightarrow> failed_send m ''validation'' None
     | OtherFault m \<Rightarrow> failed_send m ''validation'' None
     | Answered raw \<Rightarrow>
         (case legacy_dm_metadata (if json_truthy (Some raw) then raw else JObj []) of
            Inl e \<Rightarrow> failed_send e ''validation'' None
          | Inr (seq, replay, queued, missing) \<Rightarrow>
              (send_result Sent)\<lparr>sr_envelope_id := py_text (json_get envelope ''envelope_id''), sr_seq := seq,
                sr_replay := replay, sr_devices_queued := queued, sr_missing_devices := missing,
                sr_note := (if attachment_paths req \<noteq> [] then ''uploaded'' else ''posted'') @ '' '' @
                  (case json_get envelope ''envelope_id'' of None \<Rightarrow> ''?'' | Some v \<Rightarrow> py_str (se_show env) v) @ '' to '' @
                  destination req @ rs_note rs\<rparr>))"

definition send_dm :: "send_env \<Rightarrow> SemanticSendRequest \<Rightarrow> string \<Rightarrow> send_output send_task" where
  "send_dm env req peer =
     (if peer = []
      then State_Monad.return (plain_output (failed_send (''DM recipient slug is required after '' @ [CHR 0x27, CHR ''@'', CHR 0x27]) ''validation'' None))
      else do {
        pause; n \<leftarrow> clock;
        case se_resolve_dm env n req peer of
          Inl e \<Rightarrow> State_Monad.return (plain_output (failed_send e ''validation'' None))
        | Inr rs \<Rightarrow> do {
            pause; k \<leftarrow> clock; w \<leftarrow> State_Monad.get;
            State_Monad.return (plain_output (dm_result env req rs (se_seal env n rs True) (sw_replies w k)))
          }
      })"

subsection \<open>The entry\<close>

text \<open>\<open>_send_request\<close>: the checks, the space of the channel, the send, and the recovery of a head that
  held it. The direct message of a keyless agent is an argument.\<close>

definition send_request ::
  "send_env \<Rightarrow> bool \<Rightarrow> (SemanticSendRequest \<Rightarrow> string \<Rightarrow> send_output send_task) \<Rightarrow> SemanticSendRequest \<Rightarrow>
   send_output send_task" where
  "send_request env keyless keyless_dm req = do {
     n \<leftarrow> clock;
     let dest = strip (destination req);
         checked = validate_attachment_targets (se_fs env n) (se_workspace env) (se_shared env) req
     in if dest = [] then State_Monad.return (plain_output (failed_send ''channel is required'' ''validation'' None))
        else case checked of
          Inl e \<Rightarrow> State_Monad.return (plain_output (failed_send e ''validation'' None))
        | Inr targets \<Rightarrow>
            if starts_with ''#'' dest
            then State_Monad.return (plain_output (failed_send
                   (CHR 0x27 # ''#<name>'' @ CHR 0x27 # '' channel addressing isn't supported; use a channel id'') ''validation'' None))
            else if starts_with ''@'' dest then (if keyless then keyless_dm req (tl dest) else send_dm env req (tl dest))
            else do {
              pause; k \<leftarrow> clock;
              case se_space env k dest of
                Inl e \<Rightarrow> State_Monad.return (plain_output (failed_send e ''routing'' None))
              | Inr sp \<Rightarrow>
                  if keyless then send_keyless_channel env req sp dest
                  else do {
                    out \<leftarrow> send_channel env req sp dest;
                    if sr_state (so_result out) \<noteq> Held then State_Monad.return out
                    else do {
                      ok \<leftarrow> recover_held sp dest (sr_latest_seq (so_result out)) (sr_latest_envelope_id (so_result out))
                             (attempt_fingerprint (se_digest env) req);
                      i \<leftarrow> look turn_identity;
                      context \<leftarrow> held_context_output (fst i, snd i, sp, dest) (attempt_fingerprint (se_digest env) req);
                      State_Monad.return (out\<lparr>so_synchronized := Some ok, so_context := Some context\<rparr>)
                    }
                  }
            }
   }"

end
