(* ===== verification/Send_Props.thy ===== *)
theory Send_Props
  imports Send_Held_Props Send_Channel
begin

section \<open>Properties of channel sends\<close>

text \<open>
  What a whole send does to the outside: which bodies it hands to the transport, with which claim about
  what the turn has seen, and when it advances the boundary of the turn.
\<close>

subsection \<open>Guarantees of the send tasks\<close>

lemma wp_clock [simp]: "wp clock Q w = Q (sw_clock w) w"
  by (simp add: wp_def clock_def)

lemma wp_State [simp]: "wp (State f) Q w = (case f w of (a, w') \<Rightarrow> Q a w')"
  by (simp add: wp_def)

lemma io_case_send_state [io_intros]:
  "state_io_rel R m1 \<Longrightarrow> state_io_rel R m2 \<Longrightarrow> state_io_rel R m3 \<Longrightarrow>
     state_io_rel R (case st of Sent \<Rightarrow> m1 | Held \<Rightarrow> m2 | Failed \<Rightarrow> m3)"
  by (cases st) simp_all

lemma io_case_keyless_body [io_intros]:
  "state_io_rel R f1 \<Longrightarrow> (\<And>st d. state_io_rel R (f2 st d)) \<Longrightarrow> (\<And>e. state_io_rel R (f3 e)) \<Longrightarrow>
   (\<And>body th n. state_io_rel R (f4 body th n)) \<Longrightarrow>
     state_io_rel R (case p of PrepRefused \<Rightarrow> f1 | PrepHttp st d \<Rightarrow> f2 st d | PrepRaised e \<Rightarrow> f3 e
       | Prepared body th n \<Rightarrow> f4 body th n)"
  by (cases p) simp_all

text \<open>A relation that every write of the coordinator respects.\<close>

locale write_guarantee = task_guarantee +
  assumes R_alter: "R w (altered f w)"
begin

lemma io_alter: "state_io_rel R (alter f)"
  using R_alter by (simp add: state_io_rel_def altered_def)

lemma io_clock: "state_io_rel R clock"
  by (simp add: state_io_rel_def clock_def R_refl)

lemmas io_writes = io_tasks io_alter io_clock

lemma recover_held_io: "state_io_rel R (recover_held sp ch seq eid fp)"
  unfolding recover_held_def commit_held_recovery_def
  by (intro io_writes wait_for_held_delivery_io query_held_recovery_rows_io)

lemma decision_io: "state_io_rel R (reconsideration_decision sp ch fp dg)"
  unfolding reconsideration_decision_def active_boundary_def by (intro io_writes recover_held_io)

lemma resolve_send_boundary_io: "state_io_rel R (resolve_send_boundary env req sp ch combined)"
  unfolding resolve_send_boundary_def active_boundary_def make_boundary_def
  by (intro io_writes decision_io)

lemma visible_draft_basis_io: "state_io_rel R (visible_draft_basis sp ch thread)"
proof -
  have "state_io_rel R (basis_rows sp ch thread ids)" for ids
    by (induction ids) (auto intro!: io_writes)
  then show ?thesis unfolding visible_draft_basis_def by (intro io_writes)
qed

lemma preparation_io:
  "state_io_rel R (channel_encrypt_policy env)" "state_io_rel R (refresh_channel_encrypt_policy env e)"
  "state_io_rel R (resolve_route_and_content env req pairs e)"
  unfolding channel_encrypt_policy_def refresh_channel_encrypt_policy_def resolve_route_and_content_def
  by (intro io_writes)+

lemma keep_held_io: "state_io_rel R (keep_held req b thread basis r)"
  unfolding keep_held_def by (intro io_writes)

lemma held_context_output_io: "state_io_rel R (held_context_output key fp)"
  unfolding held_context_output_def by (intro io_writes)

lemma persist_baseline_io: "state_io_rel R (persist_baseline env sp ch rb est)"
  unfolding persist_baseline_def try_set_baseline_def by (intro io_writes)

end

text \<open>A relation that also a request with the given freshness respects, and one that also the
  advance of a channel's boundary respects.\<close>

locale post_guarantee = write_guarantee +
  fixes fr :: Freshness
  assumes R_post: "R w (w\<lparr>sw_posts := sw_posts w @ [(body, fr)]\<rparr>)"
begin

lemma request_once_io: "state_io_rel R (request_once body fr)"
proof -
  have "state_io_rel R (State (\<lambda>w. ((), w\<lparr>sw_posts := sw_posts w @ [(body, fr)]\<rparr>)))"
    using R_post by (simp add: state_io_rel_def)
  moreover have "state_io_rel R (State (\<lambda>w. (sw_replies w (sw_clock w), w)))"
    by (simp add: state_io_rel_def R_refl)
  ultimately show ?thesis unfolding request_once_def by (intro io_writes)
qed

lemma send_attempt_io: "state_io_rel R (send_attempt env fr rs e)"
  unfolding send_attempt_def post_channel_exact_def by (intro io_writes request_once_io)

lemma post_keyless_exact_io: "state_io_rel R (post_keyless_exact env body fr)"
  unfolding post_keyless_exact_def by (intro io_writes request_once_io)

end

locale settle_guarantee = post_guarantee +
  fixes sp ch :: string
  assumes R_advance: "R w (w\<lparr>sw_advances := sw_advances w @ [(sp, ch, q)]\<rparr>)"
begin

lemma settle_commit_io: "state_io_rel R (settle_commit env sp ch b r)"
proof -
  have "state_io_rel R (State (\<lambda>w. ((), w\<lparr>sw_advances := sw_advances w @ [(sp, ch, q)]\<rparr>)))" for q
    using R_advance by (simp add: state_io_rel_def)
  then show ?thesis unfolding settle_commit_def advance_boundary_def by (intro io_writes persist_baseline_io)
qed

lemma finish_channel_send_io: "state_io_rel R (finish_channel_send env req sp ch b rs envelope basis r)"
  unfolding finish_channel_send_def finish_sent_channel_send_def finish_held_channel_send_def
  by (intro io_writes io_intros settle_commit_io keep_held_io held_context_output_io)

lemma finish_keyless_channel_send_io:
  "state_io_rel R (finish_keyless_channel_send env req sp ch b thread note basis r)"
  unfolding finish_keyless_channel_send_def
  by (intro io_writes io_intros settle_commit_io keep_held_io held_context_output_io recover_held_io)

lemma send_behind_io: "fr = freshness_of req b \<Longrightarrow> state_io_rel R (send_behind env req sp ch b)"
  unfolding send_behind_def
  by (drule sym, simp only:, intro io_writes preparation_io visible_draft_basis_io send_attempt_io finish_channel_send_io)

lemma send_keyless_behind_io: "fr = freshness_of req b \<Longrightarrow> state_io_rel R (send_keyless_behind env req sp ch b)"
  unfolding send_keyless_behind_def
  by (drule sym, simp only:, intro io_writes io_intros visible_draft_basis_io post_keyless_exact_io finish_keyless_channel_send_io)

end

subsection \<open>The relations\<close>

definition quiet :: "send_world \<Rightarrow> send_world \<Rightarrow> bool" where
  "quiet w w' \<longleftrightarrow> sw_posts w' = sw_posts w \<and> sw_advances w' = sw_advances w"

definition posted_as :: "Freshness \<Rightarrow> send_world \<Rightarrow> send_world \<Rightarrow> bool" where
  "posted_as fr w w' \<longleftrightarrow> (\<exists>ps. sw_posts w' = sw_posts w @ ps \<and> (\<forall>p\<in>set ps. snd p = fr))"

definition same_advances :: "send_world \<Rightarrow> send_world \<Rightarrow> bool" where
  "same_advances w w' \<longleftrightarrow> sw_advances w' = sw_advances w"

lemma effects_simps [simp]:
  "sw_posts (paused w) = sw_posts w" "sw_advances (paused w) = sw_advances w"
  "sw_posts (altered f w) = sw_posts w" "sw_advances (altered f w) = sw_advances w"
  "sw_replies (paused w) = sw_replies w" "sw_replies (altered f w) = sw_replies w"
  by (simp_all add: paused_def pause_def altered_def alter_def Let_def)

interpretation met: settle_guarantee traced fr sp ch for fr sp ch
  by unfold_locales (simp_all add: traced_altered, simp_all add: traced_def)

interpretation quiet: write_guarantee quiet
  by unfold_locales (simp_all add: quiet_def)

interpretation posted: settle_guarantee "posted_as fr" fr sp ch for fr sp ch
proof (unfold_locales, goal_cases)
  case (2 w w' w'')
  then obtain ps qs where "sw_posts w' = sw_posts w @ ps" "sw_posts w'' = sw_posts w' @ qs"
      "\<forall>p\<in>set ps. snd p = fr" "\<forall>p\<in>set qs. snd p = fr"
    unfolding posted_as_def by blast
  then show ?case unfolding posted_as_def by (intro exI [of _ "ps @ qs"]) auto
qed (auto simp: posted_as_def)

interpretation still: post_guarantee same_advances fr for fr
  by unfold_locales (simp_all add: same_advances_def)

subsection \<open>The claim of a send\<close>

definition earned_in ::
  "string \<Rightarrow> string \<Rightarrow> string \<Rightarrow> string \<Rightarrow> ReconsiderationDecision \<Rightarrow> send_coordinator set \<Rightarrow> bool" where
  "earned_in sp ch fp dg d S \<longleftrightarrow>
     (\<exists>session turn h n. \<exists>s\<in>S. \<exists>s'\<in>S.
        map_of (sc_held_evidence s) (session, turn, sp, ch) = Some h
        \<and> allows fp dg (the (rd_latest_envelope_id d)) h \<and> rd_latest_seq d = Some (he_latest_seq h)
        \<and> turn_identity s' = (session, turn) \<and> session \<noteq> [] \<and> turn \<noteq> []
        \<and> get_active_turn_through_seq sp ch (sc_rt s') = Some n \<and> rd_admitted_seq d = Some n \<and> he_latest_seq h \<le> n)"

definition claim_ok ::
  "send_env \<Rightarrow> SemanticSendRequest \<Rightarrow> string \<Rightarrow> string \<Rightarrow> send_coordinator set \<Rightarrow> ChannelSendBoundary \<Rightarrow> bool" where
  "claim_ok env req sp ch S b \<longleftrightarrow>
     0 \<le> cb_seen_seq b \<and> cb_attempt_fingerprint b = attempt_fingerprint (se_digest env) req
     \<and> (\<exists>n. materialize_attachments (se_fs env n) (se_workspace env) (se_shared env) req = Inr (cb_materialized b))
     \<and> cb_content_digest b = content_digest (se_sha env) (se_hex env) (cb_materialized b)
     \<and> (if send_anyway req
        then \<exists>d q. cb_reconsideration b = Some d \<and> rd_latest_seq d = Some q \<and> q \<le> cb_seen_seq b
               \<and> earned_in sp ch (cb_attempt_fingerprint b) (cb_content_digest b) d S
        else \<exists>s\<in>S. \<exists>s'\<in>S. cb_baseline b = get_context_baseline sp ch (rt_db (sc_rt s))
               \<and> cb_seen_seq b = max (get_default (cb_baseline b) 0)
                   (get_default (get_active_turn_through_seq sp ch (sc_rt s')) 0))"

definition met_states :: "send_world \<Rightarrow> send_world \<Rightarrow> send_coordinator set" where
  "met_states w w' = insert (sw_state w) (set (sw_trace w'))"

lemma traced_trace: "traced w w' \<Longrightarrow> set (sw_trace w) \<subseteq> set (sw_trace w') \<and> sw_state w' \<in> insert (sw_state w) (set (sw_trace w'))"
  by (auto simp: traced_def split: if_splits)

lemma earned_in_mono: "earned_in sp ch fp dg d S \<Longrightarrow> S \<subseteq> T \<Longrightarrow> earned_in sp ch fp dg d T"
  unfolding earned_in_def by (meson subsetD)

lemma claim_ok_mono: "claim_ok env req sp ch S b \<Longrightarrow> S \<subseteq> T \<Longrightarrow> claim_ok env req sp ch T b"
  unfolding claim_ok_def using earned_in_mono by (smt (verit) subsetD)

lemma earned_to_in:
  assumes "earned sp ch fp dg w d w'" "traced w w'" "traced w0 w"
  shows "earned_in sp ch fp dg d (met_states w0 w')"
proof -
  have "sw_state w' \<in> met_states w0 w'" "sw_state w \<in> met_states w0 w'" "set (sw_trace w') \<subseteq> met_states w0 w'"
    using traced_trace [OF assms(2)] traced_trace [OF assms(3)] by (auto simp: met_states_def)
  with assms(1) show ?thesis unfolding earned_def earned_in_def by blast
qed

lemma make_boundary_wp:
  "wp (make_boundary req sp ch env gen bl seen pairs d) Q w \<longleftrightarrow>
     Q \<lparr>cb_baseline = bl, cb_seen_seq = max (get_default bl 0) (get_default seen 0),
        cb_held_key = (fst (turn_identity (sw_state w)), snd (turn_identity (sw_state w)), sp, ch),
        cb_attempt_fingerprint = attempt_fingerprint (se_digest env) req, cb_reconsideration = d,
        cb_held_generation = gen, cb_materialized = pairs,
        cb_content_digest = content_digest (se_sha env) (se_hex env) pairs\<rparr> w"
  by (simp add: make_boundary_def)

lemma decision_claim:
  assumes "traced w0 w"
  shows "wp (reconsideration_decision sp ch fp dg) (\<lambda>d w'. traced w0 w' \<and>
    (rd_eligible d \<longrightarrow> (\<exists>q n. rd_latest_seq d = Some q \<and> rd_admitted_seq d = Some n \<and> q \<le> n) \<and>
       earned_in sp ch fp dg d (met_states w0 w'))) w"
proof (rule wp_conseq [OF wp_conj [OF decision_earned wp_io [OF met.decision_io]]])
  fix d w'
  assume a: "(rd_eligible d \<longrightarrow> earned sp ch fp dg w d w') \<and> traced w w'"
  then have "traced w0 w'" using assms traced_trans by blast
  moreover have "rd_eligible d \<Longrightarrow> earned_in sp ch fp dg d (met_states w0 w')" using a assms earned_to_in by blast
  moreover have "rd_eligible d \<Longrightarrow> \<exists>q n. rd_latest_seq d = Some q \<and> rd_admitted_seq d = Some n \<and> q \<le> n"
    using a unfolding earned_def by blast
  ultimately show "traced w0 w' \<and> (rd_eligible d \<longrightarrow>
      (\<exists>q n. rd_latest_seq d = Some q \<and> rd_admitted_seq d = Some n \<and> q \<le> n) \<and>
      earned_in sp ch fp dg d (met_states w0 w'))" by blast
qed

lemma resolve_send_boundary_claim:
  "wp (resolve_send_boundary env req sp ch combined) (\<lambda>res w'.
     \<forall>b. res = Inr b \<longrightarrow> claim_ok env req sp ch (met_states w w') b) w"
proof -
  let ?w1 = "paused w" and ?w2 = "paused (paused w)"
  let ?bl = "get_context_baseline sp ch (rt_db (sc_rt (sw_state ?w1)))"
  let ?fp = "attempt_fingerprint (se_digest env) req"
  have t: "traced w ?w2" using traced_paused traced_trans by blast
  have m: "sw_state ?w1 \<in> met_states w ?w2" "sw_state ?w2 \<in> met_states w ?w2" by (simp_all add: met_states_def)
  have anyway: "wp (reconsideration_decision sp ch ?fp (content_digest (se_sha env) (se_hex env) pairs))
      (\<lambda>d. wp (if \<not> rd_eligible d then State_Monad.return (Inl ((plain_output (failed_send (ineligible_message (rd_reason d))
             ''reconsideration_ineligible'' None))\<lparr>so_audit := Some d\<rparr>))
        else do { b \<leftarrow> make_boundary req sp ch env gen ?bl (rd_admitted_seq d) pairs (Some d); State_Monad.return (Inr b) })
       (\<lambda>res w'. \<forall>b. res = Inr b \<longrightarrow> claim_ok env req sp ch (met_states w w') b)) ?w2"
    if "send_anyway req" "materialize_attachments (se_fs env n) (se_workspace env) (se_shared env) req = Inr pairs"
      "\<not> negative ?bl" for pairs gen n
    using that
    by (intro wp_conseq [OF decision_claim [OF t]])
      (auto simp: make_boundary_wp claim_ok_def negative_def get_default_def le_max_iff_disj split: option.splits)
  have plain: "claim_ok env req sp ch (met_states w ?w2)
      \<lparr>cb_baseline = ?bl, cb_seen_seq = max (get_default ?bl 0)
         (get_default (get_active_turn_through_seq sp ch (sc_rt (sw_state ?w2))) 0),
       cb_held_key = k, cb_attempt_fingerprint = ?fp, cb_reconsideration = d, cb_held_generation = gen,
       cb_materialized = pairs, cb_content_digest = content_digest (se_sha env) (se_hex env) pairs\<rparr>"
    if "\<not> send_anyway req" "materialize_attachments (se_fs env n) (se_workspace env) (se_shared env) req = Inr pairs"
      "\<not> negative ?bl" for pairs gen n k d
  proof -
    have "0 \<le> get_default ?bl 0" using that(3) by (simp add: negative_def get_default_def split: option.splits)
    moreover have "\<exists>s\<in>met_states w ?w2. \<exists>s'\<in>met_states w ?w2. ?bl = get_context_baseline sp ch (rt_db (sc_rt s)) \<and>
        max (get_default ?bl 0) (get_default (get_active_turn_through_seq sp ch (sc_rt (sw_state ?w2))) 0) =
        max (get_default ?bl 0) (get_default (get_active_turn_through_seq sp ch (sc_rt s')) 0)"
      by (rule bexI [OF _ m(1)], rule bexI [OF _ m(2)]) simp
    ultimately show ?thesis using that(1,2) unfolding claim_ok_def
      by (simp del: paused_simps add: le_max_iff_disj) blast
  qed
  show ?thesis
  proof (cases "materialize_attachments (se_fs env (sw_clock ?w2)) (se_workspace env) (se_shared env) req")
    case (Inl e)
    then show ?thesis unfolding resolve_send_boundary_def active_boundary_def by (simp add: make_boundary_wp)
  next
    case (Inr pairs)
    show ?thesis unfolding resolve_send_boundary_def active_boundary_def
      using anyway [OF _ Inr] plain [OF _ Inr]
      by (auto simp del: paused_simps simp add: Inr make_boundary_wp)
  qed
qed

lemma claim_travels:
  assumes "claim_ok env req sp ch (met_states w w1) b" "traced w1 w2"
  shows "claim_ok env req sp ch (met_states w w2) b"
  using claim_ok_mono [OF assms(1)] traced_trace [OF assms(2)] by (auto simp: met_states_def)

definition posts_claimed ::
  "send_env \<Rightarrow> SemanticSendRequest \<Rightarrow> string \<Rightarrow> string \<Rightarrow> send_world \<Rightarrow> send_world \<Rightarrow> bool" where
  "posts_claimed env req sp ch w w' \<longleftrightarrow>
     (\<exists>ps. sw_posts w' = sw_posts w @ ps \<and>
        (\<forall>p\<in>set ps. \<exists>b. claim_ok env req sp ch (met_states w w') b \<and> snd p = freshness_of req b))"

lemma lane_claims:
  assumes behind: "\<And>b. state_io_rel traced (behind b)" "\<And>b. state_io_rel (posted_as (freshness_of req b)) (behind b)"
  shows "wp (do { res \<leftarrow> resolve_send_boundary env req sp ch combined;
      case res of Inl out \<Rightarrow> State_Monad.return out | Inr b \<Rightarrow> behind b })
    (\<lambda>_ w'. posts_claimed env req sp ch w w') w"
  unfolding wp_bind
proof (rule wp_conseq [OF wp_conj [OF resolve_send_boundary_claim wp_io [OF quiet.resolve_send_boundary_io]]])
  fix res :: "send_output + ChannelSendBoundary" and w1
  assume a: "(\<forall>b. res = Inr b \<longrightarrow> claim_ok env req sp ch (met_states w w1) b) \<and> quiet w w1"
  show "wp (case res of Inl out \<Rightarrow> State_Monad.return out | Inr b \<Rightarrow> behind b)
      (\<lambda>_ w'. posts_claimed env req sp ch w w') w1"
  proof (cases res)
    case (Inl out)
    with a show ?thesis by (simp add: posts_claimed_def quiet_def)
  next
    case (Inr b)
    have "posts_claimed env req sp ch w w2" if "traced w1 w2" "posted_as (freshness_of req b) w1 w2" for w2
    proof -
      have c: "claim_ok env req sp ch (met_states w w2) b" using a Inr claim_travels [OF _ that(1)] by blast
      from that(2) obtain ps where "sw_posts w2 = sw_posts w @ ps" "\<forall>p\<in>set ps. snd p = freshness_of req b"
        using a by (auto simp: posted_as_def quiet_def)
      with c show ?thesis unfolding posts_claimed_def by blast
    qed
    with Inr show ?thesis
      by simp (rule wp_conseq [OF wp_conj [OF wp_io [OF behind(1)] wp_io [OF behind(2)]]], blast)
  qed
qed

lemma send_channel_claims: "wp (send_channel env req sp ch) (\<lambda>_ w'. posts_claimed env req sp ch w w') w"
  unfolding send_channel_def
  by (rule lane_claims [OF met.send_behind_io [OF refl] posted.send_behind_io [OF refl]])

lemma send_keyless_channel_claims:
  "wp (send_keyless_channel env req sp ch) (\<lambda>_ w'. posts_claimed env req sp ch w w') w"
  unfolding send_keyless_channel_def
  by (rule lane_claims [OF met.send_keyless_behind_io [OF refl] posted.send_keyless_behind_io [OF refl]])


definition sample_env :: send_env where
  "sample_env = \<lparr>se_fs = (\<lambda>n. sample_fs), se_workspace = None, se_shared = None, se_digest = (\<lambda>v. ''fp''),
     se_sha = (\<lambda>t. t), se_hex = (\<lambda>t. t), se_policy = None, se_refresh = (\<lambda>n. None),
     se_resolve = (\<lambda>n r pairs e. Inr \<lparr>rs_root_id = [], rs_note = [], rs_input = JNull\<rparr>),
     se_resolve_dm = (\<lambda>n r peer. Inl []), se_seal = (\<lambda>n rs e. JObj [(''envelope_id'', JStr ''out1'')]),
     se_prepare = (\<lambda>n r pairs. PrepRefused), se_space = (\<lambda>n c. Inr ''sp''), se_now = (\<lambda>n. 0),
     se_float_eq = (\<lambda>r n. False), se_show = (\<lambda>v. [])\<rparr>"

definition override_world :: send_world where
  "override_world = held_world\<lparr>sw_state := held_coordinator\<lparr>sc_held_evidence := [((''s1'', ''t1'', ''sp'', ''ch''),
     (new_evidence 9 ''e9'' ''fp'' ''hi'' 8 [] [] [])\<lparr>he_synchronized := True\<rparr>)]\<rparr>\<rparr>"

definition override_request :: SemanticSendRequest where
  "override_request = sample_request\<lparr>destination := ''ch'', send_anyway := True\<rparr>"

definition claims_nine :: Freshness where
  "claims_nine = \<lparr>fr_context_baseline_seq = None, fr_seen_seq = 9, fr_mode = ''send_anyway''\<rparr>"

lemma override_posts:
  "sw_posts (snd (run_state (send_channel sample_env override_request ''sp'' ''ch'') override_world)) =
     [] @ [(JObj [(''envelope_id'', JStr ''out1'')], claims_nine), (JObj [(''envelope_id'', JStr ''out1'')], claims_nine)]"
proof -
  let ?s = "sw_state override_world"
  have e: "get_active_turn_through_seq ''sp'' ''ch'' (sc_rt ?s) = Some 9" "turn_identity ?s = (''s1'', ''t1'')"
    "get_context_baseline ''sp'' ''ch'' (rt_db (sc_rt ?s)) = None"
    by code_simp+
  have f: "attempt_fingerprint (se_digest sample_env) override_request = ''fp''"
    by (simp add: attempt_fingerprint_def sample_env_def)
  have d: "wp (reconsideration_decision ''sp'' ''ch'' ''fp'' []) (\<lambda>d w'. rd_eligible d \<and> rd_admitted_seq d = Some 9 \<and>
      w' = paused w) w" if "sw_state w = ?s" "sw_others w = (\<lambda>n s. s)" for w
    using that e
    by (simp add: reconsideration_decision_def held_snapshot_def new_evidence_def override_world_def
        held_draft_reason_def active_boundary_def admission_verdict_def normalize_admitted_def)
  have o: "sw_others override_world = (\<lambda>n s. s)" "sw_posts override_world = []"
      "sw_replies override_world = (\<lambda>n. ConnectionLost [])"
      "act_visible_message_ids (active (sc_rt ?s)) = []"
    by (simp_all add: override_world_def held_world_def held_coordinator_def cleared_union_def)
  have "wp (send_channel sample_env override_request ''sp'' ''ch'') (\<lambda>_ w'. sw_posts w' =
     [] @ [(JObj [(''envelope_id'', JStr ''out1'')], claims_nine), (JObj [(''envelope_id'', JStr ''out1'')], claims_nine)])
     override_world"
    unfolding send_channel_def resolve_send_boundary_def active_boundary_def f
    using e o
    by (simp add: negative_def materialize_attachments_def validate_attachment_targets_def content_digest_def
        override_request_def sample_request_def)
      (rule wp_conseq [OF d],
       simp_all add: make_boundary_wp send_behind_def channel_encrypt_policy_def resolve_route_and_content_def
        visible_draft_basis_def send_attempt_def post_channel_exact_def request_once_def finish_channel_send_def
        sample_env_def validate_channel_response_def freshness_of_def claims_nine_def get_default_def)
  then show ?thesis by (simp add: wp_def case_prod_beta)
qed


subsection \<open>The boundary after a commit\<close>

text \<open>What a lane may add to the advances: one, for a commit that the Server placed right behind what the
  sender had acknowledged.\<close>

definition gapless :: "string \<Rightarrow> string \<Rightarrow> SendResult \<Rightarrow> (string \<times> string \<times> int) list" where
  "gapless sp ch r =
     (if sr_state r = Sent \<and> sr_latest_seq_before_send r = Some (acknowledged r) \<and> sr_seq r \<noteq> None
      then [(sp, ch, the (sr_seq r))] else [])"

definition settles :: "string \<Rightarrow> string \<Rightarrow> send_output send_task \<Rightarrow> bool" where
  "settles sp ch m \<longleftrightarrow> (\<forall>w0 w. same_advances w0 w \<longrightarrow>
     wp m (\<lambda>out w'. sw_advances w' = sw_advances w0 @ gapless sp ch (so_result out)) w)"

lemma settles_bind_pred:
  assumes "state_io_rel same_advances m" "\<And>w. wp m (\<lambda>a _. P a) w" "\<And>a. P a \<Longrightarrow> settles sp ch (f a)"
  shows "settles sp ch (m \<bind> f)"
  unfolding settles_def wp_bind
proof (intro allI impI)
  fix w0 w
  assume "same_advances w0 w"
  with assms(3) show "wp m (\<lambda>a. wp (f a) (\<lambda>out w'. sw_advances w' = sw_advances w0 @ gapless sp ch (so_result out))) w"
    by (intro wp_conseq [OF wp_conj [OF wp_io [OF assms(1)] assms(2)]]) (auto simp: settles_def same_advances_def)
qed

lemma wp_True: "wp m (\<lambda>_ _. True) w"
  by (simp add: wp_def split: prod.split)

lemma settles_bind: "state_io_rel same_advances m \<Longrightarrow> (\<And>a. settles sp ch (f a)) \<Longrightarrow> settles sp ch (m \<bind> f)"
  by (rule settles_bind_pred [where P = "\<lambda>_. True"]) (simp_all add: wp_True)

lemma settles_cases:
  "settles sp ch m \<Longrightarrow> settles sp ch m' \<Longrightarrow> settles sp ch (if c then m else m')"
  "(\<And>x. settles sp ch (g x)) \<Longrightarrow> (\<And>x. settles sp ch (h x)) \<Longrightarrow> settles sp ch (case u of Inl x \<Rightarrow> g x | Inr x \<Rightarrow> h x)"
  "(\<And>x y. settles sp ch (k x y)) \<Longrightarrow> settles sp ch (case p of (x, y) \<Rightarrow> k x y)"
  by (auto split: sum.split prod.split)

lemma settles_failed: "sr_state (so_result out) = Failed \<Longrightarrow> settles sp ch (State_Monad.return out)"
  by (simp add: settles_def same_advances_def gapless_def)

lemma plain_output_result [simp]: "so_result (plain_output r) = r" "so_result (out\<lparr>so_audit := a\<rparr>) = so_result out"
    "so_result (out\<lparr>so_context := c\<rparr>) = so_result out" "so_result (out\<lparr>so_synchronized := y\<rparr>) = so_result out"
  by (simp_all add: plain_output_def)

lemma noted_simps [simp]:
  "gapless sp ch (r\<lparr>sr_note := n\<rparr>) = gapless sp ch r" "acknowledged (r\<lparr>sr_note := n\<rparr>) = acknowledged r"
  by (simp_all add: gapless_def acknowledged_def)

lemma advance_boundary_wp:
  "wp (advance_boundary sp ch q) (\<lambda>_ w'. sw_advances w' = sw_advances w @ [(sp, ch, q)]) w"
  by (simp add: advance_boundary_def)

lemma settle_commit_wp:
  assumes "sr_state r = Sent" "same_advances w0 w"
  shows "wp (settle_commit env sp ch b r) (\<lambda>r' w'. (\<exists>n. r' = r\<lparr>sr_note := n\<rparr>) \<and>
    sw_advances w' = sw_advances w0 @ gapless sp ch r) w"
proof -
  have n: "\<exists>n. r = r\<lparr>sr_note := n\<rparr>" by (rule exI [of _ "sr_note r"]) simp
  let ?Q = "\<lambda>r' w'. (\<exists>n. r' = r\<lparr>sr_note := n\<rparr>) \<and> sw_advances w' = sw_advances w0 @ gapless sp ch r"
  let ?noted = "\<lambda>saved. if saved then r else r\<lparr>sr_note := sr_note r @ '' '' @ BASELINE_PERSISTENCE_WARNING\<rparr>"
  have advance: "wp (if sr_latest_seq_before_send r = Some (acknowledged r) \<and> sr_seq r \<noteq> None
      then advance_boundary sp ch (the (sr_seq r)) else State_Monad.return ())
      (\<lambda>_ w'. sw_advances w' = sw_advances w0 @ gapless sp ch r) w1" if "sw_advances w1 = sw_advances w0" for w1
    using that assms(1) advance_boundary_wp [of sp ch "the (sr_seq r)" w1] by (simp add: gapless_def)
  have rest: "wp (if sr_latest_seq_before_send r = Some (acknowledged r) \<and> sr_seq r \<noteq> None
      then advance_boundary sp ch (the (sr_seq r)) else State_Monad.return ())
      (\<lambda>_. wp (State_Monad.return (?noted saved)) ?Q) w1" if "sw_advances w1 = sw_advances w0" for w1 saved
    using n by (intro wp_conseq [OF advance [OF that]]) auto
  show ?thesis unfolding settle_commit_def wp_bind wp_alter
    by (rule wp_conseq [OF wp_io [OF still.persist_baseline_io]], rule rest)
      (use assms(2) in \<open>simp add: same_advances_def\<close>)
qed

lemma finish_channel_send_settles: "settles sp ch (finish_channel_send env req sp ch b rs envelope basis r)"
proof (cases "sr_state r")
  case Sent
  show ?thesis unfolding settles_def finish_channel_send_def finish_sent_channel_send_def
    by (auto simp: Sent intro!: wp_conseq [OF settle_commit_wp])
next
  case Held
  then have g: "gapless sp ch r = []" by (simp add: gapless_def)
  show ?thesis unfolding settles_def finish_channel_send_def finish_held_channel_send_def
    using Held g
    by (auto simp: same_advances_def intro!: wp_conseq [OF wp_io [OF still.keep_held_io]]
        wp_conseq [OF wp_io [OF still.held_context_output_io]])
next
  case Failed
  then show ?thesis by (simp add: finish_channel_send_def settles_failed)
qed

lemma finish_keyless_channel_send_settles:
  "settles sp ch (finish_keyless_channel_send env req sp ch b thread note basis r)"
proof (cases "sr_state r")
  case Sent
  show ?thesis unfolding settles_def finish_keyless_channel_send_def
    by (auto simp: Sent intro!: wp_conseq [OF settle_commit_wp])
next
  case Held
  then have g: "gapless sp ch r = []" by (simp add: gapless_def)
  show ?thesis unfolding settles_def finish_keyless_channel_send_def
    using Held g
    by (auto simp: same_advances_def intro!: wp_conseq [OF wp_io [OF still.keep_held_io]]
        wp_conseq [OF wp_io [OF still.recover_held_io]] wp_conseq [OF wp_io [OF still.held_context_output_io]])
next
  case Failed
  then show ?thesis by (simp add: finish_keyless_channel_send_def settles_failed)
qed

lemma send_behind_settles: "settles sp ch (send_behind env req sp ch b)"
  unfolding send_behind_def
  by (intro settles_bind settles_cases finish_channel_send_settles settles_failed still.preparation_io
      still.visible_draft_basis_io still.send_attempt_io) simp_all

lemma keyless_answer_failed: "keyless_answer sh r = Inl x \<Longrightarrow> sr_state x = Failed"
  by (cases r) (auto simp: keyless_http_failure_def)

lemma post_keyless_failed: "wp (post_keyless_exact env body fr) (\<lambda>a _. \<forall>x. a = Inl x \<longrightarrow> sr_state x = Failed) w"
  by (auto simp: post_keyless_exact_def request_once_def dest: keyless_answer_failed)

lemma send_keyless_behind_settles: "settles sp ch (send_keyless_behind env req sp ch b)"
proof -
  have "settles sp ch (do { answer \<leftarrow> post_keyless_exact env body fr;
      case answer of Inl r \<Rightarrow> State_Monad.return (plain_output r)
      | Inr raw \<Rightarrow> finish_keyless_channel_send env req sp ch b thread nt basis
          (validate_keyless_response (se_float_eq env) raw fr) })" for body thread nt basis fr
    by (rule settles_bind_pred [OF still.post_keyless_exact_io post_keyless_failed])
      (auto intro!: settles_failed finish_keyless_channel_send_settles split: sum.split)
  then have "settles sp ch (case p of PrepRefused \<Rightarrow> State_Monad.return (plain_output
         (failed_send ''keyless attachment upload returned no blob_id'' ''protocol'' None))
     | PrepHttp status detail \<Rightarrow> State_Monad.return (plain_output (keyless_http_failure (se_show env) status detail))
     | PrepRaised e \<Rightarrow> State_Monad.return (plain_output (failed_send e ''validation'' None))
     | Prepared body thread nt \<Rightarrow> do {
         basis \<leftarrow> visible_draft_basis sp ch thread;
         answer \<leftarrow> post_keyless_exact env body (freshness_of req b);
         case answer of
           Inl r \<Rightarrow> State_Monad.return (plain_output r)
         | Inr raw \<Rightarrow>
             finish_keyless_channel_send env req sp ch b thread nt basis
               (validate_keyless_response (se_float_eq env) raw (freshness_of req b)) })" for p
    by (cases p) (auto simp: keyless_http_failure_def intro!: settles_failed settles_bind [OF still.visible_draft_basis_io])
  then show ?thesis unfolding send_keyless_behind_def by (intro settles_bind still.io_writes)
qed

text \<open>Facts about results alone, whatever the world.\<close>

lemma pred_bind:
  assumes "\<And>w. wp m (\<lambda>a _. Q a) w" "\<And>a w. Q a \<Longrightarrow> wp (f a) (\<lambda>b _. P b) w"
  shows "wp (m \<bind> f) (\<lambda>b _. P b) w"
  unfolding wp_bind by (rule wp_conseq [OF assms(1)]) (rule assms(2))

lemma pred_any: "(\<And>a w. wp (f a) (\<lambda>b _. P b) w) \<Longrightarrow> wp (m \<bind> f) (\<lambda>b _. P b) w"
  by (rule pred_bind [where Q = "\<lambda>_. True"]) (simp_all add: wp_True)

lemma pred_cases:
  "P a \<Longrightarrow> wp (State_Monad.return a) (\<lambda>b _. P b) w"
  "wp m (\<lambda>b _. P b) w \<Longrightarrow> wp m' (\<lambda>b _. P b) w \<Longrightarrow> wp (if c then m else m') (\<lambda>b _. P b) w"
  "(\<And>x. wp (g x) (\<lambda>b _. P b) w) \<Longrightarrow> (\<And>x. wp (h x) (\<lambda>b _. P b) w) \<Longrightarrow>
     wp (case u of Inl x \<Rightarrow> g x | Inr x \<Rightarrow> h x) (\<lambda>b _. P b) w"
  by (auto split: sum.split)

lemma boundary_failed:
  "wp (resolve_send_boundary env req sp ch combined) (\<lambda>res _. \<forall>out. res = Inl out \<longrightarrow> sr_state (so_result out) = Failed) w"
  unfolding resolve_send_boundary_def by (intro pred_any pred_cases) simp_all

lemma lane_settles:
  assumes "\<And>b. settles sp ch (behind b)"
  shows "settles sp ch (do { res \<leftarrow> resolve_send_boundary env req sp ch combined;
      case res of Inl out \<Rightarrow> State_Monad.return out | Inr b \<Rightarrow> behind b })"
  by (rule settles_bind_pred [OF still.resolve_send_boundary_io boundary_failed])
    (auto intro!: assms settles_failed split: sum.split)

text \<open>A commit in the mode that requires currency leaves no gap, unless the Server did not say.\<close>

definition no_gap :: "SemanticSendRequest \<Rightarrow> SendResult \<Rightarrow> bool" where
  "no_gap req r \<longleftrightarrow> send_anyway req \<or> sr_state r \<noteq> Sent \<or> sr_latest_seq_before_send r \<in> {None, Some (acknowledged r)}"

lemma no_gap_noted [simp]: "no_gap req (r\<lparr>sr_note := n\<rparr>) = no_gap req r"
  by (simp add: no_gap_def)

lemma settle_commit_no_gap:
  assumes "no_gap req r"
  shows "wp (settle_commit env sp ch b r) (\<lambda>r' _. no_gap req r') w"
  unfolding settle_commit_def using assms by (intro pred_any pred_cases) simp_all

lemma finish_no_gap:
  assumes "no_gap req r"
  shows "wp (finish_channel_send env req sp ch b rs envelope basis r) (\<lambda>out _. no_gap req (so_result out)) w"
proof (cases "sr_state r")
  case Sent
  have "wp (settle_commit env sp ch b (r\<lparr>sr_note := n\<rparr>)) (\<lambda>r' _. no_gap req r') w" for n w
    using assms by (intro settle_commit_no_gap) simp
  then show ?thesis unfolding finish_channel_send_def finish_sent_channel_send_def Sent send_state.case
    by (rule pred_bind) (simp add: assms)
next
  case Held
  have "wp (finish_held_channel_send req b rs basis r) (\<lambda>r' _. no_gap req r') w" for w
    unfolding finish_held_channel_send_def using assms by (intro pred_any) simp
  then show ?thesis unfolding finish_channel_send_def Held send_state.case
    by (rule pred_bind, intro pred_any) simp
next
  case Failed
  with assms show ?thesis by (simp add: finish_channel_send_def)
qed

lemma finish_keyless_no_gap:
  assumes "no_gap req r"
  shows "wp (finish_keyless_channel_send env req sp ch b thread nt basis r) (\<lambda>out _. no_gap req (so_result out)) w"
proof (cases "sr_state r")
  case Sent
  have "wp (settle_commit env sp ch b (r\<lparr>sr_note := n\<rparr>)) (\<lambda>r' _. no_gap req r') w" for n w
    using assms by (intro settle_commit_no_gap) simp
  then show ?thesis unfolding finish_keyless_channel_send_def Sent send_state.case
    by (rule pred_bind) (simp add: assms)
next
  case Held
  then show ?thesis unfolding finish_keyless_channel_send_def Held send_state.case
    using assms by (intro pred_any) simp
next
  case Failed
  with assms show ?thesis by (simp add: finish_keyless_channel_send_def)
qed

lemma validated_no_gap:
  assumes "0 \<le> cb_seen_seq b"
  shows "no_gap req (validate_channel_response feq (Answer v) e (freshness_of req b))"
    and "no_gap req (validate_keyless_response feq (Answer v) (freshness_of req b))"
  using assms channel_answers.no_gap [of feq v e "freshness_of req b"]
    keyless_answers.no_gap [of feq v "freshness_of req b"]
  by (auto simp: no_gap_def freshness_of_def)

lemma own_failed: "post_answer sh r = Own x \<Longrightarrow> sr_state x = Failed"
  by (cases r) (auto simp: http_failure_def)

lemma send_attempt_no_gap:
  assumes "0 \<le> cb_seen_seq b"
  shows "wp (send_attempt env (freshness_of req b) rs e) (\<lambda>x _. no_gap req (snd x)) w"
proof -
  have "no_gap req (validate_channel_response feq (post_answer sh r) en (freshness_of req b))" for feq sh r en
    using validated_no_gap(1) [OF assms] own_failed [of sh r]
    by (cases "post_answer sh r") (auto simp: no_gap_def validate_channel_response_def)
  then show ?thesis by (simp add: send_attempt_def post_channel_exact_def request_once_def)
qed

lemma send_behind_no_gap:
  assumes "0 \<le> cb_seen_seq b"
  shows "wp (send_behind env req sp ch b) (\<lambda>out _. no_gap req (so_result out)) w"
proof -
  have failed: "no_gap req (failed_send m k st)" for m k st by (simp add: no_gap_def)
  note attempt = pred_bind [OF send_attempt_no_gap [OF assms]]
  show ?thesis unfolding send_behind_def
    by (rule pred_any, rule pred_any, intro pred_cases, simp add: failed, rule pred_any, rule attempt,
        simp only: prod.case_eq_if, intro pred_cases finish_no_gap, assumption, rule pred_any,
        intro pred_cases finish_no_gap, assumption, rule pred_any, intro pred_cases, simp add: failed,
        rule attempt, simp only: prod.case_eq_if, rule finish_no_gap)
qed

lemma send_keyless_behind_no_gap:
  assumes "0 \<le> cb_seen_seq b"
  shows "wp (send_keyless_behind env req sp ch b) (\<lambda>out _. no_gap req (so_result out)) w"
proof -
  have failed: "no_gap req (failed_send m k st)" for m k st by (simp add: no_gap_def)
  have answer: "wp (post_keyless_exact env body (freshness_of req b)) (\<lambda>a _. case a of
      Inl r \<Rightarrow> no_gap req r
    | Inr raw \<Rightarrow> no_gap req (validate_keyless_response (se_float_eq env) raw (freshness_of req b))) w" for body w
  proof -
    have "case keyless_answer sh r of Inl r \<Rightarrow> no_gap req r
      | Inr raw \<Rightarrow> no_gap req (validate_keyless_response (se_float_eq env) raw (freshness_of req b))" for sh r
    proof (cases r)
      case (Answered v)
      then show ?thesis using validated_no_gap(2) [OF assms] by simp
    qed (simp_all add: failed keyless_http_failure_def validate_keyless_response_def)
    then show ?thesis by (simp add: post_keyless_exact_def request_once_def)
  qed
  have "wp (case p of PrepRefused \<Rightarrow> State_Monad.return (plain_output
         (failed_send ''keyless attachment upload returned no blob_id'' ''protocol'' None))
     | PrepHttp status detail \<Rightarrow> State_Monad.return (plain_output (keyless_http_failure (se_show env) status detail))
     | PrepRaised e \<Rightarrow> State_Monad.return (plain_output (failed_send e ''validation'' None))
     | Prepared body thread nt \<Rightarrow> do {
         basis \<leftarrow> visible_draft_basis sp ch thread;
         answer \<leftarrow> post_keyless_exact env body (freshness_of req b);
         case answer of
           Inl r \<Rightarrow> State_Monad.return (plain_output r)
         | Inr raw \<Rightarrow>
             finish_keyless_channel_send env req sp ch b thread nt basis
               (validate_keyless_response (se_float_eq env) raw (freshness_of req b)) })
      (\<lambda>out _. no_gap req (so_result out)) w" for p w
  proof (cases p)
    case (Prepared body thread nt)
    then show ?thesis
      by simp (rule wp_conseq [OF wp_True], rule wp_conseq [OF answer],
          auto intro!: finish_keyless_no_gap split: sum.splits)
  qed (simp_all add: failed keyless_http_failure_def)
  then show ?thesis unfolding send_keyless_behind_def by (intro pred_any)
qed

lemma boundary_seen:
  "wp (resolve_send_boundary env req sp ch combined) (\<lambda>res _. (\<forall>out. res = Inl out \<longrightarrow> no_gap req (so_result out)) \<and>
     (\<forall>b. res = Inr b \<longrightarrow> 0 \<le> cb_seen_seq b)) w"
  by (rule wp_conseq [OF wp_conj [OF boundary_failed resolve_send_boundary_claim]])
    (auto simp: no_gap_def claim_ok_def)

lemma lane_no_gap:
  assumes "\<And>b w. 0 \<le> cb_seen_seq b \<Longrightarrow> wp (behind b) (\<lambda>out _. no_gap req (so_result out)) w"
  shows "wp (do { res \<leftarrow> resolve_send_boundary env req sp ch combined;
      case res of Inl out \<Rightarrow> State_Monad.return out | Inr b \<Rightarrow> behind b }) (\<lambda>out _. no_gap req (so_result out)) w"
  by (rule pred_bind [OF boundary_seen]) (auto intro: assms split: sum.splits)

lemma lanes_settle:
  "settles sp ch (send_channel env req sp ch)" "settles sp ch (send_keyless_channel env req sp ch)"
  "wp (send_channel env req sp ch) (\<lambda>out _. no_gap req (so_result out)) w"
  "wp (send_keyless_channel env req sp ch) (\<lambda>out _. no_gap req (so_result out)) w"
  unfolding send_channel_def send_keyless_channel_def
  by (rule lane_settles send_behind_settles send_keyless_behind_settles
      lane_no_gap [OF send_behind_no_gap] lane_no_gap [OF send_keyless_behind_no_gap] | assumption)+

text \<open>
  C10. The boundary of the turn moves only without a gap: a send in either lane advances it at most
  once, to the sequence of its own commit, and exactly when the Server placed that commit right behind
  what the sender had acknowledged; a send that required currency and was committed always has this,
  unless the answer is an old replay that does not say.
\<close>

theorem commits_advance_without_gap:
  assumes "run_state (if keyless then send_keyless_channel env req sp ch else send_channel env req sp ch) w = (out, w')"
  shows "sw_advances w' = sw_advances w @ gapless sp ch (so_result out) \<and>
    (\<not> send_anyway req \<longrightarrow> sr_state (so_result out) = Sent \<longrightarrow>
       sr_latest_seq_before_send (so_result out) \<in> {None, Some (acknowledged (so_result out))})"
proof -
  have "settles sp ch (if keyless then send_keyless_channel env req sp ch else send_channel env req sp ch)"
    "wp (if keyless then send_keyless_channel env req sp ch else send_channel env req sp ch)
       (\<lambda>out _. no_gap req (so_result out)) w"
    using lanes_settle by (cases keyless; simp)+
  moreover from this(1) have "wp (if keyless then send_keyless_channel env req sp ch else send_channel env req sp ch)
      (\<lambda>out w'. sw_advances w' = sw_advances w @ gapless sp ch (so_result out)) w"
    by (simp add: settles_def same_advances_def)
  ultimately have "no_gap req (so_result out)" "sw_advances w' = sw_advances w @ gapless sp ch (so_result out)"
    using wp_run [OF _ assms] by blast+
  then show ?thesis unfolding no_gap_def by blast
qed

text \<open>A normal send that the Server commits at sequence 10, right behind the 9 that the turn has seen.\<close>

definition commit_answer :: json where
  "commit_answer = JObj [(''state'', JStr ''sent''), (''envelope_id'', JStr ''out1''), (''seq'', JInt 10),
     (''replay'', JBool False), (''missing_devices'', JArr []),
     (''freshness'', JObj [(''mode'', JStr ''require_current''), (''context_baseline_seq'', JInt 9),
        (''seen_seq'', JInt 9), (''latest_seq_before_send'', JInt 9)])]"

definition commit_world :: send_world where
  "commit_world = held_world\<lparr>sw_replies := (\<lambda>n. Answered commit_answer)\<rparr>"

definition commit_request :: SemanticSendRequest where
  "commit_request = sample_request\<lparr>destination := ''ch''\<rparr>"

lemma commit_sent:
  "sr_state (so_result (fst (run_state (send_channel sample_env commit_request ''sp'' ''ch'') commit_world))) = Sent \<and>
   gapless ''sp'' ''ch'' (so_result (fst (run_state (send_channel sample_env commit_request ''sp'' ''ch'') commit_world))) =
     [(''sp'', ''ch'', 10)]"
proof -
  let ?fr = "\<lparr>fr_context_baseline_seq = None, fr_seen_seq = 9, fr_mode = ''require_current''\<rparr> :: Freshness"
  let ?e = "JObj [(''envelope_id'', JStr ''out1'')]"
  have v: "sr_state (validate_channel_response (\<lambda>r n. False) (Answer commit_answer) ?e ?fr) = Sent"
    "gapless ''sp'' ''ch'' (validate_channel_response (\<lambda>r n. False) (Answer commit_answer) ?e ?fr) = [(''sp'', ''ch'', 10)]"
    by code_simp+
  have e: "get_active_turn_through_seq ''sp'' ''ch'' (sc_rt (sw_state commit_world)) = Some 9"
    "get_context_baseline ''sp'' ''ch'' (rt_db (sc_rt (sw_state commit_world))) = None"
    "act_visible_message_ids (active (sc_rt (sw_state commit_world))) = []"
    by code_simp+
  have o: "sw_others commit_world = (\<lambda>n s. s)" "sw_replies commit_world = (\<lambda>n. Answered commit_answer)"
    by (simp_all add: commit_world_def held_world_def)
  have fin: "wp (settle_commit env ''sp'' ''ch'' b (validate_channel_response (\<lambda>r n. False) (Answer commit_answer) ?e ?fr\<lparr>sr_note := n\<rparr>))
      (\<lambda>r' _. sr_state r' = Sent \<and> gapless ''sp'' ''ch'' r' = [(''sp'', ''ch'', 10)]) w" for env b n w
    by (rule wp_conseq [OF settle_commit_wp [of _ w w]]) (use v in \<open>auto simp: same_advances_def\<close>)
  have "wp (send_channel sample_env commit_request ''sp'' ''ch'') (\<lambda>out _. sr_state (so_result out) = Sent \<and>
      gapless ''sp'' ''ch'' (so_result out) = [(''sp'', ''ch'', 10)]) commit_world"
    unfolding send_channel_def resolve_send_boundary_def active_boundary_def
    using e o v
    by (simp add: negative_def materialize_attachments_def validate_attachment_targets_def
        commit_request_def sample_request_def make_boundary_wp send_behind_def channel_encrypt_policy_def
        resolve_route_and_content_def visible_draft_basis_def send_attempt_def post_channel_exact_def request_once_def
        finish_channel_send_def finish_sent_channel_send_def sample_env_def freshness_of_def get_default_def)
      (rule wp_conseq [OF fin], simp)
  then show ?thesis by (simp add: wp_def case_prod_beta)
qed

theorem commits_advance_without_gap_witness:
  "sw_advances (snd (run_state (send_channel sample_env commit_request ''sp'' ''ch'') commit_world)) =
     sw_advances commit_world @ [(''sp'', ''ch'', 10)] \<and>
   sr_latest_seq_before_send (so_result (fst (run_state (send_channel sample_env commit_request ''sp'' ''ch'') commit_world))) \<in>
     {None, Some (acknowledged (so_result
        (fst (run_state (send_channel sample_env commit_request ''sp'' ''ch'') commit_world))))}"
  using commits_advance_without_gap [where keyless = False and env = sample_env and req = commit_request
      and sp = "''sp''" and ch = "''ch''" and w = commit_world, OF prod.collapse [symmetric]] commit_sent
  by (simp add: commit_request_def sample_request_def)

end
