(* ===== verification/Send_Ledger.thy ===== *)
theory Send_Ledger
  imports Send_Request Send_Response Settle_Props
begin

section \<open>The ledger of sends\<close>

text \<open>
  \<open>TrackingSendDelegate\<close> (\<open>agent/global_inbox_send.py\<close>) with \<open>SendAttemptState\<close>
  (\<open>agent/global_inbox_types.py\<close>): the worker's wrapper of the send coordinator. It notes an attempt before
  the coordinator runs and its state afterwards, records the covers of a committed send in the store
  and says how many messages of people the turn has not covered yet. The tool calls of a turn may
  overlap; nothing serializes them. Logging is left out.
\<close>

subsection \<open>Attempts\<close>

record SendAttemptState =
  sa_attempts :: nat
  sa_destinations :: "string list"
  sa_states :: "string list"

definition record_attempt :: "string \<Rightarrow> string \<Rightarrow> SendAttemptState \<Rightarrow> SendAttemptState" where
  "record_attempt dest state a = a\<lparr>sa_attempts := sa_attempts a + 1, sa_destinations := sa_destinations a @ [dest],
     sa_states := sa_states a @ [state]\<rparr>"

definition reset_attempts :: "SendAttemptState \<Rightarrow> SendAttemptState" where
  "reset_attempts a = \<lparr>sa_attempts = 0, sa_destinations = [], sa_states = []\<rparr>"

record SendTrace =
  sd_destination :: string
  sd_send_anyway :: bool
  sd_origin_turn_id :: "string option"
  sd_origin_provider_session_id :: "string option"
  sd_transport :: string
  sd_mode :: "string option"
  sd_attempt_phase :: string
  sd_attempt :: nat
  sd_send_attempt_id :: string

definition opt_str :: "string \<Rightarrow> string option" where
  "opt_str t = (if t = [] then None else Some t)"

text \<open>\<open>_build_trace\<close>, which notes the attempt.\<close>

definition build_trace :: "bool \<Rightarrow> runtime \<Rightarrow> SemanticSendRequest \<Rightarrow> SendAttemptState \<Rightarrow> SendTrace \<times> SendAttemptState" where
  "build_trace keyless rt req a =
     (let dest = destination req; is_dm = starts_with ''@'' dest; a1 = record_attempt dest ''attempting'' a;
          turn = act_turn_id (active rt)
      in (\<lparr>sd_destination = dest, sd_send_anyway = send_anyway req, sd_origin_turn_id = opt_str turn,
           sd_origin_provider_session_id = opt_str (or_empty (act_provider_session_id (active rt))),
           sd_transport = (if keyless then ''keyless'' else if is_dm then ''dm'' else ''channel''),
           sd_mode = (if is_dm then None else Some (if send_anyway req then ''send_anyway'' else ''require_current'')),
           sd_attempt_phase = (if (dest, ''held'') \<in> set (zip (sa_destinations a) (sa_states a)) then ''reconsider'' else ''initial''),
           sd_attempt = sa_attempts a1,
           sd_send_attempt_id = (if turn \<noteq> [] then turn else ''unbound'') @ '':'' @ int_dec (int (sa_attempts a1))\<rparr>, a1))"

text \<open>\<open>self.attempts.states[-1] = state\<close>; \<open>None\<close> is \<open>IndexError\<close>.\<close>

definition note_state :: "string \<Rightarrow> SendAttemptState \<Rightarrow> SendAttemptState option" where
  "note_state state a = (if sa_states a = [] then None else Some (a\<lparr>sa_states := butlast (sa_states a) @ [state]\<rparr>))"

text \<open>The probe that the agent asks whether a turn has sent anything (\<open>portal/worker_run.py\<close>).\<close>

definition send_ledger :: "SendAttemptState \<Rightarrow> nat" where
  "send_ledger a = count_list (sa_states a) ''sent''"

subsection \<open>Covers\<close>

record delegate_output =
  dl_result :: SendResult
  dl_covers_recorded :: "string list option"
  dl_covers_unknown :: "string list"
  dl_covers_dropped :: "string list option"
  dl_coverage_turn_id :: "string option"
  dl_active_human_uncovered_count :: "nat option"

definition undecorated :: "SendResult \<Rightarrow> delegate_output" where
  "undecorated r = \<lparr>dl_result = r, dl_covers_recorded = None, dl_covers_unknown = [], dl_covers_dropped = None,
     dl_coverage_turn_id = None, dl_active_human_uncovered_count = None\<rparr>"

definition record_covers :: "int \<Rightarrow> SemanticSendRequest \<Rightarrow> delegate_output \<Rightarrow> runtime \<Rightarrow> delegate_output \<times> runtime" where
  "record_covers now req out rt =
     (if covers req = [] then (out, rt)
      else case add_message_covers now (covers req) ''send'' (sr_envelope_id (dl_result out)) None
                  (opt_str (act_turn_id (active rt))) (rt_db rt) of
          Inl _ \<Rightarrow> (out, rt)
        | Inr ((recorded, unknown), d) \<Rightarrow>
            (out\<lparr>dl_covers_recorded := Some recorded, dl_covers_unknown := unknown\<rparr>, rt\<lparr>rt_db := d\<rparr>))"

text \<open>The rows of the turn that a person sent; \<open>None\<close> where \<open>sender_type\<close> raises.\<close>

fun human_ids :: "string list \<Rightarrow> message_row list \<Rightarrow> string list option" where
  "human_ids aliases [] = Some []"
| "human_ids aliases (m # ms) =
     (case (sender_type aliases m, human_ids aliases ms) of
        (Some kind, Some rest) \<Rightarrow> Some (if kind = ''agent'' \<or> kind = ''system'' then rest else envelope_id m # rest)
      | _ \<Rightarrow> None)"

definition attest_active_human_covers ::
  "string list \<Rightarrow> SendTrace \<Rightarrow> delegate_output \<Rightarrow> runtime \<Rightarrow> delegate_output" where
  "attest_active_human_covers aliases tr out rt =
     (let a = active rt; turn = opt_str (act_turn_id a); session = opt_str (or_empty (act_provider_session_id a));
          rows = get_in_turn_messages (act_turn_id a) session (rt_db rt)
      in if dl_covers_recorded out \<in> {None, Some []} then out
         else if turn = None \<or> session = None \<or> act_message_ids a = [] then out
         else if turn \<noteq> sd_origin_turn_id tr \<or> session \<noteq> sd_origin_provider_session_id tr then out
         else if set (map envelope_id rows) \<noteq> set (act_message_ids a) then out
         else case human_ids aliases rows of
             None \<Rightarrow> out
           | Some ids \<Rightarrow>
               out\<lparr>dl_coverage_turn_id := turn,
                   dl_active_human_uncovered_count := Some (card (set ids - get_covered_ids ids (rt_db rt)))\<rparr>)"

fun send_state_text :: "send_state \<Rightarrow> string" where
  "send_state_text Sent = ''sent''"
| "send_state_text Held = ''held''"
| "send_state_text Failed = ''failed''"

text \<open>\<open>send\<close> after the coordinator has returned \<open>r\<close>; \<open>between\<close> is what other tasks do to the runtime
  between the record of the covers and the attestation. The two reads of the attestation see one store.\<close>

definition finish_delegate ::
  "int \<Rightarrow> string list \<Rightarrow> SemanticSendRequest \<Rightarrow> SendTrace \<Rightarrow> SendResult \<Rightarrow> (runtime \<Rightarrow> runtime) \<Rightarrow>
   SendAttemptState \<Rightarrow> runtime \<Rightarrow> (delegate_output \<times> SendAttemptState \<times> runtime) option" where
  "finish_delegate now aliases req tr r between a rt =
     (case note_state (send_state_text (sr_state r)) a of
        None \<Rightarrow> None
      | Some a' \<Rightarrow> Some (case sr_state r of
            Sent \<Rightarrow>
              (case record_covers now req (undecorated r) rt of
                 (out, rt1) \<Rightarrow> (attest_active_human_covers aliases tr out (between rt1), a', between rt1))
          | Held \<Rightarrow>
              (if covers req = [] then undecorated r
               else (undecorated r)\<lparr>dl_covers_recorded := Some [], dl_covers_dropped := Some (covers req)\<rparr>, a', rt)
          | Failed \<Rightarrow> (undecorated r, a', rt)))"

subsection \<open>The attestation\<close>

lemma human_ids_set:
  "human_ids aliases ms = Some ids \<Longrightarrow>
     set ids = {envelope_id m |m. m \<in> set ms \<and> sender_type aliases m \<notin> {Some ''agent'', Some ''system''}}"
proof (induction ms arbitrary: ids)
  case (Cons m ms)
  then obtain kind rest where k: "sender_type aliases m = Some kind" "human_ids aliases ms = Some rest"
    "ids = (if kind = ''agent'' \<or> kind = ''system'' then rest else envelope_id m # rest)"
    by (auto split: option.splits)
  show ?case
    unfolding k(3) using Cons.IH [OF k(2)] k(1)
    by (cases "kind = ''agent''"; cases "kind = ''system''") auto
qed simp

definition person :: "string list \<Rightarrow> message_row \<Rightarrow> bool" where
  "person aliases m \<longleftrightarrow> sender_type aliases m \<notin> {Some ''agent'', Some ''system''}"

definition has_cover :: "db \<Rightarrow> string \<Rightarrow> bool" where
  "has_cover d i \<longleftrightarrow> i \<noteq> [] \<and> i \<in> cv_covered_envelope_id ` set (message_covers d)"

lemma covered_members:
  assumes "i \<in> set ids"
  shows "i \<in> get_covered_ids ids d \<longleftrightarrow> has_cover d i"
proof -
  let ?ids = "dict_fromkeys (filter (\<lambda>i. i \<noteq> []) ids)"
  have "?ids \<noteq> []" if "i \<noteq> []"
  proof -
    have "i \<in> set ?ids" using assms that by simp
    then show ?thesis by force
  qed
  then show ?thesis using assms
    by (auto simp: get_covered_ids_def covered_among_def batched_select_ids_eq Let_def has_cover_def)
qed

text \<open>Either nothing is added, or every check has passed.\<close>

lemma attest_cases:
  fixes rt :: runtime
  defines "a \<equiv> active rt"
  defines "rows \<equiv> get_in_turn_messages (act_turn_id a) (opt_str (or_empty (act_provider_session_id a))) (rt_db rt)"
  shows "attest_active_human_covers aliases tr out rt = out \<or>
    (\<exists>ids. opt_str (act_turn_id a) \<noteq> None \<and> sd_origin_turn_id tr = opt_str (act_turn_id a) \<and>
       set (map envelope_id rows) = set (act_message_ids a) \<and> human_ids aliases rows = Some ids \<and>
       attest_active_human_covers aliases tr out rt =
         out\<lparr>dl_coverage_turn_id := opt_str (act_turn_id a),
             dl_active_human_uncovered_count := Some (card (set ids - get_covered_ids ids (rt_db rt)))\<rparr>)"
  unfolding attest_active_human_covers_def Let_def a_def [symmetric] rows_def [symmetric]
  by (simp split: option.split)

lemma attested:
  assumes "dl_active_human_uncovered_count out = None"
    "dl_active_human_uncovered_count (attest_active_human_covers aliases tr out rt) = Some n"
  defines "a \<equiv> active rt"
  defines "rows \<equiv> get_in_turn_messages (act_turn_id a) (opt_str (or_empty (act_provider_session_id a))) (rt_db rt)"
  shows "dl_coverage_turn_id (attest_active_human_covers aliases tr out rt) = sd_origin_turn_id tr \<and>
    sd_origin_turn_id tr = Some (act_turn_id a) \<and> set (map envelope_id rows) = set (act_message_ids a) \<and>
    n = card {envelope_id m |m. m \<in> set rows \<and> person aliases m \<and> \<not> has_cover (rt_db rt) (envelope_id m)}"
proof -
  from attest_cases [of aliases tr out rt] assms(1,2) obtain ids where
    turn: "opt_str (act_turn_id a) \<noteq> None" "sd_origin_turn_id tr = opt_str (act_turn_id a)"
    and rows: "set (map envelope_id rows) = set (act_message_ids a)" "human_ids aliases rows = Some ids"
    and out: "attest_active_human_covers aliases tr out rt =
         out\<lparr>dl_coverage_turn_id := opt_str (act_turn_id a),
             dl_active_human_uncovered_count := Some (card (set ids - get_covered_ids ids (rt_db rt)))\<rparr>"
    unfolding a_def rows_def by (elim disjE exE conjE) simp_all
  have "set ids - get_covered_ids ids (rt_db rt) =
      {envelope_id m |m. m \<in> set rows \<and> person aliases m \<and> \<not> has_cover (rt_db rt) (envelope_id m)}"
    using covered_members [of _ ids "rt_db rt"] unfolding human_ids_set [OF rows(2)] person_def by blast
  moreover have "n = card (set ids - get_covered_ids ids (rt_db rt))" using assms(2) by (simp add: out)
  moreover have "opt_str (act_turn_id a) = Some (act_turn_id a)" using turn(1) by (simp add: opt_str_def split: if_splits)
  ultimately show ?thesis using turn(2) rows(1) by (simp add: out)
qed

text \<open>
  C34. The coverage fact of a send is exact: a result carries it only when the send was committed and the
  turn that sent is still the active one, with the store agreeing on its messages; the number is that
  of the messages of this turn from people that no stored cover names, so zero means none is left.
\<close>

theorem attestation_is_exact:
  assumes "finish_delegate now aliases req tr r between atts rt = Some (out, atts', rt')"
    and "dl_active_human_uncovered_count out = Some n"
  shows "sr_state r = Sent \<and> dl_coverage_turn_id out = sd_origin_turn_id tr \<and>
    sd_origin_turn_id tr = Some (act_turn_id (active rt')) \<and>
    (let rows = get_in_turn_messages (act_turn_id (active rt')) (opt_str (or_empty (act_provider_session_id (active rt')))) (rt_db rt')
     in set (map envelope_id rows) = set (act_message_ids (active rt')) \<and>
        n = card {envelope_id m |m. m \<in> set rows \<and> person aliases m \<and> \<not> has_cover (rt_db rt') (envelope_id m)})"
proof -
  obtain out1 rt1 where s: "sr_state r = Sent" "record_covers now req (undecorated r) rt = (out1, rt1)"
    "rt' = between rt1" "out = attest_active_human_covers aliases tr out1 rt'"
    using assms
    by (cases "sr_state r") (auto simp: finish_delegate_def undecorated_def split: option.splits prod.splits if_splits)
  have "dl_active_human_uncovered_count out1 = None"
    using s(2) by (auto simp: record_covers_def undecorated_def split: if_splits sum.splits)
  from attested [OF this assms(2) [unfolded s(4)]] show ?thesis unfolding s(4) Let_def using s(1) by blast
qed

definition sample_send :: SemanticSendRequest where
  "sample_send = \<lparr>destination = ''ch'', msg_text = ''hi'', attachment_paths = [], caption = [], root_id = [],
     visibility_level = ''default'', send_anyway = False, covers = [''e1''], require_thread = False\<rparr>"

definition no_attempts :: SendAttemptState where
  "no_attempts = \<lparr>sa_attempts = 0, sa_destinations = [], sa_states = []\<rparr>"

definition sample_finish :: "(delegate_output \<times> SendAttemptState \<times> runtime) option" where
  "sample_finish = (case build_trace False turn_rt sample_send no_attempts of
     (tr, atts) \<Rightarrow> finish_delegate 30 [] sample_send tr (send_result Sent) id atts turn_rt)"

theorem attestation_is_exact_witness:
  "\<exists>out atts rt. sample_finish = Some (out, atts, rt) \<and> dl_active_human_uncovered_count out = Some 1 \<and>
     dl_coverage_turn_id out = Some (act_turn_id (active rt))"
proof -
  have "map_option (\<lambda>(out, atts, rt). dl_active_human_uncovered_count out) sample_finish = Some (Some 1)" by code_simp
  then obtain out atts rt where f: "sample_finish = Some (out, atts, rt)" "dl_active_human_uncovered_count out = Some 1"
    by (cases sample_finish) auto
  from f(1) have "finish_delegate 30 [] sample_send (fst (build_trace False turn_rt sample_send no_attempts)) (send_result Sent) id
      (snd (build_trace False turn_rt sample_send no_attempts)) turn_rt = Some (out, atts, rt)"
    by (simp add: sample_finish_def split_beta)
  from attestation_is_exact [OF this f(2)] have "dl_coverage_turn_id out = Some (act_turn_id (active rt))"
    by (elim conjE) simp
  with f show ?thesis by (intro exI conjI)
qed

subsection \<open>Overlapping sends\<close>

definition note_all :: "string list \<Rightarrow> SendAttemptState \<Rightarrow> SendAttemptState option" where
  "note_all states a = foldl (\<lambda>o' state. Option.bind o' (note_state state)) (Some a) states"

lemma begin_all:
  "sa_states (fold (\<lambda>q b. snd (build_trace keyless rt q b)) reqs a) = sa_states a @ replicate (length reqs) ''attempting''"
  by (induction reqs arbitrary: a) (simp_all add: build_trace_def record_attempt_def Let_def)

lemma note_all_last:
  assumes "sa_states a \<noteq> []" "states \<noteq> []"
  shows "note_all states a = Some (a\<lparr>sa_states := butlast (sa_states a) @ [last states]\<rparr>)"
  using assms(2) by (induction states rule: rev_nonempty_induct) (simp_all add: note_all_def note_state_def assms(1))

text \<open>
  C38. The ledger loses commits of sends that overlap: when several sends are begun before the first
  of them ends, every end writes its state to the last entry, so all that remains is the state of the
  one that ended last. The count of sent messages grows by at most one however many were committed,
  and not at all when the last one to end failed; a single send is counted right.
\<close>

theorem overlapping_sends_miscount:
  assumes "reqs \<noteq> []" "length states = length reqs"
  shows "\<exists>a'. note_all states (fold (\<lambda>q b. snd (build_trace keyless rt q b)) reqs a) = Some a' \<and>
    sa_states a' = sa_states a @ replicate (length reqs - 1) ''attempting'' @ [last states] \<and>
    send_ledger a' = send_ledger a + (if last states = ''sent'' then 1 else 0)"
proof -
  let ?b = "fold (\<lambda>q b. snd (build_trace keyless rt q b)) reqs a"
  obtain n where n: "length reqs = Suc n" using assms(1) by (cases reqs) auto
  have b: "sa_states ?b = (sa_states a @ replicate n ''attempting'') @ [''attempting'']"
    by (simp only: begin_all n replicate_append_same [symmetric] replicate_Suc append_assoc)
  have "states \<noteq> []" using assms n by auto
  then have "note_all states ?b = Some (?b\<lparr>sa_states := sa_states a @ replicate n ''attempting'' @ [last states]\<rparr>)"
    using note_all_last [of ?b states] b by (simp only: butlast_snoc) simp
  moreover have "count_list (replicate n ''attempting'') ''sent'' = 0" by (induction n) simp_all
  ultimately show ?thesis by (simp add: n send_ledger_def)
qed

theorem overlapping_sends_miscount_witness:
  "\<exists>a'. note_all [''sent'', ''failed''] (fold (\<lambda>q b. snd (build_trace False \<lparr>rt_db = empty_db, active = cleared_union\<rparr> q b))
      [sample_send, sample_send] no_attempts) = Some a' \<and> send_ledger a' = 0"
proof -
  have "[sample_send, sample_send] \<noteq> []" "length [''sent'', ''failed''] = length [sample_send, sample_send]" by simp_all
  from overlapping_sends_miscount [OF this, of False "\<lparr>rt_db = empty_db, active = cleared_union\<rparr>"
      no_attempts]
  show ?thesis by (elim exE conjE, intro exI conjI) (assumption, simp add: send_ledger_def no_attempts_def)
qed

end
