(* ===== verification/Runtime_Events.thy ===== *)
theory Runtime_Events
  imports Json_Values
begin

section \<open>Runtime events\<close>

text \<open>
  \<open>agent/runtime_events.py\<close> with the failure codes of \<open>agent/provider_failures.py\<close>: the events a worker
  uploads about its turns, their validation, and the projection of the harness's events onto them. An
  event tells the operator that a turn started, used a tool, asked for a permission or ended; what the
  model reads or writes has no place in it. Fresh identifiers are arguments. Freezing and thawing a
  payload does not change a JSON value.
\<close>

subsection \<open>Vocabulary\<close>

definition RUNTIME_EVENT_TYPES :: "string list" where
  "RUNTIME_EVENT_TYPES = [''turn.started'', ''activity.updated'', ''tool.updated'', ''permission.updated'', ''turn.finished'']"

definition TOOL_STATES :: "string list" where "TOOL_STATES = [''running'', ''succeeded'', ''failed'']"

definition PERMISSION_STATES :: "string list" where
  "PERMISSION_STATES = [''pending'', ''approved'', ''denied'', ''expired'']"

definition TURN_OUTCOMES :: "string list" where
  "TURN_OUTCOMES = [''succeeded'', ''failed'', ''cancelled'', ''abandoned'']"

text \<open>\<open>PROVIDER_FAILURES\<close>: for each code whether it is retryable, and its code in runtime events.\<close>

definition PROVIDER_FAILURES :: "(string \<times> bool \<times> string) list" where
  "PROVIDER_FAILURES =
     [(''authentication'', False, ''permission_denied''), (''permission_denied'', False, ''permission_denied''),
      (''codex_upgrade_required'', False, ''unknown''), (''model_not_found'', False, ''unknown''),
      (''not_entitled'', False, ''permission_denied''), (''budget_exceeded'', False, ''provider_unavailable''),
      (''plan_drained'', False, ''provider_unavailable''), (''extra_usage_required'', False, ''provider_unavailable''),
      (''quota_exhausted'', False, ''provider_unavailable''), (''rate_limit'', True, ''provider_unavailable''),
      (''provider_unavailable'', True, ''provider_unavailable''), (''provider_error'', False, ''unknown''),
      (''runtime_exited'', True, ''runtime_exited''), (''resume_unconfirmed'', True, ''runtime_exited''),
      (''protocol_error'', False, ''protocol_error''), (''cancel_failed'', False, ''cancel_failed''),
      (''unknown'', False, ''unknown'')]"

definition RUNTIME_EVENT_FAILURE_MESSAGES :: "(string \<times> string) list" where
  "RUNTIME_EVENT_FAILURE_MESSAGES =
     [(''provider_unavailable'', ''The Agent runtime became unavailable.''),
      (''runtime_exited'', ''The Agent runtime stopped before completing the turn.''),
      (''protocol_error'', ''The Agent runtime returned an invalid response.''),
      (''permission_denied'', ''The requested operation was not permitted.''),
      (''cancel_failed'', ''The Agent runtime could not cancel the turn.''),
      (''unknown'', ''The Agent runtime could not complete the turn.'')]"

definition runtime_event_failure_code :: "string \<Rightarrow> string" where
  "runtime_event_failure_code code =
     (case map_of PROVIDER_FAILURES code of Some (_, event_code) \<Rightarrow> event_code | None \<Rightarrow> ''unknown'')"

definition provider_failure_retryable :: "string \<Rightarrow> bool \<Rightarrow> bool" where
  "provider_failure_retryable code explicitly =
     (case map_of PROVIDER_FAILURES code of Some (retryable, _) \<Rightarrow> retryable | None \<Rightarrow> explicitly)"

definition safe_error :: "string \<Rightarrow> bool \<Rightarrow> json" where
  "safe_error code retryable =
     (let normalized = runtime_event_failure_code code
      in JObj [(''code'', JStr normalized),
               (''message'', JStr (the (map_of RUNTIME_EVENT_FAILURE_MESSAGES normalized))),
               (''retryable'', JBool retryable)])"

subsection \<open>Events and their validation\<close>

record RuntimeEvent =
  ev_agent_id :: string
  ev_session_ref :: string
  ev_turn_ref :: string
  ev_type :: string
  ev_payload :: json
  ev_event_id :: string
  ev_occurred_at :: string
  ev_version :: json

datatype event_error = EventValueError string | EventTypeError

text \<open>\<open>value in names\<close> for a set of strings: a list or a dict cannot be hashed.\<close>

fun in_names :: "string list \<Rightarrow> json option \<Rightarrow> event_error + bool" where
  "in_names names (Some (JArr _)) = Inl EventTypeError"
| "in_names names (Some (JObj _)) = Inl EventTypeError"
| "in_names names (Some (JStr t)) = Inr (t \<in> set names)"
| "in_names names _ = Inr False"

definition require :: "event_error + bool \<Rightarrow> string \<Rightarrow> event_error option" where
  "require check msg = (case check of Inl e \<Rightarrow> Some e | Inr ok \<Rightarrow> if ok then None else Some (EventValueError msg))"

text \<open>The first check that fails.\<close>

fun first_error :: "event_error option list \<Rightarrow> event_error option" where
  "first_error [] = None"
| "first_error (None # cs) = first_error cs"
| "first_error (Some e # cs) = Some e"

definition nonneg_int :: "json option \<Rightarrow> bool" where
  "nonneg_int v = (case py_int v of None \<Rightarrow> False | Some i \<Rightarrow> 0 \<le> i)"

definition positive_int :: "json option \<Rightarrow> bool" where
  "positive_int v = (case py_int v of None \<Rightarrow> False | Some i \<Rightarrow> 0 < i)"

definition tokens_ok :: "json option \<Rightarrow> bool" where
  "tokens_ok v = (case v of
       Some (JObj kvs) \<Rightarrow> set (map fst kvs) = {''input'', ''output''} \<and> list_all (\<lambda>kv. nonneg_int (Some (snd kv))) kvs
     | _ \<Rightarrow> False)"

definition check_activity :: "json \<Rightarrow> event_error option list" where
  "check_activity p =
     [require (Inr (keys_of p = {''text''})) ''activity.updated requires only text'',
      (if json_get p ''text'' = Some JNull then None
       else require (in_names [''Working''] (json_get p ''text'')) ''activity text must use the fixed metadata vocabulary'')]"

definition check_tool :: "json \<Rightarrow> event_error option list" where
  "check_tool p =
     [require (Inr (keys_of p = {''tool_call_ref'', ''label'', ''state''})) ''tool.updated missing required fields'',
      require (Inr (json_get p ''label'' = Some (JStr ''Tool''))) ''tool label must use the fixed metadata vocabulary'',
      require (in_names TOOL_STATES (json_get p ''state'')) ''invalid tool state'']"

definition check_permission :: "json \<Rightarrow> event_error option list" where
  "check_permission p =
     [require (Inr ({''permission_ref'', ''state''} \<subseteq> keys_of p \<and> keys_of p \<subseteq> {''permission_ref'', ''state'', ''title''}))
        ''permission.updated missing required fields'',
      require (Inr (''title'' \<in> keys_of p \<longrightarrow> json_get p ''title'' = Some (JStr ''Permission required'')))
        ''permission title must use the fixed metadata vocabulary'',
      require (in_names PERMISSION_STATES (json_get p ''state'')) ''invalid permission state'']"

definition check_error :: "json \<Rightarrow> event_error option list" where
  "check_error e =
     [require (Inr (is_mapping e \<and> keys_of e = {''code'', ''message'', ''retryable''})) ''turn.finished error is invalid'',
      require (in_names (map fst RUNTIME_EVENT_FAILURE_MESSAGES) (json_get e ''code'')) ''turn.finished error code is invalid'',
      require (Inr (json_get e ''message'' =
        map_option JStr (Option.bind (py_text (json_get e ''code'')) (map_of RUNTIME_EVENT_FAILURE_MESSAGES))))
        ''turn.finished error message is invalid'',
      require (Inr (py_bool (json_get e ''retryable'') \<noteq> None)) ''turn.finished error retryable is invalid'']"

definition check_finished :: "json \<Rightarrow> event_error option list" where
  "check_finished p =
     (let outcome = json_get p ''outcome''; tokens = json_get p ''tokens''; context = json_get p ''current_context''
      in [require (Inr (keys_of p \<subseteq> {''outcome'', ''error'', ''tokens'', ''current_context''})) ''turn.finished has unsupported fields'',
          require (in_names TURN_OUTCOMES outcome) ''invalid turn outcome'',
          require (Inr (is_none tokens \<or> tokens_ok tokens)) ''turn.finished tokens are invalid'',
          require (Inr (is_none context \<or> positive_int context)) ''turn.finished current_context is invalid'',
          require (Inr (outcome = Some (JStr ''succeeded'') \<or> is_none tokens \<and> is_none context))
            ''turn.finished usage requires succeeded outcome'',
          require (Inr (outcome = Some (JStr ''failed'') \<or> ''error'' \<notin> keys_of p)) ''turn.finished error requires failed outcome''] @
         (case json_get p ''error'' of None \<Rightarrow> [] | Some e \<Rightarrow> check_error e))"

definition validate_runtime_event :: "(string \<Rightarrow> int \<Rightarrow> bool) \<Rightarrow> RuntimeEvent \<Rightarrow> event_error option" where
  "validate_runtime_event feq ev =
     (let p = ev_payload ev; t = ev_type ev
      in first_error
        ([require (Inr (eq_int feq (Some (ev_version ev)) 1)) ''runtime event version must be 1'',
          require (Inr (t \<in> set RUNTIME_EVENT_TYPES)) (''unsupported runtime event type: '' @ t),
          require (Inr (ev_event_id ev \<noteq> [] \<and> ev_agent_id ev \<noteq> [] \<and> ev_session_ref ev \<noteq> [] \<and> ev_turn_ref ev \<noteq> []))
            ''runtime event references must be non-empty'',
          require (Inr (is_mapping p)) ''payload must be an object''] @
         (if t = ''turn.started'' then [require (Inr (p = JObj [])) ''turn.started payload must be empty'']
          else if t = ''activity.updated'' then check_activity p
          else if t = ''tool.updated'' then check_tool p
          else if t = ''permission.updated'' then check_permission p
          else if t = ''turn.finished'' then check_finished p
          else [])))"

text \<open>\<open>RuntimeEvent(...)\<close> with its \<open>__post_init__\<close>, and \<open>as_dict\<close>.\<close>

definition runtime_event :: "(string \<Rightarrow> int \<Rightarrow> bool) \<Rightarrow> RuntimeEvent \<Rightarrow> event_error + RuntimeEvent" where
  "runtime_event feq ev = (case validate_runtime_event feq ev of Some e \<Rightarrow> Inl e | None \<Rightarrow> Inr ev)"

definition event_dict :: "RuntimeEvent \<Rightarrow> json" where
  "event_dict ev = JObj
     [(''version'', ev_version ev), (''event_id'', JStr (ev_event_id ev)), (''agent_id'', JStr (ev_agent_id ev)),
      (''session_ref'', JStr (ev_session_ref ev)), (''turn_ref'', JStr (ev_turn_ref ev)),
      (''scope'', JObj [(''kind'', JStr ''operator'')]), (''type'', JStr (ev_type ev)),
      (''occurred_at'', JStr (ev_occurred_at ev)), (''payload'', ev_payload ev)]"

subsection \<open>The order of a turn\<close>

record LifecycleValidator =
  lv_active :: "string option"
  lv_finished :: "string list"

definition FINISHED_CAPACITY :: nat where "FINISHED_CAPACITY = 1024"

definition accept :: "RuntimeEvent \<Rightarrow> LifecycleValidator \<Rightarrow> event_error + LifecycleValidator" where
  "accept ev v =
     (let turn = ev_turn_ref ev
      in if turn \<in> set (lv_finished v) then Inl (EventValueError ''turn is already terminal'')
         else if ev_type ev = ''turn.started''
         then (if lv_active v \<noteq> None then Inl (EventValueError ''another turn is active'')
               else Inr (v\<lparr>lv_active := Some turn\<rparr>))
         else if lv_active v \<noteq> Some turn then Inl (EventValueError ''event does not belong to active turn'')
         else if ev_type ev = ''turn.finished''
         then let done = lv_finished v @ [turn]
              in Inr (v\<lparr>lv_finished := drop (length done - FINISHED_CAPACITY) done, lv_active := None\<rparr>)
         else Inr v)"

subsection \<open>Projection\<close>

record HarnessEvent =
  h_type :: string
  h_driver :: string
  h_turn_ref :: "string option"
  h_native_session_id :: string
  h_native_turn_id :: string
  h_occurred_at :: string
  h_data :: "(string \<times> json) list"
  h_native :: "json option"

record projector =
  pj_agent_id :: string
  pj_session_ref :: string
  pj_tool_refs :: "((string \<times> string) \<times> string) list"

text \<open>The identifiers a projection may draw: of the event, of a tool call, of the activity.\<close>

record fresh_ids =
  fi_event :: string
  fi_tool :: string
  fi_activity :: string

definition make_event ::
  "(string \<Rightarrow> int \<Rightarrow> bool) \<Rightarrow> projector \<Rightarrow> string \<Rightarrow> HarnessEvent \<Rightarrow> string \<Rightarrow> json \<Rightarrow> event_error + RuntimeEvent option" where
  "make_event feq pj eid h kind payload =
     (case h_turn_ref h of None \<Rightarrow> Inr None
      | Some turn \<Rightarrow>
          map_sum id Some (runtime_event feq
            \<lparr>ev_agent_id = pj_agent_id pj, ev_session_ref = pj_session_ref pj, ev_turn_ref = turn, ev_type = kind,
             ev_payload = payload, ev_event_id = eid, ev_occurred_at = h_occurred_at h, ev_version = JInt 1\<rparr>))"

definition tool_key :: "(json \<Rightarrow> string) \<Rightarrow> HarnessEvent \<Rightarrow> string \<times> string" where
  "tool_key sh h = ((case h_turn_ref h of None \<Rightarrow> ''None'' | Some t \<Rightarrow> t), str_or sh [] (map_of (h_data h) ''tool_call_ref''))"

definition tool_ref :: "(json \<Rightarrow> string) \<Rightarrow> fresh_ids \<Rightarrow> HarnessEvent \<Rightarrow> projector \<Rightarrow> string" where
  "tool_ref sh ids h pj = (case map_of (pj_tool_refs pj) (tool_key sh h) of Some r \<Rightarrow> r | None \<Rightarrow> ''tool_'' @ fi_tool ids)"

definition project_tool ::
  "(string \<Rightarrow> int \<Rightarrow> bool) \<Rightarrow> (json \<Rightarrow> string) \<Rightarrow> fresh_ids \<Rightarrow> string \<Rightarrow> HarnessEvent \<Rightarrow> projector \<Rightarrow>
   (event_error + RuntimeEvent option) \<times> projector" where
  "project_tool feq sh ids state h pj =
     (let r = tool_ref sh ids h pj; pj' = pj\<lparr>pj_tool_refs := dict_set (pj_tool_refs pj) (tool_key sh h) r\<rparr>
      in (make_event feq pj' (fi_event ids) h ''tool.updated''
            (JObj [(''tool_call_ref'', JStr r), (''label'', JStr ''Tool''), (''state'', JStr state)]), pj'))"

definition token_count :: "json option \<Rightarrow> json" where
  "token_count v = (if nonneg_int v then the v else JInt 0)"

definition finished_outcome :: "(json \<Rightarrow> string) \<Rightarrow> HarnessEvent \<Rightarrow> string" where
  "finished_outcome sh h =
     (let abandoned = (h_type h = ''turn.abandoned'');
          outcome = (if abandoned \<and> json_truthy (map_of (h_data h) ''error_code'') then ''failed''
                     else if abandoned then ''abandoned''
                     else str_or sh ''succeeded'' (map_of (h_data h) ''outcome''))
      in if outcome \<in> set TURN_OUTCOMES then outcome else ''failed'')"

definition finished_payload :: "(json \<Rightarrow> string) \<Rightarrow> HarnessEvent \<Rightarrow> json" where
  "finished_payload sh h =
     (let data = h_data h; outcome = finished_outcome sh h; context = map_of data ''context_tokens'';
          code = str_or sh ''unknown'' (map_of data ''error_code'')
      in JObj ([(''outcome'', JStr outcome)] @
           (if h_type h = ''turn.completed'' \<and> outcome = ''succeeded''
            then (''tokens'', JObj [(''input'', token_count (map_of data ''input_tokens'')),
                                    (''output'', token_count (map_of data ''output_tokens''))]) #
                 (if positive_int context then [(''current_context'', the context)] else [])
            else []) @
           (if outcome = ''failed''
            then [(''error'', safe_error code (provider_failure_retryable code (json_truthy (map_of data ''retryable''))))]
            else [])))"

definition project ::
  "(string \<Rightarrow> int \<Rightarrow> bool) \<Rightarrow> (json \<Rightarrow> string) \<Rightarrow> fresh_ids \<Rightarrow> HarnessEvent \<Rightarrow> projector \<Rightarrow>
   (event_error + RuntimeEvent option) \<times> projector" where
  "project feq sh ids h pj =
     (let kind = h_type h; data = h_data h; eid = fi_event ids
      in if kind = ''turn.started'' then (make_event feq pj eid h ''turn.started'' (JObj []), pj)
         else if kind = ''turn.tool_started'' then project_tool feq sh ids ''running'' h pj
         else if kind = ''turn.tool_completed''
         then let outcome = (case map_of data ''outcome'' of None \<Rightarrow> JStr ''succeeded'' | Some v \<Rightarrow> v)
              in (case in_names [''succeeded'', ''failed''] (Some outcome) of
                    Inl e \<Rightarrow> (Inl e, pj)
                  | Inr ok \<Rightarrow> if ok then project_tool feq sh ids (py_str sh outcome) h pj else (Inr None, pj))
         else if kind \<in> {''turn.permission_requested'', ''turn.permission_updated''}
         then let state = str_or sh ''pending'' (map_of data ''state'')
              in if state \<notin> set PERMISSION_STATES then (Inr None, pj)
                 else (make_event feq pj eid h ''permission.updated''
                         (JObj [(''permission_ref'', JStr (str_or sh [] (map_of data ''permission_ref''))),
                                (''state'', JStr state), (''title'', JStr ''Permission required'')]), pj)
         else if kind \<in> {''turn.completed'', ''turn.abandoned''}
         then (make_event feq pj eid h ''turn.finished'' (finished_payload sh h), pj)
         else (Inr None, pj))"

definition prune_turn :: "string \<Rightarrow> projector \<Rightarrow> projector" where
  "prune_turn turn pj = pj\<lparr>pj_tool_refs := filter (\<lambda>kv. fst (fst kv) \<noteq> turn) (pj_tool_refs pj)\<rparr>"

definition activity_event :: "string \<Rightarrow> RuntimeEvent \<Rightarrow> RuntimeEvent" where
  "activity_event eid ev = \<lparr>ev_agent_id = ev_agent_id ev, ev_session_ref = ev_session_ref ev, ev_turn_ref = ev_turn_ref ev,
     ev_type = ''activity.updated'', ev_payload = JObj [(''text'', JStr ''Working'')], ev_event_id = ''evt_'' @ eid,
     ev_occurred_at = ev_occurred_at ev, ev_version = JInt 1\<rparr>"

definition project_all ::
  "(string \<Rightarrow> int \<Rightarrow> bool) \<Rightarrow> (json \<Rightarrow> string) \<Rightarrow> fresh_ids \<Rightarrow> HarnessEvent \<Rightarrow> projector \<Rightarrow>
   (event_error + RuntimeEvent list) \<times> projector" where
  "project_all feq sh ids h pj =
     (case project feq sh ids h pj of
        (Inl e, pj') \<Rightarrow> (Inl e, pj')
      | (Inr None, pj') \<Rightarrow> (Inr [], pj')
      | (Inr (Some ev), pj') \<Rightarrow>
          if h_type h = ''turn.started''
          then (map_sum id (\<lambda>a. [ev, a]) (runtime_event feq (activity_event (fi_activity ids) ev)), pj')
          else if h_type h \<in> {''turn.completed'', ''turn.abandoned''}
          then (Inr [ev], prune_turn (ev_turn_ref ev) pj')
          else (Inr [ev], pj'))"

end
