(* ===== verification/Event_Outbox.thy ===== *)
theory Event_Outbox
  imports Runtime_Events
begin

section \<open>The outbox of runtime events\<close>

text \<open>
  \<open>agent/runtime_event_outbox.py\<close>: the durable FIFO of runtime events, its migration when it is opened,
  its capacity, and the uploader. The table is the list of its rows in insertion order; \<open>ob_last\<close> is the
  sequence SQLite gave last (\<open>AUTOINCREMENT\<close>). Logging is left out. The transport answers with a status
  and a body, or raises.
\<close>

subsection \<open>Table and limits\<close>

record OutboxRow =
  er_sequence :: int
  er_event_id :: string
  er_event_type :: string
  er_event_json :: string
  er_byte_count :: int
  er_retry_count :: int

record outbox =
  ob_rows :: "OutboxRow list"
  ob_last :: int
  ob_state :: "(string \<times> string) list"

record outbox_limits =
  ol_max_rows :: int
  ol_max_bytes :: int
  ol_terminal_reserve_rows :: int
  ol_terminal_reserve_bytes :: int

definition default_limits :: outbox_limits where
  "default_limits = \<lparr>ol_max_rows = 10000, ol_max_bytes = 16 * 1024 * 1024, ol_terminal_reserve_rows = 1,
     ol_terminal_reserve_bytes = 2048\<rparr>"

datatype outbox_error = OutboxCapacityError string | OutboxValueError string

subsection \<open>Canonical bytes\<close>

text \<open>\<open>json.dumps(..., sort_keys=True)\<close>: Python orders strings by code points, which is the order of
  their UTF-8 bytes.\<close>

fun text_le :: "string \<Rightarrow> string \<Rightarrow> bool" where
  "text_le [] t = True"
| "text_le (c # cs) [] = False"
| "text_le (c # cs) (d # ds) = ((of_char c :: nat) < of_char d \<or> c = d \<and> text_le cs ds)"

fun insert_key :: "string \<times> json \<Rightarrow> (string \<times> json) list \<Rightarrow> (string \<times> json) list" where
  "insert_key kv [] = [kv]"
| "insert_key kv (kw # kvs) = (if text_le (fst kv) (fst kw) then kv # kw # kvs else kw # insert_key kv kvs)"

fun sort_keys :: "json \<Rightarrow> json" where
  "sort_keys (JArr vs) = JArr (map sort_keys vs)"
| "sort_keys (JObj kvs) = JObj (foldr insert_key (map (\<lambda>(k, v). (k, sort_keys v)) kvs) [])"
| "sort_keys v = v"

definition canonical_bytes :: "RuntimeEvent \<Rightarrow> string" where
  "canonical_bytes ev = json_dumps (sort_keys (event_dict ev))"

subsection \<open>Opening an outbox of an earlier release\<close>

definition legacy_finished :: "(json \<Rightarrow> string) \<Rightarrow> json \<Rightarrow> json option" where
  "legacy_finished sh p = (case py_text (json_get p ''outcome'') of
       None \<Rightarrow> None
     | Some outcome \<Rightarrow>
         if outcome \<notin> set TURN_OUTCOMES then None
         else let tokens = json_get p ''tokens''; context = json_get p ''current_context''; e = json_get p ''error''
           in Some (JObj ([(''outcome'', JStr outcome)] @
             (if outcome = ''succeeded'' \<and> tokens_ok tokens then [(''tokens'', the tokens)] else []) @
             (if outcome = ''succeeded'' \<and> positive_int context then [(''current_context'', the context)] else []) @
             (case e of
                Some (JObj kvs) \<Rightarrow>
                  if outcome = ''failed''
                  then [(''error'', safe_error (str_or sh ''unknown'' (map_of kvs ''code''))
                           (map_of kvs ''retryable'' = Some (JBool True)))]
                  else []
              | _ \<Rightarrow> []))))"

definition legacy_payload :: "(json \<Rightarrow> string) \<Rightarrow> string \<Rightarrow> json \<Rightarrow> json option" where
  "legacy_payload sh t p =
     (let state = (case json_get p ''state'' of None \<Rightarrow> JNull | Some v \<Rightarrow> v)
      in if t = ''turn.started'' then Some (JObj [])
         else if t = ''activity.updated''
         then Some (JObj [(''text'', if is_none (json_get p ''text'') then JNull else JStr ''Working'')])
         else if t = ''tool.updated''
         then map_option (\<lambda>r. JObj [(''tool_call_ref'', JStr r), (''label'', JStr ''Tool''), (''state'', state)])
                (py_text (json_get p ''tool_call_ref''))
         else if t = ''permission.updated''
         then map_option (\<lambda>r. JObj ([(''permission_ref'', JStr r), (''state'', state)] @
                (if is_none (json_get p ''title'') then [] else [(''title'', JStr ''Permission required'')])))
                (py_text (json_get p ''permission_ref''))
         else if t = ''turn.finished'' then legacy_finished sh p
         else None)"

text \<open>\<open>_metadata_only_event\<close>; a field that is no text, or is empty, ends it.\<close>

definition required_text :: "json \<Rightarrow> string \<Rightarrow> string option" where
  "required_text v k = (case py_text (json_get v k) of Some t \<Rightarrow> if t = [] then None else Some t | None \<Rightarrow> None)"

definition metadata_only_event ::
  "(string \<Rightarrow> int \<Rightarrow> bool) \<Rightarrow> (json \<Rightarrow> string) \<Rightarrow> json option \<Rightarrow> RuntimeEvent option" where
  "metadata_only_event feq sh raw = (case raw of
       Some (JObj kvs) \<Rightarrow>
         (let v = JObj kvs
          in if \<not> eq_int feq (json_get v ''version'') 1 \<or> json_get v ''scope'' \<noteq> Some (JObj [(''kind'', JStr ''operator'')])
             then None
             else (case (required_text v ''event_id'', required_text v ''agent_id'', required_text v ''session_ref'',
                         required_text v ''turn_ref'', required_text v ''occurred_at'') of
               (Some eid, Some agent, Some session, Some turn, Some at) \<Rightarrow>
                 (case (json_get v ''payload'', py_text (json_get v ''type'')) of
                    (Some (JObj p), Some t) \<Rightarrow>
                      (case legacy_payload sh t (JObj p) of
                         None \<Rightarrow> None
                       | Some payload \<Rightarrow>
                           (case runtime_event feq \<lparr>ev_agent_id = agent, ev_session_ref = session, ev_turn_ref = turn,
                                  ev_type = t, ev_payload = payload, ev_event_id = eid, ev_occurred_at = at,
                                  ev_version = the (json_get v ''version'')\<rparr> of
                              Inl _ \<Rightarrow> None
                            | Inr ev \<Rightarrow> Some ev))
                  | _ \<Rightarrow> None)
             | _ \<Rightarrow> None))
     | _ \<Rightarrow> None)"

definition migrate_row :: "(string \<Rightarrow> int \<Rightarrow> bool) \<Rightarrow> (json \<Rightarrow> string) \<Rightarrow> OutboxRow \<Rightarrow> OutboxRow option" where
  "migrate_row feq sh r = (case metadata_only_event feq sh (json_loads (er_event_json r)) of
       None \<Rightarrow> None
     | Some ev \<Rightarrow>
         if ev_type ev \<noteq> er_event_type r then None
         else Some (r\<lparr>er_event_json := canonical_bytes ev, er_byte_count := int (length (canonical_bytes ev))\<rparr>))"

definition migrate_metadata_only_rows ::
  "(string \<Rightarrow> int \<Rightarrow> bool) \<Rightarrow> (json \<Rightarrow> string) \<Rightarrow> OutboxRow list \<Rightarrow> OutboxRow list" where
  "migrate_metadata_only_rows feq sh rows = List.map_filter (migrate_row feq sh) rows"

text \<open>\<open>_connect\<close> on the tables it finds.\<close>

definition connect :: "(string \<Rightarrow> int \<Rightarrow> bool) \<Rightarrow> (json \<Rightarrow> string) \<Rightarrow> outbox \<Rightarrow> outbox" where
  "connect feq sh ob = ob\<lparr>ob_rows := migrate_metadata_only_rows feq sh (ob_rows ob),
     ob_state := filter (\<lambda>kv. fst kv \<noteq> ''session_fingerprint'') (ob_state ob)\<rparr>"

subsection \<open>Capacity and insertion\<close>

definition usage :: "outbox \<Rightarrow> int \<times> int" where
  "usage ob = (int (length (ob_rows ob)), sum_list (map er_byte_count (ob_rows ob)))"

definition fits_turn :: "outbox_limits \<Rightarrow> int \<Rightarrow> int \<Rightarrow> int \<Rightarrow> bool" where
  "fits_turn ol rows bytes estimated \<longleftrightarrow>
     rows + 2 + ol_terminal_reserve_rows ol \<le> ol_max_rows ol \<and>
     bytes + estimated + ol_terminal_reserve_bytes ol \<le> ol_max_bytes ol"

definition can_start_turn :: "outbox_limits \<Rightarrow> int \<Rightarrow> outbox \<Rightarrow> bool" where
  "can_start_turn ol estimated ob = fits_turn ol (fst (usage ob)) (snd (usage ob)) estimated"

definition require_turn_capacity :: "outbox_limits \<Rightarrow> int \<Rightarrow> outbox \<Rightarrow> outbox_error + unit" where
  "require_turn_capacity ol estimated ob =
     (if can_start_turn ol estimated ob then Inr () else Inl (OutboxCapacityError ''runtime event outbox is at capacity''))"

definition insert_event :: "outbox_limits \<Rightarrow> RuntimeEvent \<Rightarrow> string \<Rightarrow> bool \<Rightarrow> outbox \<Rightarrow> (outbox_error + int) \<times> outbox" where
  "insert_event ol ev encoded terminal ob =
     (let size = int (length encoded);
          row_limit = ol_max_rows ol - (if terminal then 0 else ol_terminal_reserve_rows ol);
          byte_limit = ol_max_bytes ol - (if terminal then 0 else ol_terminal_reserve_bytes ol)
      in if fst (usage ob) + 1 > row_limit \<or> snd (usage ob) + size > byte_limit
         then (Inl (OutboxCapacityError ''enqueue would exceed runtime event outbox capacity''), ob)
         else case find (\<lambda>r. er_event_id r = ev_event_id ev) (ob_rows ob) of
             Some r \<Rightarrow>
               (if er_event_json r \<noteq> encoded then Inl (OutboxValueError ''event_id reused with different content'')
                else Inr (er_sequence r), ob)
           | None \<Rightarrow>
               (Inr (ob_last ob + 1),
                ob\<lparr>ob_rows := ob_rows ob @ [\<lparr>er_sequence = ob_last ob + 1, er_event_id = ev_event_id ev,
                     er_event_type = ev_type ev, er_event_json = encoded, er_byte_count = size, er_retry_count = 0\<rparr>],
                   ob_last := ob_last ob + 1\<rparr>))"

definition enqueue :: "outbox_limits \<Rightarrow> RuntimeEvent \<Rightarrow> bool option \<Rightarrow> outbox \<Rightarrow> (outbox_error + int) \<times> outbox" where
  "enqueue ol ev terminal ob =
     insert_event ol ev (canonical_bytes ev)
       (case terminal of None \<Rightarrow> ev_type ev = ''turn.finished'' | Some b \<Rightarrow> b) ob"

subsection \<open>Reading and removing\<close>

text \<open>The loop of \<open>_prefix\<close>: the size so far and whether a row was taken.\<close>

fun take_rows :: "int \<Rightarrow> int \<Rightarrow> bool \<Rightarrow> OutboxRow list \<Rightarrow> OutboxRow list" where
  "take_rows max_bytes acc some [] = []"
| "take_rows max_bytes acc some (r # rs) =
     (let added = int (length (er_event_json r)) + (if some then 1 else 0)
      in if some \<and> acc + added > max_bytes then []
         else if \<not> some \<and> acc + added > max_bytes then [r]
         else r # take_rows max_bytes (acc + added) True rs)"

definition by_sequence :: "outbox \<Rightarrow> OutboxRow list" where
  "by_sequence ob = sort_key er_sequence (ob_rows ob)"

definition prefix_rows :: "nat \<Rightarrow> int \<Rightarrow> outbox \<Rightarrow> OutboxRow list" where
  "prefix_rows max_rows max_bytes ob =
     take_rows max_bytes (int (length ''{\"events\":[]}'')) False (take max_rows (by_sequence ob))"

definition increment_retries :: "int list \<Rightarrow> outbox \<Rightarrow> outbox" where
  "increment_retries sequences ob = ob\<lparr>ob_rows :=
     sql_update (\<lambda>r. er_sequence r \<in> set sequences) (\<lambda>r. r\<lparr>er_retry_count := er_retry_count r + 1\<rparr>) (ob_rows ob)\<rparr>"

definition between :: "int \<Rightarrow> int \<Rightarrow> OutboxRow \<Rightarrow> bool" where
  "between a b r \<longleftrightarrow> a \<le> er_sequence r \<and> er_sequence r \<le> b"

definition acknowledge :: "OutboxRow list \<Rightarrow> string list \<Rightarrow> outbox \<Rightarrow> outbox_error + outbox" where
  "acknowledge rows accepted ob =
     (if accepted \<noteq> map er_event_id rows then Inl (OutboxValueError ''append response does not exactly match batch'')
      else if rows = [] then Inr ob
      else let P = between (er_sequence (hd rows)) (er_sequence (last rows))
        in if map er_event_id (filter P (by_sequence ob)) \<noteq> accepted
           then Inl (OutboxValueError ''outbox changed while acknowledging batch'')
           else Inr (ob\<lparr>ob_rows := sql_delete P (ob_rows ob)\<rparr>))"

definition discard :: "int \<Rightarrow> outbox \<Rightarrow> outbox" where
  "discard q ob = ob\<lparr>ob_rows := sql_delete (\<lambda>r. er_sequence r = q) (ob_rows ob)\<rparr>"

definition set_active_turn :: "string option \<Rightarrow> string \<Rightarrow> string \<Rightarrow> string option \<Rightarrow> outbox \<Rightarrow> outbox" where
  "set_active_turn turn session native harness ob =
     (let values = [(''active_turn_ref'', or_empty turn), (''session_ref'', session), (''native_session_id'', native)] @
           (case harness of None \<Rightarrow> [] | Some h \<Rightarrow> [(''native_session_harness'', h)])
      in ob\<lparr>ob_state := foldl (\<lambda>st (k, v). dict_set st k v) (ob_state ob) values\<rparr>)"

subsection \<open>The sink\<close>

text \<open>\<open>RuntimeEventProjectingSink._project\<close>: an enqueue that raises ends it.\<close>

fun enqueue_each :: "outbox_limits \<Rightarrow> RuntimeEvent list \<Rightarrow> outbox \<Rightarrow> outbox_error option \<times> outbox" where
  "enqueue_each ol [] ob = (None, ob)"
| "enqueue_each ol (ev # evs) ob =
     (case enqueue ol ev (Some (ev_type ev = ''turn.finished'')) ob of
        (Inl e, ob') \<Rightarrow> (Some e, ob')
      | (Inr _, ob') \<Rightarrow> enqueue_each ol evs ob')"

definition sink ::
  "(string \<Rightarrow> int \<Rightarrow> bool) \<Rightarrow> (json \<Rightarrow> string) \<Rightarrow> outbox_limits \<Rightarrow> fresh_ids \<Rightarrow> HarnessEvent \<Rightarrow> projector \<times> outbox \<Rightarrow>
   projector \<times> outbox" where
  "sink feq sh ol ids h s = (case project_all feq sh ids h (fst s) of
       (Inl e, pj) \<Rightarrow> (pj, snd s)
     | (Inr evs, pj) \<Rightarrow> (pj, snd (enqueue_each ol evs (snd s))))"

subsection \<open>The uploader\<close>

record uploader =
  up_batch_rows :: nat
  up_batch_bytes :: int
  up_degraded_error :: string
  up_isolate_head :: bool

datatype upload_state = UpIdle | UpUploaded | UpRetry | UpDegraded | UpDiscarded

text \<open>What the transport returns, and what \<open>_decode_response\<close> makes of it.\<close>

datatype reply_body = RawText string | Value json

datatype append_reply = Raised | Reply int reply_body

datatype append_answer = Transport | Malformed int | Decoded int json

definition body_value :: "reply_body \<Rightarrow> json option" where
  "body_value b = (case b of RawText t \<Rightarrow> json_loads t | Value v \<Rightarrow> Some v)"

definition decode_response :: "append_reply \<Rightarrow> append_answer" where
  "decode_response reply = (case reply of
       Raised \<Rightarrow> Transport
     | Reply status b \<Rightarrow>
         (case body_value b of
            Some v \<Rightarrow> if is_mapping v then Decoded status v else Malformed status
          | None \<Rightarrow> Malformed status))"

text \<open>\<open>[str(item["event_id"]) for item in payload["accepted"]]\<close>; \<open>None\<close> where it raises.\<close>

fun item_ids :: "(json \<Rightarrow> string) \<Rightarrow> json list \<Rightarrow> string list option" where
  "item_ids sh [] = Some []"
| "item_ids sh (item # items) =
     (case json_get item ''event_id'' of
        None \<Rightarrow> None
      | Some v \<Rightarrow> map_option ((#) (py_str sh v)) (item_ids sh items))"

definition accepted_ids :: "(json \<Rightarrow> string) \<Rightarrow> json \<Rightarrow> string list option" where
  "accepted_ids sh payload = (case json_get payload ''accepted'' of
       Some (JArr items) \<Rightarrow> item_ids sh items
     | Some (JStr []) \<Rightarrow> Some []
     | Some (JObj []) \<Rightarrow> Some []
     | _ \<Rightarrow> None)"

definition DEGRADED_CHANNEL_HTTP_STATUSES :: "int list" where
  "DEGRADED_CHANNEL_HTTP_STATUSES = [401, 403, 404, 405]"

definition http_code :: "int \<Rightarrow> string" where "http_code status = ''http_'' @ int_dec status"

definition batch_body :: "OutboxRow list \<Rightarrow> string" where
  "batch_body rows = ''{\"events\":['' @ intersperse_comma (map er_event_json rows) @ '']}''"

definition reject_acknowledgement ::
  "OutboxRow list \<Rightarrow> int \<Rightarrow> uploader \<Rightarrow> outbox \<Rightarrow> (upload_state \<times> nat) \<times> uploader \<times> outbox" where
  "reject_acknowledgement rows status up ob =
     (if 200 \<le> status \<and> status < 300
      then ((UpDegraded, 0), up\<lparr>up_degraded_error := ''malformed_response''\<rparr>, ob)
      else ((UpRetry, 0), up, increment_retries (map er_sequence rows) ob))"

definition isolate_or_discard ::
  "OutboxRow list \<Rightarrow> string \<Rightarrow> uploader \<Rightarrow> outbox \<Rightarrow> (upload_state \<times> nat) \<times> uploader \<times> outbox" where
  "isolate_or_discard rows code up ob =
     (if length rows > 1 then ((UpRetry, 0), up\<lparr>up_degraded_error := code, up_isolate_head := True\<rparr>, ob)
      else ((UpDiscarded, 0), up\<lparr>up_degraded_error := code, up_isolate_head := False\<rparr>, discard (er_sequence (hd rows)) ob))"

definition settle_batch ::
  "(json \<Rightarrow> string) \<Rightarrow> OutboxRow list \<Rightarrow> append_answer \<Rightarrow> uploader \<Rightarrow> outbox \<Rightarrow> (upload_state \<times> nat) \<times> uploader \<times> outbox" where
  "settle_batch sh rows answer up ob = (case answer of
       Transport \<Rightarrow> ((UpRetry, 0), up, increment_retries (map er_sequence rows) ob)
     | Malformed status \<Rightarrow> reject_acknowledgement rows status up ob
     | Decoded status payload \<Rightarrow>
         if status = 429 \<or> status \<ge> 500 then ((UpRetry, 0), up, increment_retries (map er_sequence rows) ob)
         else if status \<in> set DEGRADED_CHANNEL_HTTP_STATUSES
         then ((UpDegraded, 0), up\<lparr>up_degraded_error := http_code status\<rparr>, ob)
         else if status < 200 \<or> status \<ge> 300 then isolate_or_discard rows (http_code status) up ob
         else (case accepted_ids sh payload of
                 None \<Rightarrow> reject_acknowledgement rows status up ob
               | Some ids \<Rightarrow>
                   if length ids \<noteq> length rows then reject_acknowledgement rows status up ob
                   else (case acknowledge rows ids ob of
                           Inl _ \<Rightarrow> reject_acknowledgement rows status up ob
                         | Inr ob' \<Rightarrow> ((UpUploaded, length rows), up\<lparr>up_degraded_error := [], up_isolate_head := False\<rparr>, ob'))))"

text \<open>\<open>upload_once\<close>. Between the read of the batch and the write that settles it the task awaits;
  \<open>meanwhile\<close> is what the rest of the worker does to the outbox there.\<close>

definition upload_once ::
  "(json \<Rightarrow> string) \<Rightarrow> (string \<Rightarrow> append_reply) \<Rightarrow> (outbox \<Rightarrow> outbox) \<Rightarrow> uploader \<Rightarrow> outbox \<Rightarrow>
   (upload_state \<times> nat) \<times> uploader \<times> outbox" where
  "upload_once sh post meanwhile up ob =
     (let rows = prefix_rows (if up_isolate_head up then 1 else up_batch_rows up) (up_batch_bytes up) ob;
          body = batch_body rows
      in if rows = [] then ((UpIdle, 0), up, ob)
         else if int (length body) > up_batch_bytes up
         then ((UpDiscarded, 0), up\<lparr>up_degraded_error := ''body_too_large''\<rparr>, discard (er_sequence (hd rows)) (meanwhile ob))
         else settle_batch sh rows (decode_response (post body)) up (meanwhile ob))"

end
