(* ===== verification/Event_Privacy.thy ===== *)
theory Event_Privacy
  imports Event_Outbox
begin

section \<open>Only metadata leaves the worker\<close>

text \<open>
  What an uploaded event can say. The payload of an event has one of a few shapes, in which every text
  is a word of the fixed vocabulary or the reference of a tool call or a permission. The projection of
  a harness event has such a shape whatever the event carries, and so has every row of an outbox that
  an earlier release filled, once it is opened.
\<close>

subsection \<open>Shapes\<close>

definition usage_field :: "string \<times> json \<Rightarrow> bool" where
  "usage_field kv \<longleftrightarrow>
     fst kv = ''current_context'' \<and> positive_int (Some (snd kv)) \<or> fst kv = ''tokens'' \<and> tokens_ok (Some (snd kv))"

definition finished_shape :: "json \<Rightarrow> bool" where
  "finished_shape p \<longleftrightarrow> (\<exists>outcome\<in>set TURN_OUTCOMES. \<exists>counts errors.
     p = JObj ((''outcome'', JStr outcome) # counts @ errors) \<and> list_all usage_field counts \<and>
     (errors = [] \<or> (\<exists>code retryable. errors = [(''error'', safe_error code retryable)])))"

definition metadata_payload :: "string \<Rightarrow> json \<Rightarrow> bool" where
  "metadata_payload t p \<longleftrightarrow>
     t = ''turn.started'' \<and> p = JObj [] \<or>
     t = ''activity.updated'' \<and> (\<exists>v\<in>{JNull, JStr ''Working''}. p = JObj [(''text'', v)]) \<or>
     t = ''tool.updated'' \<and> (\<exists>r. \<exists>s\<in>set TOOL_STATES.
        p = JObj [(''tool_call_ref'', JStr r), (''label'', JStr ''Tool''), (''state'', JStr s)]) \<or>
     t = ''permission.updated'' \<and> (\<exists>r. \<exists>s\<in>set PERMISSION_STATES. \<exists>title\<in>{[], [(''title'', JStr ''Permission required'')]}.
        p = JObj ((''permission_ref'', JStr r) # (''state'', JStr s) # title)) \<or>
     t = ''turn.finished'' \<and> finished_shape p"

definition metadata_event :: "RuntimeEvent \<Rightarrow> bool" where
  "metadata_event ev \<longleftrightarrow> metadata_payload (ev_type ev) (ev_payload ev)"

subsection \<open>Projection\<close>

lemma make_event_Some:
  "make_event feq pj eid h kind payload = Inr (Some ev) \<Longrightarrow> ev_type ev = kind \<and> ev_payload ev = payload"
  by (auto simp: make_event_def runtime_event_def map_sum_def split: option.splits sum.splits)

lemma finished_shapeI:
  assumes "outcome \<in> set TURN_OUTCOMES" "p = JObj ((''outcome'', JStr outcome) # counts @ errors)" "list_all usage_field counts"
    "errors = [] \<or> (\<exists>code retryable. errors = [(''error'', safe_error code retryable)])"
  shows "finished_shape p"
  unfolding finished_shape_def using assms by blast

lemma usage_finished:
  "finished_shape (finished_payload sh h)"
proof -
  let ?o = "finished_outcome sh h"
  have o: "?o \<in> set TURN_OUTCOMES" by (simp add: finished_outcome_def Let_def TURN_OUTCOMES_def)
  define counts where "counts = (if h_type h = ''turn.completed'' \<and> ?o = ''succeeded''
    then (''tokens'', JObj [(''input'', token_count (map_of (h_data h) ''input_tokens'')),
            (''output'', token_count (map_of (h_data h) ''output_tokens''))]) #
         (if positive_int (map_of (h_data h) ''context_tokens'')
          then [(''current_context'', the (map_of (h_data h) ''context_tokens''))] else [])
    else [])"
  have n: "nonneg_int (Some (token_count v))" for v
    by (cases v rule: py_int.cases) (auto simp: token_count_def nonneg_int_def)
  have p: "positive_int v \<Longrightarrow> positive_int (Some (the v))" for v
    by (cases v) (auto simp: positive_int_def)
  have "list_all usage_field counts"
    by (auto simp: counts_def usage_field_def tokens_ok_def n p)
  moreover define errors where "errors = (let code = str_or sh ''unknown'' (map_of (h_data h) ''error_code'')
    in if ?o = ''failed''
       then [(''error'', safe_error code (provider_failure_retryable code (json_truthy (map_of (h_data h) ''retryable''))))]
       else [])"
  moreover have "finished_payload sh h = JObj ((''outcome'', JStr ?o) # counts @ errors)"
    by (simp add: finished_payload_def counts_def errors_def Let_def)
  moreover have "errors = [] \<or> (\<exists>code retryable. errors = [(''error'', safe_error code retryable)])"
    unfolding errors_def Let_def by (cases "?o = ''failed''") (simp_all, (rule exI)+, rule refl)
  ultimately show ?thesis using o by (intro finished_shapeI [where errors = errors and counts = counts])
qed

lemma project_tool_shape:
  assumes "project_tool feq sh ids s h pj = (Inr (Some ev), pj')" "s \<in> set TOOL_STATES"
  shows "metadata_event ev"
  using assms make_event_Some [of feq _ "fi_event ids" h "''tool.updated''"]
  by (auto simp: project_tool_def Let_def metadata_event_def metadata_payload_def)

lemma in_names_True: "in_names names v = Inr True \<Longrightarrow> \<exists>t\<in>set names. v = Some (JStr t)"
  by (cases "(names, v)" rule: in_names.cases) auto

lemma project_metadata:
  assumes "project feq sh ids h pj = (Inr (Some ev), pj')"
  shows "metadata_event ev"
proof -
  have made: "metadata_event e" if "make_event feq pj (fi_event ids) h t p = Inr (Some e)" "metadata_payload t p" for t p e
    using make_event_Some [OF that(1)] that(2) by (simp add: metadata_event_def)
  have shapes: "metadata_payload ''turn.started'' (JObj [])" "metadata_payload ''turn.finished'' (finished_payload sh h)"
    "s \<in> set PERMISSION_STATES \<Longrightarrow> metadata_payload ''permission.updated''
       (JObj [(''permission_ref'', JStr r), (''state'', JStr s), (''title'', JStr ''Permission required'')])" for r s
    by (simp_all add: metadata_payload_def usage_finished)
  have tool: "metadata_event ev" if "in_names [''succeeded'', ''failed''] (Some v) = Inr ok" "ok"
    "project_tool feq sh ids (py_str sh v) h pj = (Inr (Some ev), pj')" for v ok
    using that in_names_True [of "[''succeeded'', ''failed'']" "Some v"] project_tool_shape [OF that(3)]
    by (auto simp: TOOL_STATES_def)
  have run: "metadata_event ev" if "project_tool feq sh ids ''running'' h pj = (Inr (Some ev), pj')"
    by (rule project_tool_shape [OF that]) (simp add: TOOL_STATES_def)
  consider "h_type h = ''turn.started''" | "h_type h = ''turn.tool_started''" | "h_type h = ''turn.tool_completed''"
    | "h_type h = ''turn.permission_requested'' \<or> h_type h = ''turn.permission_updated''"
    | "h_type h = ''turn.completed'' \<or> h_type h = ''turn.abandoned''"
    | "h_type h \<noteq> ''turn.started''" "h_type h \<noteq> ''turn.tool_started''" "h_type h \<noteq> ''turn.tool_completed''"
      "h_type h \<noteq> ''turn.permission_requested''" "h_type h \<noteq> ''turn.permission_updated''"
      "h_type h \<noteq> ''turn.completed''" "h_type h \<noteq> ''turn.abandoned''"
    by argo
  then show ?thesis
  proof cases
    case 1
    then have "make_event feq pj (fi_event ids) h ''turn.started'' (JObj []) = Inr (Some ev)"
      using arg_cong [OF assms, of fst] by (simp add: project_def)
    then show ?thesis using shapes(1) by (rule made)
  next
    case 2 then show ?thesis using assms run by (simp add: project_def)
  next
    case 3 then show ?thesis
      using assms tool by (simp add: project_def Let_def split: sum.split_asm if_split_asm)
  next
    case 4
    let ?s = "str_or sh ''pending'' (map_of (h_data h) ''state'')"
    from 4 have p: "project feq sh ids h pj = (if ?s \<notin> set PERMISSION_STATES then (Inr None, pj)
      else (make_event feq pj (fi_event ids) h ''permission.updated''
             (JObj [(''permission_ref'', JStr (str_or sh [] (map_of (h_data h) ''permission_ref''))),
                    (''state'', JStr ?s), (''title'', JStr ''Permission required'')]), pj))"
      by (elim disjE) (simp_all add: project_def Let_def)
    from assms have s: "?s \<in> set PERMISSION_STATES" unfolding p by (simp split: if_split_asm)
    with arg_cong [OF assms, of fst] show ?thesis unfolding p by (intro made [OF _ shapes(3) [OF s]]) simp
  next
    case 5
    then have "project feq sh ids h pj = (make_event feq pj (fi_event ids) h ''turn.finished'' (finished_payload sh h), pj)"
      by (elim disjE) (simp_all add: project_def)
    with arg_cong [OF assms, of fst] show ?thesis by (intro made [OF _ shapes(2)]) simp
  next
    case 6 then show ?thesis using assms by (simp add: project_def)
  qed
qed

lemma project_all_metadata:
  assumes "project_all feq sh ids h pj = (Inr evs, pj')" "ev \<in> set evs"
  shows "metadata_event ev"
proof -
  have act: "metadata_event (activity_event eid e)" for eid e
    by (simp add: metadata_event_def metadata_payload_def activity_event_def)
  have run: "runtime_event feq e = Inr e' \<Longrightarrow> e' = e" for e e'
    by (simp add: runtime_event_def split: option.splits)
  show ?thesis
    using assms project_metadata [of feq sh ids h pj]
    by (auto simp: project_all_def map_sum_def dest!: run intro: act split: prod.splits sum.splits option.splits if_splits)
qed

subsection \<open>Rows of an earlier release\<close>

lemma first_error_None: "first_error cs = None \<longleftrightarrow> list_all (\<lambda>c. c = None) cs"
  by (induction cs rule: first_error.induct) auto

lemma require_None: "require check msg = None \<longleftrightarrow> check = Inr True"
  by (auto simp: require_def split: sum.splits if_splits)

lemmas validation_simps = validate_runtime_event_def Let_def first_error_None require_None

lemma legacy_tool:
  assumes "validate_runtime_event feq ev = None" "ev_type ev = ''tool.updated''"
    "ev_payload ev = JObj [(''tool_call_ref'', JStr r), (''label'', JStr ''Tool''), (''state'', s)]"
  shows "metadata_event ev"
proof -
  have "in_names TOOL_STATES (Some s) = Inr True"
    using assms by (simp add: validation_simps check_tool_def json_get_def)
  from in_names_True [OF this] assms(2,3) show ?thesis by (auto simp: metadata_event_def metadata_payload_def)
qed

lemma legacy_permission:
  assumes "validate_runtime_event feq ev = None" "ev_type ev = ''permission.updated''"
    "ev_payload ev = JObj ([(''permission_ref'', JStr r), (''state'', s)] @
       (if b then [] else [(''title'', JStr ''Permission required'')]))"
  shows "metadata_event ev"
proof -
  have "in_names PERMISSION_STATES (Some s) = Inr True"
    using assms by (simp add: validation_simps check_permission_def json_get_def)
  from in_names_True [OF this] assms(2,3) show ?thesis
    by (cases b) (auto simp: metadata_event_def metadata_payload_def)
qed

lemma legacy_finished_shape:
  assumes "legacy_finished sh p = Some payload"
  shows "finished_shape payload"
proof -
  from assms obtain outcome where o: "outcome \<in> set TURN_OUTCOMES" "py_text (json_get p ''outcome'') = Some outcome"
    by (auto simp: legacy_finished_def split: option.splits if_splits)
  let ?t = "json_get p ''tokens''" and ?c = "json_get p ''current_context''"
  define counts where "counts =
      (if outcome = ''succeeded'' \<and> tokens_ok ?t then [(''tokens'', the ?t)] else []) @
      (if outcome = ''succeeded'' \<and> positive_int ?c then [(''current_context'', the ?c)] else [])"
  define errors where "errors = (case json_get p ''error'' of
      Some (JObj kvs) \<Rightarrow>
        if outcome = ''failed''
        then [(''error'', safe_error (str_or sh ''unknown'' (map_of kvs ''code'')) (map_of kvs ''retryable'' = Some (JBool True)))]
        else []
    | _ \<Rightarrow> [])"
  have some: "tokens_ok v \<Longrightarrow> v = Some (the v)" "positive_int v \<Longrightarrow> v = Some (the v)" for v
    by (cases v; simp add: tokens_ok_def positive_int_def)+
  have "list_all usage_field counts"
    using some(1) [of ?t] some(2) [of ?c] by (auto simp: counts_def usage_field_def)
  moreover have "errors = [] \<or> (\<exists>code retryable. errors = [(''error'', safe_error code retryable)])"
    by (auto simp: errors_def split: option.splits json.splits)
  moreover have "payload = JObj ((''outcome'', JStr outcome) # counts @ errors)"
    using assms o by (simp add: legacy_finished_def Let_def counts_def errors_def)
  ultimately show ?thesis using o(1) by (intro finished_shapeI [where errors = errors and counts = counts])
qed

lemma legacy_metadata:
  assumes "legacy_payload sh t p = Some payload" "validate_runtime_event feq ev = None"
    "ev_type ev = t" "ev_payload ev = payload"
  shows "metadata_event ev"
proof -
  consider "t = ''turn.started''" | "t = ''activity.updated''" | "t = ''tool.updated''" | "t = ''permission.updated''"
    | "t = ''turn.finished''"
    | "t \<noteq> ''turn.started''" "t \<noteq> ''activity.updated''" "t \<noteq> ''tool.updated''" "t \<noteq> ''permission.updated''"
      "t \<noteq> ''turn.finished''"
    by argo
  then show ?thesis
  proof cases
    case 1 then show ?thesis using assms by (simp add: legacy_payload_def metadata_event_def metadata_payload_def)
  next
    case 2
    then have "payload = JObj [(''text'', if is_none (json_get p ''text'') then JNull else JStr ''Working'')]"
      using assms(1) by (simp add: legacy_payload_def)
    with 2 assms(3,4) show ?thesis by (simp add: metadata_event_def metadata_payload_def)
  next
    case 3
    with assms(1) obtain r where "payload = JObj [(''tool_call_ref'', JStr r), (''label'', JStr ''Tool''),
        (''state'', case json_get p ''state'' of None \<Rightarrow> JNull | Some v \<Rightarrow> v)]"
      by (auto simp: legacy_payload_def Let_def)
    with legacy_tool [OF assms(2)] 3 assms(3,4) show ?thesis by simp
  next
    case 4
    with assms(1) obtain r where "payload = JObj ([(''permission_ref'', JStr r),
        (''state'', case json_get p ''state'' of None \<Rightarrow> JNull | Some v \<Rightarrow> v)] @
        (if is_none (json_get p ''title'') then [] else [(''title'', JStr ''Permission required'')]))"
      by (auto simp: legacy_payload_def Let_def)
    with legacy_permission [OF assms(2)] 4 assms(3,4) show ?thesis by simp
  next
    case 5
    then have "legacy_finished sh p = Some payload" using assms(1) by (simp add: legacy_payload_def)
    with legacy_finished_shape 5 assms(3,4) show ?thesis by (simp add: metadata_event_def metadata_payload_def)
  next
    case 6 then show ?thesis using assms(1) by (simp add: legacy_payload_def)
  qed
qed

lemma metadata_only_metadata:
  assumes "metadata_only_event feq sh raw = Some ev"
  shows "metadata_event ev"
proof -
  from assms obtain t p payload ev0 where "legacy_payload sh t (JObj p) = Some payload"
    "runtime_event feq ev0 = Inr ev" "ev_type ev0 = t" "ev_payload ev0 = payload"
    unfolding metadata_only_event_def Let_def
    by (simp split: option.split_asm json.split_asm if_split_asm prod.split_asm sum.split_asm)
  then show ?thesis using legacy_metadata [of sh t "JObj p" payload feq ev0]
    by (auto simp: runtime_event_def split: option.splits)
qed

subsection \<open>Rows\<close>

definition metadata_row :: "OutboxRow \<Rightarrow> bool" where
  "metadata_row r \<longleftrightarrow> (\<exists>ev. metadata_event ev \<and> er_event_json r = canonical_bytes ev \<and> er_event_type r = ev_type ev) \<and>
     er_byte_count r = int (length (er_event_json r))"

definition metadata_rows :: "outbox \<Rightarrow> bool" where
  "metadata_rows ob \<longleftrightarrow> list_all metadata_row (ob_rows ob)"

lemma connect_metadata: "metadata_rows (connect feq sh ob)"
proof -
  have "metadata_row r'" if "migrate_row feq sh r = Some r'" for r r'
  proof -
    from that obtain ev where "metadata_only_event feq sh (json_loads (er_event_json r)) = Some ev"
      "ev_type ev = er_event_type r"
      "r' = r\<lparr>er_event_json := canonical_bytes ev, er_byte_count := int (length (canonical_bytes ev))\<rparr>"
      by (auto simp: migrate_row_def split: option.splits if_splits)
    with metadata_only_metadata show ?thesis unfolding metadata_row_def by (intro conjI exI [of _ ev]) simp_all
  qed
  then show ?thesis
    by (simp add: metadata_rows_def connect_def migrate_metadata_only_rows_def list_all_iff List.map_filter_def)
qed

lemma enqueue_metadata:
  assumes "metadata_rows ob" "metadata_event ev"
  shows "metadata_rows (snd (enqueue ol ev t ob))"
  using assms
  by (auto simp: enqueue_def insert_event_def Let_def metadata_rows_def metadata_row_def split: option.splits)

lemma enqueue_each_metadata:
  "metadata_rows ob \<Longrightarrow> list_all metadata_event evs \<Longrightarrow> metadata_rows (snd (enqueue_each ol evs ob))"
  by (induction evs arbitrary: ob)
     (simp_all split: prod.splits sum.splits, metis enqueue_metadata snd_conv)

lemma sink_metadata: "metadata_rows (snd s) \<Longrightarrow> metadata_rows (snd (sink feq sh ol ids h s))"
  using project_all_metadata [of feq sh ids h "fst s"] enqueue_each_metadata
  by (auto simp: sink_def list_all_iff split: prod.splits sum.splits)

lemma removals_keep:
  "list_all P (ob_rows ob) \<Longrightarrow> list_all P (ob_rows (discard q ob))"
  "list_all P (ob_rows ob) \<Longrightarrow> acknowledge rows ids ob = Inr ob' \<Longrightarrow> list_all P (ob_rows ob')"
  by (auto simp: discard_def acknowledge_def sql_delete_def list_all_iff Let_def split: if_splits)

lemma retries_metadata: "metadata_rows ob \<Longrightarrow> metadata_rows (increment_retries qs ob)"
  by (auto simp: metadata_rows_def increment_retries_def sql_update_def list_all_iff metadata_row_def)

lemma settle_metadata:
  assumes "metadata_rows ob"
  shows "metadata_rows (snd (snd (settle_batch sh rows answer up ob)))"
  using assms retries_metadata [OF assms] removals_keep [where P = metadata_row and ob = ob]
  by (simp add: settle_batch_def reject_acknowledgement_def isolate_or_discard_def metadata_rows_def
      split: append_answer.split option.split sum.split)

lemma upload_metadata:
  assumes "metadata_rows ob" "metadata_rows (meanwhile ob)"
  shows "metadata_rows (snd (snd (upload_once sh post meanwhile up ob)))"
  using assms settle_metadata [OF assms(2)] removals_keep(1) [where P = metadata_row]
  by (simp add: upload_once_def Let_def metadata_rows_def)

text \<open>The states of an outbox: opened on any table, then fed by the sink, told the active turn, and
  uploaded, with the rest of the worker at work during an upload.\<close>

inductive event_outbox_reach ::
  "(string \<Rightarrow> int \<Rightarrow> bool) \<Rightarrow> (json \<Rightarrow> string) \<Rightarrow> outbox_limits \<Rightarrow> projector \<times> outbox \<Rightarrow> bool"
  for feq sh ol where
  Open: "event_outbox_reach feq sh ol (pj, connect feq sh ob)"
| Sink: "event_outbox_reach feq sh ol s \<Longrightarrow> event_outbox_reach feq sh ol (sink feq sh ol ids h s)"
| Active: "event_outbox_reach feq sh ol (pj, ob) \<Longrightarrow> event_outbox_reach feq sh ol (pj, set_active_turn turn session native harness ob)"
| Upload: "event_outbox_reach feq sh ol (pj, ob) \<Longrightarrow> event_outbox_reach feq sh ol (pj', meanwhile ob) \<Longrightarrow>
    event_outbox_reach feq sh ol (pj', snd (snd (upload_once sh post meanwhile up ob)))"

lemma reach_metadata: "event_outbox_reach feq sh ol s \<Longrightarrow> metadata_rows (snd s)"
proof (induction rule: event_outbox_reach.induct)
  case Active then show ?case by (simp add: metadata_rows_def set_active_turn_def Let_def)
qed (simp_all add: connect_metadata sink_metadata upload_metadata)

lemma set_take_rows: "set (take_rows m acc b rs) \<subseteq> set rs"
  by (induction rs arbitrary: acc b) (auto simp: Let_def)

lemma prefix_subset: "set (prefix_rows n m ob) \<subseteq> set (ob_rows ob)"
  unfolding prefix_rows_def by_sequence_def using set_take_rows set_take_subset by fastforce

lemma metadata_texts:
  "list_all metadata_row rs \<Longrightarrow> \<exists>evs. list_all metadata_event evs \<and> map er_event_json rs = map canonical_bytes evs"
proof (induction rs)
  case (Cons r rs)
  then obtain ev evs where "metadata_event ev" "er_event_json r = canonical_bytes ev"
    "list_all metadata_event evs" "map er_event_json rs = map canonical_bytes evs"
    by (auto simp: metadata_row_def)
  then show ?case by (intro exI [of _ "ev # evs"]) simp
qed simp



definition old_row :: OutboxRow where
  "old_row = \<lparr>er_sequence = 1, er_event_id = ''e1'', er_event_type = ''output.updated'', er_event_json = ''{}'',
     er_byte_count = 2, er_retry_count = 0\<rparr>"

definition started_event :: HarnessEvent where
  "started_event = \<lparr>h_type = ''turn.started'', h_driver = [], h_turn_ref = Some ''t1'', h_native_session_id = [],
     h_native_turn_id = [], h_occurred_at = ''now'', h_data = [(''prompt'', JStr ''secret'')], h_native = None\<rparr>"

definition sample_sink :: "projector \<times> outbox" where
  "sample_sink = sink (\<lambda>r i. False) (\<lambda>v. []) default_limits \<lparr>fi_event = ''a'', fi_tool = ''b'', fi_activity = ''c''\<rparr> started_event
     (\<lparr>pj_agent_id = ''agent'', pj_session_ref = ''s'', pj_tool_refs = []\<rparr>,
      connect (\<lambda>r i. False) (\<lambda>v. []) \<lparr>ob_rows = [old_row], ob_last = 1, ob_state = []\<rparr>)"


end
