(* ===== verification/Event_Delivery.thy ===== *)
theory Event_Delivery
  imports Event_Outbox
begin

section \<open>Delivery of runtime events\<close>

text \<open>
  The outbox is a queue: rows are added behind and leave in front, and only for a reason. The facts
  here relate the sequence numbers of the table to positions in the list of its rows.
\<close>

subsection \<open>Sequences\<close>

definition event_queue_ok :: "outbox \<Rightarrow> bool" where
  "event_queue_ok ob \<longleftrightarrow> sorted_wrt (<) (map er_sequence (ob_rows ob)) \<and> list_all (\<lambda>q. q \<le> ob_last ob) (map er_sequence (ob_rows ob))"

lemma sort_key_sorted: "sorted (map f xs) \<Longrightarrow> sort_key f xs = xs"
  by (induction xs) (auto intro: insort_is_Cons)

lemma by_sequence_id: "event_queue_ok ob \<Longrightarrow> by_sequence ob = ob_rows ob"
  by (auto simp: by_sequence_def event_queue_ok_def strict_sorted_iff intro: sort_key_sorted)

lemma take_rows_prefix: "\<exists>k. take_rows m acc b rs = take k rs \<and> (\<not> b \<longrightarrow> rs \<noteq> [] \<longrightarrow> 0 < k)"
proof (induction rs arbitrary: acc b)
  case (Cons r rs)
  show ?case
  proof (cases "m < acc + (int (length (er_event_json r)) + (if b then 1 else 0))")
    case True
    then show ?thesis by (cases b) (auto intro: exI [of _ 0] exI [of _ 1])
  next
    case False
    obtain k where "take_rows m (acc + (int (length (er_event_json r)) + (if b then 1 else 0))) True rs = take k rs"
      using Cons by blast
    with False show ?thesis by (intro exI [of _ "Suc k"]) auto
  qed
qed simp

text \<open>A batch is a non-empty prefix of the rows, of at most the rows asked for.\<close>

lemma prefix_is_prefix:
  assumes "event_queue_ok ob" "ob_rows ob \<noteq> []" "0 < n"
  obtains k where "prefix_rows n m ob = take k (ob_rows ob)" "0 < k" "k \<le> length (ob_rows ob)" "k \<le> n"
proof -
  let ?t = "take n (ob_rows ob)"
  obtain k where k: "take_rows m 13 False ?t = take k ?t" "0 < k"
    using take_rows_prefix [of m 13 False ?t] assms by auto
  show thesis
  proof (rule that [of "min k (length ?t)"])
    show "prefix_rows n m ob = take (min k (length ?t)) (ob_rows ob)"
      using k(1) by (auto simp: prefix_rows_def by_sequence_id [OF assms(1)] take_all_iff min_def)
  qed (use assms k in auto)
qed

lemma strict_sorted_ends:
  fixes f :: "'a \<Rightarrow> int"
  assumes "sorted_wrt (<) (map f xs)" "x \<in> set xs"
  shows "f (hd xs) \<le> f x \<and> f x \<le> f (last xs)"
proof -
  obtain as bs where xs: "xs = as @ x # bs" using assms(2) by (auto simp: in_set_conv_decomp)
  have "f (hd xs) \<le> f x"
    using assms(1) by (cases as) (simp_all add: xs)
  moreover have "f x \<le> f (last xs)"
    using assms(1) by (cases bs rule: rev_cases) (simp_all add: xs sorted_wrt_append)
  ultimately show ?thesis ..
qed

lemma split_at_batch:
  assumes "sorted_wrt (<) (map er_sequence rs)" "0 < k" "k \<le> length rs"
  defines "P \<equiv> between (er_sequence (hd (take k rs))) (er_sequence (last (take k rs)))"
  shows "filter P rs = take k rs" "filter (\<lambda>r. \<not> P r) rs = drop k rs"
proof -
  let ?b = "take k rs" and ?c = "drop k rs"
  have s: "sorted_wrt (<) (map er_sequence (?b @ ?c))" using assms(1) by simp
  have ne: "?b \<noteq> []" using assms by auto
  have b: "P r" if "r \<in> set ?b" for r
    using strict_sorted_ends [of er_sequence ?b r] sorted_wrt_take [OF assms(1), of k] that
    by (simp add: P_def between_def take_map)
  have c: "\<not> P r" if "r \<in> set ?c" for r
  proof -
    have "\<forall>x\<in>set ?b. \<forall>y\<in>set ?c. er_sequence x < er_sequence y"
      using s unfolding map_append sorted_wrt_append by auto
    with that last_in_set [OF ne] show ?thesis by (auto simp: P_def between_def not_le)
  qed
  have "filter P (?b @ ?c) = ?b" "filter (\<lambda>r. \<not> P r) (?b @ ?c) = ?c"
    using b c by (simp_all only: filter_append) (simp_all add: filter_id_conv filter_empty_conv)
  then show "filter P rs = take k rs" "filter (\<lambda>r. \<not> P r) rs = drop k rs" by simp_all
qed

lemma discard_head:
  assumes "sorted_wrt (<) (map er_sequence rs)" "rs \<noteq> []"
  shows "sql_delete (\<lambda>r. er_sequence r = er_sequence (hd rs)) rs = drop 1 rs"
  using assms by (cases rs) (auto simp: sql_delete_def filter_id_conv)

text \<open>A batch of more than one row fits into a request.\<close>

lemma length_intersperse: "length (intersperse_comma ts) = sum_list (map length ts) + (length ts - 1)"
  by (induction ts rule: intersperse_comma.induct) simp_all

lemma length_batch_body:
  "int (length (batch_body (r # rs))) =
     13 + int (length (er_event_json r)) + sum_list (map (\<lambda>r. int (length (er_event_json r)) + 1) rs)"
proof -
  have "int (sum_list (map length (map er_event_json rs))) + int (length rs) =
      sum_list (map (\<lambda>r. int (length (er_event_json r)) + 1) rs)"
    by (induction rs) simp_all
  then show ?thesis by (simp add: batch_body_def length_intersperse)
qed

lemma take_rows_size:
  "acc \<le> m \<Longrightarrow> acc + sum_list (map (\<lambda>r. int (length (er_event_json r)) + 1) (take_rows m acc True rs)) \<le> m"
proof (induction rs arbitrary: acc)
  case (Cons r rs)
  let ?a = "acc + (int (length (er_event_json r)) + 1)"
  show ?case
  proof (cases "m < ?a")
    case False
    with Cons.IH [of ?a] show ?thesis by (simp add: Let_def add.assoc)
  qed (use Cons.prems in simp)
qed simp

lemma batch_fits:
  assumes "m < int (length (batch_body (prefix_rows n m ob)))" "prefix_rows n m ob \<noteq> []"
  shows "\<exists>r. prefix_rows n m ob = [r]"
proof (cases "take n (by_sequence ob)")
  case Nil show ?thesis using assms(2) unfolding prefix_rows_def Nil by simp
next
  case (Cons r rs)
  then have p: "prefix_rows n m ob = (if m < 13 + int (length (er_event_json r)) then [r]
      else r # take_rows m (13 + int (length (er_event_json r))) True rs)"
    by (simp add: prefix_rows_def)
  show ?thesis
  proof (cases "m < 13 + int (length (er_event_json r))")
    case False
    with assms(1) take_rows_size [of "13 + int (length (er_event_json r))" m rs] show ?thesis
      by (simp add: p length_batch_body)
  qed (simp add: p)
qed

subsection \<open>Writes\<close>

datatype outbox_op = Enqueue RuntimeEvent "bool option" | SetActive "string option" string string "string option"

fun run_op :: "outbox_limits \<Rightarrow> outbox_op \<Rightarrow> outbox \<Rightarrow> outbox" where
  "run_op ol (Enqueue ev t) ob = snd (enqueue ol ev t ob)"
| "run_op ol (SetActive turn session native harness) ob = set_active_turn turn session native harness ob"

definition extends :: "outbox \<Rightarrow> outbox \<Rightarrow> bool" where
  "extends ob ob' \<longleftrightarrow> event_queue_ok ob' \<and> (\<exists>new. ob_rows ob' = ob_rows ob @ new)"

lemma run_op_extends: "event_queue_ok ob \<Longrightarrow> extends ob (run_op ol op ob)"
  by (cases op)
     (auto simp: extends_def enqueue_def insert_event_def Let_def set_active_turn_def event_queue_ok_def sorted_wrt_append
       list_all_iff split: option.splits)

lemma ops_extend: "event_queue_ok ob \<Longrightarrow> extends ob (fold (run_op ol) ops ob)"
proof (induction ops arbitrary: ob)
  case Nil then show ?case by (simp add: extends_def)
next
  case (Cons op ops)
  then show ?case using run_op_extends [OF Cons.prems, of ol op] by (fastforce simp: extends_def)
qed

definition row_core :: "OutboxRow \<Rightarrow> OutboxRow" where
  "row_core r = r\<lparr>er_retry_count := 0\<rparr>"

lemma increment_core [simp]:
  "map row_core (ob_rows (increment_retries qs ob)) = map row_core (ob_rows ob)"
  "map er_sequence (ob_rows (increment_retries qs ob)) = map er_sequence (ob_rows ob)"
  "ob_last (increment_retries qs ob) = ob_last ob"
  by (simp_all add: increment_retries_def sql_update_def row_core_def)

lemma queue_ok_increment [simp]: "event_queue_ok (increment_retries qs ob) = event_queue_ok ob"
  by (simp only: event_queue_ok_def increment_core)

lemma ok_drop: "event_queue_ok ob \<Longrightarrow> ob_rows ob' = drop k (ob_rows ob) \<Longrightarrow> ob_last ob' = ob_last ob \<Longrightarrow> event_queue_ok ob'"
  by (auto simp: event_queue_ok_def drop_map [symmetric] sorted_wrt_drop list_all_iff dest!: in_set_dropD)

subsection \<open>Why a row leaves\<close>

definition permanent_refusal :: "int \<Rightarrow> bool" where
  "permanent_refusal status \<longleftrightarrow>
     (status < 200 \<or> 300 \<le> status) \<and> status < 500 \<and> status \<noteq> 429 \<and> status \<notin> set DEGRADED_CHANNEL_HTTP_STATUSES"

text \<open>The Server's answer to exactly these rows acknowledges each of them, by its id and in order.\<close>

definition acked :: "(json \<Rightarrow> string) \<Rightarrow> append_answer \<Rightarrow> OutboxRow list \<Rightarrow> bool" where
  "acked sh answer rows \<longleftrightarrow> (\<exists>status payload. answer = Decoded status payload \<and> 200 \<le> status \<and> status < 300 \<and>
     accepted_ids sh payload = Some (map er_event_id rows))"

definition refused :: "append_answer \<Rightarrow> bool" where
  "refused answer \<longleftrightarrow> (\<exists>status payload. answer = Decoded status payload \<and> permanent_refusal status)"

lemma acknowledge_prefix:
  assumes "event_queue_ok ob" "0 < k" "k \<le> length (ob_rows ob)" "acknowledge (take k (ob_rows ob)) ids ob = Inr ob'"
  shows "ids = map er_event_id (take k (ob_rows ob)) \<and> ob' = ob\<lparr>ob_rows := drop k (ob_rows ob)\<rparr>"
  using assms split_at_batch [of "ob_rows ob" k]
  by (auto simp: acknowledge_def Let_def sql_delete_def event_queue_ok_def split: if_splits)

lemma settle_cases:
  assumes ok: "event_queue_ok ob" and k: "0 < k" "k \<le> length (ob_rows ob)"
    and settle: "settle_batch sh (take k (ob_rows ob)) answer up ob = ((st, n), up', ob')"
  obtains
    (kept) "map row_core (ob_rows ob') = map row_core (ob_rows ob)" "event_queue_ok ob'" "n = 0" "st \<in> {UpRetry, UpDegraded}"
  | (sent) "ob' = ob\<lparr>ob_rows := drop k (ob_rows ob)\<rparr>" "acked sh answer (take k (ob_rows ob))" "n = k" "st = UpUploaded"
  | (bad) "ob' = ob\<lparr>ob_rows := drop 1 (ob_rows ob)\<rparr>" "refused answer" "k = 1" "n = 0" "st = UpDiscarded"
proof -
  let ?b = "take k (ob_rows ob)"
  have ne: "ob_rows ob \<noteq> []" "hd ?b = hd (ob_rows ob)" using k by (auto simp: hd_take)
  have dis: "discard (er_sequence (hd ?b)) ob = ob\<lparr>ob_rows := drop 1 (ob_rows ob)\<rparr>"
    using discard_head [of "ob_rows ob"] ok ne by (simp add: discard_def event_queue_ok_def)
  have rej: thesis if "reject_acknowledgement ?b status up ob = ((st, n), up', ob')" for status
    using that kept ok by (auto simp: reject_acknowledgement_def split: if_splits)
  have inc: thesis if "((UpRetry, 0), up, increment_retries qs ob) = ((st, n), up', ob')" for qs
    using that kept ok by auto
  show thesis
  proof (cases answer)
    case Transport
    then have "((UpRetry, 0), up, increment_retries (map er_sequence ?b) ob) = ((st, n), up', ob')"
      using settle by (simp add: settle_batch_def)
    then show ?thesis by (rule inc)
  next
    case (Malformed status) then show ?thesis using settle rej by (simp add: settle_batch_def)
  next
    case (Decoded status payload)
    consider "status = 429 \<or> 500 \<le> status" | "\<not> (status = 429 \<or> 500 \<le> status)" "status \<in> set DEGRADED_CHANNEL_HTTP_STATUSES"
      | "permanent_refusal status" | "200 \<le> status" "status < 300"
      unfolding permanent_refusal_def by linarith
    then show ?thesis
    proof cases
      case 1
      then have "((UpRetry, 0), up, increment_retries (map er_sequence ?b) ob) = ((st, n), up', ob')"
        using settle Decoded by (simp add: settle_batch_def)
      then show ?thesis by (rule inc)
    next
      case 2 then show ?thesis using settle kept ok Decoded by (auto simp: settle_batch_def)
    next
      case 3
      then have iso: "isolate_or_discard ?b (http_code status) up ob = ((st, n), up', ob')"
        using settle Decoded by (auto simp: settle_batch_def permanent_refusal_def)
      have "refused answer" using 3 Decoded by (auto simp: refused_def)
      then show ?thesis using iso k dis kept bad ok
        by (cases "k = 1") (auto simp: isolate_or_discard_def)
    next
      case 4
      have d: "status \<notin> set DEGRADED_CHANNEL_HTTP_STATUSES" "\<not> (status = 429 \<or> 500 \<le> status)"
        using 4 by (auto simp: DEGRADED_CHANNEL_HTTP_STATUSES_def)
      from settle Decoded 4 d consider "reject_acknowledgement ?b status up ob = ((st, n), up', ob')"
        | ids ob1 where "accepted_ids sh payload = Some ids" "acknowledge ?b ids ob = Inr ob1"
            "((UpUploaded, length ?b), up\<lparr>up_degraded_error := [], up_isolate_head := False\<rparr>, ob1) = ((st, n), up', ob')"
        by (auto simp: settle_batch_def split: option.splits if_splits sum.splits)
      then show ?thesis
      proof cases
        case 1 then show ?thesis by (rule rej)
      next
        case 2
        from acknowledge_prefix [OF ok k 2(2)] 2 4 Decoded k show ?thesis by (intro sent) (auto simp: acked_def)
      qed
    qed
  qed
qed

text \<open>
  C12. The outbox loses no event and keeps its order: whatever is enqueued during an upload and however the
  transport answers, an upload removes some rows in front and nothing else. Rows leave because the
  Server acknowledged exactly these rows by their ids, or the first row leaves alone because it is too
  large for any request or because the Server refused it, sent alone, for good.
\<close>

theorem events_leave_for_a_reason:
  assumes "event_queue_ok ob" "ob_rows ob \<noteq> []" "0 < up_batch_rows up"
    and "upload_once sh post (fold (run_op ol) ops) up ob = ((st, n), up', ob')"
  shows "event_queue_ok ob' \<and> (\<exists>k. map row_core (ob_rows ob') = drop k (map row_core (ob_rows (fold (run_op ol) ops ob))) \<and>
    (k = 0 \<or>
     st = UpUploaded \<and> n = k \<and> acked sh (decode_response (post (batch_body (take k (ob_rows ob))))) (take k (ob_rows ob)) \<or>
     st = UpDiscarded \<and> k = 1 \<and>
       (up_batch_bytes up < int (length (batch_body (take 1 (ob_rows ob)))) \<or>
        refused (decode_response (post (batch_body (take 1 (ob_rows ob))))))))"
proof -
  let ?ob = "fold (run_op ol) ops ob"
  obtain new where ok: "event_queue_ok ?ob" and new: "ob_rows ?ob = ob_rows ob @ new"
    using ops_extend [OF assms(1)] by (auto simp: extends_def)
  obtain k where k: "prefix_rows (if up_isolate_head up then 1 else up_batch_rows up) (up_batch_bytes up) ob = take k (ob_rows ob)"
    "0 < k" "k \<le> length (ob_rows ob)"
    using prefix_is_prefix [OF assms(1,2), of "if up_isolate_head up then 1 else up_batch_rows up"] assms(3)
    by (metis less_one)
  have b: "take k (ob_rows ob) = take k (ob_rows ?ob)" "take k (ob_rows ob) \<noteq> []" "hd (take k (ob_rows ob)) = hd (ob_rows ?ob)"
    "take 1 (ob_rows ob) = take 1 (ob_rows ?ob)" "k \<le> length (ob_rows ?ob)" "ob_rows ?ob \<noteq> []"
    using k assms(2) by (auto simp: new hd_take)
  show ?thesis
  proof (cases "up_batch_bytes up < int (length (batch_body (take k (ob_rows ob))))")
    case True
    obtain r where "take k (ob_rows ob) = [r]" using batch_fits [of _ _ ob] True b(2) k(1) by metis
    then have one: "k = 1 \<or> length (ob_rows ob) = 1" using k(2,3) by (auto dest: arg_cong [of _ _ length])
    then have t: "take k (ob_rows ob) = take 1 (ob_rows ob)" using k(2) by auto
    have "(st, n) = (UpDiscarded, 0)" "ob' = discard (er_sequence (hd (ob_rows ?ob))) ?ob"
      using assms(4) k(1) True b(2,3) by (auto simp: upload_once_def Let_def)
    moreover have "discard (er_sequence (hd (ob_rows ?ob))) ?ob = ?ob\<lparr>ob_rows := drop 1 (ob_rows ?ob)\<rparr>"
      using discard_head [of "ob_rows ?ob"] ok b(6) by (simp add: discard_def event_queue_ok_def)
    ultimately show ?thesis using True t ok_drop [OF ok, of ob' 1]
      by (intro conjI exI [of _ 1]) (simp_all add: drop_map)
  next
    case False
    with assms(4) k(1) b(2) have "settle_batch sh (take k (ob_rows ?ob)) (decode_response (post (batch_body (take k (ob_rows ob))))) up ?ob
        = ((st, n), up', ob')"
      by (simp add: upload_once_def Let_def b(1))
    from settle_cases [OF ok k(2) b(5) this] show ?thesis
    proof cases
      case 1 then show ?thesis by (intro conjI exI [of _ 0]) simp_all
    next
      case 2
      then show ?thesis using ok_drop [OF ok, of ob' k]
        by (intro conjI exI [of _ k]) (simp_all add: drop_map b(1))
    next
      case 3
      then show ?thesis using ok_drop [OF ok, of ob' 1]
        by (intro conjI exI [of _ 1]) (simp_all add: drop_map)
    qed
  qed
qed

definition queued :: "int \<Rightarrow> string \<Rightarrow> OutboxRow" where
  "queued q text = \<lparr>er_sequence = q, er_event_id = text, er_event_type = ''turn.started'', er_event_json = text,
     er_byte_count = int (length text), er_retry_count = 0\<rparr>"

definition two_events :: outbox where
  "two_events = \<lparr>ob_rows = [queued 3 ''a'', queued 5 ''b''], ob_last = 5, ob_state = []\<rparr>"

definition fresh_uploader :: uploader where
  "fresh_uploader = \<lparr>up_batch_rows = 50, up_batch_bytes = 262144, up_degraded_error = [], up_isolate_head = False\<rparr>"

lemma two_events_ok: "event_queue_ok two_events" "ob_rows two_events \<noteq> []" "0 < up_batch_rows fresh_uploader"
  by (simp_all add: event_queue_ok_def two_events_def queued_def fresh_uploader_def)

definition plain_event :: "string \<Rightarrow> string \<Rightarrow> RuntimeEvent" where
  "plain_event eid t = \<lparr>ev_agent_id = ''g'', ev_session_ref = ''s'', ev_turn_ref = ''t'', ev_type = t, ev_payload = JObj [],
     ev_event_id = eid, ev_occurred_at = ''now'', ev_version = JInt 1\<rparr>"

definition sample_upload :: "(upload_state \<times> nat) \<times> uploader \<times> outbox" where
  "sample_upload = upload_once (\<lambda>v. []) (\<lambda>_. Raised)
     (fold (run_op default_limits) [Enqueue (plain_event ''c'' ''turn.started'') None]) fresh_uploader two_events"

theorem events_leave_for_a_reason_witness:
  "map er_event_id (ob_rows (snd (snd sample_upload))) = [''a'', ''b'', ''c''] \<and> event_queue_ok (snd (snd sample_upload))"
proof
  show "map er_event_id (ob_rows (snd (snd sample_upload))) = [''a'', ''b'', ''c'']" by code_simp
  obtain st n up' ob' where r: "sample_upload = ((st, n), up', ob')" by (metis surj_pair)
  from events_leave_for_a_reason [OF two_events_ok r [unfolded sample_upload_def]]
  show "event_queue_ok (snd (snd sample_upload))" by (simp add: r)
qed

subsection \<open>Room for the end of a turn\<close>

definition below_reserve :: "outbox_limits \<Rightarrow> outbox \<Rightarrow> bool" where
  "below_reserve ol ob \<longleftrightarrow> fst (usage ob) \<le> ol_max_rows ol - ol_terminal_reserve_rows ol \<and>
     snd (usage ob) \<le> ol_max_bytes ol - ol_terminal_reserve_bytes ol \<and> list_all (\<lambda>n. 0 \<le> n) (map er_byte_count (ob_rows ob))"

text \<open>What happens while a turn runs: events that are not its end, and ends of uploads.\<close>

inductive turn_step :: "outbox_limits \<Rightarrow> outbox \<Rightarrow> outbox \<Rightarrow> bool" for ol where
  Observe: "turn_step ol ob (snd (enqueue ol ev (Some False) ob))"
| Bind: "turn_step ol ob (set_active_turn turn session native harness ob)"
| Settle: "turn_step ol ob (snd (snd (settle_batch sh rows answer up ob)))"
| Drop: "turn_step ol ob (discard q ob)"

lemma sum_filter_le:
  "list_all (\<lambda>n. 0 \<le> n) (map f xs) \<Longrightarrow> sum_list (map f (filter P xs)) \<le> sum_list (map f xs)" for f :: "'a \<Rightarrow> int"
  by (induction xs) auto

lemma below_filter:
  assumes "below_reserve ol ob" "ob_rows ob' = filter P (ob_rows ob)"
  shows "below_reserve ol ob'"
proof -
  have "int (length (filter P (ob_rows ob))) \<le> ol_max_rows ol - ol_terminal_reserve_rows ol"
    by (rule order_trans [of _ "int (length (ob_rows ob))"]) (use assms in \<open>simp_all add: below_reserve_def usage_def\<close>)
  with assms sum_filter_le [of er_byte_count "ob_rows ob" P] show ?thesis
    by (auto simp: below_reserve_def usage_def list_all_iff)
qed

lemma below_same:
  assumes "below_reserve ol ob" "map er_byte_count (ob_rows ob') = map er_byte_count (ob_rows ob)"
  shows "below_reserve ol ob'"
  using assms map_eq_imp_length_eq [OF assms(2)] by (simp add: below_reserve_def usage_def)

lemma below_increment: "below_reserve ol ob \<Longrightarrow> below_reserve ol (increment_retries qs ob)"
  by (erule below_same) (simp add: increment_retries_def sql_update_def)

lemma below_discard: "below_reserve ol ob \<Longrightarrow> below_reserve ol (discard q ob)"
  by (erule below_filter) (simp add: discard_def sql_delete_def)

lemma below_acknowledge: "below_reserve ol ob \<Longrightarrow> acknowledge rows ids ob = Inr ob' \<Longrightarrow> below_reserve ol ob'"
  by (auto simp: acknowledge_def Let_def sql_delete_def split: if_splits intro: below_filter)

lemma nonterminal_below:
  assumes "enqueue ol ev (Some False) ob = (res, ob')" "list_all (\<lambda>n. 0 \<le> n) (map er_byte_count (ob_rows ob))"
    "below_reserve ol ob \<or> res = Inr q"
  shows "below_reserve ol ob'"
  using assms by (auto simp: enqueue_def insert_event_def Let_def below_reserve_def usage_def split: if_splits option.splits)

lemma turn_step_below: "turn_step ol ob ob' \<Longrightarrow> below_reserve ol ob \<Longrightarrow> below_reserve ol ob'"
proof (induction rule: turn_step.induct)
  case (Observe ob ev)
  then show ?case using nonterminal_below [of ol ev ob] by (metis below_reserve_def prod.collapse)
next
  case Bind then show ?case by (simp add: below_reserve_def usage_def set_active_turn_def Let_def)
next
  case (Settle ob sh rows answer up)
  then show ?case
    by (simp add: settle_batch_def reject_acknowledgement_def isolate_or_discard_def below_increment below_discard
        below_acknowledge split: append_answer.split option.split sum.split)
next
  case Drop then show ?case by (simp add: below_discard)
qed


definition empty_outbox :: outbox where
  "empty_outbox = \<lparr>ob_rows = [], ob_last = 0, ob_state = []\<rparr>"


subsection \<open>The outbox drains\<close>

text \<open>Rounds of the upload loop with nothing enqueued in between, and the ids acknowledged in them.\<close>

fun drain_events ::
  "nat \<Rightarrow> (json \<Rightarrow> string) \<Rightarrow> (string \<Rightarrow> append_reply) \<Rightarrow> uploader \<Rightarrow> outbox \<Rightarrow> string list \<times> outbox" where
  "drain_events 0 sh post up ob = ([], ob)"
| "drain_events (Suc n) sh post up ob =
     (case upload_once sh post id up ob of
        ((st, k), up', ob') \<Rightarrow>
          (case drain_events n sh post up' ob' of
             (ids, ob'') \<Rightarrow> (map er_event_id (take k (by_sequence ob)) @ ids, ob'')))"

definition ack_of :: "OutboxRow list \<Rightarrow> json" where
  "ack_of rows = JObj [(''accepted'', JArr (map (\<lambda>r. JObj [(''event_id'', JStr (er_event_id r))]) rows))]"

text \<open>A Server that takes some events and refuses others: it acknowledges a batch when it takes all of it.\<close>

definition fair_sink :: "(OutboxRow \<Rightarrow> bool) \<Rightarrow> (string \<Rightarrow> append_reply) \<Rightarrow> OutboxRow list \<Rightarrow> bool" where
  "fair_sink takes post rs \<longleftrightarrow> (\<forall>j k. take k (drop j rs) \<noteq> [] \<longrightarrow>
     decode_response (post (batch_body (take k (drop j rs)))) =
       (if list_all takes (take k (drop j rs)) then Decoded 200 (ack_of (take k (drop j rs))) else Decoded 400 (JObj [])))"

lemma accepted_ack: "accepted_ids sh (ack_of rows) = Some (map er_event_id rows)"
proof -
  have "item_ids sh (map (\<lambda>r. JObj [(''event_id'', JStr (er_event_id r))]) rows) = Some (map er_event_id rows)"
    by (induction rows) (simp_all add: json_get_def)
  then show ?thesis by (simp add: accepted_ids_def ack_of_def json_get_def)
qed

lemma fair_drop: "fair_sink takes post rs \<Longrightarrow> fair_sink takes post (drop k rs)"
  unfolding fair_sink_def drop_drop by blast

lemma fair_batch:
  "fair_sink takes post rs \<Longrightarrow> take k rs \<noteq> [] \<Longrightarrow>
   decode_response (post (batch_body (take k rs))) =
     (if list_all takes (take k rs) then Decoded 200 (ack_of (take k rs)) else Decoded 400 (JObj []))"
  unfolding fair_sink_def by (metis drop0)

definition takeable :: "(OutboxRow \<Rightarrow> bool) \<Rightarrow> int \<Rightarrow> OutboxRow \<Rightarrow> bool" where
  "takeable takes m r \<longleftrightarrow> takes r \<and> int (length (batch_body [r])) \<le> m"

lemma batch_member_fits:
  assumes "r \<in> set rs" "int (length (batch_body rs)) \<le> m"
  shows "int (length (batch_body [r])) \<le> m"
proof -
  let ?f = "\<lambda>r. int (length (er_event_json r)) + 1"
  obtain a as where rs: "rs = a # as" using assms(1) by (cases rs) auto
  have nonneg: "0 \<le> sum_list (map ?f xs)" for xs :: "OutboxRow list" by (induction xs) simp_all
  have "?f r \<le> sum_list (map ?f xs)" if "r \<in> set xs" for xs
    using that nonneg by (induction xs) (auto simp: add_increasing add_increasing2)
  from this [of as] show ?thesis using assms nonneg [of as] by (auto simp: rs length_batch_body)
qed

lemma settle_fair:
  assumes "event_queue_ok ob" "0 < k" "k \<le> length (ob_rows ob)" "fair_sink takes post (ob_rows ob)"
  shows "settle_batch sh (take k (ob_rows ob)) (decode_response (post (batch_body (take k (ob_rows ob))))) up ob =
    (if list_all takes (take k (ob_rows ob))
     then ((UpUploaded, k), up\<lparr>up_degraded_error := [], up_isolate_head := False\<rparr>, ob\<lparr>ob_rows := drop k (ob_rows ob)\<rparr>)
     else if 1 < k then ((UpRetry, 0), up\<lparr>up_degraded_error := http_code 400, up_isolate_head := True\<rparr>, ob)
     else ((UpDiscarded, 0), up\<lparr>up_degraded_error := http_code 400, up_isolate_head := False\<rparr>,
           ob\<lparr>ob_rows := drop 1 (ob_rows ob)\<rparr>))"
proof -
  let ?b = "take k (ob_rows ob)"
  have ne: "?b \<noteq> []" "ob_rows ob \<noteq> []" "hd ?b = hd (ob_rows ob)" using assms by (auto simp: hd_take)
  have ack: "acknowledge ?b (map er_event_id ?b) ob = Inr (ob\<lparr>ob_rows := drop k (ob_rows ob)\<rparr>)"
    using assms ne split_at_batch [of "ob_rows ob" k] by_sequence_id [OF assms(1)]
    by (simp add: acknowledge_def Let_def sql_delete_def event_queue_ok_def)
  have dis: "discard (er_sequence (hd ?b)) ob = ob\<lparr>ob_rows := drop 1 (ob_rows ob)\<rparr>"
    using discard_head [of "ob_rows ob"] assms(1) ne by (simp add: discard_def event_queue_ok_def)
  show ?thesis
    unfolding fair_batch [OF assms(4) ne(1)]
    using assms(2,3) ack dis
    by (simp add: settle_batch_def accepted_ack isolate_or_discard_def DEGRADED_CHANNEL_HTTP_STATUSES_def)
qed

text \<open>A round on a non-empty outbox isolates the head, delivers a prefix, or drops an undeliverable head.\<close>

lemma fair_round:
  assumes ok: "event_queue_ok ob" and ne: "ob_rows ob \<noteq> []" and rows: "0 < up_batch_rows up"
    and fair: "fair_sink takes post (ob_rows ob)"
  defines "good \<equiv> takeable takes (up_batch_bytes up)"
  obtains (isolated) c where "\<not> up_isolate_head up"
      "upload_once sh post id up ob = ((UpRetry, 0), up\<lparr>up_degraded_error := c, up_isolate_head := True\<rparr>, ob)"
    | (sent) k where "0 < k" "k \<le> length (ob_rows ob)" "list_all good (take k (ob_rows ob))"
      "upload_once sh post id up ob = ((UpUploaded, k), up\<lparr>up_degraded_error := [], up_isolate_head := False\<rparr>,
         ob\<lparr>ob_rows := drop k (ob_rows ob)\<rparr>)"
    | (dropped) c i where "\<not> good (hd (ob_rows ob))" "i \<longrightarrow> up_isolate_head up"
      "upload_once sh post id up ob = ((UpDiscarded, 0), up\<lparr>up_degraded_error := c, up_isolate_head := i\<rparr>,
         ob\<lparr>ob_rows := drop 1 (ob_rows ob)\<rparr>)"
proof -
  let ?n = "if up_isolate_head up then 1 else up_batch_rows up" and ?m = "up_batch_bytes up"
  obtain k where k: "prefix_rows ?n ?m ob = take k (ob_rows ob)" "0 < k" "k \<le> length (ob_rows ob)" "k \<le> ?n"
  proof -
    have "0 < ?n" using rows by simp
    from prefix_is_prefix [OF ok ne this, of ?m] show thesis using that by blast
  qed
  have b: "take k (ob_rows ob) \<noteq> []" "hd (take k (ob_rows ob)) = hd (ob_rows ob)" using k ne by (auto simp: hd_take)
  have one: "take k (ob_rows ob) = [hd (ob_rows ob)]" if "k = 1" using that ne by (cases "ob_rows ob") auto
  show thesis
  proof (cases "?m < int (length (batch_body (take k (ob_rows ob))))")
    case True
    then obtain r where "take k (ob_rows ob) = [r]" using batch_fits [of ?m ?n ob] b(1) k(1) by auto
    then have r: "take k (ob_rows ob) = [hd (ob_rows ob)]" using b(2) by simp
    have "\<not> good (hd (ob_rows ob))" using True r by (simp add: good_def takeable_def)
    moreover have "discard (er_sequence (hd (ob_rows ob))) ob = ob\<lparr>ob_rows := drop 1 (ob_rows ob)\<rparr>"
      using discard_head [of "ob_rows ob"] ok ne by (simp add: discard_def event_queue_ok_def)
    ultimately show thesis
      using True k(1) b by (intro dropped [of "up_isolate_head up" "''body_too_large''"]) (simp_all add: upload_once_def Let_def)
  next
    case False
    then have u: "upload_once sh post id up ob =
        settle_batch sh (take k (ob_rows ob)) (decode_response (post (batch_body (take k (ob_rows ob))))) up ob"
      using k(1) b(1) by (simp add: upload_once_def Let_def)
    note settle = settle_fair [OF ok k(2,3) fair, of sh up]
    show thesis
    proof (cases "list_all takes (take k (ob_rows ob))")
      case True
      then have "list_all good (take k (ob_rows ob))"
        using False batch_member_fits [of _ "take k (ob_rows ob)" ?m] by (auto simp: good_def takeable_def list_all_iff)
      with True k settle u show thesis by (intro sent [of k]) simp_all
    next
      case bad: False
      show thesis
      proof (cases "1 < k")
        case True
        then have "\<not> up_isolate_head up" using k(4) by (auto split: if_splits)
        with True bad settle u show thesis by (intro isolated) simp_all
      next
        case False
        then have "k = 1" using k(2) by simp
        with bad one have "\<not> good (hd (ob_rows ob))" by (simp add: good_def takeable_def)
        with False bad settle u show thesis by (intro dropped [of False "http_code 400"]) simp_all
      qed
    qed
  qed
qed

lemma filter_split: "list_all P (take k xs) \<Longrightarrow> filter P xs = take k xs @ filter P (drop k xs)"
  using filter_append [of P "take k xs" "drop k xs"] by (simp add: filter_id_conv list_all_iff)

lemma drain_events_aux:
  assumes "event_queue_ok ob" "0 < up_batch_rows up" "fair_sink takes post (ob_rows ob)"
    and "2 * length (ob_rows ob) \<le> n + (if up_isolate_head up then 1 else 0)"
  shows "drain_events n sh post up ob =
    (map er_event_id (filter (takeable takes (up_batch_bytes up)) (ob_rows ob)), ob\<lparr>ob_rows := []\<rparr>)"
  using assms
proof (induction n arbitrary: up ob)
  case 0
  from 0(4) have "2 * length (ob_rows ob) \<le> 1" by (simp split: if_split_asm)
  then have "length (ob_rows ob) = 0" by presburger
  then have "ob_rows ob = []" by simp
  then show ?case by (cases ob) simp
next
  case (Suc n)
  let ?good = "takeable takes (up_batch_bytes up)"
  show ?case
  proof (cases "ob_rows ob = []")
    case True
    then have "upload_once sh post id up ob = ((UpIdle, 0), up, ob)"
      by (simp add: upload_once_def prefix_rows_def by_sequence_def)
    with True Suc.IH [of ob up] Suc.prems show ?thesis by simp
  next
    case False
    have seq: "by_sequence ob = ob_rows ob" by (rule by_sequence_id [OF Suc.prems(1)])
    from fair_round [OF Suc.prems(1) False Suc.prems(2,3), of sh]
    show ?thesis
    proof cases
      case (1 c)
      with Suc.IH [of ob "up\<lparr>up_degraded_error := c, up_isolate_head := True\<rparr>"] Suc.prems show ?thesis by simp
    next
      case (2 k)
      let ?ob = "ob\<lparr>ob_rows := drop k (ob_rows ob)\<rparr>"
      have "drain_events n sh post (up\<lparr>up_degraded_error := [], up_isolate_head := False\<rparr>) ?ob =
          (map er_event_id (filter ?good (drop k (ob_rows ob))), ob\<lparr>ob_rows := []\<rparr>)"
        using Suc.IH [of ?ob "up\<lparr>up_degraded_error := [], up_isolate_head := False\<rparr>"] Suc.prems 2(1,2)
          ok_drop [OF Suc.prems(1), of ?ob k] fair_drop [OF Suc.prems(3), of k]
        by (simp split: if_splits)
      then show ?thesis using 2 filter_split [OF 2(3)] by (simp add: seq)
    next
      case (3 c i)
      let ?ob = "ob\<lparr>ob_rows := drop 1 (ob_rows ob)\<rparr>"
      have "drain_events n sh post (up\<lparr>up_degraded_error := c, up_isolate_head := i\<rparr>) ?ob =
          (map er_event_id (filter ?good (drop 1 (ob_rows ob))), ob\<lparr>ob_rows := []\<rparr>)"
        using Suc.IH [of ?ob "up\<lparr>up_degraded_error := c, up_isolate_head := i\<rparr>"] Suc.prems 3(2) False
          ok_drop [OF Suc.prems(1), of ?ob 1] fair_drop [OF Suc.prems(3), of 1]
        by (auto split: if_splits)
      moreover have "filter ?good (ob_rows ob) = filter ?good (drop 1 (ob_rows ob))"
        using 3(1) False by (cases "ob_rows ob") simp_all
      ultimately show ?thesis using 3 by simp
    qed
  qed
qed

text \<open>
  C32. One bad event never keeps the others back: against a Server that takes some events and refuses
  others, the upload loop empties the outbox within two rounds per event, and exactly the events that
  the Server takes and that fit into a request are acknowledged, in the order they were stored.
\<close>

theorem event_outbox_drains:
  assumes "event_queue_ok ob" "0 < up_batch_rows up" "fair_sink takes post (ob_rows ob)"
  shows "drain_events (2 * length (ob_rows ob)) sh post up ob =
    (map er_event_id (filter (takeable takes (up_batch_bytes up)) (ob_rows ob)), ob\<lparr>ob_rows := []\<rparr>)"
  using drain_events_aux [OF assms, of "2 * length (ob_rows ob)"] by simp

definition picky_post :: "string \<Rightarrow> append_reply" where
  "picky_post body = (if body = batch_body [queued 3 ''a''] then Reply 200 (Value (ack_of [queued 3 ''a'']))
     else Reply 400 (Value (JObj [])))"

theorem event_outbox_drains_witness:
  "drain_events 4 (\<lambda>v. []) picky_post fresh_uploader two_events = ([''a''], two_events\<lparr>ob_rows := []\<rparr>)"
proof -
  have "fair_sink (\<lambda>r. er_event_id r = ''a'') picky_post (ob_rows two_events)"
    unfolding fair_sink_def
  proof (intro allI impI)
    fix j k
    let ?b = "take k (drop j (ob_rows two_events))"
    assume "?b \<noteq> []"
    then have "?b = [queued 3 ''a''] \<or> ?b = [queued 5 ''b''] \<or> ?b = [queued 3 ''a'', queued 5 ''b'']"
      by (simp add: two_events_def take_Cons' drop_Cons' split: if_splits)
    then show "decode_response (picky_post (batch_body ?b)) =
      (if list_all (\<lambda>r. er_event_id r = ''a'') ?b then Decoded 200 (ack_of ?b) else Decoded 400 (JObj []))"
      by (elim disjE; simp only:)
         (simp_all add: picky_post_def batch_body_def queued_def decode_response_def body_value_def ack_of_def)
  qed
  from event_outbox_drains [OF two_events_ok(1,3) this] show ?thesis
    by (simp add: two_events_def queued_def takeable_def batch_body_def fresh_uploader_def)
qed

end
