(* ===== verification/Runtime_Gates.thy ===== *)
theory Runtime_Gates
  imports Inbox_Coalescer Turn_Lifecycle
begin

section \<open>Failure gates of the runtime\<close>

text \<open>
  \<open>DegradedRecoveryMixin\<close> (\<open>agent/global_inbox_degraded.py\<close>) and its use in \<open>process_once\<close> and
  \<open>_handle_process_failure\<close> (\<open>agent/global_inbox_runtime.py\<close>): after a failed turn the runtime backs off,
  after a spent quota it parks, and it wakes itself through the coalescer. Time is the clock of the
  coalescer's system, a rational number. A product of a float with a power of two is exact; it raises
  when the power has no float, and an infinite product is cut by the maximum like a large one.
\<close>

subsection \<open>State\<close>

record gates =
  gt_health :: "string \<times> string"
  gt_degraded :: bool
  gt_degraded_until :: "rat option"
  gt_degraded_attempts :: nat
  gt_parked_drained :: bool
  gt_drained_park_until :: "rat option"
  gt_budget_park_attempts :: nat
  gt_no_progress_rearm_attempts :: nat

record gated =
  gr_burst :: burst_sys
  gr_gates :: gates

definition init_recovery_gates :: gates where
  "init_recovery_gates = \<lparr>gt_health = (''idle'', []), gt_degraded = False, gt_degraded_until = None, gt_degraded_attempts = 0,
     gt_parked_drained = False, gt_drained_park_until = None, gt_budget_park_attempts = 0, gt_no_progress_rearm_attempts = 0\<rparr>"

definition now_of :: "gated \<Rightarrow> rat" where "now_of s = clock (gr_burst s)"

definition alarm :: "rat \<Rightarrow> gated \<Rightarrow> gated" where
  "alarm delay s = s\<lparr>gr_burst := do_notify (Some delay) (gr_burst s)\<rparr>"

definition set_gates :: "(gates \<Rightarrow> gates) \<Rightarrow> gated \<Rightarrow> gated" where
  "set_gates f s = s\<lparr>gr_gates := f (gr_gates s)\<rparr>"

subsection \<open>Delays\<close>

definition DEGRADED_RECOVERY_BASE_SECONDS :: rat where "DEGRADED_RECOVERY_BASE_SECONDS = 5"
definition DEGRADED_RECOVERY_MAX_SECONDS :: rat where "DEGRADED_RECOVERY_MAX_SECONDS = 300"
definition BUDGET_PARK_BASE_SECONDS :: rat where "BUDGET_PARK_BASE_SECONDS = 300"
definition BUDGET_PARK_MAX_SECONDS :: rat where "BUDGET_PARK_MAX_SECONDS = 1800"
definition NO_PROGRESS_REARM_BASE_SECONDS :: rat where "NO_PROGRESS_REARM_BASE_SECONDS = 5"
definition NO_PROGRESS_REARM_MAX_SECONDS :: rat where "NO_PROGRESS_REARM_MAX_SECONDS = 300"

text \<open>\<open>min(base * 2 ** n, limit)\<close>; \<open>None\<close> is \<open>OverflowError\<close>: the integer \<open>2 ** n\<close> has no float from 1024 on.\<close>

definition doubled :: "rat \<Rightarrow> nat \<Rightarrow> rat \<Rightarrow> rat option" where
  "doubled base n limit = (if 1024 \<le> n then None else Some (min (base * 2 ^ n) limit))"

subsection \<open>Operations\<close>

definition clear_degraded_backoff :: "gates \<Rightarrow> gates" where
  "clear_degraded_backoff g = g\<lparr>gt_degraded := False, gt_degraded_until := None, gt_degraded_attempts := 0\<rparr>"

text \<open>\<open>_degrade\<close>; the first component tells that it raised.\<close>

definition degrade :: "string \<Rightarrow> gated \<Rightarrow> bool \<times> gated" where
  "degrade diagnostic s =
     (let s1 = set_gates (\<lambda>g. g\<lparr>gt_health := (''degraded'', diagnostic), gt_degraded := True,
                                gt_degraded_attempts := gt_degraded_attempts g + 1\<rparr>) s
      in case doubled DEGRADED_RECOVERY_BASE_SECONDS (gt_degraded_attempts (gr_gates s1) - 1) DEGRADED_RECOVERY_MAX_SECONDS of
           None \<Rightarrow> (True, s1)
         | Some backoff \<Rightarrow>
             (False, alarm backoff (set_gates (\<lambda>g. g\<lparr>gt_degraded_until := Some (now_of s + backoff)\<rparr>) s1)))"

definition park_drained :: "string \<Rightarrow> rat option \<Rightarrow> string option \<Rightarrow> gated \<Rightarrow> gated" where
  "park_drained outcome hold_seconds diagnostic s =
     (let text = (case diagnostic of Some d \<Rightarrow> d
                  | None \<Rightarrow> if outcome = ''extra_usage_required'' then ''extra usage unavailable; parked until operator retry''
                           else ''provider quota exhausted; parked until the usage window resets'');
          s1 = set_gates (\<lambda>g. g\<lparr>gt_health := (''degraded'', text), gt_parked_drained := True,
                 gt_drained_park_until := map_option (\<lambda>h. now_of s + h) hold_seconds\<rparr>) s
      in case hold_seconds of None \<Rightarrow> s1 | Some h \<Rightarrow> alarm h s1)"

definition next_budget_park_hold :: "gates \<Rightarrow> rat option \<times> gates" where
  "next_budget_park_hold g =
     (let g1 = g\<lparr>gt_budget_park_attempts := gt_budget_park_attempts g + 1\<rparr>
      in (doubled BUDGET_PARK_BASE_SECONDS (gt_budget_park_attempts g1 - 1) BUDGET_PARK_MAX_SECONDS, g1))"

definition clear_budget_park_backoff :: "gates \<Rightarrow> gates" where
  "clear_budget_park_backoff g = g\<lparr>gt_budget_park_attempts := 0\<rparr>"

definition note_no_progress_turn :: "gates \<Rightarrow> gates" where
  "note_no_progress_turn g = g\<lparr>gt_no_progress_rearm_attempts := gt_no_progress_rearm_attempts g + 1\<rparr>"

definition clear_no_progress_rearm_backoff :: "gates \<Rightarrow> gates" where
  "clear_no_progress_rearm_backoff g = g\<lparr>gt_no_progress_rearm_attempts := 0\<rparr>"

definition next_no_progress_rearm_delay :: "gates \<Rightarrow> rat" where
  "next_no_progress_rearm_delay g =
     (if gt_no_progress_rearm_attempts g \<le> 1 then 0
      else min (NO_PROGRESS_REARM_BASE_SECONDS * 2 ^ min (gt_no_progress_rearm_attempts g - 2) 6) NO_PROGRESS_REARM_MAX_SECONDS)"

text \<open>\<open>GlobalInboxRuntime.notify\<close> without the busy notice it may schedule.\<close>

definition runtime_notify :: "rat \<Rightarrow> bool \<Rightarrow> gated \<Rightarrow> gated" where
  "runtime_notify busy_delay running s =
     alarm (if running then busy_delay else 0) (set_gates clear_degraded_backoff s)"

text \<open>\<open>_wake_remaining_pending\<close> on the store it reads, after a turn has ended.\<close>

definition wake_remaining_pending :: "rat \<Rightarrow> bool \<Rightarrow> string option \<Rightarrow> db \<Rightarrow> gated \<Rightarrow> gated" where
  "wake_remaining_pending busy_delay running session d s =
     (if gt_degraded (gr_gates s) \<or> get_pending (Some 1) d = Inr [] then s
      else if get_notice_candidates session d = [] then s
      else let delay = next_no_progress_rearm_delay (gr_gates s)
        in if delay \<le> 0 then runtime_notify busy_delay running s else alarm delay s)"

definition drained_park_allows_processing :: "bool option \<Rightarrow> gated \<Rightarrow> bool \<times> gated" where
  "drained_park_allows_processing drained_check s =
     (let g = gr_gates s
      in if \<not> gt_parked_drained g then (True, s)
         else case gt_drained_park_until g of
             Some until \<Rightarrow>
               if until - now_of s > 0 then (False, alarm (until - now_of s) s)
               else (True, set_gates (\<lambda>g. g\<lparr>gt_drained_park_until := None, gt_parked_drained := False\<rparr>) s)
           | None \<Rightarrow>
               if drained_check = Some True then (False, s)
               else (True, set_gates (\<lambda>g. g\<lparr>gt_parked_drained := False\<rparr>) s))"

definition try_degraded_recovery :: "gated \<Rightarrow> bool \<times> gated" where
  "try_degraded_recovery s =
     (let g = gr_gates s; remaining = (case gt_degraded_until g of None \<Rightarrow> 0 | Some until \<Rightarrow> until - now_of s)
      in if \<not> gt_degraded g then (True, s)
         else if remaining > 0 then (False, alarm remaining s)
         else (True, set_gates (\<lambda>g. g\<lparr>gt_degraded := False, gt_degraded_until := None\<rparr>) s))"

text \<open>The two gates at the start of \<open>process_once\<close>.\<close>

definition gates_allow :: "bool option \<Rightarrow> gated \<Rightarrow> bool \<times> gated" where
  "gates_allow drained_check s =
     (case drained_park_allows_processing drained_check s of
        (False, s1) \<Rightarrow> (False, s1)
      | (True, s1) \<Rightarrow> try_degraded_recovery s1)"

text \<open>How a turn ends, as far as the gates see it: settled with progress or without, an exception that
  \<open>_handle_process_failure\<close> classifies, or a return without a correlated admission. The first
  component of the result tells that an exception escaped.\<close>

datatype turn_end = Succeeded | NoProgress | OtherSettled | Spent string bool string | Broken string

definition end_turn :: "turn_end \<Rightarrow> gated \<Rightarrow> bool \<times> gated" where
  "end_turn e s = (case e of
       Succeeded \<Rightarrow> (False, set_gates (clear_no_progress_rearm_backoff \<circ> clear_budget_park_backoff) s)
     | NoProgress \<Rightarrow> (False, set_gates note_no_progress_turn s)
     | OtherSettled \<Rightarrow> (False, s)
     | Spent outcome budget diagnostic \<Rightarrow>
         if budget
         then (case next_budget_park_hold (gr_gates s) of
                 (None, g) \<Rightarrow> (True, s\<lparr>gr_gates := g\<rparr>)
               | (Some hold, g) \<Rightarrow> (False, park_drained ''drained'' (Some hold) (Some diagnostic) (s\<lparr>gr_gates := g\<rparr>)))
         else (False, park_drained outcome None None s)
     | Broken diagnostic \<Rightarrow> degrade diagnostic s)"

subsection \<open>The loop\<close>

text \<open>The loop of \<open>run\<close>: it waits for a burst, tries the gates, runs a turn and wakes for what is left. A
  notification comes at any time, and so does a failure of the tasks that watch autonomous turns.\<close>

datatype loop_phase = Waiting | Processing | Running

inductive gate_step :: "loop_phase \<times> gated \<Rightarrow> loop_phase \<times> gated \<Rightarrow> bool" where
  Tick: "clock (gr_burst s) \<le> t \<Longrightarrow> gate_step (ph, s) (ph, s\<lparr>gr_burst := (gr_burst s)\<lparr>clock := t\<rparr>\<rparr>)"
| Notified: "0 \<le> busy_delay \<Longrightarrow> gate_step (ph, s) (ph, runtime_notify busy_delay running s)"
| Failed: "degrade diagnostic s = (False, s') \<Longrightarrow> gate_step (ph, s) (ph, s')"
| Entered: "waiter (gr_burst s) = NoWaiter \<Longrightarrow>
    gate_step (Waiting, s) (Waiting, s\<lparr>gr_burst := (gr_burst s)\<lparr>waiter := AwaitWake\<rparr>\<rparr>)"
| Waits: "waiter_step (gr_burst s) b \<Longrightarrow> fired b = fired (gr_burst s) \<Longrightarrow>
    gate_step (Waiting, s) (Waiting, s\<lparr>gr_burst := b\<rparr>)"
| Burst: "waiter_step (gr_burst s) b \<Longrightarrow> fired b \<noteq> fired (gr_burst s) \<Longrightarrow>
    gate_step (Waiting, s) (Processing, s\<lparr>gr_burst := b\<rparr>)"
| Refused: "gates_allow drained_check s = (False, s') \<Longrightarrow> gate_step (Processing, s) (Waiting, s')"
| Passed: "gates_allow drained_check s = (True, s') \<Longrightarrow> gate_step (Processing, s) (Running, s')"
| Ended: "end_turn e s = (False, s') \<Longrightarrow> 0 \<le> busy_delay \<Longrightarrow>
    gate_step (Running, s) (Waiting, wake_remaining_pending busy_delay running session d s')"

subsection \<open>A closed gate has an alarm\<close>

text \<open>When the gates that close with a time are open again, at the latest.\<close>

definition opens_at :: "gates \<Rightarrow> rat option" where
  "opens_at g =
     (case (if gt_parked_drained g then gt_drained_park_until g else None, if gt_degraded g then gt_degraded_until g else None) of
        (None, None) \<Rightarrow> None
      | (Some a, None) \<Rightarrow> Some a
      | (None, Some b) \<Rightarrow> Some b
      | (Some a, Some b) \<Rightarrow> Some (max a b))"

definition parked_untimed :: "gates \<Rightarrow> bool" where
  "parked_untimed g \<longleftrightarrow> gt_parked_drained g \<and> gt_drained_park_until g = None"

text \<open>The alarm that a closed gate relies on; behind a park with a time the other gate is not tried.\<close>

definition asked_by :: "rat \<Rightarrow> gated \<Rightarrow> bool" where
  "asked_by u s \<longleftrightarrow> (\<exists>t. asked (gr_burst s) = Some t \<and> t \<le> u)"

definition alarm_set :: "gated \<Rightarrow> bool" where
  "alarm_set s \<longleftrightarrow>
     (let g = gr_gates s
      in (\<forall>u. gt_parked_drained g \<longrightarrow> gt_drained_park_until g = Some u \<longrightarrow> asked_by u s) \<and>
         (\<forall>u. \<not> gt_parked_drained g \<longrightarrow> gt_degraded g \<longrightarrow> gt_degraded_until g = Some u \<longrightarrow> asked_by u s))"

definition gate_inv :: "loop_phase \<times> gated \<Rightarrow> bool" where
  "gate_inv ps \<longleftrightarrow>
     (gt_degraded (gr_gates (snd ps)) \<longrightarrow> gt_degraded_until (gr_gates (snd ps)) \<noteq> None) \<and>
     (fst ps \<noteq> Processing \<longrightarrow> alarm_set (snd ps)) \<and>
     (fst ps = Running \<longrightarrow> \<not> gt_parked_drained (gr_gates (snd ps)))"

lemmas gate_simps = gate_inv_def alarm_set_def Let_def set_gates_def now_of_def

lemma alarm_fields [simp]:
  "gr_gates (alarm delay s) = gr_gates s" "clock (gr_burst (alarm delay s)) = clock (gr_burst s)"
  by (simp_all add: alarm_def do_notify_def)

lemma alarm_asks: "0 \<le> delay \<Longrightarrow> clock (gr_burst s) + delay \<le> u \<Longrightarrow> asked_by u (alarm delay s)"
  by (auto simp: asked_by_def alarm_def do_notify_def notify_delay_def earlier_def split: option.splits)

lemma alarm_keeps: "asked_by u s \<Longrightarrow> asked_by u (alarm delay s)"
  by (auto simp: asked_by_def alarm_def do_notify_def earlier_def split: option.splits)

lemma asked_by_gates [simp]: "asked_by u (s\<lparr>gr_gates := g\<rparr>) = asked_by u s"
  by (simp add: asked_by_def)

lemma doubled_nonneg: "0 \<le> base \<Longrightarrow> 0 \<le> limit \<Longrightarrow> doubled base n limit = Some d \<Longrightarrow> 0 \<le> d"
  by (auto simp: doubled_def split: if_splits)

lemma degrade_inv:
  assumes "degrade diagnostic s = (False, s')"
  shows "gt_parked_drained (gr_gates s') = gt_parked_drained (gr_gates s)"
    "gt_drained_park_until (gr_gates s') = gt_drained_park_until (gr_gates s)"
    "gt_degraded_until (gr_gates s') \<noteq> None" "gt_degraded_until (gr_gates s') = Some u \<Longrightarrow> asked_by u s'"
    "asked_by v s \<Longrightarrow> asked_by v s'"
proof -
  obtain b where b: "doubled DEGRADED_RECOVERY_BASE_SECONDS (gt_degraded_attempts (gr_gates s)) DEGRADED_RECOVERY_MAX_SECONDS = Some b"
    using assms by (auto simp: degrade_def set_gates_def Let_def split: option.splits)
  then have "0 \<le> b"
    by (rule doubled_nonneg [rotated 2]) (simp_all add: DEGRADED_RECOVERY_BASE_SECONDS_def DEGRADED_RECOVERY_MAX_SECONDS_def)
  with assms b show "gt_parked_drained (gr_gates s') = gt_parked_drained (gr_gates s)"
    "gt_drained_park_until (gr_gates s') = gt_drained_park_until (gr_gates s)"
    "gt_degraded_until (gr_gates s') \<noteq> None" "gt_degraded_until (gr_gates s') = Some u \<Longrightarrow> asked_by u s'"
    by (auto simp: degrade_def set_gates_def now_of_def Let_def intro!: alarm_asks)
  show "asked_by v s \<Longrightarrow> asked_by v s'"
    using assms b by (auto simp: degrade_def set_gates_def Let_def intro!: alarm_keeps)
qed

lemma degrade_keeps_inv:
  assumes "degrade diagnostic s = (False, s')" "gate_inv (ph, s)"
  shows "gate_inv (ph, s')"
  using assms(2) degrade_inv [OF assms(1)] by (auto simp: gate_inv_def alarm_set_def Let_def)

lemma notify_keeps_inv:
  assumes "gate_inv (ph, s)"
  shows "gate_inv (ph, runtime_notify delay running s)"
  using assms by (auto simp: runtime_notify_def gate_simps clear_degraded_backoff_def intro: alarm_keeps)

lemma wake_keeps_inv: "gate_inv (ph, s) \<Longrightarrow> gate_inv (ph, wake_remaining_pending delay running session d s)"
  using notify_keeps_inv [of ph s delay running]
  by (auto simp: wake_remaining_pending_def Let_def) (auto simp: gate_simps intro: alarm_keeps)

lemma refused_inv:
  assumes "gates_allow check s = (False, s')" "gate_inv (ph, s)"
  shows "gate_inv (Waiting, s')"
  using assms
  by (auto simp: gates_allow_def drained_park_allows_processing_def try_degraded_recovery_def gate_simps
      split: if_splits option.splits bool.splits intro!: alarm_asks)

lemma passed_inv:
  assumes "gates_allow check s = (True, s')"
  shows "gate_inv (Running, s')"
  using assms
  by (auto simp: gates_allow_def drained_park_allows_processing_def try_degraded_recovery_def gate_simps
      split: if_splits option.splits bool.splits)

lemma end_turn_inv:
  assumes "end_turn e s = (False, s')" "gate_inv (Running, s)"
  shows "gate_inv (Waiting, s')"
proof (cases e)
  case (Broken diagnostic)
  then have "gate_inv (Running, s')" using assms degrade_keeps_inv by (simp add: end_turn_def)
  then show ?thesis by (simp add: gate_inv_def)
next
  case (Spent outcome budget diagnostic)
  have h: "0 \<le> h" if "next_budget_park_hold g = (Some h, g')" for g g' h
    using that doubled_nonneg [of BUDGET_PARK_BASE_SECONDS BUDGET_PARK_MAX_SECONDS "gt_budget_park_attempts g" h]
    by (simp add: next_budget_park_hold_def Let_def BUDGET_PARK_BASE_SECONDS_def BUDGET_PARK_MAX_SECONDS_def)
  have g: "gt_degraded g' = gt_degraded g \<and> gt_degraded_until g' = gt_degraded_until g"
    if "next_budget_park_hold g = (r, g')" for g g' r
    using that by (auto simp: next_budget_park_hold_def Let_def)
  show ?thesis
  proof (cases budget)
    case True
    then obtain hold g1 where n: "next_budget_park_hold (gr_gates s) = (Some hold, g1)"
      "s' = park_drained ''drained'' (Some hold) (Some diagnostic) (s\<lparr>gr_gates := g1\<rparr>)"
      using assms(1) Spent by (auto simp: end_turn_def split: prod.splits option.splits)
    with h [OF n(1)] g [OF n(1)] assms(2) show ?thesis
      by (auto simp: park_drained_def gate_simps intro!: alarm_asks)
  next
    case False
    then show ?thesis using assms Spent by (auto simp: end_turn_def park_drained_def gate_simps)
  qed
qed (use assms in \<open>auto simp: end_turn_def gate_simps clear_no_progress_rearm_backoff_def
      clear_budget_park_backoff_def note_no_progress_turn_def\<close>)

lemma quiet_waiter: "waiter_step b b' \<Longrightarrow> fired b' = fired b \<Longrightarrow> asked b' = asked b"
  by (induction rule: waiter_step.induct)
     (auto simp: do_read_def do_finish_def split: prod.splits list.splits if_splits)

lemma gate_step_inv: "gate_step ps ps' \<Longrightarrow> gate_inv ps \<Longrightarrow> gate_inv ps'"
proof (induction rule: gate_step.induct)
  case (Ended e s s')
  then show ?case by (intro wake_keeps_inv end_turn_inv)
next
  case (Waits s b)
  then show ?case using quiet_waiter [of "gr_burst s" b] by (simp add: gate_simps asked_by_def)
next
  case (Refused drained_check s s')
  then show ?case using refused_inv by blast
next
  case (Passed drained_check s s')
  then show ?case using passed_inv by blast
qed (auto simp: notify_keeps_inv degrade_keeps_inv, auto simp: gate_simps asked_by_def)

lemma gate_reach_inv: "gate_step\<^sup>*\<^sup>* ps ps' \<Longrightarrow> gate_inv ps \<Longrightarrow> gate_inv ps'"
  by (induction rule: rtranclp_induct) (auto intro: gate_step_inv)

lemma opens_asked:
  assumes "alarm_set s" "\<not> parked_untimed (gr_gates s)" "opens_at (gr_gates s) = Some u"
  shows "asked_by u s"
  using assms
  by (auto simp: alarm_set_def Let_def parked_untimed_def opens_at_def asked_by_def split: option.splits if_splits)

lemma open_at:
  assumes "gt_degraded (gr_gates s) \<longrightarrow> gt_degraded_until (gr_gates s) \<noteq> None"
    "\<not> parked_untimed (gr_gates s)" "opens_at (gr_gates s) = Some u" "u \<le> now_of s"
  shows "fst (gates_allow check s)"
  using assms
  by (auto simp: gates_allow_def drained_park_allows_processing_def try_degraded_recovery_def parked_untimed_def
      opens_at_def set_gates_def now_of_def Let_def split: option.splits if_splits prod.splits bool.splits)


definition idle_runtime :: gated where
  "idle_runtime = \<lparr>gr_burst = start_sys 3 100, gr_gates = init_recovery_gates\<rparr>"


subsection \<open>The backoff overflows\<close>

text \<open>Failed turns with no message in between: before each the gates are tried, with the coalescer in any
  state \<open>bursts k\<close>.\<close>

fun fail_rounds :: "(nat \<Rightarrow> burst_sys) \<Rightarrow> nat \<Rightarrow> gated \<Rightarrow> bool \<times> gated" where
  "fail_rounds bursts 0 s = (False, s)"
| "fail_rounds bursts (Suc k) s =
     (case fail_rounds bursts k s of
        (True, s1) \<Rightarrow> (True, s1)
      | (False, s1) \<Rightarrow> end_turn (Broken ''turn failed and was requeued'') (snd (gates_allow None (s1\<lparr>gr_burst := bursts k\<rparr>))))"

lemma allow_attempts: "gt_degraded_attempts (gr_gates (snd (gates_allow check s))) = gt_degraded_attempts (gr_gates s)"
  by (simp add: gates_allow_def drained_park_allows_processing_def try_degraded_recovery_def set_gates_def Let_def
      split: option.splits prod.splits bool.splits if_splits)

lemma degrade_attempts:
  "gt_degraded_attempts (gr_gates (snd (degrade diagnostic s))) = gt_degraded_attempts (gr_gates s) + 1"
  "fst (degrade diagnostic s) \<longleftrightarrow> 1024 \<le> gt_degraded_attempts (gr_gates s)"
  by (simp_all add: degrade_def set_gates_def doubled_def Let_def)

lemma fail_rounds_attempts:
  "k \<le> 1024 \<Longrightarrow> \<not> fst (fail_rounds bursts k s) \<and> gt_degraded_attempts (gr_gates (snd (fail_rounds bursts k s))) = k"
  if "gt_degraded_attempts (gr_gates s) = 0"
proof (induction k)
  case (Suc k)
  then obtain s1 where "fail_rounds bursts k s = (False, s1)" "gt_degraded_attempts (gr_gates s1) = k"
    by (cases "fail_rounds bursts k s") auto
  then show ?case using Suc.prems by (simp add: end_turn_def degrade_attempts allow_attempts)
qed (simp add: that)

text \<open>
  C37. The backoff of a persistent failure overflows: the delay is computed from a power of two before
  it is capped, so the 1025th failure in a row without an inbound message raises, out of the loop of
  the runtime, and sets no alarm; every failure before it is handled.
\<close>

theorem degraded_backoff_overflows:
  "(fst (fail_rounds bursts k idle_runtime) \<longleftrightarrow> 1025 \<le> k) \<and>
   gr_burst (snd (fail_rounds bursts 1025 idle_runtime)) =
     gr_burst (snd (gates_allow None ((snd (fail_rounds bursts 1024 idle_runtime))\<lparr>gr_burst := bursts 1024\<rparr>)))"
proof -
  have z: "gt_degraded_attempts (gr_gates idle_runtime) = 0" by (simp add: idle_runtime_def init_recovery_gates_def)
  note r = fail_rounds_attempts [OF z, of 1024 bursts]
  obtain s1 where s1: "fail_rounds bursts 1024 idle_runtime = (False, s1)" "gt_degraded_attempts (gr_gates s1) = 1024"
    using r by (cases "fail_rounds bursts 1024 idle_runtime") auto
  have n: "(1025 :: nat) = Suc 1024" by simp
  have "fail_rounds bursts 1025 idle_runtime =
      degrade ''turn failed and was requeued'' (snd (gates_allow None (s1\<lparr>gr_burst := bursts 1024\<rparr>)))"
    unfolding n fail_rounds.simps s1(1) by (simp add: end_turn_def)
  then have last: "fst (fail_rounds bursts 1025 idle_runtime)"
    "gr_burst (snd (fail_rounds bursts 1025 idle_runtime)) = gr_burst (snd (gates_allow None (s1\<lparr>gr_burst := bursts 1024\<rparr>)))"
    using s1(2) by (simp_all add: degrade_attempts allow_attempts)
       (simp add: degrade_def set_gates_def doubled_def allow_attempts Let_def)
  have "fst (fail_rounds bursts k idle_runtime)" if "1025 \<le> k"
    using that last(1) by (induction k rule: dec_induct) (auto split: prod.splits bool.splits)
  moreover have "1025 \<le> k" if "fst (fail_rounds bursts k idle_runtime)"
    using that fail_rounds_attempts [OF z, of k bursts] by (metis Suc_leI le_less_linear n not_less)
  ultimately show ?thesis using last(2) s1(1) by auto
qed

end
