(* ===== verification/Spec2Isabelle.thy ===== *)
theory Spec2Isabelle
  imports Json_Round_Trip Target_Text Read_Props History_Props Notice_Props Reminder_Passes Reminder_Snapshots Store_Machine
    Report_Props Report_Drain Planner_Props Inbox_Coalescer Union_Props Timer_Props
    Approval_Props Send_Props Send_Ledger Event_Privacy Event_Delivery Runtime_Gates
begin

text \<open>
  Verification of the durable state of puffo-agent, the agent daemon of \<open>src/src/puffo_agent\<close>. All
  file names below are in its directory \<open>agent\<close>.

  \<^bold>\<open>The program.\<close> An agent receives envelopes from the Puffo Server, keeps them in one SQLite database,
  tells a provider session that there is work, lets a turn of that session admit messages, and closes
  the turn when they are handled. \<open>MessageStore\<close> (\<open>message_store.py\<close>) owns the database; its mixins
  are the Inbox (\<open>inbox_store.py\<close>), reminders (\<open>reminder_store.py\<close>) and processing reports
  (\<open>processing_receipts.py\<close>); \<open>receipt_persistence.py\<close>, \<open>prior_context.py\<close>,
  \<open>message_store_models.py\<close> and parts of \<open>message_projection.py\<close> belong to them. Everything else in
  the daemon is a client of this store; of the clients the planner and coalescer of the Inbox
  (\<open>inbox_scheduler.py\<close>), the turn lifecycle (\<open>global_inbox_*.py\<close>), the reminder timer, the handler of
  inbound deliveries with its gates, the coordinator of outgoing messages, the failure gates of the
  runtime and the outbox of runtime events, which is a database of its own, are modelled. Each call
  runs one transaction under \<open>_inbox_lock\<close>, so a history of the store is a sequence of calls, and
  a call that raises leaves the database as it was.

  \<^bold>\<open>The model.\<close> A table is the list of its rows in rowid order, a row a record with the columns of the
  schema, the database the record \<open>db\<close>. A statement is one of \<open>sql_update\<close>, \<open>sql_delete\<close>,
  \<open>sql_count\<close>, \<open>sql_fetchone\<close>, \<open>sql_exists\<close> or an insert with its key and index checks; a method is a
  function from its arguments, the clock readings it makes and the database to a result and the
  database after it. Exceptions are the left side of a sum. Python strings are their UTF-8 bytes.

  \<^item> \<open>Store_Prelude\<close>: errors, the SQL fragment, batching, the locales \<open>primary_key\<close> (a table with a
    key) and \<open>evolving_store\<close> (a machine whose steps keep an invariant and evolve its state), lists.
  \<^item> \<open>Json_Text\<close>, \<open>Store_Schema\<close>: the JSON printer and scanner byte for byte, the rows and tables, the
    content codec, targets. \<open>Json_Round_Trip\<close> and \<open>Target_Text\<close> prove their round trips.
  \<^item> \<open>Notice_State\<close>, \<open>Store_Invariant\<close>, \<open>Notice_Delivery\<close>, \<open>Notice_Props\<close>: pending rows, the notice
    row and what each session was told; the invariant of the store; the locale \<open>notice_board\<close> is the
    contract a notifier relies on, and the store is its instance.
  \<^item> \<open>Receipts\<close>, \<open>Row_Updates\<close>, \<open>Receipt_Facts\<close>, \<open>Receipt_Props\<close>: sequenced and local receipts, deferred
    thread roots, the approval gate for foreign direct messages, retention.
  \<^item> \<open>Inbox_Turns\<close>, \<open>Turn_Facts\<close>, \<open>Turn_Props\<close>: turns from start to completion, redelivery, requeue,
    covers and quarantine.
  \<^item> \<open>Inbox_Reads\<close>, \<open>Read_Props\<close>, \<open>History_Reads\<close>, \<open>History_Props\<close>: Inbox pages, prior context, the
    freshness watermark, channel, thread and direct-message history, notes, the small tables.
  \<^item> \<open>Reminder_Model\<close>, \<open>Reminder_Sync\<close>, \<open>Reminder_Delivery\<close>: all of \<open>reminder_store.py\<close> but its
    migration; \<open>Reminder_Facts\<close>, \<open>Reminder_Ops\<close>, \<open>Reminder_Steps\<close> and \<open>Reminder_Runs\<close> prove that every
    operation keeps the table well formed and how a row may change; \<open>Reminder_Props\<close>,
    \<open>Reminder_Passes\<close> and \<open>Reminder_Snapshots\<close> hold the properties.
  \<^item> \<open>Report_Outbox\<close>, \<open>Report_Facts\<close>, \<open>Report_Props\<close>, \<open>Report_Drain\<close>: the outbox of processing reports
    and its dispatcher, as a transition system with enqueues during a request.
  \<^item> \<open>Inbox_Planner\<close>, \<open>Planner_Props\<close>: \<open>InboxPlanner\<close> and the notice delivery of \<open>inbox_scheduler.py\<close>, and
    the batch loop \<open>_plan_bounded_batch\<close> of \<open>global_inbox_runtime.py\<close> that plans, quarantines and shortens.
  \<^item> \<open>Inbox_Coalescer\<close>: \<open>InboxCoalescer\<close>, its notifications and its waiter as interleaved tasks.
  \<^item> \<open>Turn_Lifecycle\<close>, \<open>Recovery_Props\<close>, \<open>Settle_Props\<close>, \<open>Union_Props\<close>: \<open>GlobalInboxRuntime\<close> from the start
    of a turn to its settlement, requeue or recovery, over the in-memory union of the active turn.
  \<^item> \<open>Reminder_Timer\<close>, \<open>Timer_Props\<close>: \<open>reminder_scheduler.py\<close>, timestamps, tool operations, delivery passes
    and the wait of each round.
  \<^item> \<open>Contact_Cache\<close>: \<open>contact_cache.py\<close>. \<open>Thread_Context\<close>: \<open>thread_context.py\<close>. \<open>Ingress\<close>: the gates of
    \<open>ingress_policy.py\<close> and \<open>dm_gate.py\<close> and \<open>InboundReceiptHandler.handle\<close> of \<open>inbound_receipts.py\<close>, from an
    opened payload to a receipt. \<open>Ingress_Props\<close> and \<open>Approval_Props\<close>: acknowledgements, blocked senders,
    strangers and their approval.
  \<^item> \<open>Runtime_Gates\<close>: \<open>global_inbox_degraded.py\<close>, the backoff and the parks of the runtime with the wakes
    they set in the coalescer, and the loop of the runtime around them.
  \<^item> \<open>Runtime_Events\<close>, \<open>Event_Outbox\<close>, \<open>Event_Privacy\<close>, \<open>Event_Delivery\<close>: the events a worker uploads
    (\<open>runtime_events.py\<close>, the codes of \<open>provider_failures.py\<close>) and their durable outbox with its uploader
    (\<open>runtime_event_outbox.py\<close>): what an event can say, why a row leaves, and that the queue drains.
  \<^item> \<open>Json_Values\<close>: what Python makes of a value read from JSON. \<open>Send_Ledger\<close>: \<open>global_inbox_send.py\<close>, the
    ledger of send attempts, the covers of a committed send and the coverage fact.
  \<^item> \<open>Send_Request\<close>, \<open>Send_Response\<close>, \<open>Send_Files\<close>: the request of the send tool (\<open>send_models.py\<close>,
    \<open>send_routing.py\<close>), the validators of the Server's answers (\<open>send_response_validation.py\<close>), of which
    the locale \<open>answer_validator\<close> states what both lanes promise, and the attachments of a send.
  \<^item> \<open>Send_Held\<close>, \<open>Send_Channel\<close>: \<open>SendCoordinator\<close> (\<open>send_coordinator.py\<close>) and its recovery source
    (\<open>global_inbox_held.py\<close>) as tasks of a state monad. At each await \<open>sw_others\<close> changes the state in any
    way, so that what is proved of a task holds under every interleaving. \<open>Send_Held_Props\<close> and
    \<open>Send_Props\<close>: a calculus of weakest preconditions, the locales \<open>task_guarantee\<close>, \<open>write_guarantee\<close>,
    \<open>post_guarantee\<close> and \<open>settle_guarantee\<close> of what a task keeps, and the properties of held and of
    committed sends.
  \<^item> \<open>Message_Evolution\<close>, \<open>Store_Machine\<close>: how a message row may change in any call, and the store as
    a machine over all its writing calls, interpreted as an \<open>evolving_store\<close> twice.
  \<^item> This theory: the invariant of every reachable state, and what survives any history.

  \<^bold>\<open>Bounds and fuel.\<close> The scanner of JSON texts recurses on fuel, twice the length of the text plus two,
  which \<open>Json_Round_Trip\<close> shows to be enough for every text the printer writes. The batch loop of the
  planner is a \<open>partial_function\<close> that is proved to return. A reader of Inbox
  pages gets as many pages as there are rows plus one, the dispatcher loop two rounds per report; both
  are proved to be enough, and so are two rounds of the uploader per runtime event. Integers are unbounded, as in Python; SQLite's 64-bit range is not
  modelled, since no column counts that far. Clock
  readings of the coalescer are rational numbers, without the rounding of floats; the times of
  reminders are rounded as IEEE doubles. The backoff of the runtime is exact, and raises where a power of
  two has no double.

  \<^bold>\<open>Parameters.\<close> The clock readings, fresh identifiers, the hash of a run id, the byte length of a
  rendered message, the formatter, estimator and policy of the planner, the callbacks of the remote
  reminder coordinator and the answers of the Server are arguments; the answers that one inbound
  delivery meets are the record \<open>world\<close>. A send takes the file system, the channel policy, the resolution
  of route and content, the sealing of an envelope, SHA-256 and the equality of a float with an integer
  from the record \<open>send_env\<close>, by the number of awaits so far.

  \<^bold>\<open>Not modelled.\<close> Schema migrations of earlier releases; the text form of Inbox cursors; the task loop
  of the Global Inbox runtime with its provider retries, busy notices, autonomous turns and the crash
  join \<open>current_turn.json\<close>; the classification of provider diagnostics by their text; of the send coordinator the routing, sealing and uploads (arguments of the
  model), the per-channel lock, the keyless direct message, the supplementation of devices and the text of
  the held context; the Server client with its sockets, profile caches, invitations and the keyless bridge;
  decryption; rendering for the model; the harness, the portal, cryptography and the MCP tools, which are
  processes, user interface and wrappers of libraries.
\<close>

text \<open>
  C1. In every reachable state the invariant of the message store and of the reminder table holds.
\<close>

theorem reachable_invariant: "reachable d \<Longrightarrow> store_inv d \<and> reminders_ok d"
proof -
  assume "reachable d"
  then have "full_inv d"
    by induction (simp_all add: full_inv_empty service.step_inv)
  then show ?thesis by (simp add: full_inv_def)
qed

theorem reachable_invariant_witness:
  "store_inv (serve (Cleanup 10 1) empty_db) \<and> reminders_ok (serve (Cleanup 10 1) empty_db)"
  by (rule reachable_invariant) (intro reachable.intros)

text \<open>
  C2. Messages are kept: over any history of operations other than retention, every message row
  lives on with its identity, sender, times and server sequence, a processed row stays processed, a
  terminal verdict stays terminal, and a row that was re-announced stays marked so.
\<close>

theorem history_keeps_messages:
  assumes "store_inv d" "reminders_ok d" "m \<in> set (messages d)"
  shows "\<exists>m'\<in>set (messages (fold exec ops d)).
    envelope_id m' = envelope_id m \<and> sender_slug m' = sender_slug m \<and>
    sent_at m' = sent_at m \<and> received_at m' = received_at m \<and>
    (\<forall>s. server_seq m = Some s \<longrightarrow> server_seq m' = Some s) \<and>
    (processing_state m = Some PROCESSED \<longrightarrow> processing_state m' = Some PROCESSED) \<and>
    (receipt_disposition m = Some TERMINAL \<longrightarrow> receipt_disposition m' = Some TERMINAL) \<and>
    (renotified m \<longrightarrow> renotified m')"
proof -
  have "full_inv d" using assms by (simp add: full_inv_def)
  from store.run_evolves [OF this, of ops] assms(3)
  obtain m' where "m' \<in> set (messages (fold exec ops d))" "message_evolves m m'"
    by (auto simp: store_evolves_def rows_evolve_def)
  then show ?thesis by (intro bexI [of _ m']) (auto simp: message_evolves_def)
qed

theorem history_keeps_messages_witness:
  "\<exists>m'\<in>set (messages (fold exec [Receipts (TombstoneFrom ''alice''), Turns (SetBaseline 1 ''s'' ''c'' 3 None)] gated_db)).
    envelope_id m' = ''e1'' \<and> server_seq m' = Some 4"
proof -
  have m: "gated_row \<in> set (messages gated_db)" "envelope_id gated_row = ''e1''" "server_seq gated_row = Some 4"
    by (simp_all add: gated_db_def gated_row_def sample_row_def sample_payload_def payload_values_def get_default_def)
  have "reminders_ok gated_db" by (simp add: reminders_ok_def gated_db_def empty_db_def)
  note h = history_keeps_messages [OF store_inv_gated_db this m(1),
      of "[Receipts (TombstoneFrom ''alice''), Turns (SetBaseline 1 ''s'' ''c'' 3 None)]", unfolded m(2,3)]
  show ?thesis
  proof (rule bexE [OF h], rule bexI)
    fix m' assume a: "envelope_id m' = ''e1'' \<and> sender_slug m' = sender_slug gated_row \<and>
      sent_at m' = sent_at gated_row \<and> received_at m' = received_at gated_row \<and>
      (\<forall>s. Some 4 = Some s \<longrightarrow> server_seq m' = Some s) \<and>
      (processing_state gated_row = Some PROCESSED \<longrightarrow> processing_state m' = Some PROCESSED) \<and>
      (receipt_disposition gated_row = Some TERMINAL \<longrightarrow> receipt_disposition m' = Some TERMINAL) \<and>
      (renotified gated_row \<longrightarrow> renotified m')"
    then show "envelope_id m' = ''e1'' \<and> server_seq m' = Some 4" by simp
  qed
qed

definition delivered_reminder :: reminder_row where
  "delivered_reminder = deliver_row (reminder_event_id ''o1'') 1004 (claim_row 1000 due_reminder)"

definition delivered_db :: db where
  "delivered_db = empty_db\<lparr>reminder_occurrences := [delivered_reminder]\<rparr>"

lemma delivered_db_ok: "store_inv delivered_db" "reminders_ok delivered_db"
proof -
  show "store_inv delivered_db" by (simp add: delivered_db_def store_inv_empty)
  have "reminder_wf (claim_row 1000 due_reminder)"
    using reminders_ok_claimed by (simp add: reminders_ok_def claimed_db_def)
  then have "reminder_wf delivered_reminder"
    using safe_deliver [of "\<lambda>_. True" "\<lambda>_. True" "''o1''" 1004]
    by (simp add: row_safe_def delivered_reminder_def claim_row_def due_reminder_def new_reminder_def)
  then show "reminders_ok delivered_db" by (simp add: reminders_ok_def delivered_db_def)
qed


text \<open>
  C5. A reminder is delivered at most once: once an occurrence is delivered, after any later history,
  retention of its Inbox event included, the row is still delivered under the same event and times,
  and a further delivery of it does nothing at all.
\<close>

theorem delivered_at_most_once:
  assumes "store_inv d" "reminders_ok d" "r \<in> set (reminder_occurrences d)" "rem_state r = ''delivered''"
  shows "(\<exists>r'. find_reminder (reminder_id r) (fold serve ops d) = Some r' \<and> rem_state r' = ''delivered'' \<and>
      delivered_event_id r' = delivered_event_id r \<and> delivered_at_ms r' = delivered_at_ms r) \<and>
    deliver_claimed_reminder clocks (reminder_id r) now (fold serve ops d) = Inr (None, fold serve ops d)"
proof -
  let ?d = "fold serve ops d"
  have inv: "full_inv d" using assms by (simp add: full_inv_def)
  then have ok: "reminders_ok ?d" using service.run_inv [OF inv, of ops] by (simp add: full_inv_def)
  from service.run_evolves [OF inv, of ops] assms(3)
  obtain r' where r': "r' \<in> set (reminder_occurrences ?d)" "reminder_evolves r r'"
    by (auto simp: reminders_evolve_def)
  then have found: "find_reminder (reminder_id r) ?d = Some r'"
    using find_reminder_in [OF ok r'(1)] by (simp add: reminder_evolves_def)
  have state: "rem_state r' = ''delivered''" using r'(2) assms(4) by (simp add: reminder_evolves_def)
  have none: "\<not> claimed_with_custody (reminder_id r) t x" if "x \<in> set (reminder_occurrences ?d)" for t x
  proof
    assume c: "claimed_with_custody (reminder_id r) t x"
    then have "x = r'"
      using same_reminder [OF ok r'(1) that] r'(2) by (simp add: claimed_with_custody_def reminder_evolves_def)
    with c state show False by (simp add: claimed_with_custody_def)
  qed
  then have "sql_fetchone (claimed_with_custody (reminder_id r) t) (reminder_occurrences ?d) = None" for t
    by (simp add: sql_fetchone_None)
  then have "deliver_claimed_reminder clocks (reminder_id r) now ?d = Inr (None, ?d)"
    by (cases clocks) (simp add: deliver_claimed_reminder_def)
  with found state r'(2) assms(4) show ?thesis by (auto simp: reminder_evolves_def)
qed

theorem delivered_at_most_once_witness:
  "deliver_claimed_reminder (1, 2, 3) ''r1'' 9
      (fold serve [Cleanup 99999999999 1, Op (Reminders (ClaimDue 5000)), Op (Reminders (DeliverDue (\<lambda>_. (1, 2, 3)) 5000))] delivered_db)
   = Inr (None, fold serve [Cleanup 99999999999 1, Op (Reminders (ClaimDue 5000)),
       Op (Reminders (DeliverDue (\<lambda>_. (1, 2, 3)) 5000))] delivered_db)"
proof -
  have r: "delivered_reminder \<in> set (reminder_occurrences delivered_db)"
    "rem_state delivered_reminder = ''delivered''" "reminder_id delivered_reminder = ''r1''"
    by (simp_all add: delivered_db_def delivered_reminder_def deliver_row_def claim_row_def
        due_reminder_def new_reminder_def)
  from delivered_at_most_once [OF delivered_db_ok r(1,2), THEN conjunct2, unfolded r(3)] show ?thesis .
qed

end
